(* ===== verification/Prelude.thy ===== *)
theory Prelude
  imports Complex_Main "HOL-Library.Sublist" "HOL-Library.Word"
begin

text \<open>
  Shared vocabulary of the development: Rust's byte strings and the string operations the
  components call, results, floating point values up to comparison, and the generic lemmas on
  lists and maps that more than one component uses.

  A Rust \<open>String\<close> or \<open>&str\<close> is a \<open>string\<close> here, that is the list of its UTF-8 bytes,
  so \<open>length\<close> is Rust's \<open>len()\<close> and offsets are byte offsets. Text that the code formats for
  a human (error messages, log lines) is kept as a constructor that carries the formatted
  arguments.
\<close>

named_theorems rust_str \<open>Rust string operations unfolded to lists\<close>

section \<open>Results\<close>

text \<open>\<open>Result<T, E>\<close> is \<open>'e + 't\<close>: \<open>Inl\<close> is \<open>Err\<close>, \<open>Inr\<close> is \<open>Ok\<close>.\<close>

type_synonym ('t, 'e) result = "'e + 't"

abbreviation Err :: "'e \<Rightarrow> 'e + 't" where
  "Err \<equiv> Inl"

abbreviation Ok :: "'t \<Rightarrow> 'e + 't" where
  "Ok \<equiv> Inr"

definition is_ok :: "'e + 't \<Rightarrow> bool" where
  "is_ok r = (case r of Inl _ \<Rightarrow> False | Inr _ \<Rightarrow> True)"

lemma is_ok_simps [simp]: "is_ok (Inr x)" "\<not> is_ok (Inl e)"
  by (simp_all add: is_ok_def)

lemma is_ok_conv: "is_ok r \<longleftrightarrow> (\<exists>x. r = Inr x)"
  by (cases r) simp_all

lemma map_sum_Inr: "map_sum g f r = Inr x \<longleftrightarrow> (\<exists>y. r = Inr y \<and> x = f y)"
  by (cases r) auto

lemma map_sum_Inl: "map_sum g f r = Inl x \<longleftrightarrow> (\<exists>y. r = Inl y \<and> x = g y)"
  by (cases r) auto

section \<open>Rust string operations\<close>

definition starts_with :: "string \<Rightarrow> string \<Rightarrow> bool" where
  "starts_with v p = prefix p v"

definition ends_with :: "string \<Rightarrow> string \<Rightarrow> bool" where
  "ends_with v s = suffix s v"

definition contains_str :: "string \<Rightarrow> string \<Rightarrow> bool" where
  "contains_str v s = sublist s v"

definition strip_prefix :: "string \<Rightarrow> string \<Rightarrow> string option" where
  "strip_prefix p v = (if prefix p v then Some (drop (length p) v) else None)"

definition strip_suffix :: "string \<Rightarrow> string \<Rightarrow> string option" where
  "strip_suffix s v = (if suffix s v then Some (take (length v - length s) v) else None)"

fun str_find :: "char \<Rightarrow> string \<Rightarrow> nat option" where
  "str_find c [] = None"
| "str_find c (x # xs) = (if x = c then Some 0 else map_option Suc (str_find c xs))"

lemma str_find_None [simp]: "str_find c s = None \<longleftrightarrow> c \<notin> set s"
  by (induction s) auto

lemma str_find_Some:
  "str_find c s = Some i \<Longrightarrow> s = take i s @ c # drop (Suc i) s \<and> c \<notin> set (take i s)"
  by (induction s arbitrary: i) (auto split: if_splits)

lemma strip_prefix_Some [rust_str]: "strip_prefix p v = Some t \<longleftrightarrow> v = p @ t"
  by (auto simp: strip_prefix_def prefix_def)

lemma strip_suffix_Some [rust_str]: "strip_suffix s v = Some t \<longleftrightarrow> v = t @ s"
  by (auto simp: strip_suffix_def suffix_def)

lemma strip_prefix_None [rust_str]: "strip_prefix p v = None \<longleftrightarrow> \<not> prefix p v"
  by (simp add: strip_prefix_def)

lemma strip_suffix_None [rust_str]: "strip_suffix s v = None \<longleftrightarrow> \<not> suffix s v"
  by (simp add: strip_suffix_def)

section \<open>Floating point values, up to comparison\<close>

text \<open>
  Every finite \<open>f64\<close> is a rational number. Where the code only compares \<open>f64\<close> values the model
  keeps them as one of the IEEE classes with the exact rational of a finite value; a comparison
  with NaN is false, as in Rust's \<open>PartialOrd\<close>.
\<close>

datatype f64 = NaN | NegInf | Fin rat | PosInf

fun f64_ge :: "f64 \<Rightarrow> f64 \<Rightarrow> bool" where
  "f64_ge NaN _ = False"
| "f64_ge _ NaN = False"
| "f64_ge PosInf _ = True"
| "f64_ge _ NegInf = True"
| "f64_ge (Fin a) (Fin b) = (b \<le> a)"
| "f64_ge _ _ = False"

lemma f64_ge_trans: "f64_ge a b \<Longrightarrow> f64_ge b c \<Longrightarrow> f64_ge a c"
  by (cases a; cases b; cases c) auto

lemma f64_ge_refl [simp]: "f64_ge a a \<longleftrightarrow> a \<noteq> NaN"
  by (cases a) auto

section \<open>Lists\<close>

lemma list_all_transfer:
  "(\<And>x. x \<in> set xs \<Longrightarrow> P x \<Longrightarrow> Q x) \<Longrightarrow> list_all P xs \<Longrightarrow> list_all Q xs"
  by (auto simp: list_all_iff)

section \<open>Keyed stores\<close>

text \<open>
  Many components keep a concurrent map from an id to a value and expose insert, lookup and
  remove. \<open>keyed_store\<close> is that interface; what a client observes after any sequence of
  operations is what the same sequence does to a plain map.
\<close>

datatype ('k, 'v) store_op = Put 'k 'v | Del 'k

fun apply_op :: "('k \<rightharpoonup> 'v) \<Rightarrow> ('k, 'v) store_op \<Rightarrow> ('k \<rightharpoonup> 'v)" where
  "apply_op m (Put k v) = m(k \<mapsto> v)"
| "apply_op m (Del k) = m(k := None)"

fun run_store ::
  "('s \<Rightarrow> 'k \<Rightarrow> 'v \<Rightarrow> 's) \<Rightarrow> ('s \<Rightarrow> 'k \<Rightarrow> 's) \<Rightarrow> 's \<Rightarrow> ('k, 'v) store_op list \<Rightarrow> 's" where
  "run_store put del s [] = s"
| "run_store put del s (Put k v # ops) = run_store put del (put s k v) ops"
| "run_store put del s (Del k # ops) = run_store put del (del s k) ops"

locale keyed_store =
  fixes put :: "'s \<Rightarrow> 'k \<Rightarrow> 'v \<Rightarrow> 's"
    and get :: "'s \<Rightarrow> 'k \<Rightarrow> 'v option"
    and del :: "'s \<Rightarrow> 'k \<Rightarrow> 's"
  assumes get_put: "get (put s k v) = (get s)(k \<mapsto> v)"
    and get_del: "get (del s k) = (get s)(k := None)"
begin

lemma get_put_same [simp]: "get (put s k v) k = Some v"
  by (simp add: get_put)

lemma get_del_same [simp]: "get (del s k) k = None"
  by (simp add: get_del)

lemma get_run: "get (run_store put del s ops) = foldl apply_op (get s) ops"
proof (induction ops arbitrary: s)
  case Nil
  show ?case by simp
next
  case (Cons op ops)
  then show ?case by (cases op) (simp_all add: get_put get_del fun_upd_def)
qed

lemma get_run_untouched:
  "(\<forall>v. Put k v \<notin> set ops) \<Longrightarrow> Del k \<notin> set ops \<Longrightarrow> get (run_store put del s ops) k = get s k"
proof (induction ops arbitrary: s)
  case Nil
  show ?case by simp
next
  case (Cons op ops)
  then show ?case by (cases op) (auto simp: get_put get_del)
qed

end

section \<open>Delegation\<close>

text \<open>
  A holder of the list \<open>gs\<close> may do what one of its grants matches. A delegation chain hands on
  only what the previous holder may do; when matching composes on the patterns in use, nobody in
  the chain can do more than its head.
\<close>

definition may :: "('g \<Rightarrow> 'g \<Rightarrow> bool) \<Rightarrow> 'g list \<Rightarrow> 'g \<Rightarrow> bool" where
  "may m gs r = list_ex (\<lambda>g. m g r) gs"

fun delegation_chain :: "('g \<Rightarrow> 'g \<Rightarrow> bool) \<Rightarrow> 'g list \<Rightarrow> 'g list list \<Rightarrow> bool" where
  "delegation_chain m gs [] = True"
| "delegation_chain m gs (hs # rest) = (list_all (may m gs) hs \<and> delegation_chain m hs rest)"

fun chain_end :: "'g list \<Rightarrow> 'g list list \<Rightarrow> 'g list" where
  "chain_end gs [] = gs"
| "chain_end gs (hs # rest) = chain_end hs rest"

locale delegation =
  fixes matches :: "'g \<Rightarrow> 'g \<Rightarrow> bool" and plain :: "'g \<Rightarrow> bool"
  assumes matches_trans: "plain p \<Longrightarrow> matches p c \<Longrightarrow> matches c r \<Longrightarrow> matches p r"
begin

lemma may_trans:
  "list_all plain gs \<Longrightarrow> list_all (may matches gs) hs \<Longrightarrow> may matches hs r \<Longrightarrow> may matches gs r"
  unfolding may_def list_all_iff list_ex_iff by (blast intro: matches_trans)

lemma chain_sound:
  "delegation_chain matches gs chain \<Longrightarrow> list_all plain gs \<Longrightarrow> list_all (list_all plain) chain
   \<Longrightarrow> may matches (chain_end gs chain) r \<Longrightarrow> may matches gs r"
proof (induction chain arbitrary: gs)
  case Nil
  then show ?case by simp
next
  case (Cons hs rest)
  from Cons.prems have "may matches hs r" by (auto intro: Cons.IH)
  with Cons.prems show ?case by (auto intro: may_trans)
qed

end

end
