(* ===== verification/Capability.thy ===== *)
theory Capability
  imports Prelude
begin

text \<open>
  Capability based security: \<open>clawreform-types/src/capability.rs\<close> (the permissions, the matching of
  a required capability against a granted one, and the check that a child agent asks for no more
  than its parent holds) and \<open>clawreform-kernel/src/capabilities.rs\<close> (the grants per agent).
\<close>

section \<open>Permissions and matching\<close>

datatype capability =
    FileRead string
  | FileWrite string
  | NetConnect string
  | NetListen "16 word"
  | ToolInvoke string
  | ToolAll
  | LlmQuery string
  | LlmMaxTokens "64 word"
  | AgentSpawn
  | AgentMessage string
  | AgentKill string
  | MemoryRead string
  | MemoryWrite string
  | ShellExec string
  | EnvRead string
  | OfpDiscover
  | OfpConnect string
  | OfpAdvertise
  | EconSpend f64
  | EconEarn
  | EconTransfer string

definition glob_matches :: "string \<Rightarrow> string \<Rightarrow> bool" where
  "glob_matches pattern val =
     (if pattern = ''*'' then True
      else if pattern = val then True
      else case strip_prefix ''*'' pattern of
        Some sfx \<Rightarrow> ends_with val sfx
      | None \<Rightarrow>
          (case strip_suffix ''*'' pattern of
             Some pfx \<Rightarrow> starts_with val pfx
           | None \<Rightarrow>
               (case str_find (CHR ''*'') pattern of
                  Some star_pos \<Rightarrow>
                    (let pfx = take star_pos pattern; sfx = drop (star_pos + 1) pattern
                     in starts_with val pfx \<and> ends_with val sfx
                        \<and> length pfx + length sfx \<le> length val)
                | None \<Rightarrow> False)))"

fun capability_matches :: "capability \<Rightarrow> capability \<Rightarrow> bool" where
  "capability_matches ToolAll required = (case required of ToolInvoke _ \<Rightarrow> True | _ \<Rightarrow> False)"
| "capability_matches (FileRead pattern) required =
     (case required of FileRead path \<Rightarrow> glob_matches pattern path | _ \<Rightarrow> False)"
| "capability_matches (FileWrite pattern) required =
     (case required of FileWrite path \<Rightarrow> glob_matches pattern path | _ \<Rightarrow> False)"
| "capability_matches (NetConnect pattern) required =
     (case required of NetConnect host \<Rightarrow> glob_matches pattern host | _ \<Rightarrow> False)"
| "capability_matches (ToolInvoke granted_id) required =
     (case required of ToolInvoke required_id \<Rightarrow> granted_id = required_id \<or> granted_id = ''*'' | _ \<Rightarrow> False)"
| "capability_matches (LlmQuery pattern) required =
     (case required of LlmQuery model \<Rightarrow> glob_matches pattern model | _ \<Rightarrow> False)"
| "capability_matches (AgentMessage pattern) required =
     (case required of AgentMessage target \<Rightarrow> glob_matches pattern target | _ \<Rightarrow> False)"
| "capability_matches (AgentKill pattern) required =
     (case required of AgentKill target \<Rightarrow> glob_matches pattern target | _ \<Rightarrow> False)"
| "capability_matches (MemoryRead pattern) required =
     (case required of MemoryRead scope \<Rightarrow> glob_matches pattern scope | _ \<Rightarrow> False)"
| "capability_matches (MemoryWrite pattern) required =
     (case required of MemoryWrite scope \<Rightarrow> glob_matches pattern scope | _ \<Rightarrow> False)"
| "capability_matches (ShellExec pattern) required =
     (case required of ShellExec cmd \<Rightarrow> glob_matches pattern cmd | _ \<Rightarrow> False)"
| "capability_matches (EnvRead pattern) required =
     (case required of EnvRead var \<Rightarrow> glob_matches pattern var | _ \<Rightarrow> False)"
| "capability_matches (OfpConnect pattern) required =
     (case required of OfpConnect peer \<Rightarrow> glob_matches pattern peer | _ \<Rightarrow> False)"
| "capability_matches (EconTransfer pattern) required =
     (case required of EconTransfer target \<Rightarrow> glob_matches pattern target | _ \<Rightarrow> False)"
| "capability_matches AgentSpawn required = (case required of AgentSpawn \<Rightarrow> True | _ \<Rightarrow> False)"
| "capability_matches OfpDiscover required = (case required of OfpDiscover \<Rightarrow> True | _ \<Rightarrow> False)"
| "capability_matches OfpAdvertise required = (case required of OfpAdvertise \<Rightarrow> True | _ \<Rightarrow> False)"
| "capability_matches EconEarn required = (case required of EconEarn \<Rightarrow> True | _ \<Rightarrow> False)"
| "capability_matches (NetListen granted_port) required =
     (case required of NetListen required_port \<Rightarrow> granted_port = required_port | _ \<Rightarrow> False)"
| "capability_matches (LlmMaxTokens granted_max) required =
     (case required of LlmMaxTokens required_max \<Rightarrow> required_max \<le> granted_max | _ \<Rightarrow> False)"
| "capability_matches (EconSpend granted_max) required =
     (case required of EconSpend required_amount \<Rightarrow> f64_ge granted_max required_amount | _ \<Rightarrow> False)"

section \<open>Capability checks\<close>

text \<open>
  The reasons are formatted messages in the code; a constructor keeps what each one mentions.
\<close>

type_synonym agent_id = nat

datatype denial =
    NoCapabilitiesRegistered agent_id
  | DoesNotHave agent_id capability

datatype capability_check = Granted | Denied denial

definition is_granted :: "capability_check \<Rightarrow> bool" where
  "is_granted c = (case c of Granted \<Rightarrow> True | Denied _ \<Rightarrow> False)"

datatype capability_error = CapabilityDenied denial

definition require_granted :: "capability_check \<Rightarrow> (unit, capability_error) result" where
  "require_granted c = (case c of Granted \<Rightarrow> Ok () | Denied reason \<Rightarrow> Err (CapabilityDenied reason))"

section \<open>Inheritance\<close>

datatype inheritance_error = PrivilegeEscalation capability

fun validate_capability_inheritance ::
  "capability list \<Rightarrow> capability list \<Rightarrow> (unit, inheritance_error) result" where
  "validate_capability_inheritance parent_caps [] = Ok ()"
| "validate_capability_inheritance parent_caps (child_cap # rest) =
     (let is_covered = list_ex (\<lambda>parent_cap. capability_matches parent_cap child_cap) parent_caps
      in if \<not> is_covered then Err (PrivilegeEscalation child_cap)
         else validate_capability_inheritance parent_caps rest)"

section \<open>The capability manager\<close>

record capability_manager =
  grants :: "agent_id \<rightharpoonup> capability list"

definition new_manager :: capability_manager where
  "new_manager = \<lparr>grants = Map.empty\<rparr>"

definition grant :: "capability_manager \<Rightarrow> agent_id \<Rightarrow> capability list \<Rightarrow> capability_manager" where
  "grant m agent_id capabilities = m\<lparr>grants := (grants m)(agent_id \<mapsto> capabilities)\<rparr>"

fun check_grants :: "agent_id \<Rightarrow> capability \<Rightarrow> capability list \<Rightarrow> capability_check" where
  "check_grants agent_id required [] = Denied (DoesNotHave agent_id required)"
| "check_grants agent_id required (granted # rest) =
     (if capability_matches granted required then Granted
      else check_grants agent_id required rest)"

definition check :: "capability_manager \<Rightarrow> agent_id \<Rightarrow> capability \<Rightarrow> capability_check" where
  "check m agent_id required =
     (case grants m agent_id of
        None \<Rightarrow> Denied (NoCapabilitiesRegistered agent_id)
      | Some gs \<Rightarrow> check_grants agent_id required gs)"

definition list_capabilities :: "capability_manager \<Rightarrow> agent_id \<Rightarrow> capability list" where
  "list_capabilities m agent_id = (case grants m agent_id of None \<Rightarrow> [] | Some g \<Rightarrow> g)"

definition revoke_all :: "capability_manager \<Rightarrow> agent_id \<Rightarrow> capability_manager" where
  "revoke_all m agent_id = m\<lparr>grants := (grants m)(agent_id := None)\<rparr>"

section \<open>Matching composes on patterns with at most one star\<close>

definition one_star :: "string \<Rightarrow> bool" where
  "one_star p = (count_list p (CHR ''*'') \<le> 1)"

lemma star_free_prefix:
  assumes "CHR ''*'' \<notin> set p" and "prefix p (x @ CHR ''*'' # y)"
  shows "prefix p x"
  using assms
proof (induction x arbitrary: p)
  case Nil
  then show ?case by (cases p) auto
next
  case (Cons a x)
  then show ?case by (cases p) auto
qed

lemma star_free_suffix:
  assumes "CHR ''*'' \<notin> set s" and "suffix s (x @ CHR ''*'' # y)"
  shows "suffix s y"
proof -
  from assms(2) have "prefix (rev s) (rev (x @ CHR ''*'' # y))"
    by (simp only: suffix_to_prefix)
  then have "prefix (rev s) (rev y @ CHR ''*'' # rev x)" by simp
  moreover from assms(1) have "CHR ''*'' \<notin> set (rev s)" by simp
  ultimately have "prefix (rev s) (rev y)" by (rule star_free_prefix [rotated])
  then show ?thesis by (simp only: suffix_to_prefix)
qed

text \<open>What a successful match says of any pattern.\<close>

lemma glob_matchesD:
  assumes "glob_matches c v" and "c \<noteq> v"
  shows "\<exists>x y. c = x @ CHR ''*'' # y \<and> prefix x v \<and> suffix y v \<and> length x + length y \<le> length v"
proof -
  consider (tail) s where "c = CHR ''*'' # s" "suffix s v"
    | (front) p where "c = p @ ''*''" "prefix p v"
    | (middle) i where "str_find (CHR ''*'') c = Some i" "prefix (take i c) v"
        "suffix (drop (Suc i) c) v" "length (take i c) + length (drop (Suc i) c) \<le> length v"
  proof (cases "strip_prefix ''*'' c")
    case (Some s)
    then have c: "c = CHR ''*'' # s" by (simp add: strip_prefix_Some)
    show ?thesis
    proof (cases "c = ''*''")
      case True
      with c tail [of s] show ?thesis by simp
    next
      case False
      with Some assms have "suffix s v" by (simp add: glob_matches_def ends_with_def)
      with c tail show ?thesis by blast
    qed
  next
    case None
    then have ns: "c \<noteq> ''*''" by (auto simp: strip_prefix_None)
    show ?thesis
    proof (cases "strip_suffix ''*'' c")
      case (Some p)
      with None ns assms have "prefix p v" by (simp add: glob_matches_def starts_with_def)
      with Some front show ?thesis by (simp add: strip_suffix_Some)
    next
      case no_suffix: None
      show ?thesis
      proof (cases "str_find (CHR ''*'') c")
        case (Some i)
        with None no_suffix ns assms middle [of i] show ?thesis
          by (simp add: glob_matches_def starts_with_def ends_with_def Let_def)
      next
        case no_star: None
        with None no_suffix ns assms show ?thesis by (simp add: glob_matches_def)
      qed
    qed
  qed
  then show ?thesis
  proof cases
    case tail
    then have "c = [] @ CHR ''*'' # s \<and> prefix [] v \<and> suffix s v \<and> length ([]::string) + length s \<le> length v"
      by (auto simp: suffix_length_le)
    then show ?thesis by blast
  next
    case front
    then have "c = p @ CHR ''*'' # [] \<and> prefix p v \<and> suffix [] v \<and> length p + length ([]::string) \<le> length v"
      by (auto simp: prefix_length_le)
    then show ?thesis by blast
  next
    case middle
    then show ?thesis using str_find_Some by blast
  qed
qed

text \<open>And the exact meaning of a pattern with one star.\<close>

lemma str_find_star: "CHR ''*'' \<notin> set x \<Longrightarrow> str_find (CHR ''*'') (x @ CHR ''*'' # y) = Some (length x)"
  by (induction x) auto

lemma glob_matches_one_star:
  assumes "CHR ''*'' \<notin> set x" and "CHR ''*'' \<notin> set y"
    and "prefix x v" and "suffix y v" and "length x + length y \<le> length v"
  shows "glob_matches (x @ CHR ''*'' # y) v"
proof (cases x)
  case Nil
  with assms show ?thesis
    by (simp add: glob_matches_def strip_prefix_def ends_with_def)
next
  case (Cons a as)
  with assms(1) have "a \<noteq> CHR ''*''" by auto
  then have sp: "strip_prefix ''*'' (x @ CHR ''*'' # y) = None"
    using Cons by (simp add: rust_str)
  show ?thesis
  proof (cases "y = []")
    case True
    then have "strip_suffix ''*'' (x @ CHR ''*'' # y) = Some x" by (simp add: rust_str)
    with sp assms show ?thesis by (simp add: glob_matches_def starts_with_def)
  next
    case False
    then have "strip_suffix ''*'' (x @ CHR ''*'' # y) = None"
      using assms(2) by (cases y rule: rev_cases) (auto simp: rust_str suffix_def)
    with sp assms show ?thesis
      by (simp add: glob_matches_def starts_with_def ends_with_def str_find_star Let_def)
  qed
qed

lemma one_star_cases:
  assumes "one_star p"
  obtains "CHR ''*'' \<notin> set p"
  | x y where "p = x @ CHR ''*'' # y" "CHR ''*'' \<notin> set x" "CHR ''*'' \<notin> set y"
proof (cases "CHR ''*'' \<in> set p")
  case True
  then obtain x y where xy: "p = x @ CHR ''*'' # y" "CHR ''*'' \<notin> set x"
    by (meson split_list_first)
  with assms have "CHR ''*'' \<notin> set y"
    by (simp add: one_star_def count_list_0_iff)
  with xy that(2) show ?thesis by blast
qed (use that(1) in blast)

lemma glob_matches_trans:
  assumes "one_star p" and pc: "glob_matches p c" and cv: "glob_matches c v"
  shows "glob_matches p v"
proof (cases "p = c \<or> c = v")
  case True
  with pc cv show ?thesis by auto
next
  case False
  then obtain a b where p: "p = a @ CHR ''*'' # b" "prefix a c" "suffix b c"
    and c: "c \<noteq> v"
    using glob_matchesD [OF pc] by blast
  with \<open>one_star p\<close> have ab: "CHR ''*'' \<notin> set a" "CHR ''*'' \<notin> set b"
    by (auto simp: one_star_def count_list_0_iff)
  obtain x y where xy: "c = x @ CHR ''*'' # y" "prefix x v" "suffix y v"
    "length x + length y \<le> length v"
    using glob_matchesD [OF cv c] by blast
  have "prefix a x" "suffix b y"
    using star_free_prefix [OF ab(1)] star_free_suffix [OF ab(2)] p xy by blast+
  then have "prefix a v" "suffix b v" "length a + length b \<le> length v"
    using xy prefix_length_le [of a x] suffix_length_le [of b y]
    by (auto intro: prefix_order.trans suffix_order.trans)
  with ab show ?thesis unfolding p(1) by (intro glob_matches_one_star)
qed

section \<open>No escalation along a chain of spawned agents\<close>

text \<open>\<open>simple_cap\<close>: every pattern the capability carries has at most one star.\<close>

fun simple_cap :: "capability \<Rightarrow> bool" where
  "simple_cap (FileRead p) = one_star p"
| "simple_cap (FileWrite p) = one_star p"
| "simple_cap (NetConnect p) = one_star p"
| "simple_cap (LlmQuery p) = one_star p"
| "simple_cap (AgentMessage p) = one_star p"
| "simple_cap (AgentKill p) = one_star p"
| "simple_cap (MemoryRead p) = one_star p"
| "simple_cap (MemoryWrite p) = one_star p"
| "simple_cap (ShellExec p) = one_star p"
| "simple_cap (EnvRead p) = one_star p"
| "simple_cap (OfpConnect p) = one_star p"
| "simple_cap (EconTransfer p) = one_star p"
| "simple_cap _ = True"

lemma capability_matches_trans:
  "simple_cap p \<Longrightarrow> capability_matches p c \<Longrightarrow> capability_matches c r \<Longrightarrow> capability_matches p r"
  by (cases p; cases c; simp; cases r; auto intro: glob_matches_trans f64_ge_trans order.trans)

interpretation cap: delegation capability_matches simple_cap
  by unfold_locales (rule capability_matches_trans)

lemma validate_ok_iff:
  "validate_capability_inheritance ps cs = Ok () \<longleftrightarrow> list_all (may capability_matches ps) cs"
  by (induction ps cs rule: validate_capability_inheritance.induct) (auto simp: may_def)

lemma validate_eq:
  "validate_capability_inheritance ps cs =
     (case find (\<lambda>c. \<not> may capability_matches ps c) cs of
        None \<Rightarrow> Ok () | Some c \<Rightarrow> Err (PrivilegeEscalation c))"
  by (induction ps cs rule: validate_capability_inheritance.induct) (auto simp: may_def)

lemma check_grants_iff: "check_grants a r gs = Granted \<longleftrightarrow> may capability_matches gs r"
  by (induction a r gs rule: check_grants.induct) (auto simp: may_def)

fun validated_chain :: "capability list \<Rightarrow> capability list list \<Rightarrow> bool" where
  "validated_chain gs [] = True"
| "validated_chain gs (hs # rest) =
     (validate_capability_inheritance gs hs = Ok () \<and> validated_chain hs rest)"

lemma validated_chain_delegates: "validated_chain gs chain = delegation_chain capability_matches gs chain"
  by (induction gs chain rule: validated_chain.induct) (simp_all add: validate_ok_iff)

lemma simple_wild [simp]: "one_star ''*''"
  by (simp add: one_star_def)

text \<open>The manager is a keyed store of grant lists.\<close>

interpretation manager: keyed_store grant grants revoke_all
  by unfold_locales (simp_all add: grant_def revoke_all_def)

lemma check_iff:
  "check m a r = Granted \<longleftrightarrow> (\<exists>gs. grants m a = Some gs \<and> may capability_matches gs r)"
  by (simp add: check_def check_grants_iff split: option.splits)

section \<open>Properties\<close>

text \<open>
  C10: privilege escalation is impossible along a chain of spawned agents. If every child's list was
  accepted against its parent's, and no pattern of an ancestor has more than one star, then whatever the last
  agent of the chain is granted, the first one is granted too. The proof goes through the
  delegation interface: matching composes on such patterns.
\<close>

theorem no_escalation_along_chain:
  assumes "validated_chain first_caps chain"
    and "list_all simple_cap first_caps" and "list_all (list_all simple_cap) chain"
    and "check_grants child required (chain_end first_caps chain) = Granted"
  shows "check_grants ancestor required first_caps = Granted"
  using assms cap.chain_sound [of first_caps chain required]
  by (simp add: check_grants_iff validated_chain_delegates)

theorem no_escalation_along_chain_witness:
  "check_grants 1 (FileRead ''/data/a/x.txt'') [FileRead ''/data/*'', ToolAll] = Granted"
  by (rule no_escalation_along_chain [where child = 3
        and chain = "[[ToolInvoke ''file_read'', FileRead ''/data/a/*''], [FileRead ''/data/a/*.txt'']]"])
    (simp_all add: glob_matches_def starts_with_def ends_with_def rust_str strip_prefix_def
      strip_suffix_def one_star_def suffix_to_prefix Let_def)

text \<open>
  Outside one star per pattern the check does not prevent escalation. The kernel accepts a
  child that asks for \<open>/data/*/x.txt\<close> from a parent holding \<open>/data/*/x*\<close>; the child may then read
  a file that the parent itself may not.
\<close>

theorem multi_star_escalation:
  "validate_capability_inheritance [FileRead ''/data/*/x*''] [FileRead ''/data/*/x.txt''] = Ok ()
   \<and> capability_matches (FileRead ''/data/*/x.txt'') (FileRead ''/data/s/x.txt'')
   \<and> \<not> capability_matches (FileRead ''/data/*/x*'') (FileRead ''/data/s/x.txt'')"
  by (simp add: glob_matches_def starts_with_def ends_with_def strip_prefix_def
      strip_suffix_def suffix_to_prefix Let_def)

text \<open>
  The outcome of the inheritance check. It accepts exactly when every requested capability is
  matched by one the parent holds, and otherwise names the first one that is not. A request for
  \<open>ToolAll\<close> is never accepted, not even from a parent that holds \<open>ToolAll\<close> itself.
\<close>

theorem inheritance_check_outcome:
  "validate_capability_inheritance ps cs =
     (case find (\<lambda>c. \<not> list_ex (\<lambda>p. capability_matches p c) ps) cs of
        None \<Rightarrow> Ok () | Some c \<Rightarrow> Err (PrivilegeEscalation c))
   \<and> validate_capability_inheritance ps [ToolAll] = Err (PrivilegeEscalation ToolAll)"
proof -
  have "\<not> may capability_matches ps ToolAll"
    by (auto simp: may_def list_ex_iff elim!: capability_matches.elims(2) split: capability.splits)
  then show ?thesis by (simp add: validate_eq may_def)
qed

text \<open>
  The capability manager refines a plain map of grant lists. After any sequence of grants and
  revocations a check succeeds exactly when the agent's latest unrevoked grant list has a matching
  entry; an agent without an entry is denied for that reason, whatever it asks for.
\<close>

theorem manager_refines_map:
  "check (run_store grant revoke_all new_manager ops) a r =
     (case foldl apply_op Map.empty ops a of
        None \<Rightarrow> Denied (NoCapabilitiesRegistered a)
      | Some gs \<Rightarrow> if list_ex (\<lambda>g. capability_matches g r) gs then Granted
                  else Denied (DoesNotHave a r))"
proof -
  have deny: "\<not> may capability_matches gs r \<Longrightarrow> check_grants a r gs = Denied (DoesNotHave a r)" for gs
    by (induction gs) (auto simp: may_def)
  have "grants (run_store grant revoke_all new_manager ops) = foldl apply_op Map.empty ops"
    by (simp add: manager.get_run new_manager_def)
  then show ?thesis
    by (auto simp: check_def check_grants_iff may_def [symmetric] deny split: option.splits)
qed

end
