(* ===== verification/Str_Utils.thy ===== *)
theory Str_Utils
  imports Prelude
begin

text \<open>
  UTF-8 aware slicing and ASCII case folding of byte strings, and \<open>safe_truncate_str\<close> of
  \<open>clawreform-runtime/src/str_utils.rs\<close>, which the loop guard and the session repair use.
\<close>

section \<open>Character boundaries\<close>

text \<open>
  A UTF-8 continuation byte is \<open>10xxxxxx\<close>. \<open>str::is_char_boundary\<close> holds at both ends of the
  string and before every byte that is not a continuation byte; slicing elsewhere panics.
\<close>

definition is_cont :: "char \<Rightarrow> bool" where
  "is_cont c = ((of_char c :: nat) div 64 = 2)"

definition is_char_boundary :: "string \<Rightarrow> nat \<Rightarrow> bool" where
  "is_char_boundary s i =
     (i = 0 \<or> i = length s \<or> (i < length s \<and> \<not> is_cont (s ! i)))"

datatype panic = SliceNotOnBoundary | IndexOutOfBounds | AttemptToOverflow

definition slice_to :: "string \<Rightarrow> nat \<Rightarrow> (string, panic) result" where
  "slice_to s n =
     (if n > length s then Err IndexOutOfBounds
      else if is_char_boundary s n then Ok (take n s) else Err SliceNotOnBoundary)"

definition slice_from :: "string \<Rightarrow> nat \<Rightarrow> (string, panic) result" where
  "slice_from s i =
     (if i > length s then Err IndexOutOfBounds
      else if is_char_boundary s i then Ok (drop i s) else Err SliceNotOnBoundary)"

definition slice :: "string \<Rightarrow> nat \<Rightarrow> nat \<Rightarrow> (string, panic) result" where
  "slice s i j =
     (if i > j \<or> j > length s then Err IndexOutOfBounds
      else if is_char_boundary s i \<and> is_char_boundary s j then Ok (take (j - i) (drop i s))
      else Err SliceNotOnBoundary)"

text \<open>Text of single-byte characters, which can be cut anywhere.\<close>

definition single_bytes :: "string \<Rightarrow> bool" where
  "single_bytes s = list_all (\<lambda>c. \<not> is_cont c) s"

lemma single_bytes_simps [simp]:
  "single_bytes [] \<longleftrightarrow> True"
  "single_bytes (c # s) \<longleftrightarrow> \<not> is_cont c \<and> single_bytes s"
  "single_bytes (s @ t) \<longleftrightarrow> single_bytes s \<and> single_bytes t"
  by (simp_all add: single_bytes_def)

lemma single_bytes_drop: "single_bytes s \<Longrightarrow> single_bytes (drop n s)"
  by (auto simp: single_bytes_def list_all_iff dest: in_set_dropD)

lemma single_bytes_boundary: "single_bytes s \<Longrightarrow> i \<le> length s \<Longrightarrow> is_char_boundary s i"
  by (auto simp: is_char_boundary_def single_bytes_def list_all_length)

lemma single_bytes_slice:
  "single_bytes s \<Longrightarrow> i \<le> j \<Longrightarrow> j \<le> length s \<Longrightarrow> slice s i j = Ok (take (j - i) (drop i s))"
  by (simp add: slice_def single_bytes_boundary)

lemma single_bytes_slice_to: "single_bytes s \<Longrightarrow> j \<le> length s \<Longrightarrow> slice_to s j = Ok (take j s)"
  by (simp add: slice_to_def single_bytes_boundary)

section \<open>Search\<close>

text \<open>\<open>str::find\<close> with a string: the offset of the first occurrence.\<close>

fun find_sub :: "string \<Rightarrow> string \<Rightarrow> nat option" where
  "find_sub m [] = (if m = [] then Some 0 else None)"
| "find_sub m (c # s) = (if prefix m (c # s) then Some 0 else map_option Suc (find_sub m s))"

lemma find_sub_bound: "find_sub m s = Some i \<Longrightarrow> i + length m \<le> length s"
proof (induction s arbitrary: i)
  case (Cons c s)
  then show ?case using prefix_length_le [of m "c # s"] by (auto split: if_splits)
qed (auto split: if_splits)

lemma find_sub_Some:
  "find_sub m s = Some i \<Longrightarrow> prefix m (drop i s) \<and> (\<forall>j < i. \<not> prefix m (drop j s))"
proof (induction s arbitrary: i)
  case (Cons c s)
  show ?case
  proof (cases "prefix m (c # s)")
    case True
    with Cons.prems show ?thesis by auto
  next
    case False
    with Cons.prems obtain k where k: "i = Suc k" "find_sub m s = Some k" by auto
    from Cons.IH [OF k(2)] False show ?thesis
      unfolding k(1) by (auto simp: less_Suc_eq_0_disj)
  qed
qed (auto split: if_splits)

lemma find_sub_None: "find_sub m s = None \<Longrightarrow> \<not> prefix m (drop j s)"
proof (induction s arbitrary: j)
  case (Cons c s)
  then show ?case by (cases j) (auto split: if_splits)
qed (auto split: if_splits)

lemma find_sub_append: "find_sub m s = Some e \<Longrightarrow> find_sub m (s @ t) = Some e"
proof (induction s arbitrary: e)
  case (Cons c s)
  show ?case
  proof (cases "prefix m (c # s)")
    case True
    then have "prefix m (c # s @ t)" by (metis append_Cons prefix_prefix)
    with True Cons.prems show ?thesis by simp
  next
    case False
    with Cons.prems obtain k where k: "e = Suc k" "find_sub m s = Some k" by auto
    then have "length m \<le> length (c # s)" using find_sub_bound [OF k(2)] by simp
    with False have "\<not> prefix m ((c # s) @ t)"
      using prefix_length_prefix [of m "(c # s) @ t" "c # s"] by auto
    with k Cons.IH [OF k(2)] show ?thesis by simp
  qed
qed (cases t; simp split: if_splits)

lemma find_sub_skip:
  "m \<noteq> [] \<Longrightarrow> hd m \<notin> set u \<Longrightarrow> find_sub m (u @ v) = map_option (\<lambda>i. length u + i) (find_sub m v)"
proof (induction u)
  case Nil
  then show ?case by (cases "find_sub m v") auto
next
  case (Cons c u)
  then have "\<not> prefix m (c # u @ v)" by (cases m) auto
  with Cons show ?case by (cases "find_sub m v") auto
qed

lemma find_sub_here: "m \<noteq> [] \<Longrightarrow> find_sub m (m @ v) = Some 0"
  by (cases m) auto

lemma find_sub_free: "m \<noteq> [] \<Longrightarrow> hd m \<notin> set u \<Longrightarrow> find_sub m (u @ m @ v) = Some (length u)"
  by (simp add: find_sub_skip find_sub_here)

lemma str_find_first: "c \<notin> set u \<Longrightarrow> str_find c (u @ c # v) = Some (length u)"
  by (induction u) auto

section \<open>Splitting\<close>

text \<open>\<open>str::split\<close> at a character: always one part more than there are separators.\<close>

fun split_on :: "char \<Rightarrow> string \<Rightarrow> string list" where
  "split_on c [] = [[]]"
| "split_on c (x # xs) =
     (if x = c then [] # split_on c xs
      else (case split_on c xs of [] \<Rightarrow> [[x]] | p # ps \<Rightarrow> (x # p) # ps))"

lemma split_on_nonempty [simp]: "split_on c s \<noteq> []"
  by (induction s) (auto split: list.splits)

lemma split_on_parts: "p \<in> set (split_on c s) \<Longrightarrow> c \<notin> set p"
  by (induction s arbitrary: p) (auto split: if_splits list.splits)

section \<open>Lines\<close>

definition newline :: char where
  "newline = CHR 0x0A"

text \<open>\<open>str::lines\<close>: a line feed or a carriage return and a line feed end a line; a last empty line is none.\<close>

definition chop_cr :: "string \<Rightarrow> string" where
  "chop_cr l = (if l \<noteq> [] \<and> last l = CHR 0x0D then butlast l else l)"

definition str_lines :: "string \<Rightarrow> string list" where
  "str_lines s =
     (let parts = split_on newline s
      in map chop_cr (butlast parts) @ (if last parts = [] then [] else [last parts]))"

text \<open>\<open>join\<close> of a slice of strings.\<close>

fun str_join :: "string \<Rightarrow> string list \<Rightarrow> string" where
  "str_join sep [] = []"
| "str_join sep [x] = x"
| "str_join sep (x # y # ys) = x @ sep @ str_join sep (y # ys)"

section \<open>Replacement\<close>

text \<open>\<open>str::replace\<close> for a non-empty pattern: every occurrence, from left to right, without overlap.\<close>

function str_replace :: "string \<Rightarrow> string \<Rightarrow> string \<Rightarrow> string" where
  "str_replace pat rep [] = []"
| "str_replace pat rep (c # s) =
     (if pat \<noteq> [] \<and> prefix pat (c # s) then rep @ str_replace pat rep (drop (length pat - 1) s)
      else c # str_replace pat rep s)"
  by pat_completeness auto
termination by (relation "measure (\<lambda>(_, _, s). length s)") (auto simp: le_imp_less_Suc)

section \<open>Case folding\<close>

definition ascii_lower :: "char \<Rightarrow> char" where
  "ascii_lower c = (let n = (of_char c :: nat) in if 65 \<le> n \<and> n \<le> 90 then char_of (n + 32) else c)"

text \<open>
  \<open>str::to_lowercase\<close>. Besides the ASCII letters two characters have a lower case with an ASCII
  letter in it: the Kelvin sign (bytes E2 84 AA, lower case \<open>k\<close>) and the dotted capital I (C4 B0,
  lower case \<open>i\<close> and a combining dot). Any other character beyond ASCII stays as it is here; its real
  lower case is again beyond ASCII, so a search for an ASCII pattern cannot tell the two apart.
\<close>

fun to_lowercase :: "string \<Rightarrow> string" where
  "to_lowercase [] = []"
| "to_lowercase (c # s) =
     (if prefix [CHR 0xE2, CHR 0x84, CHR 0xAA] (c # s) then CHR ''k'' # to_lowercase (drop 2 s)
      else if prefix [CHR 0xC4, CHR 0xB0] (c # s)
        then CHR ''i'' # CHR 0xCC # CHR 0x87 # to_lowercase (drop 1 s)
      else ascii_lower c # to_lowercase s)"

section \<open>White space\<close>

text \<open>The UTF-8 encodings of the Unicode \<open>White_Space\<close> characters, which \<open>str::trim\<close> removes.\<close>

definition whitespace :: "string list" where
  "whitespace =
     map (\<lambda>c. [c]) [CHR 0x09, CHR 0x0A, CHR 0x0B, CHR 0x0C, CHR 0x0D, CHR 0x20]
     @ [[CHR 0xC2, CHR 0x85], [CHR 0xC2, CHR 0xA0], [CHR 0xE1, CHR 0x9A, CHR 0x80]]
     @ map (\<lambda>c. [CHR 0xE2, CHR 0x80, c])
         [CHR 0x80, CHR 0x81, CHR 0x82, CHR 0x83, CHR 0x84, CHR 0x85, CHR 0x86, CHR 0x87, CHR 0x88,
          CHR 0x89, CHR 0x8A, CHR 0xA8, CHR 0xA9, CHR 0xAF]
     @ [[CHR 0xE2, CHR 0x81, CHR 0x9F], [CHR 0xE3, CHR 0x80, CHR 0x80]]"

fun trim_fuel :: "string list \<Rightarrow> nat \<Rightarrow> string \<Rightarrow> string" where
  "trim_fuel ws 0 s = s"
| "trim_fuel ws (Suc n) s =
     (case find (\<lambda>w. prefix w s) ws of
        None \<Rightarrow> s
      | Some w \<Rightarrow> trim_fuel ws n (drop (length w) s))"

text \<open>Each round removes at least one byte, so the length of the string is enough fuel.\<close>

definition trim_start :: "string \<Rightarrow> string" where
  "trim_start s = trim_fuel whitespace (length s) s"

definition trim_end :: "string \<Rightarrow> string" where
  "trim_end s = rev (trim_fuel (map rev whitespace) (length s) (rev s))"

definition trim :: "string \<Rightarrow> string" where
  "trim s = trim_end (trim_start s)"

lemma trim_fuel_enough:
  "(\<forall>w \<in> set ws. w \<noteq> []) \<Longrightarrow> length s \<le> n \<Longrightarrow> find (\<lambda>w. prefix w (trim_fuel ws n s)) ws = None"
proof (induction ws n s rule: trim_fuel.induct)
  case (1 ws s)
  then show ?case by (auto simp: find_None_iff)
next
  case (2 ws n s)
  show ?case
  proof (cases "find (\<lambda>w. prefix w s) ws")
    case None
    then show ?thesis by simp
  next
    case (Some w)
    then have "w \<in> set ws" "prefix w s" by (auto simp: find_Some_iff)
    with 2 have "length (drop (length w) s) \<le> n"
      using prefix_length_le by (cases w) auto
    with 2 Some show ?thesis by simp
  qed
qed

text \<open>A text that begins and ends with a visible ASCII character is trimmed already.\<close>

definition visible :: "char \<Rightarrow> bool" where
  "visible c \<longleftrightarrow> 33 \<le> (of_char c :: nat) \<and> (of_char c :: nat) \<le> 126"

lemma whitespace_ends: "list_all (\<lambda>w. w \<noteq> [] \<and> \<not> visible (hd w) \<and> \<not> visible (last w)) whitespace"
  by (simp add: whitespace_def visible_def)

lemma whitespace_invisible:
  assumes "w \<in> set whitespace"
  shows "w \<noteq> []" "\<not> visible (hd w)" "\<not> visible (last w)"
  using bspec [OF whitespace_ends [unfolded list_all_iff] assms] by simp_all

lemma visible_not_prefix: "w \<in> set whitespace \<Longrightarrow> visible c \<Longrightarrow> \<not> prefix w (c # s)"
  using whitespace_invisible [of w] by (auto simp: prefix_def Cons_eq_append_conv)

lemma find_none: "(\<And>w. w \<in> set ws \<Longrightarrow> \<not> P w) \<Longrightarrow> find P ws = None"
  by (auto simp: find_None_iff)

lemma trim_start_visible: "visible c \<Longrightarrow> trim_start (c # s) = c # s"
  by (simp add: trim_start_def visible_not_prefix find_none)

lemma trim_end_visible:
  assumes "visible c"
  shows "trim_end (s @ [c]) = s @ [c]"
proof -
  have "find (\<lambda>w. prefix w (c # rev s)) (map rev whitespace) = None"
  proof (rule find_none)
    fix v assume "v \<in> set (map rev whitespace)"
    then obtain w where w: "w \<in> set whitespace" "v = rev w" by auto
    show "\<not> prefix v (c # rev s)"
    proof
      assume "prefix v (c # rev s)"
      then have "suffix w (s @ [c])" by (simp add: w(2) suffix_to_prefix)
      with whitespace_invisible(1) [OF w(1)] have "last w = c" by (auto simp: suffix_def append_eq_append_conv2 Cons_eq_append_conv)
      with assms whitespace_invisible(3) [OF w(1)] show False by simp
    qed
  qed
  then show ?thesis by (simp add: trim_end_def)
qed

lemma trim_visible:
  assumes "s \<noteq> []" "visible (hd s)" "visible (last s)"
  shows "trim s = s"
proof -
  have "trim_start s = s" using assms(1,2) by (cases s) (simp_all add: trim_start_visible)
  then show ?thesis using assms(1,3) trim_end_visible [of "last s" "butlast s"] by (simp add: trim_def)
qed

text \<open>
  \<open>split_whitespace\<close>: the first word of a text that does not begin with white space, and the list of the
  words. Each word has a character, so the length of the text is enough fuel.
\<close>

fun first_word :: "string \<Rightarrow> string" where
  "first_word [] = []"
| "first_word (c # s) = (if list_ex (\<lambda>w. prefix w (c # s)) whitespace then [] else c # first_word s)"

fun words_fuel :: "nat \<Rightarrow> string \<Rightarrow> string list" where
  "words_fuel 0 s = []"
| "words_fuel (Suc n) s =
     (let t = trim_start s; w = first_word t
      in if t = [] then [] else w # words_fuel n (drop (length w) t))"

definition split_whitespace :: "string \<Rightarrow> string list" where
  "split_whitespace s = words_fuel (length s) s"

lemma split_whitespace_example:
  "split_whitespace ''  0 9  * * 1-5 '' = [''0'', ''9'', ''*'', ''*'', ''1-5'']"
  by code_simp

section \<open>Decimal numbers\<close>

fun show_nat :: "nat \<Rightarrow> string" where
  "show_nat n = (if n < 10 then [char_of (48 + n)] else show_nat (n div 10) @ [char_of (48 + n mod 10)])"

declare show_nat.simps [simp del]

section \<open>Truncation\<close>

fun back_to_boundary :: "string \<Rightarrow> nat \<Rightarrow> nat" where
  "back_to_boundary s 0 = 0"
| "back_to_boundary s (Suc n) =
     (if is_char_boundary s (Suc n) then Suc n else back_to_boundary s n)"

definition safe_truncate_str :: "string \<Rightarrow> nat \<Rightarrow> string" where
  "safe_truncate_str s max_bytes =
     (if length s \<le> max_bytes then s else take (back_to_boundary s max_bytes) s)"

lemma back_to_boundary_le: "back_to_boundary s n \<le> n"
  by (induction s n rule: back_to_boundary.induct) auto

lemma back_to_boundary_boundary: "is_char_boundary s (back_to_boundary s n)"
  by (induction s n rule: back_to_boundary.induct) (auto simp: is_char_boundary_def)

lemma back_to_boundary_greatest:
  "is_char_boundary s k \<Longrightarrow> k \<le> n \<Longrightarrow> k \<le> back_to_boundary s n"
proof (induction s n rule: back_to_boundary.induct)
  case (1 s)
  then show ?case by simp
next
  case (2 s n)
  then show ?case by (cases "k = Suc n") auto
qed

lemma length_safe_truncate: "length (safe_truncate_str s n) \<le> n"
  using back_to_boundary_le [of s n] by (simp add: safe_truncate_str_def min_def)

text \<open>
  \<open>safe_truncate_str\<close> keeps a prefix of at most the given number of bytes, ends on a character
  boundary (so the slice it takes never panics), and is the longest such prefix.
\<close>

theorem safe_truncate_str_correct:
  "prefix (safe_truncate_str s n) s \<and> length (safe_truncate_str s n) \<le> n
   \<and> slice_to s (length (safe_truncate_str s n)) = Ok (safe_truncate_str s n)
   \<and> list_all (\<lambda>k. \<not> is_char_boundary s k) [Suc (length (safe_truncate_str s n))..<Suc (min n (length s))]"
proof (cases "length s \<le> n")
  case True
  then show ?thesis
    by (simp add: safe_truncate_str_def slice_to_def is_char_boundary_def)
next
  case False
  let ?e = "back_to_boundary s n"
  have le: "?e \<le> n" "?e \<le> length s"
    using back_to_boundary_le [of s n] False by auto
  then have len: "length (safe_truncate_str s n) = ?e" "safe_truncate_str s n = take ?e s"
    using False by (simp_all add: safe_truncate_str_def min_def)
  have "\<not> is_char_boundary s k" if "?e < k" "k \<le> n" for k
    using back_to_boundary_greatest [of s k n] that by auto
  with False le len show ?thesis
    by (auto simp: list_all_iff slice_to_def back_to_boundary_boundary take_is_prefix min_def)
qed

text \<open>\<open>parse\<close> of an unsigned integer of \<open>w\<close> bits: an optional plus sign and at least one digit, in range.\<close>

definition is_digit :: "char \<Rightarrow> bool" where
  "is_digit c \<longleftrightarrow> 48 \<le> (of_char c :: nat) \<and> (of_char c :: nat) \<le> 57"

definition digits_value :: "string \<Rightarrow> nat" where
  "digits_value s = foldl (\<lambda>v c. v * 10 + (of_char c - 48)) 0 s"

definition parse_uint :: "nat \<Rightarrow> string \<Rightarrow> nat option" where
  "parse_uint w s =
     (let ds = (case s of [] \<Rightarrow> [] | c # r \<Rightarrow> if c = CHR ''+'' \<and> r \<noteq> [] then r else s)
      in if ds \<noteq> [] \<and> list_all is_digit ds \<and> digits_value ds < 2 ^ w then Some (digits_value ds) else None)"

lemma digits_value_snoc: "digits_value (s @ [c]) = digits_value s * 10 + (of_char c - 48)"
  by (simp add: digits_value_def)

lemma show_nat_digits: "show_nat n \<noteq> [] \<and> list_all is_digit (show_nat n) \<and> digits_value (show_nat n) = n"
proof (induction n rule: show_nat.induct)
  case (1 n)
  have c: "(of_char (char_of (48 + m) :: char) :: nat) = 48 + m" if "m < 10" for m :: nat
    using that by (simp add: of_char_of)
  show ?case
  proof (cases "n < 10")
    case True
    then show ?thesis by (subst (1 2 3) show_nat.simps) (simp add: is_digit_def digits_value_def c)
  next
    case False
    then have "show_nat n = show_nat (n div 10) @ [char_of (48 + n mod 10)]" by (subst show_nat.simps) simp
    with 1 False show ?thesis by (simp add: digits_value_snoc is_digit_def c)
  qed
qed

lemma parse_show: "n < 2 ^ w \<Longrightarrow> parse_uint w (show_nat n) = Some n"
proof -
  assume n: "n < 2 ^ w"
  note d = show_nat_digits [of n]
  then obtain c r where s: "show_nat n = c # r" by (cases "show_nat n") auto
  with d have "c \<noteq> CHR ''+''" by (auto simp: is_digit_def)
  with d n s show ?thesis by (simp add: parse_uint_def)
qed

lemma show_nat_length: "n < 10 ^ k \<Longrightarrow> 0 < k \<Longrightarrow> length (show_nat n) \<le> k"
proof (induction k arbitrary: n)
  case (Suc k)
  show ?case
  proof (cases "n < 10")
    case True
    then show ?thesis by (simp add: show_nat.simps)
  next
    case False
    then have "0 < k" using Suc.prems(1) by (cases k) auto
    moreover have "n div 10 < 10 ^ k" using Suc.prems(1) by (simp add: less_mult_imp_div_less mult.commute)
    ultimately have "length (show_nat (n div 10)) \<le> k" by (rule Suc.IH [rotated])
    with False show ?thesis by (subst show_nat.simps) simp
  qed
qed simp

section \<open>ASCII text\<close>

definition ascii :: "string \<Rightarrow> bool" where
  "ascii s = list_all (\<lambda>c. (of_char c :: nat) < 128) s"

lemma ascii_simps [simp]:
  "ascii []" "ascii (c # s) \<longleftrightarrow> (of_char c :: nat) < 128 \<and> ascii s"
  "ascii (s @ t) \<longleftrightarrow> ascii s \<and> ascii t"
  by (simp_all add: ascii_def)

lemma ascii_take_drop: "ascii s \<Longrightarrow> ascii (take n s) \<and> ascii (drop n s)"
  by (metis append_take_drop_id ascii_simps(3))

lemma ascii_boundary: "ascii s \<Longrightarrow> n \<le> length s \<Longrightarrow> is_char_boundary s n"
proof (cases "n < length s")
  case True
  assume "ascii s"
  with True have "(of_char (s ! n) :: nat) < 128" by (simp add: ascii_def list_all_length)
  then have "\<not> is_cont (s ! n)" by (auto simp: is_cont_def)
  with True show ?thesis by (simp add: is_char_boundary_def)
qed (simp add: is_char_boundary_def)

lemma ascii_lowercase: "ascii s \<Longrightarrow> to_lowercase s = map ascii_lower s"
  by (induction s) auto

lemma ascii_lower_ascii: "(of_char c :: nat) < 128 \<Longrightarrow> (of_char (ascii_lower c) :: nat) < 128"
  by (simp add: ascii_lower_def Let_def)

lemma ascii_map_lower: "ascii s \<Longrightarrow> ascii (map ascii_lower s)"
  by (simp add: ascii_def list_all_iff ascii_lower_ascii)

lemma slice_ascii:
  "ascii s \<Longrightarrow> i \<le> j \<Longrightarrow> j \<le> length s \<Longrightarrow> slice s i j = Ok (take (j - i) (drop i s))"
  by (simp add: slice_def ascii_boundary)

lemma slice_from_ascii: "ascii s \<Longrightarrow> i \<le> length s \<Longrightarrow> slice_from s i = Ok (drop i s)"
  by (simp add: slice_from_def ascii_boundary)

section \<open>Comparison\<close>

text \<open>The order of texts: byte by byte.\<close>

fun text_less :: "string \<Rightarrow> string \<Rightarrow> bool" where
  "text_less _ [] = False"
| "text_less [] (y # ys) = True"
| "text_less (x # xs) (y # ys) =
     ((of_char x :: nat) < of_char y \<or> (x = y \<and> text_less xs ys))"

lemma text_less_irrefl [simp]: "\<not> text_less x x"
  by (induction x) auto

lemma text_less_trans: "text_less x y \<Longrightarrow> text_less y z \<Longrightarrow> text_less x z"
proof (induction x y arbitrary: z rule: text_less.induct)
  case (2 y ys)
  then show ?case by (cases z) auto
next
  case (3 x xs y ys)
  then show ?case by (cases z) auto
qed simp

end
