(* ===== verification/Taint.thy ===== *)
theory Taint
  imports Str_Utils
begin

text \<open>
  Information flow labels: \<open>clawreform-types/src/taint.rs\<close>, and the two sink checks the tool
  runner makes before a shell command or a network fetch
  (\<open>clawreform-runtime/src/tool_runner.rs\<close>).
\<close>

section \<open>Labels, values and sinks\<close>

datatype taint_label = ExternalNetwork | UserInput | Pii | Secret | UntrustedAgent

fun label_name :: "taint_label \<Rightarrow> string" where
  "label_name ExternalNetwork = ''ExternalNetwork''"
| "label_name UserInput = ''UserInput''"
| "label_name Pii = ''Pii''"
| "label_name Secret = ''Secret''"
| "label_name UntrustedAgent = ''UntrustedAgent''"

record tainted_value =
  tv_value :: string
  labels :: "taint_label set"
  tv_source :: string

record taint_sink =
  sink_name :: string
  blocked_labels :: "taint_label set"

record taint_violation =
  v_label :: taint_label
  v_sink_name :: string
  v_source :: string

definition new_tainted :: "string \<Rightarrow> taint_label set \<Rightarrow> string \<Rightarrow> tainted_value" where
  "new_tainted v ls src = \<lparr>tv_value = v, labels = ls, tv_source = src\<rparr>"

definition clean :: "string \<Rightarrow> string \<Rightarrow> tainted_value" where
  "clean v src = \<lparr>tv_value = v, labels = {}, tv_source = src\<rparr>"

text \<open>A \<open>HashSet\<close> is iterated in an order the language leaves open: a loop over \<open>labels\<close> takes the
  order as a list and is used with any enumeration of the set.\<close>

definition merge_taint :: "tainted_value \<Rightarrow> tainted_value \<Rightarrow> tainted_value" where
  "merge_taint self other = self\<lparr>labels := labels self \<union> labels other\<rparr>"

fun check_labels ::
  "taint_label list \<Rightarrow> string \<Rightarrow> taint_sink \<Rightarrow> (unit, taint_violation) result" where
  "check_labels [] src sink = Ok ()"
| "check_labels (label # rest) src sink =
     (if label \<in> blocked_labels sink
      then Err \<lparr>v_label = label, v_sink_name = sink_name sink, v_source = src\<rparr>
      else check_labels rest src sink)"

definition enumerates :: "'a list \<Rightarrow> 'a set \<Rightarrow> bool" where
  "enumerates xs A = (distinct xs \<and> set xs = A)"

definition check_sink ::
  "taint_label list \<Rightarrow> tainted_value \<Rightarrow> taint_sink \<Rightarrow> (unit, taint_violation) result" where
  "check_sink order self sink = check_labels order (tv_source self) sink"

definition declassify :: "tainted_value \<Rightarrow> taint_label \<Rightarrow> tainted_value" where
  "declassify self label = self\<lparr>labels := labels self - {label}\<rparr>"

definition is_tainted :: "tainted_value \<Rightarrow> bool" where
  "is_tainted self = (labels self \<noteq> {})"

definition shell_exec_sink :: taint_sink where
  "shell_exec_sink = \<lparr>sink_name = ''shell_exec'',
     blocked_labels = {ExternalNetwork, UntrustedAgent, UserInput}\<rparr>"

definition net_fetch_sink :: taint_sink where
  "net_fetch_sink = \<lparr>sink_name = ''net_fetch'', blocked_labels = {Secret, Pii}\<rparr>"

definition agent_message_sink :: taint_sink where
  "agent_message_sink = \<lparr>sink_name = ''agent_message'', blocked_labels = {Secret}\<rparr>"

definition violation_text :: "taint_violation \<Rightarrow> string" where
  "violation_text v = ''taint violation: label '' @ [CHR 39] @ label_name (v_label v) @ [CHR 39]
     @ '' from source '' @ [CHR 39] @ v_source v @ [CHR 39]
     @ '' is not allowed to reach sink '' @ [CHR 39] @ v_sink_name v @ [CHR 39]"

section \<open>The tool runner's checks\<close>

text \<open>
  The warning each check logs slices the text at byte 80, which panics when that is inside a
  character; \<open>warn_on\<close> says whether the log level makes the arguments of \<open>warn!\<close> evaluated.
\<close>

definition shell_patterns :: "string list" where
  "shell_patterns = [''curl '', ''wget '', ''| sh'', ''| bash'', ''base64 -d'', ''$(curl'', [CHR 96] @ ''curl'', ''eval '']"

definition log_slice :: "bool \<Rightarrow> string \<Rightarrow> (unit, panic) result" where
  "log_slice warn_on s =
     (if warn_on then (case slice_to s (min (length s) 80) of Inl p \<Rightarrow> Err p | Inr _ \<Rightarrow> Ok ()) else Ok ())"

fun scan_shell :: "bool \<Rightarrow> string \<Rightarrow> string list \<Rightarrow> (string option, panic) result" where
  "scan_shell warn_on command [] = Ok None"
| "scan_shell warn_on command (pattern # rest) =
     (if contains_str command pattern then
        (case check_sink [ExternalNetwork]
                (new_tainted command {ExternalNetwork} ''llm_tool_call'') shell_exec_sink of
           Inl violation \<Rightarrow>
             (case log_slice warn_on command of
                Inl p \<Rightarrow> Err p
              | Inr _ \<Rightarrow> Ok (Some (violation_text violation)))
         | Inr _ \<Rightarrow> scan_shell warn_on command rest)
      else scan_shell warn_on command rest)"

definition check_taint_shell_exec :: "bool \<Rightarrow> string \<Rightarrow> (string option, panic) result" where
  "check_taint_shell_exec warn_on command = scan_shell warn_on command shell_patterns"

definition exfil_patterns :: "string list" where
  "exfil_patterns = [''api_key='', ''apikey='', ''token='', ''secret='', ''password='', ''Authorization:'']"

fun scan_net :: "bool \<Rightarrow> string \<Rightarrow> string list \<Rightarrow> (string option, panic) result" where
  "scan_net warn_on url [] = Ok None"
| "scan_net warn_on url (pattern # rest) =
     (if contains_str (to_lowercase url) (to_lowercase pattern) then
        (case check_sink [Secret] (new_tainted url {Secret} ''llm_tool_call'') net_fetch_sink of
           Inl violation \<Rightarrow>
             (case log_slice warn_on url of
                Inl p \<Rightarrow> Err p
              | Inr _ \<Rightarrow> Ok (Some (violation_text violation)))
         | Inr _ \<Rightarrow> scan_net warn_on url rest)
      else scan_net warn_on url rest)"

definition check_taint_net_fetch :: "bool \<Rightarrow> string \<Rightarrow> (string option, panic) result" where
  "check_taint_net_fetch warn_on url = scan_net warn_on url exfil_patterns"

section \<open>Lemmas\<close>

lemma check_labels_eq:
  "check_labels ls src sink =
     (case find (\<lambda>l. l \<in> blocked_labels sink) ls of
        None \<Rightarrow> Ok ()
      | Some l \<Rightarrow> Err \<lparr>v_label = l, v_sink_name = sink_name sink, v_source = src\<rparr>)"
  by (induction ls src sink rule: check_labels.induct) auto

lemma scan_shell_eq:
  "scan_shell w c ps =
     (if list_ex (contains_str c) ps then
        (case log_slice w c of
           Inl p \<Rightarrow> Err p
         | Inr _ \<Rightarrow> Ok (Some (violation_text \<lparr>v_label = ExternalNetwork, v_sink_name = ''shell_exec'',
                                v_source = ''llm_tool_call''\<rparr>)))
      else Ok None)"
  by (induction w c ps rule: scan_shell.induct)
    (auto simp: check_sink_def new_tainted_def shell_exec_sink_def)

lemma scan_net_eq:
  "scan_net w u ps =
     (if list_ex (\<lambda>p. contains_str (to_lowercase u) (to_lowercase p)) ps then
        (case log_slice w u of
           Inl p \<Rightarrow> Err p
         | Inr _ \<Rightarrow> Ok (Some (violation_text \<lparr>v_label = Secret, v_sink_name = ''net_fetch'',
                                v_source = ''llm_tool_call''\<rparr>)))
      else Ok None)"
  by (induction w u ps rule: scan_net.induct)
    (auto simp: check_sink_def new_tainted_def net_fetch_sink_def)

section \<open>Properties\<close>



text \<open>
  The outcome of the shell check on every branch. It lets a command through exactly when none of the eight
  patterns occurs in it. Otherwise it reports the violation, except that it panics when the warning
  is logged and byte 80 of the command lies inside a character.
\<close>

theorem shell_check_outcome:
  "check_taint_shell_exec warn_on c =
     (if list_all (\<lambda>p. \<not> contains_str c p) shell_patterns then Ok None
      else if warn_on \<and> 80 < length c \<and> is_cont (c ! 80) then Err SliceNotOnBoundary
      else Ok (Some (violation_text \<lparr>v_label = ExternalNetwork, v_sink_name = ''shell_exec'',
                       v_source = ''llm_tool_call''\<rparr>)))"
  by (auto simp: check_taint_shell_exec_def scan_shell_eq log_slice_def slice_to_def
      is_char_boundary_def min_def list_ex_iff list_all_iff)

end
