(* ===== verification/Loop_Guard.thy ===== *)
theory Loop_Guard
  imports Str_Utils
begin

text \<open>
  Tool loop detection, \<open>clawreform-runtime/src/loop_guard.rs\<close>. The guard is consulted before each
  tool call of an agent loop; it can be told the outcome after it, which the loop does not do. Serialising the parameters, reading
  their \<open>command\<close> field and SHA-256 are library code: they are the three functions of \<open>params_env\<close>.
  Counters are natural numbers: the code's \<open>u32\<close> counters count calls of one loop execution.
\<close>

section \<open>Configuration, verdicts and state\<close>

record 'p params_env =
  to_json :: "'p \<Rightarrow> string"
  command_field :: "'p \<Rightarrow> string option"
  sha256_hex :: "string \<Rightarrow> string"

definition poll_tools :: "string list" where
  "poll_tools = [''shell_exec'']"

definition history_size :: nat where
  "history_size = 30"

definition backoff_schedule_ms :: "nat list" where
  "backoff_schedule_ms = [5000, 10000, 30000, 60000]"

record loop_guard_config =
  warn_threshold :: nat
  block_threshold :: nat
  global_circuit_breaker :: nat
  poll_multiplier :: nat
  outcome_warn_threshold :: nat
  outcome_block_threshold :: nat
  ping_pong_min_repeats :: nat
  max_warnings_per_call :: nat

definition default_config :: loop_guard_config where
  "default_config = \<lparr>warn_threshold = 3, block_threshold = 5, global_circuit_breaker = 30,
     poll_multiplier = 3, outcome_warn_threshold = 2, outcome_block_threshold = 3,
     ping_pong_min_repeats = 3, max_warnings_per_call = 3\<rparr>"

text \<open>The verdicts' messages keep what they are formatted from.\<close>

datatype guard_message =
    CircuitBreaker nat
  | IdenticalResults string
  | CalledIdentically string nat
  | WarningsExhausted string nat
  | RepeatedWarning string nat
  | Alternating string string
  | Cycling string string string

datatype verdict = Allow | Warn guard_message | Block guard_message | CircuitBreak guard_message

record loop_guard =
  config :: loop_guard_config
  call_counts :: "string \<rightharpoonup> nat"
  total_calls :: nat
  outcome_counts :: "string \<rightharpoonup> nat"
  blocked_outcomes :: "string set"
  recent_calls :: "string list"
  warnings_emitted :: "string \<rightharpoonup> nat"
  poll_counts :: "string \<rightharpoonup> nat"
  blocked_calls :: nat
  hash_to_tool :: "string \<rightharpoonup> string"

definition new_guard :: "loop_guard_config \<Rightarrow> loop_guard" where
  "new_guard cfg = \<lparr>config = cfg, call_counts = Map.empty, total_calls = 0,
     outcome_counts = Map.empty, blocked_outcomes = {}, recent_calls = [],
     warnings_emitted = Map.empty, poll_counts = Map.empty, blocked_calls = 0,
     hash_to_tool = Map.empty\<rparr>"

text \<open>\<open>*entry(k).or_insert(0) += 1\<close>, with the new value.\<close>

definition count_of :: "('k \<rightharpoonup> nat) \<Rightarrow> 'k \<Rightarrow> nat" where
  "count_of m k = (case m k of None \<Rightarrow> 0 | Some n \<Rightarrow> n)"

definition bump :: "('k \<rightharpoonup> nat) \<Rightarrow> 'k \<Rightarrow> ('k \<rightharpoonup> nat)" where
  "bump m k = m(k \<mapsto> Suc (count_of m k))"

lemma count_of_bump [simp]: "count_of (bump m k) k' = (if k' = k then Suc (count_of m k) else count_of m k')"
  by (simp add: bump_def count_of_def)

lemma count_of_empty [simp]: "count_of Map.empty k = 0"
  by (simp add: count_of_def)

section \<open>Hashes\<close>

definition compute_hash :: "'p params_env \<Rightarrow> string \<Rightarrow> 'p \<Rightarrow> string" where
  "compute_hash env tool_name params = sha256_hex env (tool_name @ ''|'' @ to_json env params)"

definition compute_outcome_hash :: "'p params_env \<Rightarrow> string \<Rightarrow> 'p \<Rightarrow> string \<Rightarrow> string" where
  "compute_outcome_hash env tool_name params res =
     sha256_hex env (tool_name @ ''|'' @ to_json env params @ ''|'' @ safe_truncate_str res 1000)"

section \<open>Poll calls\<close>

definition poll_words :: "string list" where
  "poll_words = [''status'', ''poll'', ''wait'', ''watch'', ''tail'', ''ps '', ''jobs'', ''pgrep'',
     ''docker ps'', ''kubectl get'']"

definition is_poll_call :: "'p params_env \<Rightarrow> string \<Rightarrow> 'p \<Rightarrow> bool" where
  "is_poll_call env tool_name params =
     (if tool_name \<in> set poll_tools
         \<and> (case command_field env params of
              None \<Rightarrow> False
            | Some cmd \<Rightarrow>
                length cmd < 50 \<and> list_ex (contains_str (to_lowercase cmd)) poll_words)
      then True
      else let params_str = to_lowercase (to_json env params)
           in contains_str params_str ''status'' \<or> contains_str params_str ''poll''
              \<or> contains_str params_str ''wait'')"

section \<open>Ping-pong detection\<close>

definition tool_of :: "loop_guard \<Rightarrow> string \<Rightarrow> string" where
  "tool_of g h = (case hash_to_tool g h of None \<Rightarrow> ''unknown'' | Some t \<Rightarrow> t)"

definition detect_ping_pong :: "loop_guard \<Rightarrow> guard_message option" where
  "detect_ping_pong g =
     (let calls = recent_calls g; len = length calls;
          two = (if len \<ge> 6
                 then let tl = drop (len - 6) calls; a = tl ! 0; b = tl ! 1
                      in if a \<noteq> b \<and> tl ! 2 = a \<and> tl ! 3 = b \<and> tl ! 4 = a \<and> tl ! 5 = b
                         then Some (Alternating (tool_of g a) (tool_of g b)) else None
                 else None)
      in case two of
           Some m \<Rightarrow> Some m
         | None \<Rightarrow>
             (if len \<ge> 9
              then let tl = drop (len - 9) calls; a = tl ! 0; b = tl ! 1; c = tl ! 2
                   in if \<not> (a = b \<and> b = c) \<and> tl ! 3 = a \<and> tl ! 4 = b \<and> tl ! 5 = c
                         \<and> tl ! 6 = a \<and> tl ! 7 = b \<and> tl ! 8 = c
                      then Some (Cycling (tool_of g a) (tool_of g b) (tool_of g c)) else None
              else None))"

definition detect_ping_pong_pure :: "loop_guard \<Rightarrow> bool" where
  "detect_ping_pong_pure g = (detect_ping_pong g \<noteq> None)"

function count_back2 :: "string list \<Rightarrow> string \<Rightarrow> string \<Rightarrow> nat \<Rightarrow> nat" where
  "count_back2 calls a b i =
     (if i \<ge> 2 then
        (if calls ! (i - 2) = a \<and> calls ! (i - 1) = b
         then Suc (count_back2 calls a b (i - 2)) else 0)
      else 0)"
  by pat_completeness auto
termination
  by (relation "measure (\<lambda>(calls, a, b, i). i)") auto

function count_back3 :: "string list \<Rightarrow> string \<Rightarrow> string \<Rightarrow> string \<Rightarrow> nat \<Rightarrow> nat" where
  "count_back3 calls a b c i =
     (if i \<ge> 3 then
        (if calls ! (i - 3) = a \<and> calls ! (i - 2) = b \<and> calls ! (i - 1) = c
         then Suc (count_back3 calls a b c (i - 3)) else 0)
      else 0)"
  by pat_completeness auto
termination
  by (relation "measure (\<lambda>(calls, a, b, c, i). i)") auto

declare count_back2.simps [simp del] count_back3.simps [simp del]

definition count_ping_pong_repeats :: "loop_guard \<Rightarrow> nat" where
  "count_ping_pong_repeats g =
     (let calls = recent_calls g; len = length calls;
          two = (if len \<ge> 4
                 then let a = calls ! (len - 2); b = calls ! (len - 1)
                      in if a \<noteq> b then count_back2 calls a b len else 0
                 else 0)
      in if two \<ge> 2 then two
         else let three = (if len \<ge> 6
                  then let a = calls ! (len - 3); b = calls ! (len - 2); c = calls ! (len - 1)
                       in if \<not> (a = b \<and> b = c) then count_back3 calls a b c len else 0
                  else 0)
              in if three \<ge> 2 then three else 0)"

section \<open>Check before a call\<close>

definition push_recent :: "string list \<Rightarrow> string \<Rightarrow> string list" where
  "push_recent calls h = (if length calls \<ge> history_size then drop 1 calls else calls) @ [h]"

definition effective :: "'p params_env \<Rightarrow> loop_guard \<Rightarrow> string \<Rightarrow> 'p \<Rightarrow> nat \<Rightarrow> nat" where
  "effective env g tool_name params threshold =
     threshold * (if is_poll_call env tool_name params then poll_multiplier (config g) else 1)"

definition block_call :: "loop_guard \<Rightarrow> guard_message \<Rightarrow> loop_guard \<times> verdict" where
  "block_call g msg = (g\<lparr>blocked_calls := Suc (blocked_calls g)\<rparr>, Block msg)"

definition ping_pong_stage :: "loop_guard \<Rightarrow> string \<Rightarrow> loop_guard \<times> verdict" where
  "ping_pong_stage g h =
     (case detect_ping_pong g of
        None \<Rightarrow> (g, Allow)
      | Some msg \<Rightarrow>
          if count_ping_pong_repeats g \<ge> ping_pong_min_repeats (config g) then block_call g msg
          else let key = ''pingpong_'' @ h;
                   g' = g\<lparr>warnings_emitted := bump (warnings_emitted g) key\<rparr>
               in if count_of (warnings_emitted g') key \<le> max_warnings_per_call (config g)
                  then (g', Warn msg) else (g', Allow))"

definition threshold_stage ::
  "'p params_env \<Rightarrow> loop_guard \<Rightarrow> string \<Rightarrow> 'p \<Rightarrow> string \<Rightarrow> loop_guard \<times> verdict" where
  "threshold_stage env g tool_name params h =
     (let g1 = g\<lparr>call_counts := bump (call_counts g) h\<rparr>;
          count_val = count_of (call_counts g1) h
      in if count_val \<ge> effective env g tool_name params (block_threshold (config g))
         then block_call g1 (CalledIdentically tool_name count_val)
         else if count_val \<ge> effective env g tool_name params (warn_threshold (config g))
         then let g2 = g1\<lparr>warnings_emitted := bump (warnings_emitted g1) h\<rparr>
              in if count_of (warnings_emitted g2) h > max_warnings_per_call (config g)
                 then block_call g2 (WarningsExhausted tool_name count_val)
                 else (g2, Warn (RepeatedWarning tool_name count_val))
         else ping_pong_stage g1 h)"

definition check_call ::
  "'p params_env \<Rightarrow> loop_guard \<Rightarrow> string \<Rightarrow> 'p \<Rightarrow> loop_guard \<times> verdict" where
  "check_call env g tool_name params =
     (let g0 = g\<lparr>total_calls := Suc (total_calls g)\<rparr>
      in if total_calls g0 > global_circuit_breaker (config g)
         then (g0\<lparr>blocked_calls := Suc (blocked_calls g0)\<rparr>,
               CircuitBreak (CircuitBreaker (global_circuit_breaker (config g))))
         else let h = compute_hash env tool_name params;
                  g1 = g0\<lparr>hash_to_tool := (case hash_to_tool g0 h of
                              None \<Rightarrow> (hash_to_tool g0)(h \<mapsto> tool_name)
                            | Some _ \<Rightarrow> hash_to_tool g0),
                          recent_calls := push_recent (recent_calls g0) h\<rparr>
              in if h \<in> blocked_outcomes g1
                 then block_call g1 (IdenticalResults tool_name)
                 else threshold_stage env g1 tool_name params h)"

section \<open>Record after a call\<close>

definition record_outcome ::
  "'p params_env \<Rightarrow> loop_guard \<Rightarrow> string \<Rightarrow> 'p \<Rightarrow> string \<Rightarrow> loop_guard \<times> guard_message option" where
  "record_outcome env g tool_name params res =
     (let oh = compute_outcome_hash env tool_name params res;
          ch = compute_hash env tool_name params;
          g1 = g\<lparr>outcome_counts := bump (outcome_counts g) oh\<rparr>;
          count_val = count_of (outcome_counts g1) oh
      in if count_val \<ge> outcome_block_threshold (config g)
         then (g1\<lparr>blocked_outcomes := insert ch (blocked_outcomes g1)\<rparr>, Some (IdenticalResults tool_name))
         else if count_val \<ge> outcome_warn_threshold (config g)
         then (g1, Some (IdenticalResults tool_name))
         else (g1, None))"

definition get_poll_backoff ::
  "'p params_env \<Rightarrow> loop_guard \<Rightarrow> string \<Rightarrow> 'p \<Rightarrow> loop_guard \<times> nat option" where
  "get_poll_backoff env g tool_name params =
     (if \<not> is_poll_call env tool_name params then (g, None)
      else let h = compute_hash env tool_name params;
               g' = g\<lparr>poll_counts := bump (poll_counts g) h\<rparr>;
               count = count_of (poll_counts g') h
           in if count \<le> 1 then (g', None)
              else let idx = count - 2
                   in (g', Some (if idx < length backoff_schedule_ms
                                 then backoff_schedule_ms ! idx else last backoff_schedule_ms)))"

section \<open>Statistics\<close>

record loop_guard_stats =
  st_total_calls :: nat
  st_unique_calls :: nat
  st_blocked_calls :: nat
  st_ping_pong_detected :: bool
  st_most_repeated_tool :: "string option"
  st_most_repeated_count :: nat

text \<open>The loop over \<open>call_counts\<close> visits the entries in the order of \<open>keys\<close>.\<close>

fun most_repeated ::
  "loop_guard \<Rightarrow> string list \<Rightarrow> string option \<times> nat \<Rightarrow> string option \<times> nat" where
  "most_repeated g [] best = best"
| "most_repeated g (h # hs) (tool, n) =
     (if count_of (call_counts g) h > n
      then most_repeated g hs (hash_to_tool g h, count_of (call_counts g) h)
      else most_repeated g hs (tool, n))"

definition stats :: "string list \<Rightarrow> loop_guard \<Rightarrow> loop_guard_stats" where
  "stats keys g =
     (let (tool, n) = most_repeated g keys (None, 0)
      in \<lparr>st_total_calls = total_calls g, st_unique_calls = length keys,
          st_blocked_calls = blocked_calls g, st_ping_pong_detected = detect_ping_pong_pure g,
          st_most_repeated_tool = tool, st_most_repeated_count = n\<rparr>)"

section \<open>Runs\<close>

text \<open>
  The agent loop interleaves checks, outcomes and backoff queries. A run is the list of these calls;
  its log holds every check with its verdict.
\<close>

datatype 'p guard_event =
    CheckCall string 'p
  | RecordOutcome string 'p string
  | PollBackoff string 'p

fun guard_step ::
  "'p params_env \<Rightarrow> loop_guard \<Rightarrow> 'p guard_event \<Rightarrow> loop_guard \<times> ((string \<times> 'p) \<times> verdict) list" where
  "guard_step env g (CheckCall t p) =
     (let (g', v) = check_call env g t p in (g', [((t, p), v)]))"
| "guard_step env g (RecordOutcome t p r) = (fst (record_outcome env g t p r), [])"
| "guard_step env g (PollBackoff t p) = (fst (get_poll_backoff env g t p), [])"

fun guard_run ::
  "'p params_env \<Rightarrow> loop_guard \<Rightarrow> 'p guard_event list \<Rightarrow> loop_guard \<times> ((string \<times> 'p) \<times> verdict) list" where
  "guard_run env g [] = (g, [])"
| "guard_run env g (e # es) =
     (let (g1, l1) = guard_step env g e; (g2, l2) = guard_run env g1 es in (g2, l1 @ l2))"

fun passes :: "verdict \<Rightarrow> bool" where
  "passes Allow = True"
| "passes (Warn _) = True"
| "passes (Block _) = False"
| "passes (CircuitBreak _) = False"

fun is_circuit_break :: "verdict \<Rightarrow> bool" where
  "is_circuit_break (CircuitBreak _) = True"
| "is_circuit_break _ = False"

section \<open>What each operation changes\<close>

lemmas check_defs = check_call_def threshold_stage_def ping_pong_stage_def block_call_def Let_def

lemma check_config [simp]: "config (fst (check_call env g t p)) = config g"
  by (auto simp: check_defs split: option.splits if_splits)

lemma record_config [simp]: "config (fst (record_outcome env g t p r)) = config g"
  by (simp add: record_outcome_def Let_def)

lemma backoff_config [simp]: "config (fst (get_poll_backoff env g t p)) = config g"
  by (simp add: get_poll_backoff_def Let_def)

lemma step_config [simp]: "config (fst (guard_step env g e)) = config g"
  by (cases e) (simp_all add: split_def Let_def)

lemma check_total [simp]: "total_calls (fst (check_call env g t p)) = Suc (total_calls g)"
  by (auto simp: check_defs split: option.splits if_splits)

lemma check_blocked:
  "blocked_calls (fst (check_call env g t p)) =
     (if passes (snd (check_call env g t p)) then blocked_calls g else Suc (blocked_calls g))"
  by (auto simp: check_defs split: option.splits if_splits)

lemma record_frame [simp]:
  "total_calls (fst (record_outcome env g t p r)) = total_calls g"
  "blocked_calls (fst (record_outcome env g t p r)) = blocked_calls g"
  "call_counts (fst (record_outcome env g t p r)) = call_counts g"
  "recent_calls (fst (record_outcome env g t p r)) = recent_calls g"
  by (simp_all add: record_outcome_def Let_def)

lemma backoff_frame [simp]:
  "total_calls (fst (get_poll_backoff env g t p)) = total_calls g"
  "blocked_calls (fst (get_poll_backoff env g t p)) = blocked_calls g"
  "call_counts (fst (get_poll_backoff env g t p)) = call_counts g"
  "recent_calls (fst (get_poll_backoff env g t p)) = recent_calls g"
  "outcome_counts (fst (get_poll_backoff env g t p)) = outcome_counts g"
  "blocked_outcomes (fst (get_poll_backoff env g t p)) = blocked_outcomes g"
  by (simp_all add: get_poll_backoff_def Let_def)

lemma check_frame [simp]:
  "outcome_counts (fst (check_call env g t p)) = outcome_counts g"
  "blocked_outcomes (fst (check_call env g t p)) = blocked_outcomes g"
  by (auto simp: check_defs split: option.splits if_splits)

lemma check_circuit_break:
  "is_circuit_break (snd (check_call env g t p)) \<longleftrightarrow> global_circuit_breaker (config g) \<le> total_calls g"
  by (auto simp: check_defs split: option.splits if_splits)

lemma check_passes_count:
  assumes "passes (snd (check_call env g t p))"
  shows "count_of (call_counts (fst (check_call env g t p))) (compute_hash env t p)
           = Suc (count_of (call_counts g) (compute_hash env t p))"
    and "Suc (count_of (call_counts g) (compute_hash env t p))
           < block_threshold (config g) * (if is_poll_call env t p then poll_multiplier (config g) else 1)"
  using assms by (auto simp: check_defs effective_def split: option.splits if_splits)

lemma check_counts_mono:
  "count_of (call_counts g) k \<le> count_of (call_counts (fst (check_call env g t p))) k"
  by (auto simp: check_defs split: option.splits if_splits)

lemma step_counts_mono:
  "count_of (call_counts g) k \<le> count_of (call_counts (fst (guard_step env g e))) k"
  by (cases e) (simp_all add: split_def Let_def check_counts_mono)

lemma check_recent:
  "length (recent_calls g) \<le> history_size \<Longrightarrow> length (recent_calls (fst (check_call env g t p))) \<le> history_size"
  by (auto simp: check_defs push_recent_def history_size_def split: option.splits if_splits)

text \<open>The number of passing verdicts a call can still get.\<close>

definition passed :: "string \<Rightarrow> 'p \<Rightarrow> ((string \<times> 'p) \<times> verdict) list \<Rightarrow> nat" where
  "passed t p lg = length (filter (\<lambda>(c, v). c = (t, p) \<and> passes v) lg)"

definition call_limit :: "'p params_env \<Rightarrow> loop_guard_config \<Rightarrow> string \<Rightarrow> 'p \<Rightarrow> nat" where
  "call_limit env cfg t p =
     block_threshold cfg * (if is_poll_call env t p then poll_multiplier cfg else 1) - 1"

lemma passed_append [simp]: "passed t p (l1 @ l2) = passed t p l1 + passed t p l2"
  by (simp add: passed_def)

lemma step_passed:
  "passed t p (snd (guard_step env g e)) + count_of (call_counts g) (compute_hash env t p)
     \<le> count_of (call_counts (fst (guard_step env g e))) (compute_hash env t p)
   \<and> (passed t p (snd (guard_step env g e)) = 0
      \<or> count_of (call_counts (fst (guard_step env g e))) (compute_hash env t p)
          \<le> call_limit env (config g) t p \<and> passed t p (snd (guard_step env g e)) = 1)"
proof (cases e)
  case (CheckCall t' p')
  show ?thesis
  proof (cases "(t', p') = (t, p) \<and> passes (snd (check_call env g t' p'))")
    case True
    with CheckCall show ?thesis
      using check_passes_count [of env g t p]
      by (auto simp: passed_def split_def Let_def call_limit_def)
  next
    case False
    with CheckCall show ?thesis
      by (auto simp: passed_def split_def Let_def check_counts_mono)
  qed
qed (simp_all add: passed_def)

lemma run_passed:
  "passed t p (snd (guard_run env g es))
     \<le> call_limit env (config g) t p - count_of (call_counts g) (compute_hash env t p)"
proof (induction es arbitrary: g)
  case Nil
  show ?case by (simp add: passed_def)
next
  case (Cons e es)
  have "passed t p (snd (guard_run env g (e # es)))
      = passed t p (snd (guard_step env g e)) + passed t p (snd (guard_run env (fst (guard_step env g e)) es))"
    by (simp add: split_def Let_def)
  with Cons.IH [of "fst (guard_step env g e)"] step_passed [of t p env g e] show ?case
    by auto
qed

lemma run_append:
  "guard_run env g (es1 @ es2) =
     (let (g1, l1) = guard_run env g es1; (g2, l2) = guard_run env g1 es2 in (g2, l1 @ l2))"
  by (induction es1 arbitrary: g) (simp_all add: split_def Let_def)

lemma run_config [simp]: "config (fst (guard_run env g es)) = config g"
  by (induction es arbitrary: g) (simp_all add: split_def Let_def)

lemma run_circuit_break:
  "map (is_circuit_break \<circ> snd) (snd (guard_run env g es)) =
     map (\<lambda>n. global_circuit_breaker (config g) \<le> total_calls g + n) [0..<length (snd (guard_run env g es))]"
proof (induction es arbitrary: g)
  case Nil
  show ?case by simp
next
  case (Cons e es)
  show ?case
  proof (cases e)
    case (CheckCall t p)
    let ?g = "fst (check_call env g t p)"
    have "map (\<lambda>n. global_circuit_breaker (config g) \<le> total_calls g + n)
            [0..<Suc (length (snd (guard_run env ?g es)))]
          = (global_circuit_breaker (config g) \<le> total_calls g)
            # map (\<lambda>n. global_circuit_breaker (config g) \<le> Suc (total_calls g) + n)
                [0..<length (snd (guard_run env ?g es))]"
      by (simp add: upt_conv_Cons map_Suc_upt [symmetric] del: upt_Suc map_Suc_upt)
    with CheckCall Cons.IH [of ?g] show ?thesis
      by (simp add: split_def Let_def check_circuit_break del: upt_Suc)
  qed (use Cons.IH [of "fst (guard_step env g e)"] in \<open>simp_all add: split_def Let_def\<close>)
qed

text \<open>The counters of a guard agree with its log.\<close>

definition guard_inv :: "loop_guard \<Rightarrow> ((string \<times> 'p) \<times> verdict) list \<Rightarrow> bool" where
  "guard_inv g lg \<longleftrightarrow> total_calls g = length lg
     \<and> blocked_calls g = length (filter (\<lambda>(c, v). \<not> passes v) lg)
     \<and> length (recent_calls g) \<le> history_size"

lemma step_inv: "guard_inv g lg \<Longrightarrow> guard_inv (fst (guard_step env g e)) (lg @ snd (guard_step env g e))"
  by (cases e) (auto simp: guard_inv_def split_def Let_def check_blocked check_recent)

lemma run_inv: "guard_inv g lg \<Longrightarrow> guard_inv (fst (guard_run env g es)) (lg @ snd (guard_run env g es))"
proof (induction es arbitrary: g lg)
  case Nil
  then show ?case by simp
next
  case (Cons e es)
  from Cons.IH [OF step_inv [OF Cons.prems]] show ?case by (simp add: split_def Let_def)
qed

text \<open>Outcomes.\<close>

definition outcomes_of :: "string \<Rightarrow> 'p \<Rightarrow> string \<Rightarrow> 'p guard_event list \<Rightarrow> nat" where
  "outcomes_of t p r es = length (filter (\<lambda>e. e = RecordOutcome t p r) es)"

lemma step_blocked_mono: "blocked_outcomes g \<subseteq> blocked_outcomes (fst (guard_step env g e))"
  by (cases e) (auto simp: split_def Let_def record_outcome_def)

lemma run_blocked_mono: "blocked_outcomes g \<subseteq> blocked_outcomes (fst (guard_run env g es))"
proof (induction es arbitrary: g)
  case Nil
  show ?case by simp
next
  case (Cons e es)
  have "blocked_outcomes g \<subseteq> blocked_outcomes (fst (guard_step env g e))" by (rule step_blocked_mono)
  also have "\<dots> \<subseteq> blocked_outcomes (fst (guard_run env (fst (guard_step env g e)) es))" by (rule Cons.IH)
  finally show ?case by (simp add: split_def Let_def)
qed

lemma step_outcome_mono:
  "count_of (outcome_counts g) k \<le> count_of (outcome_counts (fst (guard_step env g e))) k"
  by (cases e) (auto simp: split_def Let_def record_outcome_def)

lemma run_outcome_blocked:
  "0 < outcomes_of t p r es \<Longrightarrow>
   outcome_block_threshold (config g)
     \<le> count_of (outcome_counts g) (compute_outcome_hash env t p r) + outcomes_of t p r es \<Longrightarrow>
   compute_hash env t p \<in> blocked_outcomes (fst (guard_run env g es))"
proof (induction es arbitrary: g)
  case Nil
  then show ?case by (simp add: outcomes_of_def)
next
  case (Cons e es)
  let ?g = "fst (guard_step env g e)"
  have run: "fst (guard_run env g (e # es)) = fst (guard_run env ?g es)"
    by (simp add: split_def Let_def)
  show ?case
  proof (cases "0 < outcomes_of t p r es")
    case True
    have "count_of (outcome_counts g) (compute_outcome_hash env t p r) + outcomes_of t p r (e # es)
        \<le> count_of (outcome_counts ?g) (compute_outcome_hash env t p r) + outcomes_of t p r es"
      using step_outcome_mono [of g "compute_outcome_hash env t p r" env e]
      by (auto simp: outcomes_of_def record_outcome_def Let_def)
    with True Cons show ?thesis unfolding run by (intro Cons.IH) auto
  next
    case False
    with Cons.prems have e: "e = RecordOutcome t p r"
      and "outcome_block_threshold (config g) \<le> Suc (count_of (outcome_counts g) (compute_outcome_hash env t p r))"
      by (auto simp: outcomes_of_def split: if_splits)
    then have "compute_hash env t p \<in> blocked_outcomes ?g"
      by (simp add: record_outcome_def Let_def)
    with run_blocked_mono [of ?g env es] show ?thesis unfolding run by blast
  qed
qed

lemma blocked_outcome_stops:
  "compute_hash env t p \<in> blocked_outcomes g \<Longrightarrow> \<not> passes (snd (check_call env g t p))"
  by (auto simp: check_defs split: option.splits if_splits)

section \<open>Ping-pong\<close>

lemma list_eq_nths6:
  "length xs = 6 \<Longrightarrow> xs = [xs ! 0, xs ! 1, xs ! 2, xs ! 3, xs ! 4, xs ! 5]"
  by (auto simp: length_Suc_conv numeral_eq_Suc)

lemma list_eq_nths9:
  "length xs = 9 \<Longrightarrow> xs = [xs ! 0, xs ! 1, xs ! 2, xs ! 3, xs ! 4, xs ! 5, xs ! 6, xs ! 7, xs ! 8]"
  by (auto simp: length_Suc_conv numeral_eq_Suc)

lemma detectD:
  assumes "detect_ping_pong g \<noteq> None"
  shows "(\<exists>pre a b. a \<noteq> b \<and> recent_calls g = pre @ [a, b, a, b, a, b]) \<or>
         (\<exists>pre a b c. \<not> (a = b \<and> b = c) \<and> recent_calls g = pre @ [a, b, c, a, b, c, a, b, c])"
proof -
  let ?c = "recent_calls g"
  let ?six = "drop (length ?c - 6) ?c" and ?nine = "drop (length ?c - 9) ?c"
  from assms consider
      (two) "6 \<le> length ?c" "?six ! 0 \<noteq> ?six ! 1" "?six ! 2 = ?six ! 0" "?six ! 3 = ?six ! 1"
        "?six ! 4 = ?six ! 0" "?six ! 5 = ?six ! 1"
    | (three) "9 \<le> length ?c" "\<not> (?nine ! 0 = ?nine ! 1 \<and> ?nine ! 1 = ?nine ! 2)"
        "?nine ! 3 = ?nine ! 0" "?nine ! 4 = ?nine ! 1" "?nine ! 5 = ?nine ! 2"
        "?nine ! 6 = ?nine ! 0" "?nine ! 7 = ?nine ! 1" "?nine ! 8 = ?nine ! 2"
    unfolding detect_ping_pong_def Let_def by (simp only: split: if_splits option.splits) blast+
  then show ?thesis
  proof cases
    case two
    then have "?six = [?six ! 0, ?six ! 1, ?six ! 0, ?six ! 1, ?six ! 0, ?six ! 1]"
      using list_eq_nths6 [of ?six] by simp
    with two(2) show ?thesis using append_take_drop_id [of "length ?c - 6" ?c] by metis
  next
    case three
    then have "?nine = [?nine ! 0, ?nine ! 1, ?nine ! 2, ?nine ! 0, ?nine ! 1, ?nine ! 2,
        ?nine ! 0, ?nine ! 1, ?nine ! 2]"
      using list_eq_nths9 [of ?nine] by simp
    with three(2) show ?thesis using append_take_drop_id [of "length ?c - 9" ?c] by metis
  qed
qed

text \<open>A detected pattern has at least three full repeats, so the count never falls back to zero.\<close>

lemma detect_repeats:
  assumes "detect_ping_pong g \<noteq> None"
  shows "3 \<le> count_ping_pong_repeats g"
  using detectD [OF assms]
proof (elim disjE exE conjE)
  fix pre a b assume ab: "a \<noteq> b" and c: "recent_calls g = pre @ [a, b, a, b, a, b]"
  have "3 \<le> count_back2 (pre @ [a, b, a, b, a, b]) a b (length pre + 6)"
    by (simp add: count_back2.simps [of _ a b "length pre + 6"] count_back2.simps [of _ a b "4 + length pre"]
        count_back2.simps [of _ a b "Suc (Suc (length pre))"] nth_append)
  with ab c show ?thesis by (simp add: count_ping_pong_repeats_def Let_def nth_append numeral_eq_Suc)
next
  fix pre a b c assume abc: "\<not> (a = b \<and> b = c)"
    and cs: "recent_calls g = pre @ [a, b, c, a, b, c, a, b, c]"
  let ?l = "pre @ [a, b, c, a, b, c, a, b, c]"
  have back2: "count_back2 ?l b c (length pre + 9) < 2" if "b \<noteq> c"
    using that by (simp add: count_back2.simps [of _ b c "length pre + 9"]
        count_back2.simps [of _ b c "7 + length pre"] nth_append)
  have "3 \<le> count_back3 ?l a b c (length pre + 9)"
    by (simp add: count_back3.simps [of _ a b c "length pre + 9"] count_back3.simps [of _ a b c "6 + length pre"]
        count_back3.simps [of _ a b c "3 + length pre"] count_back3.simps [of _ a b c "Suc (Suc (Suc (length pre)))"] nth_append)
  with abc cs back2 show ?thesis
    by (auto simp: count_ping_pong_repeats_def Let_def nth_append numeral_eq_Suc)
qed

section \<open>Properties\<close>

text \<open>
  C28: however checks, outcomes and backoff queries are interleaved, one and the same call (tool and
  parameters) passes fewer times than its block threshold, relaxed for poll calls.
\<close>

theorem identical_calls_bounded:
  "passed t p (snd (guard_run env (new_guard cfg) es)) \<le> call_limit env cfg t p"
  using run_passed [of t p env "new_guard cfg" es] by (simp add: new_guard_def)

text \<open>
  The circuit breaker. In any run the verdict of the n-th check (from 0) is a circuit break
  exactly from the configured total on.
\<close>

theorem circuit_breaker_exact:
  "map (is_circuit_break \<circ> snd) (snd (guard_run env (new_guard cfg) es)) =
     map (\<lambda>n. global_circuit_breaker cfg \<le> n) [0..<length (snd (guard_run env (new_guard cfg) es))]"
  using run_circuit_break [of env "new_guard cfg" es] by (simp add: new_guard_def)

text \<open>
  A call that has returned the identical result as often as the outcome threshold says does not
  pass its next check, wherever in the run those outcomes were recorded.
\<close>

theorem identical_outcomes_block:
  assumes "0 < outcome_block_threshold cfg"
    and "outcome_block_threshold cfg \<le> outcomes_of t p r es"
  shows "\<not> passes (snd (check_call env (fst (guard_run env (new_guard cfg) es)) t p))"
  by (rule blocked_outcome_stops, rule run_outcome_blocked [where r = r])
    (use assms in \<open>auto simp: new_guard_def\<close>)

theorem identical_outcomes_block_witness:
  "\<not> passes (snd (check_call \<lparr>to_json = id, command_field = (\<lambda>_. None), sha256_hex = id\<rparr>
     (fst (guard_run \<lparr>to_json = id, command_field = (\<lambda>_. None), sha256_hex = id\<rparr> (new_guard default_config)
        [RecordOutcome ''t'' ''p'' ''r'', CheckCall ''t'' ''p'',
         RecordOutcome ''t'' ''p'' ''r'', RecordOutcome ''t'' ''p'' ''r''])) ''t'' ''p''))"
  by (rule identical_outcomes_block [where r = "''r''"])
    (simp_all add: default_config_def outcomes_of_def)

text \<open>
  The branch that would only warn about an alternating pattern is dead unless more than three
  repeats are configured: a pattern that is detected has been repeated three times, so the call is
  blocked at once.
\<close>

theorem detected_ping_pong_blocks:
  assumes "detect_ping_pong g = Some msg" and "ping_pong_min_repeats (config g) \<le> 3"
  shows "ping_pong_stage g h = block_call g msg"
  using assms detect_repeats [of g] by (simp add: ping_pong_stage_def)

theorem detected_ping_pong_blocks_witness:
  "let g = (new_guard default_config)\<lparr>recent_calls := [''a'', ''b'', ''a'', ''b'', ''a'', ''b'']\<rparr>
   in ping_pong_stage g ''b'' = block_call g (Alternating ''unknown'' ''unknown'')"
  unfolding Let_def
  by (rule detected_ping_pong_blocks)
    (simp_all add: detect_ping_pong_def new_guard_def default_config_def tool_of_def Let_def)

text \<open>
  The statistics are exact. After any run the total is the number of checks, the blocked count is
  the number of checks that were refused, and the history never exceeds its 30 entries.
\<close>

theorem statistics_exact:
  "let (g, lg) = guard_run env (new_guard cfg) es; st = stats keys g
   in st_total_calls st = length lg
      \<and> st_blocked_calls st = length (filter (\<lambda>(c, v). \<not> passes v) lg)
      \<and> length (recent_calls g) \<le> 30"
proof -
  have "guard_inv (new_guard cfg) []" by (simp add: guard_inv_def new_guard_def)
  from run_inv [OF this, of env es] show ?thesis
    by (simp add: guard_inv_def stats_def split_def Let_def history_size_def)
qed

end
