(* ===== verification/Message.thy ===== *)
theory Message
  imports Str_Utils
begin

text \<open>
  Conversation messages: \<open>clawreform-types/src/message.rs\<close>. The input of a tool use is a JSON value,
  which the code only carries along: its type is the parameter \<open>'j\<close>.
\<close>

datatype role = System | User | Assistant

datatype 'j content_block =
    Text string
  | Image string string
  | ToolUse string string 'j
  | ToolResult string string bool
  | Thinking string
  | Unknown

datatype 'j message_content = TextContent string | Blocks "'j content_block list"

record 'j message =
  role :: role
  content :: "'j message_content"

datatype stop_reason = EndTurn | StopToolUse | MaxTokens | StopSequence

record token_usage =
  input_tokens :: nat
  output_tokens :: nat

definition total_tokens :: "token_usage \<Rightarrow> nat" where
  "total_tokens u = input_tokens u + output_tokens u"

section \<open>Images\<close>

definition allowed_image_types :: "string list" where
  "allowed_image_types = [''image/png'', ''image/jpeg'', ''image/gif'', ''image/webp'']"

definition max_image_bytes :: nat where
  "max_image_bytes = 5 * 1024 * 1024"

datatype image_error = UnsupportedImageType string | ImageTooLarge nat nat nat

definition validate_image :: "string \<Rightarrow> string \<Rightarrow> (unit, image_error) result" where
  "validate_image media_type img_data =
     (if media_type \<notin> set allowed_image_types then Err (UnsupportedImageType media_type)
      else let max_b64_len = max_image_bytes * 4 div 3 + 4
           in if length img_data > max_b64_len
              then Err (ImageTooLarge (length img_data) max_b64_len (max_image_bytes div (1024 * 1024)))
              else Ok ())"

section \<open>Text of a message\<close>

fun block_text_length :: "'j content_block \<Rightarrow> nat" where
  "block_text_length (Text t) = length t"
| "block_text_length (ToolResult _ c _) = length c"
| "block_text_length (Thinking t) = length t"
| "block_text_length _ = 0"

fun text_length :: "'j message_content \<Rightarrow> nat" where
  "text_length (TextContent s) = length s"
| "text_length (Blocks bs) = sum_list (map block_text_length bs)"

fun text_content :: "'j message_content \<Rightarrow> string" where
  "text_content (TextContent s) = s"
| "text_content (Blocks bs) = concat (map (\<lambda>b. case b of Text t \<Rightarrow> t | _ \<Rightarrow> []) bs)"

definition system_message :: "string \<Rightarrow> 'j message" where
  "system_message c = \<lparr>role = System, content = TextContent c\<rparr>"

definition user_message :: "string \<Rightarrow> 'j message" where
  "user_message c = \<lparr>role = User, content = TextContent c\<rparr>"

definition assistant_message :: "string \<Rightarrow> 'j message" where
  "assistant_message c = \<lparr>role = Assistant, content = TextContent c\<rparr>"

section \<open>Blocks of a history\<close>

text \<open>\<open>content_to_blocks\<close> of the session repair: a text counts as one text block.\<close>

fun content_to_blocks :: "'j message_content \<Rightarrow> 'j content_block list" where
  "content_to_blocks (TextContent s) = [Text s]"
| "content_to_blocks (Blocks bs) = bs"

fun use_id :: "'j content_block \<Rightarrow> string list" where
  "use_id (ToolUse i _ _) = [i]"
| "use_id _ = []"

fun result_id :: "'j content_block \<Rightarrow> string list" where
  "result_id (ToolResult i _ _) = [i]"
| "result_id _ = []"

definition block_uses :: "'j content_block list \<Rightarrow> string list" where
  "block_uses bs = concat (map use_id bs)"

definition block_results :: "'j content_block list \<Rightarrow> string list" where
  "block_results bs = concat (map result_id bs)"

definition msg_uses :: "'j message \<Rightarrow> string list" where
  "msg_uses m = block_uses (content_to_blocks (content m))"

definition msg_results :: "'j message \<Rightarrow> string list" where
  "msg_results m = block_results (content_to_blocks (content m))"

text \<open>All tool uses of a history, those the assistant made, and all tool results, in order.\<close>

definition uses :: "'j message list \<Rightarrow> string list" where
  "uses ms = concat (map msg_uses ms)"

definition assistant_uses :: "'j message list \<Rightarrow> string list" where
  "assistant_uses ms = concat (map (\<lambda>m. if role m = Assistant then msg_uses m else []) ms)"

definition results :: "'j message list \<Rightarrow> string list" where
  "results ms = concat (map msg_results ms)"

lemma block_uses_simps [simp]:
  "block_uses [] = []" "block_uses (b # bs) = use_id b @ block_uses bs"
  "block_uses (bs @ cs) = block_uses bs @ block_uses cs"
  by (simp_all add: block_uses_def)

lemma block_results_simps [simp]:
  "block_results [] = []" "block_results (b # bs) = result_id b @ block_results bs"
  "block_results (bs @ cs) = block_results bs @ block_results cs"
  by (simp_all add: block_results_def)

lemma uses_simps [simp]:
  "uses [] = []" "uses (m # ms) = msg_uses m @ uses ms" "uses (ms @ ns) = uses ms @ uses ns"
  by (simp_all add: uses_def)

lemma assistant_uses_simps [simp]:
  "assistant_uses [] = []"
  "assistant_uses (m # ms) = (if role m = Assistant then msg_uses m else []) @ assistant_uses ms"
  "assistant_uses (ms @ ns) = assistant_uses ms @ assistant_uses ns"
  by (simp_all add: assistant_uses_def)

lemma results_simps [simp]:
  "results [] = []" "results (m # ms) = msg_results m @ results ms"
  "results (ms @ ns) = results ms @ results ns"
  by (simp_all add: results_def)

lemma assistant_uses_subset: "set (assistant_uses ms) \<subseteq> set (uses ms)"
  by (induction ms) auto

end
