(* ===== verification/Session_Repair.thy ===== *)
theory Session_Repair
  imports Message
begin

text \<open>
  Validation and repair of a conversation before it is sent to the model,
  \<open>clawreform-runtime/src/session_repair.rs\<close>: orphaned, misplaced, missing and duplicate tool
  results, empty and aborted messages, consecutive messages of one role. A \<open>HashMap\<close> the code
  sorts by its distinct keys before it iterates is the sorted list here.
\<close>

section \<open>Statistics\<close>

record repair_stats =
  orphaned_results_removed :: nat
  empty_messages_removed :: nat
  messages_merged :: nat
  results_reordered :: nat
  synthetic_results_inserted :: nat
  duplicates_removed :: nat

definition no_repairs :: repair_stats where
  "no_repairs = \<lparr>orphaned_results_removed = 0, empty_messages_removed = 0, messages_merged = 0,
     results_reordered = 0, synthetic_results_inserted = 0, duplicates_removed = 0\<rparr>"

section \<open>Phase 2: orphaned results and empty messages\<close>

fun keep_block :: "string set \<Rightarrow> 'j content_block \<Rightarrow> bool" where
  "keep_block ids (ToolResult i _ _) = (i \<in> ids)"
| "keep_block ids _ = True"

fun clean_phase ::
  "string set \<Rightarrow> repair_stats \<Rightarrow> 'j message list \<Rightarrow> 'j message list \<times> repair_stats" where
  "clean_phase ids st [] = ([], st)"
| "clean_phase ids st (m # ms) =
     (case content m of
        TextContent s \<Rightarrow>
          if s = [] then clean_phase ids (st\<lparr>empty_messages_removed := Suc (empty_messages_removed st)\<rparr>) ms
          else let (rest, st') = clean_phase ids st ms in (m # rest, st')
      | Blocks bs \<Rightarrow>
          let filtered = filter (keep_block ids) bs;
              st1 = st\<lparr>orphaned_results_removed :=
                       orphaned_results_removed st + length (filter (\<lambda>b. \<not> keep_block ids b) bs)\<rparr>
          in if filtered = []
             then clean_phase ids (st1\<lparr>empty_messages_removed := Suc (empty_messages_removed st1)\<rparr>) ms
             else let (rest, st') = clean_phase ids st1 ms
                  in (\<lparr>role = role m, content = Blocks filtered\<rparr> # rest, st'))"

section \<open>Phase 2b: misplaced results\<close>

definition non_empty :: "'j message \<Rightarrow> bool" where
  "non_empty m = (case content m of TextContent s \<Rightarrow> s \<noteq> [] | Blocks bs \<Rightarrow> bs \<noteq> [])"

text \<open>\<open>tool_use_id \<mapsto> index\<close> of the assistant message with that use; a later insert wins.\<close>

definition index_uses :: "'j message list \<Rightarrow> (string \<rightharpoonup> nat)" where
  "index_uses ms =
     foldl (\<lambda>ix (idx, m). if role m = Assistant then foldl (\<lambda>ix i. ix(i \<mapsto> idx)) ix (msg_uses m) else ix)
       Map.empty (List.enumerate 0 ms)"

fun misplaced_block ::
  "(string \<rightharpoonup> nat) \<Rightarrow> nat \<Rightarrow> 'j content_block \<Rightarrow> (nat \<times> string \<times> 'j content_block \<times> nat) list" where
  "misplaced_block ix msg_idx (ToolResult i c e) =
     (case ix i of
        None \<Rightarrow> []
      | Some assistant_idx \<Rightarrow>
          if msg_idx \<noteq> assistant_idx + 1 then [(msg_idx, i, ToolResult i c e, assistant_idx)] else [])"
| "misplaced_block ix msg_idx _ = []"

definition misplaced ::
  "(string \<rightharpoonup> nat) \<Rightarrow> 'j message list \<Rightarrow> (nat \<times> string \<times> 'j content_block \<times> nat) list" where
  "misplaced ix ms =
     concat (map (\<lambda>(msg_idx, m).
       if role m \<noteq> User then []
       else (case content m of
               TextContent _ \<Rightarrow> []
             | Blocks bs \<Rightarrow> concat (map (misplaced_block ix msg_idx) bs))) (List.enumerate 0 ms))"

fun stays :: "(nat \<times> string) set \<Rightarrow> nat \<Rightarrow> 'j content_block \<Rightarrow> bool" where
  "stays sources msg_idx (ToolResult i _ _) = ((msg_idx, i) \<notin> sources)"
| "stays sources msg_idx _ = True"

definition remove_misplaced :: "(nat \<times> string) set \<Rightarrow> 'j message list \<Rightarrow> 'j message list" where
  "remove_misplaced sources ms =
     map (\<lambda>(msg_idx, m).
       if role m \<noteq> User then m
       else (case content m of
               TextContent _ \<Rightarrow> m
             | Blocks bs \<Rightarrow> m\<lparr>content := Blocks (filter (stays sources msg_idx) bs)\<rparr>))
       (List.enumerate 0 ms)"

text \<open>Group by key, keys in descending order, values of a key in the order they were pushed.\<close>

definition group_desc :: "(nat \<times> 'b) list \<Rightarrow> (nat \<times> 'b list) list" where
  "group_desc xs =
     map (\<lambda>k. (k, map snd (filter (\<lambda>(k', _). k' = k) xs))) (rev (sort (remdups (map fst xs))))"

text \<open>Append blocks to the user message at a position, or insert a new user message there.\<close>

definition attach :: "'j message list \<Rightarrow> nat \<Rightarrow> 'j content_block list \<Rightarrow> 'j message list" where
  "attach ms insert_pos bs =
     (if insert_pos < length ms \<and> role (ms ! insert_pos) = User
      then ms[insert_pos := (ms ! insert_pos)
             \<lparr>content := Blocks (content_to_blocks (content (ms ! insert_pos)) @ bs)\<rparr>]
      else take insert_pos ms @ \<lparr>role = User, content = Blocks bs\<rparr> # drop insert_pos ms)"

definition current_positions :: "(string \<rightharpoonup> nat) \<Rightarrow> 'j message list \<Rightarrow> (nat \<rightharpoonup> nat)" where
  "current_positions ix ms =
     foldl (\<lambda>pos (idx, m).
         if role m = Assistant
         then foldl (\<lambda>pos i. case ix i of None \<Rightarrow> pos | Some orig \<Rightarrow> pos(orig \<mapsto> idx)) pos (msg_uses m)
         else pos)
       Map.empty (List.enumerate 0 ms)"

definition reorder_tool_results :: "'j message list \<Rightarrow> 'j message list \<times> nat" where
  "reorder_tool_results ms =
     (let ix = index_uses ms; mis = misplaced ix ms
      in if mis = [] then (ms, 0)
         else let sources = set (map (\<lambda>(msg_idx, i, _, _). (msg_idx, i)) mis);
                  removed = filter non_empty (remove_misplaced sources ms);
                  pos = current_positions ix removed
              in (foldl (\<lambda>acc (orig, bs).
                     case pos orig of
                       None \<Rightarrow> acc
                     | Some current_idx \<Rightarrow> attach acc (min (current_idx + 1) (length acc)) bs)
                    removed (group_desc (map (\<lambda>(_, _, b, a). (a, b)) mis)),
                  length mis))"

section \<open>Phase 2c: synthetic results\<close>

definition interrupted_text :: string where
  "interrupted_text = ''[Tool execution was interrupted or lost]''"

definition orphaned_uses :: "'j message list \<Rightarrow> (nat \<times> string) list" where
  "orphaned_uses ms =
     (let existing = set (results ms)
      in concat (map (\<lambda>(idx, m).
           if role m = Assistant then map (Pair idx) (filter (\<lambda>i. i \<notin> existing) (msg_uses m)) else [])
         (List.enumerate 0 ms)))"

definition insert_synthetic_results :: "'j message list \<Rightarrow> 'j message list \<times> nat" where
  "insert_synthetic_results ms =
     (let orphaned = orphaned_uses ms
      in if orphaned = [] then (ms, 0)
         else (foldl (\<lambda>acc (assistant_idx, bs). attach acc (min (assistant_idx + 1) (length acc)) bs) ms
                 (group_desc (map (\<lambda>(idx, i). (idx, ToolResult i interrupted_text True)) orphaned)),
               length orphaned))"

section \<open>Phase 2d: duplicate results\<close>

fun dedup_blocks :: "string set \<Rightarrow> 'j content_block list \<Rightarrow> 'j content_block list \<times> string set" where
  "dedup_blocks seen [] = ([], seen)"
| "dedup_blocks seen (ToolResult i c e # bs) =
     (if i \<in> seen then dedup_blocks seen bs
      else let (rest, seen') = dedup_blocks (insert i seen) bs in (ToolResult i c e # rest, seen'))"
| "dedup_blocks seen (b # bs) = (let (rest, seen') = dedup_blocks seen bs in (b # rest, seen'))"

fun dedup_messages :: "string set \<Rightarrow> 'j message list \<Rightarrow> 'j message list \<times> nat" where
  "dedup_messages seen [] = ([], 0)"
| "dedup_messages seen (m # ms) =
     (case content m of
        TextContent _ \<Rightarrow> (let (rest, n) = dedup_messages seen ms in (m # rest, n))
      | Blocks bs \<Rightarrow>
          (let (bs', seen') = dedup_blocks seen bs; (rest, n) = dedup_messages seen' ms
           in (m\<lparr>content := Blocks bs'\<rparr> # rest, (length bs - length bs') + n)))"

definition deduplicate_tool_results :: "'j message list \<Rightarrow> 'j message list \<times> nat" where
  "deduplicate_tool_results ms =
     (let (ms', removed) = dedup_messages {} ms in (filter non_empty ms', removed))"

section \<open>Phase 2e: aborted assistant messages\<close>

fun blank_block :: "'j content_block \<Rightarrow> bool" where
  "blank_block (Text t) = (trim t = [])"
| "blank_block Unknown = True"
| "blank_block _ = False"

fun is_empty_or_blank_content :: "'j message_content \<Rightarrow> bool" where
  "is_empty_or_blank_content (TextContent s) = (trim s = [])"
| "is_empty_or_blank_content (Blocks bs) = (bs = [] \<or> list_all blank_block bs)"

text \<open>The flag \<open>skip_next\<close> of the loop is never set, so the loop drops exactly these messages.\<close>

definition remove_aborted_assistant_messages :: "'j message list \<Rightarrow> 'j message list" where
  "remove_aborted_assistant_messages ms =
     (if length ms < 2 then ms
      else map snd (filter (\<lambda>(i, m). \<not> (role m = Assistant \<and> is_empty_or_blank_content (content m)
                              \<and> i + 1 < length ms)) (List.enumerate 0 ms)))"

section \<open>Phase 3: merging\<close>

definition merge_content :: "'j message_content \<Rightarrow> 'j message_content \<Rightarrow> 'j message_content" where
  "merge_content dst src = Blocks (content_to_blocks dst @ content_to_blocks src)"

text \<open>\<open>merged\<close> is built backwards, its last message first.\<close>

fun merge_loop :: "'j message list \<Rightarrow> nat \<Rightarrow> 'j message list \<Rightarrow> 'j message list \<times> nat" where
  "merge_loop merged n [] = (rev merged, n)"
| "merge_loop [] n (m # ms) = merge_loop [m] n ms"
| "merge_loop (l # merged) n (m # ms) =
     (if role l = role m
      then merge_loop (l\<lparr>content := merge_content (content l) (content m)\<rparr> # merged) (Suc n) ms
      else merge_loop (m # l # merged) n ms)"

section \<open>The whole repair\<close>

definition validate_and_repair_with_stats :: "'j message list \<Rightarrow> 'j message list \<times> repair_stats" where
  "validate_and_repair_with_stats ms =
     (let tool_use_ids = set (uses ms);
          (cleaned, st) = clean_phase tool_use_ids no_repairs ms;
          (reordered, reordered_count) = reorder_tool_results cleaned;
          st1 = st\<lparr>results_reordered := reordered_count\<rparr>;
          (completed, synthetic_count) = insert_synthetic_results reordered;
          st2 = st1\<lparr>synthetic_results_inserted := synthetic_count\<rparr>;
          (deduped, dedup_count) = deduplicate_tool_results completed;
          st3 = st2\<lparr>duplicates_removed := dedup_count\<rparr>;
          kept = remove_aborted_assistant_messages deduped;
          st4 = st3\<lparr>empty_messages_removed :=
                     empty_messages_removed st3 + (length deduped - length kept)\<rparr>;
          (merged, merged_count) = merge_loop [] 0 kept
      in (merged, st4\<lparr>messages_merged := messages_merged st4 + merged_count\<rparr>))"

definition validate_and_repair :: "'j message list \<Rightarrow> 'j message list" where
  "validate_and_repair ms = fst (validate_and_repair_with_stats ms)"

section \<open>Heartbeat turns\<close>

definition no_reply_text :: "string \<Rightarrow> bool" where
  "no_reply_text s = (let t = trim s in t = ''NO_REPLY'' \<or> t = ''[no reply needed]'')"

fun is_no_reply :: "'j message_content \<Rightarrow> bool" where
  "is_no_reply (TextContent s) = no_reply_text s"
| "is_no_reply (Blocks [Text t]) = no_reply_text t"
| "is_no_reply (Blocks _) = False"

definition to_remove :: "'j message list \<Rightarrow> nat \<Rightarrow> nat list" where
  "to_remove ms prune_end =
     concat (map (\<lambda>i.
       if role (ms ! i) = Assistant \<and> is_no_reply (content (ms ! i))
       then i # (if i > 0 \<and> role (ms ! (i - 1)) = User then [i - 1] else []) else [])
       [0..<prune_end])"

definition remove_at :: "nat \<Rightarrow> 'a list \<Rightarrow> 'a list" where
  "remove_at i xs = take i xs @ drop (Suc i) xs"

definition prune_heartbeat_turns :: "'j message list \<Rightarrow> nat \<Rightarrow> 'j message list" where
  "prune_heartbeat_turns ms keep_recent =
     (if length ms \<le> keep_recent then ms
      else let rem = to_remove ms (length ms - keep_recent)
           in if rem = [] then ms
              else foldl (\<lambda>acc idx. remove_at idx acc) ms (rev (remdups (sort rem))))"

section \<open>What each phase does to uses and results\<close>

named_theorems repair_facts \<open>per phase facts on uses, results and emptiness\<close>

subsection \<open>Phase 2\<close>

lemma block_uses_keep [simp]: "block_uses (filter (keep_block ids) bs) = block_uses bs"
proof (induction bs)
  case (Cons b bs)
  then show ?case by (cases b) auto
qed simp

lemma block_results_keep [simp]:
  "block_results (filter (keep_block ids) bs) = filter (\<lambda>i. i \<in> ids) (block_results bs)"
proof (induction bs)
  case (Cons b bs)
  then show ?case by (cases b) auto
qed simp

lemma filter_empty_uses: "filter (keep_block ids) bs = [] \<Longrightarrow> block_uses bs = []"
  by (metis block_uses_keep block_uses_simps(1))

lemma filter_empty_results:
  "filter (keep_block ids) bs = [] \<Longrightarrow> filter (\<lambda>i. i \<in> ids) (block_results bs) = []"
  by (metis block_results_keep block_results_simps(1))

lemma clean_uses:
  "uses (fst (clean_phase ids st ms)) = uses ms
   \<and> assistant_uses (fst (clean_phase ids st ms)) = assistant_uses ms
   \<and> results (fst (clean_phase ids st ms)) = filter (\<lambda>i. i \<in> ids) (results ms)
   \<and> list_all non_empty (fst (clean_phase ids st ms))"
  by (induction ids st ms rule: clean_phase.induct)
    (auto simp: Let_def split_def msg_uses_def msg_results_def non_empty_def
      dest: filter_empty_uses filter_empty_results split: message_content.splits)

lemmas clean_facts = clean_uses [THEN conjunct1] clean_uses [THEN conjunct2, THEN conjunct1]
  clean_uses [THEN conjunct2, THEN conjunct2, THEN conjunct1]
  clean_uses [THEN conjunct2, THEN conjunct2, THEN conjunct2]

subsection \<open>Filtering messages and blocks\<close>

lemma empty_message_ids:
  "\<not> non_empty m \<Longrightarrow> msg_uses m = [] \<and> msg_results m = []"
  by (auto simp: non_empty_def msg_uses_def msg_results_def split: message_content.splits)

lemma filter_non_empty [simp]:
  "uses (filter non_empty ms) = uses ms"
  "assistant_uses (filter non_empty ms) = assistant_uses ms"
  "results (filter non_empty ms) = results ms"
  by (induction ms) (auto simp: empty_message_ids)

lemma block_uses_stays [simp]: "block_uses (filter (stays src n) bs) = block_uses bs"
proof (induction bs)
  case (Cons b bs)
  then show ?case by (cases b) auto
qed simp

lemma block_results_stays: "set (block_results (filter (stays src n) bs)) \<subseteq> set (block_results bs)"
proof (induction bs)
  case (Cons b bs)
  then show ?case by (cases b) auto
qed simp

definition retain_stays :: "(nat \<times> string) set \<Rightarrow> nat \<Rightarrow> 'j message \<Rightarrow> 'j message" where
  "retain_stays sources msg_idx m =
     (if role m \<noteq> User then m
      else (case content m of
              TextContent _ \<Rightarrow> m
            | Blocks bs \<Rightarrow> m\<lparr>content := Blocks (filter (stays sources msg_idx) bs)\<rparr>))"

lemma retain_stays_facts:
  "role (retain_stays src n m) = role m"
  "msg_uses (retain_stays src n m) = msg_uses m"
  "set (msg_results (retain_stays src n m)) \<subseteq> set (msg_results m)"
  by (auto simp: retain_stays_def msg_uses_def msg_results_def split: message_content.splits
      dest: block_results_stays [THEN subsetD])

lemma remove_misplaced_facts:
  "uses (remove_misplaced src ms) = uses ms
   \<and> assistant_uses (remove_misplaced src ms) = assistant_uses ms
   \<and> set (results (remove_misplaced src ms)) \<subseteq> set (results ms)"
proof -
  have "uses (map (\<lambda>(n, m). retain_stays src n m) (List.enumerate k ms)) = uses ms
    \<and> assistant_uses (map (\<lambda>(n, m). retain_stays src n m) (List.enumerate k ms)) = assistant_uses ms
    \<and> set (results (map (\<lambda>(n, m). retain_stays src n m) (List.enumerate k ms))) \<subseteq> set (results ms)" for k
  proof (induction ms arbitrary: k)
    case (Cons m ms)
    from Cons.IH [of "Suc k"] retain_stays_facts(3) [of src k m] show ?case
      by (auto simp: retain_stays_facts(1,2))
  qed simp
  then show ?thesis by (simp add: remove_misplaced_def retain_stays_def)
qed

subsection \<open>Attaching blocks\<close>

text \<open>Both insertion loops attach tool results only.\<close>

definition only_results :: "'j content_block list \<Rightarrow> bool" where
  "only_results bs = (bs \<noteq> [] \<and> list_all (\<lambda>b. case b of ToolResult _ _ _ \<Rightarrow> True | _ \<Rightarrow> False) bs)"

lemma only_results_uses: "only_results bs \<Longrightarrow> block_uses bs = []"
proof -
  have "list_all (\<lambda>b. case b of ToolResult _ _ _ \<Rightarrow> True | _ \<Rightarrow> False) bs \<Longrightarrow> block_uses bs = []"
    by (induction bs) (auto split: content_block.splits)
  then show "only_results bs \<Longrightarrow> block_uses bs = []" by (simp add: only_results_def)
qed

lemma attach_facts:
  assumes "only_results bs"
  shows "uses (attach ms p bs) = uses ms \<and> assistant_uses (attach ms p bs) = assistant_uses ms
    \<and> set (results (attach ms p bs)) = set (results ms) \<union> set (block_results bs)
    \<and> (list_all non_empty ms \<longrightarrow> list_all non_empty (attach ms p bs))"
proof (cases "p < length ms \<and> role (ms ! p) = User")
  case True
  then have ms: "ms = take p ms @ ms ! p # drop (Suc p) ms" by (simp add: id_take_nth_drop)
  from True have at: "attach ms p bs = take p ms
      @ (ms ! p)\<lparr>content := Blocks (content_to_blocks (content (ms ! p)) @ bs)\<rparr> # drop (Suc p) ms"
    by (simp add: attach_def upd_conv_take_nth_drop)
  have "uses (attach ms p bs) = uses (take p ms @ ms ! p # drop (Suc p) ms)"
    "assistant_uses (attach ms p bs) = assistant_uses (take p ms @ ms ! p # drop (Suc p) ms)"
    "set (results (attach ms p bs)) = set (results (take p ms @ ms ! p # drop (Suc p) ms)) \<union> set (block_results bs)"
    "list_all non_empty (take p ms @ ms ! p # drop (Suc p) ms) \<longrightarrow> list_all non_empty (attach ms p bs)"
    using True assms only_results_uses [OF assms] unfolding at
    by (auto simp: msg_uses_def msg_results_def non_empty_def only_results_def)
  then show ?thesis using ms by simp
next
  case False
  then have at: "attach ms p bs = take p ms @ \<lparr>role = User, content = Blocks bs\<rparr> # drop p ms"
    unfolding attach_def by (rule if_not_P)
  have "uses (attach ms p bs) = uses (take p ms @ drop p ms)"
    "assistant_uses (attach ms p bs) = assistant_uses (take p ms @ drop p ms)"
    "set (results (attach ms p bs)) = set (results (take p ms @ drop p ms)) \<union> set (block_results bs)"
    "list_all non_empty (take p ms @ drop p ms) \<longrightarrow> list_all non_empty (attach ms p bs)"
    using assms only_results_uses [OF assms] unfolding at
    by (auto simp: msg_uses_def msg_results_def non_empty_def only_results_def
        simp del: append_take_drop_id)
  then show ?thesis by simp
qed

lemma foldl_attach_facts:
  assumes "list_all (\<lambda>(k, bs). only_results bs) gs"
  shows "uses (foldl (\<lambda>acc (k, bs). attach acc (f k acc) bs) ms gs) = uses ms
    \<and> assistant_uses (foldl (\<lambda>acc (k, bs). attach acc (f k acc) bs) ms gs) = assistant_uses ms
    \<and> set (results (foldl (\<lambda>acc (k, bs). attach acc (f k acc) bs) ms gs))
        = set (results ms) \<union> (\<Union>(k, bs) \<in> set gs. set (block_results bs))
    \<and> (list_all non_empty ms \<longrightarrow> list_all non_empty (foldl (\<lambda>acc (k, bs). attach acc (f k acc) bs) ms gs))"
  using assms
proof (induction gs arbitrary: ms)
  case Nil
  then show ?case by simp
next
  case (Cons g gs)
  obtain k bs where g: "g = (k, bs)" by fastforce
  with Cons.prems have "only_results bs" by simp
  from attach_facts [OF this, of ms "f k ms"] Cons.IH [of "attach ms (f k ms) bs"] Cons.prems g
  show ?case by auto
qed

text \<open>The reorder loop skips a group whose assistant message has no position.\<close>

lemma foldl_attach_optional:
  assumes "list_all (\<lambda>(k, bs). only_results bs) gs"
  shows "uses (foldl (\<lambda>acc (k, bs). case pos k of None \<Rightarrow> acc | Some c \<Rightarrow> attach acc (f c acc) bs) ms gs) = uses ms
    \<and> assistant_uses (foldl (\<lambda>acc (k, bs). case pos k of None \<Rightarrow> acc | Some c \<Rightarrow> attach acc (f c acc) bs) ms gs)
        = assistant_uses ms
    \<and> set (results (foldl (\<lambda>acc (k, bs). case pos k of None \<Rightarrow> acc | Some c \<Rightarrow> attach acc (f c acc) bs) ms gs))
        \<subseteq> set (results ms) \<union> (\<Union>(k, bs) \<in> set gs. set (block_results bs))
    \<and> (list_all non_empty ms \<longrightarrow>
         list_all non_empty (foldl (\<lambda>acc (k, bs). case pos k of None \<Rightarrow> acc | Some c \<Rightarrow> attach acc (f c acc) bs) ms gs))"
  using assms
proof (induction gs arbitrary: ms)
  case Nil
  then show ?case by simp
next
  case (Cons g gs)
  obtain k bs where g: "g = (k, bs)" by fastforce
  show ?case
  proof (cases "pos k")
    case None
    with Cons.IH [of ms] Cons.prems g show ?thesis by auto
  next
    case (Some c)
    from Cons.prems g have "only_results bs" by simp
    from attach_facts [OF this, of ms "f c ms"] Cons.IH [of "attach ms (f c ms) bs"] Cons.prems g Some
    show ?thesis by auto
  qed
qed

lemma group_desc_blocks: "(\<Union>(k, bs) \<in> set (group_desc xs). set bs) = snd ` set xs"
  by (force simp: group_desc_def)

lemma group_desc_only_results:
  assumes "\<forall>(k, b) \<in> set xs. case b of ToolResult _ _ _ \<Rightarrow> True | _ \<Rightarrow> False"
  shows "list_all (\<lambda>(k, bs). only_results bs) (group_desc xs)"
proof -
  have "only_results (map snd (filter (\<lambda>(k', _). k' = k) xs))" if "k \<in> fst ` set xs" for k
    using assms that by (fastforce simp: only_results_def list_all_iff filter_empty_conv)
  then show ?thesis by (auto simp: group_desc_def list_all_iff)
qed

lemma set_block_results: "set (block_results bs) = (\<Union>b \<in> set bs. set (result_id b))"
  by (simp add: block_results_def)

lemma group_desc_results:
  "(\<Union>(k, bs) \<in> set (group_desc xs). set (block_results bs)) = (\<Union>b \<in> snd ` set xs. set (result_id b))"
  unfolding group_desc_blocks [symmetric] set_block_results by force

subsection \<open>Reordering\<close>

lemma misplaced_block_result:
  "x \<in> set (misplaced_block ix n b) \<Longrightarrow> fst (snd (snd x)) = b \<and> (case b of ToolResult _ _ _ \<Rightarrow> True | _ \<Rightarrow> False)"
  by (cases b) (auto split: option.splits if_splits)

lemma misplacedD:
  assumes "x \<in> set (misplaced ix ms)"
  shows "(case fst (snd (snd x)) of ToolResult _ _ _ \<Rightarrow> True | _ \<Rightarrow> False)"
    and "set (result_id (fst (snd (snd x)))) \<subseteq> set (results ms)"
proof -
  from assms obtain n m bs b where nm: "(n, m) \<in> set (List.enumerate 0 ms)" "content m = Blocks bs"
    "b \<in> set bs" "x \<in> set (misplaced_block ix n b)"
    by (auto simp: misplaced_def split: if_splits message_content.splits) metis
  from misplaced_block_result [OF nm(4)] show "(case fst (snd (snd x)) of ToolResult _ _ _ \<Rightarrow> True | _ \<Rightarrow> False)"
    by simp
  from nm(1) have "m \<in> set ms" by (auto simp: in_set_enumerate_eq)
  then have "set (msg_results m) \<subseteq> set (results ms)" by (auto simp: results_def)
  moreover from nm(2,3) have "set (result_id b) \<subseteq> set (msg_results m)"
    by (auto simp: msg_results_def set_block_results)
  ultimately show "set (result_id (fst (snd (snd x)))) \<subseteq> set (results ms)"
    using misplaced_block_result [OF nm(4)] by blast
qed

lemma reorder_facts:
  "uses (fst (reorder_tool_results ms)) = uses ms
   \<and> assistant_uses (fst (reorder_tool_results ms)) = assistant_uses ms
   \<and> set (results (fst (reorder_tool_results ms))) \<subseteq> set (results ms)
   \<and> (list_all non_empty ms \<longrightarrow> list_all non_empty (fst (reorder_tool_results ms)))"
proof -
  define ix where "ix = index_uses ms"
  define mis where "mis = misplaced ix ms"
  define src where "src = set (map (\<lambda>(n, i, _, _). (n, i)) mis)"
  define removed where "removed = filter non_empty (remove_misplaced src ms)"
  define gs where "gs = group_desc (map (\<lambda>(_, _, b, a). (a, b)) mis)"
  have eq: "reorder_tool_results ms =
     (if mis = [] then (ms, 0)
      else (foldl (\<lambda>acc (k, bs). case current_positions ix removed k of None \<Rightarrow> acc
              | Some c \<Rightarrow> attach acc (min (c + 1) (length acc)) bs) removed gs, length mis))"
    by (simp add: reorder_tool_results_def Let_def ix_def mis_def src_def removed_def gs_def)
  have gs: "list_all (\<lambda>(k, bs). only_results bs) gs"
    unfolding gs_def using misplacedD(1) [of _ ix ms]
    by (intro group_desc_only_results) (fastforce simp: mis_def)
  have "(\<Union>(k, bs) \<in> set gs. set (block_results bs)) \<subseteq> set (results ms)"
    unfolding gs_def group_desc_results using misplacedD(2) [of _ ix ms] by (fastforce simp: mis_def)
  moreover have "uses removed = uses ms" "assistant_uses removed = assistant_uses ms"
    "set (results removed) \<subseteq> set (results ms)" "list_all non_empty removed"
    using remove_misplaced_facts [of src ms] by (simp_all add: removed_def list_all_iff)
  moreover note foldl_attach_optional [OF gs, where pos = "current_positions ix removed"
        and f = "\<lambda>c acc. min (c + 1) (length acc)" and ms = removed]
  ultimately show ?thesis
    unfolding eq by (cases "mis = []") (simp_all, blast)
qed

subsection \<open>Synthetic results\<close>

lemma orphaned_uses_ids:
  "snd ` set (orphaned_uses ms) = set (assistant_uses ms) - set (results ms)"
proof -
  have "snd ` set (concat (map (\<lambda>(idx, m). if role m = Assistant
          then map (Pair idx) (filter (\<lambda>i. i \<notin> R) (msg_uses m)) else []) (List.enumerate k ms)))
        = set (assistant_uses ms) - R" for k R
    by (induction ms arbitrary: k) (auto simp: image_Un image_image)
  then show ?thesis by (simp add: orphaned_uses_def)
qed

lemma synthetic_facts:
  "uses (fst (insert_synthetic_results ms)) = uses ms
   \<and> assistant_uses (fst (insert_synthetic_results ms)) = assistant_uses ms
   \<and> set (results (fst (insert_synthetic_results ms))) = set (results ms) \<union> set (assistant_uses ms)
   \<and> (list_all non_empty ms \<longrightarrow> list_all non_empty (fst (insert_synthetic_results ms)))"
proof -
  define gs :: "(nat \<times> 'a content_block list) list"
    where "gs = group_desc (map (\<lambda>(idx, i). (idx, ToolResult i interrupted_text True)) (orphaned_uses ms))"
  have gs: "list_all (\<lambda>(k, bs). only_results bs) gs"
    unfolding gs_def by (rule group_desc_only_results) auto
  have "(\<Union>(k, bs) \<in> set gs. set (block_results bs)) = snd ` set (orphaned_uses ms)"
    unfolding gs_def group_desc_results by force
  moreover have "orphaned_uses ms = [] \<Longrightarrow> set (assistant_uses ms) \<subseteq> set (results ms)"
    using orphaned_uses_ids [of ms] by auto
  ultimately show ?thesis
    using foldl_attach_facts [OF gs, where f = "\<lambda>c acc. min (c + 1) (length acc)" and ms = ms] orphaned_uses_ids [of ms]
    by (auto simp: insert_synthetic_results_def Let_def gs_def)
qed

subsection \<open>Deduplication\<close>

lemma dedup_blocks_facts:
  "block_uses (fst (dedup_blocks seen bs)) = block_uses bs
   \<and> distinct (block_results (fst (dedup_blocks seen bs)))
   \<and> set (block_results (fst (dedup_blocks seen bs))) = set (block_results bs) - seen
   \<and> snd (dedup_blocks seen bs) = seen \<union> set (block_results bs)"
  by (induction seen bs rule: dedup_blocks.induct) (auto simp: split_def Let_def)

lemma dedup_messages_facts:
  "uses (fst (dedup_messages seen ms)) = uses ms
   \<and> assistant_uses (fst (dedup_messages seen ms)) = assistant_uses ms
   \<and> distinct (results (fst (dedup_messages seen ms)))
   \<and> set (results (fst (dedup_messages seen ms))) = set (results ms) - seen"
proof (induction seen ms rule: dedup_messages.induct)
  case (1 seen)
  show ?case by simp
next
  case (2 seen m ms)
  show ?case
  proof (cases "content m")
    case (TextContent t)
    with 2 show ?thesis by (auto simp: split_def Let_def msg_uses_def msg_results_def)
  next
    case (Blocks bs)
    obtain bs' seen' where d: "dedup_blocks seen bs = (bs', seen')" by fastforce
    with 2(2) [OF Blocks, of "(bs', seen')" bs' seen'] dedup_blocks_facts [of seen bs] Blocks
    show ?thesis by (auto simp: split_def Let_def msg_uses_def msg_results_def)
  qed
qed

lemma deduplicate_facts:
  "uses (fst (deduplicate_tool_results ms)) = uses ms
   \<and> assistant_uses (fst (deduplicate_tool_results ms)) = assistant_uses ms
   \<and> distinct (results (fst (deduplicate_tool_results ms)))
   \<and> set (results (fst (deduplicate_tool_results ms))) = set (results ms)
   \<and> list_all non_empty (fst (deduplicate_tool_results ms))"
  using dedup_messages_facts [of "{}" ms]
  by (simp add: deduplicate_tool_results_def split_def Let_def list_all_iff)

subsection \<open>Aborted messages\<close>

lemma blank_no_ids:
  "is_empty_or_blank_content (content m) \<Longrightarrow> msg_uses m = [] \<and> msg_results m = []"
proof -
  have "list_all blank_block bs \<Longrightarrow> block_uses bs = [] \<and> block_results bs = []" for bs :: "'a content_block list"
  proof (induction bs)
    case (Cons b bs)
    then show ?case by (cases b) auto
  qed simp
  then show "is_empty_or_blank_content (content m) \<Longrightarrow> msg_uses m = [] \<and> msg_results m = []"
    by (cases "content m") (auto simp: msg_uses_def msg_results_def)
qed

lemma aborted_facts:
  "uses (remove_aborted_assistant_messages ms) = uses ms
   \<and> assistant_uses (remove_aborted_assistant_messages ms) = assistant_uses ms
   \<and> results (remove_aborted_assistant_messages ms) = results ms
   \<and> (list_all non_empty ms \<longrightarrow> list_all non_empty (remove_aborted_assistant_messages ms))"
proof -
  let ?P = "\<lambda>(i, m). \<not> (role m = Assistant \<and> is_empty_or_blank_content (content m) \<and> i + 1 < length ms)"
  have "uses (map snd (filter ?P (List.enumerate k ns))) = uses ns
    \<and> assistant_uses (map snd (filter ?P (List.enumerate k ns))) = assistant_uses ns
    \<and> results (map snd (filter ?P (List.enumerate k ns))) = results ns
    \<and> (list_all non_empty ns \<longrightarrow> list_all non_empty (map snd (filter ?P (List.enumerate k ns))))" for k ns
    by (induction ns arbitrary: k) (auto simp: blank_no_ids)
  then show ?thesis by (auto simp: remove_aborted_assistant_messages_def)
qed

subsection \<open>Merging\<close>

fun alternates :: "'j message list \<Rightarrow> bool" where
  "alternates [] = True"
| "alternates [m] = True"
| "alternates (m # n # ms) = (role m \<noteq> role n \<and> alternates (n # ms))"

lemma alternates_snoc: "alternates (ms @ [m]) = (alternates ms \<and> (ms = [] \<or> role (last ms) \<noteq> role m))"
  by (induction ms rule: alternates.induct) auto

lemma alternates_snoc2:
  "alternates (ms @ [l, m]) = (alternates (ms @ [l]) \<and> role l \<noteq> role m)"
  using alternates_snoc [of "ms @ [l]" m] by simp

lemma merge_loop_facts:
  "uses (fst (merge_loop acc n ms)) = uses (rev acc) @ uses ms
   \<and> assistant_uses (fst (merge_loop acc n ms)) = assistant_uses (rev acc) @ assistant_uses ms
   \<and> results (fst (merge_loop acc n ms)) = results (rev acc) @ results ms
   \<and> (list_all non_empty acc \<longrightarrow> list_all non_empty ms \<longrightarrow> list_all non_empty (fst (merge_loop acc n ms)))
   \<and> (alternates (rev acc) \<longrightarrow> alternates (fst (merge_loop acc n ms)))
   \<and> snd (merge_loop acc n ms) + length (fst (merge_loop acc n ms)) = n + length acc + length ms"
proof (induction acc n ms rule: merge_loop.induct)
  case (1 merged n)
  then show ?case by simp
next
  case (2 n m ms)
  then show ?case by simp
next
  case (3 l merged n m ms)
  show ?case
  proof (cases "role l = role m")
    case True
    have "non_empty l \<Longrightarrow> non_empty (l\<lparr>content := merge_content (content l) (content m)\<rparr>)"
      by (cases "content l") (auto simp: non_empty_def merge_content_def)
    with True 3(1) [OF True] show ?thesis
      by (auto simp: msg_uses_def msg_results_def merge_content_def alternates_snoc)
  next
    case False
    with 3(2) [OF False] show ?thesis by (auto simp: alternates_snoc2)
  qed
qed

section \<open>Properties\<close>

lemma repair_output_facts:
  "uses (validate_and_repair ms) = uses ms
   \<and> assistant_uses (validate_and_repair ms) = assistant_uses ms
   \<and> distinct (results (validate_and_repair ms))
   \<and> set (results (validate_and_repair ms)) \<subseteq> set (uses ms)
   \<and> set (assistant_uses ms) \<subseteq> set (results (validate_and_repair ms))
   \<and> list_all non_empty (validate_and_repair ms)
   \<and> alternates (validate_and_repair ms)"
proof -
  define a where "a = fst (clean_phase (set (uses ms)) no_repairs ms)"
  define b where "b = fst (reorder_tool_results a)"
  define c where "c = fst (insert_synthetic_results b)"
  define d where "d = fst (deduplicate_tool_results c)"
  define e where "e = remove_aborted_assistant_messages d"
  have out: "validate_and_repair ms = fst (merge_loop [] 0 e)"
    by (simp add: validate_and_repair_def validate_and_repair_with_stats_def split_def Let_def
        a_def b_def c_def d_def e_def)
  have "uses a = uses ms" "assistant_uses a = assistant_uses ms"
    "set (results a) \<subseteq> set (uses ms)"
    using clean_uses [of "set (uses ms)" no_repairs ms] by (auto simp: a_def)
  moreover note reorder_facts [of a, folded b_def] synthetic_facts [of b, folded c_def]
    deduplicate_facts [of c, folded d_def] aborted_facts [of d, folded e_def]
    merge_loop_facts [of "[]" 0 e] assistant_uses_subset [of ms]
  ultimately show ?thesis unfolding out by (simp, blast)
qed

text \<open>
  C4: the repaired history is one the model's API accepts. No two neighbouring messages have the same role, no
  message is empty, no tool result is repeated, every tool result answers a tool use of the history, and
  every tool use of the assistant has its result. No tool use is lost or invented.
\<close>

theorem repaired_history_well_formed:
  "alternates (validate_and_repair ms) \<and> list_all non_empty (validate_and_repair ms)
   \<and> distinct (results (validate_and_repair ms))
   \<and> set (results (validate_and_repair ms)) \<subseteq> set (uses (validate_and_repair ms))
   \<and> set (assistant_uses (validate_and_repair ms)) \<subseteq> set (results (validate_and_repair ms))
   \<and> uses (validate_and_repair ms) = uses ms"
  using repair_output_facts [of ms] by simp

subsection \<open>A repair that reports nothing changes nothing\<close>

lemma clean_phase_mono:
  "orphaned_results_removed st \<le> orphaned_results_removed (snd (clean_phase ids st ms))
   \<and> empty_messages_removed st \<le> empty_messages_removed (snd (clean_phase ids st ms))"
proof (induction ms arbitrary: st)
  case (Cons m ms)
  show ?case
  proof (cases "content m")
    case (Blocks bs)
    let ?st = "st\<lparr>orphaned_results_removed :=
      orphaned_results_removed st + length (filter (\<lambda>b. \<not> keep_block ids b) bs)\<rparr>"
    show ?thesis
      using Cons.IH [of ?st] Cons.IH [of "?st\<lparr>empty_messages_removed := Suc (empty_messages_removed st)\<rparr>"]
      by (auto simp: split_def Let_def Blocks)
  qed (use Cons.IH [of st] Cons.IH [of "st\<lparr>empty_messages_removed := Suc (empty_messages_removed st)\<rparr>"]
      in \<open>auto simp: split_def Let_def\<close>)
qed simp

lemma filter_length_id: "length xs \<le> length (filter P xs) \<Longrightarrow> filter P xs = xs"
proof (induction xs)
  case (Cons x xs)
  show ?case
  proof (cases "P x")
    case False
    with Cons.prems have "Suc (length xs) \<le> length (filter P xs)" by simp
    with length_filter_le [of P xs] show ?thesis by linarith
  qed (use Cons in simp)
qed simp

lemma filter_all_id: "length (filter (\<lambda>b. \<not> P b) bs) = 0 \<Longrightarrow> filter P bs = bs"
  by (simp add: filter_empty_conv)

lemma clean_phase_unchanged:
  "orphaned_results_removed (snd (clean_phase ids st ms)) = orphaned_results_removed st \<Longrightarrow>
   empty_messages_removed (snd (clean_phase ids st ms)) = empty_messages_removed st \<Longrightarrow>
   fst (clean_phase ids st ms) = ms"
proof (induction ms arbitrary: st)
  case Nil
  then show ?case by simp
next
  case (Cons m ms)
  show ?case
  proof (cases "content m")
    case (TextContent t)
    with Cons.prems clean_phase_mono [of "st\<lparr>empty_messages_removed := Suc (empty_messages_removed st)\<rparr>" ids ms]
    have "t \<noteq> []" by auto
    with TextContent Cons show ?thesis by (simp add: split_def Let_def)
  next
    case (Blocks bs)
    let ?n = "length (filter (\<lambda>b. \<not> keep_block ids b) bs)"
    let ?st = "st\<lparr>orphaned_results_removed := orphaned_results_removed st + ?n\<rparr>"
    have ne: "filter (keep_block ids) bs \<noteq> []"
      using Cons.prems Blocks
        clean_phase_mono [of "?st\<lparr>empty_messages_removed := Suc (empty_messages_removed st)\<rparr>" ids ms]
      by (auto simp: Let_def)
    with Cons.prems(1) Blocks clean_phase_mono [of ?st ids ms] have n: "?n = 0"
      by (auto simp: split_def Let_def)
    with Cons.prems Cons.IH [of st] Blocks ne show ?thesis
      by (simp add: split_def Let_def filter_all_id [OF n])
  qed
qed

lemma dedup_blocks_length: "length (fst (dedup_blocks seen bs)) \<le> length bs"
  by (induction seen bs rule: dedup_blocks.induct) (auto simp: split_def Let_def)

lemma dedup_blocks_unchanged:
  "length bs \<le> length (fst (dedup_blocks seen bs)) \<Longrightarrow> fst (dedup_blocks seen bs) = bs"
proof (induction seen bs rule: dedup_blocks.induct)
  case (2 seen i c e bs)
  then show ?case using dedup_blocks_length [of seen bs] by (auto simp: split_def Let_def split: if_splits)
qed (auto simp: split_def Let_def)

lemma dedup_messages_unchanged:
  "snd (dedup_messages seen ms) = 0 \<Longrightarrow> fst (dedup_messages seen ms) = ms"
proof (induction ms arbitrary: seen)
  case (Cons m ms)
  show ?case
  proof (cases "content m")
    case (Blocks bs)
    with Cons.prems have "fst (dedup_blocks seen bs) = bs"
      by (intro dedup_blocks_unchanged) (simp add: split_def Let_def)
    with Blocks Cons show ?thesis by (simp add: split_def Let_def)
  qed (use Cons in \<open>simp add: split_def Let_def\<close>)
qed simp

lemma aborted_unchanged:
  assumes "length ms \<le> length (remove_aborted_assistant_messages ms)"
  shows "remove_aborted_assistant_messages ms = ms"
proof -
  let ?P = "\<lambda>(i, m). \<not> (role m = Assistant \<and> is_empty_or_blank_content (content m) \<and> i + 1 < length ms)"
  have "filter ?P (List.enumerate 0 ms) = List.enumerate 0 ms" if "\<not> length ms < 2"
    using assms that by (intro filter_length_id) (simp add: remove_aborted_assistant_messages_def)
  then show ?thesis by (simp add: remove_aborted_assistant_messages_def)
qed

lemma merge_loop_count: "n \<le> snd (merge_loop acc n ms)"
  by (induction acc n ms rule: merge_loop.induct) auto

lemma merge_loop_unchanged: "snd (merge_loop acc n ms) = n \<Longrightarrow> fst (merge_loop acc n ms) = rev acc @ ms"
proof (induction acc n ms rule: merge_loop.induct)
  case (3 l merged n m ms)
  then show ?case
    using merge_loop_count [of "Suc n" "l\<lparr>content := merge_content (content l) (content m)\<rparr> # merged" ms]
    by (auto split: if_splits)
qed auto

text \<open>
  The statistics do not miss a repair: when all six counters are zero the history is returned
  as it was.
\<close>

theorem no_repairs_unchanged:
  assumes "snd (validate_and_repair_with_stats ms) = no_repairs"
  shows "validate_and_repair ms = ms"
proof -
  define cl where "cl = clean_phase (set (uses ms)) no_repairs ms"
  define re where "re = reorder_tool_results (fst cl)"
  define sy where "sy = insert_synthetic_results (fst re)"
  define de where "de = deduplicate_tool_results (fst sy)"
  define ke where "ke = remove_aborted_assistant_messages (fst de)"
  define me where "me = merge_loop [] 0 ke"
  have v: "validate_and_repair_with_stats ms = (fst me,
      (snd cl)\<lparr>results_reordered := snd re, synthetic_results_inserted := snd sy,
        duplicates_removed := snd de,
        empty_messages_removed := empty_messages_removed (snd cl) + (length (fst de) - length ke),
        messages_merged := messages_merged (snd cl) + snd me\<rparr>)"
    by (simp add: validate_and_repair_with_stats_def split_def Let_def cl_def re_def sy_def de_def
        ke_def me_def)
  from assms [unfolded v] have z: "orphaned_results_removed (snd cl) = 0" "empty_messages_removed (snd cl) = 0"
    "snd re = 0" "snd sy = 0" "snd de = 0" "length (fst de) \<le> length ke" "snd me = 0"
    by (cases "snd cl"; simp add: no_repairs_def)+
  have "fst cl = ms" using z(1,2) unfolding cl_def by (intro clean_phase_unchanged) (simp_all add: no_repairs_def)
  moreover have "fst re = fst cl" using z(3) by (auto simp: re_def reorder_tool_results_def Let_def split: if_splits)
  moreover have "fst sy = fst re" using z(4) by (auto simp: sy_def insert_synthetic_results_def Let_def split: if_splits)
  moreover have "list_all non_empty (fst sy)"
    using clean_uses [of "set (uses ms)" no_repairs ms] calculation by (simp add: cl_def)
  then have "fst de = fst sy"
    using z(5) dedup_messages_unchanged [of "{}" "fst sy"]
    by (simp add: de_def deduplicate_tool_results_def split_def Let_def list_all_iff)
  moreover have "ke = fst de" using z(6) unfolding ke_def by (rule aborted_unchanged)
  moreover have "fst me = ke" using z(7) merge_loop_unchanged [of "[]" 0 ke] by (simp add: me_def)
  ultimately show ?thesis by (simp add: validate_and_repair_def v)
qed

theorem no_repairs_unchanged_witness:
  "validate_and_repair [user_message ''hi'', \<lparr>role = Assistant, content = Blocks [ToolUse ''a'' ''ls'' ()]\<rparr>,
      \<lparr>role = User, content = Blocks [ToolResult ''a'' ''ok'' False]\<rparr>]
   = [user_message ''hi'', \<lparr>role = Assistant, content = Blocks [ToolUse ''a'' ''ls'' ()]\<rparr>,
      \<lparr>role = User, content = Blocks [ToolResult ''a'' ''ok'' False]\<rparr>]"
  by (rule no_repairs_unchanged) code_simp

subsection \<open>Heartbeat turns\<close>

text \<open>Removing indices from the back is keeping the others.\<close>

lemma nths_all_in: "{..<length xs} \<subseteq> A \<Longrightarrow> nths xs A = xs"
  by (rule nths_all) auto

lemma remove_at_nths:
  assumes "i < length xs" and "\<forall>j \<in> B. i < j"
  shows "remove_at i (nths xs (- B)) = nths xs (- insert i B)"
proof -
  have xs: "xs = take i xs @ xs ! i # drop (Suc i) xs" using assms(1) by (rule id_take_nth_drop)
  have len: "length (take i xs) = i" using assms(1) by simp
  have keep: "nths (take i xs) A = take i xs" if "{..<i} \<subseteq> A" for A
    using that len by (intro nths_all_in) simp
  have B: "{..<i} \<subseteq> - B" "{..<i} \<subseteq> - insert i B" "i \<notin> B" using assms(2) by auto
  have "nths xs A = take i xs @ (if i \<in> A then [xs ! i] else [])
      @ nths (drop (Suc i) xs) {j. j + Suc i \<in> A}" if "{..<i} \<subseteq> A" for A
    by (subst xs) (simp add: nths_append nths_Cons len keep [OF that]
        del: append_take_drop_id length_take)
  from this [OF B(1)] this [OF B(2)] B(3) len show ?thesis
    using assms by (simp add: remove_at_def)
qed

lemma foldl_remove_at:
  "sorted is \<Longrightarrow> distinct is \<Longrightarrow> \<forall>i \<in> set is. i < length xs \<Longrightarrow>
   foldl (\<lambda>acc idx. remove_at idx acc) xs (rev is) = nths xs (- set is)"
proof (induction "is")
  case Nil
  then show ?case by (simp add: nths_all_in)
next
  case (Cons i "is")
  then have "\<forall>j \<in> set is. i < j" by (metis distinct.simps(2) order_le_neq_trans sorted_simps(2))
  with Cons show ?case by (simp add: remove_at_nths)
qed

lemma to_remove_bound: "i \<in> set (to_remove ms n) \<Longrightarrow> i < n"
  by (auto simp: to_remove_def split: if_splits)

lemma prune_eq_nths:
  "prune_heartbeat_turns ms k = nths ms (- set (to_remove ms (length ms - k)))"
proof (cases "length ms \<le> k")
  case True
  then show ?thesis by (simp add: prune_heartbeat_turns_def to_remove_def nths_all_in)
next
  case False
  let ?r = "to_remove ms (length ms - k)"
  have "foldl (\<lambda>acc idx. remove_at idx acc) ms (rev (remdups (sort ?r))) = nths ms (- set (remdups (sort ?r)))"
    by (rule foldl_remove_at) (use to_remove_bound [of _ ms "length ms - k"] in \<open>fastforce\<close>)+
  with False show ?thesis
    by (auto simp: prune_heartbeat_turns_def Let_def nths_all_in)
qed

lemma suffix_nths: "n \<le> length xs \<Longrightarrow> {n..} \<subseteq> A \<Longrightarrow> suffix (drop n xs) (nths xs A)"
proof -
  assume n: "n \<le> length xs" "{n..} \<subseteq> A"
  have "nths xs A = nths (take n xs @ drop n xs) A" by simp
  also have "\<dots> = nths (take n xs) A @ nths (drop n xs) {j. j + length (take n xs) \<in> A}"
    by (rule nths_append)
  also have "nths (drop n xs) {j. j + length (take n xs) \<in> A} = drop n xs"
    using n by (intro nths_all_in) auto
  finally show ?thesis by (simp add: suffix_def)
qed

text \<open>
  Pruning heartbeat turns is a selection. The loop that removes indices from the back keeps exactly the
  messages whose index was not marked, every marked index is a no-reply turn of the assistant or the user message before
  one, and the last \<open>keep_recent\<close> messages all stay, in order, at the end.
\<close>

theorem prune_heartbeat_selects:
  "prune_heartbeat_turns ms k = nths ms (- set (to_remove ms (length ms - k)))
   \<and> suffix (drop (length ms - k) ms) (prune_heartbeat_turns ms k)
   \<and> list_all (\<lambda>i. (role (ms ! i) = Assistant \<and> is_no_reply (content (ms ! i)))
        \<or> (role (ms ! i) = User \<and> role (ms ! Suc i) = Assistant \<and> is_no_reply (content (ms ! Suc i))))
       (to_remove ms (length ms - k))"
proof (intro conjI)
  show eq: "prune_heartbeat_turns ms k = nths ms (- set (to_remove ms (length ms - k)))"
    by (rule prune_eq_nths)
  show "suffix (drop (length ms - k) ms) (prune_heartbeat_turns ms k)"
    unfolding eq using to_remove_bound by (intro suffix_nths) fastforce+
qed (auto simp: list_all_iff to_remove_def)

end
