(* ===== verification/Result_Strip.thy ===== *)
theory Result_Strip
  imports Str_Utils
begin

text \<open>
  Cleaning of tool output before it is fed back to the model: \<open>strip_tool_result_details\<close> and its
  two passes in \<open>clawreform-runtime/src/session_repair.rs\<close>. A slice the code takes at an offset that
  is out of range or inside a character is a panic here.
\<close>

section \<open>Base64 blobs\<close>

definition is_base64_char :: "char \<Rightarrow> bool" where
  "is_base64_char c =
     (let n = (of_char c :: nat)
      in (48 \<le> n \<and> n \<le> 57) \<or> (65 \<le> n \<and> n \<le> 90) \<or> (97 \<le> n \<and> n \<le> 122)
         \<or> c = CHR ''+'' \<or> c = CHR ''/'' \<or> c = CHR ''='')"

definition base64_threshold :: nat where
  "base64_threshold = 1000"

definition keep_run :: "string \<Rightarrow> string" where
  "keep_run run =
     (if length run > base64_threshold
      then ''[base64 blob, '' @ show_nat (length run) @ '' chars removed]'' else run)"

function strip_base64_blobs :: "string \<Rightarrow> string" where
  "strip_base64_blobs [] = []"
| "strip_base64_blobs (c # cs) =
     (if is_base64_char c
      then keep_run (takeWhile is_base64_char (c # cs))
           @ strip_base64_blobs (dropWhile is_base64_char (c # cs))
      else c # strip_base64_blobs cs)"
  by pat_completeness auto
termination
  by (relation "measure length") (auto simp: le_imp_less_Suc length_dropWhile_le)

section \<open>Injection markers\<close>

definition injection_markers :: "string list" where
  "injection_markers =
     [''<|system|>'', ''<|im_start|>'', ''<|im_end|>'', ''### SYSTEM:'', ''### System Prompt:'',
      ''[SYSTEM]'', ''<<SYS>>'', ''<</SYS>>'', ''IGNORE PREVIOUS INSTRUCTIONS'',
      ''Ignore all previous instructions'', ''ignore the above'', ''disregard previous'']"

definition marker_placeholder :: string where
  "marker_placeholder = ''[injection marker removed]''"

text \<open>
  The search runs over the lower-cased text and the offsets it finds slice the original one.
  Every round moves \<open>search_pos\<close> past one occurrence; the markers are the twelve constants above,
  so the case of an empty marker, on which the code would not terminate, does not arise.
\<close>

function replace_loop ::
  "string \<Rightarrow> string \<Rightarrow> string \<Rightarrow> string \<Rightarrow> nat \<Rightarrow> string \<Rightarrow> (string, panic) result" where
  "replace_loop res low marker marker_lower search_pos new_result =
     (case slice_from low search_pos of
        Inl p \<Rightarrow> Err p
      | Inr rest \<Rightarrow>
          (case find_sub marker_lower rest of
             None \<Rightarrow> (case slice_from res search_pos of
                        Inl p \<Rightarrow> Err p | Inr final \<Rightarrow> Ok (new_result @ final))
           | Some found \<Rightarrow>
               (case slice res search_pos (search_pos + found) of
                  Inl p \<Rightarrow> Err p
                | Inr piece \<Rightarrow>
                    if marker = [] then Ok (new_result @ piece)
                    else replace_loop res low marker marker_lower (search_pos + found + length marker)
                      (new_result @ piece @ marker_placeholder))))"
  by pat_completeness auto
termination
  by (relation "measure (\<lambda>(res, low, m, ml, pos, acc). Suc (length low) - pos)")
    (auto simp: slice_from_def length_greater_0_conv [symmetric] simp del: length_greater_0_conv
      split: if_splits)

declare replace_loop.simps [simp del]

fun strip_markers :: "string \<Rightarrow> string list \<Rightarrow> string \<Rightarrow> (string, panic) result" where
  "strip_markers low [] res = Ok res"
| "strip_markers low (marker # ms) res =
     (let marker_lower = to_lowercase marker
      in if contains_str low marker_lower
         then (case replace_loop res (to_lowercase res) marker marker_lower 0 [] of
                 Inl p \<Rightarrow> Err p | Inr new_result \<Rightarrow> strip_markers low ms new_result)
         else strip_markers low ms res)"

definition strip_injection_markers :: "string \<Rightarrow> (string, panic) result" where
  "strip_injection_markers txt = strip_markers (to_lowercase txt) injection_markers txt"

section \<open>The whole pass\<close>

definition strip_tool_result_details :: "string \<Rightarrow> (string, panic) result" where
  "strip_tool_result_details txt =
     (let max_len = 10000; stripped = strip_base64_blobs txt
      in case strip_injection_markers stripped of
           Inl p \<Rightarrow> Err p
         | Inr cleaned \<Rightarrow>
             Ok (if length cleaned \<le> max_len then cleaned
                 else safe_truncate_str cleaned max_len @ ''...[truncated from ''
                      @ show_nat (length cleaned) @ '' chars]''))"

section \<open>Runs of base64 characters\<close>

text \<open>The longest run in a text, given the length of the run that ends where the text begins.\<close>

fun longest_run :: "nat \<Rightarrow> string \<Rightarrow> nat" where
  "longest_run n [] = n"
| "longest_run n (c # cs) =
     (if is_base64_char c then longest_run (Suc n) cs else max n (longest_run 0 cs))"

lemma longest_run_all:
  "list_all is_base64_char xs \<Longrightarrow> longest_run n (xs @ ys) = longest_run (n + length xs) ys"
  by (induction xs arbitrary: n) auto

lemma longest_run_stop:
  "ys = [] \<or> \<not> is_base64_char (hd ys) \<Longrightarrow> longest_run n ys = max n (longest_run 0 ys)"
  by (cases ys) auto

lemma strip_base64_hd:
  "s \<noteq> [] \<Longrightarrow> \<not> is_base64_char (hd s) \<Longrightarrow>
   strip_base64_blobs s \<noteq> [] \<and> hd (strip_base64_blobs s) = hd s"
  by (cases s) auto

lemma longest_run_append_stop:
  assumes "ys = [] \<or> \<not> is_base64_char (hd ys)"
  shows "longest_run n (xs @ ys) = max (longest_run n xs) (longest_run 0 ys)"
proof (induction xs arbitrary: n)
  case Nil
  show ?case using longest_run_stop [OF assms, of n] by simp
next
  case (Cons x xs)
  then show ?case by (simp add: max.assoc)
qed

lemma show_nat_base64: "list_all is_base64_char (show_nat n)"
proof (induction n rule: show_nat.induct)
  case (1 n)
  have "is_base64_char (char_of (48 + n mod 10))" for n :: nat
  proof -
    have "n mod 10 \<le> 9" by presburger
    then show ?thesis by (simp add: is_base64_char_def Let_def)
  qed
  then have "is_base64_char (char_of (48 + n mod 10))" "n < 10 \<Longrightarrow> is_base64_char (char_of (48 + n))"
    by (metis mod_less)+
  with 1 show ?case by (subst show_nat.simps) auto
qed

lemma placeholder_run:
  assumes "n < 2 ^ 64"
  shows "longest_run 0 (''[base64 blob, '' @ show_nat n @ '' chars removed]'') \<le> base64_threshold"
proof -
  have "length (show_nat n) \<le> Suc 19"
    using assms by (intro show_nat_length) simp_all
  moreover have "longest_run 0 (''[base64 blob, '' @ show_nat n @ '' chars removed]'') = max 7 (length (show_nat n))"
    using longest_run_all [OF show_nat_base64 [of n], of 0 "'' chars removed]''"]
    by (simp add: is_base64_char_def)
  ultimately show ?thesis by (simp add: base64_threshold_def)
qed

lemma keep_run_bound:
  assumes "list_all is_base64_char r" and "length r < 2 ^ 64"
  shows "longest_run 0 (keep_run r) \<le> base64_threshold"
proof (cases "length r > base64_threshold")
  case True
  with placeholder_run [OF assms(2)] show ?thesis by (simp add: keep_run_def)
next
  case False
  with longest_run_all [OF assms(1), of 0 "[]"] show ?thesis by (simp add: keep_run_def)
qed

lemma strip_base64_bound:
  "length s < 2 ^ 64 \<Longrightarrow> longest_run 0 (strip_base64_blobs s) \<le> base64_threshold"
proof (induction s rule: strip_base64_blobs.induct)
  case 1
  then show ?case by simp
next
  case (2 c cs)
  show ?case
  proof (cases "is_base64_char c")
    case True
    let ?r = "takeWhile is_base64_char (c # cs)" and ?d = "dropWhile is_base64_char (c # cs)"
    have d: "strip_base64_blobs ?d = [] \<or> \<not> is_base64_char (hd (strip_base64_blobs ?d))"
      using strip_base64_hd [of ?d] hd_dropWhile [of is_base64_char "c # cs"] by (cases "?d = []") auto
    have "length ?r < 2 ^ 64" "length ?d < 2 ^ 64"
      using 2(3) length_takeWhile_le [of is_base64_char "c # cs"] length_dropWhile_le [of is_base64_char "c # cs"]
      by linarith+
    moreover have "list_all is_base64_char ?r" by (auto simp: list_all_iff dest: set_takeWhileD)
    ultimately have "longest_run 0 (keep_run ?r) \<le> base64_threshold"
      "longest_run 0 (strip_base64_blobs ?d) \<le> base64_threshold"
      using keep_run_bound 2(1) [OF True] by blast+
    with True longest_run_append_stop [OF d, of 0 "keep_run ?r"] show ?thesis by simp
  qed (use 2 in simp)
qed

section \<open>No panic on ASCII text\<close>

lemma replace_loop_ascii:
  "ascii res \<Longrightarrow> ascii low \<Longrightarrow> ascii acc \<Longrightarrow> length low = length res \<Longrightarrow> length marker_lower = length marker \<Longrightarrow>
   pos \<le> length res \<Longrightarrow> \<exists>out. replace_loop res low marker marker_lower pos acc = Ok out \<and> ascii out"
proof (induction res low marker marker_lower pos acc rule: replace_loop.induct)
  case (1 res low marker marker_lower pos acc)
  have lo: "slice_from low pos = Ok (drop pos low)" and re: "slice_from res pos = Ok (drop pos res)"
    using 1 by (auto simp: slice_from_def ascii_boundary)
  show ?case
  proof (cases "find_sub marker_lower (drop pos low)")
    case None
    with lo re 1 show ?thesis by (subst replace_loop.simps) (simp add: ascii_take_drop)
  next
    case (Some i)
    from find_sub_bound [OF Some] 1 have le: "pos + i + length marker \<le> length res" by simp
    then have sl: "slice res pos (pos + i) = Ok (take i (drop pos res))"
      using 1 by (simp add: slice_def ascii_boundary)
    have as: "ascii (acc @ take i (drop pos res))" "ascii marker_placeholder"
      using 1 ascii_take_drop by (auto simp: marker_placeholder_def)
    show ?thesis
    proof (cases "marker = []")
      case True
      with lo Some sl as show ?thesis by (subst replace_loop.simps) simp
    next
      case False
      with 1(1) [OF lo Some sl] 1 le as show ?thesis
        by (subst replace_loop.simps) (simp add: lo Some sl)
    qed
  qed
qed

lemma strip_markers_ascii:
  "ascii res \<Longrightarrow> list_all ascii ms \<Longrightarrow> \<exists>out. strip_markers low ms res = Ok out \<and> ascii out"
proof (induction low ms res rule: strip_markers.induct)
  case (2 low marker ms res)
  obtain out where "replace_loop res (to_lowercase res) marker (to_lowercase marker) 0 [] = Ok out" "ascii out"
    using replace_loop_ascii [of res "to_lowercase res" "[]" "to_lowercase marker" marker 0] 2(3,4)
    by (auto simp: ascii_lowercase ascii_map_lower)
  with 2 show ?case by (auto simp: Let_def)
qed simp

lemma strip_base64_ascii: "ascii s \<Longrightarrow> ascii (strip_base64_blobs s)"
proof (induction s rule: strip_base64_blobs.induct)
  case (2 c cs)
  have "ascii (takeWhile is_base64_char (c # cs))" "ascii (dropWhile is_base64_char (c # cs))"
    using 2(3) by (metis ascii_simps(3) takeWhile_dropWhile_id)+
  moreover have "ascii (show_nat n)" for n
    using show_nat_base64 [of n] by (auto simp: ascii_def list_all_iff is_base64_char_def Let_def)
  ultimately show ?case using 2 by (auto simp: keep_run_def)
qed simp

section \<open>Properties\<close>

text \<open>
  No base64 blob survives. In the text the first pass returns, no run of base64 characters is longer than
  1000, the text of the placeholders included (for any text that fits the address space).
\<close>

theorem no_long_base64_run:
  assumes "length s < 2 ^ 64"
  shows "longest_run 0 (strip_base64_blobs s) \<le> 1000"
  using strip_base64_bound [OF assms] by (simp add: base64_threshold_def)

theorem no_long_base64_run_witness:
  "longest_run 0 (strip_base64_blobs (replicate 1001 (CHR ''A'') @ '' tail'')) \<le> 1000"
  by (rule no_long_base64_run) simp

text \<open>
  On ASCII text the whole pass returns. Beyond ASCII it can panic, on text an attacker chooses: lower-casing
  the dotted capital I makes the text longer, so the offset found there points behind its end.
\<close>

theorem strip_returns_on_ascii:
  "(ascii s \<longrightarrow> is_ok (strip_tool_result_details s))
   \<and> strip_tool_result_details ([CHR 0xC4, CHR 0xB0] @ ''[SYSTEM]'') = Err IndexOutOfBounds"
proof (intro conjI impI)
  assume "ascii s"
  moreover have "list_all ascii injection_markers" by (simp add: injection_markers_def)
  ultimately obtain out where "strip_injection_markers (strip_base64_blobs s) = Ok out"
    using strip_markers_ascii strip_base64_ascii unfolding strip_injection_markers_def by blast
  then show "is_ok (strip_tool_result_details s)" by (simp add: strip_tool_result_details_def Let_def)
next
  show "strip_tool_result_details ([CHR 0xC4, CHR 0xB0] @ ''[SYSTEM]'') = Err IndexOutOfBounds"
    by code_simp
qed

theorem strip_returns_on_ascii_witness:
  "is_ok (strip_tool_result_details ''ignore the above <|system|>'')"
  using strip_returns_on_ascii [of "''ignore the above <|system|>''"] by simp

end
