(* ===== verification/Tool_Policy.thy ===== *)
theory Tool_Policy
  imports Str_Utils
begin

text \<open>
  Tool access control, \<open>clawreform-runtime/src/tool_policy.rs\<close>: agent and global rules with glob
  patterns, group references, the depth limit for sub-agents and the tools sub-agents never get.
\<close>

section \<open>Policies\<close>

datatype policy_effect = AllowTool | DenyTool

record tool_policy_rule =
  pattern :: string
  effect :: policy_effect

record tool_group =
  group_name :: string
  group_tools :: "string list"

record tool_policy =
  agent_rules :: "tool_policy_rule list"
  global_rules :: "tool_policy_rule list"
  groups :: "tool_group list"
  subagent_max_depth :: nat
  subagent_max_concurrent :: nat

text \<open>\<open>#[derive(Default)]\<close>: empty lists and zeros.\<close>

definition default_policy :: tool_policy where
  "default_policy = \<lparr>agent_rules = [], global_rules = [], groups = [],
     subagent_max_depth = 0, subagent_max_concurrent = 0\<rparr>"

definition policy_is_empty :: "tool_policy \<Rightarrow> bool" where
  "policy_is_empty p = (agent_rules p = [] \<and> global_rules p = [])"

datatype tool_access_result =
    Allowed
  | DeniedBy string string
  | DepthExceeded nat nat

section \<open>Glob matching\<close>

text \<open>
  The loop over the parts, after the first: a middle part is found greedily in the rest of the text,
  the last part must end it, an empty part is skipped.
\<close>

fun glob_rest :: "string \<Rightarrow> nat \<Rightarrow> string list \<Rightarrow> bool" where
  "glob_rest str pos [] = True"
| "glob_rest str pos [part] = (part = [] \<or> ends_with (drop pos str) part)"
| "glob_rest str pos (part # p # ps) =
     (if part = [] then glob_rest str pos (p # ps)
      else (case find_sub part (drop pos str) of
              None \<Rightarrow> False
            | Some found \<Rightarrow> glob_rest str (pos + found + length part) (p # ps)))"

definition glob_match :: "string \<Rightarrow> string \<Rightarrow> bool" where
  "glob_match pat str =
     (if pat = ''*'' then True
      else if CHR ''*'' \<notin> set pat then pat = str
      else let parts = split_on (CHR ''*'') pat
           in if length parts = 2
              then starts_with str (parts ! 0) \<and> ends_with str (parts ! 1)
                   \<and> length (parts ! 0) + length (parts ! 1) \<le> length str
              else (case parts of
                      [] \<Rightarrow> True
                    | part # ps \<Rightarrow>
                        if part = [] then glob_rest str 0 ps
                        else starts_with str part \<and> glob_rest str (length part) ps))"

section \<open>Access resolution\<close>

definition is_subagent_tool :: "string \<Rightarrow> bool" where
  "is_subagent_tool n = (n = ''agent_spawn'' \<or> n = ''agent_call'' \<or> n = ''spawn_agent'')"

definition expand_groups :: "string \<Rightarrow> tool_group list \<Rightarrow> string list" where
  "expand_groups tool_name gs =
     tool_name # concat (map (\<lambda>g. map (\<lambda>_. CHR ''@'' # group_name g)
                                (filter (\<lambda>p. glob_match p tool_name) (group_tools g))) gs)"

definition matches_pattern :: "string \<Rightarrow> string \<Rightarrow> string list \<Rightarrow> bool" where
  "matches_pattern pat tool_name expanded =
     (if glob_match pat tool_name then True
      else if starts_with pat ''@'' then list_ex (\<lambda>e. e = pat) expanded
      else False)"

definition rule_applies ::
  "policy_effect \<Rightarrow> string \<Rightarrow> string list \<Rightarrow> tool_policy_rule \<Rightarrow> bool" where
  "rule_applies eff tool_name expanded r =
     (effect r = eff \<and> matches_pattern (pattern r) tool_name expanded)"

definition resolve_tool_access :: "string \<Rightarrow> tool_policy \<Rightarrow> nat \<Rightarrow> tool_access_result" where
  "resolve_tool_access tool_name policy depth =
     (if is_subagent_tool tool_name \<and> depth > subagent_max_depth policy
      then DepthExceeded depth (subagent_max_depth policy)
      else let expanded = expand_groups tool_name (groups policy)
           in case find (rule_applies DenyTool tool_name expanded) (agent_rules policy) of
                Some r \<Rightarrow> DeniedBy (pattern r) ''agent''
              | None \<Rightarrow>
                  (case find (rule_applies DenyTool tool_name expanded) (global_rules policy) of
                     Some r \<Rightarrow> DeniedBy (pattern r) ''global''
                   | None \<Rightarrow>
                       let has_allow_rules =
                             list_ex (\<lambda>r. effect r = AllowTool) (agent_rules policy)
                             \<or> list_ex (\<lambda>r. effect r = AllowTool) (global_rules policy)
                       in if has_allow_rules
                          then if list_ex (rule_applies AllowTool tool_name expanded) (agent_rules policy)
                                  \<or> list_ex (rule_applies AllowTool tool_name expanded) (global_rules policy)
                               then Allowed
                               else DeniedBy ''(not in any allow list)'' ''implicit_deny''
                          else Allowed))"

section \<open>Depth restrictions\<close>

definition subagent_deny_always :: "string list" where
  "subagent_deny_always =
     [''cron_create'', ''cron_cancel'', ''schedule_create'', ''schedule_delete'',
      ''hand_activate'', ''hand_deactivate'', ''process_start'']"

definition subagent_deny_leaf :: "string list" where
  "subagent_deny_leaf = [''agent_spawn'', ''agent_kill'']"

definition filter_tools_by_depth :: "string list \<Rightarrow> nat \<Rightarrow> nat \<Rightarrow> string list" where
  "filter_tools_by_depth tools depth max_depth =
     (if depth = 0 then tools
      else let is_leaf = (max_depth > 0 \<and> depth \<ge> max_depth - 1)
           in filter (\<lambda>n. \<not> (n \<in> set subagent_deny_always)
                          \<and> \<not> (is_leaf \<and> n \<in> set subagent_deny_leaf)) tools)"

section \<open>Meaning of a glob pattern\<close>

text \<open>The reference semantics: a star stands for any text, any other character for itself.\<close>

fun wild :: "string \<Rightarrow> string \<Rightarrow> bool" where
  "wild [] t = (t = [])"
| "wild (c # p) t =
     (if c = CHR ''*'' then list_ex (\<lambda>i. wild p (drop i t)) [0..<Suc (length t)]
      else (case t of [] \<Rightarrow> False | d # t' \<Rightarrow> c = d \<and> wild p t'))"

lemma wild_star: "wild (CHR ''*'' # p) t \<longleftrightarrow> (\<exists>i \<le> length t. wild p (drop i t))"
  by (auto simp: list_ex_iff less_Suc_eq_le simp del: upt_Suc)

declare wild.simps(2) [simp del]

lemma wild_plain:
  "CHR ''*'' \<notin> set p \<Longrightarrow> wild (p @ q) t \<longleftrightarrow> prefix p t \<and> wild q (drop (length p) t)"
proof (induction p arbitrary: t)
  case (Cons c p)
  then show ?case by (cases t) (auto simp: wild.simps(2))
qed simp

lemma wild_star_free: "CHR ''*'' \<notin> set p \<Longrightarrow> wild p t \<longleftrightarrow> p = t"
  using wild_plain [of p "[]" t] by (auto simp: prefix_def)

text \<open>A star absorbs: what matches a later rest matches an earlier one.\<close>

lemma wild_star_drop: "wild (CHR ''*'' # q) (drop j t) \<Longrightarrow> i \<le> j \<Longrightarrow> wild (CHR ''*'' # q) (drop i t)"
proof -
  assume "wild (CHR ''*'' # q) (drop j t)" and ij: "i \<le> j"
  then obtain k where k: "k \<le> length (drop j t)" "wild q (drop k (drop j t))" by (auto simp: wild_star)
  show ?thesis
  proof (cases "j \<le> length t")
    case True
    with k ij have "(j - i) + k \<le> length (drop i t)" "wild q (drop ((j - i) + k) (drop i t))"
      by (auto simp: add.commute)
    then show ?thesis unfolding wild_star by blast
  next
    case False
    with k have "wild q []" by simp
    then have "wild q (drop (length (drop i t)) (drop i t))" by simp
    then show ?thesis unfolding wild_star by blast
  qed
qed

lemma wild_star_suffix: "CHR ''*'' \<notin> set p \<Longrightarrow> wild (CHR ''*'' # p) t \<longleftrightarrow> suffix p t"
proof -
  assume p: "CHR ''*'' \<notin> set p"
  have "wild (CHR ''*'' # p) t \<longleftrightarrow> (\<exists>i \<le> length t. p = drop i t)"
    using p by (simp add: wild_star wild_star_free)
  also have "\<dots> \<longleftrightarrow> suffix p t"
  proof
    show "\<exists>i \<le> length t. p = drop i t \<Longrightarrow> suffix p t" by (auto simp: suffix_drop)
  next
    assume "suffix p t"
    then obtain us where "t = us @ p" by (auto simp: suffix_def)
    then have "length us \<le> length t" "p = drop (length us) t" by simp_all
    then show "\<exists>i \<le> length t. p = drop i t" by blast
  qed
  finally show ?thesis .
qed

lemma wild_star_find:
  assumes "CHR ''*'' \<notin> set p"
  shows "wild (CHR ''*'' # p @ CHR ''*'' # q) t \<longleftrightarrow>
    (case find_sub p t of None \<Rightarrow> False | Some f \<Rightarrow> wild (CHR ''*'' # q) (drop (f + length p) t))"
proof (cases "find_sub p t")
  case None
  then show ?thesis using find_sub_None [OF None] assms by (auto simp: wild_star wild_plain)
next
  case (Some f)
  have "wild (CHR ''*'' # q) (drop (f + length p) t)"
    if "i \<le> length t" "prefix p (drop i t)" "wild (CHR ''*'' # q) (drop (i + length p) t)" for i
  proof -
    have "\<not> i < f" using find_sub_Some [OF Some] that(2) by blast
    then have "f \<le> i" by simp
    then have "f + length p \<le> i + length p" by simp
    from wild_star_drop [OF that(3) this] show ?thesis .
  qed
  moreover have "f \<le> length t" "prefix p (drop f t)"
    using find_sub_bound [OF Some] find_sub_Some [OF Some] by auto
  ultimately show ?thesis
    using Some assms unfolding wild_star [of "p @ CHR ''*'' # q"] wild_plain [OF assms]
    by (auto simp: add.commute)
qed

lemma suffix_drop_length:
  assumes "prefix p t"
  shows "suffix q (drop (length p) t) \<longleftrightarrow> suffix q t \<and> length p + length q \<le> length t"
proof -
  from assms obtain u where t: "t = p @ u" by (auto simp: prefix_def)
  have "suffix q (p @ u) \<and> length q \<le> length u \<longleftrightarrow> suffix q u"
    by (auto simp: suffix_append dest: suffix_length_le)
  with t show ?thesis by auto
qed

text \<open>The parts of a pattern, joined by stars again.\<close>

fun join_star :: "string list \<Rightarrow> string" where
  "join_star [] = []"
| "join_star [p] = p"
| "join_star (p # q # ps) = p @ CHR ''*'' # join_star (q # ps)"

lemma join_split: "join_star (split_on (CHR ''*'') s) = s"
proof (induction s)
  case (Cons x xs)
  then show ?case
    by (cases "split_on (CHR ''*'') xs" rule: join_star.cases) (auto split: list.splits)
qed simp

lemma glob_rest_wild:
  "ps \<noteq> [] \<Longrightarrow> \<forall>p \<in> set ps. CHR ''*'' \<notin> set p \<Longrightarrow>
   glob_rest str pos ps = wild (CHR ''*'' # join_star ps) (drop pos str)"
proof (induction str pos ps rule: glob_rest.induct)
  case (2 str pos part)
  then show ?case by (auto simp: wild_star_suffix ends_with_def)
next
  case (3 str pos part p ps)
  have star: "CHR ''*'' \<notin> set part" using 3 by simp
  show ?case
  proof (cases "part = []")
    case True
    have "wild (CHR ''*'' # CHR ''*'' # q) t = wild (CHR ''*'' # q) t" for q t
      using wild_star_find [of "[]" q t] by (cases t) auto
    with True 3 show ?thesis by simp
  next
    case False
    with 3 show ?thesis
      by (auto simp: wild_star_find [OF star] add_ac split: option.splits)
  qed
qed simp

lemma glob_match_wild_aux: "glob_match pat str = wild pat str"
proof -
  let ?parts = "split_on (CHR ''*'') pat"
  have free: "\<forall>p \<in> set ?parts. CHR ''*'' \<notin> set p" using split_on_parts by blast
  have pat: "pat = join_star ?parts" by (simp add: join_split)
  consider "pat = ''*''" | "CHR ''*'' \<notin> set pat" | "pat \<noteq> ''*''" "CHR ''*'' \<in> set pat" by blast
  then show ?thesis
  proof cases
    case 1
    have "wild (CHR ''*'' # []) str" unfolding wild_star by (auto intro: exI [of _ "length str"])
    with 1 show ?thesis by (simp add: glob_match_def)
  next
    case 2
    then show ?thesis by (auto simp: glob_match_def wild_star_free)
  next
    case 3
    have "length ?parts \<noteq> 1" using 3(2) free pat by (auto simp: length_Suc_conv)
    then obtain p q ps where parts: "?parts = p # q # ps"
      by (metis One_nat_def length_Cons list.exhaust list.size(3) split_on_nonempty)
    have ppat: "pat = p @ CHR ''*'' # join_star (q # ps)" using pat parts by simp
    have pfree: "CHR ''*'' \<notin> set p" "CHR ''*'' \<notin> set q" using free parts by auto
    have w: "wild pat str \<longleftrightarrow> prefix p str \<and> wild (CHR ''*'' # join_star (q # ps)) (drop (length p) str)"
      unfolding ppat by (rule wild_plain [OF pfree(1)])
    have rest: "glob_rest str n (q # ps) = wild (CHR ''*'' # join_star (q # ps)) (drop n str)" for n
      using glob_rest_wild [of "q # ps" str n] free parts by simp
    show ?thesis
    proof (cases ps)
      case Nil
      have "suffix q (drop (length p) str) \<longleftrightarrow> suffix q str \<and> length p + length q \<le> length str"
        if "prefix p str" using that by (rule suffix_drop_length)
      with 3 parts Nil w show ?thesis
        by (auto simp: glob_match_def starts_with_def ends_with_def wild_star_suffix [OF pfree(2)])
    next
      case (Cons r rs)
      with 3 parts w rest show ?thesis by (auto simp: glob_match_def starts_with_def)
    qed
  qed
qed

text \<open>
  C31: The tool glob matcher is right: its fast path for one star and its greedy left-to-right
  search accept exactly the texts that the pattern, read with every star as any text, describes.
\<close>

theorem glob_match_eq_wild: "glob_match pat str = wild pat str"
  by (rule glob_match_wild_aux)

section \<open>Decisions\<close>

text \<open>
  What a rule covers, stated on the reference semantics: the tool itself, or a group that has the
  tool and is named by \<open>@group\<close>.
\<close>

definition covers :: "tool_group list \<Rightarrow> string \<Rightarrow> tool_policy_rule \<Rightarrow> bool" where
  "covers gs t r = (wild (pattern r) t
     \<or> list_ex (\<lambda>g. pattern r = CHR ''@'' # group_name g \<and> list_ex (\<lambda>q. wild q t) (group_tools g)) gs)"

lemma glob_match_wild: "glob_match = wild"
  by (intro ext) (rule glob_match_wild_aux)

lemma wild_refl: "wild t t"
proof (induction t)
  case (Cons c t)
  show ?case
  proof (cases "c = CHR ''*''")
    case True
    have "wild (CHR ''*'' # t) (c # t)" unfolding wild_star
      by (rule exI [of _ 1]) (simp add: Cons.IH)
    with True show ?thesis by simp
  next
    case False
    with Cons.IH show ?thesis by (simp add: wild.simps(2))
  qed
qed simp

lemma matches_pattern_covers:
  "matches_pattern (pattern r) t (expand_groups t gs) = covers gs t r"
  unfolding matches_pattern_def expand_groups_def covers_def glob_match_wild starts_with_def
    list_ex_iff
  by (auto simp: wild_refl)

definition depth_blocked :: "string \<Rightarrow> tool_policy \<Rightarrow> nat \<Rightarrow> bool" where
  "depth_blocked t p d = (is_subagent_tool t \<and> d > subagent_max_depth p)"

definition list_denies :: "tool_group list \<Rightarrow> string \<Rightarrow> tool_policy_rule list \<Rightarrow> bool" where
  "list_denies gs t rs = list_ex (\<lambda>r. effect r = DenyTool \<and> covers gs t r) rs"

text \<open>
  The decision of \<open>resolve_tool_access\<close>. A tool is allowed exactly when the depth limit lets it
  through, no deny rule of the agent or of the global list covers it, and either there is no allow
  rule at all or one covers it. A refusal names the depth limit before any rule, an agent deny rule
  before a global one, and quotes a rule that does cover the tool.
\<close>

theorem resolve_decision:
  shows "(resolve_tool_access t p d = Allowed \<longleftrightarrow>
      \<not> depth_blocked t p d \<and> \<not> list_denies (groups p) t (agent_rules p @ global_rules p)
      \<and> ((\<forall>r \<in> set (agent_rules p @ global_rules p). effect r = DenyTool)
         \<or> (\<exists>r \<in> set (agent_rules p @ global_rules p). effect r = AllowTool \<and> covers (groups p) t r)))
    \<and> (depth_blocked t p d \<longrightarrow> resolve_tool_access t p d = DepthExceeded d (subagent_max_depth p))
    \<and> (\<not> depth_blocked t p d \<and> list_denies (groups p) t (agent_rules p) \<longrightarrow>
        (\<exists>r \<in> set (agent_rules p). effect r = DenyTool \<and> covers (groups p) t r
           \<and> resolve_tool_access t p d = DeniedBy (pattern r) ''agent''))
    \<and> (\<not> depth_blocked t p d \<and> \<not> list_denies (groups p) t (agent_rules p) \<and> list_denies (groups p) t (global_rules p) \<longrightarrow>
        (\<exists>r \<in> set (global_rules p). effect r = DenyTool \<and> covers (groups p) t r
           \<and> resolve_tool_access t p d = DeniedBy (pattern r) ''global''))"
proof -
  let ?hit = "rule_applies DenyTool t (expand_groups t (groups p))"
  have hit: "rule_applies e t (expand_groups t (groups p)) r \<longleftrightarrow> effect r = e \<and> covers (groups p) t r"
    for e r by (simp add: rule_applies_def matches_pattern_covers)
  have found: "find ?hit rs = None \<longleftrightarrow> \<not> list_denies (groups p) t rs" for rs
    by (auto simp: find_None_iff list_denies_def list_ex_iff hit)
  have named: "r \<in> set rs \<and> effect r = DenyTool \<and> covers (groups p) t r"
    if "find ?hit rs = Some r" for rs r
    using that by (auto simp: find_Some_iff hit)
  have allow: "effect r \<noteq> AllowTool \<longleftrightarrow> effect r = DenyTool" for r by (cases "effect r") auto
  consider "depth_blocked t p d" | r where "\<not> depth_blocked t p d" "find ?hit (agent_rules p) = Some r"
    | r where "\<not> depth_blocked t p d" "find ?hit (agent_rules p) = None" "find ?hit (global_rules p) = Some r"
    | "\<not> depth_blocked t p d" "find ?hit (agent_rules p) = None" "find ?hit (global_rules p) = None"
    by (cases "find ?hit (agent_rules p)"; cases "find ?hit (global_rules p)") blast+
  then show ?thesis
  proof cases
    case 1
    then show ?thesis by (simp add: resolve_tool_access_def depth_blocked_def)
  next
    case 2
    then have "resolve_tool_access t p d = DeniedBy (pattern r) ''agent''"
      by (auto simp: resolve_tool_access_def depth_blocked_def Let_def)
    with 2 named [OF 2(2)] show ?thesis by (auto simp: list_denies_def list_ex_iff)
  next
    case 3
    then have "resolve_tool_access t p d = DeniedBy (pattern r) ''global''"
      by (auto simp: resolve_tool_access_def depth_blocked_def Let_def)
    with 3 named [OF 3(3)] found [of "agent_rules p"] show ?thesis by (auto simp: list_denies_def list_ex_iff)
  next
    case 4
    then have "resolve_tool_access t p d = Allowed \<longleftrightarrow>
        (\<forall>r \<in> set (agent_rules p @ global_rules p). effect r = DenyTool)
        \<or> (\<exists>r \<in> set (agent_rules p @ global_rules p). effect r = AllowTool \<and> covers (groups p) t r)"
      by (auto simp: resolve_tool_access_def depth_blocked_def Let_def list_ex_iff hit
          simp flip: allow)
    moreover have "\<not> list_denies (groups p) t (agent_rules p @ global_rules p)" using 4 found by (auto simp: list_denies_def list_ex_iff)
    ultimately show ?thesis using 4 found by simp
  qed
qed

lemma resolve_decision_witness:
  "resolve_tool_access ''shell_exec''
     \<lparr>agent_rules = [\<lparr>pattern = ''shell_*'', effect = AllowTool\<rparr>],
      global_rules = [\<lparr>pattern = ''@admin'', effect = DenyTool\<rparr>],
      groups = [\<lparr>group_name = ''admin'', group_tools = [''*_exec'']\<rparr>],
      subagent_max_depth = 2, subagent_max_concurrent = 1\<rparr> 1 = DeniedBy ''@admin'' ''global''"
proof -
  let ?p = "\<lparr>agent_rules = [\<lparr>pattern = ''shell_*'', effect = AllowTool\<rparr>],
      global_rules = [\<lparr>pattern = ''@admin'', effect = DenyTool\<rparr>],
      groups = [\<lparr>group_name = ''admin'', group_tools = [''*_exec'']\<rparr>],
      subagent_max_depth = 2, subagent_max_concurrent = 1\<rparr>"
  have "\<not> depth_blocked ''shell_exec'' ?p 1" "\<not> list_denies (groups ?p) ''shell_exec'' (agent_rules ?p)"
    "list_denies (groups ?p) ''shell_exec'' (global_rules ?p)"
    by code_simp+
  then show ?thesis using resolve_decision [of "''shell_exec''" ?p 1] by auto
qed

text \<open>
  With the derived default policy, in which the depth limit is 0 and not the 10 the field's
  comment gives, every sub-agent is refused the spawning tools, and nothing else is refused to
  anyone.
\<close>

theorem default_policy_depth:
  "resolve_tool_access t default_policy d =
     (if is_subagent_tool t \<and> d \<noteq> 0 then DepthExceeded d 0 else Allowed)"
  by (simp add: resolve_tool_access_def default_policy_def)

text \<open>
  Going deeper in a spawn tree never adds a tool: what an agent at some depth may use, an agent
  above it may use too; below the top nobody gets the scheduling tools, and at the last level and
  beyond nobody can spawn or kill.
\<close>

theorem depth_filter_monotone:
  "(d \<le> d' \<longrightarrow> set (filter_tools_by_depth tools d' m) \<subseteq> set (filter_tools_by_depth tools d m))
   \<and> (d \<noteq> 0 \<longrightarrow> set (filter_tools_by_depth tools d m) \<inter> set subagent_deny_always = {})
   \<and> (d \<noteq> 0 \<and> m \<noteq> 0 \<and> m \<le> d + 1 \<longrightarrow>
        set (filter_tools_by_depth tools d m) \<inter> set subagent_deny_leaf = {})
   \<and> (d = 0 \<or> m = 0 \<or> d + 1 < m \<longrightarrow>
        set (filter_tools_by_depth tools d m) =
          set tools - (if d = 0 then {} else set subagent_deny_always))"
  by (auto simp: filter_tools_by_depth_def)

lemma depth_filter_monotone_witness:
  "filter_tools_by_depth [''agent_spawn'', ''cron_create'', ''web_fetch''] 2 3 = [''web_fetch'']
   \<and> set (filter_tools_by_depth [''agent_spawn'', ''cron_create'', ''web_fetch''] 2 3)
       \<subseteq> set (filter_tools_by_depth [''agent_spawn'', ''cron_create'', ''web_fetch''] 1 3)"
  using depth_filter_monotone [of 1 2 "[''agent_spawn'', ''cron_create'', ''web_fetch'']" 3]
  by (simp add: filter_tools_by_depth_def subagent_deny_always_def subagent_deny_leaf_def)

end
