(* ===== verification/Exec_Policy.thy ===== *)
theory Exec_Policy
  imports Str_Utils
begin

text \<open>
  Restrictions on the shell tool, \<open>clawreform-runtime/src/subprocess_sandbox.rs\<close>: the environment a
  child process gets, the check of an executable path and the allow-list of commands, with the
  policy of \<open>clawreform-types/src/config.rs\<close>.
\<close>

section \<open>Environment and executable paths\<close>

definition safe_env_vars :: "string list" where
  "safe_env_vars = [''PATH'', ''HOME'', ''TMPDIR'', ''TMP'', ''TEMP'', ''LANG'', ''LC_ALL'', ''TERM'']"

text \<open>\<open>host\<close> is the environment of this process; the result is that of the child (on Unix).\<close>

definition copy_vars :: "(string \<rightharpoonup> string) \<Rightarrow> string list \<Rightarrow> (string \<rightharpoonup> string) \<Rightarrow> (string \<rightharpoonup> string)" where
  "copy_vars host = fold (\<lambda>v env. case host v of Some x \<Rightarrow> env(v \<mapsto> x) | None \<Rightarrow> env)"

definition sandbox_command :: "(string \<rightharpoonup> string) \<Rightarrow> string list \<Rightarrow> (string \<rightharpoonup> string)" where
  "sandbox_command host allowed_env_vars =
     copy_vars host allowed_env_vars (copy_vars host safe_env_vars Map.empty)"

datatype path_error = ParentComponent string

definition validate_executable_path :: "string \<Rightarrow> (unit, path_error) result" where
  "validate_executable_path path =
     (if list_ex (\<lambda>c. c = ''..'') (split_on (CHR ''/'') path) then Err (ParentComponent path) else Ok ())"

section \<open>The command allow-list\<close>

datatype exec_mode = DenyAll | Allowlist | FullExec

record exec_policy =
  exec_mode :: exec_mode
  safe_bins :: "string list"
  allowed_commands :: "string list"
  exec_timeout :: nat
  max_output_bytes :: nat
  no_output_timeout :: nat

definition default_exec_policy :: exec_policy where
  "default_exec_policy = \<lparr>exec_mode = Allowlist,
     safe_bins = [''sleep'', ''true'', ''false'', ''cat'', ''sort'', ''uniq'', ''cut'', ''tr'', ''head'',
       ''tail'', ''wc'', ''date'', ''echo'', ''printf'', ''basename'', ''dirname'', ''pwd'', ''env''],
     allowed_commands = [], exec_timeout = 30, max_output_bytes = 100 * 1024, no_output_timeout = 30\<rparr>"

definition after_last :: "char \<Rightarrow> string \<Rightarrow> string" where
  "after_last c s = last (split_on c s)"

definition extract_base_command :: "string \<Rightarrow> string" where
  "extract_base_command cmd = after_last (CHR 0x5C) (after_last (CHR ''/'') (first_word (trim cmd)))"

definition separators :: "string list" where
  "separators = [''&&'', ''||'', ''|'', '';'']"

text \<open>The inner loop: position and length of the earliest separator, the first of the list at a tie.\<close>

fun earliest :: "string list \<Rightarrow> string \<Rightarrow> nat \<times> nat \<Rightarrow> nat \<times> nat" where
  "earliest [] rest best = best"
| "earliest (sep # seps) rest (pos, len) =
     (case find_sub sep rest of
        Some p \<Rightarrow> earliest seps rest (if p < pos then (p, length sep) else (pos, len))
      | None \<Rightarrow> earliest seps rest (pos, len))"

lemma earliest_bound:
  "pos \<le> length rest \<Longrightarrow> (pos < length rest \<Longrightarrow> 0 < len) \<Longrightarrow> (\<forall>s \<in> set seps. s \<noteq> []) \<Longrightarrow>
   fst (earliest seps rest (pos, len)) \<le> length rest
   \<and> (fst (earliest seps rest (pos, len)) < length rest \<longrightarrow> 0 < snd (earliest seps rest (pos, len)))"
proof (induction seps rest "(pos, len)" arbitrary: pos len rule: earliest.induct)
  case (2 sep seps rest pos len)
  then show ?case
    by (cases "find_sub sep rest") (auto split: if_splits)
qed simp

function extract_all_commands :: "string \<Rightarrow> string list" where
  "extract_all_commands rest =
     (if rest = [] then []
      else let (pos, len) = earliest separators rest (length rest, 0);
               base = extract_base_command (take pos rest);
               more = (if pos + len \<ge> length rest then [] else extract_all_commands (drop (pos + len) rest))
           in if base \<noteq> [] then base # more else more)"
  by pat_completeness auto
termination
proof (relation "measure length", simp, goal_cases)
  case (1 rest p pos len base)
  have "0 < pos + len"
  proof (rule ccontr)
    assume "\<not> 0 < pos + len"
    moreover have "fst (earliest separators rest (length rest, 0)) < length rest \<longrightarrow>
        0 < snd (earliest separators rest (length rest, 0))"
      using earliest_bound [of "length rest" rest 0 separators] by (simp add: separators_def)
    ultimately show False using 1 by (metis add_is_0 fst_conv length_greater_0_conv neq0_conv snd_conv)
  qed
  with 1 show ?case by simp
qed

declare extract_all_commands.simps [simp del]

text \<open>For evaluation: the recursion in an equation that needs an explicit list.\<close>

lemma extract_all_commands_code [code]:
  "extract_all_commands [] = []"
  "extract_all_commands (c # s) =
     (let (pos, len) = earliest separators (c # s) (length (c # s), 0);
          base = extract_base_command (take pos (c # s));
          more = extract_all_commands (drop (pos + len) (c # s))
      in if base \<noteq> [] then base # more else more)"
  by (subst extract_all_commands.simps, simp)
     (subst extract_all_commands.simps, auto simp: Let_def extract_all_commands.simps split: prod.split)

datatype exec_denial = ShellDisabled | NotInAllowlist string

definition permitted :: "exec_policy \<Rightarrow> string \<Rightarrow> bool" where
  "permitted p base = (list_ex (\<lambda>sb. sb = base) (safe_bins p) \<or> list_ex (\<lambda>ac. ac = base) (allowed_commands p))"

text \<open>
  In full mode the warning slices the command at byte 100, which panics inside a character; \<open>warn_on\<close>
  says whether warnings are logged, since the slice is taken only then.
\<close>

definition validate_command_allowlist ::
  "bool \<Rightarrow> string \<Rightarrow> exec_policy \<Rightarrow> ((unit, exec_denial) result, panic) result" where
  "validate_command_allowlist warn_on command p =
     (case exec_mode p of
        DenyAll \<Rightarrow> Ok (Err ShellDisabled)
      | FullExec \<Rightarrow>
          (if \<not> warn_on then Ok (Ok ())
           else case slice_to command (min (length command) 100) of
                  Inl e \<Rightarrow> Err e
                | Inr _ \<Rightarrow> Ok (Ok ()))
      | Allowlist \<Rightarrow>
          (case find (\<lambda>base. \<not> permitted p base) (extract_all_commands command) of
             None \<Rightarrow> Ok (Ok ())
           | Some base \<Rightarrow> Ok (Err (NotInAllowlist base))))"

section \<open>What the allow-list looks at\<close>

text \<open>
  The reference: cut the command at every \<open>|\<close>, \<open>;\<close> and \<open>&\<close> and take the base command of each
  piece that has one. The code knows \<open>&\<close> only doubled.
\<close>

definition operator :: "char \<Rightarrow> bool" where
  "operator c = (c = CHR ''|'' \<or> c = CHR '';'' \<or> c = CHR ''&'')"

fun pieces :: "string \<Rightarrow> string list" where
  "pieces [] = [[]]"
| "pieces (c # s) =
     (if operator c then [] # pieces s
      else (case pieces s of [] \<Rightarrow> [[c]] | p # ps \<Rightarrow> (c # p) # ps))"

definition base_commands :: "string \<Rightarrow> string list" where
  "base_commands s = filter (\<lambda>b. b \<noteq> []) (map extract_base_command (pieces s))"

fun doubled_amp :: "string \<Rightarrow> bool" where
  "doubled_amp [] = True"
| "doubled_amp (c # s) =
     (if c = CHR ''&'' then (case s of [] \<Rightarrow> False | d # r \<Rightarrow> d = CHR ''&'' \<and> doubled_amp r)
      else doubled_amp s)"

lemma pieces_not_Nil [simp]: "pieces s \<noteq> []"
  by (cases s) (auto split: list.splits)

lemma pieces_plain: "\<forall>c \<in> set u. \<not> operator c \<Longrightarrow> pieces u = [u]"
  by (induction u) auto

lemma pieces_cut: "\<forall>d \<in> set u. \<not> operator d \<Longrightarrow> operator c \<Longrightarrow> pieces (u @ c # v) = u # pieces v"
  by (induction u) auto

lemma base_empty [simp]: "extract_base_command [] = []"
  by code_simp

lemma base_commands_cut:
  "\<forall>d \<in> set u. \<not> operator d \<Longrightarrow> operator c \<Longrightarrow>
   base_commands (u @ c # v) =
     (if extract_base_command u \<noteq> [] then extract_base_command u # base_commands v else base_commands v)"
  by (simp add: base_commands_def pieces_cut)

lemma base_commands_op: "operator c \<Longrightarrow> base_commands (c # v) = base_commands v"
  using base_commands_cut [of "[]" c v] by simp

lemma separator_in: "sep \<in> set separators \<Longrightarrow> sep \<noteq> [] \<and> operator (hd sep)"
  by (auto simp: separators_def operator_def)

lemma find_separator:
  "sep \<in> set separators \<Longrightarrow> \<forall>d \<in> set u. \<not> operator d \<Longrightarrow>
   find_sub sep (u @ v) = map_option (\<lambda>i. length u + i) (find_sub sep v)"
  using separator_in [of sep] by (intro find_sub_skip) auto

definition sep_len :: "string \<Rightarrow> nat" where
  "sep_len v = (if prefix ''&&'' v \<or> prefix ''||'' v then 2 else 1)"

lemma earliest_cons:
  "earliest (sep # seps) rest best =
     (case find_sub sep rest of
        Some p \<Rightarrow> earliest seps rest (if p < fst best then (p, length sep) else best)
      | None \<Rightarrow> earliest seps rest best)"
  by (cases best) (simp split: option.split)

lemma earliest_cut:
  assumes u: "\<forall>d \<in> set u. \<not> operator d" and c: "operator c" and amp: "c = CHR ''&'' \<longrightarrow> prefix ''&&'' (c # v)"
  shows "earliest separators (u @ c # v) (length (u @ c # v), 0) = (length u, sep_len (c # v))"
proof -
  have f: "find_sub sep (u @ c # v) = map_option (\<lambda>i. length u + i) (find_sub sep (c # v))"
    if "sep \<in> set separators" for sep using find_separator [OF that u] .
  have fs: "find_sub ''&&'' (u @ c # v) = map_option (\<lambda>i. length u + i) (find_sub ''&&'' (c # v))"
    "find_sub ''||'' (u @ c # v) = map_option (\<lambda>i. length u + i) (find_sub ''||'' (c # v))"
    "find_sub ''|'' (u @ c # v) = map_option (\<lambda>i. length u + i) (find_sub ''|'' (c # v))"
    "find_sub '';'' (u @ c # v) = map_option (\<lambda>i. length u + i) (find_sub '';'' (c # v))"
    by (rule f, simp add: separators_def)+
  consider "c = CHR ''&''" | "c = CHR ''|''" | "c = CHR '';''" using c by (auto simp: operator_def)
  then show ?thesis
  proof cases
    case 1
    show ?thesis using amp unfolding 1
      by (auto simp: separators_def earliest_cons fs [unfolded 1] sep_len_def
          simp del: earliest.simps(2) split: option.split)
  next
    case 2
    show ?thesis using amp unfolding 2
      by (auto simp: separators_def earliest_cons fs [unfolded 2] sep_len_def
          simp del: earliest.simps(2) split: option.split)
  next
    case 3
    show ?thesis using amp unfolding 3
      by (auto simp: separators_def earliest_cons fs [unfolded 3] sep_len_def
          simp del: earliest.simps(2) split: option.split)
  qed
qed

lemma earliest_none:
  assumes u: "\<forall>d \<in> set u. \<not> operator d"
  shows "earliest separators u (length u, 0) = (length u, 0)"
proof -
  have "find_sub sep u = None" if "sep \<in> set separators" for sep
    using find_separator [OF that u, of "[]"] separator_in [OF that] by simp
  then show ?thesis by (simp add: separators_def)
qed

lemma doubled_amp_skip: "CHR ''&'' \<notin> set u \<Longrightarrow> doubled_amp (u @ v) = doubled_amp v"
  by (induction u) auto

lemma operator_split:
  obtains "\<forall>d \<in> set s. \<not> operator d"
  | u c v where "s = u @ c # v" "\<forall>d \<in> set u. \<not> operator d" "operator c"
  by (metis split_list_first_prop)

lemma rest_facts:
  assumes "operator c" "doubled_amp (c # v)"
  shows "doubled_amp (drop (sep_len (c # v)) (c # v))
    \<and> base_commands (drop (sep_len (c # v)) (c # v)) = base_commands v"
proof (cases "sep_len (c # v) = 2")
  case True
  then obtain w where v: "v = c # w" by (auto simp: sep_len_def prefix_def split: if_splits)
  have "doubled_amp w" using assms(2) v by (auto split: if_splits)
  with True v show ?thesis by (simp add: base_commands_op [OF assms(1)])
next
  case False
  then have one: "sep_len (c # v) = 1" by (simp add: sep_len_def split: if_splits)
  then have "c \<noteq> CHR ''&''"
    using assms(2) by (auto simp: sep_len_def split: if_splits list.splits)
  with one assms show ?thesis by simp
qed

lemma extract_all_base: "doubled_amp s \<Longrightarrow> extract_all_commands s = base_commands s"
proof (induction s rule: length_induct)
  case (1 s)
  consider "\<forall>d \<in> set s. \<not> operator d"
    | u c v where "s = u @ c # v" "\<forall>d \<in> set u. \<not> operator d" "operator c"
    by (rule operator_split)
  then show ?case
  proof cases
    case plain: 1
    have "extract_all_commands s = (if s = [] \<or> extract_base_command s = [] then [] else [extract_base_command s])"
      using earliest_none [OF plain] by (subst extract_all_commands.simps) (auto simp: Let_def)
    then show ?thesis using pieces_plain [OF plain] by (auto simp: base_commands_def)
  next
    case op: 2
    have "CHR ''&'' \<notin> set u" using op(2) by (auto simp: operator_def)
    then have dv: "doubled_amp (c # v)" using "1.prems" doubled_amp_skip [of u "c # v"] op(1) by simp
    then have amp: "c = CHR ''&'' \<longrightarrow> prefix ''&&'' (c # v)" by (auto split: list.splits)
    define n where "n = sep_len (c # v)"
    have n: "0 < n" by (simp add: n_def sep_len_def)
    have e: "earliest separators s (length s, 0) = (length u, n)"
      using earliest_cut [OF op(2,3) amp] op(1) by (simp add: n_def)
    have tail: "drop (length u + n) s = drop n (c # v)" "take (length u) s = u" using op(1) by simp_all
    have "length (drop n (c # v)) < length s" using n op(1) by simp
    then have ih: "extract_all_commands (drop n (c # v)) = base_commands v"
      using rest_facts [OF op(3) dv] "1.IH" unfolding n_def by auto
    have "(if length u + n \<ge> length s then [] else extract_all_commands (drop (length u + n) s)) = base_commands v"
    proof (cases "length u + n \<ge> length s")
      case True
      then have "drop n (c # v) = []" using op(1) by simp
      with ih True show ?thesis by (simp add: extract_all_commands.simps)
    qed (use ih tail in simp)
    moreover have "s \<noteq> []" using op(1) by simp
    moreover have "base_commands s =
        (if extract_base_command u \<noteq> [] then extract_base_command u # base_commands v else base_commands v)"
      unfolding op(1) by (rule base_commands_cut [OF op(2,3)])
    ultimately show ?thesis
      by (subst extract_all_commands.simps) (simp only: e Let_def prod.case tail(2) if_False)
  qed
qed

text \<open>
  C36: What the allow-list guarantees. For a command in which every ampersand is doubled, the check
  in allow-list mode succeeds exactly when the base command of every piece between \<open>|\<close>, \<open>;\<close> and \<open>&\<close>
  is a safe binary or an allowed command, and otherwise names the first that is not; it never panics.
\<close>

theorem allowlist_exact:
  assumes "exec_mode p = Allowlist" and "doubled_amp command"
  shows "validate_command_allowlist warn_on command p =
    Ok (case find (\<lambda>b. b \<notin> set (safe_bins p) \<and> b \<notin> set (allowed_commands p)) (base_commands command) of
          None \<Rightarrow> Ok () | Some b \<Rightarrow> Err (NotInAllowlist b))"
proof -
  have "(\<lambda>base. \<not> permitted p base) = (\<lambda>b. b \<notin> set (safe_bins p) \<and> b \<notin> set (allowed_commands p))"
    by (auto simp: permitted_def list_ex_iff fun_eq_iff)
  then show ?thesis
    using assms by (simp add: validate_command_allowlist_def extract_all_base split: option.split)
qed

lemma allowlist_exact_witness:
  "validate_command_allowlist True ''cat a.txt | /usr/bin/sort && rm b'' default_exec_policy = Ok (Err (NotInAllowlist ''rm''))"
proof -
  have "doubled_amp ''cat a.txt | /usr/bin/sort && rm b''" by simp
  moreover have "exec_mode default_exec_policy = Allowlist" by (simp add: default_exec_policy_def)
  moreover have "base_commands ''cat a.txt | /usr/bin/sort && rm b'' = [''cat'', ''sort'', ''rm'']" by code_simp
  ultimately show ?thesis
    using allowlist_exact [of default_exec_policy "''cat a.txt | /usr/bin/sort && rm b''"]
    by (simp add: default_exec_policy_def)
qed

lemma commands_seen:
  "extract_all_commands ''rm -rf x'' = [''rm'']"
  "extract_all_commands ''echo & rm -rf x'' = [''echo'']"
  "extract_all_commands (''echo'' @ [CHR 0x0A] @ ''rm -rf x'') = [''echo'']"
  "extract_all_commands ''echo $(rm -rf x)'' = [''echo'']"
  "extract_all_commands ''env rm -rf x'' = [''env'']"
  by code_simp+

text \<open>
  What it does not look at. Under the default policy, which allows eighteen harmless utilities,
  a single ampersand, a new line, a command substitution and the utility \<open>env\<close> each let any command
  run.
\<close>

theorem allowlist_bypasses:
  "list_all (\<lambda>c. validate_command_allowlist True c default_exec_policy = Ok (Ok ()))
     [''echo & rm -rf x'', ''echo'' @ [CHR 0x0A] @ ''rm -rf x'', ''echo $(rm -rf x)'', ''env rm -rf x'']
   \<and> validate_command_allowlist True ''rm -rf x'' default_exec_policy = Ok (Err (NotInAllowlist ''rm''))"
  unfolding validate_command_allowlist_def list.pred_inject commands_seen
  by (simp add: default_exec_policy_def permitted_def)

text \<open>
  A child process sees nothing of the host's environment but the eight safe variables and those
  explicitly allowed, each with the host's value, and it sees all of these that the host has.
\<close>

theorem sandboxed_environment:
  "sandbox_command host allowed v = (if v \<in> set safe_env_vars \<union> set allowed then host v else None)"
proof -
  have copy: "copy_vars host vs env v = (if v \<in> set vs \<and> host v \<noteq> None then host v else env v)" for vs env
    by (induction vs arbitrary: env) (auto simp: copy_vars_def split: option.split)
  show ?thesis by (simp add: sandbox_command_def copy)
qed

end
