(* ===== verification/Agent.thy ===== *)
theory Agent
  imports Capability Str_Utils
begin

text \<open>
  Agents, \<open>clawreform-types/src/agent.rs\<close>: lifecycle states, operational modes, resource quotas,
  tool profiles, manifests and registry entries; and the kernel's translation of a manifest into
  capabilities (\<open>manifest_to_capabilities\<close> of \<open>clawreform-kernel/src/kernel.rs\<close>).

  A \<open>Uuid\<close> is a number, a \<open>DateTime\<close> a number of milliseconds. The manifest fields that no
  modelled operation reads or writes are carried together in \<open>manifest_rest\<close>, of the parameter
  type \<open>'x\<close>.
\<close>

section \<open>States, modes and quotas\<close>

type_synonym session_id = nat
type_synonym user_id = nat
type_synonym timestamp = nat

datatype agent_state = Created | Running | Suspended | Terminated | Crashed

datatype agent_mode = Observe | Assist | Full

record 'j tool_definition =
  tool_name :: string
  tool_description :: string
  input_schema :: 'j

definition read_only_tools :: "string list" where
  "read_only_tools =
     [''file_read'', ''file_list'', ''memory_recall'', ''web_fetch'', ''web_search'', ''agent_list'']"

fun filter_tools :: "agent_mode \<Rightarrow> 'j tool_definition list \<Rightarrow> 'j tool_definition list" where
  "filter_tools Observe tools = []"
| "filter_tools Assist tools = filter (\<lambda>t. tool_name t \<in> set read_only_tools) tools"
| "filter_tools Full tools = tools"

datatype schedule_mode =
    Reactive
  | Periodic string
  | Proactive "string list"
  | Continuous nat

record resource_quota =
  max_memory_bytes :: nat
  max_cpu_time_ms :: nat
  max_tool_calls_per_minute :: nat
  max_llm_tokens_per_hour :: nat
  max_network_bytes_per_hour :: nat
  max_cost_per_hour_usd :: f64
  max_cost_per_day_usd :: f64
  max_cost_per_month_usd :: f64

definition default_quota :: resource_quota where
  "default_quota = \<lparr>max_memory_bytes = 256 * 1024 * 1024, max_cpu_time_ms = 30000,
     max_tool_calls_per_minute = 60, max_llm_tokens_per_hour = 1000000,
     max_network_bytes_per_hour = 100 * 1024 * 1024, max_cost_per_hour_usd = Fin 1,
     max_cost_per_day_usd = Fin 0, max_cost_per_month_usd = Fin 0\<rparr>"

section \<open>Profiles\<close>

datatype tool_profile =
  Minimal | Coding | Research | Messaging | Automation | FullProfile | CustomProfile

fun profile_tools :: "tool_profile \<Rightarrow> string list" where
  "profile_tools Minimal = [''file_read'', ''file_list'']"
| "profile_tools Coding = [''file_read'', ''file_write'', ''file_list'', ''shell_exec'', ''web_fetch'']"
| "profile_tools Research = [''web_fetch'', ''web_search'', ''file_read'', ''file_write'']"
| "profile_tools Messaging = [''agent_send'', ''agent_list'', ''memory_store'', ''memory_recall'']"
| "profile_tools Automation =
     [''file_read'', ''file_write'', ''file_list'', ''shell_exec'', ''web_fetch'', ''web_search'',
      ''agent_send'', ''agent_list'', ''memory_store'', ''memory_recall'']"
| "profile_tools FullProfile = [''*'']"
| "profile_tools CustomProfile = [''*'']"

record manifest_capabilities =
  network :: "string list"
  tools :: "string list"
  memory_read :: "string list"
  memory_write :: "string list"
  agent_spawn :: bool
  agent_message :: "string list"
  shell :: "string list"
  ofp_discover :: bool
  ofp_connect :: "string list"

definition implied_capabilities :: "tool_profile \<Rightarrow> manifest_capabilities" where
  "implied_capabilities p =
     (let ts = profile_tools p;
          has_net = list_ex (\<lambda>t. starts_with t ''web_'' \<or> t = ''*'') ts;
          has_shell = list_ex (\<lambda>t. t = ''shell_exec'' \<or> t = ''*'') ts;
          has_agent = list_ex (\<lambda>t. starts_with t ''agent_'' \<or> t = ''*'') ts;
          has_memory = list_ex (\<lambda>t. starts_with t ''memory_'' \<or> t = ''*'') ts
      in \<lparr>network = (if has_net then [''*''] else []),
          tools = ts,
          memory_read = (if has_memory then [''*''] else [''self.*'']),
          memory_write = [''self.*''],
          agent_spawn = has_agent,
          agent_message = (if has_agent then [''*''] else []),
          shell = (if has_shell then [''*''] else []),
          ofp_discover = False,
          ofp_connect = []\<rparr>)"

section \<open>Manifests and entries\<close>

record model_config =
  provider :: string
  model :: string
  max_tokens :: nat
  temperature :: f64
  system_prompt :: string
  api_key_env :: "string option"
  base_url :: "string option"

definition default_model :: model_config where
  "default_model = \<lparr>provider = ''anthropic'', model = ''claude-sonnet-4-20250514'', max_tokens = 4096,
     temperature = Fin (11744051 / 16777216), system_prompt = ''You are a helpful AI agent.'',
     api_key_env = None, base_url = None\<rparr>"

record 'x agent_manifest =
  manifest_name :: string
  description :: string
  schedule :: schedule_mode
  model_conf :: model_config
  resources :: resource_quota
  capabilities :: manifest_capabilities
  profile :: "tool_profile option"
  skills :: "string list"
  mcp_servers :: "string list"
  manifest_tags :: "string list"
  workspace :: "string option"
  generate_identity_files :: bool
  manifest_rest :: 'x

record agent_identity =
  emoji :: "string option"
  avatar_url :: "string option"
  color :: "string option"
  archetype :: "string option"
  vibe :: "string option"
  greeting_style :: "string option"

definition no_identity :: agent_identity where
  "no_identity = \<lparr>emoji = None, avatar_url = None, color = None, archetype = None, vibe = None,
     greeting_style = None\<rparr>"

record 'x agent_entry =
  entry_id :: agent_id
  entry_name :: string
  manifest :: "'x agent_manifest"
  state :: agent_state
  mode :: agent_mode
  created_at :: timestamp
  last_active :: timestamp
  parent :: "agent_id option"
  children :: "agent_id list"
  session_id :: session_id
  entry_tags :: "string list"
  identity :: agent_identity
  onboarding_completed :: bool
  onboarding_completed_at :: "timestamp option"
  trace_id :: "string option"

section \<open>Session labels\<close>

text \<open>
  \<open>SessionLabel::new\<close>. \<open>char::is_alphanumeric\<close> is decided by the Unicode tables; the test on
  the characters of a text is the parameter \<open>alphanumeric_text\<close>, which answers whether every
  character is alphanumeric, a space, a hyphen or an underscore.
\<close>

datatype label_error = LabelLength | LabelCharacters

definition new_label :: "(string \<Rightarrow> bool) \<Rightarrow> string \<Rightarrow> (string, label_error) result" where
  "new_label alphanumeric_text label =
     (let trimmed = trim label
      in if trimmed = [] \<or> length trimmed > 128 then Err LabelLength
         else if \<not> alphanumeric_text trimmed then Err LabelCharacters
         else Ok trimmed)"

section \<open>From a manifest to capabilities\<close>

definition or_override :: "'a list \<Rightarrow> 'a list \<Rightarrow> 'a list" where
  "or_override own base = (if own \<noteq> [] then own else base)"

definition effective_capabilities :: "'x agent_manifest \<Rightarrow> manifest_capabilities" where
  "effective_capabilities m =
     (case profile m of
        Some p \<Rightarrow>
          if tools (capabilities m) = [] then
            (let merged = implied_capabilities p; own = capabilities m
             in merged\<lparr>network := or_override (network own) (network merged),
                       shell := or_override (shell own) (shell merged),
                       agent_message := or_override (agent_message own) (agent_message merged),
                       agent_spawn := agent_spawn own \<or> agent_spawn merged,
                       memory_read := or_override (memory_read own) (memory_read merged),
                       memory_write := or_override (memory_write own) (memory_write merged),
                       ofp_discover := ofp_discover own \<or> ofp_discover merged,
                       ofp_connect := or_override (ofp_connect own) (ofp_connect merged)\<rparr>)
          else capabilities m
      | None \<Rightarrow> capabilities m)"

definition manifest_to_capabilities :: "'x agent_manifest \<Rightarrow> capability list" where
  "manifest_to_capabilities m =
     (let e = effective_capabilities m
      in map NetConnect (network e) @ map ToolInvoke (tools e)
         @ map MemoryRead (memory_read e) @ map MemoryWrite (memory_write e)
         @ (if agent_spawn e then [AgentSpawn] else [])
         @ map AgentMessage (agent_message e) @ map ShellExec (shell e)
         @ (if ofp_discover e then [OfpDiscover] else [])
         @ map OfpConnect (ofp_connect e))"

lemma manifest_tools [simp]:
  "ToolInvoke t \<in> set (manifest_to_capabilities m) \<longleftrightarrow> t \<in> set (tools (effective_capabilities m))"
  by (auto simp: manifest_to_capabilities_def Let_def)

lemma manifest_no_tool_all [simp]: "ToolAll \<notin> set (manifest_to_capabilities m)"
  by (auto simp: manifest_to_capabilities_def Let_def)

lemma filter_tools_subset: "set (filter_tools md ts) \<subseteq> set ts"
  by (cases md) auto

end
