(* ===== verification/Registry.thy ===== *)
theory Registry
  imports Agent
begin

text \<open>
  The agent registry, \<open>clawreform-kernel/src/registry.rs\<close>: the entries by id, the index from names
  to ids and the index from tags to ids. Each operation is one atomic step; \<open>now\<close> is the clock.
\<close>

section \<open>Operations\<close>

datatype registry_error = AgentAlreadyExists string | AgentNotFound agent_id

record 'x registry =
  agents :: "agent_id \<rightharpoonup> 'x agent_entry"
  name_index :: "string \<rightharpoonup> agent_id"
  tag_index :: "string \<rightharpoonup> agent_id list"

definition new_registry :: "'x registry" where
  "new_registry = \<lparr>agents = Map.empty, name_index = Map.empty, tag_index = Map.empty\<rparr>"

definition push_tag :: "agent_id \<Rightarrow> string \<Rightarrow> (string \<rightharpoonup> agent_id list) \<Rightarrow> (string \<rightharpoonup> agent_id list)" where
  "push_tag aid t idx = idx(t \<mapsto> (case idx t of None \<Rightarrow> [] | Some ids \<Rightarrow> ids) @ [aid])"

definition drop_tag :: "agent_id \<Rightarrow> string \<Rightarrow> (string \<rightharpoonup> agent_id list) \<Rightarrow> (string \<rightharpoonup> agent_id list)" where
  "drop_tag aid t idx =
     (case idx t of None \<Rightarrow> idx | Some ids \<Rightarrow> idx(t \<mapsto> filter (\<lambda>i. i \<noteq> aid) ids))"

definition register ::
  "'x registry \<Rightarrow> 'x agent_entry \<Rightarrow> 'x registry \<times> (unit, registry_error) result" where
  "register r e =
     (if entry_name e \<in> dom (name_index r) then (r, Err (AgentAlreadyExists (entry_name e)))
      else (r\<lparr>name_index := (name_index r)(entry_name e \<mapsto> entry_id e),
              tag_index := fold (push_tag (entry_id e)) (entry_tags e) (tag_index r),
              agents := (agents r)(entry_id e \<mapsto> e)\<rparr>, Ok ()))"

definition get_agent :: "'x registry \<Rightarrow> agent_id \<Rightarrow> 'x agent_entry option" where
  "get_agent r aid = agents r aid"

definition find_by_name :: "'x registry \<Rightarrow> string \<Rightarrow> 'x agent_entry option" where
  "find_by_name r n = Option.bind (name_index r n) (agents r)"

definition list_agents :: "'x registry \<Rightarrow> 'x agent_entry set" where
  "list_agents r = ran (agents r)"

text \<open>All the single field updates look the entry up, change it and stamp its activity.\<close>

definition modify_entry ::
  "timestamp \<Rightarrow> ('x agent_entry \<Rightarrow> 'x agent_entry) \<Rightarrow> 'x registry \<Rightarrow> agent_id
   \<Rightarrow> 'x registry \<times> (unit, registry_error) result" where
  "modify_entry now f r aid =
     (case agents r aid of
        None \<Rightarrow> (r, Err (AgentNotFound aid))
      | Some e \<Rightarrow> (r\<lparr>agents := (agents r)(aid \<mapsto> (f e)\<lparr>last_active := now\<rparr>)\<rparr>, Ok ()))"

abbreviation on_manifest ::
  "('x agent_manifest \<Rightarrow> 'x agent_manifest) \<Rightarrow> 'x agent_entry \<Rightarrow> 'x agent_entry" where
  "on_manifest f e \<equiv> e\<lparr>manifest := f (manifest e)\<rparr>"

abbreviation on_model ::
  "(model_config \<Rightarrow> model_config) \<Rightarrow> 'x agent_entry \<Rightarrow> 'x agent_entry" where
  "on_model f \<equiv> on_manifest (\<lambda>m. m\<lparr>model_conf := f (model_conf m)\<rparr>)"

definition set_state where
  "set_state now r aid s = modify_entry now (\<lambda>e. e\<lparr>state := s\<rparr>) r aid"

definition set_mode where
  "set_mode now r aid md = modify_entry now (\<lambda>e. e\<lparr>mode := md\<rparr>) r aid"

definition update_session_id where
  "update_session_id now r aid s = modify_entry now (\<lambda>e. e\<lparr>session_id := s\<rparr>) r aid"

definition update_workspace where
  "update_workspace now r aid w = modify_entry now (on_manifest (\<lambda>m. m\<lparr>workspace := w\<rparr>)) r aid"

definition update_identity where
  "update_identity now r aid i = modify_entry now (\<lambda>e. e\<lparr>identity := i\<rparr>) r aid"

definition update_model where
  "update_model now r aid new_model =
     modify_entry now (on_model (\<lambda>c. c\<lparr>model := new_model\<rparr>)) r aid"

definition update_model_and_provider where
  "update_model_and_provider now r aid new_model new_provider =
     modify_entry now (on_model (\<lambda>c. c\<lparr>model := new_model, provider := new_provider\<rparr>)) r aid"

definition update_skills where
  "update_skills now r aid ss = modify_entry now (on_manifest (\<lambda>m. m\<lparr>skills := ss\<rparr>)) r aid"

definition update_mcp_servers where
  "update_mcp_servers now r aid ss =
     modify_entry now (on_manifest (\<lambda>m. m\<lparr>mcp_servers := ss\<rparr>)) r aid"

definition update_system_prompt where
  "update_system_prompt now r aid p =
     modify_entry now (on_model (\<lambda>c. c\<lparr>system_prompt := p\<rparr>)) r aid"

definition update_description where
  "update_description now r aid d =
     modify_entry now (on_manifest (\<lambda>m. m\<lparr>description := d\<rparr>)) r aid"

definition mark_onboarding_complete where
  "mark_onboarding_complete now r aid =
     modify_entry now (\<lambda>e. e\<lparr>onboarding_completed := True, onboarding_completed_at := Some now\<rparr>) r aid"

definition update_name ::
  "timestamp \<Rightarrow> 'x registry \<Rightarrow> agent_id \<Rightarrow> string \<Rightarrow> 'x registry \<times> (unit, registry_error) result" where
  "update_name now r aid new_name =
     (if new_name \<in> dom (name_index r) then (r, Err (AgentAlreadyExists new_name))
      else case agents r aid of
             None \<Rightarrow> (r, Err (AgentNotFound aid))
           | Some e \<Rightarrow>
               (r\<lparr>agents := (agents r)(aid \<mapsto>
                    (on_manifest (\<lambda>m. m\<lparr>manifest_name := new_name\<rparr>) e)
                      \<lparr>entry_name := new_name, last_active := now\<rparr>),
                  name_index := ((name_index r)(entry_name e := None))(new_name \<mapsto> aid)\<rparr>, Ok ()))"

definition remove_agent ::
  "'x registry \<Rightarrow> agent_id \<Rightarrow> 'x registry \<times> ('x agent_entry, registry_error) result" where
  "remove_agent r aid =
     (case agents r aid of
        None \<Rightarrow> (r, Err (AgentNotFound aid))
      | Some e \<Rightarrow>
          (r\<lparr>agents := (agents r)(aid := None),
             name_index := (name_index r)(entry_name e := None),
             tag_index := fold (drop_tag aid) (entry_tags e) (tag_index r)\<rparr>, Ok e))"

definition add_child :: "'x registry \<Rightarrow> agent_id \<Rightarrow> agent_id \<Rightarrow> 'x registry" where
  "add_child r parent_id child_id =
     (case agents r parent_id of
        None \<Rightarrow> r
      | Some e \<Rightarrow> r\<lparr>agents := (agents r)(parent_id \<mapsto> e\<lparr>children := children e @ [child_id]\<rparr>)\<rparr>)"

definition count_agents :: "'x registry \<Rightarrow> nat" where
  "count_agents r = card (dom (agents r))"

section \<open>Consistency of the three indexes\<close>

definition ids_at :: "(string \<rightharpoonup> agent_id list) \<Rightarrow> string \<Rightarrow> agent_id list" where
  "ids_at idx t = (case idx t of None \<Rightarrow> [] | Some ids \<Rightarrow> ids)"

abbreviation tagged :: "'x registry \<Rightarrow> string \<Rightarrow> agent_id list" where
  "tagged r \<equiv> ids_at (tag_index r)"

definition consistent :: "'x registry \<Rightarrow> bool" where
  "consistent r \<longleftrightarrow>
     (\<forall>aid e. agents r aid = Some e \<longrightarrow> entry_id e = aid)
     \<and> (\<forall>n aid. name_index r n = Some aid \<longleftrightarrow> (\<exists>e. agents r aid = Some e \<and> entry_name e = n))
     \<and> (\<forall>t aid. aid \<in> set (tagged r t) \<longleftrightarrow> (\<exists>e. agents r aid = Some e \<and> t \<in> set (entry_tags e)))"

lemma consistentD:
  assumes "consistent r"
  shows "agents r aid = Some e \<Longrightarrow> entry_id e = aid"
    and "name_index r n = Some aid \<longleftrightarrow> (\<exists>e. agents r aid = Some e \<and> entry_name e = n)"
    and "aid \<in> set (tagged r t) \<longleftrightarrow> (\<exists>e. agents r aid = Some e \<and> t \<in> set (entry_tags e))"
  using assms by (auto simp: consistent_def)

lemma ids_at_push: "ids_at (push_tag aid u idx) t = ids_at idx t @ (if u = t then [aid] else [])"
  by (simp add: ids_at_def push_tag_def)

lemma ids_at_drop:
  "ids_at (drop_tag aid u idx) t = (if u = t then filter (\<lambda>i. i \<noteq> aid) (ids_at idx t) else ids_at idx t)"
  by (simp add: ids_at_def drop_tag_def split: option.split)

lemma push_tags:
  "set (ids_at (fold (push_tag aid) ts idx) t) = set (ids_at idx t) \<union> (if t \<in> set ts then {aid} else {})"
  by (induction ts arbitrary: idx) (auto simp: ids_at_push)

lemma drop_tags:
  "set (ids_at (fold (drop_tag aid) ts idx) t) = set (ids_at idx t) - (if t \<in> set ts then {aid} else {})"
  by (induction ts arbitrary: idx) (auto simp: ids_at_drop)

lemma consistent_new: "consistent new_registry"
  by (simp add: consistent_def new_registry_def ids_at_def)

lemma consistent_register:
  assumes "consistent r" and "agents r (entry_id e) = None"
  shows "consistent (fst (register r e))"
proof (cases "entry_name e \<in> dom (name_index r)")
  case True
  with assms(1) show ?thesis by (simp add: register_def)
next
  case False
  then have fresh: "name_index r (entry_name e) = None" by auto
  then have unnamed: "agents r aid = Some e' \<Longrightarrow> entry_name e' \<noteq> entry_name e" for aid e'
    using consistentD(2) [OF assms(1)] by (metis option.distinct(1))
  show ?thesis unfolding consistent_def
  proof (intro conjI allI)
    fix aid e'
    show "agents (fst (register r e)) aid = Some e' \<longrightarrow> entry_id e' = aid"
      using False consistentD(1) [OF assms(1)] by (auto simp: register_def)
  next
    fix n aid
    show "name_index (fst (register r e)) n = Some aid \<longleftrightarrow>
        (\<exists>e'. agents (fst (register r e)) aid = Some e' \<and> entry_name e' = n)"
      using False consistentD(2) [OF assms(1)] unnamed assms(2) by (auto simp: register_def)
  next
    fix t aid
    show "aid \<in> set (tagged (fst (register r e)) t) \<longleftrightarrow>
        (\<exists>e'. agents (fst (register r e)) aid = Some e' \<and> t \<in> set (entry_tags e'))"
      using False consistentD(3) [OF assms(1)] assms(2) by (auto simp: register_def push_tags)
  qed
qed

lemma consistent_remove:
  assumes "consistent r"
  shows "consistent (fst (remove_agent r aid))"
proof (cases "agents r aid")
  case None
  with assms show ?thesis by (simp add: remove_agent_def)
next
  case (Some e)
  have named: "name_index r (entry_name e) = Some aid" using Some consistentD(2) [OF assms] by blast
  have other: "entry_name e' \<noteq> entry_name e" if "agents r i = Some e'" "i \<noteq> aid" for i e'
    using that named consistentD(2) [OF assms] by (metis option.inject)
  show ?thesis unfolding consistent_def
  proof (intro conjI allI)
    fix i e'
    show "agents (fst (remove_agent r aid)) i = Some e' \<longrightarrow> entry_id e' = i"
      using Some consistentD(1) [OF assms] by (auto simp: remove_agent_def)
  next
    fix n i
    show "name_index (fst (remove_agent r aid)) n = Some i \<longleftrightarrow>
        (\<exists>e'. agents (fst (remove_agent r aid)) i = Some e' \<and> entry_name e' = n)"
      using Some consistentD(2) [OF assms] other named by (auto simp: remove_agent_def)
  next
    fix t i
    show "i \<in> set (tagged (fst (remove_agent r aid)) t) \<longleftrightarrow>
        (\<exists>e'. agents (fst (remove_agent r aid)) i = Some e' \<and> t \<in> set (entry_tags e'))"
      using Some consistentD(3) [OF assms] by (auto simp: remove_agent_def drop_tags)
  qed
qed

text \<open>An update that keeps id, name and tags of an entry keeps the indexes right.\<close>

definition keeps_index :: "('x agent_entry \<Rightarrow> 'x agent_entry) \<Rightarrow> bool" where
  "keeps_index f \<longleftrightarrow>
     (\<forall>e. entry_id (f e) = entry_id e \<and> entry_name (f e) = entry_name e \<and> entry_tags (f e) = entry_tags e)"

lemma consistent_replace:
  assumes "consistent r" and "agents r aid = Some e"
    and "entry_id e' = entry_id e" "entry_name e' = entry_name e" "entry_tags e' = entry_tags e"
  shows "consistent (r\<lparr>agents := (agents r)(aid \<mapsto> e')\<rparr>)"
  using assms consistentD(1) [OF assms(1)] consistentD(2,3) [OF assms(1)]
  unfolding consistent_def by auto

lemma consistent_modify:
  "consistent r \<Longrightarrow> keeps_index f \<Longrightarrow> consistent (fst (modify_entry now f r aid))"
  by (auto simp: modify_entry_def keeps_index_def split: option.split intro!: consistent_replace)

lemma consistent_add_child: "consistent r \<Longrightarrow> consistent (add_child r p c)"
  by (auto simp: add_child_def split: option.split intro!: consistent_replace)

lemma consistent_update_name:
  assumes "consistent r"
  shows "consistent (fst (update_name now r aid n))"
proof (cases "n \<in> dom (name_index r) \<or> agents r aid = None")
  case True
  with assms show ?thesis by (auto simp: update_name_def split: option.split)
next
  case False
  then obtain e where e: "agents r aid = Some e" and n: "name_index r n = None" by auto
  have named: "name_index r (entry_name e) = Some aid" using e consistentD(2) [OF assms] by blast
  have other: "entry_name e' \<noteq> entry_name e \<and> entry_name e' \<noteq> n"
    if "agents r i = Some e'" "i \<noteq> aid" for i e'
    using that named n consistentD(2) [OF assms] by (metis option.distinct(1) option.inject)
  show ?thesis unfolding consistent_def
  proof (intro conjI allI)
    fix i e'
    show "agents (fst (update_name now r aid n)) i = Some e' \<longrightarrow> entry_id e' = i"
      using e n consistentD(1) [OF assms] by (auto simp: update_name_def)
  next
    fix m i
    show "name_index (fst (update_name now r aid n)) m = Some i \<longleftrightarrow>
        (\<exists>e'. agents (fst (update_name now r aid n)) i = Some e' \<and> entry_name e' = m)"
      using e n consistentD(2) [OF assms] other named by (auto simp: update_name_def)
  next
    fix t i
    show "i \<in> set (tagged (fst (update_name now r aid n)) t) \<longleftrightarrow>
        (\<exists>e'. agents (fst (update_name now r aid n)) i = Some e' \<and> t \<in> set (entry_tags e'))"
      using e n consistentD(3) [OF assms] by (auto simp: update_name_def)
  qed
qed

section \<open>Every reachable registry is consistent\<close>

text \<open>
  The steps of the registry. A registration uses a fresh id, as every caller does
  (\<open>AgentId::new\<close> draws a random Uuid, and a restored entry brings its own id back once).
\<close>

inductive registry_step :: "'x registry \<Rightarrow> 'x registry \<Rightarrow> bool" where
  step_register: "agents r (entry_id e) = None \<Longrightarrow> registry_step r (fst (register r e))"
| step_state: "registry_step r (fst (set_state now r aid s))"
| step_mode: "registry_step r (fst (set_mode now r aid md))"
| step_session: "registry_step r (fst (update_session_id now r aid sid))"
| step_workspace: "registry_step r (fst (update_workspace now r aid w))"
| step_identity: "registry_step r (fst (update_identity now r aid i))"
| step_model: "registry_step r (fst (update_model now r aid m))"
| step_model_provider: "registry_step r (fst (update_model_and_provider now r aid m p))"
| step_skills: "registry_step r (fst (update_skills now r aid ss))"
| step_mcp: "registry_step r (fst (update_mcp_servers now r aid ss))"
| step_prompt: "registry_step r (fst (update_system_prompt now r aid sp))"
| step_description: "registry_step r (fst (update_description now r aid d))"
| step_onboarding: "registry_step r (fst (mark_onboarding_complete now r aid))"
| step_name: "registry_step r (fst (update_name now r aid n))"
| step_remove: "registry_step r (fst (remove_agent r aid))"
| step_child: "registry_step r (add_child r pid cid)"

lemmas update_defs = set_state_def set_mode_def update_session_id_def update_workspace_def
  update_identity_def update_model_def update_model_and_provider_def update_skills_def
  update_mcp_servers_def update_system_prompt_def update_description_def
  mark_onboarding_complete_def

lemma registry_step_consistent: "registry_step r r' \<Longrightarrow> consistent r \<Longrightarrow> consistent r'"
  by (induction rule: registry_step.induct)
    (auto simp: update_defs keeps_index_def
      intro!: consistent_register consistent_modify consistent_update_name consistent_remove
        consistent_add_child)

lemma reachable_consistent: "registry_step\<^sup>*\<^sup>* r r' \<Longrightarrow> consistent r \<Longrightarrow> consistent r'"
  by (induction rule: rtranclp_induct) (auto intro: registry_step_consistent)

lemma find_by_name_iff:
  "consistent r \<Longrightarrow> find_by_name r n = Some e \<longleftrightarrow> e \<in> list_agents r \<and> entry_name e = n"
  using consistentD(2) [of r]
  by (fastforce simp: find_by_name_def list_agents_def ran_def bind_eq_Some_conv)

lemma names_distinct:
  "consistent r \<Longrightarrow> e \<in> list_agents r \<Longrightarrow> e' \<in> list_agents r \<Longrightarrow> entry_name e = entry_name e' \<Longrightarrow> e = e'"
  by (metis find_by_name_iff option.inject)

lemma register_ok_iff:
  assumes "consistent r"
  shows "is_ok (snd (register r e)) \<longleftrightarrow> (\<forall>e' \<in> list_agents r. entry_name e' \<noteq> entry_name e)"
proof -
  have "is_ok (snd (register r e)) \<longleftrightarrow> name_index r (entry_name e) = None"
    by (auto simp: register_def)
  also have "\<dots> \<longleftrightarrow> (\<forall>aid. name_index r (entry_name e) \<noteq> Some aid)" by auto
  finally show ?thesis
    using consistentD(2) [OF assms] by (auto simp: list_agents_def ran_def)
qed

text \<open>
  C33: In every registry reached by its operations from the empty one the three indexes agree: a
  lookup by name finds exactly the listed agent with that name, no two listed agents share a name,
  the tag index lists an agent under a tag exactly when its entry has the tag, and registering
  fails exactly when an agent of that name is listed.
\<close>

theorem registry_indexes_agree:
  assumes "registry_step\<^sup>*\<^sup>* new_registry r"
  shows "(find_by_name r n = Some e \<longleftrightarrow> e \<in> list_agents r \<and> entry_name e = n)
    \<and> (e \<in> list_agents r \<and> e' \<in> list_agents r \<and> entry_name e = entry_name e' \<longrightarrow> e = e')
    \<and> (aid \<in> set (tagged r t) \<longleftrightarrow> (\<exists>e. get_agent r aid = Some e \<and> t \<in> set (entry_tags e)))
    \<and> (is_ok (snd (register r new)) \<longleftrightarrow> (\<forall>e \<in> list_agents r. entry_name e \<noteq> entry_name new))"
proof -
  have c: "consistent r" using assms consistent_new by (rule reachable_consistent)
  show ?thesis
    using find_by_name_iff [OF c] names_distinct [OF c] register_ok_iff [OF c] consistentD(3) [OF c]
    by (simp add: get_agent_def)
qed

definition sample_entry :: "nat \<Rightarrow> string \<Rightarrow> unit agent_entry" where
  "sample_entry i n = \<lparr>entry_id = i, entry_name = n,
     manifest = \<lparr>manifest_name = n, description = [], schedule = Reactive, model_conf = default_model,
       resources = default_quota, capabilities = implied_capabilities Minimal, profile = None,
       skills = [], mcp_servers = [], manifest_tags = [''team''], workspace = None,
       generate_identity_files = True, manifest_rest = ()\<rparr>,
     state = Running, mode = Full, created_at = 0, last_active = 0, parent = None, children = [],
     session_id = i, entry_tags = [''team''], identity = no_identity, onboarding_completed = False,
     onboarding_completed_at = None, trace_id = None\<rparr>"

text \<open>Two agents, the first renamed, the second removed.\<close>

definition sample_registry :: "unit registry" where
  "sample_registry =
     fst (remove_agent (fst (update_name 5 (fst (register (fst (register new_registry
       (sample_entry 1 ''ann''))) (sample_entry 2 ''bob''))) 1 ''eve'')) 2)"

lemma sample_reachable: "registry_step\<^sup>*\<^sup>* new_registry sample_registry"
proof -
  let ?r1 = "fst (register new_registry (sample_entry 1 ''ann''))"
  let ?r2 = "fst (register ?r1 (sample_entry 2 ''bob''))"
  have "registry_step new_registry ?r1"
    by (rule step_register) (simp add: new_registry_def)
  moreover have "registry_step ?r1 ?r2"
    by (rule step_register) (simp add: new_registry_def register_def sample_entry_def)
  moreover have "registry_step ?r2 (fst (update_name 5 ?r2 1 ''eve''))" by (rule step_name)
  moreover have "registry_step (fst (update_name 5 ?r2 1 ''eve'')) sample_registry"
    unfolding sample_registry_def by (rule step_remove)
  ultimately show ?thesis by (meson rtranclp.rtrancl_refl rtranclp.rtrancl_into_rtrancl)
qed

lemma sample_eval:
  "agents sample_registry = [1 \<mapsto> (sample_entry 1 ''ann'')
     \<lparr>manifest := (manifest (sample_entry 1 ''ann''))\<lparr>manifest_name := ''eve''\<rparr>, entry_name := ''eve'', last_active := 5\<rparr>]"
  "name_index sample_registry = [''eve'' \<mapsto> 1]"
  "tag_index sample_registry = [''team'' \<mapsto> [1]]"
  by (auto simp: sample_registry_def register_def new_registry_def sample_entry_def update_name_def
      remove_agent_def push_tag_def drop_tag_def fun_eq_iff)

lemma registry_indexes_agree_witness:
  "find_by_name sample_registry ''ann'' = None \<and> is_ok (snd (register sample_registry (sample_entry 3 ''ann'')))
   \<and> set (tagged sample_registry ''team'') = {1}"
proof -
  have ann: "find_by_name sample_registry ''ann'' = None"
    by (simp add: find_by_name_def sample_eval)
  have "\<forall>e \<in> list_agents sample_registry. entry_name e \<noteq> ''ann''"
  proof
    fix e assume "e \<in> list_agents sample_registry"
    then show "entry_name e \<noteq> ''ann''"
      using registry_indexes_agree [OF sample_reachable, of "''ann''" e] ann by auto
  qed
  moreover have "entry_name (sample_entry 3 ''ann'') = ''ann''" by (simp add: sample_entry_def)
  ultimately have "is_ok (snd (register sample_registry (sample_entry 3 ''ann'')))"
    using registry_indexes_agree [OF sample_reachable, where new = "sample_entry 3 ''ann''"] by simp
  moreover have "tagged sample_registry ''team'' = [1]" by (simp add: ids_at_def sample_eval)
  ultimately show ?thesis using ann by simp
qed

end
