(* ===== verification/Scheduler.thy ===== *)
theory Scheduler
  imports Agent Message
begin

text \<open>
  The agent scheduler, \<open>clawreform-kernel/src/scheduler.rs\<close>: quotas and hourly usage per agent and
  the active task of each. Time is in seconds; an \<open>Instant\<close> is the time it was taken at, and a step
  gets the current time as \<open>now\<close>. A join handle is a task number, and the tasks that were aborted
  are listed in the outcome of \<open>abort_task\<close>.
\<close>

section \<open>Operations\<close>

record usage_tracker =
  used_tokens :: nat
  tool_calls :: nat
  window_start :: nat

definition new_tracker :: "nat \<Rightarrow> usage_tracker" where
  "new_tracker now = \<lparr>used_tokens = 0, tool_calls = 0, window_start = now\<rparr>"

definition reset_if_expired :: "nat \<Rightarrow> usage_tracker \<Rightarrow> usage_tracker" where
  "reset_if_expired now t =
     (if now - window_start t \<ge> 3600
      then t\<lparr>used_tokens := 0, tool_calls := 0, window_start := now\<rparr> else t)"

record agent_scheduler =
  quotas :: "agent_id \<rightharpoonup> resource_quota"
  usage :: "agent_id \<rightharpoonup> usage_tracker"
  tasks :: "agent_id \<rightharpoonup> nat"

datatype quota_error = TokenLimitExceeded nat nat

definition new_scheduler :: agent_scheduler where
  "new_scheduler = \<lparr>quotas = Map.empty, usage = Map.empty, tasks = Map.empty\<rparr>"

definition register_quota ::
  "nat \<Rightarrow> agent_scheduler \<Rightarrow> agent_id \<Rightarrow> resource_quota \<Rightarrow> agent_scheduler" where
  "register_quota now s aid quota =
     s\<lparr>quotas := (quotas s)(aid \<mapsto> quota), usage := (usage s)(aid \<mapsto> new_tracker now)\<rparr>"

definition record_usage ::
  "nat \<Rightarrow> agent_scheduler \<Rightarrow> agent_id \<Rightarrow> token_usage \<Rightarrow> agent_scheduler" where
  "record_usage now s aid u =
     (case usage s aid of
        None \<Rightarrow> s
      | Some t \<Rightarrow>
          let t' = reset_if_expired now t
          in s\<lparr>usage := (usage s)(aid \<mapsto> t'\<lparr>used_tokens := used_tokens t' + total_tokens u\<rparr>)\<rparr>)"

definition check_quota ::
  "nat \<Rightarrow> agent_scheduler \<Rightarrow> agent_id \<Rightarrow> agent_scheduler \<times> (unit, quota_error) result" where
  "check_quota now s aid =
     (case quotas s aid of
        None \<Rightarrow> (s, Ok ())
      | Some q \<Rightarrow>
          (case usage s aid of
             None \<Rightarrow> (s, Ok ())
           | Some t \<Rightarrow>
               let t' = reset_if_expired now t; s' = s\<lparr>usage := (usage s)(aid \<mapsto> t')\<rparr>
               in if max_llm_tokens_per_hour q > 0 \<and> used_tokens t' > max_llm_tokens_per_hour q
                  then (s', Err (TokenLimitExceeded (used_tokens t') (max_llm_tokens_per_hour q)))
                  else (s', Ok ())))"

definition abort_task :: "agent_scheduler \<Rightarrow> agent_id \<Rightarrow> agent_scheduler \<times> nat option" where
  "abort_task s aid = (s\<lparr>tasks := (tasks s)(aid := None)\<rparr>, tasks s aid)"

definition unregister_quota :: "agent_scheduler \<Rightarrow> agent_id \<Rightarrow> agent_scheduler" where
  "unregister_quota s aid =
     (let s' = fst (abort_task s aid)
      in s'\<lparr>quotas := (quotas s')(aid := None), usage := (usage s')(aid := None)\<rparr>)"

definition get_usage :: "agent_scheduler \<Rightarrow> agent_id \<Rightarrow> (nat \<times> nat) option" where
  "get_usage s aid = map_option (\<lambda>t. (used_tokens t, tool_calls t)) (usage s aid)"

section \<open>Runs\<close>

datatype quota_event =
    UseTokens agent_id token_usage
  | AskQuota agent_id
  | AddAgent agent_id resource_quota
  | DropAgent agent_id

fun quota_step :: "agent_scheduler \<Rightarrow> nat \<times> quota_event \<Rightarrow> agent_scheduler" where
  "quota_step s (now, UseTokens a u) = record_usage now s a u"
| "quota_step s (now, AskQuota a) = fst (check_quota now s a)"
| "quota_step s (now, AddAgent a q) = register_quota now s a q"
| "quota_step s (now, DropAgent a) = unregister_quota s a"

definition quota_run :: "agent_scheduler \<Rightarrow> (nat \<times> quota_event) list \<Rightarrow> agent_scheduler" where
  "quota_run = foldl quota_step"

text \<open>The tokens agent \<open>a\<close> uses in a sequence of events.\<close>

fun tokens_of :: "agent_id \<Rightarrow> (nat \<times> quota_event) list \<Rightarrow> nat" where
  "tokens_of a [] = 0"
| "tokens_of a ((t, UseTokens b u) # es) = (if a = b then total_tokens u else 0) + tokens_of a es"
| "tokens_of a (_ # es) = tokens_of a es"

text \<open>A sequence in which \<open>a\<close> is neither added nor dropped, and which stays within an hour of \<open>t0\<close>.\<close>

fun quiet :: "agent_id \<Rightarrow> nat \<Rightarrow> (nat \<times> quota_event) list \<Rightarrow> bool" where
  "quiet a t0 [] = True"
| "quiet a t0 ((t, e) # es) =
     (t < t0 + 3600 \<and> (case e of AddAgent b _ \<Rightarrow> b \<noteq> a | DropAgent b \<Rightarrow> b \<noteq> a | _ \<Rightarrow> True) \<and> quiet a t0 es)"

definition window_at :: "agent_scheduler \<Rightarrow> agent_id \<Rightarrow> resource_quota \<Rightarrow> nat \<Rightarrow> nat \<Rightarrow> bool" where
  "window_at s a q t0 n \<longleftrightarrow>
     quotas s a = Some q \<and> usage s a = Some \<lparr>used_tokens = n, tool_calls = 0, window_start = t0\<rparr>"

lemma step_within:
  "window_at s a q t0 n \<Longrightarrow> quiet a t0 (e # es) \<Longrightarrow> window_at (quota_step s e) a q t0 (n + tokens_of a [e])"
  by (cases e; cases "snd e")
    (auto simp: window_at_def record_usage_def check_quota_def register_quota_def unregister_quota_def
      abort_task_def reset_if_expired_def Let_def split: option.split)

lemma run_within:
  "window_at s a q t0 n \<Longrightarrow> quiet a t0 es \<Longrightarrow> window_at (quota_run s es) a q t0 (n + tokens_of a es)"
proof (induction es arbitrary: s n)
  case Nil
  then show ?case by (simp add: quota_run_def)
next
  case (Cons e es)
  have tok: "tokens_of a (e # es) = tokens_of a [e] + tokens_of a es"
    by (cases e; cases "snd e") auto
  from Cons.prems(2) have "quiet a t0 es" by (cases e) simp
  from Cons.IH [OF step_within [OF Cons.prems] this] show ?case
    by (simp add: quota_run_def tok add.assoc)
qed

lemma check_within:
  "window_at s a q t0 n \<Longrightarrow> now < t0 + 3600 \<Longrightarrow>
   snd (check_quota now s a) =
     (if 0 < max_llm_tokens_per_hour q \<and> max_llm_tokens_per_hour q < n
      then Err (TokenLimitExceeded n (max_llm_tokens_per_hour q)) else Ok ())"
  by (auto simp: window_at_def check_quota_def reset_if_expired_def Let_def)

lemma within_register: "window_at (register_quota t0 s a q) a q t0 0"
  by (simp add: window_at_def register_quota_def new_tracker_def)

lemma check_expired:
  assumes "window_at s a q t0 n" "t0 + 3600 \<le> now"
  shows "snd (check_quota now s a) = Ok () \<and> usage (fst (check_quota now s a)) a = Some (new_tracker now)"
proof -
  have "3600 \<le> now - t0" using assms(2) by arith
  with assms show ?thesis
    by (simp add: window_at_def check_quota_def reset_if_expired_def new_tracker_def Let_def)
qed

text \<open>
  The hourly token quota is exact within a window: whatever other agents do, a check within an
  hour of the agent's registration fails exactly when the tokens recorded for it since then exceed
  its limit and the limit is not 0, and it reports both numbers; once the hour is over a check
  succeeds and starts a new window. The tool calls reported are always 0: no operation counts them.
\<close>

theorem quota_exact:
  assumes "quiet a t0 es"
  shows "(now < t0 + 3600 \<longrightarrow>
      snd (check_quota now (quota_run (register_quota t0 s a q) es) a) =
        (if 0 < max_llm_tokens_per_hour q \<and> max_llm_tokens_per_hour q < tokens_of a es
         then Err (TokenLimitExceeded (tokens_of a es) (max_llm_tokens_per_hour q)) else Ok ()))
    \<and> (now \<ge> t0 + 3600 \<longrightarrow>
        snd (check_quota now (quota_run (register_quota t0 s a q) es) a) = Ok ()
        \<and> usage (fst (check_quota now (quota_run (register_quota t0 s a q) es) a)) a = Some (new_tracker now))
    \<and> get_usage (quota_run (register_quota t0 s a q) es) a = Some (tokens_of a es, 0)"
proof -
  have w: "window_at (quota_run (register_quota t0 s a q) es) a q t0 (tokens_of a es)"
    using run_within [OF within_register assms] by simp
  show ?thesis
    using check_within [OF w] check_expired [OF w] w by (simp add: window_at_def get_usage_def)
qed

lemma quota_exact_witness:
  "snd (check_quota 3000 (quota_run (register_quota 10 new_scheduler 7 (default_quota\<lparr>max_llm_tokens_per_hour := 100\<rparr>))
     [(20, UseTokens 7 \<lparr>input_tokens = 60, output_tokens = 30\<rparr>), (30, AskQuota 8),
      (40, UseTokens 7 \<lparr>input_tokens = 11, output_tokens = 0\<rparr>)]) 7) = Err (TokenLimitExceeded 101 100)"
proof -
  have "quiet 7 10 [(20, UseTokens 7 \<lparr>input_tokens = 60, output_tokens = 30\<rparr>), (30, AskQuota 8),
      (40, UseTokens 7 \<lparr>input_tokens = 11, output_tokens = 0\<rparr>)]" by simp
  from quota_exact [OF this, of 3000 new_scheduler "default_quota\<lparr>max_llm_tokens_per_hour := 100\<rparr>"]
  show ?thesis by (simp add: total_tokens_def)
qed

end
