(* ===== verification/Event.thy ===== *)
theory Event
  imports Str_Utils Capability
begin

text \<open>
  Events, \<open>clawreform-types/src/event.rs\<close>, and their description for prompts (\<open>describe_event\<close> of
  \<open>clawreform-kernel/src/triggers.rs\<close>). How \<open>format!\<close> writes a Uuid, a float or a debug value is
  not under \<open>src/\<close>: the record \<open>format_env\<close> carries these functions.
\<close>

section \<open>Payloads\<close>

datatype message_role = FromUser | FromAgent | FromSystem | FromTool

datatype memory_operation = MemCreated | MemUpdated | MemDeleted

record 'j agent_msg =
  msg_content :: string
  msg_metadata :: "string \<rightharpoonup> 'j"
  msg_role :: message_role

record tool_output =
  tool_id :: string
  out_use_id :: string
  out_content :: string
  success :: bool
  execution_time_ms :: nat

record memory_delta =
  operation :: memory_operation
  key :: string
  delta_agent :: agent_id

datatype lifecycle_event =
    Spawned agent_id string
  | Started agent_id
  | SuspendedEv agent_id
  | Resumed agent_id
  | TerminatedEv agent_id string
  | CrashedEv agent_id string

datatype network_event =
    PeerConnected string
  | PeerDisconnected string
  | MessageReceived string string
  | DiscoveryResult string "string list"

datatype system_event =
    KernelStarted
  | KernelStopping
  | QuotaWarning agent_id string f64
  | HealthCheck string
  | QuotaEnforced agent_id f64 f64
  | ModelRouted agent_id string string
  | UserAction string string string
  | HealthCheckFailed agent_id nat

datatype 'j event_payload =
    AgentMsg "'j agent_msg"
  | ToolOut tool_output
  | MemoryUpdateEv memory_delta
  | LifecycleEv lifecycle_event
  | NetworkEv network_event
  | SystemEv system_event
  | Custom "8 word list"

datatype event_target = ToAgent agent_id | Broadcast | ToPattern string | ToSystem

record 'j event =
  event_id :: nat
  source :: agent_id
  target :: event_target
  payload :: "'j event_payload"
  event_time :: nat
  correlation_id :: "nat option"
  ttl_ms :: "nat option"

definition new_event :: "nat \<Rightarrow> nat \<Rightarrow> agent_id \<Rightarrow> event_target \<Rightarrow> 'j event_payload \<Rightarrow> 'j event" where
  "new_event fresh now src tgt p = \<lparr>event_id = fresh, source = src, target = tgt, payload = p,
     event_time = now, correlation_id = None, ttl_ms = None\<rparr>"

definition with_correlation :: "'j event \<Rightarrow> nat \<Rightarrow> 'j event" where
  "with_correlation e c = e\<lparr>correlation_id := Some c\<rparr>"

definition with_ttl :: "'j event \<Rightarrow> nat \<Rightarrow> 'j event" where
  "with_ttl e d = e\<lparr>ttl_ms := Some d\<rparr>"

section \<open>Descriptions\<close>

record format_env =
  show_uuid :: "nat \<Rightarrow> string"
  fixed1 :: "f64 \<Rightarrow> string"
  fixed4 :: "f64 \<Rightarrow> string"
  debug_network :: "network_event \<Rightarrow> string"
  debug_system :: "system_event \<Rightarrow> string"

fun show_role :: "message_role \<Rightarrow> string" where
  "show_role FromUser = ''User''"
| "show_role FromAgent = ''Agent''"
| "show_role FromSystem = ''System''"
| "show_role FromTool = ''Tool''"

fun show_operation :: "memory_operation \<Rightarrow> string" where
  "show_operation MemCreated = ''Created''"
| "show_operation MemUpdated = ''Updated''"
| "show_operation MemDeleted = ''Deleted''"

fun describe_lifecycle :: "format_env \<Rightarrow> lifecycle_event \<Rightarrow> string" where
  "describe_lifecycle env (Spawned a n) =
     ''Agent '' @ [CHR 0x27] @ n @ [CHR 0x27] @ '' (id: '' @ show_uuid env a @ '') was spawned''"
| "describe_lifecycle env (Started a) = ''Agent '' @ show_uuid env a @ '' started''"
| "describe_lifecycle env (SuspendedEv a) = ''Agent '' @ show_uuid env a @ '' suspended''"
| "describe_lifecycle env (Resumed a) = ''Agent '' @ show_uuid env a @ '' resumed''"
| "describe_lifecycle env (TerminatedEv a r) = ''Agent '' @ show_uuid env a @ '' terminated: '' @ r"
| "describe_lifecycle env (CrashedEv a e) = ''Agent '' @ show_uuid env a @ '' crashed: '' @ e"

fun describe_system :: "format_env \<Rightarrow> system_event \<Rightarrow> string" where
  "describe_system env KernelStarted = ''Kernel started''"
| "describe_system env KernelStopping = ''Kernel stopping''"
| "describe_system env (QuotaWarning a r p) =
     ''Quota warning: agent '' @ show_uuid env a @ '', '' @ r @ '' at '' @ fixed1 env p @ ''%''"
| "describe_system env (HealthCheck s) = ''Health check: '' @ s"
| "describe_system env (QuotaEnforced a sp li) =
     ''Quota enforced: agent '' @ show_uuid env a @ '', spent $'' @ fixed4 env sp @ '' / $'' @ fixed4 env li"
| "describe_system env (ModelRouted a c m) =
     ''Model routed: agent '' @ show_uuid env a @ '', complexity='' @ c @ '', model='' @ m"
| "describe_system env (UserAction u a r) = ''User action: '' @ u @ '' '' @ a @ '' -> '' @ r"
| "describe_system env (HealthCheckFailed a n) =
     ''Health check failed: agent '' @ show_uuid env a @ '', unresponsive for '' @ show_nat n @ ''s''"

text \<open>The tool result is cut with a byte slice, which panics inside a character.\<close>

definition describe_event :: "format_env \<Rightarrow> 'j event \<Rightarrow> (string, panic) result" where
  "describe_event env ev =
     (case payload ev of
        AgentMsg m \<Rightarrow> Ok (''Message from '' @ show_role (msg_role m) @ '': '' @ msg_content m)
      | ToolOut t \<Rightarrow>
          (case slice_to (out_content t) (min (length (out_content t)) 200) of
             Inl p \<Rightarrow> Err p
           | Inr shown \<Rightarrow>
               Ok (''Tool '' @ [CHR 0x27] @ tool_id t @ [CHR 0x27] @ '' ''
                   @ (if success t then ''succeeded'' else ''failed'') @ '' (''
                   @ show_nat (execution_time_ms t) @ ''ms): '' @ shown))
      | MemoryUpdateEv d \<Rightarrow>
          Ok (''Memory '' @ show_operation (operation d) @ '' on key '' @ [CHR 0x27] @ key d @ [CHR 0x27]
              @ '' for agent '' @ show_uuid env (delta_agent d))
      | LifecycleEv le \<Rightarrow> Ok (describe_lifecycle env le)
      | NetworkEv ne \<Rightarrow> Ok (''Network event: '' @ debug_network env ne)
      | SystemEv se \<Rightarrow> Ok (describe_system env se)
      | Custom bs \<Rightarrow> Ok (''Custom event ('' @ show_nat (length bs) @ '' bytes)''))"

lemma describe_event_ok:
  "is_ok (describe_event env ev) \<longleftrightarrow>
     (\<forall>t. payload ev = ToolOut t \<longrightarrow> 200 < length (out_content t) \<longrightarrow> is_char_boundary (out_content t) 200)"
proof (cases "payload ev")
  case (ToolOut t)
  show ?thesis
  proof (cases "200 < length (out_content t)")
    case True
    then show ?thesis by (simp add: describe_event_def slice_to_def ToolOut min_def)
  next
    case False
    then show ?thesis
      by (simp add: describe_event_def slice_to_def ToolOut min_def is_char_boundary_def)
  qed
qed (auto simp: describe_event_def)

end
