(* ===== verification/Triggers.thy ===== *)
theory Triggers
  imports Event
begin

text \<open>
  The trigger engine, \<open>clawreform-kernel/src/triggers.rs\<close>: triggers registered by agents, their
  evaluation against an event and the limit on how often one fires; and the parser of proactive
  conditions of \<open>clawreform-kernel/src/background.rs\<close>, which registers them.
\<close>

section \<open>Patterns\<close>

datatype trigger_pattern =
    OnLifecycle
  | OnAgentSpawned string
  | OnAgentTerminated
  | OnSystem
  | OnSystemKeyword string
  | OnMemoryUpdate
  | OnMemoryKey string
  | OnAll
  | OnContent string

definition event_matches :: "format_env \<Rightarrow> trigger_pattern \<Rightarrow> 'j event \<Rightarrow> string \<Rightarrow> bool" where
  "event_matches env p ev desc =
     (case p of
        OnAll \<Rightarrow> True
      | OnLifecycle \<Rightarrow> (case payload ev of LifecycleEv _ \<Rightarrow> True | _ \<Rightarrow> False)
      | OnAgentSpawned np \<Rightarrow>
          (case payload ev of
             LifecycleEv (Spawned _ n) \<Rightarrow> contains_str n np \<or> np = ''*''
           | _ \<Rightarrow> False)
      | OnAgentTerminated \<Rightarrow>
          (case payload ev of
             LifecycleEv (TerminatedEv _ _) \<Rightarrow> True
           | LifecycleEv (CrashedEv _ _) \<Rightarrow> True
           | _ \<Rightarrow> False)
      | OnSystem \<Rightarrow> (case payload ev of SystemEv _ \<Rightarrow> True | _ \<Rightarrow> False)
      | OnSystemKeyword kw \<Rightarrow>
          (case payload ev of
             SystemEv se \<Rightarrow> contains_str (to_lowercase (debug_system env se)) (to_lowercase kw)
           | _ \<Rightarrow> False)
      | OnMemoryUpdate \<Rightarrow> (case payload ev of MemoryUpdateEv _ \<Rightarrow> True | _ \<Rightarrow> False)
      | OnMemoryKey kp \<Rightarrow>
          (case payload ev of
             MemoryUpdateEv d \<Rightarrow> contains_str (key d) kp \<or> kp = ''*''
           | _ \<Rightarrow> False)
      | OnContent sub \<Rightarrow> contains_str (to_lowercase desc) (to_lowercase sub))"

section \<open>The engine\<close>

type_synonym trigger_id = nat

record trigger =
  trigger_id :: trigger_id
  owner :: agent_id
  on :: trigger_pattern
  prompt_template :: string
  enabled :: bool
  trigger_created :: nat
  fire_count :: nat
  max_fires :: nat

record trigger_engine =
  triggers :: "trigger_id \<rightharpoonup> trigger"
  agent_triggers :: "agent_id \<rightharpoonup> trigger_id list"

definition new_engine :: trigger_engine where
  "new_engine = \<lparr>triggers = Map.empty, agent_triggers = Map.empty\<rparr>"

text \<open>\<open>fresh\<close> is the Uuid drawn for the new trigger.\<close>

definition register_trigger ::
  "trigger_id \<Rightarrow> nat \<Rightarrow> trigger_engine \<Rightarrow> agent_id \<Rightarrow> trigger_pattern \<Rightarrow> string \<Rightarrow> nat
   \<Rightarrow> trigger_engine \<times> trigger_id" where
  "register_trigger fresh now eng aid p template limit =
     (let t = \<lparr>trigger_id = fresh, owner = aid, on = p, prompt_template = template, enabled = True,
               trigger_created = now, fire_count = 0, max_fires = limit\<rparr>;
          ids = (case agent_triggers eng aid of None \<Rightarrow> [] | Some ids \<Rightarrow> ids)
      in (eng\<lparr>triggers := (triggers eng)(fresh \<mapsto> t),
              agent_triggers := (agent_triggers eng)(aid \<mapsto> ids @ [fresh])\<rparr>, fresh))"

definition remove_trigger :: "trigger_engine \<Rightarrow> trigger_id \<Rightarrow> trigger_engine \<times> bool" where
  "remove_trigger eng tid =
     (case triggers eng tid of
        None \<Rightarrow> (eng, False)
      | Some t \<Rightarrow>
          (eng\<lparr>triggers := (triggers eng)(tid := None),
               agent_triggers :=
                 (case agent_triggers eng (owner t) of
                    None \<Rightarrow> agent_triggers eng
                  | Some ids \<Rightarrow> (agent_triggers eng)(owner t \<mapsto> filter (\<lambda>i. i \<noteq> tid) ids))\<rparr>, True))"

definition remove_agent_triggers :: "trigger_engine \<Rightarrow> agent_id \<Rightarrow> trigger_engine" where
  "remove_agent_triggers eng aid =
     (case agent_triggers eng aid of
        None \<Rightarrow> eng
      | Some ids \<Rightarrow>
          eng\<lparr>agent_triggers := (agent_triggers eng)(aid := None),
              triggers := fold (\<lambda>i m. m(i := None)) ids (triggers eng)\<rparr>)"

definition set_enabled :: "trigger_engine \<Rightarrow> trigger_id \<Rightarrow> bool \<Rightarrow> trigger_engine \<times> bool" where
  "set_enabled eng tid b =
     (case triggers eng tid of
        None \<Rightarrow> (eng, False)
      | Some t \<Rightarrow> (eng\<lparr>triggers := (triggers eng)(tid \<mapsto> t\<lparr>enabled := b\<rparr>)\<rparr>, True))"

definition list_agent_triggers :: "trigger_engine \<Rightarrow> agent_id \<Rightarrow> trigger list" where
  "list_agent_triggers eng aid =
     (case agent_triggers eng aid of
        None \<Rightarrow> []
      | Some ids \<Rightarrow> List.map_filter (triggers eng) ids)"

definition list_all_triggers :: "trigger_engine \<Rightarrow> trigger set" where
  "list_all_triggers eng = ran (triggers eng)"

definition get_trigger :: "trigger_engine \<Rightarrow> trigger_id \<Rightarrow> trigger option" where
  "get_trigger eng tid = triggers eng tid"

section \<open>Evaluation\<close>

text \<open>One round of the loop: what becomes of a trigger and the message it sends, if any.\<close>

definition visit ::
  "format_env \<Rightarrow> 'j event \<Rightarrow> string \<Rightarrow> trigger \<Rightarrow> trigger \<times> (agent_id \<times> string) option" where
  "visit env ev desc t =
     (if \<not> enabled t then (t, None)
      else if max_fires t > 0 \<and> fire_count t \<ge> max_fires t then (t\<lparr>enabled := False\<rparr>, None)
      else if event_matches env (on t) ev desc
        then (t\<lparr>fire_count := fire_count t + 1\<rparr>,
              Some (owner t, str_replace ''{{event}}'' desc (prompt_template t)))
        else (t, None))"

text \<open>The order in which the concurrent map is visited is the list \<open>order\<close>.\<close>

fun evaluate_loop ::
  "format_env \<Rightarrow> 'j event \<Rightarrow> string \<Rightarrow> trigger_id list \<Rightarrow> trigger_engine
   \<Rightarrow> trigger_engine \<times> (agent_id \<times> string) list" where
  "evaluate_loop env ev desc [] eng = (eng, [])"
| "evaluate_loop env ev desc (i # ids) eng =
     (case triggers eng i of
        None \<Rightarrow> evaluate_loop env ev desc ids eng
      | Some t \<Rightarrow>
          (let (t', fired) = visit env ev desc t;
               (eng', ms) = evaluate_loop env ev desc ids (eng\<lparr>triggers := (triggers eng)(i \<mapsto> t')\<rparr>)
           in (eng', (case fired of None \<Rightarrow> ms | Some m \<Rightarrow> m # ms))))"

definition evaluate ::
  "format_env \<Rightarrow> trigger_id list \<Rightarrow> 'j event \<Rightarrow> trigger_engine
   \<Rightarrow> (trigger_engine \<times> (agent_id \<times> string) list, panic) result" where
  "evaluate env order ev eng =
     (case describe_event env ev of
        Inl p \<Rightarrow> Err p
      | Inr desc \<Rightarrow> Ok (evaluate_loop env ev desc order eng))"

definition visits :: "trigger_id list \<Rightarrow> trigger_engine \<Rightarrow> bool" where
  "visits order eng \<longleftrightarrow> distinct order \<and> set order = dom (triggers eng)"

section \<open>Proactive conditions\<close>

definition parse_condition :: "string \<Rightarrow> trigger_pattern option" where
  "parse_condition condition =
     (let c = trim condition
      in if map ascii_lower c = ''all'' then Some OnAll
         else case strip_prefix ''event:'' c of
           Some event_kind \<Rightarrow>
             (let kind = to_lowercase (trim event_kind)
              in if kind = ''agent_spawned'' then Some (OnAgentSpawned ''*'')
                 else if kind = ''agent_terminated'' then Some OnAgentTerminated
                 else if kind = ''lifecycle'' then Some OnLifecycle
                 else if kind = ''system'' then Some OnSystem
                 else if kind = ''memory_update'' then Some OnMemoryUpdate
                 else None)
         | None \<Rightarrow>
             (case strip_prefix ''memory:'' c of
                Some k \<Rightarrow> Some (OnMemoryKey (trim k))
              | None \<Rightarrow> None))"

section \<open>Facts about evaluation\<close>

lemma evaluate_loop_triggers:
  "distinct ids \<Longrightarrow>
   triggers (fst (evaluate_loop env ev desc ids eng)) i =
     (if i \<in> set ids then map_option (\<lambda>t. fst (visit env ev desc t)) (triggers eng i) else triggers eng i)"
proof (induction ids arbitrary: eng)
  case (Cons j js)
  show ?case
  proof (cases "triggers eng j")
    case None
    with Cons show ?thesis by auto
  next
    case (Some t)
    obtain t' fired where v: "visit env ev desc t = (t', fired)" by (cases "visit env ev desc t")
    let ?eng' = "eng\<lparr>triggers := (triggers eng)(j \<mapsto> t')\<rparr>"
    have "triggers (fst (evaluate_loop env ev desc (j # js) eng)) i =
        triggers (fst (evaluate_loop env ev desc js ?eng')) i"
      using Some v by (simp add: case_prod_beta)
    then show ?thesis using Cons.IH [of ?eng'] Cons.prems Some v by auto
  qed
qed simp

lemma map_filter_agree:
  "(\<And>x. x \<in> set xs \<Longrightarrow> f x = g x) \<Longrightarrow> List.map_filter f xs = List.map_filter g xs"
  by (induction xs) (auto simp: List.map_filter_simps split: option.split)

lemma evaluate_loop_messages:
  "distinct ids \<Longrightarrow>
   snd (evaluate_loop env ev desc ids eng) =
     List.map_filter (\<lambda>i. Option.bind (triggers eng i) (\<lambda>t. snd (visit env ev desc t))) ids"
proof (induction ids arbitrary: eng)
  case (Cons j js)
  show ?case
  proof (cases "triggers eng j")
    case None
    with Cons show ?thesis by (simp add: List.map_filter_simps)
  next
    case (Some t)
    obtain t' fired where v: "visit env ev desc t = (t', fired)" by (cases "visit env ev desc t")
    define eng' where "eng' = eng\<lparr>triggers := (triggers eng)(j \<mapsto> t')\<rparr>"
    have "List.map_filter (\<lambda>i. Option.bind (triggers eng' i) (\<lambda>t. snd (visit env ev desc t))) js =
        List.map_filter (\<lambda>i. Option.bind (triggers eng i) (\<lambda>t. snd (visit env ev desc t))) js"
      using Cons.prems by (intro map_filter_agree) (auto simp: eng'_def)
    moreover have "snd (evaluate_loop env ev desc (j # js) eng) =
        (case fired of None \<Rightarrow> [] | Some m \<Rightarrow> [m]) @ snd (evaluate_loop env ev desc js eng')"
      using Some v by (simp add: eng'_def case_prod_beta split: option.split)
    ultimately show ?thesis using Some v Cons.IH [of eng'] Cons.prems
      by (simp add: List.map_filter_simps split: option.split)
  qed
qed (simp add: List.map_filter_simps)

lemma evaluate_loop_index [simp]:
  "agent_triggers (fst (evaluate_loop env ev desc ids eng)) = agent_triggers eng"
  by (induction ids arbitrary: eng) (simp_all add: case_prod_beta split: option.split)

section \<open>The index of triggers by agent\<close>

definition ids_of :: "trigger_engine \<Rightarrow> agent_id \<Rightarrow> trigger_id list" where
  "ids_of eng aid = (case agent_triggers eng aid of None \<Rightarrow> [] | Some ids \<Rightarrow> ids)"

definition engine_ok :: "trigger_engine \<Rightarrow> bool" where
  "engine_ok eng \<longleftrightarrow>
     (\<forall>aid i. i \<in> set (ids_of eng aid) \<longleftrightarrow> (\<exists>t. triggers eng i = Some t \<and> owner t = aid))
     \<and> (\<forall>i t. triggers eng i = Some t \<longrightarrow>
          trigger_id t = i \<and> (0 < max_fires t \<longrightarrow> fire_count t \<le> max_fires t))"

lemma engine_okD:
  assumes "engine_ok eng"
  shows "i \<in> set (ids_of eng aid) \<longleftrightarrow> (\<exists>t. triggers eng i = Some t \<and> owner t = aid)"
    and "triggers eng i = Some t \<Longrightarrow> trigger_id t = i"
    and "triggers eng i = Some t \<Longrightarrow> 0 < max_fires t \<Longrightarrow> fire_count t \<le> max_fires t"
  using assms by (auto simp: engine_ok_def)

lemma engine_ok_new: "engine_ok new_engine"
  by (simp add: engine_ok_def new_engine_def ids_of_def)

lemma engine_ok_register:
  "engine_ok eng \<Longrightarrow> triggers eng fresh = None \<Longrightarrow>
   engine_ok (fst (register_trigger fresh now eng aid p template limit))"
  by (auto simp: engine_ok_def register_trigger_def ids_of_def Let_def split: option.splits)

lemma engine_ok_remove: "engine_ok eng \<Longrightarrow> engine_ok (fst (remove_trigger eng tid))"
proof (cases "triggers eng tid")
  case (Some t)
  assume ok: "engine_ok eng"
  have "ids_of (fst (remove_trigger eng tid)) aid =
      (if aid = owner t then filter (\<lambda>i. i \<noteq> tid) (ids_of eng aid) else ids_of eng aid)" for aid
    using Some by (simp add: remove_trigger_def ids_of_def split: option.split)
  moreover have "triggers (fst (remove_trigger eng tid)) = (triggers eng)(tid := None)"
    using Some by (simp add: remove_trigger_def)
  ultimately show ?thesis using ok Some unfolding engine_ok_def by auto
qed (simp add: remove_trigger_def)

lemma fold_delete: "fold (\<lambda>i m. m(i := None)) ids m = m |` (- set ids)"
  by (induction ids arbitrary: m) (auto simp: restrict_map_def fun_eq_iff)

lemma remove_agent_triggers_triggers:
  "triggers (remove_agent_triggers eng aid) = triggers eng |` (- set (ids_of eng aid))"
  by (auto simp: remove_agent_triggers_def ids_of_def fold_delete split: option.split)

lemma remove_agent_triggers_ids:
  "ids_of (remove_agent_triggers eng aid) b = (if b = aid then [] else ids_of eng b)"
  by (auto simp: remove_agent_triggers_def ids_of_def split: option.split)

lemma engine_ok_remove_agent: "engine_ok eng \<Longrightarrow> engine_ok (remove_agent_triggers eng aid)"
  unfolding engine_ok_def remove_agent_triggers_triggers remove_agent_triggers_ids
  by (auto simp: restrict_map_def)

lemma engine_ok_set_enabled: "engine_ok eng \<Longrightarrow> engine_ok (fst (set_enabled eng tid b))"
  by (auto simp: engine_ok_def set_enabled_def ids_of_def split: option.split)

lemma visit_facts:
  "owner (fst (visit env ev desc t)) = owner t"
  "trigger_id (fst (visit env ev desc t)) = trigger_id t"
  "max_fires (fst (visit env ev desc t)) = max_fires t"
  "fire_count (fst (visit env ev desc t)) =
     fire_count t + (if snd (visit env ev desc t) = None then 0 else 1)"
  "snd (visit env ev desc t) \<noteq> None \<Longrightarrow>
     enabled t \<and> (0 < max_fires t \<longrightarrow> fire_count t < max_fires t) \<and> event_matches env (on t) ev desc"
  by (auto simp: visit_def split: if_splits)

lemma engine_ok_evaluate:
  assumes "engine_ok eng" "visits order eng"
  shows "engine_ok (fst (evaluate_loop env ev desc order eng))"
proof -
  let ?eng' = "fst (evaluate_loop env ev desc order eng)"
  have tr: "triggers ?eng' i = map_option (\<lambda>t. fst (visit env ev desc t)) (triggers eng i)" for i
    using assms(2) by (auto simp: evaluate_loop_triggers visits_def domIff)
  have ids: "ids_of ?eng' aid = ids_of eng aid" for aid by (simp add: ids_of_def)
  show ?thesis
    unfolding engine_ok_def
  proof (intro conjI allI impI)
    fix aid i
    show "i \<in> set (ids_of ?eng' aid) \<longleftrightarrow> (\<exists>t. triggers ?eng' i = Some t \<and> owner t = aid)"
      using engine_okD(1) [OF assms(1)] by (auto simp: ids tr visit_facts(1-4))
  next
    fix i t assume "triggers ?eng' i = Some t"
    then obtain u where u: "triggers eng i = Some u" "t = fst (visit env ev desc u)" by (auto simp: tr)
    then show "trigger_id t = i" using engine_okD(2) [OF assms(1) u(1)] by (simp add: visit_facts(1-4))
    show "fire_count t \<le> max_fires t" if "0 < max_fires t"
    proof -
      have "0 < max_fires u" using that u(2) by (simp add: visit_facts(1-4))
      then show ?thesis
        using engine_okD(3) [OF assms(1) u(1)] u(2) visit_facts(5) [of env ev desc u]
        by (cases "snd (visit env ev desc u)") (auto simp: visit_facts(3,4))
    qed
  qed
qed

section \<open>Reachable engines\<close>

inductive engine_step :: "trigger_engine \<Rightarrow> trigger_engine \<Rightarrow> bool" where
  step_register: "triggers eng fresh = None \<Longrightarrow>
     engine_step eng (fst (register_trigger fresh now eng aid p template limit))"
| step_remove: "engine_step eng (fst (remove_trigger eng tid))"
| step_remove_agent: "engine_step eng (remove_agent_triggers eng aid)"
| step_enable: "engine_step eng (fst (set_enabled eng tid b))"
| step_evaluate: "visits order eng \<Longrightarrow> evaluate env order (ev :: unit event) eng = Ok (eng', ms) \<Longrightarrow>
     engine_step eng eng'"

inductive_cases engine_stepE: "engine_step eng eng'"

lemma evaluate_Ok:
  "evaluate env order ev eng = Ok (eng', ms) \<Longrightarrow>
   \<exists>desc. describe_event env ev = Ok desc \<and> evaluate_loop env ev desc order eng = (eng', ms)"
  by (auto simp: evaluate_def split: sum.splits)

lemma engine_step_ok: "engine_step eng eng' \<Longrightarrow> engine_ok eng \<Longrightarrow> engine_ok eng'"
  by (induction rule: engine_step.induct)
    (auto intro: engine_ok_register engine_ok_remove engine_ok_remove_agent engine_ok_set_enabled
      dest!: evaluate_Ok dest: engine_ok_evaluate simp del: evaluate_loop.simps,
     metis engine_ok_evaluate fst_conv)

lemma engine_reachable_ok: "engine_step\<^sup>*\<^sup>* new_engine eng \<Longrightarrow> engine_ok eng"
  by (induction rule: rtranclp_induct) (auto intro: engine_ok_new engine_step_ok)

lemma listed_triggers:
  assumes ok: "engine_ok eng"
  shows "set (list_agent_triggers eng aid) = {t \<in> list_all_triggers eng. owner t = aid}"
proof -
  have "list_agent_triggers eng aid = List.map_filter (triggers eng) (ids_of eng aid)"
    by (simp add: list_agent_triggers_def ids_of_def List.map_filter_simps split: option.split)
  then have "set (list_agent_triggers eng aid) = {t. \<exists>i \<in> set (ids_of eng aid). triggers eng i = Some t}"
    by (force simp: List.map_filter_def)
  then show ?thesis
    using engine_okD(1) [OF ok] unfolding list_all_triggers_def ran_def by auto
qed

lemma owned_triggers:
  assumes ok: "engine_ok eng"
  shows "list_all_triggers (remove_agent_triggers eng aid) = {t \<in> list_all_triggers eng. owner t \<noteq> aid}"
  using engine_okD(1,2) [OF ok]
  unfolding list_all_triggers_def remove_agent_triggers_triggers ran_def restrict_map_def
  by (auto split: if_splits)

text \<open>
  In every reachable engine the triggers listed for an agent are exactly the registered triggers
  it owns, and removing the triggers of an agent (as killing it does) removes these and no others.
\<close>

theorem agent_triggers_exact:
  assumes "engine_step\<^sup>*\<^sup>* new_engine eng"
  shows "set (list_agent_triggers eng aid) = {t \<in> list_all_triggers eng. owner t = aid}
    \<and> list_all_triggers (remove_agent_triggers eng aid) = {t \<in> list_all_triggers eng. owner t \<noteq> aid}"
  using listed_triggers owned_triggers engine_reachable_ok [OF assms] by blast

definition fires :: "format_env \<Rightarrow> 'j event \<Rightarrow> string \<Rightarrow> trigger \<Rightarrow> bool" where
  "fires env ev desc t \<longleftrightarrow>
     enabled t \<and> (max_fires t = 0 \<or> fire_count t < max_fires t) \<and> event_matches env (on t) ev desc"

definition message_for :: "string \<Rightarrow> trigger \<Rightarrow> agent_id \<times> string" where
  "message_for desc t = (owner t, str_replace ''{{event}}'' desc (prompt_template t))"

lemma visit_fires:
  "snd (visit env ev desc t) = (if fires env ev desc t then Some (message_for desc t) else None)"
  by (auto simp: visit_def fires_def message_for_def)

text \<open>
  Evaluating an event in a reachable engine messages exactly the owners of the triggers that are
  enabled, have not used up their limit and match the event, once each and with the event written
  into the template; it counts one more firing for these and none for others, and no count ever
  passes a limit that is set.
\<close>

theorem evaluate_fires_exactly:
  assumes "engine_step\<^sup>*\<^sup>* new_engine eng" and "visits order eng"
    and "describe_event env ev = Ok desc" and "evaluate env order ev eng = Ok (eng', ms)"
  shows "ms = map (message_for desc) (filter (fires env ev desc) (map (the \<circ> triggers eng) order))
    \<and> (\<forall>i t. get_trigger eng i = Some t \<longrightarrow>
         (\<exists>t'. get_trigger eng' i = Some t'
            \<and> fire_count t' = fire_count t + (if fires env ev desc t then 1 else 0)
            \<and> (0 < max_fires t \<longrightarrow> fire_count t' \<le> max_fires t)))"
proof -
  have ok: "engine_ok eng" using assms(1) by (rule engine_reachable_ok)
  have run: "evaluate_loop env ev desc order eng = (eng', ms)"
    using assms(3,4) by (simp add: evaluate_def)
  have dist: "distinct order" and ord: "set order = dom (triggers eng)" using assms(2) by (auto simp: visits_def)
  have ms: "ms = List.map_filter (\<lambda>i. Option.bind (triggers eng i) (\<lambda>t. snd (visit env ev desc t))) order"
    using evaluate_loop_messages [OF dist, of env ev desc eng] run by simp
  have "List.map_filter (\<lambda>i. Option.bind (triggers eng i) (\<lambda>t. snd (visit env ev desc t))) is =
      map (message_for desc) (filter (fires env ev desc) (map (the \<circ> triggers eng) is))"
    if "set is \<subseteq> dom (triggers eng)" for "is"
    using that by (induction "is") (auto simp: List.map_filter_simps visit_fires)
  with ms ord have "ms = map (message_for desc) (filter (fires env ev desc) (map (the \<circ> triggers eng) order))"
    by simp
  moreover have "\<exists>t'. get_trigger eng' i = Some t'
      \<and> fire_count t' = fire_count t + (if fires env ev desc t then 1 else 0)
      \<and> (0 < max_fires t \<longrightarrow> fire_count t' \<le> max_fires t)" if "get_trigger eng i = Some t" for i t
  proof -
    have t: "triggers eng i = Some t" using that by (simp add: get_trigger_def)
    then have "triggers eng' i = Some (fst (visit env ev desc t))"
      using evaluate_loop_triggers [OF dist, of env ev desc eng i] run ord by auto
    moreover have "fire_count t \<le> max_fires t" if "0 < max_fires t"
      using engine_okD(3) [OF ok t that] .
    ultimately show ?thesis
      by (auto simp: get_trigger_def visit_facts(3,4) visit_fires fires_def)
  qed
  ultimately show ?thesis by blast
qed

definition sample_engine :: trigger_engine where
  "sample_engine =
     fst (register_trigger 2 0 (fst (register_trigger 1 0 new_engine 7 OnLifecycle ''saw {{event}}!'' 1))
       8 OnSystem ''sys'' 0)"

definition plain_env :: format_env where
  "plain_env = \<lparr>show_uuid = show_nat, fixed1 = (\<lambda>_. ''0''), fixed4 = (\<lambda>_. ''0''),
     debug_network = (\<lambda>_. ''net''), debug_system = (\<lambda>_. ''sys'')\<rparr>"

lemma sample_engine_reachable: "engine_step\<^sup>*\<^sup>* new_engine sample_engine"
proof -
  have "engine_step new_engine (fst (register_trigger 1 0 new_engine 7 OnLifecycle ''saw {{event}}!'' 1))"
    by (rule step_register) (simp add: new_engine_def)
  moreover have "engine_step \<dots> sample_engine" unfolding sample_engine_def
    by (rule step_register) (simp add: new_engine_def register_trigger_def Let_def)
  ultimately show ?thesis by (meson rtranclp.rtrancl_refl rtranclp.rtrancl_into_rtrancl)
qed

lemma sample_engine_eval:
  "triggers sample_engine =
     [1 \<mapsto> \<lparr>trigger_id = 1, owner = 7, on = OnLifecycle, prompt_template = ''saw {{event}}!'',
           enabled = True, trigger_created = 0, fire_count = 0, max_fires = 1\<rparr>,
      2 \<mapsto> \<lparr>trigger_id = 2, owner = 8, on = OnSystem, prompt_template = ''sys'',
           enabled = True, trigger_created = 0, fire_count = 0, max_fires = 0\<rparr>]"
  by (simp add: sample_engine_def register_trigger_def new_engine_def Let_def fun_eq_iff)

lemma ran_two: "i \<noteq> j \<Longrightarrow> ran [i \<mapsto> a, j \<mapsto> b] = {a, b}"
  by (auto simp: ran_def split: if_splits)

lemma agent_triggers_exact_witness:
  "list_all_triggers (remove_agent_triggers sample_engine 7) = {the (triggers sample_engine 2)}"
proof -
  have "list_all_triggers sample_engine = {the (triggers sample_engine 1), the (triggers sample_engine 2)}"
    unfolding list_all_triggers_def sample_engine_eval by (subst ran_two) simp_all
  moreover have "owner (the (triggers sample_engine 1)) = 7" "owner (the (triggers sample_engine 2)) = 8"
    by (simp_all add: sample_engine_eval)
  ultimately show ?thesis using agent_triggers_exact [OF sample_engine_reachable, of 7] by auto
qed

definition sample_event :: "unit event" where
  "sample_event = new_event 9 0 3 Broadcast (LifecycleEv (Started 3))"

lemma evaluate_fires_exactly_witness:
  "map_sum id snd (evaluate plain_env [2, 1] sample_event sample_engine) = Ok [(7, ''saw Agent 3 started!'')]"
proof -
  have three: "show_nat 3 = ''3''" by code_simp
  have desc: "describe_event plain_env sample_event = Ok ''Agent 3 started''"
    by (simp add: describe_event_def sample_event_def new_event_def plain_env_def three)
  moreover obtain eng' ms where run: "evaluate plain_env [2, 1] sample_event sample_engine = Ok (eng', ms)"
    by (cases "evaluate_loop plain_env sample_event ''Agent 3 started'' [2, 1] sample_engine")
      (simp add: evaluate_def desc del: evaluate_loop.simps)
  moreover have "visits [2, 1] sample_engine" by (auto simp: visits_def sample_engine_eval)
  ultimately have "ms = map (message_for ''Agent 3 started'') (filter (fires plain_env sample_event ''Agent 3 started'')
      (map (the \<circ> triggers sample_engine) [2, 1]))"
    using evaluate_fires_exactly [OF sample_engine_reachable] by blast
  then have "ms = [(7, str_replace ''{{event}}'' ''Agent 3 started'' ''saw {{event}}!'')]"
    by (simp add: sample_engine_eval fires_def message_for_def event_matches_def sample_event_def new_event_def)
  moreover have "str_replace ''{{event}}'' ''Agent 3 started'' ''saw {{event}}!'' = ''saw Agent 3 started!''"
    by code_simp
  ultimately show ?thesis using run by simp
qed

end
