(* ===== verification/Mcp.thy ===== *)
theory Mcp
  imports Str_Utils
begin

text \<open>
  Names of MCP tools: the namespacing helpers of \<open>clawreform-runtime/src/mcp.rs\<close> and how
  \<open>execute_tool\<close> of \<open>clawreform-runtime/src/tool_runner.rs\<close> picks the server of a tool by its name.
  The connection itself is not modelled; a connection is the configured name of its server.
\<close>

definition normalize_name :: "string \<Rightarrow> string" where
  "normalize_name n = str_replace ''-'' ''_'' (to_lowercase n)"

definition format_mcp_tool_name :: "string \<Rightarrow> string \<Rightarrow> string" where
  "format_mcp_tool_name server tool = ''mcp_'' @ normalize_name server @ ''_'' @ normalize_name tool"

definition is_mcp_tool :: "string \<Rightarrow> bool" where
  "is_mcp_tool n = starts_with n ''mcp_''"

definition extract_mcp_server :: "string \<Rightarrow> string option" where
  "extract_mcp_server tool_name =
     (if \<not> starts_with tool_name ''mcp_'' then None
      else let rest = drop 4 tool_name
           in map_option (\<lambda>pos. take pos rest) (str_find (CHR ''_'') rest))"

definition strip_mcp_prefix :: "string \<Rightarrow> string \<Rightarrow> string option" where
  "strip_mcp_prefix server tool_name = strip_prefix (''mcp_'' @ normalize_name server @ ''_'') tool_name"

datatype mcp_dispatch =
    ToServer string string
  | NotConnected string
  | InvalidMcpName string
  | McpNotAvailable string

text \<open>
  The dispatch of a tool call: the first connection whose configured name is the extracted server
  gets the call, with the raw tool name that \<open>McpConnection::call_tool\<close> sends.
\<close>

definition dispatch_mcp :: "string list option \<Rightarrow> string \<Rightarrow> mcp_dispatch" where
  "dispatch_mcp conns tool_name =
     (case conns of
        None \<Rightarrow> McpNotAvailable tool_name
      | Some cs \<Rightarrow>
          (case extract_mcp_server tool_name of
             None \<Rightarrow> InvalidMcpName tool_name
           | Some server_name \<Rightarrow>
               (case find (\<lambda>c. c = server_name) cs of
                  None \<Rightarrow> NotConnected server_name
                | Some c \<Rightarrow>
                    ToServer c (case strip_mcp_prefix c tool_name of None \<Rightarrow> tool_name | Some r \<Rightarrow> r))))"

lemma replace_hyphen: "str_replace ''-'' ''_'' s = map (\<lambda>c. if c = CHR ''-'' then CHR ''_'' else c) s"
proof (induction s)
  case (Cons a s)
  then show ?case by (cases "a = CHR ''-''") auto
qed simp

lemma ascii_lower_punctuation:
  "ascii_lower c = CHR ''_'' \<Longrightarrow> c = CHR ''_''" "ascii_lower c = CHR ''-'' \<Longrightarrow> c = CHR ''-''"
proof -
  have "ascii_lower c = c \<or> (97 \<le> (of_char (ascii_lower c) :: nat) \<and> (of_char (ascii_lower c) :: nat) \<le> 122)"
    by (auto simp: ascii_lower_def Let_def)
  then show "ascii_lower c = CHR ''_'' \<Longrightarrow> c = CHR ''_''" "ascii_lower c = CHR ''-'' \<Longrightarrow> c = CHR ''-''"
    by (auto simp: of_char_def)
qed

lemma lowercase_punctuation:
  "CHR ''_'' \<in> set (to_lowercase s) \<Longrightarrow> CHR ''_'' \<in> set s"
  "CHR ''-'' \<in> set (to_lowercase s) \<Longrightarrow> CHR ''-'' \<in> set s"
  by (induction s rule: to_lowercase.induct)
    (auto split: if_splits dest: in_set_dropD ascii_lower_punctuation [OF sym])

lemma str_find_append:
  "str_find c (u @ c # v) = Some (length (takeWhile (\<lambda>x. x \<noteq> c) u))"
  by (induction u) auto

lemma extract_formatted:
  "extract_mcp_server (format_mcp_tool_name server tool) =
     Some (takeWhile (\<lambda>c. c \<noteq> CHR ''_'') (normalize_name server))"
proof -
  let ?n = "normalize_name server"
  have "drop 4 (format_mcp_tool_name server tool) = ?n @ CHR ''_'' # normalize_name tool"
    by (simp add: format_mcp_tool_name_def)
  moreover have "take (length (takeWhile P u)) (u @ v) = takeWhile P u" for P and u v :: string
    by (induction u) auto
  moreover have "starts_with (format_mcp_tool_name server tool) ''mcp_''"
    by (simp add: starts_with_def format_mcp_tool_name_def)
  ultimately show ?thesis
    by (simp add: extract_mcp_server_def str_find_append Let_def)
qed

lemma takeWhile_eq_iff: "takeWhile (\<lambda>c. c \<noteq> x) u = u \<longleftrightarrow> x \<notin> set u"
  by (induction u) auto

text \<open>
  Namespacing loses nothing but the dispatch does not invert it. Stripping the prefix of a
  formatted name gives back the normalised tool name; the server extracted from it is the part of
  the normalised server name before its first underscore. So a connected server gets the calls of
  its own tools exactly when its configured name is in normal form and has no underscore; the tools
  of any other server are answered with \<open>not connected\<close> or go to another server.
\<close>

theorem mcp_dispatch_by_name:
  "strip_mcp_prefix server (format_mcp_tool_name server tool) = Some (normalize_name tool)
   \<and> extract_mcp_server (format_mcp_tool_name server tool) =
       Some (takeWhile (\<lambda>c. c \<noteq> CHR ''_'') (normalize_name server))
   \<and> (dispatch_mcp (Some (server # others)) (format_mcp_tool_name server tool) =
        ToServer server (normalize_name tool)
      \<longleftrightarrow> normalize_name server = server \<and> CHR ''_'' \<notin> set server)"
proof -
  let ?n = "normalize_name server" and ?f = "format_mcp_tool_name server tool"
  have strip: "strip_mcp_prefix server ?f = Some (normalize_name tool)"
    by (simp add: strip_mcp_prefix_def format_mcp_tool_name_def rust_str)
  have "dispatch_mcp (Some (server # others)) ?f = ToServer server (normalize_name tool)
      \<longleftrightarrow> server = takeWhile (\<lambda>c. c \<noteq> CHR ''_'') ?n"
    using strip by (auto simp: dispatch_mcp_def extract_formatted find_Some_iff split: option.splits)
  also have "\<dots> \<longleftrightarrow> ?n = server \<and> CHR ''_'' \<notin> set server"
  proof
    assume eq: "server = takeWhile (\<lambda>c. c \<noteq> CHR ''_'') ?n"
    have under: "CHR ''_'' \<notin> set server" using set_takeWhileD [of "CHR ''_''"] eq by metis
    have "CHR ''-'' \<notin> set ?n" unfolding normalize_name_def replace_hyphen by auto
    then have hyphen: "CHR ''-'' \<notin> set server" using set_takeWhileD [of "CHR ''-''"] eq by metis
    have "CHR ''_'' \<notin> set ?n"
      unfolding normalize_name_def replace_hyphen
      using under hyphen lowercase_punctuation by (auto split: if_splits)
    then show "?n = server \<and> CHR ''_'' \<notin> set server"
      using eq under takeWhile_eq_iff by metis
  qed (metis takeWhile_eq_iff)
  finally show ?thesis using strip extract_formatted by simp
qed

end
