(* ===== verification/Approval.thy ===== *)
theory Approval
  imports Str_Utils "HOL-Library.AList"
begin

text \<open>
  Human approval of tool calls: \<open>clawreform-types/src/approval.rs\<close> (requests, policy and their
  validation) and \<open>clawreform-kernel/src/approval.rs\<close> (the manager that holds pending requests
  until an operator, a timeout or the cancellation of the waiting task ends them).

  The manager is used by many tasks at once. Its operations are cut where other tasks can run
  between: the count of the pending requests, the insertion, the wait and the removal after a
  timeout are separate steps.
\<close>

section \<open>Requests and policies\<close>

datatype risk_level = Low | Medium | High | Critical

datatype decision = Approved | Rejected | TimedOut

record approval_request =
  req_id :: nat
  req_agent :: string
  req_tool :: string
  req_description :: string
  action_summary :: string
  req_risk :: risk_level
  requested_at :: nat
  req_timeout :: nat

record approval_response =
  resp_id :: nat
  resp_decision :: decision
  decided_at :: nat
  decided_by :: "string option"

record approval_policy =
  require_approval :: "string list"
  policy_timeout :: nat
  auto_approve_autonomous :: bool

definition default_approval_policy :: approval_policy where
  "default_approval_policy =
     \<lparr>require_approval = [''shell_exec''], policy_timeout = 60, auto_approve_autonomous = False\<rparr>"

definition max_tool_name_len :: nat where "max_tool_name_len = 64"
definition max_description_len :: nat where "max_description_len = 1024"
definition max_action_summary_len :: nat where "max_action_summary_len = 512"
definition min_timeout_secs :: nat where "min_timeout_secs = 10"
definition max_timeout_secs :: nat where "max_timeout_secs = 300"

datatype approval_invalid =
    NameEmpty "nat option"
  | NameTooLong "nat option" nat
  | NameCharacters "nat option"
  | DescriptionTooLong nat
  | SummaryTooLong nat
  | TimeoutTooSmall nat
  | TimeoutTooLarge nat

text \<open>
  \<open>word_text\<close> answers whether every character of a text is alphanumeric (Unicode's tables, which
  are not under \<open>src/\<close>) or an underscore. The index of a name is given for the names of a policy.
\<close>

definition check_name ::
  "(string \<Rightarrow> bool) \<Rightarrow> nat option \<Rightarrow> string \<Rightarrow> (unit, approval_invalid) result" where
  "check_name word_text i n =
     (if n = [] then Err (NameEmpty i)
      else if length n > max_tool_name_len then Err (NameTooLong i (length n))
      else if \<not> word_text n then Err (NameCharacters i)
      else Ok ())"

definition check_timeout :: "nat \<Rightarrow> (unit, approval_invalid) result" where
  "check_timeout t =
     (if t < min_timeout_secs then Err (TimeoutTooSmall t)
      else if t > max_timeout_secs then Err (TimeoutTooLarge t)
      else Ok ())"

definition validate_request :: "(string \<Rightarrow> bool) \<Rightarrow> approval_request \<Rightarrow> (unit, approval_invalid) result" where
  "validate_request word_text r =
     (case check_name word_text None (req_tool r) of
        Inl e \<Rightarrow> Err e
      | Inr _ \<Rightarrow>
          if length (req_description r) > max_description_len
            then Err (DescriptionTooLong (length (req_description r)))
          else if length (action_summary r) > max_action_summary_len
            then Err (SummaryTooLong (length (action_summary r)))
          else check_timeout (req_timeout r))"

fun check_names :: "(string \<Rightarrow> bool) \<Rightarrow> nat \<Rightarrow> string list \<Rightarrow> (unit, approval_invalid) result" where
  "check_names word_text i [] = Ok ()"
| "check_names word_text i (n # ns) =
     (case check_name word_text (Some i) n of
        Inl e \<Rightarrow> Err e
      | Inr _ \<Rightarrow> check_names word_text (Suc i) ns)"

definition validate_policy :: "(string \<Rightarrow> bool) \<Rightarrow> approval_policy \<Rightarrow> (unit, approval_invalid) result" where
  "validate_policy word_text p =
     (case check_timeout (policy_timeout p) of
        Inl e \<Rightarrow> Err e
      | Inr _ \<Rightarrow> check_names word_text 0 (require_approval p))"

section \<open>The manager\<close>

definition max_pending_per_agent :: nat where "max_pending_per_agent = 5"

text \<open>A pending request keeps the sending half of a oneshot channel, named by a number.\<close>

record pending_request =
  request :: approval_request
  sender :: nat

record approval_manager =
  pending :: "(nat \<times> pending_request) list"
  policy :: approval_policy

definition new_approval_manager :: "approval_policy \<Rightarrow> approval_manager" where
  "new_approval_manager p = \<lparr>pending = [], policy = p\<rparr>"

definition requires_approval :: "approval_manager \<Rightarrow> string \<Rightarrow> bool" where
  "requires_approval m tool = list_ex (\<lambda>t. t = tool) (require_approval (policy m))"

definition agent_pending :: "approval_manager \<Rightarrow> string \<Rightarrow> nat" where
  "agent_pending m a = length (filter (\<lambda>(_, p). req_agent (request p) = a) (pending m))"

definition insert_pending :: "approval_manager \<Rightarrow> approval_request \<Rightarrow> nat \<Rightarrow> approval_manager" where
  "insert_pending m r ch =
     m\<lparr>pending := AList.update (req_id r) \<lparr>request = r, sender = ch\<rparr> (pending m)\<rparr>"

definition remove_pending :: "approval_manager \<Rightarrow> nat \<Rightarrow> approval_manager" where
  "remove_pending m i = m\<lparr>pending := AList.delete i (pending m)\<rparr>"

datatype approval_error = NoPendingRequest nat

text \<open>The number in a successful result is the channel the decision is sent on.\<close>

definition resolve ::
  "nat \<Rightarrow> approval_manager \<Rightarrow> nat \<Rightarrow> decision \<Rightarrow> string option
   \<Rightarrow> approval_manager \<times> (nat \<times> approval_response, approval_error) result" where
  "resolve now m i d by_whom =
     (case map_of (pending m) i of
        None \<Rightarrow> (m, Err (NoPendingRequest i))
      | Some p \<Rightarrow>
          (remove_pending m i,
           Ok (sender p, \<lparr>resp_id = i, resp_decision = d, decided_at = now, decided_by = by_whom\<rparr>)))"

definition list_pending :: "approval_manager \<Rightarrow> approval_request list" where
  "list_pending m = map (request \<circ> snd) (pending m)"

definition pending_count :: "approval_manager \<Rightarrow> nat" where
  "pending_count m = length (pending m)"

definition update_policy :: "approval_manager \<Rightarrow> approval_policy \<Rightarrow> approval_manager" where
  "update_policy m p = m\<lparr>policy := p\<rparr>"

definition classify_risk :: "string \<Rightarrow> risk_level" where
  "classify_risk tool =
     (if tool = ''shell_exec'' then Critical
      else if tool = ''file_write'' \<or> tool = ''file_delete'' then High
      else if tool = ''web_fetch'' \<or> tool = ''browser_navigate'' then Medium
      else Low)"

section \<open>Tasks that ask for approval\<close>

text \<open>
  A task is the future of \<open>request_approval\<close>: it counts (\<open>Asking\<close> to \<open>Admitted\<close> or \<open>Done\<close>),
  inserts (to \<open>Waiting\<close>), and then the timed wait on its channel ends with the decision or not
  (\<open>Expiring\<close>), in which case it removes its request. A waiting task can also be dropped
  (\<open>Cancelled\<close>), as the tool timeout around it does.
\<close>

datatype task =
    Asking approval_request
  | Admitted approval_request
  | Waiting approval_request
  | Expiring approval_request
  | Done approval_request decision
  | Cancelled approval_request

fun asked :: "task \<Rightarrow> approval_request" where
  "asked (Asking r) = r"
| "asked (Admitted r) = r"
| "asked (Waiting r) = r"
| "asked (Expiring r) = r"
| "asked (Done r _) = r"
| "asked (Cancelled r) = r"

text \<open>The channel of task \<open>t\<close> is number \<open>t\<close>. \<open>sent\<close> holds the decisions sent so far on channels.
  \<open>verdicts\<close> is the history of the resolutions that returned \<open>Ok\<close>.\<close>

record approval_system =
  manager :: approval_manager
  task_of :: "nat \<rightharpoonup> task"
  sent :: "nat \<rightharpoonup> decision"
  verdicts :: "(nat \<times> decision) list"

inductive approval_step :: "approval_system \<Rightarrow> approval_system \<Rightarrow> bool" where
  refuse: "task_of s t = Some (Asking r) \<Longrightarrow>
     agent_pending (manager s) (req_agent r) \<ge> max_pending_per_agent \<Longrightarrow>
     approval_step s (s\<lparr>task_of := (task_of s)(t \<mapsto> Done r Rejected)\<rparr>)"
| admit: "task_of s t = Some (Asking r) \<Longrightarrow>
     agent_pending (manager s) (req_agent r) < max_pending_per_agent \<Longrightarrow>
     approval_step s (s\<lparr>task_of := (task_of s)(t \<mapsto> Admitted r)\<rparr>)"
| submit: "task_of s t = Some (Admitted r) \<Longrightarrow>
     approval_step s (s\<lparr>task_of := (task_of s)(t \<mapsto> Waiting r),
                        manager := insert_pending (manager s) r t\<rparr>)"
| verdict: "resolve now (manager s) i d by_whom = (m', Ok (ch, resp)) \<Longrightarrow>
     approval_step s (s\<lparr>manager := m', sent := (sent s)(ch \<mapsto> d), verdicts := (i, d) # verdicts s\<rparr>)"
| receive: "task_of s t = Some (Waiting r) \<Longrightarrow> sent s t = Some d \<Longrightarrow>
     approval_step s (s\<lparr>task_of := (task_of s)(t \<mapsto> Done r d)\<rparr>)"
| expire: "task_of s t = Some (Waiting r) \<Longrightarrow> sent s t = None \<Longrightarrow>
     approval_step s (s\<lparr>task_of := (task_of s)(t \<mapsto> Expiring r)\<rparr>)"
| clean_up: "task_of s t = Some (Expiring r) \<Longrightarrow>
     approval_step s (s\<lparr>task_of := (task_of s)(t \<mapsto> Done r TimedOut),
                        manager := remove_pending (manager s) (req_id r)\<rparr>)"
| cancel: "task_of s t = Some (Waiting r) \<Longrightarrow>
     approval_step s (s\<lparr>task_of := (task_of s)(t \<mapsto> Cancelled r)\<rparr>)"
| new_policy: "approval_step s (s\<lparr>manager := update_policy (manager s) p\<rparr>)"

inductive_cases approval_stepE: "approval_step s s'"

text \<open>Some requests with distinct ids, each asked by a task of its own, and nothing pending.\<close>

definition start :: "approval_policy \<Rightarrow> (nat \<rightharpoonup> approval_request) \<Rightarrow> approval_system" where
  "start p rs = \<lparr>manager = new_approval_manager p, task_of = map_option Asking \<circ> rs,
     sent = Map.empty, verdicts = []\<rparr>"

definition distinct_ids :: "(nat \<rightharpoonup> approval_request) \<Rightarrow> bool" where
  "distinct_ids rs \<longleftrightarrow> (\<forall>t u r q. rs t = Some r \<longrightarrow> rs u = Some q \<longrightarrow> req_id r = req_id q \<longrightarrow> t = u)"

section \<open>What every reachable state satisfies\<close>

text \<open>A task that has inserted its request and whose request nobody has removed.\<close>

fun holding :: "task \<Rightarrow> bool" where
  "holding (Waiting _) = True"
| "holding (Expiring _) = True"
| "holding (Cancelled _) = True"
| "holding _ = False"

fun unsubmitted :: "task \<Rightarrow> bool" where
  "unsubmitted (Asking _) = True"
| "unsubmitted (Admitted _) = True"
| "unsubmitted _ = False"

definition pending_ok :: "approval_system \<Rightarrow> bool" where
  "pending_ok s \<longleftrightarrow> distinct (map fst (pending (manager s)))
     \<and> (\<forall>i p. (i, p) \<in> set (pending (manager s)) \<longrightarrow>
          i \<notin> fst ` set (verdicts s) \<and> sent s (sender p) = None
          \<and> (\<exists>k. task_of s (sender p) = Some k \<and> holding k \<and> asked k = request p \<and> req_id (request p) = i))"

definition verdicts_ok :: "approval_system \<Rightarrow> bool" where
  "verdicts_ok s \<longleftrightarrow> distinct (map fst (verdicts s))
     \<and> (\<forall>t d. sent s t = Some d \<longrightarrow>
          (\<exists>k. task_of s t = Some k \<and> (req_id (asked k), d) \<in> set (verdicts s)))
     \<and> (\<forall>i \<in> fst ` set (verdicts s).
          \<exists>t k. task_of s t = Some k \<and> req_id (asked k) = i \<and> \<not> unsubmitted k)
     \<and> (\<forall>t r. task_of s t = Some (Done r Approved) \<longrightarrow> sent s t = Some Approved)"

definition tasks_ok :: "(nat \<rightharpoonup> approval_request) \<Rightarrow> approval_system \<Rightarrow> bool" where
  "tasks_ok rs s \<longleftrightarrow> (\<forall>t. rs t = map_option asked (task_of s t))"

definition approval_inv :: "(nat \<rightharpoonup> approval_request) \<Rightarrow> approval_system \<Rightarrow> bool" where
  "approval_inv rs s \<longleftrightarrow> tasks_ok rs s \<and> pending_ok s \<and> verdicts_ok s"

lemma pending_okD:
  assumes "pending_ok s" "(i, p) \<in> set (pending (manager s))"
  shows "i \<notin> fst ` set (verdicts s)" "sent s (sender p) = None"
    "\<exists>k. task_of s (sender p) = Some k \<and> holding k \<and> asked k = request p \<and> req_id (request p) = i"
  using assms by (simp_all add: pending_ok_def)

lemma verdicts_okD:
  assumes "verdicts_ok s"
  shows "sent s t = Some d \<Longrightarrow> \<exists>k. task_of s t = Some k \<and> (req_id (asked k), d) \<in> set (verdicts s)"
    and "i \<in> fst ` set (verdicts s) \<Longrightarrow> \<exists>t k. task_of s t = Some k \<and> req_id (asked k) = i \<and> \<not> unsubmitted k"
    and "task_of s t = Some (Done r Approved) \<Longrightarrow> sent s t = Some Approved"
    and "distinct (map fst (verdicts s))"
  using assms unfolding verdicts_ok_def by blast+

lemma tasks_okD: "tasks_ok rs s \<Longrightarrow> task_of s t = Some k \<Longrightarrow> rs t = Some (asked k)"
  by (auto simp: tasks_ok_def)

lemma start_inv: "approval_inv rs (start p rs)"
  by (auto simp: approval_inv_def tasks_ok_def pending_ok_def verdicts_ok_def start_def
      new_approval_manager_def fun_eq_iff option.map_comp comp_def option.map_ident)

lemma tasks_ok_step: "approval_step s s' \<Longrightarrow> tasks_ok rs s \<Longrightarrow> tasks_ok rs s'"
  by (induction rule: approval_step.induct) (auto simp: tasks_ok_def)

text \<open>A task that moves on without touching the manager, the channels or the verdicts.\<close>

lemma move_task:
  assumes "pending_ok s" "verdicts_ok s" "task_of s t = Some k" "asked k' = asked k"
    and "\<And>i p. (i, p) \<in> set (pending (manager s)) \<Longrightarrow> sender p = t \<Longrightarrow> holding k'"
    and "unsubmitted k' \<Longrightarrow> unsubmitted k"
    and "\<And>r. k' = Done r Approved \<Longrightarrow> sent s t = Some Approved"
  shows "pending_ok (s\<lparr>task_of := (task_of s)(t \<mapsto> k')\<rparr>) \<and> verdicts_ok (s\<lparr>task_of := (task_of s)(t \<mapsto> k')\<rparr>)"
proof
  show "pending_ok (s\<lparr>task_of := (task_of s)(t \<mapsto> k')\<rparr>)"
    unfolding pending_ok_def
  proof (intro conjI allI impI)
    fix i p assume "(i, p) \<in> set (pending (manager (s\<lparr>task_of := (task_of s)(t \<mapsto> k')\<rparr>)))"
    then have mem: "(i, p) \<in> set (pending (manager s))" by simp
    then obtain q where q: "i \<notin> fst ` set (verdicts s)" "sent s (sender p) = None"
      "task_of s (sender p) = Some q" "holding q" "asked q = request p" "req_id (request p) = i"
      using pending_okD [OF assms(1), of i p] by auto
    then show "i \<notin> fst ` set (verdicts (s\<lparr>task_of := (task_of s)(t \<mapsto> k')\<rparr>))"
      "sent (s\<lparr>task_of := (task_of s)(t \<mapsto> k')\<rparr>) (sender p) = None" by simp_all
    have "sender p = t \<Longrightarrow> holding k' \<and> asked k' = request p"
      using q assms(3,4) assms(5) [OF mem] by auto
    with q show "\<exists>k. task_of (s\<lparr>task_of := (task_of s)(t \<mapsto> k')\<rparr>) (sender p) = Some k \<and> holding k
        \<and> asked k = request p \<and> req_id (request p) = i" by auto
  qed (use assms(1) in \<open>simp add: pending_ok_def\<close>)
  show "verdicts_ok (s\<lparr>task_of := (task_of s)(t \<mapsto> k')\<rparr>)"
    unfolding verdicts_ok_def
  proof (intro conjI allI ballI impI)
    fix i assume "i \<in> fst ` set (verdicts (s\<lparr>task_of := (task_of s)(t \<mapsto> k')\<rparr>))"
    then obtain u q where q: "task_of s u = Some q" "req_id (asked q) = i" "\<not> unsubmitted q"
      using assms(2) by (auto simp: verdicts_ok_def)
    have "task_of (s\<lparr>task_of := (task_of s)(t \<mapsto> k')\<rparr>) u = Some (if u = t then k' else q)"
      using q(1) by simp
    moreover have "u = t \<Longrightarrow> k = q" using q(1) assms(3) by simp
    ultimately show "\<exists>u q. task_of (s\<lparr>task_of := (task_of s)(t \<mapsto> k')\<rparr>) u = Some q
        \<and> req_id (asked q) = i \<and> \<not> unsubmitted q"
      using q assms(4,6) by (metis (full_types))
  next
    fix u d assume "sent (s\<lparr>task_of := (task_of s)(t \<mapsto> k')\<rparr>) u = Some d"
    then obtain q where "task_of s u = Some q" "(req_id (asked q), d) \<in> set (verdicts s)"
      using verdicts_okD(1) [OF assms(2), of u d] by auto
    then show "\<exists>q. task_of (s\<lparr>task_of := (task_of s)(t \<mapsto> k')\<rparr>) u = Some q
        \<and> (req_id (asked q), d) \<in> set (verdicts (s\<lparr>task_of := (task_of s)(t \<mapsto> k')\<rparr>))"
      using assms(3,4) by (cases "u = t") auto
  qed (use assms in \<open>auto simp: verdicts_ok_def split: if_splits\<close>)
qed

lemma in_update:
  "(i, p) \<in> set (AList.update k v xs) \<Longrightarrow> distinct (map fst xs) \<Longrightarrow>
   (i = k \<and> p = v) \<or> (i \<noteq> k \<and> (i, p) \<in> set xs)"
  by (induction xs) (auto split: if_splits simp: rev_image_eqI)

lemma in_update_other: "i \<noteq> k \<Longrightarrow> (i, p) \<in> set xs \<Longrightarrow> (i, p) \<in> set (AList.update k v xs)"
  by (induction xs) auto

lemma in_delete: "(i, p) \<in> set (AList.delete k xs) \<longleftrightarrow> (i, p) \<in> set xs \<and> i \<noteq> k"
  by (auto simp: AList.delete_eq)

lemma distinct_delete: "distinct (map fst xs) \<Longrightarrow> distinct (map fst (AList.delete k xs))"
  by (rule distinct_delete)

lemma submit_inv:
  assumes "pending_ok s" "verdicts_ok s" "task_of s t = Some (Admitted r)" "tasks_ok rs s" "distinct_ids rs"
  defines "s' \<equiv> s\<lparr>task_of := (task_of s)(t \<mapsto> Waiting r), manager := insert_pending (manager s) r t\<rparr>"
  shows "pending_ok s' \<and> verdicts_ok s'"
proof
  have same: "u = t" if "task_of s u = Some k" "req_id (asked k) = req_id r" for u k
    using that assms(3,5) tasks_okD [OF assms(4)] unfolding distinct_ids_def by fastforce
  have fresh: "req_id r \<notin> fst ` set (verdicts s)"
  proof
    assume "req_id r \<in> fst ` set (verdicts s)"
    then obtain u k where "task_of s u = Some k" "req_id (asked k) = req_id r" "\<not> unsubmitted k"
      using assms(2) unfolding verdicts_ok_def by metis
    with same assms(3) show False by fastforce
  qed
  have unsent: "sent s t = None"
  proof (rule ccontr)
    assume "sent s t \<noteq> None"
    then obtain d k where "task_of s t = Some k" "(req_id (asked k), d) \<in> set (verdicts s)"
      using assms(2) unfolding verdicts_ok_def by blast
    with assms(3) fresh show False by force
  qed
  show "verdicts_ok s'"
    using move_task [OF assms(1,2,3), of "Waiting r"] by (simp add: s'_def verdicts_ok_def)
  show "pending_ok s'"
    unfolding pending_ok_def
  proof (intro conjI allI impI)
    show "distinct (map fst (pending (manager s')))"
      using assms(1) by (simp add: s'_def insert_pending_def pending_ok_def distinct_update)
  next
    fix i p assume "(i, p) \<in> set (pending (manager s'))"
    then have "(i = req_id r \<and> p = \<lparr>request = r, sender = t\<rparr>)
        \<or> (i \<noteq> req_id r \<and> (i, p) \<in> set (pending (manager s)))"
      using in_update assms(1) by (fastforce simp: s'_def insert_pending_def pending_ok_def)
    moreover have "sender p \<noteq> t" if "i \<noteq> req_id r" "(i, p) \<in> set (pending (manager s))"
      using that assms(1,3) by (fastforce simp: pending_ok_def)
    ultimately consider "i = req_id r" "p = \<lparr>request = r, sender = t\<rparr>"
      | "(i, p) \<in> set (pending (manager s))" "sender p \<noteq> t" by blast
    then show "i \<notin> fst ` set (verdicts s')" "sent s' (sender p) = None"
      "\<exists>k. task_of s' (sender p) = Some k \<and> holding k \<and> asked k = request p \<and> req_id (request p) = i"
      by (cases; use fresh unsent pending_okD [OF assms(1)] in \<open>simp add: s'_def\<close>)+
  qed
qed

lemma remove_inv:
  assumes "pending_ok s" "verdicts_ok s"
  shows "pending_ok (s\<lparr>manager := remove_pending (manager s) i\<rparr>)
    \<and> verdicts_ok (s\<lparr>manager := remove_pending (manager s) i\<rparr>)"
  using assms by (auto simp: pending_ok_def verdicts_ok_def remove_pending_def in_delete distinct_delete)

lemma verdict_inv:
  assumes "pending_ok s" "verdicts_ok s" "resolve now (manager s) i d by_whom = (m', Ok (ch, resp))"
  defines "s' \<equiv> s\<lparr>manager := m', sent := (sent s)(ch \<mapsto> d), verdicts := (i, d) # verdicts s\<rparr>"
  shows "pending_ok s' \<and> verdicts_ok s'"
proof
  obtain p where p: "map_of (pending (manager s)) i = Some p" and ch: "ch = sender p"
    and m': "m' = remove_pending (manager s) i"
    using assms(3) by (auto simp: resolve_def split: option.splits)
  have in_p: "(i, p) \<in> set (pending (manager s))" using p by (rule map_of_SomeD)
  obtain k where k: "task_of s ch = Some k" "holding k" "asked k = request p" "req_id (request p) = i"
    using pending_okD(3) [OF assms(1) in_p] ch by blast
  have others: "sender q \<noteq> ch" if "(j, q) \<in> set (pending (manager s))" "j \<noteq> i" for j q
    using pending_okD(3) [OF assms(1) that(1)] that(2) k by auto
  show "pending_ok s'"
    unfolding pending_ok_def
  proof (intro conjI allI impI)
    show "distinct (map fst (pending (manager s')))"
      using assms(1) by (simp add: pending_ok_def s'_def m' remove_pending_def distinct_delete)
  next
    fix j q assume "(j, q) \<in> set (pending (manager s'))"
    then have j: "(j, q) \<in> set (pending (manager s))" "j \<noteq> i"
      by (simp_all add: s'_def m' remove_pending_def in_delete)
    show "j \<notin> fst ` set (verdicts s')" "sent s' (sender q) = None"
      "\<exists>k. task_of s' (sender q) = Some k \<and> holding k \<and> asked k = request q \<and> req_id (request q) = j"
      using pending_okD [OF assms(1) j(1)] j(2) others [OF j] by (simp_all add: s'_def)
  qed
  have past: "\<not> unsubmitted k" "task_of s ch \<noteq> Some (Done r Approved)" for r
    using k(1,2) by (cases k; simp)+
  show "verdicts_ok s'"
    unfolding verdicts_ok_def
  proof (intro conjI allI ballI impI)
    fix t e assume "sent s' t = Some e"
    then show "\<exists>q. task_of s' t = Some q \<and> (req_id (asked q), e) \<in> set (verdicts s')"
      using k verdicts_okD(1) [OF assms(2), of t e] by (auto simp: s'_def split: if_splits)
  next
    show "distinct (map fst (verdicts s'))"
      using verdicts_okD(4) [OF assms(2)] pending_okD(1) [OF assms(1) in_p] by (simp add: s'_def)
  next
    fix j assume "j \<in> fst ` set (verdicts s')"
    then show "\<exists>t q. task_of s' t = Some q \<and> req_id (asked q) = j \<and> \<not> unsubmitted q"
    proof (cases "j = i")
      case True
      with k past(1) have "task_of s' ch = Some k \<and> req_id (asked k) = j \<and> \<not> unsubmitted k"
        by (simp add: s'_def)
      then show ?thesis by blast
    next
      case False
      then show ?thesis using \<open>j \<in> _\<close> verdicts_okD(2) [OF assms(2), of j] by (auto simp: s'_def)
    qed
  next
    fix t r assume "task_of s' t = Some (Done r Approved)"
    then show "sent s' t = Some Approved"
      using past(2) verdicts_okD(3) [OF assms(2), of t r] by (auto simp: s'_def)
  qed
qed

lemma approval_step_inv:
  assumes "approval_step s s'" "approval_inv rs s" "distinct_ids rs"
  shows "approval_inv rs s'"
proof -
  have inv: "tasks_ok rs s" "pending_ok s" "verdicts_ok s" using assms(2) by (auto simp: approval_inv_def)
  have "pending_ok s' \<and> verdicts_ok s'"
    using assms(1)
  proof (cases rule: approval_step.cases)
    case (verdict now i d by_whom m' ch resp)
    then show ?thesis using verdict_inv [OF inv(2,3)] by simp
  next
    case (submit t r)
    then show ?thesis using submit_inv [OF inv(2,3) _ inv(1) assms(3)] by simp
  next
    case (receive t r d)
    moreover have "sender p \<noteq> t" if "(i, p) \<in> set (pending (manager s))" for i p
      using pending_okD(2) [OF inv(2) that] receive(3) by auto
    ultimately show ?thesis using move_task [OF inv(2,3), of t "Waiting r" "Done r d"] by simp
  next
    case (clean_up t r)
    let ?s1 = "s\<lparr>manager := remove_pending (manager s) (req_id r)\<rparr>"
    have "sender p \<noteq> t" if "(i, p) \<in> set (pending (manager ?s1))" for i p
    proof -
      have "(i, p) \<in> set (pending (manager s))" "i \<noteq> req_id r"
        using that by (simp_all add: remove_pending_def in_delete)
      then show ?thesis using pending_okD(3) [OF inv(2)] clean_up(2) by fastforce
    qed
    then have "pending_ok (?s1\<lparr>task_of := (task_of ?s1)(t \<mapsto> Done r TimedOut)\<rparr>)
        \<and> verdicts_ok (?s1\<lparr>task_of := (task_of ?s1)(t \<mapsto> Done r TimedOut)\<rparr>)"
      using remove_inv [OF inv(2,3), of "req_id r"] clean_up(2)
        move_task [of ?s1 t "Expiring r" "Done r TimedOut"] by simp
    moreover have "s' = ?s1\<lparr>task_of := (task_of ?s1)(t \<mapsto> Done r TimedOut)\<rparr>"
      using clean_up(1) by simp
    ultimately show ?thesis by simp
  next
    case (new_policy p)
    then show ?thesis using inv(2,3) by (simp add: pending_ok_def verdicts_ok_def update_policy_def)
  next
    case (refuse t r)
    moreover have "sender p \<noteq> t" if "(i, p) \<in> set (pending (manager s))" for i p
      using pending_okD(3) [OF inv(2) that] refuse(2) by auto
    ultimately show ?thesis using move_task [OF inv(2,3), of t "Asking r" "Done r Rejected"] by simp
  next
    case (admit t r)
    moreover have "sender p \<noteq> t" if "(i, p) \<in> set (pending (manager s))" for i p
      using pending_okD(3) [OF inv(2) that] admit(2) by auto
    ultimately show ?thesis using move_task [OF inv(2,3), of t "Asking r" "Admitted r"] by simp
  next
    case (expire t r)
    then show ?thesis using move_task [OF inv(2,3), of t "Waiting r" "Expiring r"] by simp
  next
    case (cancel t r)
    then show ?thesis using move_task [OF inv(2,3), of t "Waiting r" "Cancelled r"] by simp
  qed
  then show ?thesis using inv(1) tasks_ok_step [OF assms(1)] by (simp add: approval_inv_def)
qed

lemma approval_reachable_inv:
  "approval_step\<^sup>*\<^sup>* s s' \<Longrightarrow> approval_inv rs s \<Longrightarrow> distinct_ids rs \<Longrightarrow> approval_inv rs s'"
  by (induction rule: rtranclp_induct) (auto intro: approval_step_inv)

section \<open>Batches of requests\<close>

text \<open>
  The states reached when the first \<open>n\<close> tasks go through a phase one after the other. \<open>rs\<close> lists
  the requests; task \<open>t\<close> asks the \<open>t\<close>-th.
\<close>

definition nth_request :: "approval_request list \<Rightarrow> nat \<rightharpoonup> approval_request" where
  "nth_request rs t = (if t < length rs then Some (rs ! t) else None)"

definition entry :: "approval_request list \<Rightarrow> nat \<Rightarrow> nat \<times> pending_request" where
  "entry rs t = (req_id (rs ! t), \<lparr>request = rs ! t, sender = t\<rparr>)"

definition batch ::
  "approval_policy \<Rightarrow> approval_request list \<Rightarrow> (approval_request \<Rightarrow> task) \<Rightarrow> nat
   \<Rightarrow> (approval_request \<Rightarrow> task) \<Rightarrow> nat \<Rightarrow> approval_system" where
  "batch p rs done n todo k =
     \<lparr>manager = \<lparr>pending = map (entry rs) [0..<k], policy = p\<rparr>,
      task_of = (\<lambda>t. map_option (if t < n then done else todo) (nth_request rs t)),
      sent = Map.empty, verdicts = []\<rparr>"

lemma batch_move:
  assumes "n < length rs"
  shows "batch p rs done (Suc n) todo k =
    (batch p rs done n todo k)\<lparr>task_of := (task_of (batch p rs done n todo k))(n \<mapsto> done (rs ! n))\<rparr>"
  using assms by (auto simp: batch_def nth_request_def fun_eq_iff less_Suc_eq)

lemma batch_task: "n < length rs \<Longrightarrow> task_of (batch p rs done n todo k) n = Some (todo (rs ! n))"
  by (simp add: batch_def nth_request_def)

lemma batch_swap: "length rs \<le> n \<Longrightarrow> batch p rs done n todo k = batch p rs todo' 0 done k"
  by (auto simp: batch_def nth_request_def fun_eq_iff)

lemma start_batch: "start p (nth_request rs) = batch p rs done 0 Asking 0"
  by (auto simp: start_def batch_def new_approval_manager_def fun_eq_iff)

lemma admit_batch:
  "n \<le> length rs \<Longrightarrow> approval_step\<^sup>*\<^sup>* (start p (nth_request rs)) (batch p rs Admitted n Asking 0)"
proof (induction n)
  case 0
  show ?case by (simp add: start_batch [of _ _ Admitted])
next
  case (Suc n)
  let ?s = "batch p rs Admitted n Asking 0"
  have n: "n < length rs" using Suc.prems by simp
  have "agent_pending (manager ?s) (req_agent (rs ! n)) < max_pending_per_agent"
    by (simp add: batch_def agent_pending_def max_pending_per_agent_def)
  then have "approval_step ?s (batch p rs Admitted (Suc n) Asking 0)"
    unfolding batch_move [OF n] by (intro admit batch_task [OF n])
  with Suc show ?case by (simp add: rtranclp.rtrancl_into_rtrancl)
qed

lemma distinct_nth_request: "distinct (map req_id rs) \<Longrightarrow> distinct_ids (nth_request rs)"
  by (auto simp: distinct_ids_def nth_request_def distinct_conv_nth split: if_splits)

lemma update_new: "k \<notin> fst ` set xs \<Longrightarrow> AList.update k v xs = xs @ [(k, v)]"
  by (induction xs) auto

lemma submit_batch:
  "n \<le> length rs \<Longrightarrow> distinct (map req_id rs) \<Longrightarrow>
   approval_step\<^sup>*\<^sup>* (batch p rs Waiting 0 Admitted 0) (batch p rs Waiting n Admitted n)"
proof (induction n)
  case (Suc n)
  let ?s = "batch p rs Waiting n Admitted n"
  have n: "n < length rs" using Suc.prems by simp
  have "req_id (rs ! n) \<notin> fst ` set (pending (manager ?s))"
    using Suc.prems by (auto simp: batch_def entry_def nth_eq_iff_index_eq [of "map req_id rs", simplified]
        distinct_conv_nth)
  then have "pending (insert_pending (manager ?s) (rs ! n) n) = map (entry rs) [0..<Suc n]"
    by (simp add: insert_pending_def update_new) (simp add: batch_def entry_def)
  then have "batch p rs Waiting (Suc n) Admitted (Suc n) = ?s\<lparr>task_of := (task_of ?s)(n \<mapsto> Waiting (rs ! n)),
      manager := insert_pending (manager ?s) (rs ! n) n\<rparr>"
    using batch_move [OF n, of p Waiting Admitted n]
    by (simp add: batch_def insert_pending_def del: upt_Suc)
  moreover have "approval_step ?s (?s\<lparr>task_of := (task_of ?s)(n \<mapsto> Waiting (rs ! n)),
      manager := insert_pending (manager ?s) (rs ! n) n\<rparr>)"
    by (intro submit batch_task [OF n])
  ultimately show ?case using Suc by (simp add: rtranclp.rtrancl_into_rtrancl)
qed simp

lemma cancel_batch:
  "n \<le> length rs \<Longrightarrow>
   approval_step\<^sup>*\<^sup>* (batch p rs Cancelled 0 Waiting k) (batch p rs Cancelled n Waiting k)"
proof (induction n)
  case (Suc n)
  have n: "n < length rs" using Suc.prems by simp
  have "approval_step (batch p rs Cancelled n Waiting k) (batch p rs Cancelled (Suc n) Waiting k)"
    unfolding batch_move [OF n] by (intro cancel batch_task [OF n])
  with Suc show ?case by (simp add: rtranclp.rtrancl_into_rtrancl)
qed simp

lemma all_waiting:
  assumes "distinct (map req_id rs)"
  shows "approval_step\<^sup>*\<^sup>* (start p (nth_request rs)) (batch p rs Waiting (length rs) Admitted (length rs))"
  using admit_batch [of "length rs" rs p] submit_batch [OF order_refl assms, of p]
  by (simp add: batch_swap [of rs _ p Admitted Asking 0 Waiting])

definition sample_request :: "nat \<Rightarrow> approval_request" where
  "sample_request i = \<lparr>req_id = i, req_agent = ''a'', req_tool = ''shell_exec'', req_description = [],
     action_summary = [], req_risk = Critical, requested_at = 0, req_timeout = 300\<rparr>"

text \<open>
  C35: A tool call whose request ends as approved was approved by an operator: the one resolution of
  its request that ever returned \<open>Ok\<close> carried that decision, and no request is resolved twice. This
  holds in every interleaving of asking, waiting, expiring and cancelled tasks with the resolutions.
\<close>

theorem approval_needs_verdict:
  assumes "approval_step\<^sup>*\<^sup>* (start p rs) s" "distinct_ids rs" "task_of s t = Some (Done r Approved)"
  shows "rs t = Some r \<and> map_of (verdicts s) (req_id r) = Some Approved \<and> distinct (map fst (verdicts s))"
proof -
  have inv: "approval_inv rs s" using approval_reachable_inv [OF assms(1) start_inv assms(2)] .
  then have v: "verdicts_ok s" and t: "tasks_ok rs s" by (auto simp: approval_inv_def)
  have "sent s t = Some Approved" using verdicts_okD(3) [OF v assms(3)] .
  then have "(req_id r, Approved) \<in> set (verdicts s)" using verdicts_okD(1) [OF v] assms(3) by fastforce
  then show ?thesis using verdicts_okD(4) [OF v] tasks_okD [OF t assms(3)] by simp
qed

text \<open>
  The limit of five pending requests per agent does not bound them: the count and the insertion
  are separate, so any number of requests of one agent with distinct ids can be pending together.
\<close>

theorem pending_limit_race:
  assumes "distinct (map req_id rs)" "list_all (\<lambda>r. req_agent r = a) rs"
  shows "\<exists>s. approval_step\<^sup>*\<^sup>* (start p (nth_request rs)) s \<and> agent_pending (manager s) a = length rs"
proof -
  let ?s = "batch p rs Waiting (length rs) Admitted (length rs)"
  have "filter (\<lambda>(_, q). req_agent (request q) = a) (pending (manager ?s)) = pending (manager ?s)"
    using assms(2) by (auto simp: batch_def entry_def list_all_length intro!: filter_True)
  then have "agent_pending (manager ?s) a = length rs" by (simp add: agent_pending_def batch_def)
  with all_waiting [OF assms(1)] show ?thesis by blast
qed

lemma pending_limit_race_witness:
  "\<exists>s. approval_step\<^sup>*\<^sup>* (start default_approval_policy (nth_request (map sample_request [0..<6]))) s
     \<and> agent_pending (manager s) ''a'' = 6"
  using pending_limit_race [of "map sample_request [0..<6]" "''a''" default_approval_policy]
  by (simp add: sample_request_def comp_def list_all_iff)

section \<open>Cancelled waits\<close>

text \<open>\<open>TOOL_TIMEOUT_SECS\<close> of the agent loop, around every tool call with its wait for approval.\<close>

definition tool_timeout_secs :: nat where "tool_timeout_secs = 120"

definition stuck_entry :: "approval_system \<Rightarrow> nat \<times> pending_request \<Rightarrow> bool" where
  "stuck_entry s e \<longleftrightarrow> e \<in> set (pending (manager s))
     \<and> task_of s (sender (snd e)) = Some (Cancelled (request (snd e)))"

lemma stuck_step:
  assumes "approval_step s s'" "approval_inv rs s" "distinct_ids rs" "stuck_entry s e"
    and "fst e \<notin> fst ` set (verdicts s')"
  shows "stuck_entry s' e"
proof -
  obtain i p where e: "e = (i, p)" by (cases e)
  have inv: "tasks_ok rs s" "pending_ok s" using assms(2) by (auto simp: approval_inv_def)
  have mem: "(i, p) \<in> set (pending (manager s))"
    and can: "task_of s (sender p) = Some (Cancelled (request p))" and i: "req_id (request p) = i"
    using assms(4) pending_okD(3) [OF inv(2), of i p] by (auto simp: e stuck_entry_def)
  have other: "req_id r \<noteq> i" if "task_of s t = Some k" "asked k = r" "k \<noteq> Cancelled (request p)" for t k r
  proof
    assume "req_id r = i"
    then have "t = sender p"
      using that(1,2) can i tasks_okD [OF inv(1)] assms(3) unfolding distinct_ids_def
      by (metis asked.simps(6))
    with that can show False by simp
  qed
  show ?thesis
    using assms(1)
  proof (cases rule: approval_step.cases)
    case (verdict now j d by_whom m' ch resp)
    then have "j \<noteq> i" using assms(5) e by auto
    with verdict mem can show ?thesis
      by (auto simp: e stuck_entry_def resolve_def remove_pending_def in_delete split: option.splits)
  next
    case (submit t r)
    have "req_id r \<noteq> i" using other [of t "Admitted r" r] submit(2) by simp
    then have "(i, p) \<in> set (AList.update (req_id r) \<lparr>request = r, sender = t\<rparr> (pending (manager s)))"
      using in_update_other [OF _ mem] by metis
    with submit can show ?thesis by (auto simp: e stuck_entry_def insert_pending_def)
  next
    case (clean_up t r)
    have "req_id r \<noteq> i" using other [of t "Expiring r" r] clean_up(2) by simp
    with clean_up mem can show ?thesis
      by (auto simp: e stuck_entry_def remove_pending_def in_delete)
  qed (use mem can in \<open>auto simp: e stuck_entry_def update_policy_def\<close>)
qed

lemma verdicts_mono: "approval_step s s' \<Longrightarrow> set (verdicts s) \<subseteq> set (verdicts s')"
  by (induction rule: approval_step.induct) auto

lemma stuck_run:
  "approval_step\<^sup>*\<^sup>* s s' \<Longrightarrow> approval_inv rs s \<Longrightarrow> distinct_ids rs \<Longrightarrow> stuck_entry s e \<Longrightarrow>
   fst e \<notin> fst ` set (verdicts s') \<Longrightarrow> stuck_entry s' e"
proof (induction rule: rtranclp_induct)
  case (step s1 s2)
  have "fst e \<notin> fst ` set (verdicts s1)" using step.prems(4) verdicts_mono [OF step.hyps(2)] by blast
  with step show ?case
    using stuck_step [OF step.hyps(2) approval_reachable_inv [OF step.hyps(1)]] by blast
qed

text \<open>
  A request whose wait is dropped, which the tool timeout of 120 seconds does to every wait that
  a policy lets last longer (up to 300 are valid), stays pending until an operator resolves it. Once
  five are left behind for an agent, every later request of the agent is refused at once and none is
  shown to anyone, for as long as these five are not resolved.
\<close>

theorem cancelled_requests_block_agent:
  assumes "approval_step\<^sup>*\<^sup>* (start p rs) s" "distinct_ids rs"
    and "distinct left_behind" "length left_behind \<ge> 5"
    and "list_all (\<lambda>e. stuck_entry s e \<and> req_agent (request (snd e)) = a) left_behind"
    and "approval_step\<^sup>*\<^sup>* s s'" "set (map fst left_behind) \<inter> fst ` set (verdicts s') = {}"
  shows "max_pending_per_agent \<le> agent_pending (manager s') a
    \<and> (task_of s' t = Some (Asking r) \<and> req_agent r = a \<and> approval_step s' s''
         \<longrightarrow> task_of s'' t = Some (Asking r) \<or> task_of s'' t = Some (Done r Rejected))"
proof -
  have inv: "approval_inv rs s" using approval_reachable_inv [OF assms(1) start_inv assms(2)] .
  have stuck: "stuck_entry s' e" if "e \<in> set left_behind" for e
    using that assms(5,7) stuck_run [OF assms(6) inv assms(2), of e] by (auto simp: list_all_iff)
  then have "set left_behind \<subseteq> set (filter (\<lambda>(_, q). req_agent (request q) = a) (pending (manager s')))"
    using assms(5) by (auto simp: stuck_entry_def list_all_iff)
  then have "card (set left_behind) \<le> agent_pending (manager s') a"
    unfolding agent_pending_def by (meson card_length card_mono finite_set order_trans)
  then have limit: "max_pending_per_agent \<le> agent_pending (manager s') a"
    using assms(3,4) by (simp add: distinct_card max_pending_per_agent_def)
  moreover have "task_of s'' t = Some (Asking r) \<or> task_of s'' t = Some (Done r Rejected)"
    if "task_of s' t = Some (Asking r)" "req_agent r = a" "approval_step s' s''"
    using that(3) by (cases rule: approval_step.cases) (use that(1,2) limit in auto)
  ultimately show ?thesis by blast
qed

text \<open>Five requests of an agent left behind, and a sixth task that asks.\<close>

abbreviation five :: "approval_request list" where
  "five \<equiv> map sample_request [0..<5]"

lemma left_behind_reachable:
  "approval_step\<^sup>*\<^sup>* (start p (nth_request five)) (batch p five Cancelled 5 Waiting 5)"
proof -
  have "distinct (map req_id five)" by (simp add: comp_def sample_request_def)
  then have "approval_step\<^sup>*\<^sup>* (start p (nth_request five)) (batch p five Waiting 5 Admitted 5)"
    using all_waiting [of five p] by simp
  moreover have "approval_step\<^sup>*\<^sup>* (batch p five Waiting 5 Admitted 5) (batch p five Cancelled 5 Waiting 5)"
    using cancel_batch [of 5 five p 5] batch_swap [of five 5 p Waiting Admitted 5 Cancelled] by simp
  ultimately show ?thesis by (rule rtranclp_trans)
qed

lemma approval_needs_verdict_witness:
  "\<exists>s. approval_step\<^sup>*\<^sup>* (start default_approval_policy (nth_request five)) s
     \<and> task_of s 2 = Some (Done (sample_request 2) Approved) \<and> map_of (verdicts s) 2 = Some Approved"
proof -
  let ?s1 = "batch default_approval_policy five Waiting 5 Admitted 5"
  have ids: "distinct_ids (nth_request five)"
    by (intro distinct_nth_request) (simp add: comp_def sample_request_def)
  have r1: "approval_step\<^sup>*\<^sup>* (start default_approval_policy (nth_request five)) ?s1"
    using all_waiting [of five default_approval_policy] by (simp add: comp_def sample_request_def)
  obtain m' resp where "resolve 0 (manager ?s1) 2 Approved None = (m', Ok (2, resp))"
    by (simp add: batch_def resolve_def entry_def sample_request_def upt_rec)
  from verdict [OF this] have "approval_step ?s1 (?s1\<lparr>manager := m', sent := (sent ?s1)(2 \<mapsto> Approved),
      verdicts := (2, Approved) # verdicts ?s1\<rparr>)" (is "approval_step _ ?s2") .
  moreover have "approval_step ?s2 (?s2\<lparr>task_of := (task_of ?s2)(2 \<mapsto> Done (sample_request 2) Approved)\<rparr>)"
    by (rule receive [where t = 2]) (simp_all add: batch_def nth_request_def numeral_2_eq_2)
  ultimately have r3: "approval_step\<^sup>*\<^sup>* (start default_approval_policy (nth_request five))
      (?s2\<lparr>task_of := (task_of ?s2)(2 \<mapsto> Done (sample_request 2) Approved)\<rparr>)" (is "approval_step\<^sup>*\<^sup>* _ ?s3")
    using r1 by (meson rtranclp.rtrancl_into_rtrancl)
  have "task_of ?s3 2 = Some (Done (sample_request 2) Approved)" by simp
  from approval_needs_verdict [OF r3 ids this] have "map_of (verdicts ?s3) 2 = Some Approved"
    by (simp add: sample_request_def)
  with r3 show ?thesis by (intro exI [of _ ?s3]) simp
qed

lemma cancelled_requests_block_agent_witness:
  "validate_policy (\<lambda>_. True) (default_approval_policy\<lparr>policy_timeout := 300\<rparr>) = Ok ()
   \<and> tool_timeout_secs < 300
   \<and> (\<exists>s. approval_step\<^sup>*\<^sup>* (start default_approval_policy (nth_request five)) s
        \<and> max_pending_per_agent \<le> agent_pending (manager s) ''a'' \<and> (\<forall>t. task_of s t \<noteq> Some (Waiting (sample_request t))))"
proof -
  let ?s = "batch default_approval_policy five Cancelled 5 Waiting 5"
  have "list_all (\<lambda>e. stuck_entry ?s e \<and> req_agent (request (snd e)) = ''a'') (map (entry five) [0..<5])"
    by (simp add: list_all_iff stuck_entry_def batch_def entry_def nth_request_def sample_request_def)
  moreover have "distinct (map (entry five) [0..<5])"
    by (simp add: distinct_map inj_on_def entry_def sample_request_def)
  moreover have "distinct_ids (nth_request five)"
    by (intro distinct_nth_request) (simp add: comp_def sample_request_def)
  ultimately have "max_pending_per_agent \<le> agent_pending (manager ?s) ''a''"
    using cancelled_requests_block_agent [OF left_behind_reachable, where a = "''a''" and left_behind = "map (entry five) [0..<5]" and s' = ?s]
    by (simp add: batch_def)
  moreover have "task_of ?s t \<noteq> Some (Waiting (sample_request t))" for t
    by (auto simp: batch_def nth_request_def)
  moreover have "validate_policy (\<lambda>_. True) (default_approval_policy\<lparr>policy_timeout := 300\<rparr>) = Ok ()"
    by (simp add: validate_policy_def default_approval_policy_def check_timeout_def check_name_def
        min_timeout_secs_def max_timeout_secs_def max_tool_name_len_def)
  ultimately show ?thesis using left_behind_reachable by (auto simp: tool_timeout_secs_def)
qed

end
