(* ===== verification/Kernel.thy ===== *)
theory Kernel
  imports Registry Scheduler Triggers Mcp Approval
begin

text \<open>
  The kernel's agent lifecycle, \<open>clawreform-kernel/src/kernel.rs\<close>: spawning with and without the
  inheritance check, killing, the tools an agent is offered and the approval gate. It composes the
  registry, the capability manager, the scheduler and the trigger engine.

  What the operations get from outside (ids, the clock, the outcome of writes to the memory
  substrate and the file system, the parsed TOML, the configuration) is the record \<open>spawn_env\<close>;
  the tools that exist are the record \<open>tool_sources\<close>.
\<close>

section \<open>State\<close>

record 'x kernel =
  registry :: "'x registry"
  caps :: capability_manager
  scheduler :: agent_scheduler
  engine :: trigger_engine
  stored :: "agent_id \<rightharpoonup> 'x agent_entry"

record 'x spawn_env =
  new_agent :: agent_id
  new_session :: session_id
  now :: timestamp
  clock_secs :: nat
  session_created :: bool
  workspace_ready :: bool
  agent_saved :: bool
  workspace_of :: "string \<Rightarrow> agent_id \<Rightarrow> string"
  fallback_exec_policy :: "'x \<Rightarrow> 'x"
  default_provider :: string
  default_model_name :: string
  default_base_url :: "string option"
  trigger_ids :: "nat \<Rightarrow> trigger_id"
  event_format :: format_env
  visit_order :: "trigger_engine \<Rightarrow> trigger_id list"

datatype kernel_error =
    MemoryFailed
  | WorkspaceFailed
  | RegistryFailed registry_error
  | InvalidManifest
  | SpawnRefused inheritance_error
  | Panicked panic

section \<open>Spawning\<close>

text \<open>The manifest as the kernel completes it: execution policy, default model and workspace.\<close>

definition overlay_model :: "'x spawn_env \<Rightarrow> model_config \<Rightarrow> model_config" where
  "overlay_model env c =
     (if api_key_env c = None \<and> base_url c = None
      then c\<lparr>provider := (if default_provider env = [] then provider c else default_provider env),
             model := (if default_model_name env = [] then model c else default_model_name env),
             base_url := (if default_base_url env \<noteq> None then default_base_url env else base_url c)\<rparr>
      else c)"

definition prepare_manifest :: "'x spawn_env \<Rightarrow> 'x agent_manifest \<Rightarrow> 'x agent_manifest" where
  "prepare_manifest env m =
     m\<lparr>manifest_rest := fallback_exec_policy env (manifest_rest m),
       model_conf := overlay_model env (model_conf m),
       workspace := Some (case workspace m of
                            Some w \<Rightarrow> w
                          | None \<Rightarrow> workspace_of env (manifest_name m) (new_agent env))\<rparr>"

definition new_entry :: "'x spawn_env \<Rightarrow> agent_id option \<Rightarrow> 'x agent_manifest \<Rightarrow> 'x agent_entry" where
  "new_entry env par m = \<lparr>entry_id = new_agent env, entry_name = manifest_name m, manifest = m,
     state = Running, mode = Full, created_at = now env, last_active = now env, parent = par,
     children = [], session_id = new_session env, entry_tags = manifest_tags m,
     identity = no_identity, onboarding_completed = False, onboarding_completed_at = None,
     trace_id = None\<rparr>"

definition alert_prompt :: "string \<Rightarrow> string \<Rightarrow> string" where
  "alert_prompt condition agent_name =
     ''[PROACTIVE ALERT] Condition '' @ [CHR 0x27] @ condition @ [CHR 0x27]
     @ '' matched: {{event}}. Review and take appropriate action. Agent: '' @ agent_name"

fun register_conditions ::
  "'x spawn_env \<Rightarrow> string \<Rightarrow> nat \<Rightarrow> string list \<Rightarrow> trigger_engine \<Rightarrow> trigger_engine" where
  "register_conditions env agent_name i [] eng = eng"
| "register_conditions env agent_name i (condition # rest) eng =
     register_conditions env agent_name (Suc i) rest
       (case parse_condition condition of
          None \<Rightarrow> eng
        | Some p \<Rightarrow>
            fst (register_trigger (trigger_ids env i) (now env) eng (new_agent env) p
                   (alert_prompt condition agent_name) 0))"

definition conditions_of :: "'x agent_manifest \<Rightarrow> string list" where
  "conditions_of m = (case schedule m of Proactive cs \<Rightarrow> cs | _ \<Rightarrow> [])"

definition spawned_event :: "'x spawn_env \<Rightarrow> string \<Rightarrow> unit event" where
  "spawned_event env n =
     new_event 0 (now env) (new_agent env) Broadcast (LifecycleEv (Spawned (new_agent env) n))"

text \<open>The steps after the registration; the messages of the evaluated triggers are dropped.\<close>

definition finish_spawn ::
  "'x spawn_env \<Rightarrow> 'x agent_entry \<Rightarrow> 'x kernel \<Rightarrow> 'x kernel \<times> (agent_id, kernel_error) result" where
  "finish_spawn env e k =
     (if \<not> agent_saved env then (k, Err MemoryFailed)
      else let eng = register_conditions env (entry_name e) 0 (conditions_of (manifest e)) (engine k);
               k' = k\<lparr>stored := (stored k)(entry_id e \<mapsto> e), engine := eng\<rparr>
           in case evaluate (event_format env) (visit_order env eng)
                     (spawned_event env (entry_name e)) eng of
                Inl p \<Rightarrow> (k', Err (Panicked p))
              | Inr (eng', _) \<Rightarrow> (k'\<lparr>engine := eng'\<rparr>, Ok (entry_id e)))"

definition spawn_agent_with_parent ::
  "'x spawn_env \<Rightarrow> 'x kernel \<Rightarrow> 'x agent_manifest \<Rightarrow> agent_id option
   \<Rightarrow> 'x kernel \<times> (agent_id, kernel_error) result" where
  "spawn_agent_with_parent env k m0 par =
     (if \<not> session_created env then (k, Err MemoryFailed)
      else if \<not> workspace_ready env then (k, Err WorkspaceFailed)
      else let m = prepare_manifest env m0;
               k1 = k\<lparr>caps := grant (caps k) (new_agent env) (manifest_to_capabilities m),
                      scheduler := register_quota (clock_secs env) (scheduler k) (new_agent env) (resources m)\<rparr>;
               e = new_entry env par m
           in case register (registry k1) e of
                (r, Inl err) \<Rightarrow> (k1\<lparr>registry := r\<rparr>, Err (RegistryFailed err))
              | (r, Inr _) \<Rightarrow>
                  finish_spawn env e
                    (k1\<lparr>registry := (case par of None \<Rightarrow> r | Some p \<Rightarrow> add_child r p (new_agent env))\<rparr>))"

text \<open>
  The entry points of the kernel handle. \<open>parse_toml\<close> is the parser of manifests; both parse the
  text the agent passed.
\<close>

definition spawn_agent ::
  "(string \<Rightarrow> 'x agent_manifest option) \<Rightarrow> 'x spawn_env \<Rightarrow> 'x kernel \<Rightarrow> string \<Rightarrow> agent_id option
   \<Rightarrow> 'x kernel \<times> (agent_id, kernel_error) result" where
  "spawn_agent parse_toml env k toml par =
     (case parse_toml toml of
        None \<Rightarrow> (k, Err InvalidManifest)
      | Some m \<Rightarrow> spawn_agent_with_parent env k m par)"

definition spawn_agent_checked ::
  "(string \<Rightarrow> 'x agent_manifest option) \<Rightarrow> 'x spawn_env \<Rightarrow> 'x kernel \<Rightarrow> string \<Rightarrow> agent_id option
   \<Rightarrow> capability list \<Rightarrow> 'x kernel \<times> (agent_id, kernel_error) result" where
  "spawn_agent_checked parse_toml env k toml par parent_caps =
     (case parse_toml toml of
        None \<Rightarrow> (k, Err InvalidManifest)
      | Some m \<Rightarrow>
          (case validate_capability_inheritance parent_caps (manifest_to_capabilities m) of
             Inl e \<Rightarrow> (k, Err (SpawnRefused e))
           | Inr _ \<Rightarrow> spawn_agent parse_toml env k toml par))"

section \<open>Killing\<close>

definition kill_agent :: "'x kernel \<Rightarrow> agent_id \<Rightarrow> 'x kernel \<times> (unit, kernel_error) result" where
  "kill_agent k aid =
     (case remove_agent (registry k) aid of
        (r, Inl e) \<Rightarrow> (k\<lparr>registry := r\<rparr>, Err (RegistryFailed e))
      | (r, Inr _) \<Rightarrow>
          (k\<lparr>registry := r,
             scheduler := unregister_quota (scheduler k) aid,
             caps := revoke_all (caps k) aid,
             engine := remove_agent_triggers (engine k) aid,
             stored := (stored k)(aid := None)\<rparr>, Ok ()))"

section \<open>Tools of an agent\<close>

text \<open>
  The tools that exist: the builtin ones, those of the installed skills (for an allow-list of skill
  names; the empty list stands for all) and those of the connected MCP servers.
\<close>

record 'j tool_sources =
  builtin_tools :: "'j tool_definition list"
  skill_tools :: "string list \<Rightarrow> 'j tool_definition list"
  mcp_tools :: "'j tool_definition list"

definition profile_filter ::
  "tool_profile option \<Rightarrow> 'j tool_definition list \<Rightarrow> 'j tool_definition list" where
  "profile_filter pr ts =
     (case pr of
        Some p \<Rightarrow>
          if p \<noteq> FullProfile \<and> p \<noteq> CustomProfile
          then filter (\<lambda>t. list_ex (\<lambda>a. a = ''*'' \<or> a = tool_name t) (profile_tools p)) ts
          else ts
      | None \<Rightarrow> ts)"

definition mcp_filter :: "string list \<Rightarrow> 'j tool_definition list \<Rightarrow> 'j tool_definition list" where
  "mcp_filter allowlist ts =
     (if allowlist = [] then ts
      else filter (\<lambda>t. case extract_mcp_server (tool_name t) of
                         None \<Rightarrow> False
                       | Some s \<Rightarrow> list_ex (\<lambda>n. n = s) (map normalize_name allowlist)) ts)"

definition available_tools :: "'j tool_sources \<Rightarrow> 'x kernel \<Rightarrow> agent_id \<Rightarrow> 'j tool_definition list" where
  "available_tools src k aid =
     (let (skill_allow, mcp_allow, pr) =
            (case get_agent (registry k) aid of
               None \<Rightarrow> ([], [], None)
             | Some e \<Rightarrow> (skills (manifest e), mcp_servers (manifest e), profile (manifest e)));
          all_tools = profile_filter pr (builtin_tools src) @ skill_tools src skill_allow
                      @ mcp_filter mcp_allow (mcp_tools src);
          cs = list_capabilities (caps k) aid
      in if list_ex (\<lambda>c. c = ToolAll) cs then all_tools
         else filter (\<lambda>t. list_ex (\<lambda>c. case c of
                                          ToolInvoke n \<Rightarrow> n = tool_name t \<or> n = ''*''
                                        | _ \<Rightarrow> False) cs) all_tools)"

text \<open>What the agent loop is given, after the agent's mode has filtered it.\<close>

definition offered_tools :: "'j tool_sources \<Rightarrow> 'x kernel \<Rightarrow> agent_id \<Rightarrow> 'j tool_definition list" where
  "offered_tools src k aid =
     (case get_agent (registry k) aid of
        None \<Rightarrow> []
      | Some e \<Rightarrow> filter_tools (mode e) (available_tools src k aid))"

section \<open>The approval gate\<close>

text \<open>\<open>request_approval\<close> of the kernel approves at once for an agent with a tag of a hand.\<close>

definition auto_approved :: "'x kernel \<Rightarrow> agent_id \<Rightarrow> bool" where
  "auto_approved k aid =
     (case get_agent (registry k) aid of
        None \<Rightarrow> False
      | Some e \<Rightarrow> list_ex (\<lambda>t. starts_with t ''hand:'') (entry_tags e))"

datatype tool_gate = NotAllowed | Proceed | AskOperator

text \<open>
  The two guards before \<open>execute_tool\<close> runs a tool: the list of allowed names and the approval
  policy.
\<close>

definition tool_gate ::
  "'x kernel \<Rightarrow> approval_manager \<Rightarrow> string list \<Rightarrow> agent_id \<Rightarrow> string \<Rightarrow> tool_gate" where
  "tool_gate k approvals allowed aid tool =
     (if \<not> list_ex (\<lambda>t. t = tool) allowed then NotAllowed
      else if requires_approval approvals tool
        then (if auto_approved k aid then Proceed else AskOperator)
      else Proceed)"

section \<open>Facts about spawning\<close>

lemma prepared_effective: "effective_capabilities (prepare_manifest env m) = effective_capabilities m"
  by (cases "profile m") (simp_all add: effective_capabilities_def prepare_manifest_def)

lemma prepared_capabilities [simp]:
  "manifest_to_capabilities (prepare_manifest env m) = manifest_to_capabilities m"
  by (simp add: manifest_to_capabilities_def prepared_effective)

lemma prepared_fields [simp]:
  "manifest_name (prepare_manifest env m) = manifest_name m"
  "manifest_tags (prepare_manifest env m) = manifest_tags m"
  "resources (prepare_manifest env m) = resources m"
  by (simp_all add: prepare_manifest_def)

lemma finish_spawn_ok:
  "finish_spawn env e k = (k', Ok aid) \<Longrightarrow>
   aid = entry_id e \<and> caps k' = caps k \<and> registry k' = registry k \<and> scheduler k' = scheduler k
   \<and> stored k' = (stored k)(entry_id e \<mapsto> e)"
  by (auto simp: finish_spawn_def Let_def split: if_splits sum.splits prod.splits)

lemma spawn_ok:
  assumes "spawn_agent_with_parent env k m par = (k', Ok aid)"
  defines "e \<equiv> new_entry env par (prepare_manifest env m)"
  shows "aid = new_agent env \<and> caps k' = grant (caps k) aid (manifest_to_capabilities m)
    \<and> scheduler k' = register_quota (clock_secs env) (scheduler k) aid (resources m)
    \<and> stored k' = (stored k)(aid \<mapsto> e)
    \<and> is_ok (snd (register (registry k) e))
    \<and> registry k' = (case par of None \<Rightarrow> fst (register (registry k) e)
                               | Some q \<Rightarrow> add_child (fst (register (registry k) e)) q aid)"
proof -
  have id: "entry_id e = new_agent env" by (simp add: e_def new_entry_def)
  obtain r res where reg: "register (registry k) e = (r, res)" by (cases "register (registry k) e")
  show ?thesis
    using assms(1) id reg unfolding spawn_agent_with_parent_def Let_def e_def [symmetric]
    by (cases par) (auto split: if_splits sum.splits dest!: finish_spawn_ok)
qed

lemma registered_entry:
  assumes "is_ok (snd (register r e))"
  shows "\<exists>e'. get_agent (case par of None \<Rightarrow> fst (register r e)
                                    | Some q \<Rightarrow> add_child (fst (register r e)) q c) (entry_id e) = Some e'
    \<and> manifest e' = manifest e \<and> entry_name e' = entry_name e \<and> entry_tags e' = entry_tags e
    \<and> mode e' = mode e \<and> state e' = state e \<and> parent e' = parent e"
proof -
  have "agents (fst (register r e)) (entry_id e) = Some e"
    using assms by (auto simp: register_def split: if_splits)
  then show ?thesis by (auto simp: get_agent_def add_child_def split: option.split)
qed

lemma spawned_entry:
  assumes "spawn_agent_with_parent env k m par = (k', Ok aid)"
  shows "\<exists>e. get_agent (registry k') aid = Some e \<and> manifest e = prepare_manifest env m
    \<and> entry_name e = manifest_name m \<and> entry_tags e = manifest_tags m \<and> mode e = Full
    \<and> state e = Running \<and> parent e = par"
  using spawn_ok [OF assms]
    registered_entry [where r = "registry k" and e = "new_entry env par (prepare_manifest env m)"
      and par = par and c = aid]
  by (auto simp: new_entry_def)

section \<open>Facts about tools\<close>

lemma invoke_case:
  "(case c of ToolInvoke n \<Rightarrow> n = x \<or> n = ''*'' | _ \<Rightarrow> False) \<longleftrightarrow> c = ToolInvoke x \<or> c = ToolInvoke ''*''"
  by (cases c) auto

lemma available_tool_granted:
  assumes "t \<in> set (available_tools src k aid)"
  shows "\<exists>gs. grants (caps k) aid = Some gs
    \<and> (ToolAll \<in> set gs \<or> ToolInvoke (tool_name t) \<in> set gs \<or> ToolInvoke ''*'' \<in> set gs)"
proof -
  let ?cs = "list_capabilities (caps k) aid"
  have "list_ex (\<lambda>c. c = ToolAll) ?cs
      \<or> list_ex (\<lambda>c. c = ToolInvoke (tool_name t) \<or> c = ToolInvoke ''*'') ?cs"
    using assms unfolding available_tools_def invoke_case by (auto simp: Let_def split_def split: if_splits)
  then have "ToolAll \<in> set ?cs \<or> ToolInvoke (tool_name t) \<in> set ?cs \<or> ToolInvoke ''*'' \<in> set ?cs"
    by (auto simp: list_ex_iff)
  then show ?thesis by (cases "grants (caps k) aid") (auto simp: list_capabilities_def)
qed

lemma offered_subset: "set (offered_tools src k aid) \<subseteq> set (available_tools src k aid)"
  using filter_tools_subset by (auto simp: offered_tools_def split: option.splits)

lemma tool_grant_matches:
  "ToolAll \<in> set gs \<or> ToolInvoke n \<in> set gs \<or> ToolInvoke ''*'' \<in> set gs \<Longrightarrow>
   may capability_matches gs (ToolInvoke n)"
  by (auto simp: may_def list_ex_iff
      intro: bexI [of _ ToolAll] bexI [of _ "ToolInvoke n"] bexI [of _ "ToolInvoke ''*''"])

lemma tool_matches_all:
  "capability_matches p c \<Longrightarrow> c = ToolInvoke n \<or> c = ToolInvoke ''*'' \<Longrightarrow> capability_matches p (ToolInvoke n)"
  by (cases p) auto

text \<open>
  C26: An agent is never offered a tool it is not granted: every tool the agent loop of an agent gets
  passes the capability check for invoking it. An observing agent gets none, an assisting one only
  tools of the read-only list.
\<close>

theorem offered_tools_granted:
  assumes "t \<in> set (offered_tools src k aid)" "get_agent (registry k) aid = Some e"
  shows "check (caps k) aid (ToolInvoke (tool_name t)) = Granted
    \<and> mode e \<noteq> Observe \<and> (mode e = Assist \<longrightarrow> tool_name t \<in> set read_only_tools)"
proof -
  have "t \<in> set (available_tools src k aid)" using assms(1) offered_subset by blast
  then have "check (caps k) aid (ToolInvoke (tool_name t)) = Granted"
    using available_tool_granted tool_grant_matches unfolding check_iff by blast
  moreover have "t \<in> set (filter_tools (mode e) (available_tools src k aid))"
    using assms by (simp add: offered_tools_def)
  ultimately show ?thesis by (cases "mode e") auto
qed


text \<open>
  A killed agent leaves nothing behind in the kernel: it is in none of the registry's indexes, every
  capability check of it is denied, it has no quota and no usage, owns no trigger, is no longer
  stored and is offered no tool; other agents keep their entries, grants and triggers.
\<close>

theorem kill_removes_everything:
  assumes "kill_agent k aid = (k', Ok ())" "consistent (registry k)" "engine_ok (engine k)"
  shows "get_agent (registry k') aid = None \<and> find_by_name (registry k') n \<noteq> get_agent (registry k) aid
    \<and> aid \<notin> set (tagged (registry k') tag)
    \<and> check (caps k') aid r = Denied (NoCapabilitiesRegistered aid)
    \<and> quotas (scheduler k') aid = None \<and> get_usage (scheduler k') aid = None
    \<and> {t \<in> list_all_triggers (engine k'). owner t = aid} = {} \<and> stored k' aid = None
    \<and> offered_tools src k' aid = []
    \<and> (b \<noteq> aid \<longrightarrow> get_agent (registry k') b = get_agent (registry k) b
         \<and> check (caps k') b r = check (caps k) b r
         \<and> {t \<in> list_all_triggers (engine k'). owner t = b} = {t \<in> list_all_triggers (engine k). owner t = b})"
proof -
  obtain e where e: "agents (registry k) aid = Some e"
    and k': "registry k' = fst (remove_agent (registry k) aid)" "caps k' = revoke_all (caps k) aid"
      "scheduler k' = unregister_quota (scheduler k) aid" "engine k' = remove_agent_triggers (engine k) aid"
      "stored k' = (stored k)(aid := None)"
    using assms(1) by (auto simp: kill_agent_def remove_agent_def split: option.splits)
  have c': "consistent (registry k')" using consistent_remove [OF assms(2)] k'(1) by simp
  have ag: "agents (registry k') = (agents (registry k))(aid := None)" using e k'(1) by (simp add: remove_agent_def)
  have trig: "list_all_triggers (engine k') = {t \<in> list_all_triggers (engine k). owner t \<noteq> aid}"
    using owned_triggers [OF assms(3)] k'(4) by simp
  have "find_by_name (registry k') n \<noteq> Some e"
  proof
    assume "find_by_name (registry k') n = Some e"
    then obtain i where "agents (registry k') i = Some e"
      using find_by_name_iff [OF c'] by (auto simp: list_agents_def ran_def)
    with ag consistentD(1) [OF assms(2)] e show False by (metis fun_upd_apply option.distinct(1))
  qed
  moreover have "aid \<notin> set (tagged (registry k') tag)" using consistentD(3) [OF c'] ag by simp
  ultimately show ?thesis
    using e ag k' trig
    by (auto simp: get_agent_def check_def revoke_all_def unregister_quota_def abort_task_def
        get_usage_def offered_tools_def Let_def)
qed

text \<open>
  A spawn that fails because its name is taken is not undone: the registry is unchanged, but the
  capabilities and the quota of the agent that does not exist stay registered.
\<close>

theorem name_clash_leaves_grants:
  assumes "session_created env" "workspace_ready env"
    and "find_by_name (registry k) (manifest_name m) = Some other"
  shows "let (k', res) = spawn_agent_with_parent env k m par
    in res = Err (RegistryFailed (AgentAlreadyExists (manifest_name m))) \<and> registry k' = registry k
       \<and> grants (caps k') (new_agent env) = Some (manifest_to_capabilities m)
       \<and> quotas (scheduler k') (new_agent env) = Some (resources m)"
proof -
  have "name_index (registry k) (manifest_name m) \<noteq> None"
    using assms(3) by (auto simp: find_by_name_def bind_eq_Some_conv)
  then have "register (registry k) (new_entry env par (prepare_manifest env m)) =
      (registry k, Err (AgentAlreadyExists (manifest_name m)))"
    by (auto simp: register_def new_entry_def)
  with assms(1,2) show ?thesis
    by (simp add: spawn_agent_with_parent_def Let_def grant_def register_quota_def)
qed

text \<open>
  A successful spawn registers exactly the agent that was asked for: running, in full mode, under
  the id and name and tags given and with its manifest, with the capabilities of the manifest, its
  quota and an empty usage; a manifest that carries the tag of a hand makes every tool call of the
  agent pass the approval gate without an operator.
\<close>

theorem spawn_registers_agent:
  assumes "spawn_agent_with_parent env k m par = (k', Ok aid)"
  shows "aid = new_agent env
    \<and> (\<exists>e. get_agent (registry k') aid = Some e \<and> manifest e = prepare_manifest env m
         \<and> entry_name e = manifest_name m \<and> state e = Running \<and> mode e = Full \<and> parent e = par)
    \<and> list_capabilities (caps k') aid = manifest_to_capabilities m
    \<and> get_usage (scheduler k') aid = Some (0, 0) \<and> quotas (scheduler k') aid = Some (resources m)
    \<and> (list_ex (\<lambda>t. starts_with t ''hand:'') (manifest_tags m) \<longrightarrow>
         tool_gate k' approvals allowed aid tool \<noteq> AskOperator)"
  using spawn_ok [OF assms] spawned_entry [OF assms]
  by (auto simp: list_capabilities_def grant_def register_quota_def get_usage_def new_tracker_def
      tool_gate_def auto_approved_def)

section \<open>A spawning agent and its child\<close>

definition no_capabilities :: manifest_capabilities where
  "no_capabilities = \<lparr>network = [], tools = [], memory_read = [], memory_write = [],
     agent_spawn = False, agent_message = [], shell = [], ofp_discover = False, ofp_connect = []\<rparr>"

definition sample_manifest ::
  "string \<Rightarrow> manifest_capabilities \<Rightarrow> tool_profile option \<Rightarrow> string list \<Rightarrow> unit agent_manifest" where
  "sample_manifest n cs pr tags = \<lparr>manifest_name = n, description = [], schedule = Reactive,
     model_conf = default_model, resources = default_quota, capabilities = cs, profile = pr,
     skills = [], mcp_servers = [], manifest_tags = tags, workspace = None,
     generate_identity_files = True, manifest_rest = ()\<rparr>"

definition sample_env :: "nat \<Rightarrow> unit spawn_env" where
  "sample_env i = \<lparr>new_agent = i, new_session = i, now = 0, clock_secs = 0, session_created = True,
     workspace_ready = True, agent_saved = True, workspace_of = (\<lambda>n _. n),
     fallback_exec_policy = id, default_provider = [], default_model_name = [],
     default_base_url = None, trigger_ids = id, event_format = plain_env, visit_order = (\<lambda>_. [])\<rparr>"

definition empty_kernel :: "unit kernel" where
  "empty_kernel = \<lparr>registry = new_registry, caps = new_manager, scheduler = new_scheduler,
     engine = new_engine, stored = Map.empty\<rparr>"

definition shell_only :: "unit tool_sources" where
  "shell_only = \<lparr>builtin_tools = [\<lparr>tool_name = ''shell_exec'', tool_description = [], input_schema = ()\<rparr>],
     skill_tools = (\<lambda>_. []), mcp_tools = []\<rparr>"

text \<open>An agent that may only spawn, and the kernel in which it runs as agent 7.\<close>

definition spawner :: "unit agent_manifest" where
  "spawner = sample_manifest ''boss''
     (no_capabilities\<lparr>tools := [''agent_spawn''], agent_spawn := True\<rparr>) None []"

definition boss_kernel :: "unit kernel" where
  "boss_kernel = fst (spawn_agent_with_parent (sample_env 7) empty_kernel spawner None)"

definition full_child :: "unit agent_manifest" where
  "full_child = sample_manifest ''kid'' no_capabilities (Some FullProfile) [''hand:kid'']"

lemmas sample_defs = no_capabilities_def sample_manifest_def sample_env_def empty_kernel_def
  shell_only_def spawner_def full_child_def

lemmas spawn_defs = spawn_agent_with_parent_def finish_spawn_def prepare_manifest_def new_entry_def
  overlay_model_def conditions_of_def manifest_to_capabilities_def effective_capabilities_def
  register_def evaluate_def describe_event_def spawned_event_def new_event_def Let_def

lemma boss: "spawn_agent_with_parent (sample_env 7) empty_kernel spawner None = (boss_kernel, Ok 7)"
  unfolding boss_kernel_def
  by (simp add: sample_defs spawn_defs new_registry_def)

lemma boss_parts: "list_capabilities (caps boss_kernel) 7 = [ToolInvoke ''agent_spawn'', AgentSpawn]"
  using spawn_ok [OF boss]
  by (simp add: list_capabilities_def manager.get_put manifest_to_capabilities_def effective_capabilities_def
     spawner_def sample_manifest_def no_capabilities_def)

lemma boss_entry:
  obtains e where "get_agent (registry boss_kernel) 7 = Some e" "mode e = Full" "entry_name e = ''boss''"
  using spawned_entry [OF boss] by (auto simp: spawner_def sample_manifest_def)

lemma offered_tools_granted_witness:
  "check (caps boss_kernel) 7 (ToolInvoke ''agent_spawn'') = Granted"
proof -
  let ?t = "\<lparr>tool_name = ''agent_spawn'', tool_description = [], input_schema = ()\<rparr>"
  let ?src = "shell_only\<lparr>builtin_tools := [?t]\<rparr>"
  obtain e where e: "get_agent (registry boss_kernel) 7 = Some e" "mode e = Full"
    by (rule boss_entry)
  have "profile (manifest e) = None"
    using spawned_entry [OF boss] e(1)
    by (auto simp: prepare_manifest_def spawner_def sample_manifest_def)
  then have "?t \<in> set (offered_tools ?src boss_kernel 7)"
    using e by (simp add: offered_tools_def available_tools_def boss_parts profile_filter_def Let_def
        shell_only_def)
  from offered_tools_granted [OF this e(1)] show ?thesis by simp
qed

lemma spawn_registers_agent_witness:
  "get_usage (scheduler boss_kernel) 7 = Some (0, 0)
   \<and> list_capabilities (caps boss_kernel) 7 = manifest_to_capabilities spawner"
  using spawn_registers_agent [OF boss] by simp

lemma name_clash_leaves_grants_witness:
  "grants (caps (fst (spawn_agent_with_parent (sample_env 8) boss_kernel spawner None))) 8
     = Some (manifest_to_capabilities spawner)"
proof -
  obtain e where "get_agent (registry boss_kernel) 7 = Some e" "entry_name e = ''boss''"
    by (rule boss_entry)
  moreover have "name_index (registry boss_kernel) ''boss'' = Some 7"
    using spawn_ok [OF boss] by (auto simp: register_def empty_kernel_def new_registry_def new_entry_def
        spawner_def sample_manifest_def prepare_manifest_def)
  ultimately have "find_by_name (registry boss_kernel) (manifest_name spawner) = Some e"
    by (simp add: find_by_name_def get_agent_def spawner_def sample_manifest_def)
  then show ?thesis
    using name_clash_leaves_grants [of "sample_env 8" boss_kernel spawner e None]
    by (simp add: split_def Let_def) (simp add: sample_env_def)
qed

lemma boss_consistent: "consistent (registry boss_kernel)" "engine_ok (engine boss_kernel)"
proof -
  have "registry boss_kernel = fst (register new_registry (new_entry (sample_env 7) None
      (prepare_manifest (sample_env 7) spawner)))"
    using spawn_ok [OF boss] by (simp add: empty_kernel_def)
  then show "consistent (registry boss_kernel)"
    using consistent_register [OF consistent_new] by (simp add: new_registry_def)
  have "engine boss_kernel = new_engine"
    unfolding boss_kernel_def by (simp add: sample_defs spawn_defs new_registry_def)
  then show "engine_ok (engine boss_kernel)" by (simp add: engine_ok_new)
qed

lemma kill_removes_everything_witness:
  "offered_tools shell_only (fst (kill_agent boss_kernel 7)) 7 = []
   \<and> check (caps (fst (kill_agent boss_kernel 7))) 7 AgentSpawn = Denied (NoCapabilitiesRegistered 7)"
proof -
  obtain e where "get_agent (registry boss_kernel) 7 = Some e" by (rule boss_entry)
  then obtain k' where "kill_agent boss_kernel 7 = (k', Ok ())"
    by (simp add: kill_agent_def remove_agent_def get_agent_def)
  with kill_removes_everything [OF this boss_consistent, where r = AgentSpawn and src = shell_only]
  show ?thesis by simp
qed

text \<open>A child of the spawning agent that the inheritance check accepts.\<close>

definition small_child :: "unit agent_manifest" where
  "small_child = sample_manifest ''kid'' (no_capabilities\<lparr>tools := [''agent_spawn'']\<rparr>) None []"

lemma boss_registry:
  "name_index (registry boss_kernel) = [''boss'' \<mapsto> 7]" "engine boss_kernel = new_engine"
  unfolding boss_kernel_def
  by (simp_all add: sample_defs spawn_defs new_registry_def)

lemma kid_registers:
  "is_ok (snd (register (registry boss_kernel) e)) \<longleftrightarrow> entry_name e \<noteq> ''boss''"
  by (auto simp: register_def boss_registry)

lemma spawn_succeeds:
  assumes "is_ok (snd (register (registry k) (new_entry env par (prepare_manifest env m))))"
    and "session_created env" "workspace_ready env" "agent_saved env"
  shows "\<exists>k'. spawn_agent_with_parent env k m par = (k', Ok (new_agent env))"
proof -
  obtain r where "register (registry k) (new_entry env par (prepare_manifest env m)) = (r, Ok ())"
    using assms(1) by (cases "register (registry k) (new_entry env par (prepare_manifest env m))") (auto simp: is_ok_conv)
  moreover have "\<exists>ek. finish_spawn env (new_entry env par m') k1 = (ek, Ok (new_agent env))" for m' k1
    using assms(4) by (simp add: finish_spawn_def Let_def evaluate_def describe_event_def spawned_event_def
        new_event_def split_def new_entry_def)
  ultimately show ?thesis
    using assms(2,3) by (simp add: spawn_agent_with_parent_def Let_def)
qed

lemma kid_spawned:
  assumes "manifest_name m = ''kid''"
  shows "\<exists>k'. spawn_agent_with_parent (sample_env 8) boss_kernel m (Some 7) = (k', Ok 8)"
  using spawn_succeeds [of boss_kernel "sample_env 8" "Some 7" m] assms
  by (simp add: kid_registers new_entry_def sample_env_def)


text \<open>
  The native spawning tool is not confined in this way. An agent that may only spawn agents is
  refused the shell; the checked entry point refuses it a child with the full tool profile; the
  entry point behind the native tool spawns that child, which then runs the shell, and because its
  manifest carries the tag of a hand it does so without asking an operator, although the policy
  requires approval for the shell.
\<close>

theorem native_spawn_escalates:
  "\<exists>k'. spawn_agent (\<lambda>_. Some full_child) (sample_env 8) boss_kernel ''toml'' (Some 7) = (k', Ok 8)
   \<and> tool_gate k' (new_approval_manager default_approval_policy)
       (map tool_name (offered_tools shell_only k' 8)) 8 ''shell_exec'' = Proceed
   \<and> tool_gate boss_kernel (new_approval_manager default_approval_policy)
       (map tool_name (offered_tools shell_only boss_kernel 7)) 7 ''shell_exec'' = NotAllowed
   \<and> requires_approval (new_approval_manager default_approval_policy) ''shell_exec''
   \<and> snd (spawn_agent_checked (\<lambda>_. Some full_child) (sample_env 8) boss_kernel ''toml'' (Some 7)
            (list_capabilities (caps boss_kernel) 7)) = Err (SpawnRefused (PrivilegeEscalation (NetConnect ''*'')))"
proof -
  obtain k' where spawned: "spawn_agent_with_parent (sample_env 8) boss_kernel full_child (Some 7) = (k', Ok 8)"
    using kid_spawned [of full_child] by (auto simp: full_child_def sample_manifest_def)
  have all_caps: "manifest_to_capabilities full_child =
      [NetConnect ''*'', ToolInvoke ''*'', MemoryRead ''*'', MemoryWrite ''self.*'', AgentSpawn,
       AgentMessage ''*'', ShellExec ''*'']"
    by (simp add: manifest_to_capabilities_def effective_capabilities_def full_child_def sample_manifest_def
        no_capabilities_def implied_capabilities_def or_override_def Let_def)
  obtain e where e: "get_agent (registry k') 8 = Some e" "manifest e = prepare_manifest (sample_env 8) full_child"
    "entry_tags e = [''hand:kid'']" "mode e = Full"
    using spawned_entry [OF spawned] by (auto simp: full_child_def sample_manifest_def)
  have cs: "list_capabilities (caps k') 8 = [NetConnect ''*'', ToolInvoke ''*'', MemoryRead ''*'',
      MemoryWrite ''self.*'', AgentSpawn, AgentMessage ''*'', ShellExec ''*'']"
    using spawn_ok [OF spawned] by (simp add: list_capabilities_def manager.get_put all_caps)
  have "profile (manifest e) = Some FullProfile" "mcp_servers (manifest e) = []"
    unfolding e(2) by (simp_all add: prepare_manifest_def full_child_def sample_manifest_def)
  then have "map tool_name (offered_tools shell_only k' 8) = [''shell_exec'']"
    using e(1,4) by (simp add: offered_tools_def available_tools_def cs profile_filter_def shell_only_def
        mcp_filter_def Let_def)
  moreover have "auto_approved k' 8" using e by (simp add: auto_approved_def starts_with_def)
  ultimately have kid: "tool_gate k' (new_approval_manager default_approval_policy)
      (map tool_name (offered_tools shell_only k' 8)) 8 ''shell_exec'' = Proceed"
    by (simp add: tool_gate_def)
  obtain b where b: "get_agent (registry boss_kernel) 7 = Some b" "mode b = Full" by (rule boss_entry)
  have "offered_tools shell_only boss_kernel 7 = []"
    using b by (simp add: offered_tools_def available_tools_def boss_parts profile_filter_def shell_only_def
        mcp_filter_def Let_def split: option.split)
  then have boss_gate: "tool_gate boss_kernel (new_approval_manager default_approval_policy)
      (map tool_name (offered_tools shell_only boss_kernel 7)) 7 ''shell_exec'' = NotAllowed"
    by (simp add: tool_gate_def)
  have "snd (spawn_agent_checked (\<lambda>_. Some full_child) (sample_env 8) boss_kernel ''toml'' (Some 7)
      (list_capabilities (caps boss_kernel) 7)) = Err (SpawnRefused (PrivilegeEscalation (NetConnect ''*'')))"
    by (simp add: spawn_agent_checked_def boss_parts all_caps)
  moreover have "requires_approval (new_approval_manager default_approval_policy) ''shell_exec''"
    by (simp add: requires_approval_def new_approval_manager_def default_approval_policy_def)
  ultimately show ?thesis using spawned kid boss_gate by (auto simp: spawn_agent_def)
qed

end
