(* ===== verification/Float64.thy ===== *)
theory Float64
  imports Prelude
begin

text \<open>
  The \<open>f64\<close> arithmetic of the code that computes with floating point numbers (context budgets,
  back-off): every finite non-negative \<open>f64\<close> is \<open>m * 2 ^ e\<close> for an integer \<open>m\<close> below \<open>2 ^ 53\<close>, and
  an operation rounds its exact result to the nearest such number, to the even one at a tie. Overflow
  to infinity and subnormal results are out of range of every computation in the code.
\<close>

datatype dyadic = Dy nat int

fun bit_length :: "nat \<Rightarrow> nat" where
  "bit_length n = (if n = 0 then 0 else Suc (bit_length (n div 2)))"

declare bit_length.simps [simp del]

text \<open>\<open>n / 2 ^ k\<close>, rounded to the nearest integer, to even at a tie.\<close>

definition shift_round :: "nat \<Rightarrow> nat \<Rightarrow> nat" where
  "shift_round n k =
     (let q = n div 2 ^ k; r = n mod 2 ^ k
      in if 2 * r > 2 ^ k \<or> (2 * r = 2 ^ k \<and> odd q) then q + 1 else q)"

fun round_f64 :: "dyadic \<Rightarrow> dyadic" where
  "round_f64 (Dy m e) =
     (let b = bit_length m in if b \<le> 53 then Dy m e else Dy (shift_round m (b - 53)) (e + int (b - 53)))"

definition f64_of_nat :: "nat \<Rightarrow> dyadic" where
  "f64_of_nat n = round_f64 (Dy n 0)"

fun f64_mul :: "dyadic \<Rightarrow> dyadic \<Rightarrow> dyadic" where
  "f64_mul (Dy m e) (Dy n d) = round_f64 (Dy (m * n) (e + d))"

text \<open>\<open>as usize\<close> and \<open>as u64\<close>: truncation, saturating at the largest value.\<close>

fun f64_trunc :: "dyadic \<Rightarrow> nat" where
  "f64_trunc (Dy m e) = (if 0 \<le> e then m * 2 ^ nat e else m div 2 ^ nat (- e))"

definition f64_to_u64 :: "dyadic \<Rightarrow> nat" where
  "f64_to_u64 x = min (f64_trunc x) (2 ^ 64 - 1)"

text \<open>\<open>powi\<close> of the runtime library for an exponent \<open>n \<ge> 0\<close>: square and multiply.\<close>

fun powi_from :: "dyadic \<Rightarrow> dyadic \<Rightarrow> nat \<Rightarrow> dyadic" where
  "powi_from r a n =
     (let r' = (if odd n then f64_mul r a else r)
      in if n div 2 = 0 then r' else powi_from r' (f64_mul a a) (n div 2))"

declare powi_from.simps [simp del]

definition f64_powi :: "dyadic \<Rightarrow> nat \<Rightarrow> dyadic" where
  "f64_powi a n = powi_from (Dy 1 0) a n"

text \<open>
  Sum, quotient, comparison and rounding up. The quotient is computed to at least two bits more than a
  number has, with a last bit that tells whether the division went on, and then rounded.
\<close>

fun f64_add :: "dyadic \<Rightarrow> dyadic \<Rightarrow> dyadic" where
  "f64_add (Dy m e) (Dy n d) =
     round_f64 (if e \<le> d then Dy (m + n * 2 ^ nat (d - e)) e else Dy (m * 2 ^ nat (e - d) + n) d)"

fun f64_div :: "dyadic \<Rightarrow> dyadic \<Rightarrow> dyadic" where
  "f64_div (Dy m e) (Dy n d) =
     (let k = 55 + bit_length n; q = m * 2 ^ k div n; r = m * 2 ^ k mod n
      in round_f64 (Dy (2 * q + (if r = 0 then 0 else 1)) (e - d - int k - 1)))"

fun f64_less :: "dyadic \<Rightarrow> dyadic \<Rightarrow> bool" where
  "f64_less (Dy m e) (Dy n d) =
     (if e \<le> d then m < n * 2 ^ nat (d - e) else m * 2 ^ nat (e - d) < n)"

fun f64_round :: "dyadic \<Rightarrow> nat" where
  "f64_round (Dy m e) = (if 0 \<le> e then m * 2 ^ nat e else (2 * m + 2 ^ nat (- e)) div (2 * 2 ^ nat (- e)))"

fun f64_ceil :: "dyadic \<Rightarrow> nat" where
  "f64_ceil (Dy m e) = (if 0 \<le> e then m * 2 ^ nat e else (m + 2 ^ nat (- e) - 1) div 2 ^ nat (- e))"

text \<open>For evaluation on concrete numbers.\<close>

lemma bit_length_eval [simp]:
  "bit_length 0 = 0" "bit_length (Suc 0) = 1"
  "bit_length (numeral k) = Suc (bit_length (numeral k div 2))"
  by (simp_all add: bit_length.simps)

lemma powi_from_eval [simp]:
  "powi_from r a 0 = r" "powi_from r a (Suc 0) = f64_mul r a"
  "powi_from r a (numeral k) =
     (let r' = (if odd (numeral k :: nat) then f64_mul r a else r)
      in if numeral k div 2 = (0 :: nat) then r' else powi_from r' (f64_mul a a) (numeral k div 2))"
  by (subst powi_from.simps, simp)+

text \<open>A number of at most 53 bits is exact, and so are products that stay below that.\<close>

lemma bit_length_le: "bit_length n \<le> k \<longleftrightarrow> n < 2 ^ k"
proof (induction n arbitrary: k rule: bit_length.induct)
  case (1 n)
  show ?case
  proof (cases "n = 0")
    case True
    then show ?thesis by (simp add: bit_length.simps)
  next
    case False
    then have "bit_length n = Suc (bit_length (n div 2))" by (simp add: bit_length.simps)
    moreover have "n div 2 < 2 ^ j \<longleftrightarrow> n < 2 ^ Suc j" for j by auto
    ultimately show ?thesis using 1 [OF False] False by (cases k) auto
  qed
qed

lemma round_exact: "m < 2 ^ 53 \<Longrightarrow> round_f64 (Dy m e) = Dy m e"
  by (simp add: Let_def bit_length_le)

lemma f64_of_nat_exact: "n < 2 ^ 53 \<Longrightarrow> f64_of_nat n = Dy n 0"
  unfolding f64_of_nat_def by (rule round_exact)

lemma f64_mul_exact: "m * n < 2 ^ 53 \<Longrightarrow> f64_mul (Dy m e) (Dy n d) = Dy (m * n) (e + d)"
  by (simp del: round_f64.simps add: round_exact)

end
