(* ===== verification/Context_Budget.thy ===== *)
theory Context_Budget
  imports Float64 Message Agent
begin

text \<open>
  Keeping a conversation inside the model's context window: the token estimate of
  \<open>clawreform-runtime/src/compactor.rs\<close>, the budgets for tool results of \<open>context_budget.rs\<close> and the
  recovery stages of \<open>context_overflow.rs\<close>. A slice at a byte inside a character is a panic.
\<close>

section \<open>Budgets\<close>

record context_budget =
  context_window_tokens :: nat
  tool_chars_per_token :: dyadic
  general_chars_per_token :: dyadic

definition new_budget :: "nat \<Rightarrow> context_budget" where
  "new_budget n = \<lparr>context_window_tokens = n, tool_chars_per_token = Dy 2 0, general_chars_per_token = Dy 4 0\<rparr>"

text \<open>The \<open>f64\<close> constants 0.30, 0.50, 0.70, 0.75 and 0.90.\<close>

definition f64_030 :: dyadic where
  "f64_030 = Dy 5404319552844595 (- 54)"

definition f64_050 :: dyadic where
  "f64_050 = Dy 1 (- 1)"

definition f64_070 :: dyadic where
  "f64_070 = Dy 6305039478318694 (- 53)"

definition f64_075 :: dyadic where
  "f64_075 = Dy 3 (- 2)"

definition f64_090 :: dyadic where
  "f64_090 = Dy 8106479329266893 (- 53)"

text \<open>\<open>(n as f64 * x) as usize\<close>.\<close>

definition scale :: "nat \<Rightarrow> dyadic \<Rightarrow> nat" where
  "scale n x = f64_to_u64 (f64_mul (f64_of_nat n) x)"

definition per_result_cap :: "context_budget \<Rightarrow> nat" where
  "per_result_cap b = scale (scale (context_window_tokens b) f64_030) (tool_chars_per_token b)"

definition single_result_max :: "context_budget \<Rightarrow> nat" where
  "single_result_max b = scale (scale (context_window_tokens b) f64_050) (tool_chars_per_token b)"

definition total_tool_headroom_chars :: "context_budget \<Rightarrow> nat" where
  "total_tool_headroom_chars b = scale (scale (context_window_tokens b) f64_075) (tool_chars_per_token b)"

section \<open>Truncation of one result\<close>

text \<open>\<open>str::rfind\<close> with a character.\<close>

fun str_rfind :: "char \<Rightarrow> string \<Rightarrow> nat option" where
  "str_rfind c [] = None"
| "str_rfind c (x # xs) =
     (case str_rfind c xs of Some i \<Rightarrow> Some (Suc i) | None \<Rightarrow> if x = c then Some 0 else None)"

definition newline_break :: "string \<Rightarrow> nat \<Rightarrow> nat \<Rightarrow> nat \<Rightarrow> (nat, panic) result" where
  "newline_break body lo hi fallback =
     (case slice body lo hi of
        Inl e \<Rightarrow> Err e
      | Inr window \<Rightarrow>
          Ok (case str_rfind (CHR 0x0A) window of Some pos \<Rightarrow> lo + pos | None \<Rightarrow> fallback))"

definition truncate_tool_result_dynamic :: "string \<Rightarrow> context_budget \<Rightarrow> (string, panic) result" where
  "truncate_tool_result_dynamic body budget =
     (let cap = per_result_cap budget
      in if length body \<le> cap then Ok body
         else (case newline_break body (cap - 200) cap (cap - 100) of
                 Inl e \<Rightarrow> Err e
               | Inr break_point \<Rightarrow>
                   (case slice_to body break_point of
                      Inl e \<Rightarrow> Err e
                    | Inr kept \<Rightarrow>
                        Ok (kept @ [CHR 0x0A, CHR 0x0A] @ ''[TRUNCATED: result was '' @ show_nat (length body)
                            @ '' chars, showing first '' @ show_nat break_point @ '' (budget: '' @ show_nat 30
                            @ ''% of '' @ show_nat (context_window_tokens budget div 1000)
                            @ ''K context window)]''))))"

text \<open>The arrow in the marker is one character of three bytes.\<close>

definition arrow :: string where
  "arrow = [CHR 0xE2, CHR 0x86, CHR 0x92]"

definition truncate_to :: "string \<Rightarrow> nat \<Rightarrow> (string, panic) result" where
  "truncate_to body max_chars =
     (if length body \<le> max_chars then Ok body
      else let keep = max_chars - 80
           in case newline_break body (keep - 100) keep keep of
                Inl e \<Rightarrow> Err e
              | Inr break_point \<Rightarrow>
                  (case slice_to body break_point of
                     Inl e \<Rightarrow> Err e
                   | Inr kept \<Rightarrow>
                       Ok (kept @ [CHR 0x0A, CHR 0x0A] @ ''[COMPACTED: '' @ show_nat (length body) @ '' ''
                           @ arrow @ '' '' @ show_nat break_point @ '' chars by context guard]'')))"

section \<open>The results of a history\<close>

text \<open>
  The code addresses a tool result by the index of its message and of its block. Here the contents of
  all results, in that order, are a list; \<open>put_results\<close> writes a changed list back to the same places.
\<close>

fun block_contents :: "'j content_block \<Rightarrow> string list" where
  "block_contents (ToolResult _ c _) = [c]"
| "block_contents _ = []"

fun message_contents :: "'j message_content \<Rightarrow> string list" where
  "message_contents (TextContent _) = []"
| "message_contents (Blocks bs) = concat (map block_contents bs)"

definition result_contents :: "'j message list \<Rightarrow> string list" where
  "result_contents ms = concat (map (\<lambda>m. message_contents (content m)) ms)"

fun put_blocks :: "'j content_block list \<Rightarrow> string list \<Rightarrow> 'j content_block list \<times> string list" where
  "put_blocks [] cs = ([], cs)"
| "put_blocks (ToolResult i c e # bs) (c' # cs) =
     (let (bs', rest) = put_blocks bs cs in (ToolResult i c' e # bs', rest))"
| "put_blocks (b # bs) cs = (let (bs', rest) = put_blocks bs cs in (b # bs', rest))"

fun put_results :: "'j message list \<Rightarrow> string list \<Rightarrow> 'j message list" where
  "put_results [] cs = []"
| "put_results (m # ms) cs =
     (case content m of
        TextContent _ \<Rightarrow> m # put_results ms cs
      | Blocks bs \<Rightarrow> let (bs', rest) = put_blocks bs cs in m\<lparr>content := Blocks bs'\<rparr> # put_results ms rest)"

definition total_len :: "string list \<Rightarrow> nat" where
  "total_len cs = sum_list (map length cs)"

section \<open>The context guard\<close>

text \<open>First pass: no single result above half of the window. The number counts the changed results.\<close>

fun cap_results :: "nat \<Rightarrow> string list \<Rightarrow> (string list \<times> nat, panic) result" where
  "cap_results single_max [] = Ok ([], 0)"
| "cap_results single_max (c # cs) =
     (case (if length c > single_max then map_sum id (\<lambda>c'. (c', 1)) (truncate_to c single_max) else Ok (c, 0)) of
        Inl e \<Rightarrow> Err e
      | Inr (c', n) \<Rightarrow> map_sum id (\<lambda>(cs', m). (c' # cs', n + m)) (cap_results single_max cs))"

definition compact_target :: nat where
  "compact_target = 2000"

text \<open>
  Second pass: the oldest results first, until the total is within the headroom. A result comes with
  its length before the first pass, which the code compares once more.
\<close>

fun compact_oldest :: "nat \<Rightarrow> nat \<Rightarrow> (nat \<times> string) list \<Rightarrow> (string list \<times> nat, panic) result" where
  "compact_oldest headroom used [] = Ok ([], 0)"
| "compact_oldest headroom used ((len, c) # cs) =
     (if used \<le> headroom then Ok (c # map snd cs, 0)
      else if len \<le> compact_target \<or> length c \<le> compact_target
      then map_sum id (\<lambda>(cs', m). (c # cs', m)) (compact_oldest headroom used cs)
      else (case truncate_to c compact_target of
              Inl e \<Rightarrow> Err e
            | Inr c' \<Rightarrow> map_sum id (\<lambda>(cs', m). (c' # cs', Suc m))
                (compact_oldest headroom (used - length c + length c') cs)))"

definition guard_results :: "context_budget \<Rightarrow> string list \<Rightarrow> (string list \<times> nat, panic) result" where
  "guard_results budget cs =
     (if total_len cs \<le> total_tool_headroom_chars budget then Ok (cs, 0)
      else (case cap_results (single_result_max budget) cs of
              Inl e \<Rightarrow> Err e
            | Inr (cs1, n) \<Rightarrow>
                map_sum id (\<lambda>(cs2, m). (cs2, n + m))
                  (compact_oldest (total_tool_headroom_chars budget) (total_len cs1) (zip (map length cs) cs1))))"

definition apply_context_guard :: "'j message list \<Rightarrow> context_budget \<Rightarrow> ('j message list \<times> nat, panic) result" where
  "apply_context_guard ms budget =
     map_sum id (\<lambda>(cs, n). (put_results ms cs, n)) (guard_results budget (result_contents ms))"

section \<open>Overflow recovery\<close>

text \<open>\<open>to_json\<close> is \<open>serde_json::to_string\<close>, which does not fail on a JSON value.\<close>

definition tool_chars :: "('j \<Rightarrow> string) \<Rightarrow> 'j tool_definition list \<Rightarrow> nat" where
  "tool_chars to_json defs =
     sum_list (map (\<lambda>t. length (tool_name t) + length (tool_description t) + length (to_json (input_schema t))) defs)"

definition estimate_token_count ::
  "('j \<Rightarrow> string) \<Rightarrow> 'j message list \<Rightarrow> string option \<Rightarrow> 'j tool_definition list option \<Rightarrow> nat" where
  "estimate_token_count to_json ms sys tool_defs =
     ((case sys of None \<Rightarrow> 0 | Some sp \<Rightarrow> length sp)
      + sum_list (map (\<lambda>m. text_length (content m) + 16) ms)
      + (case tool_defs of None \<Rightarrow> 0 | Some defs \<Rightarrow> tool_chars to_json defs)) div 4"

datatype recovery_stage =
    NoRecovery
  | AutoCompaction nat
  | OverflowCompaction nat
  | ToolResultTruncation nat
  | FinalError

definition overflow_summary :: "nat \<Rightarrow> 'j message" where
  "overflow_summary n = user_message (''[System: '' @ show_nat n
     @ '' earlier messages were removed due to context overflow. The conversation continues from here. Use /compact for smarter summarization.]'')"

definition stage3_limit :: nat where
  "stage3_limit = 2000"

definition truncate_overflow :: "string \<Rightarrow> (string \<times> nat, panic) result" where
  "truncate_overflow c =
     (if length c > stage3_limit
      then (case slice_to c (stage3_limit - 80) of
              Inl e \<Rightarrow> Err e
            | Inr kept \<Rightarrow>
                Ok (kept @ [CHR 0x0A, CHR 0x0A] @ ''[OVERFLOW RECOVERY: truncated from ''
                    @ show_nat (length c) @ '' to '' @ show_nat (stage3_limit - 80) @ '' chars]'', 1))
      else Ok (c, 0))"

fun truncate_all :: "string list \<Rightarrow> (string list \<times> nat, panic) result" where
  "truncate_all [] = Ok ([], 0)"
| "truncate_all (c # cs) =
     (case truncate_overflow c of
        Inl e \<Rightarrow> Err e
      | Inr (c', n) \<Rightarrow> map_sum id (\<lambda>(cs', m). (c' # cs', n + m)) (truncate_all cs))"

definition stage3 ::
  "('j message list \<Rightarrow> nat) \<Rightarrow> nat \<Rightarrow> 'j message list \<Rightarrow> ('j message list \<times> recovery_stage, panic) result" where
  "stage3 estimate threshold_90 ms =
     (case truncate_all (result_contents ms) of
        Inl e \<Rightarrow> Err e
      | Inr (cs, truncated) \<Rightarrow>
          let ms' = put_results ms cs
          in Ok (ms', if truncated > 0 \<and> estimate ms' \<le> threshold_90
                      then ToolResultTruncation truncated else FinalError))"

definition stage2 ::
  "('j message list \<Rightarrow> nat) \<Rightarrow> nat \<Rightarrow> 'j message list \<Rightarrow> ('j message list \<times> recovery_stage, panic) result" where
  "stage2 estimate threshold_90 ms =
     (let remove = length ms - min 4 (length ms)
      in if remove > 0
         then let ms' = overflow_summary remove # drop remove ms
              in if estimate ms' \<le> threshold_90 then Ok (ms', OverflowCompaction remove)
                 else stage3 estimate threshold_90 ms'
         else stage3 estimate threshold_90 ms)"

definition recover_from_overflow ::
  "('j \<Rightarrow> string) \<Rightarrow> 'j message list \<Rightarrow> string \<Rightarrow> 'j tool_definition list \<Rightarrow> nat
   \<Rightarrow> ('j message list \<times> recovery_stage, panic) result" where
  "recover_from_overflow to_json ms sys available context_window =
     (let estimate = (\<lambda>ms. estimate_token_count to_json ms (Some sys) (Some available));
          estimated = estimate ms;
          threshold_70 = scale context_window f64_070;
          threshold_90 = scale context_window f64_090
      in if estimated \<le> threshold_70 then Ok (ms, NoRecovery)
         else if estimated \<le> threshold_90
         then let remove = length ms - min 10 (length ms)
              in if remove > 0
                 then let ms' = drop remove ms
                      in if estimate ms' \<le> threshold_70 then Ok (ms', AutoCompaction remove)
                         else stage2 estimate threshold_90 ms'
                 else stage2 estimate threshold_90 ms
         else stage2 estimate threshold_90 ms)"

section \<open>Facts\<close>

lemmas scale_eval = scale_def f64_to_u64_def f64_of_nat_def shift_round_def Let_def
  f64_030_def f64_050_def f64_070_def f64_075_def f64_090_def new_budget_def


lemma str_rfind_less: "str_rfind c s = Some i \<Longrightarrow> i < length s"
  by (induction s arbitrary: i) (auto split: option.splits if_splits)

lemma newline_break_le:
  "newline_break body lo hi fb = Inr bp \<Longrightarrow> lo \<le> hi \<Longrightarrow> fb \<le> hi \<Longrightarrow> bp \<le> hi"
  by (auto simp: newline_break_def slice_def split: sum.splits option.splits if_splits dest!: str_rfind_less)

lemma newline_break_single:
  "single_bytes body \<Longrightarrow> lo \<le> hi \<Longrightarrow> hi \<le> length body \<Longrightarrow> \<exists>bp. newline_break body lo hi fb = Inr bp"
  by (simp add: newline_break_def single_bytes_slice)

text \<open>A length that a machine can hold.\<close>

definition in_memory :: "string \<Rightarrow> bool" where
  "in_memory c \<longleftrightarrow> length c < 10 ^ 18"

text \<open>A truncated result is within the bound when the marker fits into the 80 bytes set aside for it.\<close>

lemma truncate_to_bound:
  assumes "truncate_to c m = Inr c'" "80 \<le> m" "in_memory c"
  shows "length c' \<le> m"
proof (cases "length c \<le> m")
  case True
  with assms show ?thesis by (simp add: truncate_to_def)
next
  case False
  then obtain bp kept where b: "newline_break c (m - 80 - 100) (m - 80) (m - 80) = Inr bp" "slice_to c bp = Inr kept"
    and c': "c' = kept @ [CHR 0x0A, CHR 0x0A] @ ''[COMPACTED: '' @ show_nat (length c) @ '' ''
                           @ arrow @ '' '' @ show_nat bp @ '' chars by context guard]''"
    using assms(1) by (auto simp: truncate_to_def Let_def split: sum.splits)
  have bp: "bp \<le> m - 80" by (rule newline_break_le [OF b(1)]) simp_all
  then have "bp < 10 ^ 18" using False assms(3) unfolding in_memory_def by linarith
  then have "length (show_nat bp) \<le> 18" "length (show_nat (length c)) \<le> 18"
    using assms(3) by (auto intro!: show_nat_length simp only: in_memory_def)
  moreover have "length kept \<le> bp" using b(2) by (auto simp: slice_to_def split: if_splits)
  ultimately show ?thesis using c' bp assms(2) by (simp add: arrow_def)
qed

lemma truncate_to_shrinks:
  assumes "truncate_to c m = Inr c'" "80 \<le> m" "in_memory c"
  shows "length c' \<le> length c"
  using truncate_to_bound [OF assms] assms(1) by (cases "length c \<le> m") (auto simp: truncate_to_def)

lemma cap_results_facts:
  assumes "cap_results m cs = Inr (cs1, n)" "80 \<le> m" "\<forall>c \<in> set cs. in_memory c"
  shows "list_all2 (\<lambda>c c1. length c1 \<le> length c) cs cs1"
  using assms
  by (induction cs arbitrary: cs1 n)
    (auto simp: map_sum_Inr split: sum.splits if_splits dest: truncate_to_shrinks)

lemma total_len_simps [simp]: "total_len [] = 0" "total_len (c # cs) = length c + total_len cs"
  by (simp_all add: total_len_def)

lemma compact_oldest_facts:
  assumes "compact_oldest headroom (d + total_len (map snd lcs)) lcs = Inr (cs', n)"
    and "\<forall>x \<in> set lcs. length (snd x) \<le> fst x \<and> in_memory (snd x)"
  shows "length cs' = length lcs \<and> (d + total_len cs' \<le> headroom \<or> (\<forall>c \<in> set cs'. length c \<le> compact_target))"
  using assms
proof (induction lcs arbitrary: d cs' n)
  case Nil
  then show ?case by simp
next
  case (Cons x lcs)
  obtain len c where x: "x = (len, c)" by (cases x)
  let ?all = "d + total_len (map snd (x # lcs))"
  consider "?all \<le> headroom" | "\<not> ?all \<le> headroom" "length c \<le> compact_target"
    | "\<not> ?all \<le> headroom" "\<not> length c \<le> compact_target" by blast
  then show ?case
  proof cases
    case 1
    then show ?thesis using Cons.prems(1) x by auto
  next
    case 2
    then obtain cs2 where cs2: "compact_oldest headroom ((d + length c) + total_len (map snd lcs)) lcs = Inr (cs2, n)"
      "cs' = c # cs2"
      using Cons.prems(1) x by (auto simp: map_sum_Inr add.assoc)
    from Cons.IH [OF cs2(1)] Cons.prems(2) cs2(2) 2 x show ?thesis by (auto simp: add.assoc)
  next
    case 3
    have "\<not> len \<le> compact_target" using 3 Cons.prems(2) x by auto
    then obtain c' cs2 m where t: "truncate_to c compact_target = Inr c'"
      and cs2: "compact_oldest headroom (?all - length c + length c') lcs = Inr (cs2, m)" "cs' = c' # cs2"
      using Cons.prems(1) x 3 by (auto simp: map_sum_Inr simp del: map_sum.simps split: sum.splits)
    have "length c' \<le> compact_target"
      using truncate_to_bound [OF t] Cons.prems(2) x by (simp add: compact_target_def)
    moreover have "?all - length c + length c' = (d + length c') + total_len (map snd lcs)" using x by simp
    ultimately have new: "compact_oldest headroom ((d + length c') + total_len (map snd lcs)) lcs = Inr (cs2, m)"
      and small: "length c' \<le> compact_target" using cs2(1) by (simp_all only:)
    have "\<forall>x \<in> set lcs. length (snd x) \<le> fst x \<and> in_memory (snd x)" using Cons.prems(2) by simp
    from Cons.IH [OF new this] small cs2(2) show ?thesis by (auto simp: add.assoc)
  qed
qed

lemma guard_results_facts:
  assumes "guard_results budget cs = Inr (cs', n)" "80 \<le> single_result_max budget"
    and "\<forall>c \<in> set cs. in_memory c"
  shows "length cs' = length cs
    \<and> (total_len cs' \<le> total_tool_headroom_chars budget \<or> (\<forall>c \<in> set cs'. length c \<le> compact_target))"
proof (cases "total_len cs \<le> total_tool_headroom_chars budget")
  case True
  with assms(1) show ?thesis by (simp add: guard_results_def)
next
  case False
  then obtain cs1 k m where cap: "cap_results (single_result_max budget) cs = Inr (cs1, k)"
    and old: "compact_oldest (total_tool_headroom_chars budget) (total_len cs1) (zip (map length cs) cs1) = Inr (cs', m)"
    using assms(1) unfolding guard_results_def if_not_P [OF False]
    by (cases "cap_results (single_result_max budget) cs") (simp_all add: map_sum_Inr split: prod.splits, blast)
  have l: "list_all2 (\<lambda>c c1. length c1 \<le> length c) cs cs1" by (rule cap_results_facts [OF cap assms(2,3)])
  then have len: "length cs1 = length cs" by (simp add: list_all2_lengthD)
  have "\<forall>x \<in> set (zip (map length cs) cs1). length (snd x) \<le> fst x \<and> in_memory (snd x)"
  proof
    fix x assume "x \<in> set (zip (map length cs) cs1)"
    then obtain i where i: "i < length cs" "x = (length (cs ! i), cs1 ! i)" by (auto simp: set_zip len)
    have "in_memory (cs ! i)" using assms(3) i(1) by simp
    with list_all2_nthD [OF l i(1)] i(2) show "length (snd x) \<le> fst x \<and> in_memory (snd x)"
      unfolding in_memory_def by simp
  qed
  moreover have "map snd (zip (map length cs) cs1) = cs1" using len by simp
  ultimately show ?thesis
    using compact_oldest_facts [of "total_tool_headroom_chars budget" 0 "zip (map length cs) cs1" cs' m] old len
    by simp
qed

lemma put_blocks_contents:
  "length (concat (map block_contents bs)) \<le> length cs \<Longrightarrow>
   concat (map block_contents (fst (put_blocks bs cs))) = take (length (concat (map block_contents bs))) cs
   \<and> snd (put_blocks bs cs) = drop (length (concat (map block_contents bs))) cs"
  by (induction bs cs rule: put_blocks.induct) (auto simp: split_def Let_def)

lemma put_results_contents:
  "length (result_contents ms) = length cs \<Longrightarrow> result_contents (put_results ms cs) = cs"
proof (induction ms arbitrary: cs)
  case Nil
  then show ?case by (simp add: result_contents_def)
next
  case (Cons m ms)
  show ?case
  proof (cases "content m")
    case (TextContent t)
    with Cons show ?thesis by (simp add: result_contents_def)
  next
    case (Blocks bs)
    let ?k = "length (concat (map block_contents bs))"
    have len: "?k \<le> length cs" "length (result_contents ms) = length (drop ?k cs)"
      using Cons.prems Blocks by (simp_all add: result_contents_def)
    from Cons.IH [OF len(2)] put_blocks_contents [OF len(1)] Blocks show ?thesis
      by (simp add: result_contents_def split_def Let_def)
  qed
qed

text \<open>
  After the context guard the tool results fit into three quarters of the window, or none of them
  is above two thousand bytes and nothing more can be compacted.
\<close>

theorem context_guard_bounds:
  assumes "apply_context_guard ms budget = Inr (ms', n)" and "80 \<le> single_result_max budget"
    and "list_all in_memory (result_contents ms)"
  shows "total_len (result_contents ms') \<le> total_tool_headroom_chars budget
    \<or> list_all (\<lambda>c. length c \<le> 2000) (result_contents ms')"
proof -
  from assms(1) obtain cs where g: "guard_results budget (result_contents ms) = Inr (cs, n)"
    and ms': "ms' = put_results ms cs"
    by (auto simp: apply_context_guard_def map_sum_Inr)
  from guard_results_facts [OF g assms(2)] assms(3)
  have facts: "length cs = length (result_contents ms)"
    "total_len cs \<le> total_tool_headroom_chars budget \<or> (\<forall>c \<in> set cs. length c \<le> compact_target)"
    by (auto simp: list_all_iff)
  from facts(1) have "result_contents ms' = cs" unfolding ms' by (simp add: put_results_contents)
  with facts(2) show ?thesis by (simp add: list_all_iff compact_target_def)
qed

lemma context_guard_bounds_witness:
  "\<exists>ms n. apply_context_guard [\<lparr>role = User, content = Blocks [ToolResult ''t1'' (replicate 150 (CHR ''a'')) False]\<rparr>]
       (new_budget 80) = Inr (ms :: unit message list, n)
     \<and> (total_len (result_contents ms) \<le> total_tool_headroom_chars (new_budget 80)
        \<or> list_all (\<lambda>c. length c \<le> 2000) (result_contents ms))"
proof -
  let ?ms = "[\<lparr>role = User, content = Blocks [ToolResult ''t1'' (replicate 150 (CHR ''a'')) False]\<rparr>] :: unit message list"
  have s: "single_result_max (new_budget 80) = 80" by (simp add: single_result_max_def scale_eval)
  have "newline_break (replicate 150 (CHR ''a'')) 0 0 0 = Ok 0"
    by (simp add: newline_break_def slice_def is_char_boundary_def)
  then have t: "\<exists>c. truncate_to (replicate 150 (CHR ''a'')) 80 = Ok c"
    by (simp add: truncate_to_def slice_to_def is_char_boundary_def)
  have h: "total_tool_headroom_chars (new_budget 80) = 120"
    by (simp add: total_tool_headroom_chars_def scale_eval)
  have "\<exists>r. apply_context_guard ?ms (new_budget 80) = Inr r"
    using t by (auto simp: apply_context_guard_def guard_results_def result_contents_def s h compact_target_def
        total_len_def)
  then obtain ms n where r: "apply_context_guard ?ms (new_budget 80) = Inr (ms, n)" by (metis prod.exhaust)
  have "total_len (result_contents ms) \<le> total_tool_headroom_chars (new_budget 80)
      \<or> list_all (\<lambda>c. length c \<le> 2000) (result_contents ms)"
    by (rule context_guard_bounds [OF r]) (simp_all add: s result_contents_def in_memory_def)
  with r show ?thesis by blast
qed

text \<open>
  On text of single-byte characters the truncation of a tool result succeeds, and it leaves at most
  the cap before the marker. On other text it can panic: here a window of ten tokens cuts the last
  character of a result of six.
\<close>

theorem truncation_outcome:
  "(single_bytes body \<longrightarrow>
     (\<exists>kept tail. truncate_tool_result_dynamic body budget = Ok (kept @ tail)
        \<and> prefix kept body \<and> (kept = body \<or> length kept \<le> per_result_cap budget)))
   \<and> truncate_tool_result_dynamic (''aaaaa'' @ [CHR 0xC3, CHR 0xA9]) (new_budget 10) = Err SliceNotOnBoundary"
proof
  show "single_bytes body \<longrightarrow>
     (\<exists>kept tail. truncate_tool_result_dynamic body budget = Ok (kept @ tail)
        \<and> prefix kept body \<and> (kept = body \<or> length kept \<le> per_result_cap budget))"
  proof
    assume s: "single_bytes body"
    let ?cap = "per_result_cap budget"
    show "\<exists>kept tail. truncate_tool_result_dynamic body budget = Ok (kept @ tail)
        \<and> prefix kept body \<and> (kept = body \<or> length kept \<le> ?cap)"
    proof (cases "length body \<le> ?cap")
      case True
      then show ?thesis by (intro exI [of _ body] exI [of _ "[]"]) (simp add: truncate_tool_result_dynamic_def)
    next
      case False
      then obtain bp where bp: "newline_break body (?cap - 200) ?cap (?cap - 100) = Ok bp" "bp \<le> ?cap"
        using newline_break_single [OF s, of "?cap - 200" ?cap "?cap - 100"]
          newline_break_le [of body "?cap - 200" ?cap "?cap - 100"] by auto
      with False s show ?thesis
        by - (rule exI [of _ "take bp body"], simp add: truncate_tool_result_dynamic_def Let_def
          single_bytes_slice_to take_is_prefix)
    qed
  qed
  show "truncate_tool_result_dynamic (''aaaaa'' @ [CHR 0xC3, CHR 0xA9]) (new_budget 10) = Err SliceNotOnBoundary"
  proof -
    have "per_result_cap (new_budget 10) = 6" by (simp add: per_result_cap_def scale_eval)
    then show ?thesis
      by (simp add: truncate_tool_result_dynamic_def newline_break_def slice_def is_char_boundary_def is_cont_def)
  qed
qed

lemma length_put_results [simp]: "length (put_results ms cs) = length ms"
  by (induction ms arbitrary: cs) (auto simp: split_def Let_def split: message_content.split)

lemma stage3_facts:
  assumes "stage3 est t ms = Ok (ms', stage)"
  shows "length ms' = length ms \<and> (stage = FinalError \<or> (\<exists>n. stage = ToolResultTruncation n) \<and> est ms' \<le> t)"
  using assms by (auto simp: stage3_def Let_def split: sum.splits if_splits)

lemma stage2_facts:
  assumes "stage2 est t ms = Ok (ms', stage)"
  shows "length ms' \<le> length ms \<and> (stage = FinalError
    \<or> (\<exists>n. stage = ToolResultTruncation n \<or> stage = OverflowCompaction n) \<and> est ms' \<le> t)"
  using assms by (auto simp: stage2_def Let_def min_def split: if_splits dest!: stage3_facts)

text \<open>
  A recovery that does not give up leaves a history whose estimate is within the limit of its
  stage and which has no more messages than before; the first two stages only drop the oldest.
\<close>

theorem recovery_within_limit:
  assumes "recover_from_overflow to_json ms sys available window = Ok (ms', stage)"
  shows "length ms' \<le> length ms \<and>
    (case stage of
       NoRecovery \<Rightarrow> ms' = ms \<and> estimate_token_count to_json ms' (Some sys) (Some available) \<le> scale window f64_070
     | AutoCompaction n \<Rightarrow> ms' = drop n ms
         \<and> estimate_token_count to_json ms' (Some sys) (Some available) \<le> scale window f64_070
     | FinalError \<Rightarrow> True
     | _ \<Rightarrow> estimate_token_count to_json ms' (Some sys) (Some available) \<le> scale window f64_090)"
  using assms
  by (auto simp: recover_from_overflow_def Let_def split: if_splits recovery_stage.split dest!: stage2_facts)

lemma recovery_within_limit_witness:
  "estimate_token_count (\<lambda>_. []) [user_message ''hi'' :: unit message] (Some ''be brief'') (Some []) \<le> scale 100 f64_070"
proof -
  have "scale 100 f64_070 = 70" by (simp add: scale_eval)
  then have "recover_from_overflow (\<lambda>_. []) [user_message ''hi'' :: unit message] ''be brief'' [] 100 =
      Ok ([user_message ''hi''], NoRecovery)"
    by (simp add: recover_from_overflow_def estimate_token_count_def tool_chars_def user_message_def)
  from recovery_within_limit [OF this] show ?thesis by simp
qed

text \<open>Dropping the oldest messages can separate a tool result from its call.\<close>

lemma dropping_orphans_results:
  "\<exists>n. uses (drop n [\<lparr>role = Assistant, content = Blocks [ToolUse i t j]\<rparr>,
                     \<lparr>role = User, content = Blocks [ToolResult i c e]\<rparr>]) = [] \<and>
       results (drop n [\<lparr>role = Assistant, content = Blocks [ToolUse i t j]\<rparr>,
                     \<lparr>role = User, content = Blocks [ToolResult i c e]\<rparr>]) = [i]"
  by (rule exI [of _ 1]) (simp add: msg_uses_def msg_results_def)

end
