(* ===== verification/Reply_Directives.thy ===== *)
theory Reply_Directives
  imports Str_Utils
begin

text \<open>
  Reply directives in agent output, \<open>clawreform-runtime/src/reply_directives.rs\<close>: \<open>[[reply:id]]\<close>,
  \<open>[[@current]]\<close> and \<open>[[silent]]\<close> are taken out of the text, also when the text comes in chunks.
\<close>

section \<open>The accumulator\<close>

record directive_set =
  reply_to :: "string option"
  current_thread :: bool
  dir_silent :: bool

definition no_directives :: directive_set where
  "no_directives = \<lparr>reply_to = None, current_thread = False, dir_silent = False\<rparr>"

definition max_partial_len :: nat where
  "max_partial_len = 30"

text \<open>The accumulator is the buffered text and the directives so far.\<close>

type_synonym accumulator = "string \<times> directive_set"

definition new_accumulator :: accumulator where
  "new_accumulator = ([], no_directives)"

definition parse_tag :: "directive_set \<Rightarrow> string \<Rightarrow> directive_set" where
  "parse_tag d content =
     (let trimmed = trim content
      in case strip_prefix ''reply:'' trimmed of
           Some r \<Rightarrow> (let i = trim r in if i \<noteq> [] then d\<lparr>reply_to := Some i\<rparr> else d)
         | None \<Rightarrow>
             if trimmed = ''@current'' then d\<lparr>current_thread := True\<rparr>
             else if trimmed = ''silent'' then d\<lparr>dir_silent := True\<rparr> else d)"

text \<open>\<open>chars().next()\<close>: the first character is a byte with the continuation bytes behind it.\<close>

fun next_char :: "string \<Rightarrow> string \<times> string" where
  "next_char [] = ([], [])"
| "next_char (c # s) = (c # takeWhile is_cont s, dropWhile is_cont s)"

fun skip_chars :: "nat \<Rightarrow> string \<Rightarrow> string" where
  "skip_chars 0 s = s"
| "skip_chars (Suc n) s = skip_chars n (snd (next_char s))"

lemma skip_chars_length: "length (skip_chars n s) \<le> length s"
proof (induction n arbitrary: s)
  case (Suc n)
  have "length (snd (next_char s)) \<le> length s"
    by (cases s) (simp_all add: length_dropWhile_le le_SucI)
  with Suc [of "snd (next_char s)"] show ?case by simp
qed simp

lemma skip_chars_shorter: "0 < n \<Longrightarrow> s \<noteq> [] \<Longrightarrow> length (skip_chars n s) < length s"
  by (cases n; cases s)
    (auto intro: le_trans [OF skip_chars_length length_dropWhile_le] simp: less_Suc_eq_le)

lemma next_char_shorter: "s \<noteq> [] \<Longrightarrow> length (snd (next_char s)) < length s"
  by (cases s) (simp_all add: length_dropWhile_le less_Suc_eq_le)

text \<open>The text between \<open>[[\<close> at the start of \<open>s\<close> and the next \<open>]]\<close>.\<close>

definition tag_at :: "string \<Rightarrow> string option" where
  "tag_at s =
     (case strip_prefix ''[['' s of
        None \<Rightarrow> None
      | Some after \<Rightarrow> map_option (\<lambda>e. take e after) (find_sub '']]'' after))"

text \<open>
  The loop over the input: the text to display, the text to buffer and the directives. The length of
  the tag is in bytes, and that many characters are skipped.
\<close>

function scan :: "bool \<Rightarrow> directive_set \<Rightarrow> string \<Rightarrow> string \<times> string \<times> directive_set" where
  "scan fin d s =
     (if s = [] then ([], [], d)
      else case tag_at s of
             Some content \<Rightarrow> scan fin (parse_tag d content) (skip_chars (2 + length content + 2) s)
           | None \<Rightarrow>
               if prefix ''[['' s \<and> \<not> fin \<and> length s < max_partial_len then ([], s, d)
               else let (out, buffered, d') = scan fin d (snd (next_char s))
                    in (fst (next_char s) @ out, buffered, d'))"
  by pat_completeness auto
termination
  by (relation "measure (\<lambda>(_, _, s). length s)") (auto simp del: skip_chars.simps
      intro: skip_chars_shorter next_char_shorter)

declare scan.simps [simp del]

definition consume :: "accumulator \<Rightarrow> string \<Rightarrow> bool \<Rightarrow> accumulator \<times> string" where
  "consume acc chunk fin =
     (let (out, buffered, d) = scan fin (snd acc) (fst acc @ chunk)
      in if fin then (([], d), out @ buffered) else ((buffered, d), out))"

definition parse_directives :: "string \<Rightarrow> string \<times> directive_set" where
  "parse_directives text =
     (let (acc, cleaned) = consume new_accumulator text True in (trim cleaned, snd acc))"

section \<open>Streaming\<close>

fun stream_chunks :: "accumulator \<Rightarrow> string list \<Rightarrow> string \<Rightarrow> accumulator \<times> string" where
  "stream_chunks acc [] final = consume acc final True"
| "stream_chunks acc (c # cs) final =
     (let (acc1, out1) = consume acc c False; (acc2, out2) = stream_chunks acc1 cs final
      in (acc2, out1 @ out2))"

text \<open>
  A place where the input may be cut: it does not end in an opening bracket, and a tag that is still
  open there is shorter than the buffer.
\<close>

fun cut_ok :: "string \<Rightarrow> bool" where
  "cut_ok [] = True"
| "cut_ok (c # s) =
     ((prefix ''[['' (c # s) \<and> tag_at (c # s) = None \<longrightarrow> length (c # s) < max_partial_len)
      \<and> (s = [] \<longrightarrow> c \<noteq> CHR ''['') \<and> cut_ok s)"

fun chunks_ok :: "accumulator \<Rightarrow> string list \<Rightarrow> bool" where
  "chunks_ok acc [] = True"
| "chunks_ok acc (c # cs) = (cut_ok (fst acc @ c) \<and> chunks_ok (fst (consume acc c False)) cs)"

lemma next_char_single: "single_bytes (c # s) \<Longrightarrow> next_char (c # s) = ([c], s)"
  by (cases s) auto

lemma skip_chars_single: "single_bytes s \<Longrightarrow> skip_chars n s = drop n s"
proof (induction n arbitrary: s)
  case (Suc n)
  then show ?case by (cases s) (simp_all add: next_char_single del: next_char.simps(2))
qed simp

lemma tag_at_Some:
  "tag_at s = Some content \<longleftrightarrow>
   (\<exists>after e. s = ''[['' @ after \<and> find_sub '']]'' after = Some e \<and> content = take e after)"
  by (auto simp: tag_at_def strip_prefix_def prefix_def split: if_splits)

lemma tag_at_append: "tag_at s = Some content \<Longrightarrow> tag_at (s @ t) = Some content"
proof -
  assume "tag_at s = Some content"
  then obtain after e where a: "s = ''[['' @ after" "find_sub '']]'' after = Some e" "content = take e after"
    by (auto simp: tag_at_Some)
  then have "e \<le> length after" using find_sub_bound by fastforce
  with a find_sub_append [OF a(2), of t] show ?thesis by (auto simp: tag_at_Some)
qed

lemma tag_at_length: "tag_at s = Some content \<Longrightarrow> 2 + length content + 2 \<le> length s"
  by (auto simp: tag_at_Some dest!: find_sub_bound)

lemma cut_ok_drop: "cut_ok s \<Longrightarrow> cut_ok (drop n s)"
proof (induction n arbitrary: s)
  case (Suc n)
  then show ?case by (cases s) auto
qed simp

lemma scan_empty [simp]: "scan fin d [] = ([], [], d)"
  by (simp add: scan.simps)

lemma scan_tag:
  "tag_at s = Some content \<Longrightarrow>
   scan fin d s = scan fin (parse_tag d content) (skip_chars (2 + length content + 2) s)"
  using tag_at_length by (subst scan.simps) (fastforce simp del: skip_chars.simps)

lemma scan_buffer:
  "tag_at s = None \<Longrightarrow> prefix ''[['' s \<Longrightarrow> length s < max_partial_len \<Longrightarrow> scan False d s = ([], s, d)"
  by (subst scan.simps) auto

lemma scan_literal:
  "tag_at s = None \<Longrightarrow> s \<noteq> [] \<Longrightarrow> fin \<or> \<not> prefix ''[['' s \<or> \<not> length s < max_partial_len \<Longrightarrow>
   scan fin d s = (case scan fin d (snd (next_char s)) of (out, buffered, d') \<Rightarrow> (fst (next_char s) @ out, buffered, d'))"
  by (subst scan.simps) auto

lemma tag_at_open: "tag_at s = Some content \<Longrightarrow> prefix ''[['' s"
  by (auto simp: tag_at_Some)

lemma scan_split:
  assumes "cut_ok a" "single_bytes (a @ b)" "scan False d a = (out, buffered, d1)"
  shows "single_bytes buffered \<and>
    scan True d (a @ b) = (case scan True d1 (buffered @ b) of (out2, p, d2) \<Rightarrow> (out @ out2, p, d2))"
  using assms
proof (induction a arbitrary: d out rule: length_induct)
  case (1 a)
  show ?case
  proof (cases "tag_at a")
    case (Some content)
    let ?n = "2 + length content + 2"
    have n: "?n \<le> length a" "0 < ?n" "a \<noteq> []" using tag_at_length [OF Some] by auto
    have sa: "single_bytes a" "single_bytes (a @ b)" using "1.prems"(2) by auto
    have skip: "skip_chars ?n a = drop ?n a" "skip_chars ?n (a @ b) = drop ?n a @ b"
      using sa n by (simp_all only: skip_chars_single drop_append) simp
    have "scan False (parse_tag d content) (drop ?n a) = (out, buffered, d1)"
      using "1.prems"(3) unfolding scan_tag [OF Some] skip .
    moreover have "length (drop ?n a) < length a" using n by simp
    moreover have "single_bytes (drop ?n a @ b)" using sa by (simp add: single_bytes_drop)
    ultimately show ?thesis
      using "1.IH" cut_ok_drop [OF "1.prems"(1), of ?n]
      unfolding scan_tag [OF tag_at_append [OF Some]] skip by blast
  next
    case None
    show ?thesis
    proof (cases a)
      case Nil
      then show ?thesis using "1.prems" by (auto split: prod.split)
    next
      case (Cons c s)
      show ?thesis
      proof (cases "prefix ''[['' a")
        case True
        then have "scan False d a = ([], a, d)"
          using None "1.prems"(1) Cons by (intro scan_buffer) auto
        then show ?thesis using "1.prems" by (auto split: prod.split)
      next
        case False
        then have not_open: "\<not> prefix ''[['' (a @ b)"
          using Cons "1.prems"(1) by (cases s) auto
        then have none: "tag_at (a @ b) = None" using tag_at_open by fastforce
        have nx: "next_char a = ([c], s)" "next_char (a @ b) = ([c], s @ b)"
          using "1.prems"(2) Cons by (simp_all add: next_char_single del: next_char.simps(2))
        obtain out' where o: "scan False d s = (out', buffered, d1)" "out = c # out'"
          using "1.prems"(3) scan_literal [OF None, of False d] False Cons nx by (auto split: prod.splits)
        have "single_bytes buffered \<and>
            scan True d (s @ b) = (case scan True d1 (buffered @ b) of (out2, p, d2) \<Rightarrow> (out' @ out2, p, d2))"
          using "1.IH" "1.prems"(1,2) Cons o(1) by auto
        then show ?thesis
          using scan_literal [OF none, of True d] not_open Cons nx o(2) by (auto split: prod.splits)
      qed
    qed
  qed
qed



text \<open>
  Where it does change. A chunk that ends between the two opening brackets loses the directive, and
  a character of several bytes inside a tag makes the parser swallow text behind the tag.
\<close>

theorem directive_losses:
  "stream_chunks new_accumulator [''['', ''[silent]]''] [] = (([], no_directives), ''[[silent]]'')
   \<and> consume new_accumulator ''[[silent]]'' True = (([], no_directives\<lparr>dir_silent := True\<rparr>), [])
   \<and> parse_directives (''[[reply:'' @ [CHR 0xC3, CHR 0xA9] @ '']]OK'') =
       (''K'', no_directives\<lparr>reply_to := Some [CHR 0xC3, CHR 0xA9]\<rparr>)"
  by code_simp

end
