(* ===== verification/Response_Sanitizer.thy ===== *)
theory Response_Sanitizer
  imports Str_Utils
begin

text \<open>
  Removal of hidden reasoning from a model's answer, \<open>clawreform-runtime/src/response_sanitizer.rs\<close>.
\<close>

section \<open>The code\<close>

definition open_tag :: "string \<Rightarrow> string" where
  "open_tag tag = ''<'' @ tag @ ''>''"

definition close_tag :: "string \<Rightarrow> string" where
  "close_tag tag = ''</'' @ tag @ ''>''"

text \<open>\<open>after_close\<close>, without the line break that would follow another one.\<close>

definition join_lines :: "string \<Rightarrow> string \<Rightarrow> string" where
  "join_lines out x = (if ends_with out [newline] \<and> starts_with x [newline] then tl x else x)"

text \<open>The loop of \<open>strip_tagged_block\<close>: \<open>remaining\<close> is unread, \<open>out\<close> is what it keeps so far.\<close>

function strip_loop :: "string \<Rightarrow> string \<Rightarrow> string \<Rightarrow> string" where
  "strip_loop tag remaining out =
     (case find_sub (open_tag tag) remaining of
        None \<Rightarrow> out @ remaining
      | Some start \<Rightarrow>
          let out1 = out @ take start remaining;
              after_open = drop (start + length (open_tag tag)) remaining
          in case find_sub (close_tag tag) after_open of
               Some e \<Rightarrow> strip_loop tag (join_lines out1 (drop (e + length (close_tag tag)) after_open)) out1
             | None \<Rightarrow> out1 @ take start remaining)"
  by pat_completeness auto
termination
proof (relation "measure (\<lambda>(_, remaining, _). length remaining)", simp, goal_cases)
  case (1 tag remaining out start out1 after_open e)
  have "length (join_lines out1 x) \<le> length x" for x by (simp add: join_lines_def)
  from le_less_trans [OF this] show ?case
    using 1 find_sub_bound [OF 1(1)] by (simp add: open_tag_def)
qed

declare strip_loop.simps [simp del]

definition strip_tagged_block :: "string \<Rightarrow> string \<Rightarrow> string" where
  "strip_tagged_block text tag = strip_loop tag text []"

fun collapse_step :: "string \<times> bool \<Rightarrow> string \<Rightarrow> string \<times> bool" where
  "collapse_step (out, previous_blank) line =
     (let is_blank = (trim line = [])
      in if is_blank \<and> previous_blank then (out, previous_blank)
         else let out1 = (if out \<noteq> [] then out @ [newline] else out);
                  out2 = (if is_blank then out1 else out1 @ trim_end line)
              in (out2, is_blank))"

definition collapse_blank_lines :: "string \<Rightarrow> string" where
  "collapse_blank_lines text = trim (fst (foldl collapse_step ([], False) (str_lines text)))"

definition sanitize_visible_response :: "string \<Rightarrow> string" where
  "sanitize_visible_response text =
     collapse_blank_lines (trim (strip_tagged_block (strip_tagged_block text ''think'') ''thinking''))"

section \<open>What is shown\<close>

text \<open>
  The reference: an answer is a list of visible pieces, each followed by a hidden block, and a last
  visible piece; a line break behind a hidden block goes when one stands before it.
\<close>

fun render_answer :: "string \<Rightarrow> (string \<times> string) list \<Rightarrow> string \<Rightarrow> string" where
  "render_answer tag [] rest = rest"
| "render_answer tag ((v, h) # segs) rest =
     v @ open_tag tag @ h @ close_tag tag @ render_answer tag segs rest"

fun shown :: "string \<Rightarrow> string list \<Rightarrow> string \<Rightarrow> string" where
  "shown out [] rest = out @ join_lines out rest"
| "shown out (v # vs) rest = shown (out @ join_lines out v) vs rest"

text \<open>No piece holds a tag of its own, nor begins one that the next tag completes.\<close>

fun well_tagged :: "string \<Rightarrow> (string \<times> string) list \<Rightarrow> string \<Rightarrow> bool" where
  "well_tagged tag [] rest = (find_sub (open_tag tag) rest = None)"
| "well_tagged tag ((v, h) # segs) rest =
     (find_sub (open_tag tag) (v @ open_tag tag) = Some (length v)
      \<and> find_sub (close_tag tag) (h @ close_tag tag) = Some (length h)
      \<and> well_tagged tag segs rest)"

lemma join_lines_nothing [simp]: "join_lines [] x = x"
  by (simp add: join_lines_def ends_with_def)

lemma join_lines_cases: "join_lines out x = x \<or> x = newline # join_lines out x"
  by (cases x) (auto simp: join_lines_def starts_with_def)

lemma join_lines_append: "v \<noteq> [] \<Longrightarrow> join_lines out (v @ w) = join_lines out v @ w"
  by (cases v) (auto simp: join_lines_def starts_with_def)

lemma open_tag_shape [simp]: "open_tag tag \<noteq> []" "join_lines out (open_tag tag @ w) = open_tag tag @ w"
  by (auto simp: open_tag_def join_lines_def starts_with_def newline_def)

lemma join_lines_render:
  "join_lines out (v @ open_tag tag @ w) = join_lines out v @ open_tag tag @ w"
  by (cases "v = []") (simp_all add: join_lines_append, simp add: join_lines_def starts_with_def)

lemma find_sub_tl: "find_sub m (c # w @ m) = Some (Suc (length w)) \<Longrightarrow> find_sub m (w @ m) = Some (length w)"
  by (auto split: if_splits)

lemma find_open_join:
  assumes "find_sub (open_tag tag) (v @ open_tag tag) = Some (length v)"
  shows "find_sub (open_tag tag) (join_lines out v @ open_tag tag) = Some (length (join_lines out v))"
proof (cases "join_lines out v = v")
  case False
  then have v: "v = newline # join_lines out v" using join_lines_cases by metis
  show ?thesis
    by (rule find_sub_tl [of _ newline]) (metis assms append_Cons length_Cons v)
qed (use assms in simp)

lemma find_none_join:
  "find_sub (open_tag tag) v = None \<Longrightarrow> find_sub (open_tag tag) (join_lines out v) = None"
  using join_lines_cases [of out v] by (metis find_sub.simps(2) map_option_is_None option.distinct(1))

lemma strip_loop_render:
  "well_tagged tag segs rest \<Longrightarrow>
   strip_loop tag (join_lines out (render_answer tag segs rest)) out = shown out (map fst segs) rest"
proof (induction segs arbitrary: out)
  case Nil
  then show ?case by (subst strip_loop.simps) (simp add: find_none_join)
next
  case (Cons seg segs)
  obtain v h where seg: "seg = (v, h)" by (cases seg)
  let ?v = "join_lines out v" and ?r = "render_answer tag segs rest"
  have w: "find_sub (open_tag tag) (v @ open_tag tag) = Some (length v)"
    "find_sub (close_tag tag) (h @ close_tag tag) = Some (length h)" "well_tagged tag segs rest"
    using Cons.prems seg by auto
  have "find_sub (open_tag tag) (?v @ open_tag tag @ h @ close_tag tag @ ?r) = Some (length ?v)"
    using find_sub_append [OF find_open_join [OF w(1)]] by simp
  moreover have "find_sub (close_tag tag) (h @ close_tag tag @ ?r) = Some (length h)"
    using find_sub_append [OF w(2)] by simp
  ultimately show ?case
    using Cons.IH [OF w(3), of "out @ ?v"] seg
    by (subst strip_loop.simps) (simp add: join_lines_render)
qed



text \<open>
  An answer that is cut off inside a reasoning block is shown twice: when the opening tag has no
  closing tag, the text before it is appended a second time.
\<close>

theorem unclosed_reasoning_doubles:
  assumes "find_sub (open_tag tag) text = Some start"
    and "find_sub (close_tag tag) (drop (start + length (open_tag tag)) text) = None"
  shows "strip_tagged_block text tag = take start text @ take start text"
  using assms unfolding strip_tagged_block_def by (subst strip_loop.simps) (simp add: Let_def)

lemma unclosed_reasoning_doubles_witness:
  "strip_tagged_block ''Hi <think>abc'' ''think'' = ''Hi Hi ''"
  using unclosed_reasoning_doubles [of "''think''" "''Hi <think>abc''" 3] by (simp, code_simp)

text \<open>Removing a block can put a new one together, whose content is then shown.\<close>

lemma nested_reasoning_leaks:
  "strip_tagged_block ''<thi<think></think>nk>secret</think>'' ''think'' = ''<think>secret</think>''"
  by code_simp

end
