(* ===== verification/Auth_Cooldown.thy ===== *)
theory Auth_Cooldown
  imports Float64
begin

text \<open>
  The circuit breaker per LLM provider, \<open>clawreform-runtime/src/auth_cooldown.rs\<close>, with the rotation
  of API keys. Times and durations are in nanoseconds; an operation gets the time \<open>now\<close>, and a
  provider's entry in the concurrent map is read or written in one step.
\<close>

section \<open>State\<close>

definition from_secs :: "nat \<Rightarrow> nat" where
  "from_secs s = s * 1000000000"

definition as_secs :: "nat \<Rightarrow> nat" where
  "as_secs d = d div 1000000000"

text \<open>The two multipliers are non-negative finite \<open>f64\<close> values.\<close>

record cooldown_config =
  base_cooldown_secs :: nat
  max_cooldown_secs :: nat
  backoff_multiplier :: dyadic
  max_exponent :: nat
  billing_base_cooldown_secs :: nat
  billing_max_cooldown_secs :: nat
  billing_multiplier :: dyadic
  failure_window_secs :: nat
  probe_enabled :: bool
  probe_interval_secs :: nat

definition default_cooldown :: cooldown_config where
  "default_cooldown =
     \<lparr>base_cooldown_secs = 60, max_cooldown_secs = 3600, backoff_multiplier = Dy 5 0, max_exponent = 3,
      billing_base_cooldown_secs = 18000, billing_max_cooldown_secs = 86400, billing_multiplier = Dy 2 0,
      failure_window_secs = 86400, probe_enabled = True, probe_interval_secs = 30\<rparr>"

datatype circuit_state = Closed | Open | HalfOpen

record provider_state =
  error_count :: nat
  is_billing :: bool
  cooldown_start :: "nat option"
  cooldown_duration :: nat
  last_probe :: "nat option"
  errors_in_window :: nat
  error_window_start :: "nat option"

definition new_provider :: provider_state where
  "new_provider = \<lparr>error_count = 0, is_billing = False, cooldown_start = None, cooldown_duration = 0,
     last_probe = None, errors_in_window = 0, error_window_start = None\<rparr>"

datatype cooldown_reason = BillingCooldown nat | ErrorCooldown nat

datatype cooldown_verdict = AllowCall | AllowProbe | RejectCall cooldown_reason nat

record provider_snapshot =
  snap_provider :: string
  snap_state :: circuit_state
  snap_errors :: nat
  snap_billing :: bool
  snap_remaining :: "nat option"

type_synonym breaker = "string \<rightharpoonup> provider_state"

section \<open>Operations\<close>

definition sat_inc32 :: "nat \<Rightarrow> nat" where
  "sat_inc32 n = min (n + 1) (2 ^ 32 - 1)"

definition calculate_cooldown :: "cooldown_config \<Rightarrow> nat \<Rightarrow> bool \<Rightarrow> nat" where
  "calculate_cooldown c errors billing =
     (if billing
      then let exponent = min (errors - 1) 10;
               secs = f64_to_u64 (f64_mul (f64_of_nat (billing_base_cooldown_secs c))
                                   (f64_powi (billing_multiplier c) exponent))
           in from_secs (min secs (billing_max_cooldown_secs c))
      else let exponent = min (errors - 1) (max_exponent c);
               secs = f64_to_u64 (f64_mul (f64_of_nat (base_cooldown_secs c))
                                   (f64_powi (backoff_multiplier c) exponent))
           in from_secs (min secs (max_cooldown_secs c)))"

definition check_provider :: "cooldown_config \<Rightarrow> nat \<Rightarrow> breaker \<Rightarrow> string \<Rightarrow> cooldown_verdict" where
  "check_provider c now b provider =
     (case b provider of
        None \<Rightarrow> AllowCall
      | Some s \<Rightarrow>
          (case cooldown_start s of
             None \<Rightarrow> AllowCall
           | Some start \<Rightarrow>
               let elapsed = now - start
               in if elapsed < cooldown_duration s
                  then let remaining = cooldown_duration s - elapsed;
                           probe_ok = (case last_probe s of
                              Some t \<Rightarrow> now - t \<ge> from_secs (probe_interval_secs c) | None \<Rightarrow> True)
                       in if probe_enabled c \<and> probe_ok then AllowProbe
                          else RejectCall (if is_billing s then BillingCooldown (error_count s)
                                           else ErrorCooldown (error_count s)) (as_secs remaining)
                  else AllowProbe))"

definition close_circuit :: "provider_state \<Rightarrow> provider_state" where
  "close_circuit s = s\<lparr>error_count := 0, is_billing := False, cooldown_start := None,
     cooldown_duration := 0, last_probe := None\<rparr>"

definition record_success :: "breaker \<Rightarrow> string \<Rightarrow> breaker" where
  "record_success b provider =
     (case b provider of None \<Rightarrow> b | Some s \<Rightarrow> b(provider \<mapsto> close_circuit s))"

definition or_new :: "provider_state option \<Rightarrow> provider_state" where
  "or_new x = (case x of None \<Rightarrow> new_provider | Some s \<Rightarrow> s)"

definition roll_window :: "cooldown_config \<Rightarrow> nat \<Rightarrow> provider_state \<Rightarrow> provider_state" where
  "roll_window c now s =
     (case error_window_start s of
        Some ws \<Rightarrow>
          (if now - ws \<ge> from_secs (failure_window_secs c)
           then s\<lparr>errors_in_window := 0, error_window_start := Some now\<rparr> else s)
      | None \<Rightarrow> s\<lparr>error_window_start := Some now\<rparr>)"

definition record_failure :: "cooldown_config \<Rightarrow> nat \<Rightarrow> breaker \<Rightarrow> string \<Rightarrow> bool \<Rightarrow> breaker" where
  "record_failure c now b provider billing =
     (let s = roll_window c now (or_new (b provider)); n = sat_inc32 (error_count s)
      in b(provider \<mapsto> s\<lparr>error_count := n, errors_in_window := sat_inc32 (errors_in_window s),
           is_billing := billing, cooldown_start := Some now,
           cooldown_duration := calculate_cooldown c n billing\<rparr>))"

definition record_probe_result :: "cooldown_config \<Rightarrow> nat \<Rightarrow> breaker \<Rightarrow> string \<Rightarrow> bool \<Rightarrow> breaker" where
  "record_probe_result c now b provider success =
     (if success then record_success b provider
      else (case b provider of
              None \<Rightarrow> b
            | Some s \<Rightarrow>
                let n = sat_inc32 (error_count s)
                in b(provider \<mapsto> s\<lparr>last_probe := Some now, error_count := n, cooldown_start := Some now,
                     cooldown_duration := calculate_cooldown c n (is_billing s)\<rparr>)))"

definition provider_circuit :: "nat \<Rightarrow> provider_state \<Rightarrow> circuit_state" where
  "provider_circuit now s =
     (case cooldown_start s of
        None \<Rightarrow> Closed
      | Some start \<Rightarrow>
          if now - start < cooldown_duration s then Open
          else if error_count s > 0 then HalfOpen else Closed)"

definition get_circuit :: "nat \<Rightarrow> breaker \<Rightarrow> string \<Rightarrow> circuit_state" where
  "get_circuit now b provider = (case b provider of None \<Rightarrow> Closed | Some s \<Rightarrow> provider_circuit now s)"

definition snapshot_of :: "nat \<Rightarrow> string \<Rightarrow> provider_state \<Rightarrow> provider_snapshot" where
  "snapshot_of now provider s =
     \<lparr>snap_provider = provider, snap_state = provider_circuit now s, snap_errors = error_count s,
      snap_billing = is_billing s,
      snap_remaining = (case cooldown_start s of
         None \<Rightarrow> None
       | Some start \<Rightarrow> if now - start < cooldown_duration s
                       then Some (as_secs (cooldown_duration s - (now - start))) else None)\<rparr>"

text \<open>The entries removed: an expired cooldown and no error left.\<close>

definition clear_expired :: "nat \<Rightarrow> breaker \<Rightarrow> breaker" where
  "clear_expired now b =
     (\<lambda>p. case b p of
            None \<Rightarrow> None
          | Some s \<Rightarrow>
              (case cooldown_start s of
                 None \<Rightarrow> Some s
               | Some start \<Rightarrow>
                   if now - start \<ge> cooldown_duration s \<and> error_count s = 0 then None else Some s))"

definition force_reset :: "breaker \<Rightarrow> string \<Rightarrow> breaker" where
  "force_reset b provider = b(provider := None)"

section \<open>Rotation of API keys\<close>

record auth_profile =
  profile_name :: string
  api_key_env :: string
  profile_priority :: nat

definition profile_key :: "string \<Rightarrow> string \<Rightarrow> string" where
  "profile_key provider profile = provider @ ''::'' @ profile"

definition in_cooldown :: "nat \<Rightarrow> breaker \<Rightarrow> string \<Rightarrow> bool" where
  "in_cooldown now b key =
     (case b key of
        None \<Rightarrow> False
      | Some s \<Rightarrow> (case cooldown_start s of None \<Rightarrow> False | Some start \<Rightarrow> now - start < cooldown_duration s))"

definition select_profile ::
  "nat \<Rightarrow> breaker \<Rightarrow> string \<Rightarrow> auth_profile list \<Rightarrow> (string \<times> string) option" where
  "select_profile now b provider profiles =
     (case profiles of
        [] \<Rightarrow> None
      | first # _ \<Rightarrow>
          (case find (\<lambda>p. \<not> in_cooldown now b (profile_key provider (profile_name p)))
                     (sort_key profile_priority profiles) of
             Some p \<Rightarrow> Some (profile_name p, api_key_env p)
           | None \<Rightarrow> Some (profile_name first, api_key_env first)))"

definition advance_profile :: "cooldown_config \<Rightarrow> nat \<Rightarrow> breaker \<Rightarrow> string \<Rightarrow> string \<Rightarrow> bool \<Rightarrow> breaker" where
  "advance_profile c now b provider failed billing =
     (let key = profile_key provider failed; s = or_new (b key); n = sat_inc32 (error_count s)
      in b(key \<mapsto> s\<lparr>error_count := n, is_billing := billing, cooldown_start := Some now,
           cooldown_duration := calculate_cooldown c n billing\<rparr>))"


section \<open>Runs\<close>

datatype breaker_event =
    CallOk string
  | CallFailed string bool
  | ProbeDone string bool
  | ProfileFailed string string bool
  | ClearExpired
  | ForceReset string

fun breaker_step :: "cooldown_config \<Rightarrow> breaker \<Rightarrow> nat \<times> breaker_event \<Rightarrow> breaker" where
  "breaker_step c b (now, CallOk p) = record_success b p"
| "breaker_step c b (now, CallFailed p billing) = record_failure c now b p billing"
| "breaker_step c b (now, ProbeDone p ok) = record_probe_result c now b p ok"
| "breaker_step c b (now, ProfileFailed p f billing) = advance_profile c now b p f billing"
| "breaker_step c b (now, ClearExpired) = clear_expired now b"
| "breaker_step c b (now, ForceReset p) = force_reset b p"

definition breaker_run :: "cooldown_config \<Rightarrow> (nat \<times> breaker_event) list \<Rightarrow> breaker" where
  "breaker_run c es = foldl (breaker_step c) Map.empty es"

lemma breaker_run_snoc [simp]:
  "breaker_run c [] = Map.empty" "breaker_run c (es @ [e]) = breaker_step c (breaker_run c es) e"
  by (simp_all add: breaker_run_def)

text \<open>An invariant of single entries that new entries have and every update keeps holds in every run.\<close>

lemma breaker_invariant:
  assumes new: "I new_provider" and close: "\<And>s. I s \<Longrightarrow> I (close_circuit s)"
    and fail: "\<And>now s billing. I s \<Longrightarrow> I (roll_window c now s)
      \<and> I (s\<lparr>error_count := sat_inc32 (error_count s), errors_in_window := sat_inc32 (errors_in_window s),
           is_billing := billing, cooldown_start := Some now,
           cooldown_duration := calculate_cooldown c (sat_inc32 (error_count s)) billing\<rparr>)
      \<and> I (s\<lparr>error_count := sat_inc32 (error_count s), is_billing := billing, cooldown_start := Some now,
           cooldown_duration := calculate_cooldown c (sat_inc32 (error_count s)) billing\<rparr>)"
    and probe: "\<And>now s p. (now, ProbeDone p False) \<in> set es \<Longrightarrow> I s \<Longrightarrow>
      I (s\<lparr>last_probe := Some now, error_count := sat_inc32 (error_count s), cooldown_start := Some now,
           cooldown_duration := calculate_cooldown c (sat_inc32 (error_count s)) (is_billing s)\<rparr>)"
    and here: "breaker_run c es p = Some s"
  shows "I s"
  using probe here
proof (induction es arbitrary: p s rule: rev_induct)
  case Nil
  then show ?case by simp
next
  case (snoc e es)
  have before: "I t" if "breaker_run c es q = Some t" for q t
    by (rule snoc.IH [OF _ that]) (auto intro: snoc.prems(1))
  have entry: "I (or_new (breaker_run c es q))" for q
    using before new by (cases "breaker_run c es q") (auto simp: or_new_def)
  obtain now ev where e: "e = (now, ev)" by (cases e)
  show ?case
  proof (cases ev)
    case (CallOk q)
    then show ?thesis using snoc.prems(2) e before close
      by (auto simp: record_success_def split: option.splits if_splits)
  next
    case (CallFailed q billing)
    then show ?thesis using snoc.prems(2) e before fail entry
      by (auto simp: record_failure_def Let_def split: if_splits)
  next
    case (ProbeDone q ok)
    have "I (t\<lparr>last_probe := Some now, error_count := sat_inc32 (error_count t), cooldown_start := Some now,
        cooldown_duration := calculate_cooldown c (sat_inc32 (error_count t)) (is_billing t)\<rparr>)"
      if "\<not> ok" "I t" for t
      by (rule snoc.prems(1) [of _ q]) (use that e ProbeDone in simp_all)
    with ProbeDone snoc.prems(2) e before close show ?thesis
      by (auto simp: record_probe_result_def record_success_def Let_def split: option.splits if_splits)
  next
    case (ProfileFailed q f billing)
    then show ?thesis using snoc.prems(2) e before fail entry
      by (auto simp: advance_profile_def Let_def split: if_splits)
  next
    case ClearExpired
    then show ?thesis using snoc.prems(2) e before
      by (auto simp: clear_expired_def split: option.splits if_splits)
  next
    case (ForceReset q)
    then show ?thesis using snoc.prems(2) e before
      by (auto simp: force_reset_def split: if_splits)
  qed
qed

definition longest_cooldown :: "cooldown_config \<Rightarrow> nat" where
  "longest_cooldown c = from_secs (max (max_cooldown_secs c) (billing_max_cooldown_secs c))"

lemma calculate_cooldown_bound: "calculate_cooldown c n billing \<le> longest_cooldown c"
  unfolding calculate_cooldown_def longest_cooldown_def from_secs_def Let_def
  by (simp add: min_le_iff_disj le_max_iff_disj)

lemma duration_bound: "breaker_run c es p = Some s \<Longrightarrow> cooldown_duration s \<le> longest_cooldown c"
  by (rule breaker_invariant [where I = "\<lambda>s. cooldown_duration s \<le> longest_cooldown c"])
    (auto simp: new_provider_def close_circuit_def roll_window_def calculate_cooldown_bound split: option.split)

lemma no_probe: "breaker_run c es p = Some s \<Longrightarrow> (\<forall>e \<in> set es. \<forall>q. snd e \<noteq> ProbeDone q False) \<Longrightarrow>
   last_probe s = None"
  by (rule breaker_invariant [where I = "\<lambda>s. last_probe s = None"])
    (force simp: new_provider_def close_circuit_def roll_window_def split: option.split)+

text \<open>
  C37: The circuit is never stuck open: whatever happened before, once the longest cooldown has passed
  without another failure a call to the provider is let through.
\<close>

theorem provider_reopens:
  assumes "breaker_run c es p = Some s" and "cooldown_start s = Some start"
    and "start + longest_cooldown c \<le> now"
  shows "check_provider c now (breaker_run c es) p = AllowProbe"
proof -
  have "\<not> now - start < cooldown_duration s" using assms(3) duration_bound [OF assms(1)] by arith
  with assms(1,2) show ?thesis by (simp add: check_provider_def Let_def)
qed

text \<open>
  The breaker does not break. With probing enabled, as by default, no call is ever rejected after
  any number of failures and successes that are recorded as such; only a failed probe, which no code
  records, would make it reject.
\<close>

theorem breaker_never_rejects:
  assumes "probe_enabled c" and "list_all (\<lambda>e. case snd e of ProbeDone _ ok \<Rightarrow> ok | _ \<Rightarrow> True) es"
  shows "check_provider c now (breaker_run c es) p \<in> {AllowCall, AllowProbe}"
proof (cases "breaker_run c es p")
  case None
  then show ?thesis by (simp add: check_provider_def)
next
  case (Some s)
  have "snd e \<noteq> ProbeDone q False" if "e \<in> set es" for e q
    using assms(2) that by (auto simp: list_all_iff dest!: bspec)
  then have "last_probe s = None" by (intro no_probe [OF Some]) simp
  with Some assms(1) show ?thesis
    by (auto simp: check_provider_def Let_def split: option.split)
qed


lemmas cooldown_eval =
  sat_inc32_def f64_powi_def f64_of_nat_def f64_to_u64_def Let_def

definition one_failure :: "(nat \<times> breaker_event) list" where
  "one_failure = [(7, CallFailed ''groq'' False)]"

lemma one_failure_state:
  "breaker_run default_cooldown one_failure ''groq'' =
     Some \<lparr>error_count = 1, is_billing = False, cooldown_start = Some 7, cooldown_duration = from_secs 60,
       last_probe = None, errors_in_window = 1, error_window_start = Some 7\<rparr>"
proof -
  have "calculate_cooldown default_cooldown (sat_inc32 0) False = from_secs 60"
    by (simp add: default_cooldown_def calculate_cooldown_def cooldown_eval)
  then show ?thesis
    by (simp add: one_failure_def breaker_run_def record_failure_def or_new_def new_provider_def
        roll_window_def sat_inc32_def Let_def)
qed

lemma provider_reopens_witness:
  "check_provider default_cooldown (from_secs 86401) (breaker_run default_cooldown one_failure) ''groq'' = AllowProbe"
  using provider_reopens [OF one_failure_state, of 7 "from_secs 86401"]
  by (simp add: longest_cooldown_def default_cooldown_def from_secs_def)

lemma breaker_never_rejects_witness:
  "check_provider default_cooldown 8 (breaker_run default_cooldown one_failure) ''groq'' \<in> {AllowCall, AllowProbe}"
  by (rule breaker_never_rejects) (simp_all add: default_cooldown_def one_failure_def)

text \<open>Once a failed probe is recorded, calls are rejected.\<close>

lemma failed_probe_rejects:
  "check_provider default_cooldown 8 (breaker_run default_cooldown (one_failure @ [(7, ProbeDone ''groq'' False)])) ''groq''
     = RejectCall (ErrorCooldown 2) 299"
proof -
  have "calculate_cooldown default_cooldown (sat_inc32 1) False = from_secs 300"
    by (simp add: default_cooldown_def calculate_cooldown_def cooldown_eval)
  then have "breaker_run default_cooldown (one_failure @ [(7, ProbeDone ''groq'' False)]) ''groq'' =
      Some \<lparr>error_count = 2, is_billing = False, cooldown_start = Some 7, cooldown_duration = from_secs 300,
        last_probe = Some 7, errors_in_window = 1, error_window_start = Some 7\<rparr>"
    by (simp add: one_failure_state record_probe_result_def Let_def sat_inc32_def)
  then show ?thesis
    unfolding check_provider_def by (simp add: default_cooldown_def from_secs_def as_secs_def)
qed

text \<open>
  The rotation takes a profile of least priority among those not in cooldown, and the first in
  configuration order when all are.
\<close>

lemma find_sorted_least:
  assumes "find P (sort_key f xs) = Some x" "y \<in> set xs" "P y"
  shows "P x \<and> x \<in> set xs \<and> f x \<le> f y"
proof -
  from assms(1) obtain i where i: "i < length (sort_key f xs)" "P (sort_key f xs ! i)" "x = sort_key f xs ! i"
    "\<forall>j<i. \<not> P (sort_key f xs ! j)" by (auto simp: find_Some_iff)
  from assms(2) obtain j where j: "j < length (sort_key f xs)" "sort_key f xs ! j = y"
    by (metis in_set_conv_nth set_sort)
  with i(4) assms(3) have "i \<le> j" by (metis not_le_imp_less)
  with i(1) j have "f (sort_key f xs ! i) \<le> f (sort_key f xs ! j)"
    using sorted_nth_mono [OF sorted_sort_key [of f xs], of i j] by simp
  with i j show ?thesis by (metis nth_mem set_sort)
qed

lemma select_profile_least:
  assumes "select_profile now b provider profiles = Some r"
    and "q \<in> set profiles" "\<not> in_cooldown now b (profile_key provider (profile_name q))"
  obtains p where "p \<in> set profiles" "r = (profile_name p, api_key_env p)"
    "\<not> in_cooldown now b (profile_key provider (profile_name p))" "profile_priority p \<le> profile_priority q"
proof -
  let ?P = "\<lambda>p. \<not> in_cooldown now b (profile_key provider (profile_name p))"
  have "find ?P (sort_key profile_priority profiles) \<noteq> None"
    using assms(2,3) by (auto simp: find_None_iff)
  then obtain p where p: "find ?P (sort_key profile_priority profiles) = Some p" by auto
  with assms(1,2) have "r = (profile_name p, api_key_env p)"
    by (auto simp: select_profile_def split: list.splits)
  with find_sorted_least [OF p assms(2,3)] show ?thesis using that by blast
qed

end
