(* ===== verification/Llm_Errors.thy ===== *)
theory Llm_Errors
  imports Str_Utils
begin

text \<open>
  Classification of LLM errors, \<open>clawreform-runtime/src/llm_errors.rs\<close>: an error text and an optional
  HTTP status are put into one of eight categories.
\<close>

datatype error_category =
    RateLimit | Overloaded | Timeout | Billing | Auth | ContextOverflow | Format | ModelNotFound

record classified_error =
  category :: error_category
  is_retryable :: bool
  is_billing_error :: bool
  suggested_delay_ms :: "nat option"
  sanitized_message :: string
  raw_message :: string

section \<open>Pattern tables\<close>

definition context_overflow_patterns :: "string list" where
  "context_overflow_patterns =
     [''context_length_exceeded'', ''context length'', ''context_length'', ''maximum context'',
      ''context window'', ''token limit'', ''too many tokens'', ''max_tokens_exceeded'',
      ''max tokens exceeded'', ''prompt is too long'', ''input too long'', ''context.length'']"

definition billing_patterns :: "string list" where
  "billing_patterns =
     [''payment required'', ''insufficient credits'', ''credit balance'', ''billing'',
      ''insufficient balance'', ''usage limit'']"

definition auth_patterns :: "string list" where
  "auth_patterns =
     [''invalid api key'', ''invalid api_key'', ''invalid apikey'', ''incorrect api key'',
      ''invalid token'', ''unauthorized'', ''forbidden'', ''authentication'', ''permission denied'']"

definition rate_limit_patterns :: "string list" where
  "rate_limit_patterns =
     [''rate limit'', ''rate_limit'', ''too many requests'', ''exceeded quota'', ''exceeded your quota'',
      ''resource exhausted'', ''resource_exhausted'', ''quota exceeded'', ''tokens per minute'',
      ''requests per minute'', ''tpm limit'', ''rpm limit'']"

definition model_not_found_patterns :: "string list" where
  "model_not_found_patterns =
     [''model not found'', ''model_not_found'', ''unknown model'', ''does not exist'', ''not_found'',
      ''model unavailable'', ''model_unavailable'', ''no such model'', ''invalid model'', ''is not found'']"

definition format_patterns :: "string list" where
  "format_patterns =
     [''invalid request'', ''invalid_request'', ''malformed'', ''tool_use'', ''schema'',
      ''validation error'', ''validation_error'', ''invalid parameter'', ''invalid_parameter'',
      ''missing required'', ''bad request'', ''bad_request'']"

definition overloaded_patterns :: "string list" where
  "overloaded_patterns =
     [''overloaded'', ''overloaded_error'', ''service unavailable'', ''service_unavailable'',
      ''high demand'', ''capacity'', ''server_error'', ''internal server error'', ''internal_server_error'']"

definition timeout_patterns :: "string list" where
  "timeout_patterns =
     [''timeout'', ''timed out'', ''deadline exceeded'', ''etimedout'', ''econnreset'', ''econnrefused'',
      ''econnaborted'', ''epipe'', ''ehostunreach'', ''enetunreach'', ''connection reset'',
      ''connection refused'', ''network error'', ''fetch failed'']"

definition matches_any :: "string \<Rightarrow> string list \<Rightarrow> bool" where
  "matches_any haystack patterns = list_ex (\<lambda>p. contains_str haystack p) patterns"

section \<open>Retry delay\<close>

definition is_digit :: "char \<Rightarrow> bool" where
  "is_digit c = (let n = (of_char c :: nat) in 48 \<le> n \<and> n \<le> 57)"

definition digits_value :: "string \<Rightarrow> nat" where
  "digits_value = foldl (\<lambda>n c. 10 * n + (of_char c - 48)) 0"

text \<open>\<open>parse::<u64>\<close> on digits: an error on the empty text and beyond 64 bits.\<close>

definition parse_u64 :: "string \<Rightarrow> nat option" where
  "parse_u64 s = (if s = [] \<or> digits_value s \<ge> 2 ^ 64 then None else Some (digits_value s))"

definition retry_prefixes :: "string list" where
  "retry_prefixes = [''retry after '', ''retry-after: '', ''try again in '']"

fun delay_after :: "string \<Rightarrow> string list \<Rightarrow> nat option" where
  "delay_after lower [] = None"
| "delay_after lower (p # ps) =
     (case find_sub p lower of
        None \<Rightarrow> delay_after lower ps
      | Some start \<Rightarrow>
          let after = drop (start + length p) lower; num = takeWhile is_digit after
          in case parse_u64 num of
               None \<Rightarrow> delay_after lower ps
             | Some v \<Rightarrow>
                 if v = 0 then delay_after lower ps
                 else if starts_with (drop (length num) after) ''ms'' then Some v
                 else Some (min (v * 1000) (2 ^ 64 - 1)))"

definition extract_retry_delay :: "string \<Rightarrow> nat option" where
  "extract_retry_delay message = delay_after (to_lowercase message) retry_prefixes"

section \<open>Classification\<close>

definition is_html_error_page :: "string \<Rightarrow> bool" where
  "is_html_error_page body =
     (let lower = to_lowercase body
      in contains_str lower ''<!doctype'' \<or> contains_str lower ''<html''
         \<or> contains_str lower ''cf-error-code'' \<or> contains_str lower ''cf-error-type''
         \<or> list_ex (\<lambda>code. contains_str lower (show_nat code) \<and> contains_str lower ''cloudflare'') [521..<531])"

definition sanitize_for_user :: "error_category \<Rightarrow> string" where
  "sanitize_for_user c =
     (case c of
        RateLimit \<Rightarrow> ''The AI provider is rate-limiting requests. Retrying shortly...''
      | Overloaded \<Rightarrow> ''The AI provider is temporarily overloaded. Retrying...''
      | Timeout \<Rightarrow> ''The request timed out. Check your network connection.''
      | Billing \<Rightarrow> ''Billing issue with the AI provider. Check your API plan.''
      | Auth \<Rightarrow> ''Authentication failed. Check your API key configuration.''
      | ContextOverflow \<Rightarrow> ''The conversation is too long for the model'' @ [CHR 0x27] @ ''s context window.''
      | Format \<Rightarrow> ''LLM request failed. Check your API key and model configuration in Settings.''
      | ModelNotFound \<Rightarrow> ''The requested model was not found. Check the model name.'')"

definition build_error :: "string \<Rightarrow> error_category \<Rightarrow> classified_error" where
  "build_error message c =
     \<lparr>category = c, is_retryable = (c = RateLimit \<or> c = Overloaded \<or> c = Timeout),
      is_billing_error = (c = Billing), suggested_delay_ms = extract_retry_delay message,
      sanitized_message = sanitize_for_user c, raw_message = message\<rparr>"

text \<open>The pattern cascade, the HTML check and the fallbacks, in the code's order.\<close>

definition classify_text :: "string \<Rightarrow> nat option \<Rightarrow> error_category" where
  "classify_text message status =
     (let lower = to_lowercase message
      in if matches_any lower context_overflow_patterns then ContextOverflow
         else if matches_any lower billing_patterns then Billing
         else if status = Some 402 then Billing
         else if matches_any lower auth_patterns then Auth
         else if status = Some 401 \<or> status = Some 403 then Auth
         else if matches_any lower rate_limit_patterns then RateLimit
         else if status = Some 429 then RateLimit
         else if matches_any lower model_not_found_patterns then ModelNotFound
         else if contains_str lower ''model'' \<and> contains_str lower ''not found'' then ModelNotFound
         else if matches_any lower format_patterns then Format
         else if status = Some 400 then Format
         else if matches_any lower overloaded_patterns then Overloaded
         else if status = Some 500 \<or> status = Some 503 then Overloaded
         else if matches_any lower timeout_patterns then Timeout
         else if is_html_error_page message then Overloaded
         else (case status of
                 Some code \<Rightarrow>
                   if 500 \<le> code \<and> code < 600 then Overloaded
                   else if 400 \<le> code \<and> code < 500 then Format
                   else if list_ex (contains_str lower) [''connect'', ''network'', ''dns''] then Timeout
                   else Format
               | None \<Rightarrow>
                   if list_ex (contains_str lower) [''connect'', ''network'', ''dns''] then Timeout
                   else Format))"

definition classify_error :: "string \<Rightarrow> nat option \<Rightarrow> classified_error" where
  "classify_error message status =
     build_error message
       (case status of
          Some code \<Rightarrow>
            if code = 429 then RateLimit
            else if code = 402 then Billing
            else if code = 401 then Auth
            else if code = 403 then
              (if matches_any (to_lowercase message) rate_limit_patterns then RateLimit else Auth)
            else classify_text message status
        | None \<Rightarrow> classify_text message status)"

definition is_transient :: "string \<Rightarrow> bool" where
  "is_transient message =
     (let lower = to_lowercase message
      in matches_any lower timeout_patterns \<or> matches_any lower overloaded_patterns
         \<or> matches_any lower rate_limit_patterns)"

text \<open>Every user message is below the cap of 200 characters, so the truncation branch is never taken.\<close>

lemma sanitized_short: "length (sanitize_for_user c) \<le> 200"
  by (cases c) (simp_all add: sanitize_for_user_def)

text \<open>An unambiguous status decides alone.\<close>

lemma status_decides:
  "category (classify_error message (Some 429)) = RateLimit"
  "category (classify_error message (Some 402)) = Billing"
  "category (classify_error message (Some 401)) = Auth"
  "category (classify_error message (Some 403)) \<in> {Auth, RateLimit}"
  by (simp_all add: classify_error_def build_error_def)

text \<open>A text that is classified as retryable without a status has one of the transient patterns, or is an HTML page, or names the network.\<close>

lemma retryable_reason:
  "is_retryable (classify_error message None) \<Longrightarrow>
   is_transient message \<or> is_html_error_page message
   \<or> list_ex (contains_str (to_lowercase message)) [''connect'', ''network'', ''dns'']"
  by (auto simp: classify_error_def build_error_def classify_text_def is_transient_def Let_def
      split: if_splits)

lemma extract_retry_delay_bounds: "extract_retry_delay message = Some d \<Longrightarrow> 0 < d \<and> d < 2 ^ 64"
proof -
  have "delay_after lower ps = Some d \<Longrightarrow> 0 < d \<and> d < 2 ^ 64" for lower ps
    by (induction ps) (auto simp: parse_u64_def Let_def split: option.splits if_splits)
  then show "extract_retry_delay message = Some d \<Longrightarrow> 0 < d \<and> d < 2 ^ 64"
    by (simp add: extract_retry_delay_def)
qed

end
