(* ===== verification/Llm_Retry.thy ===== *)
theory Llm_Retry
  imports Agent Message Auth_Cooldown Llm_Errors
begin

text \<open>
  Requests to a model and their retries: the types of \<open>clawreform-runtime/src/llm_driver.rs\<close> and
  \<open>call_with_retry\<close> and \<open>stream_with_retry\<close> of \<open>agent_loop.rs\<close>. A driver talks to a provider over HTTP;
  it is a function from a request and the state \<open>'w\<close> of the world to a response or error and the next
  state. Sleeping is a function on the world, too, and \<open>clock\<close> reads the time in nanoseconds.
\<close>

section \<open>Drivers\<close>

datatype llm_error =
    HttpError string
  | ApiError nat string
  | RateLimited nat
  | ParseError string
  | MissingApiKey string
  | ModelOverloaded nat

definition llm_error_text :: "llm_error \<Rightarrow> string" where
  "llm_error_text e =
     (case e of
        HttpError s \<Rightarrow> ''HTTP error: '' @ s
      | ApiError status m \<Rightarrow> ''API error ('' @ show_nat status @ ''): '' @ m
      | RateLimited ms \<Rightarrow> ''Rate limited, retry after '' @ show_nat ms @ ''ms''
      | ParseError s \<Rightarrow> ''Parse error: '' @ s
      | MissingApiKey s \<Rightarrow> ''Missing API key: '' @ s
      | ModelOverloaded ms \<Rightarrow> ''Model overloaded, retry after '' @ show_nat ms @ ''ms'')"

record 'j completion_request =
  req_model :: string
  req_messages :: "'j message list"
  req_tools :: "'j tool_definition list"
  req_max_tokens :: nat
  req_temperature :: f64
  req_system :: "string option"

record 'j tool_call =
  call_id :: string
  call_name :: string
  call_input :: 'j

record 'j completion_response =
  resp_content :: "'j content_block list"
  resp_stop_reason :: stop_reason
  resp_tool_calls :: "'j tool_call list"
  resp_usage :: token_usage

definition response_text :: "'j completion_response \<Rightarrow> string" where
  "response_text r = concat (map (\<lambda>b. case b of Text t \<Rightarrow> t | _ \<Rightarrow> []) (resp_content r))"

type_synonym ('j, 'w) driver_call =
  "'j completion_request \<Rightarrow> 'w \<Rightarrow> ('j completion_response, llm_error) result \<times> 'w"

record 'w environment =
  clock :: "'w \<Rightarrow> nat"
  sleep_ms :: "nat \<Rightarrow> 'w \<Rightarrow> 'w"

section \<open>Retries\<close>

definition max_retries :: nat where
  "max_retries = 3"

definition base_retry_delay_ms :: nat where
  "base_retry_delay_ms = 1000"

datatype call_error =
    InCooldown string cooldown_reason nat
  | RateLimitedAfter nat
  | OverloadedAfter nat
  | Classified string
  | GaveUp string

text \<open>The provider with its breaker, when there is one.\<close>

type_synonym breaker_ref = "(string \<times> cooldown_config \<times> breaker) option"

definition note_success :: "breaker_ref \<Rightarrow> breaker_ref" where
  "note_success = map_option (\<lambda>(p, c, b). (p, c, record_success b p))"

definition note_failure :: "nat \<Rightarrow> bool \<Rightarrow> breaker_ref \<Rightarrow> breaker_ref" where
  "note_failure now billing = map_option (\<lambda>(p, c, b). (p, c, record_failure c now b p billing))"

definition backoff_delay :: "nat \<Rightarrow> nat \<Rightarrow> nat" where
  "backoff_delay retry_after_ms attempt = max retry_after_ms (base_retry_delay_ms * 2 ^ attempt)"

definition em_dash :: string where
  "em_dash = [CHR 0xE2, CHR 0x80, CHR 0x94]"

definition user_message_of :: "llm_error \<Rightarrow> string \<times> bool" where
  "user_message_of e =
     (let raw = llm_error_text e; classified = classify_error raw None
      in (if category classified = Format
          then sanitized_message classified @ '' '' @ em_dash @ '' raw: '' @ raw
          else sanitized_message classified, is_billing_error classified))"

text \<open>
  The loop over the attempts \<open>attempt, attempt + 1, ...\<close>, of which \<open>left\<close> remain. It returns the
  response or error, the breaker and the world.
\<close>

fun retry_loop ::
  "'w environment \<Rightarrow> ('j, 'w) driver_call \<Rightarrow> 'j completion_request \<Rightarrow> nat \<Rightarrow> nat \<Rightarrow> string option
   \<Rightarrow> breaker_ref \<Rightarrow> 'w \<Rightarrow> ('j completion_response, call_error) result \<times> breaker_ref \<times> 'w" where
  "retry_loop env call req 0 attempt last_error cd w =
     (Err (GaveUp (case last_error of Some s \<Rightarrow> s | None \<Rightarrow> ''Unknown error'')), cd, w)"
| "retry_loop env call req (Suc left) attempt last_error cd w =
     (case call req w of
        (Inr response, w1) \<Rightarrow> (Ok response, note_success cd, w1)
      | (Inl (RateLimited ms), w1) \<Rightarrow>
          if attempt = max_retries
          then (Err (RateLimitedAfter max_retries), note_failure (clock env w1) False cd, w1)
          else retry_loop env call req left (Suc attempt) (Some ''Rate limited'') cd
                 (sleep_ms env (backoff_delay ms attempt) w1)
      | (Inl (ModelOverloaded ms), w1) \<Rightarrow>
          if attempt = max_retries
          then (Err (OverloadedAfter max_retries), note_failure (clock env w1) False cd, w1)
          else retry_loop env call req left (Suc attempt) (Some ''Overloaded'') cd
                 (sleep_ms env (backoff_delay ms attempt) w1)
      | (Inl e, w1) \<Rightarrow>
          let (msg, billing) = user_message_of e
          in (Err (Classified msg), note_failure (clock env w1) billing cd, w1))"

definition with_breaker ::
  "'w environment \<Rightarrow> ('j, 'w) driver_call \<Rightarrow> 'j completion_request \<Rightarrow> breaker_ref \<Rightarrow> 'w
   \<Rightarrow> ('j completion_response, call_error) result \<times> breaker_ref \<times> 'w" where
  "with_breaker env call req cd w =
     (let verdict = (case cd of None \<Rightarrow> AllowCall | Some (p, c, b) \<Rightarrow> check_provider c (clock env w) b p)
      in case verdict of
           RejectCall reason secs \<Rightarrow>
             (Err (InCooldown (case cd of None \<Rightarrow> [] | Some (p, _) \<Rightarrow> p) reason secs), cd, w)
         | _ \<Rightarrow> retry_loop env call req (max_retries + 1) 0 None cd w)"

record ('j, 'w) driver =
  complete :: "('j, 'w) driver_call"
  stream :: "('j, 'w) driver_call"

definition call_with_retry ::
  "'w environment \<Rightarrow> ('j, 'w) driver \<Rightarrow> 'j completion_request \<Rightarrow> breaker_ref \<Rightarrow> 'w
   \<Rightarrow> ('j completion_response, call_error) result \<times> breaker_ref \<times> 'w" where
  "call_with_retry env d = with_breaker env (complete d)"

definition stream_with_retry ::
  "'w environment \<Rightarrow> ('j, 'w) driver \<Rightarrow> 'j completion_request \<Rightarrow> breaker_ref \<Rightarrow> 'w
   \<Rightarrow> ('j completion_response, call_error) result \<times> breaker_ref \<times> 'w" where
  "stream_with_retry env d = with_breaker env (stream d)"

section \<open>How often a provider is called\<close>

text \<open>
  A world that counts: \<open>counted call\<close> behaves as \<open>call\<close> and keeps the requests made so far. The
  environment of such a world leaves the count alone.
\<close>

definition counted :: "('j, 'w) driver_call \<Rightarrow> ('j, 'w \<times> nat) driver_call" where
  "counted call req = (\<lambda>(w, n). let (r, w1) = call req w in (r, (w1, Suc n)))"

definition counting :: "'w environment \<Rightarrow> ('w \<times> nat) environment" where
  "counting env = \<lparr>clock = (\<lambda>(w, n). clock env w), sleep_ms = (\<lambda>ms (w, n). (sleep_ms env ms w, n))\<rparr>"

definition retriable :: "llm_error \<Rightarrow> bool" where
  "retriable e = (case e of RateLimited _ \<Rightarrow> True | ModelOverloaded _ \<Rightarrow> True | _ \<Rightarrow> False)"

lemma counted_apply: "call req w = (r, w1) \<Longrightarrow> counted call req (w, n) = (r, (w1, Suc n))"
  by (simp add: counted_def)

lemma counting_apply [simp]:
  "clock (counting env) (w, n) = clock env w" "sleep_ms (counting env) ms (w, n) = (sleep_ms env ms w, n)"
  by (simp_all add: counting_def)

lemma retry_loop_bound:
  "snd (snd (snd (retry_loop (counting env) (counted call) req left attempt le cd (w, n)))) \<le> n + left"
proof (induction left arbitrary: attempt le cd w n)
  case (Suc left)
  obtain r w1 where r: "call req w = (r, w1)" by (cases "call req w")
  have c: "counted call req (w, n) = (r, (w1, Suc n))" by (rule counted_apply) (rule r)
  note step = Suc.IH [of "Suc attempt" _ cd _ "Suc n"]
  show ?case
  proof (cases r)
    case (Inr resp)
    then show ?thesis by (simp add: c)
  next
    case (Inl e)
    then show ?thesis using step
      by (cases e) (simp_all add: c split: prod.split)
  qed
qed simp

lemma with_breaker_bound:
  "snd (snd (snd (with_breaker (counting env) (counted call) req cd (w, n)))) \<le> n + 4"
  using retry_loop_bound [of env call req 4 0 None cd w n]
  by (auto simp: with_breaker_def max_retries_def Let_def split: cooldown_verdict.split)

text \<open>
  The answers of the provider to the attempts, up to the first that is not asked to be retried.
\<close>

fun answers ::
  "'w environment \<Rightarrow> ('j, 'w) driver_call \<Rightarrow> 'j completion_request \<Rightarrow> nat \<Rightarrow> nat \<Rightarrow> 'w
   \<Rightarrow> ('j completion_response, llm_error) result list" where
  "answers env call req 0 attempt w = []"
| "answers env call req (Suc left) attempt w =
     (case call req w of
        (Inl (RateLimited ms), w1) \<Rightarrow>
          Inl (RateLimited ms) # answers env call req left (Suc attempt) (sleep_ms env (backoff_delay ms attempt) w1)
      | (Inl (ModelOverloaded ms), w1) \<Rightarrow>
          Inl (ModelOverloaded ms) # answers env call req left (Suc attempt) (sleep_ms env (backoff_delay ms attempt) w1)
      | (r, w1) \<Rightarrow> [r])"

definition call_outcome :: "('j completion_response, llm_error) result \<Rightarrow> ('j completion_response, call_error) result" where
  "call_outcome r =
     (case r of
        Inr response \<Rightarrow> Ok response
      | Inl (RateLimited _) \<Rightarrow> Err (RateLimitedAfter max_retries)
      | Inl (ModelOverloaded _) \<Rightarrow> Err (OverloadedAfter max_retries)
      | Inl e \<Rightarrow> Err (Classified (fst (user_message_of e))))"

lemma retry_loop_outcome:
  "attempt + left = max_retries \<Longrightarrow>
   fst (retry_loop env call req (Suc left) attempt le cd w) =
     call_outcome (last (answers env call req (Suc left) attempt w))"
proof (induction left arbitrary: attempt le w)
  case 0
  show ?case using 0
    by (cases "call req w")
      (auto simp: call_outcome_def split_def Let_def split: sum.split llm_error.split)
next
  case (Suc left)
  obtain r w1 where r: "call req w = (r, w1)" by (cases "call req w")
  have step: "fst (retry_loop env call req (Suc left) (Suc attempt) le' cd w') =
      call_outcome (last (answers env call req (Suc left) (Suc attempt) w'))" for le' w'
    using Suc.IH Suc.prems by simp
  have ne: "answers env call req (Suc left) (Suc attempt) w' \<noteq> []" for w'
    by (cases "call req w'") (auto split: sum.split llm_error.split)
  show ?case
  proof (cases r)
    case (Inr resp)
    with r show ?thesis by (simp add: call_outcome_def)
  next
    case (Inl e)
    then show ?thesis using r Suc.prems step ne
      by (cases e) (simp_all add: call_outcome_def split_def Let_def del: retry_loop.simps(2) answers.simps(2)
        add: retry_loop.simps(2) [of _ _ _ "Suc left"] answers.simps(2) [of _ _ _ "Suc left"])
  qed
qed

text \<open>
  A call returns what the last of at most four attempts gives: the first answer that is not a rate
  limit or an overload, or after four of those an error of that kind. It asks the provider at most four
  times.
\<close>

theorem call_returns_last_answer:
  "fst (call_with_retry env d req None w) = call_outcome (last (answers env (complete d) req 4 0 w))
   \<and> length (answers env (complete d) req 4 0 w) \<in> {1..4}
   \<and> list_all (\<lambda>r. case r of Inl e \<Rightarrow> retriable e | Inr _ \<Rightarrow> False) (butlast (answers env (complete d) req 4 0 w))"
proof -
  have len: "length (answers env call req (Suc k) attempt w) \<in> {1..Suc k}
      \<and> list_all (\<lambda>r. case r of Inl e \<Rightarrow> retriable e | Inr _ \<Rightarrow> False) (butlast (answers env call req (Suc k) attempt w))"
    for call k attempt w
  proof (induction k arbitrary: attempt w)
    case 0
    show ?case by (cases "call req w") (auto split: sum.split llm_error.split)
  next
    case (Suc k)
    then show ?case
      by (cases "call req w") (auto simp: retriable_def simp del: answers.simps(2)
        simp add: answers.simps(2) [of _ _ _ "Suc k"] split: sum.split llm_error.split)
  qed
  show ?thesis
    using retry_loop_outcome [of 0 3 env "complete d" req None None w] len [of "complete d" 3 0 w]
    by (simp add: call_with_retry_def with_breaker_def max_retries_def eval_nat_numeral)
qed

end
