(* ===== verification/Tool_Recovery.thy ===== *)
theory Tool_Recovery
  imports Llm_Retry
begin

text \<open>
  \<open>recover_text_tool_calls\<close> of \<open>clawreform-runtime/src/agent_loop.rs\<close>: tool calls that a model writes as
  text. \<open>parse_json\<close> is \<open>serde_json::from_str\<close>; \<open>uuid n\<close> is the \<open>n\<close>-th random identifier drawn.
\<close>

section \<open>The two patterns\<close>

definition fn_open :: string where
  "fn_open = ''<function=''"

definition fn_tag :: string where
  "fn_tag = ''<function>''"

definition fn_close :: string where
  "fn_close = ''</function>''"

definition recovered_call :: "(nat \<Rightarrow> string) \<Rightarrow> 'j tool_call list \<Rightarrow> string \<Rightarrow> 'j \<Rightarrow> 'j tool_call" where
  "recovered_call uuid calls name j =
     \<lparr>call_id = ''recovered_'' @ uuid (length calls), call_name = name, call_input = j\<rparr>"

lemma find_sub_progress: "find_sub m t = Some i \<Longrightarrow> m \<noteq> [] \<Longrightarrow> length (drop (i + length m) t) < length t"
  using find_sub_bound [of m t i] by (cases m) auto

lemma fn_not_Nil [simp]: "fn_open \<noteq> []" "fn_tag \<noteq> []" "fn_close \<noteq> []"
  by (simp_all add: fn_open_def fn_tag_def fn_close_def)

text \<open>Both loops run over the text that is still to be searched and append to the calls found so far.\<close>

function pattern1 ::
  "(string \<Rightarrow> 'j option) \<Rightarrow> (nat \<Rightarrow> string) \<Rightarrow> string list \<Rightarrow> string \<Rightarrow> 'j tool_call list \<Rightarrow> 'j tool_call list" where
  "pattern1 parse_json uuid names text calls =
     (case find_sub fn_open text of
        None \<Rightarrow> calls
      | Some start \<Rightarrow>
          let after_prefix = drop (start + length fn_open) text
          in case str_find (CHR ''>'') after_prefix of
               None \<Rightarrow> pattern1 parse_json uuid names after_prefix calls
             | Some name_end \<Rightarrow>
                 let name = take name_end after_prefix; body = drop (name_end + 1) after_prefix
                 in case find_sub fn_close body of
                      None \<Rightarrow> pattern1 parse_json uuid names body calls
                    | Some close_offset \<Rightarrow>
                        let rest = drop (close_offset + length fn_close) body
                        in if name \<notin> set names then pattern1 parse_json uuid names rest calls
                           else (case parse_json (trim (take close_offset body)) of
                                   None \<Rightarrow> pattern1 parse_json uuid names rest calls
                                 | Some j \<Rightarrow> pattern1 parse_json uuid names rest
                                     (calls @ [recovered_call uuid calls name j])))"
  by pat_completeness auto
termination
  by (relation "measure (\<lambda>(_, _, _, text, _). length text)")
    (auto dest!: find_sub_progress)

function pattern2 ::
  "(string \<Rightarrow> 'j option) \<Rightarrow> (nat \<Rightarrow> string) \<Rightarrow> string list \<Rightarrow> string \<Rightarrow> 'j tool_call list \<Rightarrow> 'j tool_call list" where
  "pattern2 parse_json uuid names text calls =
     (case find_sub fn_tag text of
        None \<Rightarrow> calls
      | Some start \<Rightarrow>
          let after_tag = drop (start + length fn_tag) text
          in case find_sub fn_close after_tag of
               None \<Rightarrow> pattern2 parse_json uuid names after_tag calls
             | Some close_offset \<Rightarrow>
                 let inner = take close_offset after_tag;
                     rest = drop (close_offset + length fn_close) after_tag
                 in case str_find (CHR ''{'') inner of
                      None \<Rightarrow> pattern2 parse_json uuid names rest calls
                    | Some brace_pos \<Rightarrow>
                        let name = trim (take brace_pos inner)
                        in if name = [] \<or> name \<notin> set names then pattern2 parse_json uuid names rest calls
                           else (case parse_json (trim (drop brace_pos inner)) of
                                   None \<Rightarrow> pattern2 parse_json uuid names rest calls
                                 | Some j \<Rightarrow>
                                     if list_ex (\<lambda>c. call_name c = name \<and> call_input c = j) calls
                                     then pattern2 parse_json uuid names rest calls
                                     else pattern2 parse_json uuid names rest
                                       (calls @ [recovered_call uuid calls name j])))"
  by pat_completeness auto
termination
  by (relation "measure (\<lambda>(_, _, _, text, _). length text)")
    (auto dest!: find_sub_progress)

declare pattern1.simps [simp del] pattern2.simps [simp del]

definition recover_text_tool_calls ::
  "(string \<Rightarrow> 'j option) \<Rightarrow> (nat \<Rightarrow> string) \<Rightarrow> string \<Rightarrow> 'j tool_definition list \<Rightarrow> 'j tool_call list" where
  "recover_text_tool_calls parse_json uuid text available =
     (let names = map tool_name available
      in pattern2 parse_json uuid names text (pattern1 parse_json uuid names text []))"

section \<open>What is recovered\<close>

text \<open>Every call found names an available tool and carries its own identifier.\<close>

definition calls_ok :: "(nat \<Rightarrow> string) \<Rightarrow> string list \<Rightarrow> 'j tool_call list \<Rightarrow> bool" where
  "calls_ok uuid names calls \<longleftrightarrow>
     (\<forall>k < length calls. call_name (calls ! k) \<in> set names \<and> call_id (calls ! k) = ''recovered_'' @ uuid k)"

lemma calls_ok_snoc:
  "calls_ok uuid names calls \<Longrightarrow> name \<in> set names \<Longrightarrow>
   calls_ok uuid names (calls @ [recovered_call uuid calls name j])"
  by (auto simp: calls_ok_def nth_append recovered_call_def less_Suc_eq)

lemma pattern1_ok: "calls_ok uuid names calls \<Longrightarrow> calls_ok uuid names (pattern1 parse_json uuid names s calls)"
proof (induction parse_json uuid names s calls rule: pattern1.induct)
  case (1 parse_json uuid names s calls)
  then show ?case
    by (subst pattern1.simps) (auto simp: Let_def calls_ok_snoc split: option.split)
qed

lemma pattern2_ok: "calls_ok uuid names calls \<Longrightarrow> calls_ok uuid names (pattern2 parse_json uuid names s calls)"
proof (induction s arbitrary: calls rule: length_induct)
  case (1 s)
  have IH: "calls_ok uuid names (pattern2 parse_json uuid names t cs)"
    if "length t < length s" "calls_ok uuid names cs" for t cs
    using 1 that by blast
  show ?case
  proof (cases "find_sub fn_tag s")
    case None
    then show ?thesis using 1 by (subst pattern2.simps) simp
  next
    case (Some start)
    let ?after = "drop (start + length fn_tag) s"
    have shorter: "length ?after < length s" using find_sub_progress [OF Some] by simp
    have shorter2: "length (drop k ?after) < length s" for k using shorter by simp
    show ?thesis
      using Some "1.prems" IH [OF shorter] IH [OF shorter2]
      by (subst pattern2.simps) (auto simp: Let_def calls_ok_snoc split: option.split)
  qed
qed

lemma recovered_ok:
  "calls_ok uuid (map tool_name available) (recover_text_tool_calls parse_json uuid s available)"
  unfolding recover_text_tool_calls_def Let_def
  by (intro pattern2_ok pattern1_ok) (simp add: calls_ok_def)

lemma recovered_offered:
  "c \<in> set (recover_text_tool_calls parse_json uuid s available) \<Longrightarrow>
   call_name c \<in> tool_name ` set available"
  using recovered_ok [of uuid available parse_json s] by (auto simp: calls_ok_def in_set_conv_nth)

section \<open>Round trip\<close>

fun render_calls :: "('j \<Rightarrow> string) \<Rightarrow> (string \<times> 'j) list \<Rightarrow> string" where
  "render_calls to_json [] = []"
| "render_calls to_json ((name, j) # cs) =
     fn_open @ name @ ''>'' @ to_json j @ fn_close @ render_calls to_json cs"

fun number_calls :: "(nat \<Rightarrow> string) \<Rightarrow> nat \<Rightarrow> (string \<times> 'j) list \<Rightarrow> 'j tool_call list" where
  "number_calls uuid k [] = []"
| "number_calls uuid k ((name, j) # cs) =
     \<lparr>call_id = ''recovered_'' @ uuid k, call_name = name, call_input = j\<rparr> # number_calls uuid (Suc k) cs"

definition plain_call :: "(string \<Rightarrow> 'j option) \<Rightarrow> ('j \<Rightarrow> string) \<Rightarrow> string list \<Rightarrow> string \<times> 'j \<Rightarrow> bool" where
  "plain_call parse_json to_json names c =
     (fst c \<in> set names \<and> CHR ''>'' \<notin> set (fst c) \<and> CHR ''<'' \<notin> set (fst c)
      \<and> CHR ''<'' \<notin> set (to_json (snd c))
      \<and> trim (to_json (snd c)) = to_json (snd c) \<and> parse_json (to_json (snd c)) = Some (snd c))"

lemma fn_shape: "hd fn_open = CHR ''<''" "hd fn_tag = CHR ''<''" "hd fn_close = CHR ''<''"
  by (simp_all add: fn_open_def fn_tag_def fn_close_def)

lemma pattern1_render:
  "list_all (plain_call parse_json to_json names) cs \<Longrightarrow>
   pattern1 parse_json uuid names (render_calls to_json cs) calls = calls @ number_calls uuid (length calls) cs"
proof (induction cs arbitrary: calls)
  case Nil
  show ?case by (subst pattern1.simps) (simp add: fn_open_def)
next
  case (Cons c cs)
  obtain name j where c: "c = (name, j)" by (cases c)
  let ?rest = "render_calls to_json cs"
  have p: "name \<in> set names" "CHR ''>'' \<notin> set name" "CHR ''<'' \<notin> set (to_json j)"
    "trim (to_json j) = to_json j" "parse_json (to_json j) = Some j"
    "list_all (plain_call parse_json to_json names) cs"
    using Cons.prems c by (auto simp: plain_call_def [of _ _ _ "(name, j)"])
  have "find_sub fn_open (fn_open @ name @ ''>'' @ to_json j @ fn_close @ ?rest) = Some 0"
    using find_sub_free [of fn_open "[]"] by simp
  moreover have "str_find (CHR ''>'') (name @ ''>'' @ to_json j @ fn_close @ ?rest) = Some (length name)"
    using str_find_first [OF p(2)] by simp
  moreover have "find_sub fn_close (to_json j @ fn_close @ ?rest) = Some (length (to_json j))"
    using p(3) by (intro find_sub_free) (simp_all add: fn_shape)
  ultimately show ?case
    using Cons.IH [OF p(6), of "calls @ [recovered_call uuid calls name j]"] p c
    by (subst pattern1.simps) (simp add: Let_def recovered_call_def)
qed

lemma render_no_tag: "list_all (plain_call parse_json to_json names) cs \<Longrightarrow> find_sub fn_tag (render_calls to_json cs) = None"
proof (induction cs)
  case Nil
  show ?case by (simp add: fn_tag_def)
next
  case (Cons c cs)
  obtain name j where c: "c = (name, j)" by (cases c)
  let ?rest = "render_calls to_json cs"
  have free: "hd fn_tag \<notin> set (''function='' @ name @ ''>'' @ to_json j)" "hd fn_tag \<notin> set ''/function>''"
    using Cons.prems c by (auto simp: fn_shape plain_call_def [of _ _ _ "(name, j)"])
  have ih: "find_sub fn_tag ?rest = None" using Cons by simp
  have "find_sub fn_tag (''/function>'' @ ?rest) = None"
    by (simp only: find_sub_skip [OF fn_not_Nil(2) free(2)] ih option.map)
  then have close: "find_sub fn_tag (fn_close @ ?rest) = None"
    by (simp add: fn_close_def fn_tag_def)
  have "find_sub fn_tag ((''function='' @ name @ ''>'' @ to_json j) @ fn_close @ ?rest) = None"
    by (simp only: find_sub_skip [OF fn_not_Nil(2) free(1)] close option.map)
  then show ?case by (simp add: c fn_open_def fn_tag_def)
qed

text \<open>
  Text tool calls round trip: a list of calls to available tools written in the first form is
  recovered completely, in order, with the same inputs, when names and inputs hold no angle bracket
  and the JSON printer and parser agree on the inputs.
\<close>

theorem recover_rendered_calls:
  assumes "list_all (plain_call parse_json to_json (map tool_name available)) cs"
  shows "recover_text_tool_calls parse_json uuid (render_calls to_json cs) available = number_calls uuid 0 cs"
  using pattern1_render [OF assms, of uuid "[]"] render_no_tag [OF assms]
  by (simp add: recover_text_tool_calls_def Let_def pattern2.simps)

lemma recover_rendered_calls_witness:
  "recover_text_tool_calls (\<lambda>s. if s = ''{}'' then Some () else None) (\<lambda>n. show_nat n)
     (render_calls (\<lambda>_. ''{}'') [(''file_list'', ())])
     [\<lparr>tool_name = ''file_list'', tool_description = ''List'', input_schema = ()\<rparr>]
   = [\<lparr>call_id = ''recovered_0'', call_name = ''file_list'', call_input = ()\<rparr>]"
proof -
  have "trim ''{}'' = ''{}''" by code_simp
  then have a: "list_all (plain_call (\<lambda>s. if s = ''{}'' then Some () else None) (\<lambda>_. ''{}'')
      (map tool_name [\<lparr>tool_name = ''file_list'', tool_description = ''List'', input_schema = ()\<rparr>])) [(''file_list'', ())]"
    by (simp add: plain_call_def)
  have z: "show_nat 0 = ''0''" by code_simp
  from recover_rendered_calls [OF a, of show_nat] show ?thesis by (simp add: z)
qed

end
