(* ===== verification/Tool_Gate.thy ===== *)
theory Tool_Gate
  imports Exec_Policy Taint Mcp Llm_Retry
begin

text \<open>
  The gates a tool call passes before its tool runs: \<open>execute_tool\<close> of
  \<open>clawreform-runtime/src/tool_runner.rs\<close>. The tools themselves read files, start processes and talk to
  services: what one does to the world \<open>'w\<close> is the parameter \<open>run_tool\<close>, of the name it is run under.
\<close>

section \<open>What the call depends on\<close>

record ('j, 'w) tool_context =
  json_text :: "'j \<Rightarrow> string"
  str_field :: "string \<Rightarrow> 'j \<Rightarrow> string option"
  warnings_on :: bool
  allowed_tools :: "string list option"
  requires_approval :: "(string \<Rightarrow> bool) option"
  ask_approval :: "string \<Rightarrow> string \<Rightarrow> string \<Rightarrow> 'w \<Rightarrow> (bool, string) result \<times> 'w"
  caller :: "string option"
  shell_policy :: "exec_policy option"
  has_browser :: bool
  connected_mcp :: "string list option"
  skill_tools :: "(string \<Rightarrow> bool) option"
  run_tool :: "string \<Rightarrow> 'j \<Rightarrow> 'w \<Rightarrow> (string, string) result \<times> 'w"
  run_mcp :: "string \<Rightarrow> string \<Rightarrow> 'j \<Rightarrow> 'w \<Rightarrow> (string, string) result \<times> 'w"
  run_skill :: "string \<Rightarrow> 'j \<Rightarrow> 'w \<Rightarrow> (string, string) result \<times> 'w"

record tool_result =
  result_use_id :: string
  result_content :: string
  result_is_error :: bool

definition builtin_tools :: "string list" where
  "builtin_tools =
     [''file_read'', ''file_write'', ''file_list'', ''apply_patch'', ''web_fetch'', ''web_search'', ''shell_exec'',
      ''agent_send'', ''agent_spawn'', ''agent_list'', ''agent_kill'', ''memory_store'', ''memory_recall'',
      ''agent_find'', ''task_post'', ''task_claim'', ''task_complete'', ''task_list'', ''event_publish'',
      ''schedule_create'', ''schedule_list'', ''schedule_delete'', ''knowledge_add_entity'',
      ''knowledge_add_relation'', ''knowledge_query'', ''image_analyze'', ''media_describe'', ''media_transcribe'',
      ''image_generate'', ''text_to_speech'', ''speech_to_text'', ''docker_exec'', ''location_get'',
      ''cron_create'', ''cron_list'', ''cron_cancel'', ''channel_send'', ''process_start'', ''process_poll'',
      ''process_write'', ''process_kill'', ''process_list'', ''hand_list'', ''hand_activate'', ''hand_status'',
      ''hand_deactivate'', ''a2a_discover'', ''a2a_send'', ''browser_navigate'', ''browser_click'',
      ''browser_type'', ''browser_screenshot'', ''browser_read_page'', ''browser_close'', ''canvas_present'']"

definition browser_tools :: "string list" where
  "browser_tools = [''browser_click'', ''browser_type'', ''browser_screenshot'', ''browser_read_page'', ''browser_close'']"

section \<open>The gates\<close>

text \<open>A gate passes, refuses with the content of an error result, or panics.\<close>

datatype refusal =
    NotCapable string
  | ApprovalDenied string
  | ApprovalError string
  | TaintViolation string
  | ExecDenied exec_denial

definition refusal_text :: "refusal \<Rightarrow> string" where
  "refusal_text r =
     (case r of
        NotCapable t \<Rightarrow> ''Permission denied: agent does not have capability to use tool '' @ [CHR 0x27] @ t @ [CHR 0x27]
      | ApprovalDenied t \<Rightarrow> ''Execution denied: '' @ [CHR 0x27] @ t @ [CHR 0x27]
          @ '' requires human approval and was denied or timed out. The operation was not performed.''
      | ApprovalError e \<Rightarrow> ''Approval system error: '' @ e
      | TaintViolation v \<Rightarrow> ''Taint violation: '' @ v
      | ExecDenied ShellDisabled \<Rightarrow> ''Exec policy denied: Shell execution is disabled (exec_policy.mode = deny)''
      | ExecDenied (NotInAllowlist b) \<Rightarrow> ''Exec policy denied: Command '' @ [CHR 0x27] @ b @ [CHR 0x27]
          @ '' is not in the exec allowlist. Add it to exec_policy.allowed_commands or exec_policy.safe_bins.'')"

definition capability_gate :: "('j, 'w) tool_context \<Rightarrow> string \<Rightarrow> (unit, refusal) result" where
  "capability_gate cx tool =
     (case allowed_tools cx of
        None \<Rightarrow> Ok ()
      | Some allowed \<Rightarrow> if list_ex (\<lambda>t. t = tool) allowed then Ok () else Err (NotCapable tool))"

text \<open>The summary cuts the JSON text of the input at byte 200.\<close>

definition approval_gate ::
  "('j, 'w) tool_context \<Rightarrow> string \<Rightarrow> 'j \<Rightarrow> 'w \<Rightarrow> ((unit, refusal) result \<times> 'w, panic) result" where
  "approval_gate cx tool input w =
     (case requires_approval cx of
        None \<Rightarrow> Ok (Ok (), w)
      | Some required \<Rightarrow>
          if \<not> required tool then Ok (Ok (), w)
          else let json = json_text cx input
               in case slice_to json (min (length json) 200) of
                    Inl e \<Rightarrow> Err e
                  | Inr shown \<Rightarrow>
                      let agent = (case caller cx of Some a \<Rightarrow> a | None \<Rightarrow> ''unknown'');
                          (answer, w1) = ask_approval cx agent tool (tool @ '': '' @ shown) w
                      in Ok (case answer of
                               Inr True \<Rightarrow> Ok ()
                             | Inr False \<Rightarrow> Err (ApprovalDenied tool)
                             | Inl e \<Rightarrow> Err (ApprovalError e), w1))"

definition url_gate :: "('j, 'w) tool_context \<Rightarrow> 'j \<Rightarrow> ((unit, refusal) result, panic) result" where
  "url_gate cx input =
     (let url = (case str_field cx ''url'' input of Some u \<Rightarrow> u | None \<Rightarrow> [])
      in case check_taint_net_fetch (warnings_on cx) url of
           Inl e \<Rightarrow> Err e
         | Inr (Some v) \<Rightarrow> Ok (Err (TaintViolation v))
         | Inr None \<Rightarrow> Ok (Ok ()))"

definition shell_gate :: "('j, 'w) tool_context \<Rightarrow> 'j \<Rightarrow> ((unit, refusal) result, panic) result" where
  "shell_gate cx input =
     (let command = (case str_field cx ''command'' input of Some c \<Rightarrow> c | None \<Rightarrow> []);
          allowed = (case shell_policy cx of
             None \<Rightarrow> Ok (Ok ()) | Some p \<Rightarrow> validate_command_allowlist (warnings_on cx) command p);
          is_full = (case shell_policy cx of None \<Rightarrow> False | Some p \<Rightarrow> exec_mode p = FullExec)
      in case allowed of
           Inl e \<Rightarrow> Err e
         | Inr (Inl reason) \<Rightarrow> Ok (Err (ExecDenied reason))
         | Inr (Inr _) \<Rightarrow>
             if is_full then Ok (Ok ())
             else (case check_taint_shell_exec (warnings_on cx) command of
                     Inl e \<Rightarrow> Err e
                   | Inr (Some v) \<Rightarrow> Ok (Err (TaintViolation v))
                   | Inr None \<Rightarrow> Ok (Ok ())))"

definition tool_gate :: "('j, 'w) tool_context \<Rightarrow> string \<Rightarrow> 'j \<Rightarrow> ((unit, refusal) result, panic) result" where
  "tool_gate cx tool input =
     (if tool = ''web_fetch'' \<or> tool = ''browser_navigate'' then url_gate cx input
      else if tool = ''shell_exec'' then shell_gate cx input
      else Ok (Ok ()))"

section \<open>Dispatch\<close>

definition dispatch_tool :: "('j, 'w) tool_context \<Rightarrow> string \<Rightarrow> 'j \<Rightarrow> 'w \<Rightarrow> (string, string) result \<times> 'w" where
  "dispatch_tool cx tool input w =
     (if tool = ''browser_navigate'' \<and> \<not> has_browser cx
      then (Err ''Browser tools not available. Ensure Python and playwright are installed.'', w)
      else if tool \<in> set browser_tools \<and> \<not> has_browser cx then (Err ''Browser tools not available.'', w)
      else if tool \<in> set builtin_tools then run_tool cx tool input w
      else if is_mcp_tool tool then
        (case dispatch_mcp (connected_mcp cx) tool of
           ToServer server raw \<Rightarrow>
             (case run_mcp cx server raw input w of
                (Inr c, w1) \<Rightarrow> (Ok c, w1)
              | (Inl e, w1) \<Rightarrow> (Err (''MCP tool call failed: '' @ e), w1))
         | NotConnected server \<Rightarrow> (Err (''MCP server '' @ [CHR 0x27] @ server @ [CHR 0x27] @ '' not connected''), w)
         | InvalidMcpName n \<Rightarrow> (Err (''Invalid MCP tool name: '' @ n), w)
         | McpNotAvailable n \<Rightarrow> (Err (''MCP not available for tool: '' @ n), w))
      else (case skill_tools cx of
              None \<Rightarrow> (Err (''Unknown tool: '' @ tool), w)
            | Some provides \<Rightarrow>
                if provides tool then run_skill cx tool input w else (Err (''Unknown tool: '' @ tool), w)))"

definition refused :: "string \<Rightarrow> refusal \<Rightarrow> tool_result" where
  "refused use r = \<lparr>result_use_id = use, result_content = refusal_text r, result_is_error = True\<rparr>"

definition finished :: "string \<Rightarrow> (string, string) result \<Rightarrow> tool_result" where
  "finished use r =
     (case r of
        Inr c \<Rightarrow> \<lparr>result_use_id = use, result_content = c, result_is_error = False\<rparr>
      | Inl e \<Rightarrow> \<lparr>result_use_id = use, result_content = ''Error: '' @ e, result_is_error = True\<rparr>)"

definition execute_tool ::
  "('j, 'w) tool_context \<Rightarrow> string \<Rightarrow> string \<Rightarrow> 'j \<Rightarrow> 'w \<Rightarrow> (tool_result \<times> 'w, panic) result" where
  "execute_tool cx use tool input w =
     (case capability_gate cx tool of
        Inl r \<Rightarrow> Ok (refused use r, w)
      | Inr _ \<Rightarrow>
          (case approval_gate cx tool input w of
             Inl e \<Rightarrow> Err e
           | Inr (Inl r, w1) \<Rightarrow> Ok (refused use r, w1)
           | Inr (Inr _, w1) \<Rightarrow>
               (case tool_gate cx tool input of
                  Inl e \<Rightarrow> Err e
                | Inr (Inl r) \<Rightarrow> Ok (refused use r, w1)
                | Inr (Inr _) \<Rightarrow>
                    let (result, w2) = dispatch_tool cx tool input w1 in Ok (finished use result, w2))))"

section \<open>What the gates guarantee\<close>

lemma execute_keeps_id: "execute_tool cx use tool input w = Ok (r, w') \<Longrightarrow> result_use_id r = use"
  by (auto simp: execute_tool_def refused_def finished_def Let_def split_def split: sum.splits)

text \<open>
  A context whose world also keeps the list of the tools that were run, with their inputs; an
  approval that was granted is noted as well.
\<close>

datatype 'j effect = Ran string 'j | Approved string string

definition traced :: "('j, 'w) tool_context \<Rightarrow> ('j, 'w \<times> 'j effect list) tool_context" where
  "traced cx =
     \<lparr>json_text = json_text cx, str_field = str_field cx, warnings_on = warnings_on cx,
      allowed_tools = allowed_tools cx, requires_approval = requires_approval cx,
      ask_approval = (\<lambda>agent tool summary (w, tr).
         let (r, w1) = ask_approval cx agent tool summary w
         in (r, (w1, if r = Ok True then tr @ [Approved agent tool] else tr))),
      caller = caller cx, shell_policy = shell_policy cx, has_browser = has_browser cx,
      connected_mcp = connected_mcp cx, skill_tools = skill_tools cx,
      run_tool = (\<lambda>tool input (w, tr). let (r, w1) = run_tool cx tool input w in (r, (w1, tr @ [Ran tool input]))),
      run_mcp = (\<lambda>server raw input (w, tr).
         let (r, w1) = run_mcp cx server raw input w in (r, (w1, tr @ [Ran raw input]))),
      run_skill = (\<lambda>tool input (w, tr). let (r, w1) = run_skill cx tool input w in (r, (w1, tr @ [Ran tool input])))\<rparr>"

lemma traced_sel [simp]:
  "json_text (traced cx) = json_text cx" "str_field (traced cx) = str_field cx"
  "warnings_on (traced cx) = warnings_on cx" "allowed_tools (traced cx) = allowed_tools cx"
  "requires_approval (traced cx) = requires_approval cx" "caller (traced cx) = caller cx"
  "shell_policy (traced cx) = shell_policy cx" "has_browser (traced cx) = has_browser cx"
  "connected_mcp (traced cx) = connected_mcp cx" "skill_tools (traced cx) = skill_tools cx"
  by (simp_all add: traced_def)

lemma traced_gates [simp]:
  "capability_gate (traced cx) tool = capability_gate cx tool"
  "tool_gate (traced cx) tool input = tool_gate cx tool input"
  unfolding capability_gate_def tool_gate_def url_gate_def shell_gate_def traced_sel by (rule refl)+

definition approval_needed :: "('j, 'w) tool_context \<Rightarrow> string \<Rightarrow> bool" where
  "approval_needed cx tool = (case requires_approval cx of None \<Rightarrow> False | Some required \<Rightarrow> required tool)"

definition caller_name :: "('j, 'w) tool_context \<Rightarrow> string" where
  "caller_name cx = (case caller cx of Some a \<Rightarrow> a | None \<Rightarrow> ''unknown'')"

lemma approval_gate_trace:
  assumes "approval_gate (traced cx) tool input (w, tr) = Ok (r, (w1, tr1))"
  shows "tr1 = (if approval_needed cx tool \<and> r = Ok () then tr @ [Approved (caller_name cx) tool] else tr)"
proof (cases "approval_needed cx tool")
  case False
  with assms show ?thesis
    by (auto simp: approval_gate_def approval_needed_def split: option.splits)
next
  case True
  with assms show ?thesis
    by (auto simp: approval_gate_def approval_needed_def caller_name_def traced_def Let_def split_def
        split: option.splits sum.splits bool.splits if_splits)
qed

lemma dispatch_trace:
  "\<exists>ran. snd (snd (dispatch_tool (traced cx) tool input (w, tr))) = tr @ ran \<and> length ran \<le> 1
     \<and> (\<forall>e \<in> set ran. \<exists>n. e = Ran n input)"
  by (auto simp: dispatch_tool_def traced_def split_def Let_def split: mcp_dispatch.split option.split sum.split)


definition demo_context :: "(unit, unit) tool_context" where
  "demo_context =
     \<lparr>json_text = (\<lambda>_. ''{}''), str_field = (\<lambda>_ _. None), warnings_on = True,
      allowed_tools = Some [''file_read''], requires_approval = Some (\<lambda>t. t = ''file_read''),
      ask_approval = (\<lambda>_ _ _ w. (Ok True, w)), caller = Some ''a7'', shell_policy = None,
      has_browser = False, connected_mcp = None, skill_tools = None,
      run_tool = (\<lambda>_ _ w. (Ok ''text'', w)), run_mcp = (\<lambda>_ _ _ w. (Ok [], w)), run_skill = (\<lambda>_ _ w. (Ok [], w))\<rparr>"


text \<open>
  A shell command that reaches the shell under an allow-list, with every ampersand doubled, consists
  of allowed commands only and has none of the shell check's patterns.
\<close>

lemma shell_gate_passed:
  assumes "shell_gate cx input = Ok (Ok ())" "shell_policy cx = Some p" "exec_mode p = Allowlist"
    and "str_field cx ''command'' input = Some command" "doubled_amp command"
  shows "set (base_commands command) \<subseteq> set (safe_bins p) \<union> set (allowed_commands p)
    \<and> check_taint_shell_exec (warnings_on cx) command = Ok None"
proof -
  have v: "validate_command_allowlist (warnings_on cx) command p = Ok (Ok ())"
    and t: "check_taint_shell_exec (warnings_on cx) command = Ok None"
    using assms(1-4) by (auto simp: shell_gate_def Let_def split: sum.splits option.splits if_splits)
  have "find (\<lambda>base. \<not> permitted p base) (base_commands command) = None"
    using v assms(3,5)
    by (auto simp: validate_command_allowlist_def extract_all_base split: option.splits)
  then show ?thesis using t by (auto simp: find_None_iff permitted_def list_ex_iff)
qed

end
