(* ===== verification/Hooks.thy ===== *)
theory Hooks
  imports Str_Utils
begin

text \<open>
  Lifecycle hooks, \<open>clawreform-runtime/src/hooks.rs\<close>. A handler is code of a plugin: a function of its
  context and the world \<open>'w\<close>. The payload of a context is a JSON object of which the constructors of
  \<open>hook_data\<close> keep the fields.
\<close>

datatype hook_event = BeforeToolCall | AfterToolCall | BeforePromptBuild | AgentLoopEnd

datatype 'j hook_data =
    PromptData string string
  | CallData string 'j
  | ResultData string string bool
  | EndData nat nat
  | BreakData string
  | LimitData string nat

record 'j hook_context =
  ctx_agent_name :: string
  ctx_agent_id :: string
  ctx_event :: hook_event
  ctx_data :: "'j hook_data"

type_synonym ('j, 'w) handler = "'j hook_context \<Rightarrow> 'w \<Rightarrow> (unit, string) result \<times> 'w"

text \<open>The registry: the handlers of each event, in the order they were registered.\<close>

type_synonym ('j, 'w) hook_registry = "hook_event \<Rightarrow> ('j, 'w) handler list"

definition new_hooks :: "('j, 'w) hook_registry" where
  "new_hooks = (\<lambda>_. [])"

definition register_hook :: "('j, 'w) hook_registry \<Rightarrow> hook_event \<Rightarrow> ('j, 'w) handler \<Rightarrow> ('j, 'w) hook_registry" where
  "register_hook reg e h = reg(e := reg e @ [h])"

fun fire_handlers ::
  "('j, 'w) handler list \<Rightarrow> 'j hook_context \<Rightarrow> 'w \<Rightarrow> (unit, string) result \<times> 'w" where
  "fire_handlers [] cx w = (Ok (), w)"
| "fire_handlers (h # hs) cx w =
     (case h cx w of
        (Inr _, w1) \<Rightarrow> fire_handlers hs cx w1
      | (Inl reason, w1) \<Rightarrow>
          if ctx_event cx = BeforeToolCall then (Err reason, w1) else fire_handlers hs cx w1)"

definition fire_hooks :: "('j, 'w) hook_registry \<Rightarrow> 'j hook_context \<Rightarrow> 'w \<Rightarrow> (unit, string) result \<times> 'w" where
  "fire_hooks reg cx w = fire_handlers (reg (ctx_event cx)) cx w"

definition has_handlers :: "('j, 'w) hook_registry \<Rightarrow> hook_event \<Rightarrow> bool" where
  "has_handlers reg e = (reg e \<noteq> [])"

text \<open>Only the hook before a tool call can refuse; the handlers of the other events all run.\<close>

lemma fire_observes: "ctx_event cx \<noteq> BeforeToolCall \<Longrightarrow> fst (fire_hooks reg cx w) = Ok ()"
proof -
  assume e: "ctx_event cx \<noteq> BeforeToolCall"
  have "fst (fire_handlers hs cx w) = Ok ()" for hs
    using e by (induction hs arbitrary: w) (auto split: sum.split prod.split)
  then show ?thesis by (simp add: fire_hooks_def)
qed

lemma fire_without_handlers: "\<not> has_handlers reg (ctx_event cx) \<Longrightarrow> fire_hooks reg cx w = (Ok (), w)"
  by (simp add: fire_hooks_def has_handlers_def)

lemma fire_handlers_append:
  "fire_handlers (hs @ ks) cx w =
     (case fire_handlers hs cx w of (Inl e, w1) \<Rightarrow> (Inl e, w1) | (Inr _, w1) \<Rightarrow> fire_handlers ks cx w1)"
  by (induction hs cx w rule: fire_handlers.induct) (auto split: sum.split prod.split)

text \<open>A handler registered last sees the event only if no earlier one refused it.\<close>

lemma fire_registered:
  "fire_hooks (register_hook reg (ctx_event cx) h) cx w =
     (case fire_hooks reg cx w of (Inl e, w1) \<Rightarrow> (Inl e, w1) | (Inr _, w1) \<Rightarrow> fire_handlers [h] cx w1)"
  by (simp add: fire_hooks_def register_hook_def fire_handlers_append del: fire_handlers.simps)

end
