(* ===== verification/Prompt.thy ===== *)
theory Prompt
  imports Reply_Directives
begin

text \<open>
  The memory section of the system prompt, \<open>build_memory_section\<close> of
  \<open>clawreform-runtime/src/prompt_builder.rs\<close>, which the agent loop appends after its recall. The other
  sections are composed by the kernel before the loop starts and are not modelled.
\<close>

text \<open>The characters of a text, each as its bytes.\<close>

function chars :: "string \<Rightarrow> string list" where
  "chars [] = []"
| "chars (b # s) = fst (next_char (b # s)) # chars (snd (next_char (b # s)))"
  by pat_completeness auto
termination
  by (relation "measure length")
    (use next_char_shorter [of "b # s" for b s] in \<open>auto simp del: next_char.simps\<close>)

lemma concat_chars [simp]: "concat (chars s) = s"
  by (induction s rule: chars.induct) simp_all

lemma chars_nonempty: "c \<in> set (chars s) \<Longrightarrow> c \<noteq> []"
  by (induction s rule: chars.induct) auto

definition cap_str :: "string \<Rightarrow> nat \<Rightarrow> string" where
  "cap_str s max_chars =
     (if length (chars s) \<le> max_chars then s else concat (take max_chars (chars s)) @ ''...'')"

definition memory_line :: "string \<times> string \<Rightarrow> string" where
  "memory_line m =
     (case m of (key, body) \<Rightarrow>
        if key = [] then ''- '' @ cap_str body 500 @ [CHR 0x0A]
        else ''- ['' @ key @ ''] '' @ cap_str body 500 @ [CHR 0x0A])"

definition build_memory_section :: "(string \<times> string) list \<Rightarrow> string" where
  "build_memory_section memories =
     ''## Memory'' @ [CHR 0x0A]
     @ ''- When the user asks about something from a previous conversation, use memory_recall first.'' @ [CHR 0x0A]
     @ ''- Store important preferences, decisions, and context with memory_store for future use.''
     @ (if memories = [] then []
        else [CHR 0x0A, CHR 0x0A] @ ''Recalled memories:'' @ [CHR 0x0A]
               @ concat (map memory_line (take 5 memories)))"

lemma cap_str_chars: "length (chars s) \<le> n \<Longrightarrow> cap_str s n = s"
  by (simp add: cap_str_def)

lemma cap_str_prefix: "cap_str s n = s \<or> (\<exists>t. cap_str s n = t @ ''...'' \<and> prefix t s)"
proof (cases "length (chars s) \<le> n")
  case False
  have "concat (chars s) = concat (take n (chars s)) @ concat (drop n (chars s))"
    by (metis append_take_drop_id concat_append)
  then have "prefix (concat (take n (chars s))) s" by (simp add: prefixI)
  with False show ?thesis by (auto simp: cap_str_def)
qed (simp add: cap_str_def)

end
