(* ===== verification/Agent_Loop.thy ===== *)
theory Agent_Loop
  imports Loop_Guard Session_Repair Context_Budget Reply_Directives Response_Sanitizer
    Tool_Recovery Tool_Gate Hooks Prompt
begin

text \<open>
  The agent execution loop, \<open>clawreform-runtime/src/agent_loop.rs\<close>: \<open>run_agent_loop\<close> and its streaming
  variant, from the arrival of a user message to the result. The loop composes the other components:
  session repair, context budget, retries, recovery of tool calls, directives, sanitizer, loop guard,
  hooks and the gated execution of tools.

  What lies outside is a function on the world \<open>'w\<close>: the model (\<open>le_driver\<close>), the store that saves the
  session and recalls and remembers, the embedding of texts, the callbacks and the stream. \<open>le_timeout\<close>
  says whether a tool call exceeds \<open>TOOL_TIMEOUT_SECS\<close>, and what it has done to the world by then.
\<close>

section \<open>Environment, input and state\<close>

definition default_max_iterations :: nat where
  "default_max_iterations = 50"

definition max_continuations :: nat where
  "max_continuations = 5"

definition max_history_messages :: nat where
  "max_history_messages = 20"

definition default_context_window :: nat where
  "default_context_window = 200000"

definition tool_timeout_secs :: nat where
  "tool_timeout_secs = 120"

datatype loop_phase = PhaseThinking | PhaseToolUse string | PhaseStreaming | PhaseDone | PhaseError

datatype stream_event =
    ContextWarning bool
  | ToolExecutionResult string string bool

text \<open>A vector of an embedding driver, as the bit patterns of its single-precision numbers.\<close>

type_synonym embedding = "32 word list"

record ('j, 'w) loop_env =
  le_env :: "'w environment"
  le_driver :: "('j, 'w) driver"
  le_guard :: "'j params_env"
  le_parse :: "string \<Rightarrow> 'j option"
  le_uuid :: "'w \<Rightarrow> nat \<Rightarrow> string"
  le_execute :: "string list \<Rightarrow> 'j tool_call \<Rightarrow> 'w \<Rightarrow> (tool_result \<times> 'w, panic) result"
  le_timeout :: "'j tool_call \<Rightarrow> 'w \<Rightarrow> 'w option"
  le_hooks :: "('j, 'w) hook_registry"
  le_phase :: "loop_phase \<Rightarrow> 'w \<Rightarrow> 'w"
  le_emit :: "stream_event \<Rightarrow> 'w \<Rightarrow> 'w"
  le_save :: "'j message list \<Rightarrow> 'w \<Rightarrow> (unit, string) result \<times> 'w"
  le_embedder :: "(string \<Rightarrow> 'w \<Rightarrow> (embedding, string) result \<times> 'w) option"
  le_recall :: "string \<Rightarrow> nat \<Rightarrow> embedding option \<Rightarrow> 'w \<Rightarrow> (string list, string) result \<times> 'w"
  le_remember :: "string \<Rightarrow> embedding option \<Rightarrow> 'w \<Rightarrow> 'w"
  le_streaming :: bool

text \<open>\<open>in_system\<close> is the system prompt of the requests, which \<open>agent_loop\<close> sets after the recall.\<close>

record 'j loop_input =
  in_agent_name :: string
  in_agent_id :: string
  in_model :: model_config
  in_max_iterations :: "nat option"
  in_system :: string
  in_tools :: "'j tool_definition list"
  in_window :: "nat option"
  in_user_message :: string

record 'j loop_result =
  lr_response :: string
  lr_usage :: token_usage
  lr_iterations :: nat
  lr_silent :: bool
  lr_directives :: directive_set

datatype loop_error =
    LlmFailed call_error
  | SaveFailed string
  | CircuitBroken guard_message
  | MaxIterationsExceeded nat
  | LoopPanicked panic

record ('j, 'w) loop_state =
  ls_session :: "'j message list"
  ls_messages :: "'j message list"
  ls_usage :: token_usage
  ls_guard :: loop_guard
  ls_max_tokens :: nat
  ls_world :: 'w

datatype ('j, 'w) outcome =
    Continue "('j, 'w) loop_state"
  | Return "'j loop_result" "('j, 'w) loop_state"
  | Fail loop_error "('j, 'w) loop_state"

section \<open>Texts\<close>

definition quoted :: "string \<Rightarrow> string" where
  "quoted s = [CHR 0x27] @ s @ [CHR 0x27]"

text \<open>The messages of \<open>LoopGuard::check\<close>.\<close>

definition guard_text :: "guard_message \<Rightarrow> string" where
  "guard_text m =
     (case m of
        CircuitBreaker n \<Rightarrow> ''Circuit breaker: exceeded '' @ show_nat n
          @ '' total tool calls in this loop. The agent appears to be stuck.''
      | IdenticalResults t \<Rightarrow> ''Blocked: tool '' @ quoted t
          @ '' is returning identical results repeatedly. The current approach is not working '' @ em_dash
          @ '' try something different.''
      | CalledIdentically t n \<Rightarrow> ''Blocked: tool '' @ quoted t @ '' called '' @ show_nat n
          @ '' times with identical parameters. Try a different approach or different parameters.''
      | WarningsExhausted t n \<Rightarrow> ''Blocked: tool '' @ quoted t @ '' called '' @ show_nat n
          @ '' times with identical parameters (warnings exhausted). Try a different approach.''
      | RepeatedWarning t n \<Rightarrow> ''Warning: tool '' @ quoted t @ '' has been called '' @ show_nat n
          @ '' times with identical parameters. Consider a different approach.''
      | Alternating a b \<Rightarrow> ''Ping-pong detected: tools '' @ quoted a @ '' and '' @ quoted b
          @ '' are alternating repeatedly. Break the cycle by trying a different approach.''
      | Cycling a b c \<Rightarrow> ''Ping-pong detected: tools '' @ quoted a @ '', '' @ quoted b @ '', '' @ quoted c
          @ '' are cycling repeatedly. Break the cycle by trying a different approach.'')"

definition empty_reply :: "nat \<Rightarrow> string" where
  "empty_reply iteration =
     (if iteration > 0
      then ''[Task completed '' @ em_dash @ '' the agent executed tools but did not produce a text summary.]''
      else ''[The model returned an empty response. This usually means the model is overloaded, the context is too large, or the API key lacks credits. Try again or check /status.]'')"

definition partial_reply :: string where
  "partial_reply = ''[Partial response '' @ em_dash @ '' token limit reached with no text output.]''"

section \<open>Tool calls\<close>

definition hook_ctx :: "'j loop_input \<Rightarrow> hook_event \<Rightarrow> 'j hook_data \<Rightarrow> 'j hook_context" where
  "hook_ctx inp e d =
     \<lparr>ctx_agent_name = in_agent_name inp, ctx_agent_id = in_agent_id inp, ctx_event = e, ctx_data = d\<rparr>"

definition observe :: "('j, 'w) loop_env \<Rightarrow> 'j loop_input \<Rightarrow> hook_event \<Rightarrow> 'j hook_data \<Rightarrow> 'w \<Rightarrow> 'w" where
  "observe env inp e d w = snd (fire_hooks (le_hooks env) (hook_ctx inp e d) w)"

text \<open>The tool runs under the timeout; a panic inside it unwinds the loop.\<close>

definition timed_execute ::
  "('j, 'w) loop_env \<Rightarrow> string list \<Rightarrow> 'j tool_call \<Rightarrow> 'w \<Rightarrow> (tool_result \<times> 'w, panic) result" where
  "timed_execute env allowed c w =
     (case le_timeout env c w of
        Some w1 \<Rightarrow>
          Ok (\<lparr>result_use_id = call_id c,
               result_content = ''Tool '' @ quoted (call_name c) @ '' timed out after '' @ show_nat tool_timeout_secs @ ''s.'',
               result_is_error = True\<rparr>, w1)
      | None \<Rightarrow> le_execute env allowed c w)"

text \<open>\<open>chars().take(n)\<close>, and the name shown for a tool: 64 characters, none of them a control character.\<close>

definition take_chars :: "nat \<Rightarrow> string \<Rightarrow> string" where
  "take_chars n s = concat (take n (chars s))"

definition is_control :: "string \<Rightarrow> bool" where
  "is_control c \<longleftrightarrow>
     (case c of
        [b] \<Rightarrow> of_char b < (0x20 :: nat) \<or> b = CHR 0x7F
      | [b, b'] \<Rightarrow> b = CHR 0xC2 \<and> of_char b' < (0xA0 :: nat)
      | _ \<Rightarrow> False)"

definition phase_name :: "string \<Rightarrow> string" where
  "phase_name tool = concat (take 64 (filter (\<lambda>c. \<not> is_control c) (chars tool)))"

text \<open>A call the guard lets through: hooks, execution, truncation and the guard's warning.\<close>

definition perform_call ::
  "('j, 'w) loop_env \<Rightarrow> 'j loop_input \<Rightarrow> context_budget \<Rightarrow> 'j tool_call \<Rightarrow> verdict \<Rightarrow> 'w
   \<Rightarrow> ('j content_block \<times> 'w, panic) result" where
  "perform_call env inp budget c v w =
     (let w1 = le_phase env (PhaseToolUse (phase_name (call_name c))) w;
          (allowed, w2) = fire_hooks (le_hooks env)
             (hook_ctx inp BeforeToolCall (CallData (call_name c) (call_input c))) w1
      in case allowed of
           Inl reason \<Rightarrow>
             Ok (ToolResult (call_id c) (''Hook blocked tool '' @ quoted (call_name c) @ '': '' @ reason) True, w2)
         | Inr _ \<Rightarrow>
             (case timed_execute env (map tool_name (in_tools inp)) c w2 of
                Inl e \<Rightarrow> Err e
              | Inr (result, w3) \<Rightarrow>
                  let w4 = observe env inp AfterToolCall
                        (ResultData (call_name c) (result_content result) (result_is_error result)) w3
                  in (case truncate_tool_result_dynamic (result_content result) budget of
                        Inl e \<Rightarrow> Err e
                      | Inr body \<Rightarrow>
                          let final_content = (case v of
                                Warn m \<Rightarrow> body @ [CHR 0x0A, CHR 0x0A] @ ''[LOOP GUARD] '' @ guard_text m
                              | _ \<Rightarrow> body);
                              w5 = (if le_streaming env
                                    then le_emit env (ToolExecutionResult (call_name c)
                                           (take_chars 300 final_content) (result_is_error result)) w4
                                    else w4)
                          in Ok (ToolResult (result_use_id result) final_content (result_is_error result), w5))))"

datatype stop = StopCircuit guard_message | StopPanic panic

text \<open>The loop over the tool calls of one response: the result blocks, or why the loop was left.\<close>

fun run_calls ::
  "('j, 'w) loop_env \<Rightarrow> 'j loop_input \<Rightarrow> context_budget \<Rightarrow> 'j tool_call list \<Rightarrow> loop_guard \<Rightarrow> 'w
   \<Rightarrow> ('j content_block list, stop) result \<times> loop_guard \<times> 'w" where
  "run_calls env inp budget [] g w = (Ok [], g, w)"
| "run_calls env inp budget (c # cs) g w =
     (let (g1, v) = check_call (le_guard env) g (call_name c) (call_input c)
      in case v of
           CircuitBreak m \<Rightarrow> (Err (StopCircuit m), g1, w)
         | Block m \<Rightarrow>
             (case run_calls env inp budget cs g1 w of
                (Inr bs, g2, w2) \<Rightarrow> (Ok (ToolResult (call_id c) (guard_text m) True # bs), g2, w2)
              | (Inl s, g2, w2) \<Rightarrow> (Err s, g2, w2))
         | _ \<Rightarrow>
             (case perform_call env inp budget c v w of
                Inl e \<Rightarrow> (Err (StopPanic e), g1, w)
              | Inr (b, w1) \<Rightarrow>
                  (case run_calls env inp budget cs g1 w1 of
                     (Inr bs, g2, w2) \<Rightarrow> (Ok (b # bs), g2, w2)
                   | (Inl s, g2, w2) \<Rightarrow> (Err s, g2, w2))))"

section \<open>Memories\<close>

text \<open>
  The recall goes by vector when the text can be embedded and by text otherwise; a failed recall finds
  nothing. What it finds is appended to the system prompt.
\<close>

definition recall_memories :: "('j, 'w) loop_env \<Rightarrow> string \<Rightarrow> 'w \<Rightarrow> string list \<times> 'w" where
  "recall_memories env user w =
     (let (v, w1) = (case le_embedder env of
            None \<Rightarrow> (None, w)
          | Some emb \<Rightarrow> (case emb user w of (Inr v, w') \<Rightarrow> (Some v, w') | (Inl _, w') \<Rightarrow> (None, w')));
          (found, w2) = le_recall env user 5 v w1
      in (case found of Inr ms \<Rightarrow> ms | Inl _ \<Rightarrow> [], w2))"

definition system_with_memories :: "string \<Rightarrow> string list \<Rightarrow> string" where
  "system_with_memories base memories =
     (if memories = [] then base
      else base @ [CHR 0x0A, CHR 0x0A] @ build_memory_section (map (\<lambda>m. ([], m)) memories))"

definition remember_turn :: "('j, 'w) loop_env \<Rightarrow> string \<Rightarrow> 'w \<Rightarrow> 'w" where
  "remember_turn env interaction w =
     (case le_embedder env of
        None \<Rightarrow> le_remember env interaction None w
      | Some emb \<Rightarrow>
          (case emb interaction w of
             (Inr v, w1) \<Rightarrow> le_remember env interaction (Some v) w1
           | (Inl _, w1) \<Rightarrow> le_remember env interaction None w1))"

section \<open>One iteration\<close>

definition add_usage :: "token_usage \<Rightarrow> token_usage \<Rightarrow> token_usage" where
  "add_usage a b = \<lparr>input_tokens = input_tokens a + input_tokens b, output_tokens = output_tokens a + output_tokens b\<rparr>"

definition assistant_blocks :: "'j content_block list \<Rightarrow> 'j message" where
  "assistant_blocks bs = \<lparr>role = Assistant, content = Blocks bs\<rparr>"

definition result_message :: "'j content_block list \<Rightarrow> 'j message" where
  "result_message bs = \<lparr>role = User, content = Blocks bs\<rparr>"

text \<open>\<open>session.messages.push\<close> and \<open>messages.push\<close>.\<close>

definition push_session :: "'j message \<Rightarrow> ('j, 'w) loop_state \<Rightarrow> ('j, 'w) loop_state" where
  "push_session m st = st\<lparr>ls_session := ls_session st @ [m]\<rparr>"

definition push_messages :: "'j message \<Rightarrow> ('j, 'w) loop_state \<Rightarrow> ('j, 'w) loop_state" where
  "push_messages m st = st\<lparr>ls_messages := ls_messages st @ [m]\<rparr>"

definition on_world :: "('w \<Rightarrow> 'w) \<Rightarrow> ('j, 'w) loop_state \<Rightarrow> ('j, 'w) loop_state" where
  "on_world f st = st\<lparr>ls_world := f (ls_world st)\<rparr>"

text \<open>A save whose failure is only logged.\<close>

definition save_quietly :: "('j, 'w) loop_env \<Rightarrow> ('j, 'w) loop_state \<Rightarrow> ('j, 'w) loop_state" where
  "save_quietly env st = st\<lparr>ls_world := snd (le_save env (ls_session st) (ls_world st))\<rparr>"

definition make_result :: "string \<Rightarrow> token_usage \<Rightarrow> nat \<Rightarrow> 'j loop_result" where
  "make_result response u iteration =
     \<lparr>lr_response = response, lr_usage = u, lr_iterations = iteration + 1, lr_silent = False,
      lr_directives = no_directives\<rparr>"

text \<open>Tool calls found in the text of a response that has none make it a tool-use response.\<close>

definition promote_text_calls :: "('j, 'w) loop_env \<Rightarrow> 'j loop_input \<Rightarrow> 'w \<Rightarrow> 'j completion_response \<Rightarrow> 'j completion_response" where
  "promote_text_calls env inp w r =
     (if (resp_stop_reason r = EndTurn \<or> resp_stop_reason r = StopSequence) \<and> resp_tool_calls r = []
      then let recovered = recover_text_tool_calls (le_parse env) (le_uuid env w) (response_text r) (in_tools inp)
           in if recovered = [] then r
              else r\<lparr>resp_tool_calls := recovered, resp_stop_reason := StopToolUse,
                     resp_content := map (\<lambda>tc. ToolUse (call_id tc) (call_name tc) (call_input tc)) recovered\<rparr>
      else r)"

text \<open>The arm \<open>EndTurn | StopSequence\<close>.\<close>

definition finish_turn ::
  "('j, 'w) loop_env \<Rightarrow> 'j loop_input \<Rightarrow> nat \<Rightarrow> 'j completion_response \<Rightarrow> ('j, 'w) loop_state \<Rightarrow> ('j, 'w) outcome" where
  "finish_turn env inp iteration r st =
     (let (visible_text, parsed) = parse_directives (response_text r);
          stored_text = sanitize_visible_response visible_text
      in if trim stored_text = ''NO_REPLY'' \<or> dir_silent parsed
         then let st1 = push_session (assistant_message ''[no reply needed]'') st
              in (case le_save env (ls_session st1) (ls_world st1) of
                    (Inl e, w1) \<Rightarrow> Fail (SaveFailed e) (st1\<lparr>ls_world := w1\<rparr>)
                  | (Inr _, w1) \<Rightarrow>
                      Return \<lparr>lr_response = [], lr_usage = ls_usage st1, lr_iterations = iteration + 1,
                              lr_silent = True, lr_directives = parsed\<lparr>dir_silent := True\<rparr>\<rparr>
                        (st1\<lparr>ls_world := w1\<rparr>))
         else if trim stored_text = [] \<and> iteration = 0 \<and> resp_tool_calls r = []
         then Continue (push_messages (user_message ''Please provide your response.'')
                (push_messages (assistant_message ''[no response]'') st))
         else let response = (if trim stored_text = [] then empty_reply iteration else visible_text);
                  memory_text = (if trim stored_text = [] then empty_reply iteration else stored_text);
                  st1 = push_session (assistant_message memory_text) st;
                  st2 = st1\<lparr>ls_session := prune_heartbeat_turns (ls_session st1) 10\<rparr>
              in (case le_save env (ls_session st2) (ls_world st2) of
                    (Inl e, w1) \<Rightarrow> Fail (SaveFailed e) (st2\<lparr>ls_world := w1\<rparr>)
                  | (Inr _, w1) \<Rightarrow>
                      let w2 = remember_turn env (''User asked: '' @ in_user_message inp @ [CHR 0x0A]
                                 @ ''I responded: '' @ memory_text) w1;
                          w3 = le_phase env PhaseDone w2;
                          w4 = observe env inp AgentLoopEnd (EndData (iteration + 1) (length response)) w3
                      in Return (make_result response (ls_usage st2) iteration) (st2\<lparr>ls_world := w4\<rparr>)))"

text \<open>The arm \<open>ToolUse\<close>.\<close>

definition use_tools ::
  "('j, 'w) loop_env \<Rightarrow> 'j loop_input \<Rightarrow> context_budget \<Rightarrow> 'j completion_response \<Rightarrow> ('j, 'w) loop_state
   \<Rightarrow> ('j, 'w) outcome" where
  "use_tools env inp budget r st =
     (let m = assistant_blocks (resp_content r);
          st1 = push_messages m (push_session m (st\<lparr>ls_max_tokens := 0\<rparr>))
      in case run_calls env inp budget (resp_tool_calls r) (ls_guard st1) (ls_world st1) of
           (Inr blocks, g, w) \<Rightarrow>
             let rm = result_message blocks
             in Continue (save_quietly env (push_messages rm (push_session rm (st1\<lparr>ls_guard := g, ls_world := w\<rparr>))))
         | (Inl (StopCircuit msg), g, w) \<Rightarrow>
             Fail (CircuitBroken msg)
               (on_world (observe env inp AgentLoopEnd (BreakData (guard_text msg)))
                 (save_quietly env (st1\<lparr>ls_guard := g, ls_world := w\<rparr>)))
         | (Inl (StopPanic e), g, w) \<Rightarrow> Fail (LoopPanicked e) (st1\<lparr>ls_guard := g, ls_world := w\<rparr>))"

text \<open>The arm \<open>MaxTokens\<close>.\<close>

definition continue_or_stop ::
  "('j, 'w) loop_env \<Rightarrow> 'j loop_input \<Rightarrow> nat \<Rightarrow> 'j completion_response \<Rightarrow> ('j, 'w) loop_state \<Rightarrow> ('j, 'w) outcome" where
  "continue_or_stop env inp iteration r st =
     (let st1 = st\<lparr>ls_max_tokens := ls_max_tokens st + 1\<rparr>;
          raw_text = response_text r;
          memory_text = sanitize_visible_response raw_text
      in if ls_max_tokens st1 \<ge> max_continuations
         then let response = (if trim memory_text = [] then partial_reply else raw_text);
                  stored = (if trim memory_text = [] then partial_reply else memory_text);
                  st2 = save_quietly env (push_session (assistant_message stored) st1);
                  st3 = on_world (observe env inp AgentLoopEnd (LimitData ''max_continuations'' (iteration + 1))) st2
              in Return (make_result response (ls_usage st3) iteration) st3
         else let st2 = (if trim memory_text \<noteq> []
                         then push_messages (assistant_message memory_text)
                                (push_session (assistant_message memory_text) st1)
                         else st1);
                  ask = user_message ''Please continue.''
              in Continue (push_messages ask (push_session ask st2)))"

definition ctx_window :: "'j loop_input \<Rightarrow> nat" where
  "ctx_window inp = (case in_window inp of Some n \<Rightarrow> n | None \<Rightarrow> default_context_window)"

definition make_request :: "'j loop_input \<Rightarrow> 'j message list \<Rightarrow> 'j completion_request" where
  "make_request inp ms =
     \<lparr>req_model = model (in_model inp), req_messages = ms, req_tools = in_tools inp,
      req_max_tokens = max_tokens (in_model inp), req_temperature = temperature (in_model inp),
      req_system = Some (in_system inp)\<rparr>"

text \<open>What is done to the history before a request: overflow recovery and context guard.\<close>

definition prepare_messages ::
  "('j, 'w) loop_env \<Rightarrow> 'j loop_input \<Rightarrow> 'j message list \<Rightarrow> ('j message list \<times> recovery_stage, panic) result" where
  "prepare_messages env inp ms =
     (case recover_from_overflow (to_json (le_guard env)) ms (in_system inp) (in_tools inp) (ctx_window inp) of
        Inl e \<Rightarrow> Err e
      | Inr (ms1, stage) \<Rightarrow>
          map_sum id (\<lambda>(ms2, n). (ms2, stage)) (apply_context_guard ms1 (new_budget (ctx_window inp))))"

definition announce :: "('j, 'w) loop_env \<Rightarrow> recovery_stage \<Rightarrow> 'w \<Rightarrow> 'w" where
  "announce env stage w =
     le_phase env (if le_streaming env then PhaseStreaming else PhaseThinking)
       (if le_streaming env \<and> stage \<noteq> NoRecovery then le_emit env (ContextWarning (stage = FinalError)) w else w)"

definition call_model ::
  "('j, 'w) loop_env \<Rightarrow> 'j completion_request \<Rightarrow> 'w
   \<Rightarrow> ('j completion_response, call_error) result \<times> breaker_ref \<times> 'w" where
  "call_model env req w =
     (if le_streaming env then stream_with_retry (le_env env) (le_driver env) req None w
      else call_with_retry (le_env env) (le_driver env) req None w)"

definition handle_response ::
  "('j, 'w) loop_env \<Rightarrow> 'j loop_input \<Rightarrow> nat \<Rightarrow> 'j completion_response \<Rightarrow> ('j, 'w) loop_state \<Rightarrow> ('j, 'w) outcome" where
  "handle_response env inp iteration r st =
     (case resp_stop_reason r of
        StopToolUse \<Rightarrow> use_tools env inp (new_budget (ctx_window inp)) r st
      | MaxTokens \<Rightarrow> continue_or_stop env inp iteration r st
      | _ \<Rightarrow> finish_turn env inp iteration r st)"

definition iterate ::
  "('j, 'w) loop_env \<Rightarrow> 'j loop_input \<Rightarrow> nat \<Rightarrow> ('j, 'w) loop_state \<Rightarrow> ('j, 'w) outcome" where
  "iterate env inp iteration st =
     (case prepare_messages env inp (ls_messages st) of
        Inl e \<Rightarrow> Fail (LoopPanicked e) st
      | Inr (ms, stage) \<Rightarrow>
          let st1 = st\<lparr>ls_messages := ms, ls_world := announce env stage (ls_world st)\<rparr>
          in (case call_model env (make_request inp ms) (ls_world st1) of
                (Inl e, _, w) \<Rightarrow> Fail (LlmFailed e) (st1\<lparr>ls_world := w\<rparr>)
              | (Inr r, _, w) \<Rightarrow>
                  handle_response env inp iteration (promote_text_calls env inp w r)
                    (st1\<lparr>ls_world := w, ls_usage := add_usage (ls_usage st1) (resp_usage r)\<rparr>)))"

section \<open>The loop\<close>

fun loop_from ::
  "('j, 'w) loop_env \<Rightarrow> 'j loop_input \<Rightarrow> nat \<Rightarrow> nat \<Rightarrow> ('j, 'w) loop_state
   \<Rightarrow> ('j loop_result, loop_error) result \<times> ('j, 'w) loop_state" where
  "loop_from env inp 0 iteration st =
     (Err (MaxIterationsExceeded iteration),
      on_world (observe env inp AgentLoopEnd (LimitData ''max_iterations_exceeded'' iteration)) (save_quietly env st))"
| "loop_from env inp (Suc left) iteration st =
     (case iterate env inp iteration st of
        Continue st1 \<Rightarrow> loop_from env inp left (Suc iteration) st1
      | Return r st1 \<Rightarrow> (Ok r, st1)
      | Fail e st1 \<Rightarrow> (Err e, st1))"

definition max_iterations :: "'j loop_input \<Rightarrow> nat" where
  "max_iterations inp = (case in_max_iterations inp of Some n \<Rightarrow> n | None \<Rightarrow> default_max_iterations)"

text \<open>The circuit breaker grows with the iterations; the product is taken in 32 bits.\<close>

definition loop_guard_for :: "nat \<Rightarrow> loop_guard_config" where
  "loop_guard_for n =
     (if n > global_circuit_breaker default_config
      then default_config\<lparr>global_circuit_breaker := (n * 3) mod 2 ^ 32\<rparr> else default_config)"

text \<open>\<open>messages.drain(..trim_count)\<close>.\<close>

definition trim_history :: "'j message list \<Rightarrow> 'j message list" where
  "trim_history ms =
     (if length ms > max_history_messages then drop (length ms - max_history_messages) ms else ms)"

definition initial_messages :: "'j message list \<Rightarrow> 'j message list" where
  "initial_messages session =
     trim_history (validate_and_repair (filter (\<lambda>m. role m \<noteq> System) session))"

definition agent_loop ::
  "('j, 'w) loop_env \<Rightarrow> 'j loop_input \<Rightarrow> 'j message list \<Rightarrow> 'w
   \<Rightarrow> ('j loop_result, loop_error) result \<times> ('j, 'w) loop_state" where
  "agent_loop env inp session w =
     (let (memories, w0) = recall_memories env (in_user_message inp) w;
          w1 = observe env inp BeforePromptBuild
            (PromptData (system_prompt (in_model inp)) (in_user_message inp)) w0;
          session1 = session @ [user_message (in_user_message inp)];
          inp1 = inp\<lparr>in_system := system_with_memories (system_prompt (in_model inp)) memories\<rparr>
      in loop_from env inp1 (max_iterations inp) 0
           \<lparr>ls_session = session1, ls_messages = initial_messages session1,
            ls_usage = \<lparr>input_tokens = 0, output_tokens = 0\<rparr>,
            ls_guard = new_guard (loop_guard_for (max_iterations inp)), ls_max_tokens = 0, ls_world = w1\<rparr>)"

text \<open>The two entry points, with the tools run through the gates of \<open>execute_tool\<close>.\<close>

definition with_gates :: "('j, 'w) tool_context \<Rightarrow> 'j loop_input \<Rightarrow> ('j, 'w) loop_env \<Rightarrow> ('j, 'w) loop_env" where
  "with_gates cx inp env = env\<lparr>le_execute := (\<lambda>allowed c w.
     execute_tool (cx\<lparr>allowed_tools := Some allowed, caller := Some (in_agent_id inp)\<rparr>)
       (call_id c) (call_name c) (call_input c) w)\<rparr>"

definition run_agent_loop ::
  "('j, 'w) loop_env \<Rightarrow> ('j, 'w) tool_context \<Rightarrow> 'j loop_input \<Rightarrow> 'j message list \<Rightarrow> 'w
   \<Rightarrow> ('j loop_result, loop_error) result \<times> ('j, 'w) loop_state" where
  "run_agent_loop env cx inp = agent_loop (with_gates cx inp (env\<lparr>le_streaming := False\<rparr>)) inp"

definition run_agent_loop_streaming ::
  "('j, 'w) loop_env \<Rightarrow> ('j, 'w) tool_context \<Rightarrow> 'j loop_input \<Rightarrow> 'j message list \<Rightarrow> 'w
   \<Rightarrow> ('j loop_result, loop_error) result \<times> ('j, 'w) loop_state" where
  "run_agent_loop_streaming env cx inp = agent_loop (with_gates cx inp (env\<lparr>le_streaming := True\<rparr>)) inp"

end
