(* ===== verification/Agent_Loop_Facts.thy ===== *)
theory Agent_Loop_Facts
  imports Agent_Loop
begin

text \<open>
  What the agent loop of theory \<open>Agent_Loop\<close> guarantees: bounds on the calls of the model and on tool
  executions, results for every call, the growth of the session, and the end of continuations.
\<close>

section \<open>An observed world\<close>

text \<open>
  A world that also keeps what happened in it: each request that reached the model and each tool that
  was started. \<open>observed env\<close> does what \<open>env\<close> does and extends that list.
\<close>

datatype loop_event = Asked | Executed string

definition observed_driver :: "('j, 'w) driver_call \<Rightarrow> ('j, 'w \<times> loop_event list) driver_call" where
  "observed_driver call req x = (case call req (fst x) of (r, w1) \<Rightarrow> (r, (w1, snd x @ [Asked])))"

definition observed_handler :: "('j, 'w) handler \<Rightarrow> ('j, 'w \<times> loop_event list) handler" where
  "observed_handler h cx x = (case h cx (fst x) of (r, w1) \<Rightarrow> (r, (w1, snd x)))"

definition observed :: "('j, 'w) loop_env \<Rightarrow> ('j, 'w \<times> loop_event list) loop_env" where
  "observed env =
     \<lparr>le_env = \<lparr>clock = (\<lambda>x. clock (le_env env) (fst x)), sleep_ms = (\<lambda>n x. (sleep_ms (le_env env) n (fst x), snd x))\<rparr>,
      le_driver = \<lparr>complete = observed_driver (complete (le_driver env)), stream = observed_driver (stream (le_driver env))\<rparr>,
      le_guard = le_guard env, le_parse = le_parse env, le_uuid = (\<lambda>x. le_uuid env (fst x)),
      le_execute = (\<lambda>allowed c x. map_sum id (\<lambda>(r, w1). (r, (w1, snd x @ [Executed (call_name c)])))
         (le_execute env allowed c (fst x))),
      le_timeout = (\<lambda>c x. map_option (\<lambda>w1. (w1, snd x @ [Executed (call_name c)])) (le_timeout env c (fst x))),
      le_hooks = (\<lambda>e. map observed_handler (le_hooks env e)),
      le_phase = (\<lambda>p x. (le_phase env p (fst x), snd x)), le_emit = (\<lambda>e x. (le_emit env e (fst x), snd x)),
      le_save = (\<lambda>ms x. case le_save env ms (fst x) of (r, w1) \<Rightarrow> (r, (w1, snd x))),
      le_embedder = map_option (\<lambda>emb s x. case emb s (fst x) of (r, w1) \<Rightarrow> (r, (w1, snd x))) (le_embedder env),
      le_recall = (\<lambda>q n v x. case le_recall env q n v (fst x) of (r, w1) \<Rightarrow> (r, (w1, snd x))),
      le_remember = (\<lambda>s v x. (le_remember env s v (fst x), snd x)), le_streaming = le_streaming env\<rparr>"

fun asked :: "loop_event list \<Rightarrow> nat" where
  "asked [] = 0"
| "asked (Asked # t) = Suc (asked t)"
| "asked (Executed _ # t) = asked t"

fun executed :: "loop_event list \<Rightarrow> nat" where
  "executed [] = 0"
| "executed (Asked # t) = executed t"
| "executed (Executed _ # t) = Suc (executed t)"

lemma asked_append [simp]: "asked (s @ t) = asked s + asked t"
  by (induction s rule: asked.induct) auto

lemma executed_append [simp]: "executed (s @ t) = executed s + executed t"
  by (induction s rule: executed.induct) auto

lemma observed_frame [simp]:
  "snd (le_phase (observed env) p x) = snd x"
  "snd (le_emit (observed env) e x) = snd x"
  "snd (le_remember (observed env) s v x) = snd x"
  "snd (snd (le_recall (observed env) q n v x)) = snd x"
  "snd (snd (le_save (observed env) ms x)) = snd x"
  by (simp_all add: observed_def split: prod.split)

lemma observed_fire [simp]: "snd (snd (fire_hooks (le_hooks (observed env)) cx x)) = snd x"
proof -
  have "snd (snd (fire_handlers (map observed_handler hs) cx x)) = snd x" for hs
    by (induction hs arbitrary: x) (auto simp: observed_handler_def split: prod.split sum.split)
  then show ?thesis by (simp add: observed_def fire_hooks_def)
qed

lemma observed_observe [simp]: "snd (observe (observed env) inp e d x) = snd x"
  by (simp add: observe_def)

lemma observed_embed:
  "le_embedder (observed env) = Some emb \<Longrightarrow> snd (snd (emb s x)) = snd x"
  by (auto simp: observed_def split: prod.split)

lemma observed_recall [simp]: "snd (snd (recall_memories (observed env) s x)) = snd x"
proof -
  have rec: "snd (snd (le_recall (observed env) q n v y)) = snd y" for q n v and y :: "'a \<times> loop_event list"
    by simp
  show ?thesis
  proof (cases "le_embedder (observed env)")
    case None
    then show ?thesis by (simp add: recall_memories_def Let_def split_def rec)
  next
    case (Some emb)
    with observed_embed [OF this, of s x] show ?thesis
      by (cases "fst (emb s x)") (simp_all add: recall_memories_def Let_def split_def rec)
  qed
qed

lemma observed_remember [simp]: "snd (remember_turn (observed env) s x) = snd x"
proof (cases "le_embedder (observed env)")
  case (Some emb)
  with observed_embed [OF this, of s x] show ?thesis
    by (cases "fst (emb s x)") (simp_all add: remember_turn_def split_def)
qed (simp add: remember_turn_def)

lemma observed_announce [simp]: "snd (announce (observed env) stage x) = snd x"
  by (simp add: announce_def)

lemma observed_streaming [simp]: "le_streaming (observed env) = le_streaming env"
  by (simp add: observed_def)

section \<open>Requests to the model\<close>

lemma retry_loop_asked:
  "asked (snd (snd (snd (retry_loop (le_env (observed env)) (observed_driver call) req left attempt le cd x))))
     \<le> asked (snd x) + left
   \<and> executed (snd (snd (snd (retry_loop (le_env (observed env)) (observed_driver call) req left attempt le cd x))))
     = executed (snd x)"
proof (induction left arbitrary: attempt le x)
  case (Suc left)
  obtain r w1 where r: "call req (fst x) = (r, w1)" by (cases "call req (fst x)")
  have c: "observed_driver call req x = (r, (w1, snd x @ [Asked]))" by (simp add: observed_driver_def r)
  show ?case
  proof (cases r)
    case (Inr resp)
    then show ?thesis by (simp add: c)
  next
    case (Inl e)
    then show ?thesis
      using Suc.IH [of "Suc attempt" "Some ''Rate limited''" "sleep_ms (le_env (observed env)) d (w1, snd x @ [Asked])" for d]
        Suc.IH [of "Suc attempt" "Some ''Overloaded''" "sleep_ms (le_env (observed env)) d (w1, snd x @ [Asked])" for d]
      by (cases e) (simp_all add: c observed_def split: prod.split)
  qed
qed simp

lemma call_model_asked:
  assumes "call_model (observed env) req x = (r, cd, y)"
  shows "asked (snd y) \<le> asked (snd x) + 4 \<and> executed (snd y) = executed (snd x)"
proof -
  have "with_breaker (le_env (observed env)) (observed_driver call) req None x =
      retry_loop (le_env (observed env)) (observed_driver call) req 4 0 None None x" for call
    by (simp add: with_breaker_def max_retries_def)
  moreover have "complete (le_driver (observed env)) = observed_driver (complete (le_driver env))"
    "stream (le_driver (observed env)) = observed_driver (stream (le_driver env))"
    by (simp_all add: observed_def)
  ultimately show ?thesis
    using assms retry_loop_asked [of env "complete (le_driver env)" req 4 0 None None x]
      retry_loop_asked [of env "stream (le_driver env)" req 4 0 None None x]
    by (auto simp: call_model_def call_with_retry_def stream_with_retry_def split: if_splits)
qed

section \<open>Tool executions\<close>

lemma timed_execute_trace:
  "timed_execute (observed env) allowed c x = Ok (r, y) \<Longrightarrow> snd y = snd x @ [Executed (call_name c)]"
  by (auto simp: timed_execute_def observed_def map_sum_Inr split: option.splits prod.splits)

lemma perform_call_trace:
  assumes "perform_call (observed env) inp budget c v x = Ok (b, y)"
  shows "asked (snd y) = asked (snd x) \<and> executed (snd y) \<le> Suc (executed (snd x))"
proof -
  let ?cx = "hook_ctx inp BeforeToolCall (CallData (call_name c) (call_input c))"
  obtain allowed w2 where f: "fire_hooks (le_hooks (observed env)) ?cx
      (le_phase (observed env) (PhaseToolUse (phase_name (call_name c))) x) = (allowed, w2)" by (metis surj_pair)
  have s2: "snd w2 = snd x"
    using observed_fire [of env ?cx "le_phase (observed env) (PhaseToolUse (phase_name (call_name c))) x"] f by simp
  show ?thesis
  proof (cases allowed)
    case (Inl reason)
    then show ?thesis using assms f s2 by (simp add: perform_call_def)
  next
    case (Inr u)
    then obtain res w3 where t: "timed_execute (observed env) (map tool_name (in_tools inp)) c w2 = Ok (res, w3)"
      using assms f by (auto simp: perform_call_def split: sum.splits)
    have "snd y = snd w3"
      using assms f t Inr by (auto simp: perform_call_def Let_def split: sum.splits)
    with timed_execute_trace [OF t] s2 show ?thesis by simp
  qed
qed

lemma run_calls_pass:
  assumes "check_call (le_guard env) g (call_name c) (call_input c) = (g1, v)" "passes v"
  shows "run_calls env inp budget (c # cs) g w =
    (case perform_call env inp budget c v w of
       Inl e \<Rightarrow> (Err (StopPanic e), g1, w)
     | Inr (b, w1) \<Rightarrow>
         (case run_calls env inp budget cs g1 w1 of
            (Inr bs, g2, w2) \<Rightarrow> (Ok (b # bs), g2, w2)
          | (Inl s, g2, w2) \<Rightarrow> (Err s, g2, w2)))"
  using assms by (cases v) simp_all

text \<open>
  The guard counts every call before it decides, so the executions never outnumber the counted calls
  nor the limit of the circuit breaker.
\<close>

definition within_limit :: "loop_guard \<Rightarrow> loop_event list \<Rightarrow> bool" where
  "within_limit g t \<longleftrightarrow> executed t \<le> total_calls g \<and> executed t \<le> global_circuit_breaker (config g)"

lemma run_calls_trace:
  assumes "run_calls (observed env) inp budget cs g x = (r, g', y)" and "within_limit g (snd x)"
  shows "within_limit g' (snd y) \<and> asked (snd y) = asked (snd x) \<and> config g' = config g"
  using assms
proof (induction cs arbitrary: g x r)
  case Nil
  then show ?case by simp
next
  case (Cons c cs)
  let ?check = "check_call (le_guard (observed env)) g (call_name c) (call_input c)"
  obtain g1 v where v: "?check = (g1, v)" by (cases ?check)
  have g1: "total_calls g1 = Suc (total_calls g)" "config g1 = config g"
    using check_total check_config v by (metis fst_conv)+
  have lim: "within_limit g1 (snd x)" using Cons.prems(2) g1 by (simp add: within_limit_def)
  show ?case
  proof (cases "is_circuit_break v")
    case True
    then obtain m where "v = CircuitBreak m" by (cases v) auto
    with Cons.prems(1) v lim g1 show ?thesis by simp
  next
    case False
    then have room: "\<not> global_circuit_breaker (config g) \<le> total_calls g"
      using check_circuit_break v by (metis snd_conv)
    show ?thesis
    proof (cases "passes v")
      case False
      with \<open>\<not> is_circuit_break v\<close> obtain m where "v = Block m" by (cases v) auto
      then obtain r1 where "run_calls (observed env) inp budget cs g1 x = (r1, g', y)"
        using Cons.prems(1) v by (auto split: prod.splits sum.splits)
      from Cons.IH [OF this lim] g1 show ?thesis by simp
    next
      case True
      note run = run_calls_pass [OF v True, of inp budget cs x]
      show ?thesis
      proof (cases "perform_call (observed env) inp budget c v x")
        case (Inl e)
        with Cons.prems(1) run lim g1 show ?thesis by simp
      next
        case (Inr bw)
        then obtain b x1 where p: "perform_call (observed env) inp budget c v x = Ok (b, x1)" by (cases bw) simp
        note tr = perform_call_trace [OF p]
        then have lim1: "within_limit g1 (snd x1)"
          using Cons.prems(2) g1 room by (simp add: within_limit_def)
        obtain r1 where "run_calls (observed env) inp budget cs g1 x1 = (r1, g', y)"
          using Cons.prems(1) run p by (auto split: prod.splits sum.splits)
        from Cons.IH [OF this lim1] tr g1 show ?thesis by simp
      qed
    qed
  qed
qed

section \<open>Iterations\<close>

fun outcome_state :: "('j, 'w) outcome \<Rightarrow> ('j, 'w) loop_state" where
  "outcome_state (Continue st) = st"
| "outcome_state (Return r st) = st"
| "outcome_state (Fail e st) = st"

abbreviation trace :: "('j, 'w \<times> loop_event list) loop_state \<Rightarrow> loop_event list" where
  "trace st \<equiv> snd (ls_world st)"

definition step_ok ::
  "nat \<Rightarrow> ('j, 'w \<times> loop_event list) loop_state \<Rightarrow> ('j, 'w \<times> loop_event list) loop_state \<Rightarrow> bool" where
  "step_ok n st st' \<longleftrightarrow>
     (within_limit (ls_guard st) (trace st) \<longrightarrow>
        asked (trace st') \<le> asked (trace st) + n \<and> config (ls_guard st') = config (ls_guard st)
        \<and> within_limit (ls_guard st') (trace st'))"

lemma step_ok_frame:
  "trace st' = trace st \<Longrightarrow> ls_guard st' = ls_guard st \<Longrightarrow> step_ok 0 st st'"
  by (simp add: step_ok_def)

lemma step_ok_trans: "step_ok n st st1 \<Longrightarrow> step_ok m st1 st2 \<Longrightarrow> step_ok (n + m) st st2"
  by (auto simp: step_ok_def)

lemmas state_updates = push_session_def push_messages_def on_world_def save_quietly_def make_result_def

lemma state_frame [simp]:
  "ls_world (push_session m st) = ls_world st" "ls_guard (push_session m st) = ls_guard st"
  "ls_world (push_messages m st) = ls_world st" "ls_guard (push_messages m st) = ls_guard st"
  "ls_guard (on_world f st) = ls_guard st" "ls_guard (save_quietly env st) = ls_guard st"
  by (simp_all add: state_updates)

lemma trace_frame [simp]:
  "trace (on_world (observe (observed env) inp e d) st) = trace st"
  "trace (save_quietly (observed env) st) = trace st"
  by (simp_all add: on_world_def save_quietly_def)

lemma guard_after_save:
  "ls_guard (outcome_state (case p of (Inl e, w1) \<Rightarrow> Fail (SaveFailed e) (st\<lparr>ls_world := w1\<rparr>)
     | (Inr u, w1) \<Rightarrow> Return (q w1) (st\<lparr>ls_world := f w1\<rparr>))) = ls_guard st"
  by (cases p; cases "fst p") auto

lemma finish_turn_step: "step_ok 0 st (outcome_state (finish_turn (observed env) inp i r st))"
proof (rule step_ok_frame)
  obtain vt d where pd: "parse_directives (response_text r) = (vt, d)" by (metis surj_pair)
  have save: "snd w = snd x" if "le_save (observed env) ms x = (y, w)" for ms x y w
    using observed_frame(5) [of env ms x] that by simp
  show "trace (outcome_state (finish_turn (observed env) inp i r st)) = trace st"
    unfolding finish_turn_def pd
    by (auto simp: Let_def split: prod.split sum.split dest: save)
  show "ls_guard (outcome_state (finish_turn (observed env) inp i r st)) = ls_guard st"
    unfolding finish_turn_def pd Let_def prod.case
    by (simp only: if_distrib [of outcome_state] if_distrib [of ls_guard] guard_after_save
      outcome_state.simps state_frame) simp
qed

lemma continue_or_stop_step: "step_ok 0 st (outcome_state (continue_or_stop (observed env) inp i r st))"
  by (rule step_ok_frame) (simp_all add: continue_or_stop_def Let_def split_def)

lemma use_tools_step: "step_ok 0 st (outcome_state (use_tools (observed env) inp budget r st))"
proof -
  obtain res g w where run: "run_calls (observed env) inp budget (resp_tool_calls r) (ls_guard st) (ls_world st) = (res, g, w)"
    by (metis prod_cases3)
  note tr = run_calls_trace [OF run]
  show ?thesis unfolding step_ok_def
  proof
    assume "within_limit (ls_guard st) (trace st)"
    note facts = tr [OF this]
    show "asked (trace (outcome_state (use_tools (observed env) inp budget r st))) \<le> asked (trace st) + 0
      \<and> config (ls_guard (outcome_state (use_tools (observed env) inp budget r st))) = config (ls_guard st)
      \<and> within_limit (ls_guard (outcome_state (use_tools (observed env) inp budget r st)))
          (trace (outcome_state (use_tools (observed env) inp budget r st)))"
      using facts run by (cases res) (simp_all add: use_tools_def state_updates Let_def split: stop.split)
  qed
qed

lemma handle_response_step: "step_ok 0 st (outcome_state (handle_response (observed env) inp i r st))"
  by (cases "resp_stop_reason r")
    (simp_all add: handle_response_def finish_turn_step use_tools_step continue_or_stop_step)

lemma iterate_step: "step_ok 4 st (outcome_state (iterate (observed env) inp i st))"
proof (cases "prepare_messages (observed env) inp (ls_messages st)")
  case (Inl e)
  then show ?thesis by (simp add: iterate_def step_ok_def)
next
  case (Inr p)
  obtain ms stage where p: "p = (ms, stage)" by (cases p)
  let ?st1 = "st\<lparr>ls_messages := ms, ls_world := announce (observed env) stage (ls_world st)\<rparr>"
  obtain res cd w where call: "call_model (observed env) (make_request inp ms) (ls_world ?st1) = (res, cd, w)"
    by (metis prod_cases3)
  have "trace ?st1 = trace st" by simp
  with call_model_asked [OF call] have called: "asked (snd w) \<le> asked (trace st) + 4" "executed (snd w) = executed (trace st)"
    by simp_all
  show ?thesis
  proof (cases res)
    case (Inl e)
    then show ?thesis using Inr p call called by (simp add: iterate_def step_ok_def within_limit_def)
  next
    case res: (Inr r)
    let ?st2 = "?st1\<lparr>ls_world := w, ls_usage := add_usage (ls_usage ?st1) (resp_usage r)\<rparr>"
    have "step_ok 4 st ?st2" using called by (simp add: step_ok_def within_limit_def)
    from step_ok_trans [OF this handle_response_step] show ?thesis
      using Inr p call res by (simp add: iterate_def)
  qed
qed

lemma loop_from_bound:
  "loop_from (observed env) inp left i st = (res, st') \<Longrightarrow> step_ok (4 * left) st st'"
proof (induction left arbitrary: i st)
  case 0
  then have "trace st' = trace st" "ls_guard st' = ls_guard st" by auto
  then show ?case using step_ok_frame by fastforce
next
  case (Suc left)
  have step: "step_ok 4 st (outcome_state (iterate (observed env) inp i st))" by (rule iterate_step)
  show ?case
  proof (cases "iterate (observed env) inp i st")
    case (Continue st1)
    with Suc.prems have "loop_from (observed env) inp left (Suc i) st1 = (res, st')" by simp
    from step_ok_trans [OF _ Suc.IH [OF this], of 4 st] step Continue show ?thesis by simp
  next
    case (Return r st1)
    with Suc.prems step show ?thesis by (auto simp: step_ok_def)
  next
    case (Fail e st1)
    with Suc.prems step show ?thesis by (auto simp: step_ok_def)
  qed
qed

fun counted_outcome :: "nat \<Rightarrow> ('j, 'w) outcome \<Rightarrow> bool" where
  "counted_outcome k (Continue st) = True"
| "counted_outcome k (Return r st) = (lr_iterations r = k)"
| "counted_outcome k (Fail e st) = (case e of MaxIterationsExceeded n \<Rightarrow> False | _ \<Rightarrow> True)"

lemma counted_save:
  "(\<And>w. lr_iterations (q w) = k) \<Longrightarrow>
   counted_outcome k (case p of (Inl e, w1) \<Rightarrow> Fail (SaveFailed e) (g w1) | (Inr u, w1) \<Rightarrow> Return (q w1) (f w1))"
  by (cases p; cases "fst p") auto

lemma finish_turn_counted: "counted_outcome (i + 1) (finish_turn env inp i r st)"
proof -
  obtain vt d where pd: "parse_directives (response_text r) = (vt, d)" by (metis surj_pair)
  show ?thesis
    unfolding finish_turn_def pd Let_def prod.case
    by (auto intro!: counted_save simp: make_result_def)
qed

lemma continue_or_stop_counted: "counted_outcome (i + 1) (continue_or_stop env inp i r st)"
  by (simp add: continue_or_stop_def Let_def make_result_def)

lemma use_tools_counted: "counted_outcome k (use_tools env inp budget r st)"
  by (auto simp: use_tools_def Let_def split: prod.split sum.split stop.split)

lemma iterate_counted: "counted_outcome (i + 1) (iterate env inp i st)"
proof -
  have "counted_outcome (i + 1) (handle_response env inp i r st')" for r st'
    using finish_turn_counted [of i env inp r st'] continue_or_stop_counted [of i env inp r st'] use_tools_counted
    by (cases "resp_stop_reason r") (simp_all add: handle_response_def)
  then show ?thesis
    by (auto simp: iterate_def Let_def split: sum.split prod.split)
qed

lemma loop_from_iterations:
  "loop_from env inp left i st = (res, st') \<Longrightarrow>
   (case res of Inr r \<Rightarrow> i < lr_iterations r \<and> lr_iterations r \<le> i + left
    | Inl (MaxIterationsExceeded n) \<Rightarrow> n = i + left | Inl _ \<Rightarrow> True)"
proof (induction left arbitrary: i st)
  case 0
  then show ?case by auto
next
  case (Suc left)
  note c = iterate_counted [of i env inp st]
  show ?case
  proof (cases "iterate env inp i st")
    case (Continue st1)
    with Suc.prems have "loop_from env inp left (Suc i) st1 = (res, st')" by simp
    from Suc.IH [OF this] show ?thesis by (auto split: sum.splits loop_error.splits)
  next
    case (Return r st1)
    with Suc.prems c show ?thesis by auto
  next
    case (Fail e st1)
    with Suc.prems c show ?thesis by (auto split: loop_error.splits)
  qed
qed

text \<open>The run is the loop from the prepared input and state.\<close>

lemma agent_loop_from:
  "agent_loop env inp session w =
     loop_from env (inp\<lparr>in_system := system_with_memories (system_prompt (in_model inp))
         (fst (recall_memories env (in_user_message inp) w))\<rparr>) (max_iterations inp) 0
       \<lparr>ls_session = session @ [user_message (in_user_message inp)],
        ls_messages = initial_messages (session @ [user_message (in_user_message inp)]),
        ls_usage = \<lparr>input_tokens = 0, output_tokens = 0\<rparr>,
        ls_guard = new_guard (loop_guard_for (max_iterations inp)), ls_max_tokens = 0,
        ls_world = observe env inp BeforePromptBuild
          (PromptData (system_prompt (in_model inp)) (in_user_message inp))
          (snd (recall_memories env (in_user_message inp) w))\<rparr>"
  by (simp add: agent_loop_def Let_def split_def)

text \<open>
  C1: The loop is bounded. Whatever the model answers, a run asks it at most four times per iteration
  and never beyond the maximum of iterations, starts at most as many tools as the circuit breaker
  allows, and a result tells a number of iterations between one and the maximum.
\<close>

theorem agent_loop_bounds:
  assumes "agent_loop (observed env) inp session (w, []) = (res, st)"
  shows "asked (trace st) \<le> 4 * max_iterations inp
    \<and> executed (trace st) \<le> global_circuit_breaker (loop_guard_for (max_iterations inp))
    \<and> (case res of
         Inr r \<Rightarrow> 1 \<le> lr_iterations r \<and> lr_iterations r \<le> max_iterations inp
       | Inl (MaxIterationsExceeded n) \<Rightarrow> n = max_iterations inp
       | Inl _ \<Rightarrow> True)"
proof -
  let ?w1 = "observe (observed env) inp BeforePromptBuild
     (PromptData (system_prompt (in_model inp)) (in_user_message inp))
     (snd (recall_memories (observed env) (in_user_message inp) (w, [])))"
  let ?inp = "inp\<lparr>in_system := system_with_memories (system_prompt (in_model inp))
     (fst (recall_memories (observed env) (in_user_message inp) (w, [])))\<rparr>"
  let ?st0 = "\<lparr>ls_session = session @ [user_message (in_user_message inp)],
     ls_messages = initial_messages (session @ [user_message (in_user_message inp)]),
     ls_usage = \<lparr>input_tokens = 0, output_tokens = 0\<rparr>,
     ls_guard = new_guard (loop_guard_for (max_iterations inp)), ls_max_tokens = 0, ls_world = ?w1\<rparr>"
  have run: "loop_from (observed env) ?inp (max_iterations inp) 0 ?st0 = (res, st)"
    using assms unfolding agent_loop_from .
  have "trace ?st0 = []" by simp
  then have "within_limit (ls_guard ?st0) (trace ?st0)" by (simp add: within_limit_def)
  with loop_from_bound [OF run] \<open>trace ?st0 = []\<close>
  have "asked (trace st) \<le> 4 * max_iterations inp"
    "executed (trace st) \<le> global_circuit_breaker (loop_guard_for (max_iterations inp))"
    by (auto simp: step_ok_def within_limit_def new_guard_def)
  with loop_from_iterations [OF run] show ?thesis
    by (auto split: sum.splits loop_error.splits)
qed

section \<open>Results for every call\<close>

text \<open>
  What a driver documents: the tool calls of a tool-use response are those of its content blocks, and a
  response holds no tool results. And a tool answers under the identifier of its call.
\<close>

definition honest_response :: "'j completion_response \<Rightarrow> bool" where
  "honest_response r \<longleftrightarrow>
     (resp_stop_reason r = StopToolUse \<longrightarrow>
        block_uses (resp_content r) = map call_id (resp_tool_calls r) \<and> block_results (resp_content r) = [])"

definition honest_driver :: "('j, 'w) driver \<Rightarrow> bool" where
  "honest_driver d \<longleftrightarrow>
     (\<forall>req w r w'. complete d req w = (Ok r, w') \<or> stream d req w = (Ok r, w') \<longrightarrow> honest_response r)"

definition keeps_ids :: "('j, 'w) loop_env \<Rightarrow> bool" where
  "keeps_ids env \<longleftrightarrow>
     (\<forall>allowed c w r w'. le_execute env allowed c w = Ok (r, w') \<longrightarrow> result_use_id r = call_id c)"

lemma keeps_ids_gates: "keeps_ids (with_gates cx inp env)"
  by (auto simp: keeps_ids_def with_gates_def dest: execute_keeps_id)

lemma keeps_idsD: "keeps_ids env \<Longrightarrow> le_execute env allowed c w = Ok (r, w') \<Longrightarrow> result_use_id r = call_id c"
  unfolding keeps_ids_def by blast

lemma timed_execute_id:
  "keeps_ids env \<Longrightarrow> timed_execute env allowed c w = Ok (r, w') \<Longrightarrow> result_use_id r = call_id c"
  by (auto simp: timed_execute_def split: option.splits dest: keeps_idsD)

lemma perform_call_result:
  assumes "keeps_ids env" "perform_call env inp budget c v w = Ok (b, w')"
  shows "result_id b = [call_id c] \<and> use_id b = []"
  using assms
  by (auto simp: perform_call_def Let_def split: prod.splits sum.splits dest!: timed_execute_id)

lemma run_calls_results:
  assumes "keeps_ids env" "run_calls env inp budget cs g w = (Ok bs, g', w')"
  shows "block_results bs = map call_id cs \<and> block_uses bs = []"
  using assms(2)
proof (induction cs arbitrary: g w bs)
  case Nil
  then show ?case by simp
next
  case (Cons c cs)
  obtain g1 v where v: "check_call (le_guard env) g (call_name c) (call_input c) = (g1, v)" by (metis surj_pair)
  show ?case
  proof (cases "passes v")
    case True
    obtain b w1 bs' where "perform_call env inp budget c v w = Ok (b, w1)"
      "run_calls env inp budget cs g1 w1 = (Ok bs', g', w')" "bs = b # bs'"
      using Cons.prems run_calls_pass [OF v True] by (auto split: sum.splits prod.splits)
    with Cons.IH perform_call_result [OF assms(1)] show ?thesis by auto
  next
    case False
    then show ?thesis using Cons.prems v Cons.IH
      by (cases v) (auto split: sum.splits prod.splits)
  qed
qed

lemma retry_loop_source:
  "fst (retry_loop e call req left attempt le cd w) = Ok r \<Longrightarrow> \<exists>w0 w1. call req w0 = (Ok r, w1)"
  by (induction e call req left attempt le cd w rule: retry_loop.induct)
    (auto simp: Let_def split: prod.splits sum.splits llm_error.splits if_splits)

lemma call_model_honest:
  assumes "honest_driver (le_driver env)" "call_model env req w = (Ok r, cd, w')"
  shows "honest_response r"
proof -
  have "fst (call_model env req w) = Ok r" using assms(2) by simp
  then have "\<exists>w0 w1. complete (le_driver env) req w0 = (Ok r, w1) \<or> stream (le_driver env) req w0 = (Ok r, w1)"
    by (auto simp: call_model_def call_with_retry_def stream_with_retry_def with_breaker_def Let_def
        simp del: retry_loop.simps split: if_splits dest!: retry_loop_source)
  with assms(1) show ?thesis by (auto simp: honest_driver_def)
qed

lemma promoted_honest: "honest_response r \<Longrightarrow> honest_response (promote_text_calls env inp w r)"
proof -
  have "block_uses (map (\<lambda>tc. ToolUse (call_id tc) (call_name tc) (call_input tc)) cs) = map call_id cs
      \<and> block_results (map (\<lambda>tc. ToolUse (call_id tc) (call_name tc) (call_input tc)) cs) = []" for cs :: "'a tool_call list"
    by (induction cs) auto
  then show "honest_response r \<Longrightarrow> honest_response (promote_text_calls env inp w r)"
    by (simp add: promote_text_calls_def honest_response_def Let_def)
qed

section \<open>The session\<close>

definition paired :: "'j message list \<Rightarrow> bool" where
  "paired app \<longleftrightarrow> uses app = results app"

text \<open>What an iteration appends to the session, which a finished turn also prunes.\<close>

definition appended :: "'j message list \<Rightarrow> 'j message list \<Rightarrow> 'j message list \<Rightarrow> bool" where
  "appended s app s' \<longleftrightarrow> s' = s @ app \<or> s' = prune_heartbeat_turns (s @ app) 10"

fun session_step :: "'j message list \<Rightarrow> ('j, 'w) outcome \<Rightarrow> bool" where
  "session_step s (Continue st) = (\<exists>app. ls_session st = s @ app \<and> paired app)"
| "session_step s (Return r st) = (\<exists>app. appended s app (ls_session st) \<and> paired app)"
| "session_step s (Fail e st) =
     (\<exists>app. appended s app (ls_session st) \<and> prefix (results app) (uses app)
        \<and> (case e of CircuitBroken _ \<Rightarrow> True | LoopPanicked _ \<Rightarrow> True | _ \<Rightarrow> paired app))"

lemma paired_texts [simp]:
  "paired []" "paired (user_message t # app) = paired app" "paired (assistant_message t # app) = paired app"
  by (simp_all add: paired_def user_message_def assistant_message_def msg_uses_def msg_results_def)

lemma session_step_same: "ls_session st = s \<Longrightarrow> session_step s (Continue st)"
  by (simp add: exI [of _ "[]"])

lemma session_save:
  assumes "appended s app s'" "paired app" "\<And>w. ls_session (f w) = s'" "\<And>w. ls_session (g w) = s'"
  shows "session_step s (case p of (Inl e, w1) \<Rightarrow> Fail (SaveFailed e) (g w1) | (Inr u, w1) \<Rightarrow> Return (q w1) (f w1))"
  using assms by (cases p; cases "fst p") (auto simp: paired_def intro!: exI [of _ app])

lemma finish_turn_session: "session_step (ls_session st) (finish_turn env inp i r st)"
proof -
  obtain vt d where pd: "parse_directives (response_text r) = (vt, d)" by (metis surj_pair)
  let ?s = "sanitize_visible_response vt"
  consider (silent) "trim ?s = ''NO_REPLY'' \<or> dir_silent d"
    | (again) "\<not> (trim ?s = ''NO_REPLY'' \<or> dir_silent d)" "trim ?s = [] \<and> i = 0 \<and> resp_tool_calls r = []"
    | (answer) "\<not> (trim ?s = ''NO_REPLY'' \<or> dir_silent d)" "\<not> (trim ?s = [] \<and> i = 0 \<and> resp_tool_calls r = [])"
    by blast
  then show ?thesis
  proof cases
    case silent
    show ?thesis
      unfolding finish_turn_def pd Let_def prod.case if_P [OF silent]
      by (rule session_save [where app = "[assistant_message ''[no reply needed]'']"])
        (simp_all add: appended_def push_session_def)
  next
    case again
    show ?thesis
      unfolding finish_turn_def pd Let_def prod.case if_not_P [OF again(1)] if_P [OF again(2)]
      by (rule session_step_same) (simp add: push_messages_def)
  next
    case answer
    show ?thesis
      unfolding finish_turn_def pd Let_def prod.case if_not_P [OF answer(1)] if_not_P [OF answer(2)]
      by (rule session_save [where app = "[assistant_message (if trim ?s = [] then empty_reply i else ?s)]"])
        (simp_all add: appended_def push_session_def)
  qed
qed

lemma continue_or_stop_session: "session_step (ls_session st) (continue_or_stop env inp i r st)"
proof -
  let ?t = "sanitize_visible_response (response_text r)"
  show ?thesis
  proof (cases "max_continuations \<le> ls_max_tokens st + 1")
    case True
    then show ?thesis
      by (auto simp: continue_or_stop_def Let_def state_updates appended_def
          intro!: exI [of _ "[assistant_message (if trim ?t = [] then partial_reply else ?t)]"])
  next
    case False
    then show ?thesis
      by (auto simp: continue_or_stop_def Let_def state_updates
          intro!: exI [of _ "(if trim ?t = [] then [] else [assistant_message ?t]) @ [user_message ''Please continue.'']"])
  qed
qed

lemma use_tools_session:
  assumes "keeps_ids env" "honest_response r" "resp_stop_reason r = StopToolUse"
  shows "session_step (ls_session st) (use_tools env inp budget r st)"
proof -
  let ?m = "assistant_blocks (resp_content r)"
  have m: "msg_uses ?m = map call_id (resp_tool_calls r)" "msg_results ?m = []"
    using assms(2,3) by (simp_all add: honest_response_def assistant_blocks_def msg_uses_def msg_results_def)
  obtain res g w where run: "run_calls env inp budget (resp_tool_calls r) (ls_guard st) (ls_world st) = (res, g, w)"
    by (metis prod_cases3)
  show ?thesis
  proof (cases res)
    case (Inl s)
    then show ?thesis using run m
      by (cases s) (auto simp: use_tools_def state_updates Let_def appended_def intro!: exI [of _ "[?m]"])
  next
    case (Inr bs)
    with run_calls_results [OF assms(1)] run
    have "block_results bs = map call_id (resp_tool_calls r)" "block_uses bs = []" by auto
    then have "paired [?m, result_message bs]"
      using m by (simp add: paired_def result_message_def msg_uses_def msg_results_def)
    then show ?thesis using run Inr
      by (auto simp: use_tools_def state_updates Let_def intro!: exI [of _ "[?m, result_message bs]"])
  qed
qed

lemma iterate_session:
  assumes "keeps_ids env" "honest_driver (le_driver env)"
  shows "session_step (ls_session st) (iterate env inp i st)"
proof (cases "prepare_messages env inp (ls_messages st)")
  case (Inl e)
  then show ?thesis by (simp add: iterate_def appended_def exI [of _ "[]"])
next
  case (Inr p)
  obtain ms stage where p: "p = (ms, stage)" by (cases p)
  let ?st1 = "st\<lparr>ls_messages := ms, ls_world := announce env stage (ls_world st)\<rparr>"
  obtain res cd w where call: "call_model env (make_request inp ms) (ls_world ?st1) = (res, cd, w)"
    by (metis prod_cases3)
  show ?thesis
  proof (cases res)
    case (Inl e)
    then show ?thesis using Inr p call by (simp add: iterate_def appended_def exI [of _ "[]"])
  next
    case res: (Inr r)
    let ?st2 = "?st1\<lparr>ls_world := w, ls_usage := add_usage (ls_usage ?st1) (resp_usage r)\<rparr>"
    let ?r = "promote_text_calls env inp w r"
    have honest: "honest_response ?r"
      using call_model_honest [OF assms(2)] call res by (intro promoted_honest) blast
    have "session_step (ls_session ?st2) (handle_response env inp i ?r ?st2)"
      using finish_turn_session [of ?st2 env inp i ?r] continue_or_stop_session [of ?st2 env inp i ?r]
        use_tools_session [OF assms(1) honest, of ?st2]
      by (cases "resp_stop_reason ?r") (simp_all add: handle_response_def)
    then show ?thesis using Inr p call res by (simp add: iterate_def)
  qed
qed

lemma paired_append: "paired a \<Longrightarrow> paired b \<Longrightarrow> paired (a @ b)"
  by (simp add: paired_def)

lemma loop_from_session:
  assumes "keeps_ids env" "honest_driver (le_driver env)"
  shows "loop_from env inp left i st = (res, st') \<Longrightarrow>
    \<exists>app. appended (ls_session st) app (ls_session st') \<and> prefix (results app) (uses app)
      \<and> (case res of Inl (CircuitBroken _) \<Rightarrow> True | Inl (LoopPanicked _) \<Rightarrow> True | _ \<Rightarrow> paired app)"
proof (induction left arbitrary: i st)
  case 0
  then show ?case
    by (auto simp: on_world_def save_quietly_def appended_def intro!: exI [of _ "[]"])
next
  case (Suc left)
  note step = iterate_session [OF assms, of st inp i]
  show ?case
  proof (cases "iterate env inp i st")
    case (Continue st1)
    with step obtain a where a: "ls_session st1 = ls_session st @ a" "paired a" by auto
    from Suc.prems Continue have "loop_from env inp left (Suc i) st1 = (res, st')" by simp
    from Suc.IH [OF this] obtain b where b: "appended (ls_session st1) b (ls_session st')"
      "prefix (results b) (uses b)"
      "case res of Inl (CircuitBroken _) \<Rightarrow> True | Inl (LoopPanicked _) \<Rightarrow> True | _ \<Rightarrow> paired b" by blast
    show ?thesis
      using a b by (intro exI [of _ "a @ b"])
        (auto simp: appended_def paired_def split: sum.splits loop_error.splits)
  next
    case (Return r st1)
    with Suc.prems step show ?thesis by (auto simp: paired_def)
  next
    case (Fail e st1)
    with Suc.prems step show ?thesis by auto
  qed
qed


section \<open>Requests\<close>

lemma put_blocks_ids: "block_uses (fst (put_blocks bs cs)) = block_uses bs \<and> block_results (fst (put_blocks bs cs)) = block_results bs"
  by (induction bs cs rule: put_blocks.induct) (auto simp: split_def Let_def)

lemma put_results_ids:
  "uses (put_results ms cs) = uses ms \<and> assistant_uses (put_results ms cs) = assistant_uses ms
   \<and> results (put_results ms cs) = results ms \<and> map role (put_results ms cs) = map role ms"
proof (induction ms arbitrary: cs)
  case (Cons m ms)
  show ?case
  proof (cases "content m")
    case (TextContent t)
    with Cons show ?thesis by (simp add: assistant_uses_def)
  next
    case (Blocks bs)
    with Cons [of "snd (put_blocks bs cs)"] put_blocks_ids [of bs cs] show ?thesis
      by (simp add: split_def Let_def msg_uses_def msg_results_def assistant_uses_def)
  qed
qed simp

lemma alternates_conv: "alternates ms = successively (\<noteq>) (map role ms)"
  by (induction ms rule: alternates.induct) auto

lemma alternates_roles: "map role ms = map role ns \<Longrightarrow> alternates ms = alternates ns"
  by (simp add: alternates_conv)

lemma prepare_ids:
  assumes "prepare_messages env inp ms = Ok (ms', NoRecovery)"
  shows "uses ms' = uses ms \<and> assistant_uses ms' = assistant_uses ms \<and> results ms' = results ms
    \<and> map role ms' = map role ms"
proof -
  obtain ms1 n where r: "recover_from_overflow (to_json (le_guard env)) ms (in_system inp) (in_tools inp) (ctx_window inp)
      = Ok (ms1, NoRecovery)" and g: "apply_context_guard ms1 (new_budget (ctx_window inp)) = Ok (ms', n)"
    using assms by (auto simp: prepare_messages_def map_sum_Inr split: sum.splits)
  have "ms1 = ms"
    using r by (auto simp: recover_from_overflow_def Let_def split: if_splits dest!: stage2_facts)
  with g put_results_ids show ?thesis by (auto simp: apply_context_guard_def map_sum_Inr)
qed

text \<open>
  C18: The first request is one a model's API accepts, whatever is stored in the session, when the
  repaired history is not longer than twenty messages and nothing overflows: roles alternate, every
  result answers a tool use and every use the assistant made has its result.
\<close>

theorem first_request_well_formed:
  assumes "length (validate_and_repair (filter (\<lambda>m. role m \<noteq> System) session)) \<le> 20"
    and "prepare_messages env inp (initial_messages session) = Ok (ms, NoRecovery)"
  shows "alternates (req_messages (make_request inp ms))
    \<and> distinct (results (req_messages (make_request inp ms)))
    \<and> set (results (req_messages (make_request inp ms))) \<subseteq> set (uses (req_messages (make_request inp ms)))
    \<and> set (assistant_uses (req_messages (make_request inp ms))) \<subseteq> set (results (req_messages (make_request inp ms)))"
proof -
  let ?h = "validate_and_repair (filter (\<lambda>m. role m \<noteq> System) session)"
  have "initial_messages session = ?h"
    using assms(1) by (simp add: initial_messages_def trim_history_def max_history_messages_def)
  with prepare_ids [OF assms(2)] repair_output_facts [of "filter (\<lambda>m. role m \<noteq> System) session"]
    alternates_roles [of ms ?h]
  show ?thesis by (simp add: make_request_def)
qed

definition chat :: "nat \<Rightarrow> 'j message list" where
  "chat n = concat (replicate n [assistant_message ''Yes.'', user_message ''And?''])"

text \<open>
  Beyond twenty messages the trimming undoes the repair: a history in which every call has its
  result loses the call and keeps the result, which an API rejects.
\<close>

theorem trimming_orphans_results:
  "let ms = user_message ''Read it.'' # assistant_blocks [ToolUse ''t1'' ''file_read'' j]
              # result_message [ToolResult ''t1'' ''text'' False] # chat 9 @ [assistant_message ''Done.'']
   in alternates ms \<and> paired ms \<and> length ms = 22
      \<and> uses (trim_history ms) = [] \<and> results (trim_history ms) = [''t1'']"
  by (simp add: Let_def chat_def eval_nat_numeral assistant_message_def user_message_def assistant_blocks_def
      result_message_def paired_def msg_uses_def msg_results_def trim_history_def max_history_messages_def)

section \<open>Continuations end\<close>

lemma promote_keeps_stop: "resp_stop_reason r = MaxTokens \<Longrightarrow> promote_text_calls env inp w r = r"
  by (simp add: promote_text_calls_def)

definition only_max_tokens :: "('j, 'w) driver \<Rightarrow> bool" where
  "only_max_tokens d \<longleftrightarrow>
     (\<forall>req w. \<exists>r w'. complete d req w = (Ok r, w') \<and> resp_stop_reason r = MaxTokens)"

lemma loop_from_max_tokens:
  assumes "only_max_tokens (le_driver env)" "\<not> le_streaming env"
    and "ls_max_tokens st = i" "i < max_continuations" "max_continuations \<le> i + left"
  shows "\<exists>r st'. loop_from env inp left i st = (Ok r, st') \<and> lr_iterations r = max_continuations
    \<or> (\<exists>p. loop_from env inp left i st = (Err (LoopPanicked p), st'))"
  using assms(3-5)
proof (induction left arbitrary: i st)
  case 0
  then show ?case by simp
next
  case (Suc left)
  show ?case
  proof (cases "prepare_messages env inp (ls_messages st)")
    case (Inl e)
    then show ?thesis by (simp add: iterate_def)
  next
    case (Inr p)
    obtain ms stage where p: "p = (ms, stage)" by (cases p)
    let ?st1 = "st\<lparr>ls_messages := ms, ls_world := announce env stage (ls_world st)\<rparr>"
    obtain r w where r: "complete (le_driver env) (make_request inp ms) (ls_world ?st1) = (Ok r, w)"
      "resp_stop_reason r = MaxTokens"
      using assms(1) unfolding only_max_tokens_def by blast
    have call: "call_model env (make_request inp ms) (ls_world ?st1) = (Ok r, None, w)"
      using r assms(2) by (simp add: call_model_def call_with_retry_def with_breaker_def max_retries_def note_success_def
          eval_nat_numeral)
    let ?st2 = "?st1\<lparr>ls_world := w, ls_usage := add_usage (ls_usage ?st1) (resp_usage r)\<rparr>"
    have it: "iterate env inp i st = continue_or_stop env inp i r ?st2"
      using Inr p call r(2) by (simp add: iterate_def handle_response_def promote_keeps_stop)
    show ?thesis
    proof (cases "Suc i = max_continuations")
      case True
      then show ?thesis using it Suc.prems
        by (simp add: continue_or_stop_def Let_def make_result_def)
    next
      case False
      then obtain st3 where st3: "continue_or_stop env inp i r ?st2 = Continue st3" "ls_max_tokens st3 = Suc i"
        using Suc.prems by (auto simp: continue_or_stop_def Let_def state_updates)
      have "iterate env inp i st = Continue st3" by (simp only: it st3(1))
      with Suc.IH [of st3 "Suc i"] st3(2) False Suc.prems show ?thesis by simp
    qed
  qed
qed

text \<open>
  A model that never finishes does not keep the agent: when every answer is cut off at the token
  limit and five iterations are allowed, the run returns a partial response after exactly five.
\<close>

theorem max_tokens_returns:
  assumes "only_max_tokens (le_driver env)" and "5 \<le> max_iterations inp"
  shows "\<exists>r st. run_agent_loop env cx inp session w = (Ok r, st) \<and> lr_iterations r = 5
    \<or> (\<exists>p. run_agent_loop env cx inp session w = (Err (LoopPanicked p), st))"
proof -
  let ?env = "with_gates cx inp (env\<lparr>le_streaming := False\<rparr>)"
  have "only_max_tokens (le_driver ?env)" "\<not> le_streaming ?env" using assms(1) by (simp_all add: with_gates_def)
  from loop_from_max_tokens [OF this] assms(2) show ?thesis
    unfolding run_agent_loop_def agent_loop_from by (simp add: max_continuations_def)
qed

section \<open>An example\<close>

definition demo_response :: "stop_reason \<Rightarrow> unit completion_response" where
  "demo_response reason = \<lparr>resp_content = [Text ''So far'', ToolUse ''t1'' ''file_read'' ()], resp_stop_reason = reason,
     resp_tool_calls = [\<lparr>call_id = ''t1'', call_name = ''file_read'', call_input = ()\<rparr>],
     resp_usage = \<lparr>input_tokens = 9, output_tokens = 7\<rparr>\<rparr>"

definition demo_env :: "stop_reason \<Rightarrow> (unit, unit) loop_env" where
  "demo_env reason =
     \<lparr>le_env = \<lparr>clock = (\<lambda>_. 0), sleep_ms = (\<lambda>_ w. w)\<rparr>,
      le_driver = \<lparr>complete = (\<lambda>_ w. (Ok (demo_response reason), w)), stream = (\<lambda>_ w. (Ok (demo_response reason), w))\<rparr>,
      le_guard = \<lparr>to_json = (\<lambda>_. ''{}''), command_field = (\<lambda>_. None), sha256_hex = (\<lambda>s. s)\<rparr>,
      le_parse = (\<lambda>_. None), le_uuid = (\<lambda>_ n. show_nat n),
      le_execute = (\<lambda>_ c w. Ok (\<lparr>result_use_id = call_id c, result_content = ''text'', result_is_error = False\<rparr>, w)),
      le_timeout = (\<lambda>_ _. None), le_hooks = new_hooks, le_phase = (\<lambda>_ w. w), le_emit = (\<lambda>_ w. w),
      le_save = (\<lambda>_ w. (Ok (), w)), le_embedder = None, le_recall = (\<lambda>_ _ _ w. (Ok [''User likes tea.''], w)),
      le_remember = (\<lambda>_ _ w. w), le_streaming = False\<rparr>"

definition demo_input :: "unit loop_input" where
  "demo_input = \<lparr>in_agent_name = ''scout'', in_agent_id = ''a7'', in_model = default_model, in_max_iterations = None,
     in_system = [], in_tools = [], in_window = Some 100, in_user_message = ''hi''\<rparr>"

lemma demo_honest: "honest_driver (le_driver (demo_env reason))"
  by (auto simp: honest_driver_def demo_env_def honest_response_def demo_response_def)

lemma agent_loop_bounds_witness:
  "asked (trace (snd (agent_loop (observed (demo_env StopToolUse)) demo_input [] ((), [])))) \<le> 4 * 50"
  using agent_loop_bounds [of "demo_env StopToolUse" demo_input "[]" "()"
      "fst (agent_loop (observed (demo_env StopToolUse)) demo_input [] ((), []))"
      "snd (agent_loop (observed (demo_env StopToolUse)) demo_input [] ((), []))"]
  by (simp add: max_iterations_def demo_input_def default_max_iterations_def)


lemma first_request_well_formed_witness:
  "alternates (req_messages (make_request demo_input [user_message ''hi'' :: unit message]))"
proof -
  let ?s = "[user_message ''hi'' :: unit message]"
  have v: "validate_and_repair ?s = ?s" by code_simp
  have f: "filter (\<lambda>m. role m \<noteq> System) ?s = ?s" by (simp add: user_message_def)
  have i: "initial_messages ?s = ?s"
    unfolding initial_messages_def f v by (simp add: trim_history_def max_history_messages_def)
  have sc: "scale 100 f64_070 = 70" "total_tool_headroom_chars (new_budget 100) = 150"
    by (simp_all add: scale_eval total_tool_headroom_chars_def)
  have "recover_from_overflow (to_json (le_guard (demo_env EndTurn))) ?s (in_system demo_input) (in_tools demo_input)
      (ctx_window demo_input) = Ok (?s, NoRecovery)"
    by (simp add: recover_from_overflow_def demo_input_def ctx_window_def estimate_token_count_def tool_chars_def
        user_message_def sc Let_def)
  moreover have "apply_context_guard ?s (new_budget (ctx_window demo_input)) = Ok (?s, 0)"
    by (simp add: apply_context_guard_def guard_results_def result_contents_def user_message_def ctx_window_def
        demo_input_def sc)
  ultimately have p: "prepare_messages (demo_env EndTurn) demo_input (initial_messages ?s) = Ok (?s, NoRecovery)"
    by (simp add: prepare_messages_def i)
  have "length (validate_and_repair (filter (\<lambda>m. role m \<noteq> System) ?s)) \<le> 20" unfolding f v by simp
  from first_request_well_formed [OF this p] show ?thesis by simp
qed

lemma max_tokens_returns_witness:
  "\<exists>r st. run_agent_loop (demo_env MaxTokens) demo_context demo_input [] () = (Ok r, st) \<and> lr_iterations r = 5
    \<or> (\<exists>p. run_agent_loop (demo_env MaxTokens) demo_context demo_input [] () = (Err (LoopPanicked p), st))"
  by (rule max_tokens_returns)
    (simp_all add: only_max_tokens_def demo_env_def demo_response_def max_iterations_def demo_input_def
      default_max_iterations_def)

end
