(* ===== verification/Filesystem.thy ===== *)
theory Filesystem
  imports Str_Utils "HOL-Library.AList" "HOL-Library.List_Lexorder" "HOL-Library.Char_ord"
begin

text \<open>
  What the file tools use of \<open>std::path\<close> and of a POSIX file system: paths as components, resolution
  with symbolic links, and the system calls behind \<open>std::fs\<close>. Permissions, devices and hard links are
  left out, and the errors are the kinds the code can tell apart or reports.
\<close>

section \<open>Paths\<close>

text \<open>
  A path is absolute or not, and the pieces between the slashes. A trailing slash counts as a last
  piece \<open>.\<close>, as POSIX has it: only a directory can be named like that.
\<close>

record path =
  absolute :: bool
  pieces :: "string list"

definition path_of :: "string \<Rightarrow> path" where
  "path_of s =
     \<lparr>absolute = prefix ''/'' s,
      pieces = filter (\<lambda>c. c \<noteq> []) (split_on (CHR ''/'') s) @ (if suffix ''/'' s then [''.''] else [])\<rparr>"

text \<open>\<open>Path::components\<close>, without the root: a dot is kept only at the start of a relative path.\<close>

definition components :: "path \<Rightarrow> string list" where
  "components p =
     (let named = filter (\<lambda>c. c \<noteq> ''.'') (pieces p)
      in if \<not> absolute p \<and> pieces p \<noteq> [] \<and> hd (pieces p) = ''.'' then ''.'' # named else named)"

definition path_join :: "path \<Rightarrow> path \<Rightarrow> path" where
  "path_join r p =
     (if absolute p then p
      else \<lparr>absolute = absolute r,
            pieces = pieces r @ (if pieces p = [] \<and> pieces r \<noteq> [] then [''.''] else pieces p)\<rparr>)"

definition path_parent :: "path \<Rightarrow> path option" where
  "path_parent p =
     (if components p = [] then None
      else Some \<lparr>absolute = absolute p, pieces = butlast (components p)\<rparr>)"

definition path_file_name :: "path \<Rightarrow> string option" where
  "path_file_name p =
     (let cs = components p
      in if cs = [] \<or> last cs = ''.'' \<or> last cs = ''..'' then None else Some (last cs))"

section \<open>Resolution\<close>

datatype node = Directory | Regular string | Link string

text \<open>The entries below the root, by their components, and the working directory.\<close>

record filesystem =
  nodes :: "(string list \<times> node) list"
  cwd :: "string list"

datatype io_error = NotFound | NotADirectory | IsADirectory | AlreadyExists | TooManyLinks | InvalidData

definition node_at :: "filesystem \<Rightarrow> string list \<Rightarrow> node option" where
  "node_at fs q = map_of (nodes fs) q"

definition is_dir :: "filesystem \<Rightarrow> string list \<Rightarrow> bool" where
  "is_dir fs q \<longleftrightarrow> q = [] \<or> node_at fs q = Some Directory"

definition put_node :: "filesystem \<Rightarrow> string list \<Rightarrow> node \<Rightarrow> filesystem" where
  "put_node fs q n = fs\<lparr>nodes := AList.update q n (nodes fs)\<rparr>"

definition drop_node :: "filesystem \<Rightarrow> string list \<Rightarrow> filesystem" where
  "drop_node fs q = fs\<lparr>nodes := AList.delete q (nodes fs)\<rparr>"

lemma node_at_put [simp]: "node_at (put_node fs q n) = (node_at fs)(q \<mapsto> n)"
  by (rule ext) (simp add: node_at_def put_node_def update_conv')

lemma node_at_drop [simp]: "node_at (drop_node fs q) = (node_at fs)(q := None)"
  by (rule ext) (simp add: node_at_def drop_node_def delete_conv')

lemma cwd_put_drop [simp]: "cwd (put_node fs q n) = cwd fs" "cwd (drop_node fs q) = cwd fs"
  by (simp_all add: put_node_def drop_node_def)

text \<open>A place is an entry, or a free name in a directory.\<close>

datatype place = Found "string list" | Absent "string list"

text \<open>The walk of the kernel: every link is expanded where it stands, at most \<open>links\<close> of them.\<close>

function walk :: "filesystem \<Rightarrow> nat \<Rightarrow> string list \<Rightarrow> string list \<Rightarrow> (place, io_error) result" where
  "walk fs links cur [] = Ok (Found cur)"
| "walk fs links cur (c # cs) =
     (if \<not> is_dir fs cur then Err NotADirectory
      else if c = ''.'' then walk fs links cur cs
      else if c = ''..'' then walk fs links (butlast cur) cs
      else case node_at fs (cur @ [c]) of
             None \<Rightarrow> if cs = [] then Ok (Absent (cur @ [c])) else Err NotFound
           | Some (Link target) \<Rightarrow>
               if links = 0 then Err TooManyLinks
               else walk fs (links - 1) (if absolute (path_of target) then [] else cur) (pieces (path_of target) @ cs)
           | Some _ \<Rightarrow> walk fs links (cur @ [c]) cs)"
  by pat_completeness auto
termination
  by (relation "measures [\<lambda>(fs, links, cur, cs). links, \<lambda>(fs, links, cur, cs). length cs]") auto

definition max_links :: nat where
  "max_links = 40"

definition locate :: "filesystem \<Rightarrow> path \<Rightarrow> (place, io_error) result" where
  "locate fs p =
     (if \<not> absolute p \<and> pieces p = [] then Err NotFound
      else walk fs max_links (if absolute p then [] else cwd fs) (pieces p))"

definition canonicalize :: "filesystem \<Rightarrow> path \<Rightarrow> (string list, io_error) result" where
  "canonicalize fs p =
     (case locate fs p of Inl e \<Rightarrow> Err e | Inr (Absent _) \<Rightarrow> Err NotFound | Inr (Found q) \<Rightarrow> Ok q)"

definition path_exists :: "filesystem \<Rightarrow> path \<Rightarrow> bool" where
  "path_exists fs p \<longleftrightarrow> is_ok (canonicalize fs p)"

definition path_is_dir :: "filesystem \<Rightarrow> path \<Rightarrow> bool" where
  "path_is_dir fs p \<longleftrightarrow> (case canonicalize fs p of Inl _ \<Rightarrow> False | Inr q \<Rightarrow> is_dir fs q)"

text \<open>The path of an entry.\<close>

definition entry_path :: "string list \<Rightarrow> path" where
  "entry_path q = \<lparr>absolute = True, pieces = q\<rparr>"

section \<open>Files and directories\<close>

text \<open>UTF-8 without overlong forms and surrogates, which \<open>read_to_string\<close> insists on.\<close>

fun utf8_ok :: "nat list \<Rightarrow> bool" where
  "utf8_ok [] = True"
| "utf8_ok (a # s) =
     (if a < 0x80 then utf8_ok s
      else case s of
        b # s1 \<Rightarrow>
          if 0xC2 \<le> a \<and> a < 0xE0 then b div 64 = 2 \<and> utf8_ok s1
          else (case s1 of
            c # s2 \<Rightarrow>
              if 0xE0 \<le> a \<and> a < 0xF0
              then b div 64 = 2 \<and> c div 64 = 2 \<and> (a = 0xE0 \<longrightarrow> 0xA0 \<le> b) \<and> (a = 0xED \<longrightarrow> b < 0xA0) \<and> utf8_ok s2
              else (case s2 of
                d # s3 \<Rightarrow>
                  0xF0 \<le> a \<and> a < 0xF5 \<and> b div 64 = 2 \<and> c div 64 = 2 \<and> d div 64 = 2
                  \<and> (a = 0xF0 \<longrightarrow> 0x90 \<le> b) \<and> (a = 0xF4 \<longrightarrow> b < 0x90) \<and> utf8_ok s3
              | [] \<Rightarrow> False)
          | [] \<Rightarrow> False)
      | [] \<Rightarrow> False)"

definition read_to_string :: "filesystem \<Rightarrow> path \<Rightarrow> (string, io_error) result" where
  "read_to_string fs p =
     (case canonicalize fs p of
        Inl e \<Rightarrow> Err e
      | Inr q \<Rightarrow>
          (case node_at fs q of
             Some (Regular s) \<Rightarrow> if utf8_ok (map of_char s) then Ok s else Err InvalidData
           | _ \<Rightarrow> Err IsADirectory))"

text \<open>\<open>fs::write\<close> creates or replaces the file, through links.\<close>

definition write_file :: "filesystem \<Rightarrow> path \<Rightarrow> string \<Rightarrow> (filesystem, io_error) result" where
  "write_file fs p s =
     (case locate fs p of
        Inl e \<Rightarrow> Err e
      | Inr (Absent q) \<Rightarrow> Ok (put_node fs q (Regular s))
      | Inr (Found q) \<Rightarrow> if is_dir fs q then Err IsADirectory else Ok (put_node fs q (Regular s)))"

text \<open>The directory that holds the last component, and the name there; the link itself is not followed.\<close>

definition entry_of :: "filesystem \<Rightarrow> path \<Rightarrow> (string list, io_error) result" where
  "entry_of fs p =
     (case (path_parent p, path_file_name p) of
        (Some d, Some name) \<Rightarrow>
          (case canonicalize fs (if \<not> absolute d \<and> pieces d = [] then \<lparr>absolute = False, pieces = [''.'']\<rparr> else d) of
             Inl e \<Rightarrow> Err e
           | Inr q \<Rightarrow> if is_dir fs q then Ok (q @ [name]) else Err NotADirectory)
      | _ \<Rightarrow> Err IsADirectory)"

definition remove_file :: "filesystem \<Rightarrow> path \<Rightarrow> (filesystem, io_error) result" where
  "remove_file fs p =
     (case entry_of fs p of
        Inl e \<Rightarrow> Err e
      | Inr q \<Rightarrow>
          (case node_at fs q of
             None \<Rightarrow> Err NotFound
           | Some Directory \<Rightarrow> Err IsADirectory
           | Some _ \<Rightarrow> if last (pieces p) = ''.'' then Err NotADirectory else Ok (drop_node fs q)))"

definition make_dir :: "filesystem \<Rightarrow> path \<Rightarrow> (filesystem, io_error) result" where
  "make_dir fs p =
     (case entry_of fs p of
        Inl IsADirectory \<Rightarrow> Err AlreadyExists
      | Inl e \<Rightarrow> Err e
      | Inr q \<Rightarrow> if node_at fs q = None then Ok (put_node fs q Directory) else Err AlreadyExists)"

text \<open>
  \<open>fs::create_dir_all\<close>: the parents are made when the directory cannot be made for want of them; what
  was made before a failure stays.
\<close>

function create_dirs :: "filesystem \<Rightarrow> bool \<Rightarrow> string list \<Rightarrow> (unit, io_error) result \<times> filesystem" where
  "create_dirs fs ab [] = (Ok (), fs)"
| "create_dirs fs ab (c # cs) =
     (let p = \<lparr>absolute = ab, pieces = c # cs\<rparr>
      in case make_dir fs p of
           Inr fs1 \<Rightarrow> (Ok (), fs1)
         | Inl NotFound \<Rightarrow>
             (case create_dirs fs ab (butlast (c # cs)) of
                (Inl e, fs1) \<Rightarrow> (Err e, fs1)
              | (Inr _, fs1) \<Rightarrow>
                  (case make_dir fs1 p of
                     Inr fs2 \<Rightarrow> (Ok (), fs2)
                   | Inl e \<Rightarrow> (if path_is_dir fs1 p then Ok () else Err e, fs1)))
         | Inl e \<Rightarrow> (if path_is_dir fs p then Ok () else Err e, fs))"
  by pat_completeness auto
termination
  by (relation "measure (\<lambda>(fs, ab, cs). length cs)") auto

definition create_dir_all :: "filesystem \<Rightarrow> path \<Rightarrow> (unit, io_error) result \<times> filesystem" where
  "create_dir_all fs p = create_dirs fs (absolute p) (components p)"

text \<open>The entries of a directory, each with whether it is a directory itself (a link is not).\<close>

definition read_dir :: "filesystem \<Rightarrow> path \<Rightarrow> ((string \<times> bool) list, io_error) result" where
  "read_dir fs p =
     (case canonicalize fs p of
        Inl e \<Rightarrow> Err e
      | Inr q \<Rightarrow>
          if is_dir fs q
          then Ok (map (\<lambda>e. (last e, is_dir fs e))
                 (filter (\<lambda>e. e \<noteq> [] \<and> butlast e = q) (remdups (map fst (nodes fs)))))
          else Err NotADirectory)"

end
