(* ===== verification/Workspace.thy ===== *)
theory Workspace
  imports Filesystem
begin

text \<open>
  The confinement of file tools to a workspace: \<open>clawreform-runtime/src/workspace_sandbox.rs\<close> and the
  file tools of \<open>tool_runner.rs\<close>, over the file system of theory \<open>Filesystem\<close>.
\<close>

section \<open>Resolution in the sandbox\<close>

datatype sandbox_error =
    TraversalDenied
  | RootUnresolved io_error
  | PathUnresolved io_error
  | NoParentDirectory
  | NoFilename
  | ParentUnresolved io_error
  | OutsideWorkspace string

definition canonical_candidate :: "filesystem \<Rightarrow> path \<Rightarrow> (string list, sandbox_error) result" where
  "canonical_candidate fs candidate =
     (if path_exists fs candidate
      then map_sum PathUnresolved id (canonicalize fs candidate)
      else (case path_parent candidate of
              None \<Rightarrow> Err NoParentDirectory
            | Some parent \<Rightarrow>
                (case path_file_name candidate of
                   None \<Rightarrow> Err NoFilename
                 | Some filename \<Rightarrow>
                     (case canonicalize fs parent of
                        Inl e \<Rightarrow> Err (ParentUnresolved e)
                      | Inr canon_parent \<Rightarrow> Ok (canon_parent @ [filename])))))"

definition resolve_sandbox_path :: "filesystem \<Rightarrow> string \<Rightarrow> path \<Rightarrow> (string list, sandbox_error) result" where
  "resolve_sandbox_path fs user_path workspace_root =
     (let p = path_of user_path
      in if ''..'' \<in> set (components p) then Err TraversalDenied
         else let candidate = (if absolute p then p else path_join workspace_root p)
              in case canonicalize fs workspace_root of
                   Inl e \<Rightarrow> Err (RootUnresolved e)
                 | Inr canon_root \<Rightarrow>
                     (case canonical_candidate fs candidate of
                        Inl e \<Rightarrow> Err e
                      | Inr q \<Rightarrow> if prefix canon_root q then Ok q else Err (OutsideWorkspace user_path)))"

section \<open>The file tools\<close>

definition validate_path :: "string \<Rightarrow> (string, sandbox_error) result" where
  "validate_path s = (if ''..'' \<in> set (components (path_of s)) then Err TraversalDenied else Ok s)"

definition resolve_file_path :: "filesystem \<Rightarrow> string \<Rightarrow> path option \<Rightarrow> (path, sandbox_error) result" where
  "resolve_file_path fs raw_path workspace_root =
     (case workspace_root of
        Some r \<Rightarrow> map_sum id entry_path (resolve_sandbox_path fs raw_path r)
      | None \<Rightarrow> map_sum id path_of (validate_path raw_path))"

datatype file_error =
    MissingParameter string
  | Refused sandbox_error
  | ReadFailed io_error
  | CreateFailed io_error
  | WriteFailed io_error
  | ListFailed io_error

text \<open>A parameter of the JSON input is what \<open>as_str\<close> gives for it.\<close>

definition tool_file_read :: "filesystem \<Rightarrow> string option \<Rightarrow> path option \<Rightarrow> (string, file_error) result" where
  "tool_file_read fs path_param workspace_root =
     (case path_param of
        None \<Rightarrow> Err (MissingParameter ''path'')
      | Some raw_path \<Rightarrow>
          (case resolve_file_path fs raw_path workspace_root of
             Inl e \<Rightarrow> Err (Refused e)
           | Inr p \<Rightarrow> map_sum ReadFailed id (read_to_string fs p)))"

definition make_parent :: "filesystem \<Rightarrow> path \<Rightarrow> (unit, io_error) result \<times> filesystem" where
  "make_parent fs p = (case path_parent p of None \<Rightarrow> (Ok (), fs) | Some d \<Rightarrow> create_dir_all fs d)"

definition store_file :: "filesystem \<Rightarrow> path \<Rightarrow> string \<Rightarrow> (unit, file_error) result \<times> filesystem" where
  "store_file fs p s =
     (case make_parent fs p of
        (Inl e, fs1) \<Rightarrow> (Err (CreateFailed e), fs1)
      | (Inr _, fs1) \<Rightarrow>
          (case write_file fs1 p s of
             Inl e \<Rightarrow> (Err (WriteFailed e), fs1)
           | Inr fs2 \<Rightarrow> (Ok (), fs2)))"

text \<open>The tool answers with the number of bytes and the path.\<close>

definition tool_file_write ::
  "filesystem \<Rightarrow> string option \<Rightarrow> string option \<Rightarrow> path option \<Rightarrow> (nat \<times> path, file_error) result \<times> filesystem" where
  "tool_file_write fs path_param content_param workspace_root =
     (case path_param of
        None \<Rightarrow> (Err (MissingParameter ''path''), fs)
      | Some raw_path \<Rightarrow>
          (case resolve_file_path fs raw_path workspace_root of
             Inl e \<Rightarrow> (Err (Refused e), fs)
           | Inr p \<Rightarrow>
               (case content_param of
                  None \<Rightarrow> (Err (MissingParameter ''content''), fs)
                | Some s \<Rightarrow> map_prod (map_sum id (\<lambda>_. (length s, p))) id (store_file fs p s))))"

definition tool_file_list :: "filesystem \<Rightarrow> string option \<Rightarrow> path option \<Rightarrow> (string list, file_error) result" where
  "tool_file_list fs path_param workspace_root =
     (case path_param of
        None \<Rightarrow> Err (MissingParameter ''path'')
      | Some raw_path \<Rightarrow>
          (case resolve_file_path fs raw_path workspace_root of
             Inl e \<Rightarrow> Err (Refused e)
           | Inr p \<Rightarrow>
               map_sum ListFailed
                 (\<lambda>entries. sort (map (\<lambda>(name, dir). name @ (if dir then ''/'' else [])) entries))
                 (read_dir fs p)))"

section \<open>Well-formed file systems\<close>

text \<open>Every entry stands in a directory and has a name.\<close>

definition fs_ok :: "filesystem \<Rightarrow> bool" where
  "fs_ok fs \<longleftrightarrow>
     (\<forall>q n. node_at fs q = Some n \<longrightarrow> q \<noteq> [] \<and> is_dir fs (butlast q) \<and> last q \<notin> {''.'', ''..''})"

text \<open>An entry that is no link, as \<open>canonicalize\<close> returns them.\<close>

definition canonical :: "filesystem \<Rightarrow> string list \<Rightarrow> bool" where
  "canonical fs q \<longleftrightarrow> q = [] \<or> (\<exists>n. node_at fs q = Some n \<and> (\<forall>t. n \<noteq> Link t))"

lemma is_dir_canonical: "is_dir fs q \<Longrightarrow> canonical fs q"
  by (auto simp: is_dir_def canonical_def)

lemma canonical_parent: "fs_ok fs \<Longrightarrow> canonical fs (q @ [c]) \<Longrightarrow> is_dir fs q \<and> c \<noteq> ''.'' \<and> c \<noteq> ''..''"
  by (fastforce simp: fs_ok_def canonical_def)

lemma canonical_dirs: "fs_ok fs \<Longrightarrow> canonical fs (q @ r) \<Longrightarrow> r \<noteq> [] \<Longrightarrow> is_dir fs q"
proof (induction r rule: rev_induct)
  case (snoc c r)
  then have "is_dir fs (q @ r)" using canonical_parent [of fs "q @ r" c] by simp
  with snoc show ?case by (cases "r = []") (auto dest: is_dir_canonical)
qed simp

lemma walk_through:
  "fs_ok fs \<Longrightarrow> canonical fs (cur @ cs) \<Longrightarrow> walk fs links cur (cs @ ds) = walk fs links (cur @ cs) ds"
proof (induction cs arbitrary: cur)
  case (Cons c cs)
  have d: "is_dir fs cur" using canonical_dirs [OF Cons.prems] by simp
  have c: "canonical fs (cur @ [c])"
    using canonical_dirs [of fs "cur @ [c]" cs] Cons.prems by (cases "cs = []") (auto dest: is_dir_canonical)
  with d canonical_parent [OF Cons.prems(1) this] Cons.IH [of "cur @ [c]"] Cons.prems
  show ?case by (auto simp: canonical_def split: node.split)
qed simp

lemma locate_canonical: "fs_ok fs \<Longrightarrow> canonical fs q \<Longrightarrow> locate fs (entry_path q) = Ok (Found q)"
  using walk_through [of fs "[]" q max_links "[]"] by (simp add: locate_def entry_path_def)

text \<open>What the walk finds is canonical, and a free name stands in a directory.\<close>

fun place_ok :: "filesystem \<Rightarrow> place \<Rightarrow> bool" where
  "place_ok fs (Found q) = canonical fs q"
| "place_ok fs (Absent q) = (q \<noteq> [] \<and> node_at fs q = None \<and> is_dir fs (butlast q))"

lemma canonical_butlast: "fs_ok fs \<Longrightarrow> canonical fs q \<Longrightarrow> canonical fs (butlast q)"
  by (cases q rule: rev_cases) (auto dest: canonical_parent is_dir_canonical)

lemma walk_place: "fs_ok fs \<Longrightarrow> canonical fs cur \<Longrightarrow> walk fs links cur cs = Ok pl \<Longrightarrow> place_ok fs pl"
proof (induction fs links cur cs rule: walk.induct)
  case (2 fs links cur c cs)
  have root: "canonical fs []" by (simp add: canonical_def)
  from 2 show ?case
    by (auto split: if_splits option.splits node.splits simp: canonical_butlast root)
      (auto simp: canonical_def)
qed auto

lemma canonicalize_canonical:
  "fs_ok fs \<Longrightarrow> canonical fs (cwd fs) \<Longrightarrow> canonicalize fs p = Ok q \<Longrightarrow> canonical fs q"
  using walk_place [of fs "if absolute p then [] else cwd fs" max_links "pieces p"]
  by (force simp: canonicalize_def locate_def canonical_def [of fs "[]"] split: if_splits sum.splits place.splits)

section \<open>Confinement\<close>

definition links_free :: "string list \<Rightarrow> filesystem \<Rightarrow> bool" where
  "links_free r fs \<longleftrightarrow> (\<forall>q t. prefix r q \<longrightarrow> node_at fs q \<noteq> Some (Link t))"

definition changes_within :: "string list \<Rightarrow> filesystem \<Rightarrow> filesystem \<Rightarrow> bool" where
  "changes_within r fs fs' \<longleftrightarrow> cwd fs' = cwd fs \<and> (\<forall>q. \<not> prefix r q \<longrightarrow> node_at fs' q = node_at fs q)"

text \<open>What the sandbox lets through: a name in a directory, below the root.\<close>

definition named_entry :: "filesystem \<Rightarrow> string list \<Rightarrow> bool" where
  "named_entry fs q \<longleftrightarrow> canonical fs q \<or> (q \<noteq> [] \<and> canonical fs (butlast q) \<and> last q \<notin> {''.'', ''..''})"

lemma sandbox_facts:
  assumes "fs_ok fs" "canonical fs (cwd fs)" "resolve_sandbox_path fs user ws = Ok q"
  shows "\<exists>r. canonicalize fs ws = Ok r \<and> prefix r q \<and> named_entry fs q"
  using assms(3) canonicalize_canonical [OF assms(1,2)]
  by (fastforce simp: resolve_sandbox_path_def canonical_candidate_def named_entry_def Let_def map_sum_Inr
      path_file_name_def split: if_splits sum.splits option.splits)

lemma locate_named:
  assumes "fs_ok fs" "named_entry fs q" "\<And>t. node_at fs q \<noteq> Some (Link t)"
  shows "locate fs (entry_path q) \<in> {Ok (Found q), Ok (Absent q), Err NotADirectory}
    \<and> (locate fs (entry_path q) = Ok (Found q) \<longrightarrow> canonical fs q)
    \<and> (locate fs (entry_path q) = Ok (Absent q) \<longrightarrow> is_dir fs (butlast q) \<and> q \<noteq> [] \<and> last q \<notin> {''.'', ''..''}
         \<and> node_at fs q = None)"
proof (cases "canonical fs q")
  case True
  with locate_canonical [OF assms(1)] show ?thesis by simp
next
  case False
  with assms(2) obtain d f where q: "q = d @ [f]" "canonical fs d" "f \<noteq> ''.''" "f \<noteq> ''..''"
    by (cases q rule: rev_cases) (auto simp: named_entry_def)
  have "locate fs (entry_path q) = walk fs max_links d [f]"
    using walk_through [of fs "[]" d max_links "[f]"] assms(1) q by (simp add: locate_def entry_path_def)
  with q assms(3) show ?thesis by (auto simp: canonical_def split: option.split node.split)
qed

lemma parts_plain: "fs_ok fs \<Longrightarrow> canonical fs q \<Longrightarrow> ''.'' \<notin> set q \<and> ''..'' \<notin> set q"
proof (induction q rule: rev_induct)
  case (snoc c q)
  then have "is_dir fs q" "c \<noteq> ''.''" "c \<noteq> ''..''" using canonical_parent by blast+
  with snoc is_dir_canonical show ?case by simp
qed simp

lemma components_entry: "''.'' \<notin> set q \<Longrightarrow> components (entry_path q) = q"
  by (auto simp: components_def entry_path_def intro: filter_True)

lemma entry_path_simps [simp]: "absolute (entry_path q)" "pieces (entry_path q) = q"
  by (simp_all add: entry_path_def)

lemma path_parent_entry:
  "''.'' \<notin> set q \<Longrightarrow> path_parent (entry_path q) = (if q = [] then None else Some (entry_path (butlast q)))"
  by (simp add: path_parent_def components_entry entry_path_def [of "butlast q"])

lemma create_existing:
  assumes "fs_ok fs" "canonical fs d"
  shows "snd (create_dir_all fs (entry_path d)) = fs"
proof (cases d rule: rev_cases)
  case Nil
  then show ?thesis by (simp add: create_dir_all_def components_def entry_path_def)
next
  case (snoc e c)
  have plain: "''.'' \<notin> set d" "''..'' \<notin> set d" using parts_plain [OF assms] by auto
  have e: "is_dir fs e" using canonical_parent assms snoc by blast
  have "entry_of fs (entry_path d) = Ok d"
    using plain snoc e locate_canonical [OF assms(1) is_dir_canonical [OF e]]
    by (simp add: entry_of_def path_parent_def path_file_name_def components_entry canonicalize_def)
      (auto simp: entry_path_def)
  then have "make_dir fs (entry_path d) = Err AlreadyExists"
    using assms(2) snoc by (auto simp: make_dir_def canonical_def)
  moreover have "d \<noteq> []" using snoc by simp
  then have "create_dirs fs True d =
      (if path_is_dir fs (entry_path d) then Ok () else Err AlreadyExists, fs)"
    if "make_dir fs (entry_path d) = Err AlreadyExists"
    using that by (cases d) (simp_all add: entry_path_def Let_def)
  ultimately show ?thesis
    using plain by (simp add: create_dir_all_def components_entry)
qed

lemma fs_ok_put:
  assumes "fs_ok fs" "\<not> is_dir fs q" "is_dir fs (butlast q)" "q \<noteq> []" "last q \<notin> {''.'', ''..''}"
  shows "fs_ok (put_node fs q (Regular s))"
  using assms by (auto simp: fs_ok_def is_dir_def)

lemma put_frame: "links_free r fs \<Longrightarrow> links_free r (put_node fs q (Regular s))"
  "prefix r q \<Longrightarrow> changes_within r fs (put_node fs q (Regular s))"
  "changes_within r fs fs"
  by (auto simp: links_free_def changes_within_def)

text \<open>The states of a file system in which the tools may work.\<close>

definition confined :: "path \<Rightarrow> string list \<Rightarrow> filesystem \<Rightarrow> bool" where
  "confined ws r fs \<longleftrightarrow> fs_ok fs \<and> is_dir fs (cwd fs) \<and> canonicalize fs ws = Ok r \<and> is_dir fs r
     \<and> links_free r fs"

text \<open>Regular files come and go without a change to where directories are found.\<close>

definition same_tree :: "filesystem \<Rightarrow> filesystem \<Rightarrow> bool" where
  "same_tree fs fs' \<longleftrightarrow>
     cwd fs' = cwd fs \<and> (\<forall>p n. (\<forall>s. n \<noteq> Regular s) \<longrightarrow> (node_at fs' p = Some n \<longleftrightarrow> node_at fs p = Some n))"

lemma same_tree_dir: "same_tree fs fs' \<Longrightarrow> is_dir fs' p = is_dir fs p"
  by (simp add: same_tree_def is_dir_def)

lemma walk_same_tree:
  "walk fs links cur cs = Ok (Found r) \<Longrightarrow> is_dir fs r \<Longrightarrow> same_tree fs fs' \<Longrightarrow> walk fs' links cur cs = Ok (Found r)"
proof (induction fs links cur cs rule: walk.induct)
  case (2 fs links cur c cs)
  note dir = same_tree_dir [OF "2.prems"(3)]
  have d: "is_dir fs cur" using "2.prems"(1) by (simp split: if_splits)
  show ?case
  proof (cases "c = ''.'' \<or> c = ''..''")
    case True
    with 2 d dir show ?thesis by auto
  next
    case False
    with "2.prems"(1) d obtain n where n: "node_at fs (cur @ [c]) = Some n"
      by (auto split: option.splits if_splits)
    show ?thesis
    proof (cases n)
      case Directory
      with "2.prems"(3) n have "node_at fs' (cur @ [c]) = Some Directory" by (auto simp: same_tree_def)
      with 2 d dir False n Directory show ?thesis by simp
    next
      case (Regular s)
      then have "walk fs links (cur @ [c]) cs = Ok (Found r)" using "2.prems"(1) d False n by simp
      with Regular n "2.prems"(2) have False by (cases cs) (auto simp: is_dir_def)
      then show ?thesis ..
    next
      case (Link t)
      with "2.prems"(3) n have "node_at fs' (cur @ [c]) = Some (Link t)" by (auto simp: same_tree_def)
      with 2 d dir False n Link show ?thesis by (simp split: if_splits)
    qed
  qed
qed simp

lemma canonicalize_same_tree:
  assumes "canonicalize fs p = Ok r" "is_dir fs r" "same_tree fs fs'"
  shows "canonicalize fs' p = Ok r"
proof -
  have "locate fs p = Ok (Found r)"
    using assms(1) by (auto simp: canonicalize_def split: sum.splits place.splits)
  with assms walk_same_tree [of fs max_links _ "pieces p" r fs'] have "locate fs' p = Ok (Found r)"
    by (auto simp: locate_def same_tree_def split: if_splits)
  then show ?thesis by (simp add: canonicalize_def)
qed

lemma same_tree_put: "\<not> is_dir fs q \<Longrightarrow> (\<And>t. node_at fs q \<noteq> Some (Link t)) \<Longrightarrow> same_tree fs (put_node fs q (Regular s))"
  by (auto simp: same_tree_def is_dir_def) (metis node.exhaust)+

text \<open>The directory of a name the sandbox lets through exists already.\<close>

lemma parent_made:
  assumes "fs_ok fs" "named_entry fs q"
  shows "snd (make_parent fs (entry_path q)) = fs"
proof -
  have plain: "''.'' \<notin> set q"
  proof (cases "canonical fs q")
    case True
    with parts_plain assms(1) show ?thesis by blast
  next
    case False
    with assms(2) parts_plain [OF assms(1), of "butlast q"] show ?thesis
      by (cases q rule: rev_cases) (auto simp: named_entry_def)
  qed
  have b: "canonical fs (butlast q)"
    using assms canonical_butlast by (auto simp: named_entry_def)
  show ?thesis using create_existing [OF assms(1) b] by (simp add: make_parent_def path_parent_entry [OF plain])
qed

lemma write_entry:
  assumes "confined ws r fs" "prefix r q" "named_entry fs q" "write_file fs (entry_path q) s = Ok fs'"
  shows "changes_within r fs fs' \<and> confined ws r fs' \<and> (\<forall>p. named_entry fs p \<longrightarrow> named_entry fs' p)"
proof -
  from assms(1) have ok: "fs_ok fs" "is_dir fs (cwd fs)" and r: "canonicalize fs ws = Ok r" "is_dir fs r" "links_free r fs"
    by (simp_all add: confined_def)
  have l: "node_at fs q \<noteq> Some (Link t)" for t using r(3) assms(2) by (auto simp: links_free_def)
  have fs': "fs' = put_node fs q (Regular s) \<and> \<not> is_dir fs q \<and> is_dir fs (butlast q) \<and> q \<noteq> []
      \<and> last q \<notin> {''.'', ''..''}"
  proof (cases "locate fs (entry_path q) = Ok (Found q)")
    case True
    then have "canonical fs q" "\<not> is_dir fs q" "fs' = put_node fs q (Regular s)"
      using locate_named [OF ok(1) assms(3) l] assms(4) by (auto simp: write_file_def split: if_splits)
    then show ?thesis using canonical_parent [OF ok(1), of "butlast q" "last q"]
      by (cases q rule: rev_cases) (auto simp: is_dir_def)
  next
    case False
    then have "locate fs (entry_path q) = Ok (Absent q)"
      using locate_named [OF ok(1) assms(3) l] assms(4) by (auto simp: write_file_def)
    then show ?thesis
      using locate_named [OF ok(1) assms(3) l] assms(4) by (auto simp: write_file_def is_dir_def)
  qed
  then have tree: "same_tree fs fs'" using same_tree_put l by blast
  have "canonicalize fs' ws = Ok r" by (rule canonicalize_same_tree [OF r(1,2) tree])
  moreover have "is_dir fs' r" "is_dir fs' (cwd fs')"
    using same_tree_dir [OF tree] r(2) ok(2) fs' by simp_all
  moreover have "canonical fs p \<Longrightarrow> canonical fs' p" for p using fs' by (auto simp: canonical_def)
  ultimately show ?thesis
    using fs' ok r(3) assms(2) by (auto simp: confined_def put_frame fs_ok_put named_entry_def)
qed

lemma sandbox_entry:
  assumes "confined ws r fs" "resolve_sandbox_path fs user ws = Ok q"
  shows "prefix r q" "named_entry fs q"
  using sandbox_facts [of fs user ws q] assms by (auto simp: confined_def is_dir_canonical)

lemma write_confined:
  assumes "confined ws r fs" "resolve_sandbox_path fs user ws = Ok q"
    and "store_file fs (entry_path q) s = (res, fs')"
  shows "changes_within r fs fs' \<and> confined ws r fs'"
proof -
  note q = sandbox_entry [OF assms(1,2)]
  have "fs_ok fs" using assms(1) by (simp add: confined_def)
  from parent_made [OF this q(2)] obtain c where "make_parent fs (entry_path q) = (c, fs)"
    by (metis snd_conv surj_pair)
  with assms(3) write_entry [OF assms(1) q, of s] assms(1) show ?thesis
    by (auto simp: store_file_def put_frame split: sum.splits)
qed

lemma read_confined:
  assumes "confined ws r fs" "resolve_sandbox_path fs user ws = Ok q" "canonicalize fs (entry_path q) = Ok q'"
  shows "q' = q \<and> prefix r q"
proof -
  from assms(1) have ok: "fs_ok fs" "canonical fs (cwd fs)" and r: "canonicalize fs ws = Ok r" "links_free r fs"
    by (simp_all add: confined_def is_dir_canonical)
  from sandbox_facts [OF ok assms(2)] r(1) have q: "prefix r q" "named_entry fs q" by auto
  have "node_at fs q \<noteq> Some (Link t)" for t using r(2) q(1) by (auto simp: links_free_def)
  from locate_named [OF ok(1) q(2) this] assms(3) q(1) show ?thesis by (auto simp: canonicalize_def)
qed


section \<open>An example\<close>

definition demo_files :: "filesystem" where
  "demo_files =
     \<lparr>nodes = [([''home''], Directory), ([''home'', ''secret''], Regular ''key''),
               ([''ws''], Directory), ([''ws'', ''a.txt''], Regular ''one'')],
      cwd = []\<rparr>"

definition demo_links :: "filesystem" where
  "demo_links = put_node (put_node demo_files [''ws'', ''old''] (Link ''/home/secret''))
     [''ws'', ''new''] (Link ''/home/made'')"

definition demo_root :: path where
  "demo_root = \<lparr>absolute = True, pieces = [''ws'']\<rparr>"

text \<open>
  With links in the workspace the sandbox can be left. A link to a file outside is refused under its
  name, but not with a slash behind it; and a link whose target does not exist yet is written through.
\<close>

theorem sandbox_escapes:
  "tool_file_read demo_links (Some ''old'') (Some demo_root) = Err (Refused (OutsideWorkspace ''old''))
   \<and> tool_file_read demo_links (Some ''old/'') (Some demo_root) = Ok ''key''
   \<and> node_at (snd (tool_file_write demo_links (Some ''new'') (Some ''text'') (Some demo_root))) [''home'', ''made'']
       = Some (Regular ''text'')"
  by code_simp

lemma demo_confined: "confined demo_root [''ws''] demo_files"
proof -
  have e: "node_at demo_files q = (if q = [''home''] then Some Directory
      else if q = [''home'', ''secret''] then Some (Regular ''key'')
      else if q = [''ws''] then Some Directory else if q = [''ws'', ''a.txt''] then Some (Regular ''one'') else None)" for q
    by (simp add: node_at_def demo_files_def)
  have "canonicalize demo_files demo_root = Ok [''ws'']" by code_simp
  moreover have "cwd demo_files = []" by (simp add: demo_files_def)
  ultimately show ?thesis
    by (simp add: confined_def fs_ok_def canonical_def is_dir_def links_free_def e split: if_splits)
qed


end
