(* ===== verification/Patch.thy ===== *)
theory Patch
  imports Workspace
begin

text \<open>
  Multi-hunk patches of files, \<open>clawreform-runtime/src/apply_patch.rs\<close>: the parser, the application of
  hunks to a text and of a patch to the file system of theory \<open>Filesystem\<close>.
\<close>

section \<open>Patches\<close>

record hunk =
  context_before :: "string list"
  old_lines :: "string list"
  new_lines :: "string list"
  context_after :: "string list"

datatype patch_op =
    AddFile string string
  | UpdateFile string "string option" "hunk list"
  | DeleteFile string

datatype patch_error =
    MissingBegin
  | MissingEnd
  | EndBeforeBegin
  | EmptyAddPath
  | ExpectedPlus string
  | EmptyUpdatePath
  | NoHunks string
  | EmptyDeletePath
  | UnexpectedLine string
  | NoOperations

section \<open>The parser\<close>

definition starred :: "string \<Rightarrow> bool" where
  "starred l \<longleftrightarrow> prefix ''***'' (trim l)"

definition hunk_start :: "string \<Rightarrow> bool" where
  "hunk_start l \<longleftrightarrow> prefix ''@@'' (trim l)"

text \<open>The lines of an added file.\<close>

fun added_lines :: "string list \<Rightarrow> (string list, patch_error) result" where
  "added_lines [] = Ok []"
| "added_lines (l # ls) =
     (case strip_prefix ''+'' l of
        Some s \<Rightarrow> map_sum id ((#) s) (added_lines ls)
      | None \<Rightarrow> if trim l = [] then added_lines ls else Err (ExpectedPlus l))"

text \<open>The body of a hunk: the hunk so far and the two flags of the code.\<close>

definition add_context :: "string \<Rightarrow> hunk \<times> bool \<times> bool \<Rightarrow> hunk \<times> bool \<times> bool" where
  "add_context s st =
     (case st of (h, in_change, past_change) \<Rightarrow>
        if in_change \<or> past_change then (h\<lparr>context_after := context_after h @ [s]\<rparr>, False, True)
        else (h\<lparr>context_before := context_before h @ [s]\<rparr>, in_change, past_change))"

definition hunk_line :: "hunk \<times> bool \<times> bool \<Rightarrow> string \<Rightarrow> hunk \<times> bool \<times> bool" where
  "hunk_line st l =
     (case strip_prefix ''-'' l of
        Some s \<Rightarrow> ((fst st)\<lparr>old_lines := old_lines (fst st) @ [s]\<rparr>, True, False)
      | None \<Rightarrow>
          (case strip_prefix ''+'' l of
             Some s \<Rightarrow> ((fst st)\<lparr>new_lines := new_lines (fst st) @ [s]\<rparr>, True, False)
           | None \<Rightarrow>
               (case strip_prefix '' '' l of
                  Some s \<Rightarrow> add_context s st
                | None \<Rightarrow> if trim l = [] then add_context [] st else add_context l st)))"

definition no_lines :: hunk where
  "no_lines = \<lparr>context_before = [], old_lines = [], new_lines = [], context_after = []\<rparr>"

definition parse_hunk :: "string list \<Rightarrow> hunk" where
  "parse_hunk body = fst (foldl hunk_line (no_lines, False, False) body)"

fun parse_hunks :: "string list \<Rightarrow> hunk list" where
  "parse_hunks [] = []"
| "parse_hunks (l # ls) =
     (if hunk_start l
      then parse_hunk (takeWhile (\<lambda>x. \<not> hunk_start x) ls) # parse_hunks ls
      else parse_hunks ls)"

definition split_once :: "string \<Rightarrow> string \<Rightarrow> (string \<times> string) option" where
  "split_once m s = map_option (\<lambda>i. (take i s, drop (i + length m) s)) (find_sub m s)"

definition operation :: "string \<Rightarrow> string list \<Rightarrow> (patch_op, patch_error) result option" where
  "operation line block =
     (case strip_prefix ''*** Add File:'' line of
        Some p \<Rightarrow>
          Some (if trim p = [] then Err EmptyAddPath
                else map_sum id (\<lambda>ls. AddFile (trim p) (str_join [newline] ls)) (added_lines block))
      | None \<Rightarrow>
          (case strip_prefix ''*** Update File:'' line of
             Some p \<Rightarrow>
               let (path, move_to) = (case split_once ''->'' (trim p) of
                      Some (old, new) \<Rightarrow> (trim old, Some (trim new))
                    | None \<Rightarrow> (trim p, None));
                   hunks = parse_hunks block
               in Some (if path = [] then Err EmptyUpdatePath
                        else if hunks = [] then Err (NoHunks path)
                        else Ok (UpdateFile path move_to hunks))
           | None \<Rightarrow>
               (case strip_prefix ''*** Delete File:'' line of
                  Some p \<Rightarrow> Some (if trim p = [] then Err EmptyDeletePath else Ok (DeleteFile (trim p)))
                | None \<Rightarrow> None)))"

text \<open>
  The loop over the body. The lines up to the next one with stars belong to an added or updated file;
  a deleted file has none.
\<close>

function parse_ops :: "string list \<Rightarrow> (patch_op list, patch_error) result" where
  "parse_ops [] = Ok []"
| "parse_ops (l # ls) =
     (let line = trim l
      in case operation line (takeWhile (\<lambda>x. \<not> starred x) ls) of
           Some (Inl e) \<Rightarrow> Err e
         | Some (Inr (DeleteFile p)) \<Rightarrow> map_sum id ((#) (DeleteFile p)) (parse_ops ls)
         | Some (Inr op) \<Rightarrow> map_sum id ((#) op) (parse_ops (dropWhile (\<lambda>x. \<not> starred x) ls))
         | None \<Rightarrow> if line = [] then parse_ops ls else Err (UnexpectedLine line))"
  by pat_completeness auto
termination
  by (relation "measure length") (auto simp: less_Suc_eq_le length_dropWhile_le)

fun position :: "('a \<Rightarrow> bool) \<Rightarrow> 'a list \<Rightarrow> nat option" where
  "position P [] = None"
| "position P (x # xs) = (if P x then Some 0 else map_option Suc (position P xs))"

definition rposition :: "('a \<Rightarrow> bool) \<Rightarrow> 'a list \<Rightarrow> nat option" where
  "rposition P xs = map_option (\<lambda>i. length xs - 1 - i) (position P (rev xs))"

definition parse_patch :: "string \<Rightarrow> (patch_op list, patch_error) result" where
  "parse_patch input =
     (let all_lines = str_lines input
      in case position (\<lambda>l. trim l = ''*** Begin Patch'') all_lines of
           None \<Rightarrow> Err MissingBegin
         | Some b \<Rightarrow>
             (case rposition (\<lambda>l. trim l = ''*** End Patch'') all_lines of
                None \<Rightarrow> Err MissingEnd
              | Some e \<Rightarrow>
                  if e \<le> b then Err EndBeforeBegin
                  else (case parse_ops (take (e - (b + 1)) (drop (b + 1) all_lines)) of
                          Inl err \<Rightarrow> Err err
                        | Inr ops \<Rightarrow> if ops = [] then Err NoOperations else Ok ops)))"

section \<open>Hunks\<close>

text \<open>\<open>find_anchor\<close> and \<open>find_anchor_fuzzy\<close> differ in how a line is compared.\<close>

definition find_anchor_by :: "(string \<Rightarrow> string \<Rightarrow> bool) \<Rightarrow> string list \<Rightarrow> string list \<Rightarrow> nat option" where
  "find_anchor_by same file_lines anchor =
     (if anchor = [] then Some (length file_lines)
      else if length anchor > length file_lines then None
      else find (\<lambda>start. list_all2 same (take (length anchor) (drop start file_lines)) anchor)
             [0..<length file_lines - length anchor + 1])"

definition find_anchor :: "string list \<Rightarrow> string list \<Rightarrow> nat option" where
  "find_anchor = find_anchor_by (=)"

definition find_anchor_fuzzy :: "string list \<Rightarrow> string list \<Rightarrow> nat option" where
  "find_anchor_fuzzy = find_anchor_by (\<lambda>a b. trim_end a = trim_end b)"

text \<open>The fold over the hunks; the error is the number of the hunk.\<close>

fun apply_each :: "nat \<Rightarrow> string list \<Rightarrow> hunk list \<Rightarrow> (string list, nat) result" where
  "apply_each i file_lines [] = Ok file_lines"
| "apply_each i file_lines (h # hs) =
     (let anchor = context_before h @ old_lines h
      in if anchor = [] then apply_each (Suc i) (file_lines @ new_lines h) hs
         else case (case find_anchor file_lines anchor of
                      Some pos \<Rightarrow> Some pos
                    | None \<Rightarrow> find_anchor_fuzzy file_lines anchor) of
                None \<Rightarrow> Err (Suc i)
              | Some pos \<Rightarrow>
                  apply_each (Suc i)
                    (take pos file_lines @ (context_before h @ new_lines h)
                       @ drop (pos + (length (context_before h) + length (old_lines h))) file_lines) hs)"

definition apply_hunks :: "string \<Rightarrow> hunk list \<Rightarrow> (string, nat) result" where
  "apply_hunks body hunks =
     map_sum id (\<lambda>ls. let r = str_join [newline] ls
                     in if suffix [newline] body \<and> \<not> suffix [newline] r then r @ [newline] else r)
       (apply_each 0 (str_lines body) hunks)"

section \<open>Application\<close>

datatype patch_failure =
    MakeDirFailed string io_error
  | WriteError string io_error
  | PathRefused string sandbox_error
  | ReadError string io_error
  | HunkFailed string nat
  | DeleteError string io_error

record patch_result =
  files_added :: nat
  files_updated :: nat
  files_deleted :: nat
  files_moved :: nat
  errors :: "patch_failure list"

definition no_changes :: patch_result where
  "no_changes = \<lparr>files_added = 0, files_updated = 0, files_deleted = 0, files_moved = 0, errors = []\<rparr>"

definition summary :: "patch_result \<Rightarrow> string" where
  "summary r =
     (let parts = (if files_added r > 0 then [show_nat (files_added r) @ '' added''] else [])
                @ (if files_updated r > 0 then [show_nat (files_updated r) @ '' updated''] else [])
                @ (if files_deleted r > 0 then [show_nat (files_deleted r) @ '' deleted''] else [])
                @ (if files_moved r > 0 then [show_nat (files_moved r) @ '' moved''] else [])
                @ (if errors r \<noteq> [] then [show_nat (length (errors r)) @ '' errors''] else [])
      in if parts = [] then ''No changes applied'' else str_join '', '' parts)"

type_synonym patch_state = "patch_result \<times> filesystem"

definition note_error :: "patch_failure \<Rightarrow> patch_result \<Rightarrow> patch_result" where
  "note_error e r = r\<lparr>errors := errors r @ [e]\<rparr>"

definition add_file :: "path \<Rightarrow> string \<Rightarrow> string \<Rightarrow> patch_state \<Rightarrow> patch_state" where
  "add_file ws raw body st =
     (case st of (r, fs) \<Rightarrow>
        case resolve_sandbox_path fs raw ws of
          Inl e \<Rightarrow> (note_error (PathRefused raw e) r, fs)
        | Inr q \<Rightarrow>
            (case make_parent fs (entry_path q) of
               (Inl e, fs1) \<Rightarrow> (note_error (MakeDirFailed raw e) r, fs1)
             | (Inr _, fs1) \<Rightarrow>
                 (case write_file fs1 (entry_path q) body of
                    Inl e \<Rightarrow> (note_error (WriteError raw e) r, fs1)
                  | Inr fs2 \<Rightarrow> (r\<lparr>files_added := files_added r + 1\<rparr>, fs2))))"

definition delete_file :: "path \<Rightarrow> string \<Rightarrow> patch_state \<Rightarrow> patch_state" where
  "delete_file ws raw st =
     (case st of (r, fs) \<Rightarrow>
        case resolve_sandbox_path fs raw ws of
          Inl e \<Rightarrow> (note_error (PathRefused raw e) r, fs)
        | Inr q \<Rightarrow>
            (case remove_file fs (entry_path q) of
               Inl e \<Rightarrow> (note_error (DeleteError raw e) r, fs)
             | Inr fs1 \<Rightarrow> (r\<lparr>files_deleted := files_deleted r + 1\<rparr>, fs1)))"

text \<open>The end of an update: the patched text goes to its target, and the source of a move is removed.\<close>

definition finish_update ::
  "string \<Rightarrow> bool \<Rightarrow> string list \<Rightarrow> string list \<Rightarrow> string \<Rightarrow> patch_state \<Rightarrow> patch_state" where
  "finish_update raw moving resolved target patched st =
     (case st of (r, fs) \<Rightarrow>
        let fs1 = snd (make_parent fs (entry_path target))
        in case write_file fs1 (entry_path target) patched of
             Inl e \<Rightarrow> (note_error (WriteError raw e) r, fs1)
           | Inr fs2 \<Rightarrow>
               (r\<lparr>files_updated := files_updated r + 1\<rparr>,
                if moving \<and> target \<noteq> resolved
                then (case remove_file fs2 (entry_path resolved) of Inl _ \<Rightarrow> fs2 | Inr fs3 \<Rightarrow> fs3)
                else fs2))"

definition update_file :: "path \<Rightarrow> string \<Rightarrow> string option \<Rightarrow> hunk list \<Rightarrow> patch_state \<Rightarrow> patch_state" where
  "update_file ws raw move_to hunks st =
     (case st of (r, fs) \<Rightarrow>
        case resolve_sandbox_path fs raw ws of
          Inl e \<Rightarrow> (note_error (PathRefused raw e) r, fs)
        | Inr resolved \<Rightarrow>
            (case read_to_string fs (entry_path resolved) of
               Inl e \<Rightarrow> (note_error (ReadError raw e) r, fs)
             | Inr original \<Rightarrow>
                 (case apply_hunks original hunks of
                    Inl n \<Rightarrow> (note_error (HunkFailed raw n) r, fs)
                  | Inr patched \<Rightarrow>
                      (case move_to of
                         None \<Rightarrow> finish_update raw False resolved resolved patched (r, fs)
                       | Some new_path \<Rightarrow>
                           (case resolve_sandbox_path fs new_path ws of
                              Inl e \<Rightarrow> (note_error (PathRefused new_path e) r, fs)
                            | Inr target \<Rightarrow>
                                finish_update raw True resolved target patched
                                  (r\<lparr>files_moved := files_moved r + 1\<rparr>, fs))))))"

fun apply_patch_op :: "path \<Rightarrow> patch_state \<Rightarrow> patch_op \<Rightarrow> patch_state" where
  "apply_patch_op ws st (AddFile raw body) = add_file ws raw body st"
| "apply_patch_op ws st (UpdateFile raw move_to hunks) = update_file ws raw move_to hunks st"
| "apply_patch_op ws st (DeleteFile raw) = delete_file ws raw st"

definition apply_patch :: "filesystem \<Rightarrow> patch_op list \<Rightarrow> path \<Rightarrow> patch_state" where
  "apply_patch fs ops ws = foldl (apply_patch_op ws) (no_changes, fs) ops"

text \<open>The tool: an error text names the failures.\<close>

datatype patch_tool_error =
    NoPatch
  | NoWorkspace
  | PatchSyntax patch_error
  | PatchFailures patch_result

definition tool_apply_patch ::
  "filesystem \<Rightarrow> string option \<Rightarrow> path option \<Rightarrow> (string, patch_tool_error) result \<times> filesystem" where
  "tool_apply_patch fs patch_param workspace_root =
     (case patch_param of
        None \<Rightarrow> (Err NoPatch, fs)
      | Some t \<Rightarrow>
          (case workspace_root of
             None \<Rightarrow> (Err NoWorkspace, fs)
           | Some ws \<Rightarrow>
               (case parse_patch t of
                  Inl e \<Rightarrow> (Err (PatchSyntax e), fs)
                | Inr ops \<Rightarrow>
                    let (r, fs1) = apply_patch fs ops ws
                    in (if errors r = [] then Ok (summary r) else Err (PatchFailures r), fs1))))"

section \<open>What a hunk does\<close>

lemma find_first:
  assumes "P k" "k < n" "\<And>j. j < k \<Longrightarrow> \<not> P j"
  shows "find P [0..<n] = Some k"
  unfolding find_Some_iff using assms by (intro exI [of _ k]) auto

lemma find_anchor_first:
  assumes "anchor \<noteq> []" "file_lines = before @ anchor @ after"
    and "\<And>j. j < length before \<Longrightarrow> take (length anchor) (drop j file_lines) \<noteq> anchor"
  shows "find_anchor file_lines anchor = Some (length before)"
  using assms find_first [of "\<lambda>start. list_all2 (=) (take (length anchor) (drop start file_lines)) anchor"
      "length before" "length file_lines - length anchor + 1"]
  by (simp add: find_anchor_def find_anchor_by_def list.rel_eq)

text \<open>
  A hunk replaces its removed lines by its added ones at the first place where its leading context and
  removed lines stand together, and nothing else. The trailing context is never looked at.
\<close>

lemma hunk_replaces:
  assumes "context_before h @ old_lines h \<noteq> []"
    and "file_lines = before @ (context_before h @ old_lines h) @ after"
    and "\<And>j. j < length before \<Longrightarrow>
      take (length (context_before h @ old_lines h)) (drop j file_lines) \<noteq> context_before h @ old_lines h"
  shows "apply_each i file_lines [h] = Ok (before @ context_before h @ new_lines h @ after)"
  using find_anchor_first [OF assms] assms(1,2) by (auto simp: Let_def)

lemma context_after_unused:
  "apply_each i file_lines (map (\<lambda>h. h\<lparr>context_after := c h\<rparr>) hs) = apply_each i file_lines hs"
  by (induction hs arbitrary: i file_lines) (simp_all add: Let_def split: option.split)

section \<open>Confinement\<close>

lemma changes_trans: "changes_within r a b \<Longrightarrow> changes_within r b c \<Longrightarrow> changes_within r a c"
  by (simp add: changes_within_def)

lemma remove_entry:
  assumes "confined ws r fs" "prefix r q" "named_entry fs q" "remove_file fs (entry_path q) = Ok fs'"
  shows "changes_within r fs fs' \<and> confined ws r fs'"
proof -
  from assms(1) have ok: "fs_ok fs" "is_dir fs (cwd fs)" and r: "canonicalize fs ws = Ok r" "is_dir fs r" "links_free r fs"
    by (simp_all add: confined_def)
  have plain: "''.'' \<notin> set q"
    using assms(3) parts_plain [OF ok(1), of q] parts_plain [OF ok(1), of "butlast q"]
    by (cases q rule: rev_cases) (auto simp: named_entry_def)
  have b: "canonical fs (butlast q)"
    using assms(3) canonical_butlast ok(1) by (auto simp: named_entry_def)
  obtain q' where q': "entry_of fs (entry_path q) = Ok q'" "node_at fs q' \<noteq> None" "node_at fs q' \<noteq> Some Directory"
      "fs' = drop_node fs q'"
    using assms(4) by (auto simp: remove_file_def split: sum.splits option.splits node.splits if_splits)
  then have "q' = q"
    using plain locate_canonical [OF ok(1) b]
    by (cases q rule: rev_cases)
      (auto simp: entry_of_def path_parent_entry path_file_name_def components_entry canonicalize_def Let_def
        split: if_splits)
  with q' r(3) assms(2) have fs': "fs' = drop_node fs q" and n: "\<exists>s. node_at fs q = Some (Regular s)"
    by (auto simp: links_free_def) (metis node.exhaust)
  then have tree: "same_tree fs fs'" by (auto simp: same_tree_def)
  have "canonicalize fs' ws = Ok r" by (rule canonicalize_same_tree [OF r(1,2) tree])
  moreover have "is_dir fs' p = is_dir fs p" for p by (rule same_tree_dir [OF tree])
  moreover from this have "fs_ok fs'" using ok(1) fs' by (simp add: fs_ok_def)
  ultimately show ?thesis
    using fs' ok r assms(2) by (auto simp: confined_def changes_within_def links_free_def)
qed

definition patch_ok :: "path \<Rightarrow> string list \<Rightarrow> filesystem \<Rightarrow> filesystem \<Rightarrow> bool" where
  "patch_ok ws r fs fs' \<longleftrightarrow> changes_within r fs fs' \<and> confined ws r fs'"

lemma patch_ok_same: "confined ws r fs \<Longrightarrow> patch_ok ws r fs fs"
  by (simp add: patch_ok_def changes_within_def)

lemma make_parent_named:
  assumes "confined ws r fs" "named_entry fs q"
  obtains c where "make_parent fs (entry_path q) = (c, fs)"
  using parent_made [of fs q] assms by (metis confined_def snd_conv surj_pair)

lemma add_file_ok: "confined ws r fs \<Longrightarrow> patch_ok ws r fs (snd (add_file ws raw body (res, fs)))"
proof (cases "resolve_sandbox_path fs raw ws")
  case (Inr q)
  assume c: "confined ws r fs"
  note q = sandbox_entry [OF c Inr]
  obtain x where x: "make_parent fs (entry_path q) = (x, fs)" by (rule make_parent_named [OF c q(2)])
  show ?thesis
    using c x Inr write_entry [OF c q, of body]
    by (auto simp: add_file_def patch_ok_def patch_ok_same [unfolded patch_ok_def] split: sum.split)
qed (simp add: add_file_def patch_ok_same)

lemma delete_file_ok: "confined ws r fs \<Longrightarrow> patch_ok ws r fs (snd (delete_file ws raw (res, fs)))"
proof (cases "resolve_sandbox_path fs raw ws")
  case (Inr q)
  assume c: "confined ws r fs"
  show ?thesis
    using c Inr remove_entry [OF c sandbox_entry [OF c Inr]]
    by (auto simp: delete_file_def patch_ok_def patch_ok_same [unfolded patch_ok_def] split: sum.split)
qed (simp add: delete_file_def patch_ok_same)

lemma finish_update_ok:
  assumes c: "confined ws r fs" and q: "prefix r target" "named_entry fs target"
    and o: "prefix r resolved" "named_entry fs resolved"
  shows "patch_ok ws r fs (snd (finish_update raw moving resolved target patched (res, fs)))"
proof -
  obtain x where x: "make_parent fs (entry_path target) = (x, fs)" by (rule make_parent_named [OF c q(2)])
  show ?thesis
  proof (cases "write_file fs (entry_path target) patched")
    case (Inl e)
    with x c show ?thesis by (simp add: finish_update_def patch_ok_same)
  next
    case (Inr fs2)
    with write_entry [OF c q] o(2) have w: "changes_within r fs fs2" "confined ws r fs2" "named_entry fs2 resolved"
      by blast+
    show ?thesis
      using Inr x w remove_entry [OF w(2) o(1) w(3)]
      by (auto simp: finish_update_def patch_ok_def split: sum.split intro: changes_trans)
  qed
qed

lemma update_file_ok: "confined ws r fs \<Longrightarrow> patch_ok ws r fs (snd (update_file ws raw move_to hunks (res, fs)))"
proof (cases "resolve_sandbox_path fs raw ws")
  case (Inr q)
  assume c: "confined ws r fs"
  note q = sandbox_entry [OF c Inr]
  note here = finish_update_ok [OF c q q] and there = finish_update_ok [OF c sandbox_entry [OF c] q]
  show ?thesis
    using Inr by (auto simp: update_file_def patch_ok_same [OF c] split: sum.split option.split intro!: here there)
qed (simp add: update_file_def patch_ok_same)

lemma apply_patch_ok:
  "confined ws r fs \<Longrightarrow> patch_ok ws r fs (snd (foldl (apply_patch_op ws) (res, fs) ops))"
proof (induction ops arbitrary: res fs)
  case (Cons op ops)
  obtain res1 fs1 where st: "apply_patch_op ws (res, fs) op = (res1, fs1)" by (metis surj_pair)
  have "patch_ok ws r fs fs1"
    using add_file_ok [OF Cons.prems] delete_file_ok [OF Cons.prems] update_file_ok [OF Cons.prems] st
    by (cases op) (metis apply_patch_op.simps snd_conv)+
  with Cons.IH [of fs1 res1] st show ?case by (auto simp: patch_ok_def intro: changes_trans)
qed (simp add: patch_ok_same)

text \<open>
  C15: A patch stays in the workspace. Whatever operations it holds and whichever of them fail, in a
  workspace without symbolic links applying it changes nothing outside the canonical root, and the
  workspace is still one without links.
\<close>

theorem patch_confined:
  assumes "confined ws r fs" and "apply_patch fs ops ws = (res, fs')"
  shows "changes_within r fs fs' \<and> confined ws r fs'"
  using apply_patch_ok [OF assms(1), of no_changes ops] assms(2) by (simp add: apply_patch_def patch_ok_def)

lemma patch_confined_witness:
  "changes_within [''ws''] demo_files
     (snd (apply_patch demo_files [AddFile ''b.txt'' ''two'', DeleteFile ''a.txt'', DeleteFile ''/home/secret''] demo_root))"
  using patch_confined [OF demo_confined,
      of "[AddFile ''b.txt'' ''two'', DeleteFile ''a.txt'', DeleteFile ''/home/secret'']"
         "fst (apply_patch demo_files [AddFile ''b.txt'' ''two'', DeleteFile ''a.txt'', DeleteFile ''/home/secret''] demo_root)"
         "snd (apply_patch demo_files [AddFile ''b.txt'' ''two'', DeleteFile ''a.txt'', DeleteFile ''/home/secret''] demo_root)"]
  by simp

text \<open>Adding a file replaces one that is there, and two of the three operations above succeed.\<close>

lemma patch_example:
  "apply_patch demo_files [AddFile ''a.txt'' ''two'', DeleteFile ''/home/secret'',
       UpdateFile ''a.txt'' (Some ''c.txt'')
         [\<lparr>context_before = [], old_lines = [''two''], new_lines = [''three'', ''four''], context_after = []\<rparr>]] demo_root
   = (\<lparr>files_added = 1, files_updated = 1, files_deleted = 0, files_moved = 1,
       errors = [PathRefused ''/home/secret'' (OutsideWorkspace ''/home/secret'')]\<rparr>,
      \<lparr>nodes = [([''home''], Directory), ([''home'', ''secret''], Regular ''key''), ([''ws''], Directory),
                ([''ws'', ''c.txt''], Regular (''three'' @ [newline] @ ''four''))],
       cwd = []\<rparr>)"
  by code_simp

end
