(* ===== verification/Audit_Trail.thy ===== *)
theory Audit_Trail
  imports Str_Utils
begin

text \<open>
  The hash chain of security-relevant actions, \<open>clawreform-runtime/src/audit.rs\<close>. The hash function
  \<open>sha256_hex\<close> is a parameter, and the time of a record is an argument.
\<close>

section \<open>Entries\<close>

datatype audit_action =
    ToolInvoke | CapabilityCheck | AgentSpawn | AgentKill | AgentMessage | MemoryAccess | FileAccess
  | NetworkAccess | ShellExec | AuthAttempt | WireConnect | ConfigChange

fun action_text :: "audit_action \<Rightarrow> string" where
  "action_text ToolInvoke = ''ToolInvoke''"
| "action_text CapabilityCheck = ''CapabilityCheck''"
| "action_text AgentSpawn = ''AgentSpawn''"
| "action_text AgentKill = ''AgentKill''"
| "action_text AgentMessage = ''AgentMessage''"
| "action_text MemoryAccess = ''MemoryAccess''"
| "action_text FileAccess = ''FileAccess''"
| "action_text NetworkAccess = ''NetworkAccess''"
| "action_text ShellExec = ''ShellExec''"
| "action_text AuthAttempt = ''AuthAttempt''"
| "action_text WireConnect = ''WireConnect''"
| "action_text ConfigChange = ''ConfigChange''"

record audit_entry =
  entry_seq :: nat
  timestamp :: string
  entry_agent :: string
  action :: audit_action
  detail :: string
  entry_outcome :: string
  prev_hash :: string
  entry_hash :: string

text \<open>The bytes fed to the hasher, one field behind the other.\<close>

definition hashed_text :: "nat \<Rightarrow> string \<Rightarrow> string \<Rightarrow> audit_action \<Rightarrow> string \<Rightarrow> string \<Rightarrow> string \<Rightarrow> string" where
  "hashed_text n time agent act det res prev =
     show_nat n @ time @ agent @ action_text act @ det @ res @ prev"

definition compute_entry_hash ::
  "(string \<Rightarrow> string) \<Rightarrow> nat \<Rightarrow> string \<Rightarrow> string \<Rightarrow> audit_action \<Rightarrow> string \<Rightarrow> string \<Rightarrow> string \<Rightarrow> string" where
  "compute_entry_hash sha256_hex n time agent act det res prev =
     sha256_hex (hashed_text n time agent act det res prev)"

section \<open>The log\<close>

record audit_log =
  entries :: "audit_entry list"
  tip :: string

definition genesis :: string where
  "genesis = replicate 64 (CHR ''0'')"

definition new_log :: audit_log where
  "new_log = \<lparr>entries = [], tip = genesis\<rparr>"

definition record_event ::
  "(string \<Rightarrow> string) \<Rightarrow> string \<Rightarrow> string \<Rightarrow> audit_action \<Rightarrow> string \<Rightarrow> string \<Rightarrow> audit_log \<Rightarrow> string \<times> audit_log" where
  "record_event sha256_hex now agent act det res l =
     (let n = length (entries l);
          h = compute_entry_hash sha256_hex n now agent act det res (tip l)
      in (h, \<lparr>entries = entries l @ [\<lparr>entry_seq = n, timestamp = now, entry_agent = agent, action = act,
                detail = det, entry_outcome = res, prev_hash = tip l, entry_hash = h\<rparr>],
              tip = h\<rparr>))"

datatype audit_error =
    ChainBreak nat string string
  | HashMismatch nat string string

fun verify_from :: "(string \<Rightarrow> string) \<Rightarrow> string \<Rightarrow> audit_entry list \<Rightarrow> (unit, audit_error) result" where
  "verify_from sha256_hex expected_prev [] = Ok ()"
| "verify_from sha256_hex expected_prev (e # es) =
     (if prev_hash e \<noteq> expected_prev then Err (ChainBreak (entry_seq e) expected_prev (prev_hash e))
      else let recomputed = compute_entry_hash sha256_hex (entry_seq e) (timestamp e) (entry_agent e) (action e)
                 (detail e) (entry_outcome e) (prev_hash e)
           in if recomputed \<noteq> entry_hash e then Err (HashMismatch (entry_seq e) recomputed (entry_hash e))
              else verify_from sha256_hex (entry_hash e) es)"

definition verify_integrity :: "(string \<Rightarrow> string) \<Rightarrow> audit_log \<Rightarrow> (unit, audit_error) result" where
  "verify_integrity sha256_hex l = verify_from sha256_hex genesis (entries l)"

definition tip_hash :: "audit_log \<Rightarrow> string" where
  "tip_hash l = tip l"

definition log_len :: "audit_log \<Rightarrow> nat" where
  "log_len l = length (entries l)"

definition log_is_empty :: "audit_log \<Rightarrow> bool" where
  "log_is_empty l = (entries l = [])"

definition recent :: "audit_log \<Rightarrow> nat \<Rightarrow> audit_entry list" where
  "recent l n = drop (length (entries l) - n) (entries l)"

section \<open>The chain\<close>

definition entry_text :: "audit_entry \<Rightarrow> string" where
  "entry_text e = hashed_text (entry_seq e) (timestamp e) (entry_agent e) (action e) (detail e)
     (entry_outcome e) (prev_hash e)"

text \<open>The hash before the entries that follow.\<close>

definition end_hash :: "string \<Rightarrow> audit_entry list \<Rightarrow> string" where
  "end_hash h es = (if es = [] then h else entry_hash (last es))"

lemma verify_from_snoc:
  "verify_from H h (es @ [e]) = Ok () \<longleftrightarrow>
     verify_from H h es = Ok () \<and> prev_hash e = end_hash h es \<and> entry_hash e = H (entry_text e)"
  by (induction es arbitrary: h)
    (auto simp: Let_def end_hash_def compute_entry_hash_def entry_text_def)

text \<open>The log after a sequence of records, each with its time, agent, action, detail and outcome.\<close>

definition run_records ::
  "(string \<Rightarrow> string) \<Rightarrow> (string \<times> string \<times> audit_action \<times> string \<times> string) list \<Rightarrow> audit_log" where
  "run_records H rs = foldl (\<lambda>l (now, agent, act, det, res). snd (record_event H now agent act det res l)) new_log rs"

lemma run_records_snoc:
  "run_records H (rs @ [(now, agent, act, det, res)]) = snd (record_event H now agent act det res (run_records H rs))"
  by (simp add: run_records_def)

lemma run_records_facts:
  "verify_from H genesis (entries (run_records H rs)) = Ok ()
   \<and> tip (run_records H rs) = end_hash genesis (entries (run_records H rs))
   \<and> map entry_seq (entries (run_records H rs)) = [0..<length rs]
   \<and> map (\<lambda>e. (timestamp e, entry_agent e, action e, detail e, entry_outcome e)) (entries (run_records H rs)) = rs"
proof (induction rs rule: rev_induct)
  case Nil
  show ?case by (simp add: run_records_def new_log_def end_hash_def)
next
  case (snoc r rs)
  obtain now agent act det res where r: "r = (now, agent, act, det, res)" by (cases r)
  define L where "L = run_records H rs"
  from snoc have ih: "verify_from H genesis (entries L) = Ok ()" "tip L = end_hash genesis (entries L)"
    "map entry_seq (entries L) = [0..<length rs]"
    "map (\<lambda>e. (timestamp e, entry_agent e, action e, detail e, entry_outcome e)) (entries L) = rs"
    by (simp_all add: L_def)
  have "length (entries L) = length rs" using arg_cong [OF ih(3), of length] by simp
  then have run: "run_records H (rs @ [r]) = \<lparr>entries = entries L @ [e], tip = entry_hash e\<rparr>"
    if "e = \<lparr>entry_seq = length rs, timestamp = now, entry_agent = agent, action = act, detail = det,
       entry_outcome = res, prev_hash = tip L,
       entry_hash = compute_entry_hash H (length rs) now agent act det res (tip L)\<rparr>" for e
    unfolding that r run_records_snoc L_def by (simp add: record_event_def Let_def)
  then obtain e where e: "run_records H (rs @ [r]) = \<lparr>entries = entries L @ [e], tip = entry_hash e\<rparr>"
    "entry_seq e = length rs" "(timestamp e, entry_agent e, action e, detail e, entry_outcome e) = r"
    "prev_hash e = tip L" "entry_hash e = H (entry_text e)"
    unfolding r compute_entry_hash_def entry_text_def by fastforce
  show ?case unfolding e(1) using ih e(2-5) by (simp add: verify_from_snoc) (simp add: end_hash_def)
qed

text \<open>
  A log that only \<open>record\<close> has written verifies, its tip is the hash of the last entry, and the entries
  are numbered from zero and tell what was recorded, in order.
\<close>

theorem recorded_log_verifies:
  "verify_integrity H (run_records H rs) = Ok ()
   \<and> tip_hash (run_records H rs) = end_hash genesis (entries (run_records H rs))
   \<and> map entry_seq (entries (run_records H rs)) = [0..<length rs]
   \<and> map (\<lambda>e. (timestamp e, entry_agent e, action e, detail e, entry_outcome e)) (entries (run_records H rs)) = rs"
  using run_records_facts [of H rs] by (simp add: verify_integrity_def tip_hash_def)

text \<open>What SHA-256 in hexadecimal promises about lengths, and the end of a hashed text.\<close>

definition hex_digest :: "(string \<Rightarrow> string) \<Rightarrow> bool" where
  "hex_digest H \<longleftrightarrow> (\<forall>s. length (H s) = 64)"

lemma end_hash_length:
  "hex_digest H \<Longrightarrow> length h = 64 \<Longrightarrow> verify_from H h es = Ok () \<Longrightarrow> length (end_hash h es) = 64"
  by (cases es rule: rev_cases) (auto simp: end_hash_def verify_from_snoc hex_digest_def)

lemma same_text_prev:
  "entry_text e = entry_text e' \<Longrightarrow> length (prev_hash e) = 64 \<Longrightarrow> length (prev_hash e') = 64 \<Longrightarrow> prev_hash e = prev_hash e'"
proof -
  assume "entry_text e = entry_text e'" and len: "length (prev_hash e) = 64" "length (prev_hash e') = 64"
  then have "drop (length (entry_text e) - 64) (entry_text e) = drop (length (entry_text e') - 64) (entry_text e')" by simp
  with len show ?thesis by (simp add: entry_text_def hashed_text_def)
qed

lemma verified_logs_agree:
  assumes "hex_digest H" "length h = 64"
  shows "verify_from H h es = Ok () \<Longrightarrow> verify_from H h es' = Ok () \<Longrightarrow> length es = length es'
    \<Longrightarrow> end_hash h es = end_hash h es' \<Longrightarrow> inj_on H (entry_text ` (set es \<union> set es'))
    \<Longrightarrow> map entry_text es = map entry_text es' \<and> map prev_hash es = map prev_hash es'
      \<and> map entry_hash es = map entry_hash es'"
proof (induction es arbitrary: es' rule: rev_induct)
  case (snoc e es)
  then obtain ds d where es': "es' = ds @ [d]" by (cases es' rule: rev_cases) auto
  note v = snoc.prems(1,2)[unfolded es' verify_from_snoc]
  have hash: "entry_hash e = entry_hash d" using snoc.prems(4) es' by (simp add: end_hash_def)
  have "H (entry_text e) = H (entry_text d)" using v hash by simp
  then have "entry_text e = entry_text d"
    by (rule inj_onD [OF snoc.prems(5)]) (simp_all add: es')
  moreover from this have "prev_hash e = prev_hash d"
    by (rule same_text_prev) (use v end_hash_length [OF assms] in auto)
  moreover have "inj_on H (entry_text ` (set es \<union> set ds))"
    by (rule inj_on_subset [OF snoc.prems(5)]) (auto simp: es')
  ultimately show ?case
    using snoc.IH [of ds] v snoc.prems(3) es' hash by simp
qed simp

text \<open>
  Tampering shows. Two logs that both verify, are equally long and end in the same hash agree in the
  hashed text of every entry, unless the hash function has a collision among these texts. So whoever
  keeps the length and the tip of a log elsewhere notices every change of an entry's text.
\<close>

theorem tampering_detected:
  assumes "hex_digest H" "verify_integrity H l = Ok ()" "verify_integrity H l' = Ok ()"
    and "log_len l = log_len l'" "end_hash genesis (entries l) = end_hash genesis (entries l')"
    and "inj_on H (entry_text ` (set (entries l) \<union> set (entries l')))"
  shows "map entry_text (entries l) = map entry_text (entries l') \<and> map prev_hash (entries l) = map prev_hash (entries l')
    \<and> map entry_hash (entries l) = map entry_hash (entries l')"
  using verified_logs_agree [OF assms(1), of genesis "entries l" "entries l'"] assms(2-)
  by (simp add: verify_integrity_def log_len_def genesis_def)

text \<open>
  Three changes that do not show, whatever the hash function: text moved over the border between two
  fields, a log cut off at its end, and a tip that does not belong to the entries.
\<close>

lemma tampering_missed:
  "verify_integrity H (run_records H [(now, agent, act, det @ x, res)]) = Ok ()
   \<and> verify_integrity H ((run_records H [(now, agent, act, det @ x, res)])
       \<lparr>entries := [\<lparr>entry_seq = 0, timestamp = now, entry_agent = agent, action = act, detail = det,
          entry_outcome = x @ res, prev_hash = genesis,
          entry_hash = tip (run_records H [(now, agent, act, det @ x, res)])\<rparr>]\<rparr>) = Ok ()"
  "verify_integrity H (l\<lparr>entries := take n (entries (run_records H rs)), tip := t\<rparr>) = Ok ()"
proof -
  have "verify_from H h (es @ fs) = Ok () \<Longrightarrow> verify_from H h es = Ok ()" for h es fs
    by (induction es arbitrary: h) (auto simp: Let_def split: if_splits)
  from this [of genesis "take n (entries (run_records H rs))" "drop n (entries (run_records H rs))"]
  show "verify_integrity H (l\<lparr>entries := take n (entries (run_records H rs)), tip := t\<rparr>) = Ok ()"
    using run_records_facts [of H rs] by (simp add: verify_integrity_def)
qed (simp add: verify_integrity_def run_records_def record_event_def new_log_def Let_def
    compute_entry_hash_def hashed_text_def)

lemma tampering_detected_witness:
  "let H = (\<lambda>s. replicate 64 (CHR ''a'')); l = run_records H [(''now'', ''a1'', ShellExec, ''ls'', ''ok'')]
   in map entry_text (entries l) = map entry_text (entries l)"
proof -
  define H where "H = (\<lambda>s :: string. replicate 64 (CHR ''a''))"
  define l where "l = run_records H [(''now'', ''a1'', ShellExec, ''ls'', ''ok'')]"
  have "hex_digest H" by (simp add: hex_digest_def H_def)
  moreover have "verify_integrity H l = Ok ()"
    by (simp add: l_def run_records_def record_event_def new_log_def Let_def verify_integrity_def
        compute_entry_hash_def hashed_text_def)
  moreover have "inj_on H (entry_text ` (set (entries l) \<union> set (entries l)))"
    by (simp add: l_def run_records_def record_event_def new_log_def Let_def)
  ultimately show ?thesis
    using tampering_detected [of H l l] by (simp add: Let_def flip: H_def l_def)
qed

end
