(* ===== verification/Workflow.thy ===== *)
theory Workflow
  imports Str_Utils "HOL-Library.AList"
begin

text \<open>
  The workflow engine, \<open>clawreform-kernel/src/workflow.rs\<close>: definitions and runs, the eviction of old
  runs, the expansion of prompt templates, and the execution of a run step by step.

  What the engine is given is an environment over a world \<open>'w\<close>: the resolution of agents, the sending of
  a message under a timeout, the concurrent sending of several, the clock, and the order in which a hash
  map of variables is iterated.
\<close>

section \<open>Data\<close>

datatype step_agent = ById string | ByName string

datatype step_mode =
    Sequential
  | FanOut
  | Collect
  | Conditional string
  | LoopUntil nat string

datatype error_mode = FailStep | SkipStep | RetryStep nat

record workflow_step =
  step_name :: string
  step_agent :: step_agent
  prompt_template :: string
  step_mode :: step_mode
  timeout_secs :: nat
  error_mode :: error_mode
  output_var :: "string option"

record 'i workflow =
  wf_id :: 'i
  wf_name :: string
  wf_description :: string
  wf_steps :: "workflow_step list"
  wf_created_at :: nat

datatype run_state = Pending | Running | Completed | Failed

record 'a step_result =
  sr_step_name :: string
  sr_agent_id :: 'a
  sr_agent_name :: string
  sr_output :: string
  sr_input_tokens :: nat
  sr_output_tokens :: nat
  sr_duration_ms :: nat

text \<open>The error texts of the engine, with what is formatted into them.\<close>

datatype workflow_error =
    RunNotFound
  | DefinitionNotFound
  | AgentNotFound string
  | StepTimedOut string nat
  | StepFailed string string
  | RetriesExhausted string nat string
  | FanOutFailed string string
  | FanOutTimedOut string nat

record ('i, 'a) workflow_run =
  run_workflow_id :: 'i
  run_workflow_name :: string
  run_input :: string
  run_state :: run_state
  step_results :: "'a step_result list"
  run_output :: "string option"
  run_error :: "workflow_error option"
  started_at :: nat
  completed_at :: "nat option"

text \<open>The runs are listed in the order of the hash map; every run has its own identifier.\<close>

record ('i, 'r, 'a) workflow_engine =
  workflows :: "'i \<rightharpoonup> 'i workflow"
  runs :: "('r \<times> ('i, 'a) workflow_run) list"

section \<open>Definitions and runs\<close>

definition new_engine :: "('i, 'r, 'a) workflow_engine" where
  "new_engine = \<lparr>workflows = Map.empty, runs = []\<rparr>"

definition register_workflow :: "'i workflow \<Rightarrow> ('i, 'r, 'a) workflow_engine \<Rightarrow> ('i, 'r, 'a) workflow_engine" where
  "register_workflow w e = e\<lparr>workflows := (workflows e)(wf_id w \<mapsto> w)\<rparr>"

definition get_workflow :: "'i \<Rightarrow> ('i, 'r, 'a) workflow_engine \<Rightarrow> 'i workflow option" where
  "get_workflow i e = workflows e i"

definition remove_workflow :: "'i \<Rightarrow> ('i, 'r, 'a) workflow_engine \<Rightarrow> bool \<times> ('i, 'r, 'a) workflow_engine" where
  "remove_workflow i e = (workflows e i \<noteq> None, e\<lparr>workflows := (workflows e)(i := None)\<rparr>)"

definition max_retained_runs :: nat where
  "max_retained_runs = 200"

definition finished_run :: "('i, 'a) workflow_run \<Rightarrow> bool" where
  "finished_run r \<longleftrightarrow> run_state r = Completed \<or> run_state r = Failed"

text \<open>The oldest finished runs go when the limit is exceeded, as many as there are too many.\<close>

definition evicted :: "('r \<times> ('i, 'a) workflow_run) list \<Rightarrow> 'r list" where
  "evicted rs =
     (if length rs > max_retained_runs
      then take (length rs - max_retained_runs)
             (map fst (sort_key (\<lambda>(i, r). started_at r) (filter (\<lambda>(i, r). finished_run r) rs)))
      else [])"

definition create_run ::
  "nat \<Rightarrow> 'r \<Rightarrow> 'i \<Rightarrow> string \<Rightarrow> ('i, 'r, 'a) workflow_engine \<Rightarrow> 'r option \<times> ('i, 'r, 'a) workflow_engine" where
  "create_run now run_id workflow_id input e =
     (case workflows e workflow_id of
        None \<Rightarrow> (None, e)
      | Some w \<Rightarrow>
          let run = \<lparr>run_workflow_id = workflow_id, run_workflow_name = wf_name w, run_input = input,
                     run_state = Pending, step_results = [], run_output = None, run_error = None,
                     started_at = now, completed_at = None\<rparr>;
              rs = AList.update run_id run (runs e)
          in (Some run_id, e\<lparr>runs := filter (\<lambda>(i, r). i \<notin> set (evicted rs)) rs\<rparr>))"

definition get_run :: "'r \<Rightarrow> ('i, 'r, 'a) workflow_engine \<Rightarrow> ('i, 'a) workflow_run option" where
  "get_run i e = map_of (runs e) i"

definition state_matches :: "string \<Rightarrow> ('i, 'a) workflow_run \<Rightarrow> bool" where
  "state_matches f r \<longleftrightarrow>
     (if f = ''pending'' then run_state r = Pending
      else if f = ''running'' then run_state r = Running
      else if f = ''completed'' then run_state r = Completed
      else if f = ''failed'' then run_state r = Failed
      else True)"

definition list_runs :: "string option \<Rightarrow> ('i, 'r, 'a) workflow_engine \<Rightarrow> ('i, 'a) workflow_run list" where
  "list_runs state_filter e =
     filter (\<lambda>r. case state_filter of None \<Rightarrow> True | Some f \<Rightarrow> state_matches f r) (map snd (runs e))"

definition on_run ::
  "'r \<Rightarrow> (('i, 'a) workflow_run \<Rightarrow> ('i, 'a) workflow_run) \<Rightarrow> ('i, 'r, 'a) workflow_engine \<Rightarrow> ('i, 'r, 'a) workflow_engine" where
  "on_run i f e = (case get_run i e of None \<Rightarrow> e | Some r \<Rightarrow> e\<lparr>runs := AList.update i (f r) (runs e)\<rparr>)"

section \<open>One step\<close>

datatype send_outcome =
    Replied string nat nat
  | SendFailed string
  | SendTimedOut

type_synonym 'a sending = "nat \<times> 'a \<times> string"

record ('a, 'w) workflow_env =
  resolve_agent :: "step_agent \<Rightarrow> ('a \<times> string) option"
  send_message :: "'a sending \<Rightarrow> 'w \<Rightarrow> send_outcome \<times> 'w"
  send_all :: "'a sending list \<Rightarrow> 'w \<Rightarrow> send_outcome list \<times> 'w"
  now_ms :: "'w \<Rightarrow> nat"
  map_order :: "(string \<times> string) list \<Rightarrow> (string \<times> string) list"

text \<open>The state of an execution: the loop's variables, the engine and the world.\<close>

record ('i, 'r, 'a, 'w) run_exec =
  current_input :: string
  all_outputs :: "string list"
  variables :: "(string \<times> string) list"
  engine :: "('i, 'r, 'a) workflow_engine"
  world :: 'w

definition expand_variables ::
  "((string \<times> string) list \<Rightarrow> (string \<times> string) list) \<Rightarrow> string \<Rightarrow> string \<Rightarrow> (string \<times> string) list \<Rightarrow> string" where
  "expand_variables order template input vars =
     foldl (\<lambda>res (key, v). str_replace (''{{'' @ key @ ''}}'') v res)
       (str_replace ''{{input}}'' input template) (order vars)"

text \<open>The attempts of \<open>ErrorMode::Retry\<close> that are left, and the last error.\<close>

fun retry_step ::
  "('a, 'w) workflow_env \<Rightarrow> workflow_step \<Rightarrow> 'a \<Rightarrow> string \<Rightarrow> nat \<Rightarrow> string \<Rightarrow> 'w
   \<Rightarrow> (string \<times> nat \<times> nat, string) result \<times> 'w" where
  "retry_step env step agent prompt 0 last_err w = (Err last_err, w)"
| "retry_step env step agent prompt (Suc left) last_err w =
     (case send_message env (timeout_secs step, agent, prompt) w of
        (Replied out i t, w1) \<Rightarrow> (Ok (out, i, t), w1)
      | (SendFailed e, w1) \<Rightarrow> retry_step env step agent prompt left e w1
      | (SendTimedOut, w1) \<Rightarrow>
          retry_step env step agent prompt left (''timed out after '' @ show_nat (timeout_secs step) @ ''s'') w1)"

definition execute_step_with_error_mode ::
  "('a, 'w) workflow_env \<Rightarrow> workflow_step \<Rightarrow> 'a \<Rightarrow> string \<Rightarrow> 'w
   \<Rightarrow> ((string \<times> nat \<times> nat) option, workflow_error) result \<times> 'w" where
  "execute_step_with_error_mode env step agent prompt w =
     (case error_mode step of
        FailStep \<Rightarrow>
          (case send_message env (timeout_secs step, agent, prompt) w of
             (Replied out i t, w1) \<Rightarrow> (Ok (Some (out, i, t)), w1)
           | (SendFailed e, w1) \<Rightarrow> (Err (StepFailed (step_name step) e), w1)
           | (SendTimedOut, w1) \<Rightarrow> (Err (StepTimedOut (step_name step) (timeout_secs step)), w1))
      | SkipStep \<Rightarrow>
          (case send_message env (timeout_secs step, agent, prompt) w of
             (Replied out i t, w1) \<Rightarrow> (Ok (Some (out, i, t)), w1)
           | (_, w1) \<Rightarrow> (Ok None, w1))
      | RetryStep n \<Rightarrow>
          (case retry_step env step agent prompt (n + 1) [] w of
             (Inr r, w1) \<Rightarrow> (Ok (Some r), w1)
           | (Inl e, w1) \<Rightarrow> (Err (RetriesExhausted (step_name step) n e), w1)))"

definition set_var :: "string option \<Rightarrow> string \<Rightarrow> ('i, 'r, 'a, 'w) run_exec \<Rightarrow> ('i, 'r, 'a, 'w) run_exec" where
  "set_var v out st =
     (case v of None \<Rightarrow> st | Some k \<Rightarrow> st\<lparr>variables := AList.update k out (variables st)\<rparr>)"

definition push_result ::
  "'r \<Rightarrow> 'a step_result \<Rightarrow> ('i, 'r, 'a, 'w) run_exec \<Rightarrow> ('i, 'r, 'a, 'w) run_exec" where
  "push_result rid res st = st\<lparr>engine := on_run rid (\<lambda>r. r\<lparr>step_results := step_results r @ [res]\<rparr>) (engine st)\<rparr>"

definition fail_run ::
  "('a, 'w) workflow_env \<Rightarrow> 'r \<Rightarrow> workflow_error \<Rightarrow> ('i, 'r, 'a, 'w) run_exec \<Rightarrow> ('i, 'r, 'a, 'w) run_exec" where
  "fail_run env rid e st =
     st\<lparr>engine := on_run rid (\<lambda>r. r\<lparr>run_state := Failed, run_error := Some e,
          completed_at := Some (now_ms env (world st))\<rparr>) (engine st)\<rparr>"

definition push_output :: "string \<Rightarrow> ('i, 'r, 'a, 'w) run_exec \<Rightarrow> ('i, 'r, 'a, 'w) run_exec" where
  "push_output out st = st\<lparr>all_outputs := all_outputs st @ [out]\<rparr>"

text \<open>One exchange with the agent of a step: what was answered, or the error that has failed the run.\<close>

definition ask_agent ::
  "('a, 'w) workflow_env \<Rightarrow> 'r \<Rightarrow> workflow_step \<Rightarrow> string \<Rightarrow> 'a \<Rightarrow> string \<Rightarrow> ('i, 'r, 'a, 'w) run_exec
   \<Rightarrow> (string option, workflow_error) result \<times> ('i, 'r, 'a, 'w) run_exec" where
  "ask_agent env rid step shown agent agent_name st =
     (let prompt = expand_variables (map_order env) (prompt_template step) (current_input st) (variables st);
          (res, w1) = execute_step_with_error_mode env step agent prompt (world st);
          st1 = st\<lparr>world := w1\<rparr>
      in case res of
           Inl e \<Rightarrow> (Err e, fail_run env rid e st1)
         | Inr None \<Rightarrow> (Ok None, st1)
         | Inr (Some (out, i, t)) \<Rightarrow>
             (Ok (Some out),
              push_result rid \<lparr>sr_step_name = shown, sr_agent_id = agent, sr_agent_name = agent_name, sr_output = out,
                sr_input_tokens = i, sr_output_tokens = t, sr_duration_ms = now_ms env w1 - now_ms env (world st)\<rparr> st1))"

text \<open>The arm \<open>Sequential\<close>, which a met condition takes too.\<close>

definition sequential_step ::
  "('a, 'w) workflow_env \<Rightarrow> 'r \<Rightarrow> workflow_step \<Rightarrow> ('i, 'r, 'a, 'w) run_exec
   \<Rightarrow> (unit, workflow_error) result \<times> ('i, 'r, 'a, 'w) run_exec" where
  "sequential_step env rid step st =
     (case resolve_agent env (step_agent step) of
        None \<Rightarrow> (Err (AgentNotFound (step_name step)), st)
      | Some (agent, name) \<Rightarrow>
          (case ask_agent env rid step (step_name step) agent name st of
             (Inl e, st1) \<Rightarrow> (Err e, st1)
           | (Inr None, st1) \<Rightarrow> (Ok (), st1)
           | (Inr (Some out), st1) \<Rightarrow>
               (Ok (), (push_output out (set_var (output_var step) out st1))\<lparr>current_input := out\<rparr>)))"

section \<open>Fan-out, collection and loops\<close>

fun prepare_sendings ::
  "('a, 'w) workflow_env \<Rightarrow> workflow_step list \<Rightarrow> ('i, 'r, 'a, 'w) run_exec
   \<Rightarrow> ((workflow_step \<times> 'a \<times> string \<times> 'a sending) list, workflow_error) result" where
  "prepare_sendings env [] st = Ok []"
| "prepare_sendings env (s # ss) st =
     (case resolve_agent env (step_agent s) of
        None \<Rightarrow> Err (AgentNotFound (step_name s))
      | Some (agent, name) \<Rightarrow>
          map_sum id ((#) (s, agent, name, (timeout_secs s, agent,
             expand_variables (map_order env) (prompt_template s) (current_input st) (variables st))))
            (prepare_sendings env ss st))"

text \<open>The answers in the order of the steps; the first failure fails the run.\<close>

fun gather ::
  "('a, 'w) workflow_env \<Rightarrow> 'r \<Rightarrow> nat \<Rightarrow> ((workflow_step \<times> 'a \<times> string \<times> 'a sending) \<times> send_outcome) list
   \<Rightarrow> ('i, 'r, 'a, 'w) run_exec \<Rightarrow> (unit, workflow_error) result \<times> ('i, 'r, 'a, 'w) run_exec" where
  "gather env rid ms [] st = (Ok (), st)"
| "gather env rid ms (((s, agent, name, _), Replied out i t) # rest) st =
     gather env rid ms rest
       ((push_output out (set_var (output_var s) out
          (push_result rid \<lparr>sr_step_name = step_name s, sr_agent_id = agent, sr_agent_name = name, sr_output = out,
             sr_input_tokens = i, sr_output_tokens = t, sr_duration_ms = ms\<rparr> st)))\<lparr>current_input := out\<rparr>)"
| "gather env rid ms (((s, _), SendFailed e) # rest) st =
     (Err (FanOutFailed (step_name s) e), fail_run env rid (FanOutFailed (step_name s) e) st)"
| "gather env rid ms (((s, _), SendTimedOut) # rest) st =
     (Err (FanOutTimedOut (step_name s) (timeout_secs s)),
      fail_run env rid (FanOutTimedOut (step_name s) (timeout_secs s)) st)"

definition fan_out ::
  "('a, 'w) workflow_env \<Rightarrow> 'r \<Rightarrow> workflow_step list \<Rightarrow> ('i, 'r, 'a, 'w) run_exec
   \<Rightarrow> (unit, workflow_error) result \<times> ('i, 'r, 'a, 'w) run_exec" where
  "fan_out env rid fans st =
     (case prepare_sendings env fans st of
        Inl e \<Rightarrow> (Err e, st)
      | Inr infos \<Rightarrow>
          let (answers, w1) = send_all env (map (\<lambda>(_, _, _, q). q) infos) (world st)
          in gather env rid (now_ms env w1 - now_ms env (world st)) (zip infos answers) (st\<lparr>world := w1\<rparr>))"

definition separator :: string where
  "separator = [newline, newline] @ ''---'' @ [newline, newline]"

definition collect_step :: "workflow_step \<Rightarrow> ('i, 'r, 'a, 'w) run_exec \<Rightarrow> ('i, 'r, 'a, 'w) run_exec" where
  "collect_step step st =
     (let joined = str_join separator (all_outputs st)
      in set_var (output_var step) joined (st\<lparr>current_input := joined, all_outputs := [joined]\<rparr>))"

text \<open>The rounds of a loop that are left, from round \<open>k\<close> on.\<close>

fun loop_rounds ::
  "('a, 'w) workflow_env \<Rightarrow> 'r \<Rightarrow> workflow_step \<Rightarrow> string \<Rightarrow> 'a \<Rightarrow> string \<Rightarrow> nat \<Rightarrow> nat
   \<Rightarrow> ('i, 'r, 'a, 'w) run_exec \<Rightarrow> (unit, workflow_error) result \<times> ('i, 'r, 'a, 'w) run_exec" where
  "loop_rounds env rid step until_lower agent name 0 k st = (Ok (), st)"
| "loop_rounds env rid step until_lower agent name (Suc left) k st =
     (case ask_agent env rid step (step_name step @ '' (iter '' @ show_nat (k + 1) @ '')'') agent name st of
        (Inl e, st1) \<Rightarrow> (Err e, st1)
      | (Inr None, st1) \<Rightarrow> (Ok (), st1)
      | (Inr (Some out), st1) \<Rightarrow>
          (let st2 = st1\<lparr>current_input := out\<rparr>
           in if contains_str (to_lowercase out) until_lower then (Ok (), st2)
              else loop_rounds env rid step until_lower agent name left (k + 1) st2))"

definition loop_step ::
  "('a, 'w) workflow_env \<Rightarrow> 'r \<Rightarrow> workflow_step \<Rightarrow> nat \<Rightarrow> string \<Rightarrow> ('i, 'r, 'a, 'w) run_exec
   \<Rightarrow> (unit, workflow_error) result \<times> ('i, 'r, 'a, 'w) run_exec" where
  "loop_step env rid step max_iterations until st =
     (case resolve_agent env (step_agent step) of
        None \<Rightarrow> (Err (AgentNotFound (step_name step)), st)
      | Some (agent, name) \<Rightarrow>
          (case loop_rounds env rid step (to_lowercase until) agent name max_iterations 0 st of
             (Inl e, st1) \<Rightarrow> (Err e, st1)
           | (Inr _, st1) \<Rightarrow> (Ok (), push_output (current_input st1) (set_var (output_var step) (current_input st1) st1))))"

section \<open>Execution\<close>

definition is_fan_out :: "workflow_step \<Rightarrow> bool" where
  "is_fan_out s \<longleftrightarrow> step_mode s = FanOut"

text \<open>What one round of the main loop does, and the steps it leaves.\<close>

definition run_step ::
  "('a, 'w) workflow_env \<Rightarrow> 'r \<Rightarrow> workflow_step \<Rightarrow> workflow_step list \<Rightarrow> ('i, 'r, 'a, 'w) run_exec
   \<Rightarrow> (unit, workflow_error) result \<times> ('i, 'r, 'a, 'w) run_exec" where
  "run_step env rid step rest st =
     (case step_mode step of
        Sequential \<Rightarrow> sequential_step env rid step st
      | FanOut \<Rightarrow> fan_out env rid (step # takeWhile is_fan_out rest) st
      | Collect \<Rightarrow> (Ok (), collect_step step st)
      | Conditional condition \<Rightarrow>
          if contains_str (to_lowercase (current_input st)) (to_lowercase condition)
          then sequential_step env rid step st else (Ok (), st)
      | LoopUntil n until \<Rightarrow> loop_step env rid step n until st)"

function run_steps ::
  "('a, 'w) workflow_env \<Rightarrow> 'r \<Rightarrow> workflow_step list \<Rightarrow> ('i, 'r, 'a, 'w) run_exec
   \<Rightarrow> (unit, workflow_error) result \<times> ('i, 'r, 'a, 'w) run_exec" where
  "run_steps env rid [] st = (Ok (), st)"
| "run_steps env rid (s # ss) st =
     (case run_step env rid s ss st of
        (Inl e, st1) \<Rightarrow> (Err e, st1)
      | (Inr _, st1) \<Rightarrow> run_steps env rid (if is_fan_out s then dropWhile is_fan_out ss else ss) st1)"
  by pat_completeness auto
termination
  by (relation "measure (\<lambda>(env, rid, ss, st). length ss)") (auto simp: less_Suc_eq_le length_dropWhile_le)

definition execute_run ::
  "('a, 'w) workflow_env \<Rightarrow> 'r \<Rightarrow> ('i, 'r, 'a) workflow_engine \<Rightarrow> 'w
   \<Rightarrow> (string, workflow_error) result \<times> ('i, 'r, 'a) workflow_engine \<times> 'w" where
  "execute_run env rid e w =
     (case get_run rid e of
        None \<Rightarrow> (Err RunNotFound, e, w)
      | Some run \<Rightarrow>
          let e1 = on_run rid (\<lambda>r. r\<lparr>run_state := Running\<rparr>) e
          in case workflows e1 (run_workflow_id run) of
               None \<Rightarrow> (Err DefinitionNotFound, e1, w)
             | Some def \<Rightarrow>
                 (case run_steps env rid (wf_steps def)
                     \<lparr>current_input = run_input run, all_outputs = [], variables = [], engine = e1, world = w\<rparr> of
                    (Inl err, st) \<Rightarrow> (Err err, engine st, world st)
                  | (Inr _, st) \<Rightarrow>
                      (Ok (current_input st),
                       on_run rid (\<lambda>r. r\<lparr>run_state := Completed, run_output := Some (current_input st),
                          completed_at := Some (now_ms env (world st))\<rparr>) (engine st),
                       world st)))"

end
