(* ===== verification/Workflow_Facts.thy ===== *)
theory Workflow_Facts
  imports Workflow
begin

text \<open>
  What the engine of theory \<open>Workflow\<close> guarantees: the state a run ends in, the pipeline that sequential
  steps form, a bound on the messages sent, and which runs are kept.
\<close>

section \<open>Other runs\<close>

lemma get_run_on_run [simp]:
  "get_run i (on_run j f e) = (if i = j then map_option f (get_run i e) else get_run i e)"
  by (simp add: on_run_def get_run_def update_conv' split: option.split)

lemma workflows_on_run [simp]: "workflows (on_run i f e) = workflows e"
  by (simp add: on_run_def split: option.split)

text \<open>What an execution may have done so far: only run \<open>rid\<close> has changed, and it is still running.\<close>

definition only_run :: "'r \<Rightarrow> ('i, 'r, 'a) workflow_engine \<Rightarrow> ('i, 'r, 'a) workflow_engine \<Rightarrow> bool" where
  "only_run rid e e' \<longleftrightarrow> workflows e' = workflows e \<and> (\<forall>i. i \<noteq> rid \<longrightarrow> get_run i e' = get_run i e)"

definition run_now :: "'r \<Rightarrow> ('i, 'r, 'a) workflow_engine \<Rightarrow> run_state \<Rightarrow> workflow_error option \<Rightarrow> bool" where
  "run_now rid e s err \<longleftrightarrow> (\<exists>r. get_run rid e = Some r \<and> run_state r = s \<and> (err = None \<or> run_error r = err))"

lemma only_run_on_run [simp]: "only_run rid e (on_run rid f e') \<longleftrightarrow> only_run rid e e'"
  by (simp add: only_run_def)

lemma run_now_update:
  "run_now rid e s err \<Longrightarrow> (\<And>r. run_state (f r) = run_state r \<and> run_error (f r) = run_error r) \<Longrightarrow> run_now rid (on_run rid f e) s err"
  by (auto simp: run_now_def)

text \<open>The errors for which the engine fails the run.\<close>

fun step_error :: "workflow_error \<Rightarrow> bool" where
  "step_error RunNotFound = False"
| "step_error DefinitionNotFound = False"
| "step_error (AgentNotFound _) = False"
| "step_error _ = True"

definition progress ::
  "'r \<Rightarrow> ('i, 'r, 'a) workflow_engine \<Rightarrow> (unit, workflow_error) result \<times> ('i, 'r, 'a, 'w) run_exec \<Rightarrow> bool" where
  "progress rid e out \<longleftrightarrow>
     (case out of (res, st) \<Rightarrow> only_run rid e (engine st)
        \<and> (case res of
             Inr _ \<Rightarrow> run_now rid (engine st) Running None
           | Inl (AgentNotFound _) \<Rightarrow> run_now rid (engine st) Running None
           | Inl err \<Rightarrow> step_error err \<and> run_now rid (engine st) Failed (Some err)))"

definition live :: "'r \<Rightarrow> ('i, 'r, 'a) workflow_engine \<Rightarrow> ('i, 'r, 'a, 'w) run_exec \<Rightarrow> bool" where
  "live rid e st \<longleftrightarrow> only_run rid e (engine st) \<and> run_now rid (engine st) Running None"

lemma live_updates [simp]:
  "live rid e (st\<lparr>world := w\<rparr>) = live rid e st" "live rid e (st\<lparr>current_input := x\<rparr>) = live rid e st"
  "live rid e (st\<lparr>all_outputs := xs\<rparr>) = live rid e st" "live rid e (push_output out st) = live rid e st"
  "live rid e (set_var v out st) = live rid e st"
  by (simp_all add: live_def push_output_def set_var_def split: option.split)

lemma live_push [simp]: "live rid e st \<Longrightarrow> live rid e (push_result rid res st)"
  by (simp add: live_def push_result_def run_now_update)

lemma live_progress: "live rid e st \<Longrightarrow> progress rid e (Ok (), st)"
  "live rid e st \<Longrightarrow> progress rid e (Err (AgentNotFound n), st)"
  by (simp_all add: live_def progress_def)

lemma progress_live: "progress rid e (Inr u, st) \<Longrightarrow> live rid e st"
  by (simp add: live_def progress_def)

lemma progress_fail:
  "live rid e st \<Longrightarrow> step_error err \<Longrightarrow> progress rid e (Err err, fail_run env rid err st)"
  by (cases err) (auto simp: live_def progress_def fail_run_def run_now_def)

lemma step_error_kind: "execute_step_with_error_mode env step agent prompt w = (Inl err, w1) \<Longrightarrow> step_error err"
  by (auto simp: execute_step_with_error_mode_def split: error_mode.splits prod.splits send_outcome.splits sum.splits)

lemma ask_agent_progress:
  assumes "live rid e st" "ask_agent env rid step shown agent name st = (res, st1)"
  shows "case res of Inl err \<Rightarrow> progress rid e (Inl err, st1) | Inr _ \<Rightarrow> live rid e st1"
proof -
  obtain r w1 where x: "execute_step_with_error_mode env step agent
      (expand_variables (map_order env) (prompt_template step) (current_input st) (variables st)) (world st) = (r, w1)"
    by (metis surj_pair)
  show ?thesis
  proof (cases r)
    case (Inl err)
    have "step_error err" by (rule step_error_kind [OF x [unfolded Inl]])
    with progress_fail [of rid e "st\<lparr>world := w1\<rparr>" err env] assms(1)
    have "progress rid e (Err err, fail_run env rid err (st\<lparr>world := w1\<rparr>))" by simp
    moreover have "(res, st1) = (Err err, fail_run env rid err (st\<lparr>world := w1\<rparr>))"
      unfolding assms(2) [symmetric] using x Inl by (simp add: ask_agent_def Let_def)
    ultimately show ?thesis by simp
  next
    case (Inr o1)
    with assms x show ?thesis by (auto simp: ask_agent_def Let_def split: option.splits prod.splits)
  qed
qed

lemma sequential_progress: "live rid e st \<Longrightarrow> progress rid e (sequential_step env rid step st)"
  by (auto simp: sequential_step_def live_progress split: option.split prod.split sum.split
      dest: ask_agent_progress)

lemma gather_progress: "live rid e st \<Longrightarrow> progress rid e (gather env rid ms infos st)"
  by (induction env rid ms infos st rule: gather.induct) (auto simp: live_progress progress_fail)

lemma prepare_error: "prepare_sendings env ss st = Inl err \<Longrightarrow> \<exists>n. err = AgentNotFound n"
  by (induction ss) (auto simp: map_sum_Inl split: option.splits prod.splits)

lemma fan_out_progress: "live rid e st \<Longrightarrow> progress rid e (fan_out env rid fans st)"
  by (auto simp: fan_out_def Let_def live_progress gather_progress split: sum.split prod.split dest!: prepare_error)

lemma loop_rounds_progress:
  "live rid e st \<Longrightarrow> progress rid e (loop_rounds env rid step u agent name left k st)"
proof (induction left arbitrary: k st)
  case (Suc left)
  obtain res st1 where a: "ask_agent env rid step (step_name step @ '' (iter '' @ show_nat (k + 1) @ '')'') agent name st = (res, st1)"
    by (metis surj_pair)
  note p = ask_agent_progress [OF Suc.prems a]
  show ?case
  proof (cases res)
    case (Inl err)
    with a p show ?thesis by simp
  next
    case (Inr out)
    with a p Suc.IH show ?thesis by (cases out) (simp_all add: Let_def live_progress)
  qed
qed (simp add: live_progress)

lemma loop_progress: "live rid e st \<Longrightarrow> progress rid e (loop_step env rid step n u st)"
proof (cases "resolve_agent env (step_agent step)")
  case (Some p)
  assume l: "live rid e st"
  obtain agent name where p: "p = (agent, name)" by (cases p)
  obtain res st1 where r: "loop_rounds env rid step (to_lowercase u) agent name n 0 st = (res, st1)" by (metis surj_pair)
  show ?thesis
    using loop_rounds_progress [OF l, of env step "to_lowercase u" agent name n 0] r
    by (cases res) (auto simp: loop_step_def Some p live_progress dest: progress_live)
qed (simp add: loop_step_def live_progress)

lemma run_step_progress: "live rid e st \<Longrightarrow> progress rid e (run_step env rid step rest st)"
  by (cases "step_mode step")
    (simp_all add: run_step_def sequential_progress fan_out_progress loop_progress live_progress collect_step_def Let_def)

lemma run_steps_progress: "live rid e st \<Longrightarrow> progress rid e (run_steps env rid ss st)"
proof (induction env rid ss st rule: run_steps.induct)
  case (2 env rid s ss st)
  obtain res st1 where r: "run_step env rid s ss st = (res, st1)" by (metis surj_pair)
  with run_step_progress [OF 2(2), of env s ss] have p: "progress rid e (res, st1)" by simp
  show ?case
  proof (cases res)
    case (Inl err)
    with r p show ?thesis by simp
  next
    case (Inr u)
    with r p have "run_steps env rid (s # ss) st
        = run_steps env rid (if is_fan_out s then dropWhile is_fan_out ss else ss) st1" by simp
    moreover have "progress rid e (run_steps env rid (if is_fan_out s then dropWhile is_fan_out ss else ss) st1)"
      using Inr p by (intro 2(1) [OF r [symmetric]]) (auto intro: progress_live)
    ultimately show ?thesis by simp
  qed
qed (simp add: live_progress)

section \<open>Concrete runs\<close>

text \<open>Two steps, an agent called \<open>echo\<close> that answers what it is told, and no other agent.\<close>

definition demo_step :: "string \<Rightarrow> string \<Rightarrow> workflow_step" where
  "demo_step name tmpl = \<lparr>step_name = name, step_agent = ByName ''echo'', prompt_template = tmpl,
     step_mode = Sequential, timeout_secs = 120, error_mode = FailStep, output_var = None\<rparr>"

definition demo_workflow :: "nat workflow" where
  "demo_workflow = \<lparr>wf_id = 1, wf_name = ''demo'', wf_description = [],
     wf_steps = [demo_step ''one'' ''Go {{input}}'', demo_step ''two'' ''{{input}}!''], wf_created_at = 0\<rparr>"

definition demo_env :: "(nat, nat) workflow_env" where
  "demo_env = \<lparr>resolve_agent = (\<lambda>a. if a = ByName ''echo'' then Some (7, ''echo'') else None),
     send_message = (\<lambda>(_, _, prompt) w. (Replied prompt 1 1, w + 1)),
     send_all = (\<lambda>qs w. (map (\<lambda>(_, _, prompt). Replied prompt 1 1) qs, w + 1)),
     now_ms = id, map_order = id\<rparr>"

definition demo_engine :: "(nat, nat, nat) workflow_engine" where
  "demo_engine = snd (create_run 0 5 1 ''on'' (register_workflow demo_workflow new_engine))"

lemma demo_run:
  "get_run 5 demo_engine = Some \<lparr>run_workflow_id = 1, run_workflow_name = ''demo'', run_input = ''on'',
     run_state = Pending, step_results = [], run_output = None, run_error = None, started_at = 0, completed_at = None\<rparr>"
  "workflows demo_engine 1 = Some demo_workflow" "distinct (map fst (runs demo_engine))"
  by (simp_all add: demo_engine_def create_run_def register_workflow_def new_engine_def demo_workflow_def
      get_run_def evicted_def max_retained_runs_def)

lemma demo_output: "fst (execute_run demo_env 5 demo_engine 0) = Ok ''Go on!''"
  by code_simp

section \<open>How a run ends\<close>

text \<open>
  C21: How a run ends. An execution leaves every other run and all definitions alone. When it returns an
  output its run is completed with that output; when a step fails, times out or runs out of retries its run
  is failed with that error; but when an agent or the definition is not found the run stays running for
  good, although the caller got an error.
\<close>

theorem execute_run_outcome:
  assumes "get_run rid e = Some run" "execute_run env rid e w = (res, e', w')"
  shows "only_run rid e e'
    \<and> (case res of
         Inr out \<Rightarrow> \<exists>r. get_run rid e' = Some r \<and> run_state r = Completed \<and> run_output r = Some out
       | Inl DefinitionNotFound \<Rightarrow> run_now rid e' Running None
       | Inl (AgentNotFound _) \<Rightarrow> run_now rid e' Running None
       | Inl err \<Rightarrow> run_now rid e' Failed (Some err))"
proof -
  let ?e1 = "on_run rid (\<lambda>r. r\<lparr>run_state := Running\<rparr>) e"
  have e1: "only_run rid e ?e1" "run_now rid ?e1 Running None"
    using assms(1) by (auto simp: only_run_def run_now_def)
  show ?thesis
  proof (cases "workflows e (run_workflow_id run)")
    case None
    with assms e1 show ?thesis by (auto simp: execute_run_def Let_def)
  next
    case (Some d)
    let ?st0 = "\<lparr>current_input = run_input run, all_outputs = [], variables = [], engine = ?e1, world = w\<rparr>"
    obtain r st where run: "run_steps env rid (wf_steps d) ?st0 = (r, st)" by (metis surj_pair)
    have "live rid e ?st0" using e1 by (simp add: live_def)
    from run_steps_progress [OF this, of env "wf_steps d"] run
    have p: "progress rid e (r, st)" by simp
    show ?thesis
    proof (cases r)
      case (Inl err)
      with assms Some run p show ?thesis
        by (cases err) (auto simp: execute_run_def Let_def progress_def)
    next
      case (Inr u)
      with assms Some run p show ?thesis
        by (auto simp: execute_run_def Let_def progress_def run_now_def)
    qed
  qed
qed

lemma execute_run_outcome_witness:
  "\<exists>r. get_run 5 (fst (snd (execute_run demo_env 5 demo_engine 0))) = Some r
     \<and> run_state r = Completed \<and> run_output r = Some ''Go on!''"
proof -
  obtain res e' w' where x: "execute_run demo_env 5 demo_engine 0 = (res, e', w')" by (metis surj_pair)
  have "res = Ok ''Go on!''" using demo_output x by simp
  with execute_run_outcome [OF demo_run(1) x] x show ?thesis by simp
qed

section \<open>Sequential steps form a pipeline\<close>

text \<open>The reference: each step gets the answer of the one before it.\<close>

fun pipeline ::
  "('a, 'w) workflow_env \<Rightarrow> workflow_step list \<Rightarrow> string \<Rightarrow> 'w \<Rightarrow> (string, workflow_error) result \<times> 'w" where
  "pipeline env [] x w = (Ok x, w)"
| "pipeline env (s # ss) x w =
     (case resolve_agent env (step_agent s) of
        None \<Rightarrow> (Err (AgentNotFound (step_name s)), w)
      | Some (agent, name) \<Rightarrow>
          (case execute_step_with_error_mode env s agent (str_replace ''{{input}}'' x (prompt_template s)) w of
             (Inl e, w1) \<Rightarrow> (Err e, w1)
           | (Inr None, w1) \<Rightarrow> pipeline env ss x w1
           | (Inr (Some (out, _)), w1) \<Rightarrow> pipeline env ss out w1))"

definition plain_sequence :: "workflow_step list \<Rightarrow> bool" where
  "plain_sequence ss \<longleftrightarrow> list_all (\<lambda>s. step_mode s = Sequential \<and> output_var s = None) ss"

lemma world_frame [simp]:
  "world (push_result rid res st) = world st" "world (fail_run env rid err st) = world st"
  "world (push_output out st) = world st" "variables (push_result rid res st) = variables st"
  "variables (push_output out st) = variables st" "current_input (push_result rid res st) = current_input st"
  "current_input (push_output out st) = current_input st"
  by (simp_all add: push_result_def fail_run_def push_output_def)

lemma run_steps_pipeline:
  assumes "map_order env [] = []"
  shows "plain_sequence ss \<Longrightarrow> variables st = [] \<Longrightarrow>
    (case run_steps env rid ss st of (res, st1) \<Rightarrow> (map_sum id (\<lambda>_. current_input st1) res, world st1))
      = pipeline env ss (current_input st) (world st)"
proof (induction ss arbitrary: st)
  case (Cons s ss)
  then have s: "step_mode s = Sequential" "output_var s = None" "plain_sequence ss" "\<not> is_fan_out s"
    by (auto simp: plain_sequence_def is_fan_out_def)
  have ex: "expand_variables (map_order env) t x [] = str_replace ''{{input}}'' x t" for t x
    using assms by (simp add: expand_variables_def)
  show ?case
  proof (cases "resolve_agent env (step_agent s)")
    case None
    with s show ?thesis by (simp add: run_step_def sequential_step_def)
  next
    case (Some p)
    obtain agent name where p: "p = (agent, name)" by (cases p)
    obtain res w1 where x: "execute_step_with_error_mode env s agent
        (str_replace ''{{input}}'' (current_input st) (prompt_template s)) (world st) = (res, w1)" by (metis surj_pair)
    show ?thesis
    proof (cases res)
      case (Inl e)
      with s Some p x Cons.prems show ?thesis
        by (simp add: run_step_def sequential_step_def ask_agent_def ex Let_def)
    next
      case (Inr o1)
      with s Some p x Cons.prems Cons.IH show ?thesis
        by (cases o1) (auto simp: run_step_def sequential_step_def ask_agent_def ex Let_def set_var_def)
    qed
  qed
qed simp

text \<open>
  C24: A workflow of sequential steps without variables is a pipeline: it gives the agents the same prompts,
  leaves the world the same and returns the same output or error as handing each step's answer to the
  next one does.
\<close>

theorem sequential_is_pipeline:
  assumes "map_order env [] = []" "get_run rid e = Some run" "workflows e (run_workflow_id run) = Some d"
    and "plain_sequence (wf_steps d)"
  shows "(case execute_run env rid e w of (res, e', w') \<Rightarrow> (res, w')) = pipeline env (wf_steps d) (run_input run) w"
proof -
  let ?st0 = "\<lparr>current_input = run_input run, all_outputs = [], variables = [],
    engine = on_run rid (\<lambda>r. r\<lparr>run_state := Running\<rparr>) e, world = w\<rparr>"
  obtain res st where run: "run_steps env rid (wf_steps d) ?st0 = (res, st)" by (metis surj_pair)
  have "(map_sum id (\<lambda>_. current_input st) res, world st) = pipeline env (wf_steps d) (run_input run) w"
    using run_steps_pipeline [OF assms(1,4), of ?st0 rid] run by simp
  then show ?thesis using assms(2,3) run by (cases res) (auto simp: execute_run_def Let_def)
qed

lemma sequential_is_pipeline_witness:
  "(case execute_run demo_env 5 demo_engine 0 of (res, e', w') \<Rightarrow> (res, w')) = (Ok ''Go on!'', 2)"
proof -
  have "plain_sequence (wf_steps demo_workflow)" by code_simp
  moreover have "map_order demo_env [] = []" by (simp add: demo_env_def)
  moreover have "workflows demo_engine (run_workflow_id (the (get_run 5 demo_engine))) = Some demo_workflow"
    by (simp add: demo_run del: One_nat_def)
  moreover have "pipeline demo_env (wf_steps demo_workflow) ''on'' 0 = (Ok ''Go on!'', 2)" by code_simp
  ultimately show ?thesis
    using sequential_is_pipeline [of demo_env 5 demo_engine _ demo_workflow 0, OF _ demo_run(1)] by (simp add: demo_run del: One_nat_def)
qed

section \<open>Messages\<close>

text \<open>A world that counts the messages sent, and the most that a step can send.\<close>

definition counted_env :: "('a, 'w) workflow_env \<Rightarrow> ('a, 'w \<times> nat) workflow_env" where
  "counted_env env =
     \<lparr>resolve_agent = resolve_agent env,
      send_message = (\<lambda>q x. case send_message env q (fst x) of (r, w1) \<Rightarrow> (r, (w1, snd x + 1))),
      send_all = (\<lambda>qs x. case send_all env qs (fst x) of (rs, w1) \<Rightarrow> (rs, (w1, snd x + length qs))),
      now_ms = (\<lambda>x. now_ms env (fst x)), map_order = map_order env\<rparr>"

definition attempts :: "workflow_step \<Rightarrow> nat" where
  "attempts s = (case error_mode s of RetryStep n \<Rightarrow> n + 1 | _ \<Rightarrow> 1)"

definition step_cost :: "workflow_step \<Rightarrow> nat" where
  "step_cost s =
     (case step_mode s of
        Sequential \<Rightarrow> attempts s
      | Conditional _ \<Rightarrow> attempts s
      | FanOut \<Rightarrow> 1
      | Collect \<Rightarrow> 0
      | LoopUntil n _ \<Rightarrow> n * attempts s)"

abbreviation sent :: "('i, 'r, 'a, 'w \<times> nat) run_exec \<Rightarrow> nat" where
  "sent st \<equiv> snd (world st)"

lemma retry_sent: "snd (snd (retry_step (counted_env env) step agent prompt left le x)) \<le> snd x + left"
proof (induction left arbitrary: le x)
  case (Suc left)
  obtain r w1 where r: "send_message env (timeout_secs step, agent, prompt) (fst x) = (r, w1)" by (metis surj_pair)
  then have c: "send_message (counted_env env) (timeout_secs step, agent, prompt) x = (r, (w1, snd x + 1))"
    by (simp add: counted_env_def)
  show ?case
    using Suc.IH [of _ "(w1, snd x + 1)"] by (cases r) (simp_all add: c)
qed simp

lemma execute_sent: "snd (snd (execute_step_with_error_mode (counted_env env) step agent prompt x)) \<le> snd x + attempts step"
proof -
  obtain r w1 where "send_message env (timeout_secs step, agent, prompt) (fst x) = (r, w1)" by (metis surj_pair)
  then have c: "send_message (counted_env env) (timeout_secs step, agent, prompt) x = (r, (w1, snd x + 1))"
    by (simp add: counted_env_def)
  show ?thesis
  proof (cases "error_mode step")
    case (RetryStep n)
    obtain q y where q: "retry_step (counted_env env) step agent prompt (Suc n) [] x = (q, y)" by (metis surj_pair)
    with retry_sent [of env step agent prompt "Suc n" "[]" x] RetryStep show ?thesis
      by (cases q) (simp_all add: execute_step_with_error_mode_def attempts_def del: retry_step.simps)
  qed (cases r; simp add: execute_step_with_error_mode_def attempts_def c)+
qed

lemma set_var_world [simp]: "world (set_var v out st) = world st"
  by (simp add: set_var_def split: option.split)

lemma ask_sent: "sent (snd (ask_agent (counted_env env) rid step shown agent name st)) \<le> sent st + attempts step"
proof -
  let ?p = "expand_variables (map_order (counted_env env)) (prompt_template step) (current_input st) (variables st)"
  obtain r w1 where x: "execute_step_with_error_mode (counted_env env) step agent ?p (world st) = (r, w1)"
    by (metis surj_pair)
  with execute_sent [of env step agent ?p "world st"] show ?thesis
    by (auto simp: ask_agent_def Let_def split: sum.split option.split)
qed

lemma sequential_sent: "sent (snd (sequential_step (counted_env env) rid step st)) \<le> sent st + attempts step"
proof (cases "resolve_agent (counted_env env) (step_agent step)")
  case (Some p)
  obtain agent name where p: "p = (agent, name)" by (cases p)
  obtain res st1 where a: "ask_agent (counted_env env) rid step (step_name step) agent name st = (res, st1)"
    by (metis surj_pair)
  have "sent st1 \<le> sent st + attempts step"
    using ask_sent [of env rid step "step_name step" agent name st] a by simp
  with a Some p show ?thesis by (auto simp: sequential_step_def split: sum.split option.split)
qed (simp add: sequential_step_def)

lemma gather_world: "world (snd (gather env rid ms infos st)) = world st"
  by (induction env rid ms infos st rule: gather.induct) simp_all

lemma prepare_length: "prepare_sendings env ss st = Ok infos \<Longrightarrow> length infos = length ss"
  by (induction ss arbitrary: infos) (auto simp: map_sum_Inr split: option.splits)

lemma fan_out_sent: "sent (snd (fan_out (counted_env env) rid fans st)) \<le> sent st + length fans"
proof (cases "prepare_sendings (counted_env env) fans st")
  case (Inr infos)
  obtain rs w1 where w: "send_all env (map (\<lambda>(_, _, _, q). q) infos) (fst (world st)) = (rs, w1)" by (metis surj_pair)
  have "send_all (counted_env env) (map (\<lambda>(_, _, _, q). q) infos) (world st) = (rs, (w1, sent st + length infos))"
    using w by (simp add: counted_env_def)
  with Inr prepare_length [OF Inr] show ?thesis by (simp add: fan_out_def gather_world)
qed (simp add: fan_out_def)

lemma loop_rounds_sent:
  "sent (snd (loop_rounds (counted_env env) rid step u agent name left k st)) \<le> sent st + left * attempts step"
proof (induction left arbitrary: k st)
  case (Suc left)
  obtain res st1 where a: "ask_agent (counted_env env) rid step (step_name step @ '' (iter '' @ show_nat (k + 1) @ '')'')
      agent name st = (res, st1)" by (metis surj_pair)
  have 1: "sent st1 \<le> sent st + attempts step"
    using ask_sent [of env rid step "step_name step @ '' (iter '' @ show_nat (k + 1) @ '')''" agent name st] a by simp
  show ?case
  proof (cases res)
    case (Inl err)
    with a 1 show ?thesis by simp
  next
    case (Inr o1)
    show ?thesis
    proof (cases o1)
      case None
      with a Inr 1 show ?thesis by simp
    next
      case (Some out)
      with a Inr 1 Suc.IH [of "k + 1" "st1\<lparr>current_input := out\<rparr>"] show ?thesis by (simp add: Let_def)
    qed
  qed
qed simp

lemma loop_sent: "sent (snd (loop_step (counted_env env) rid step n u st)) \<le> sent st + n * attempts step"
proof (cases "resolve_agent (counted_env env) (step_agent step)")
  case (Some p)
  obtain agent name where p: "p = (agent, name)" by (cases p)
  obtain res st1 where a: "loop_rounds (counted_env env) rid step (to_lowercase u) agent name n 0 st = (res, st1)"
    by (metis surj_pair)
  have "sent st1 \<le> sent st + n * attempts step"
    using loop_rounds_sent [of env rid step "to_lowercase u" agent name n 0 st] a by simp
  with a Some p show ?thesis by (cases res) (simp_all add: loop_step_def)
qed (simp add: loop_step_def)

lemma takeWhile_cost: "sum_list (map step_cost (takeWhile is_fan_out ss)) = length (takeWhile is_fan_out ss)"
  by (induction ss) (simp_all add: is_fan_out_def step_cost_def)

lemma run_step_sent:
  "sent (snd (run_step (counted_env env) rid s ss st)) \<le> sent st
     + sum_list (map step_cost (if is_fan_out s then s # takeWhile is_fan_out ss else [s]))"
proof (cases "step_mode s")
  case FanOut
  then show ?thesis
    using fan_out_sent [of env rid "s # takeWhile is_fan_out ss" st]
    by (simp add: run_step_def is_fan_out_def [of s] step_cost_def [of s] takeWhile_cost)
qed (simp_all add: run_step_def is_fan_out_def step_cost_def sequential_sent loop_sent collect_step_def Let_def
  le_SucI trans_le_add1)

lemma run_steps_sent:
  "sent (snd (run_steps (counted_env env) rid ss st)) \<le> sent st + sum_list (map step_cost ss)"
proof (induction "counted_env env" rid ss st rule: run_steps.induct)
  case (2 rid s ss st)
  let ?now = "if is_fan_out s then s # takeWhile is_fan_out ss else [s]"
  let ?later = "if is_fan_out s then dropWhile is_fan_out ss else ss"
  have "s # ss = ?now @ ?later" by simp
  then have cost: "sum_list (map step_cost (s # ss)) = sum_list (map step_cost ?now) + sum_list (map step_cost ?later)"
    by (metis map_append sum_list.append)
  obtain res st1 where r: "run_step (counted_env env) rid s ss st = (res, st1)" by (metis surj_pair)
  have 1: "sent st1 \<le> sent st + sum_list (map step_cost ?now)"
    using run_step_sent [of env rid s ss st] r by simp
  show ?case
  proof (cases res)
    case (Inl err)
    with r 1 cost show ?thesis by (simp del: list.map)
  next
    case (Inr u)
    have "sent (snd (run_steps (counted_env env) rid ?later st1)) \<le> sent st1 + sum_list (map step_cost ?later)"
      by (rule 2(1) [OF r [symmetric]]) (use Inr in simp_all)
    with r 1 cost Inr show ?thesis by (simp del: list.map)
  qed
qed simp

text \<open>
  C25: A workflow is bounded. A run sends at most one message per step and attempt, times the rounds of a
  loop, whatever the agents answer: the sum over the steps of what each may send.
\<close>

theorem workflow_messages_bounded:
  assumes "get_run rid e = Some run" "workflows e (run_workflow_id run) = Some d"
  shows "snd (snd (snd (execute_run (counted_env env) rid e (w, 0)))) \<le> sum_list (map step_cost (wf_steps d))"
proof -
  let ?st0 = "\<lparr>current_input = run_input run, all_outputs = [], variables = [],
    engine = on_run rid (\<lambda>r. r\<lparr>run_state := Running\<rparr>) e, world = (w, 0)\<rparr>"
  obtain res st where run: "run_steps (counted_env env) rid (wf_steps d) ?st0 = (res, st)" by (metis surj_pair)
  have "sent st \<le> sum_list (map step_cost (wf_steps d))"
    using run_steps_sent [of env rid "wf_steps d" ?st0] run by simp
  with assms run show ?thesis by (cases res) (simp_all add: execute_run_def Let_def)
qed

lemma workflow_messages_bounded_witness:
  "snd (snd (snd (execute_run (counted_env demo_env) 5 demo_engine (0, 0)))) \<le> 2"
proof -
  have "workflows demo_engine (run_workflow_id (the (get_run 5 demo_engine))) = Some demo_workflow"
    by (simp add: demo_run del: One_nat_def)
  moreover have "sum_list (map step_cost (wf_steps demo_workflow)) = 2" by code_simp
  ultimately show ?thesis
    using workflow_messages_bounded [OF demo_run(1), of demo_workflow demo_env 0] by (simp add: demo_run del: One_nat_def)
qed

section \<open>Which runs are kept\<close>

lemma length_filter_notin:
  assumes "distinct xs" "set ys \<subseteq> set xs" "distinct ys"
  shows "length (filter (\<lambda>x. x \<notin> set ys) xs) = length xs - length ys"
proof -
  have "length (filter (\<lambda>x. x \<notin> set ys) xs) = card (set xs - set ys)"
    using assms(1) by (metis distinct_card distinct_filter set_diff_eq set_filter)
  then show ?thesis using assms by (simp add: card_Diff_subset distinct_card)
qed

lemma evicted_facts:
  assumes "distinct (map fst rs)"
  shows "set (evicted rs) \<subseteq> {i. \<exists>r. (i, r) \<in> set rs \<and> finished_run r}" "distinct (evicted rs)"
    "length (evicted rs) = min (length rs - max_retained_runs) (length (filter (\<lambda>(i, r). finished_run r) rs))"
proof -
  let ?f = "sort_key (\<lambda>(i, r). started_at r) (filter (\<lambda>(i, r). finished_run r) rs)"
  have "set (map fst ?f) \<subseteq> {i. \<exists>r. (i, r) \<in> set rs \<and> finished_run r}" by force
  then show "set (evicted rs) \<subseteq> {i. \<exists>r. (i, r) \<in> set rs \<and> finished_run r}"
    using set_take_subset [of _ "map fst ?f"] unfolding evicted_def by (auto split: if_splits) blast
  have "distinct (map fst ?f)"
    using distinct_map_filter [OF assms, of "\<lambda>(i, r). finished_run r"] by (simp add: distinct_map)
  then show "distinct (evicted rs)" unfolding evicted_def by (simp add: distinct_take)
  show "length (evicted rs) = min (length rs - max_retained_runs) (length (filter (\<lambda>(i, r). finished_run r) rs))"
    by (simp add: evicted_def min.commute)
qed

text \<open>
  The number of runs kept. Creating a run keeps every run that is not finished; afterwards at most 200
  runs are left or none of them is finished. So runs that are never finished accumulate without bound.
\<close>

theorem retained_runs:
  assumes "distinct (map fst (runs e))" "create_run now rid wid input e = (Some rid, e')"
  shows "distinct (map fst (runs e'))
    \<and> (length (runs e') \<le> max_retained_runs \<or> (\<forall>(i, r) \<in> set (runs e'). \<not> finished_run r))
    \<and> (\<forall>i r. i \<noteq> rid \<longrightarrow> get_run i e = Some r \<longrightarrow> \<not> finished_run r \<longrightarrow> get_run i e' = Some r)
    \<and> (\<exists>r. get_run rid e' = Some r \<and> run_state r = Pending \<and> run_input r = input)"
proof -
  obtain w where w: "workflows e wid = Some w"
    using assms(2) by (auto simp: create_run_def split: option.splits)
  obtain new where new: "runs e' = filter (\<lambda>(i, r). i \<notin> set (evicted (AList.update rid new (runs e)))) (AList.update rid new (runs e))"
    "run_state new = Pending" "run_input new = input"
    using assms(2) w by (auto simp: create_run_def Let_def)
  define rs where "rs = AList.update rid new (runs e)"
  have d: "distinct (map fst rs)" unfolding rs_def by (rule distinct_update [OF assms(1)])
  have e': "runs e' = filter (\<lambda>(i, r). i \<notin> set (evicted rs)) rs"
    using new(1) by (simp add: rs_def)
  have get: "map_of rs = (map_of (runs e))(rid \<mapsto> new)" unfolding rs_def by (rule ext) (simp add: update_conv')
  note ev = evicted_facts [OF d]
  have keep: "map_of (runs e') i = Some r" if "map_of rs i = Some r" "\<not> finished_run r" for i r
  proof -
    have "i \<notin> set (evicted rs)"
    proof
      assume "i \<in> set (evicted rs)"
      with ev(1) obtain r' where "(i, r') \<in> set rs" "finished_run r'" by blast
      with d that show False by (simp add: map_of_is_SomeI)
    qed
    moreover have "(i, r) \<in> set rs" using that(1) by (rule map_of_SomeD)
    ultimately show ?thesis unfolding e' using d
      by (intro map_of_is_SomeI) (auto simp: distinct_map_filter)
  qed
  have "length (runs e') = length (filter (\<lambda>i. i \<notin> set (evicted rs)) (map fst rs))"
    unfolding e' by (simp add: filter_map o_def split_def)
  also have "\<dots> = length rs - length (evicted rs)"
    using length_filter_notin [OF d _ ev(2)] ev(1) by force
  finally have len: "length (runs e') = length rs - length (evicted rs)" .
  have "length (runs e') \<le> max_retained_runs \<or> (\<forall>(i, r) \<in> set (runs e'). \<not> finished_run r)"
  proof (cases "length rs - max_retained_runs \<le> length (filter (\<lambda>(i, r). finished_run r) rs)")
    case True
    with len ev(3) have "length (runs e') \<le> max_retained_runs" by linarith
    then show ?thesis ..
  next
    case False
    then have all: "set (evicted rs) = fst ` set (filter (\<lambda>(i, r). finished_run r) rs)"
      by (auto simp: evicted_def)
    show ?thesis unfolding e' all by force
  qed
  moreover have "distinct (map fst (runs e'))" unfolding e' by (rule distinct_map_filter [OF d])
  moreover have "get_run rid e' = Some new"
    using keep [of rid new] get new(2) by (simp add: get_run_def finished_run_def)
  moreover have "get_run i e' = Some r" if "i \<noteq> rid" "get_run i e = Some r" "\<not> finished_run r" for i r
    using keep [of i r] get that by (simp add: get_run_def)
  ultimately show ?thesis using new(2,3) by blast
qed

lemma retained_runs_witness:
  "get_run 5 (snd (create_run 9 6 1 ''x'' demo_engine)) \<noteq> None \<and> length (runs (snd (create_run 9 6 1 ''x'' demo_engine))) = 2"
proof -
  obtain e' where x: "create_run 9 6 1 ''x'' demo_engine = (Some 6, e')"
    by (simp add: create_run_def demo_run Let_def del: One_nat_def)
  have "length (runs (snd (create_run 9 6 1 ''x'' demo_engine))) = 2" by code_simp
  with retained_runs [OF demo_run(3) x] demo_run(1) x show ?thesis by (simp add: finished_run_def del: One_nat_def)
qed

section \<open>Variables\<close>

text \<open>
  The result of an expansion depends on the order of the hash map when a value holds a reference, and
  references that come in with the input are expanded too.
\<close>

lemma expansion_order_matters:
  "expand_variables id ''{{a}}'' [] [(''a'', ''{{b}}''), (''b'', ''x'')] = ''x''"
  "expand_variables rev ''{{a}}'' [] [(''a'', ''{{b}}''), (''b'', ''x'')] = ''{{b}}''"
  "expand_variables id ''Say {{input}}'' ''{{key}}'' [(''key'', ''secret'')] = ''Say secret''"
  by code_simp+

end
