(* ===== verification/Cron.thy ===== *)
theory Cron
  imports Str_Utils "HOL-Library.AList"
begin

text \<open>
  Scheduled jobs: \<open>clawreform-types/src/scheduler.rs\<close> (jobs and their validation),
  \<open>clawreform-kernel/src/cron.rs\<close> (the scheduler) and the tick loop of the kernel.

  Times are nanoseconds since the epoch; an operation reads the clock once. The crate \<open>cron\<close> is the parameter
  \<open>upcoming\<close>: for an expression of seven fields and a time it gives \<open>None\<close> when the expression does not
  parse, and otherwise the next time that matches, if there is one. \<open>plain_text\<close> answers whether every
  character is alphanumeric by Unicode's tables, a space, a hyphen or an underscore.
\<close>

section \<open>Jobs\<close>

type_synonym instant = int

definition seconds :: "int \<Rightarrow> int" where
  "seconds n = n * 1000000000"

text \<open>The cast \<open>as i64\<close> of a \<open>u64\<close>.\<close>

definition as_i64 :: "nat \<Rightarrow> int" where
  "as_i64 n = (if n < 2 ^ 63 then int n else int n - 2 ^ 64)"

datatype cron_schedule =
    At instant
  | Every nat
  | CronExpr string "string option"

datatype cron_action =
    CronEvent string
  | AgentTurn string "string option" "nat option"

datatype cron_delivery =
    NoDelivery
  | ToChannel string string
  | LastChannel
  | ToWebhook string

record cron_job =
  job_id :: nat
  job_agent :: string
  job_name :: string
  job_enabled :: bool
  job_schedule :: cron_schedule
  job_action :: cron_action
  job_delivery :: cron_delivery
  job_created :: instant
  last_run :: "instant option"
  next_run :: "instant option"

datatype job_invalid =
    TooManyJobs nat
  | JobNameEmpty
  | JobNameTooLong nat
  | JobNameCharacters
  | EveryTooSmall nat
  | EveryTooLarge nat
  | AtInThePast
  | AtTooFar
  | ExprEmpty
  | ExprFieldCount nat
  | ExprCharacters string
  | EventEmpty
  | EventTooLong nat
  | TurnEmpty
  | TurnTooLong nat
  | TurnTimeoutTooSmall nat
  | TurnTimeoutTooLarge nat
  | ChannelEmpty
  | RecipientEmpty
  | UrlScheme
  | UrlTooLong nat

definition max_jobs_per_agent :: nat where "max_jobs_per_agent = 50"
definition max_name_len :: nat where "max_name_len = 128"
definition min_every_secs :: nat where "min_every_secs = 60"
definition max_every_secs :: nat where "max_every_secs = 86400"
definition max_at_horizon_secs :: int where "max_at_horizon_secs = 365 * 24 * 3600"
definition max_event_text_len :: nat where "max_event_text_len = 4096"
definition max_turn_message_len :: nat where "max_turn_message_len = 16384"
definition min_turn_timeout :: nat where "min_turn_timeout = 10"
definition max_turn_timeout :: nat where "max_turn_timeout = 600"
definition max_webhook_url_len :: nat where "max_webhook_url_len = 2048"

definition cron_char :: "char \<Rightarrow> bool" where
  "cron_char c \<longleftrightarrow> c \<in> set ''0123456789*/-,?''"

definition validate_cron_expr :: "string \<Rightarrow> (unit, job_invalid) result" where
  "validate_cron_expr expr =
     (let trimmed = trim expr; fields = split_whitespace trimmed
      in if trimmed = [] then Err ExprEmpty
         else if length fields \<noteq> 5 then Err (ExprFieldCount (length fields))
         else case find (\<lambda>f. \<not> list_all cron_char f) fields of
                Some f \<Rightarrow> Err (ExprCharacters f)
              | None \<Rightarrow> Ok ())"

definition validate_schedule :: "instant \<Rightarrow> cron_schedule \<Rightarrow> (unit, job_invalid) result" where
  "validate_schedule now sch =
     (case sch of
        Every n \<Rightarrow>
          if n < min_every_secs then Err (EveryTooSmall n)
          else if n > max_every_secs then Err (EveryTooLarge n)
          else Ok ()
      | At t \<Rightarrow>
          if t \<le> now then Err AtInThePast
          else if (t - now) div seconds 1 > max_at_horizon_secs then Err AtTooFar
          else Ok ()
      | CronExpr expr _ \<Rightarrow> validate_cron_expr expr)"

definition validate_action :: "cron_action \<Rightarrow> (unit, job_invalid) result" where
  "validate_action act =
     (case act of
        CronEvent t \<Rightarrow>
          if t = [] then Err EventEmpty
          else if length t > max_event_text_len then Err (EventTooLong (length t))
          else Ok ()
      | AgentTurn msg _ timeout \<Rightarrow>
          if msg = [] then Err TurnEmpty
          else if length msg > max_turn_message_len then Err (TurnTooLong (length msg))
          else (case timeout of
                  None \<Rightarrow> Ok ()
                | Some t \<Rightarrow>
                    if t < min_turn_timeout then Err (TurnTimeoutTooSmall t)
                    else if t > max_turn_timeout then Err (TurnTimeoutTooLarge t)
                    else Ok ()))"

definition validate_delivery :: "cron_delivery \<Rightarrow> (unit, job_invalid) result" where
  "validate_delivery d =
     (case d of
        ToChannel channel recipient \<Rightarrow>
          if channel = [] then Err ChannelEmpty else if recipient = [] then Err RecipientEmpty else Ok ()
      | ToWebhook url \<Rightarrow>
          if \<not> starts_with url ''http://'' \<and> \<not> starts_with url ''https://'' then Err UrlScheme
          else if length url > max_webhook_url_len then Err (UrlTooLong (length url))
          else Ok ()
      | _ \<Rightarrow> Ok ())"

text \<open>\<open>?\<close> on a check without a value.\<close>

definition and_then :: "(unit, 'e) result \<Rightarrow> (unit, 'e) result \<Rightarrow> (unit, 'e) result" where
  "and_then a b = (case a of Inl e \<Rightarrow> Err e | Inr _ \<Rightarrow> b)"

definition validate_job :: "(string \<Rightarrow> bool) \<Rightarrow> instant \<Rightarrow> cron_job \<Rightarrow> nat \<Rightarrow> (unit, job_invalid) result" where
  "validate_job plain_text now job existing_count =
     (if existing_count \<ge> max_jobs_per_agent then Err (TooManyJobs existing_count)
      else if job_name job = [] then Err JobNameEmpty
      else if length (job_name job) > max_name_len then Err (JobNameTooLong (length (job_name job)))
      else if \<not> plain_text (job_name job) then Err JobNameCharacters
      else and_then (validate_schedule now (job_schedule job))
             (and_then (validate_action (job_action job)) (validate_delivery (job_delivery job))))"

section \<open>The scheduler\<close>

record job_meta =
  meta_job :: cron_job
  one_shot :: bool
  last_status :: "string option"
  consecutive_errors :: nat

definition new_meta :: "cron_job \<Rightarrow> bool \<Rightarrow> job_meta" where
  "new_meta job once = \<lparr>meta_job = job, one_shot = once, last_status = None, consecutive_errors = 0\<rparr>"

text \<open>The jobs in the order in which the concurrent map is iterated.\<close>

record cron_scheduler =
  jobs :: "(nat \<times> job_meta) list"
  max_total_jobs :: nat

definition max_consecutive_errors :: nat where
  "max_consecutive_errors = 5"

type_synonym cron_crate = "string \<Rightarrow> instant \<Rightarrow> instant option option"

definition seven_field :: "string \<Rightarrow> string" where
  "seven_field expr =
     (let trimmed = trim expr; n = length (split_whitespace trimmed)
      in if n = 5 then ''0 '' @ trimmed @ '' *'' else if n = 6 then trimmed @ '' *'' else expr)"

definition compute_next_run :: "cron_crate \<Rightarrow> instant \<Rightarrow> cron_schedule \<Rightarrow> instant" where
  "compute_next_run upcoming now sch =
     (case sch of
        At t \<Rightarrow> t
      | Every n \<Rightarrow> now + seconds (as_i64 n)
      | CronExpr expr _ \<Rightarrow>
          (case upcoming (seven_field expr) now of
             Some (Some t) \<Rightarrow> t
           | Some None \<Rightarrow> now + seconds 3600
           | None \<Rightarrow> now + seconds 3600))"

definition new_cron :: "nat \<Rightarrow> cron_scheduler" where
  "new_cron n = \<lparr>jobs = [], max_total_jobs = n\<rparr>"

definition set_max_total_jobs :: "nat \<Rightarrow> cron_scheduler \<Rightarrow> cron_scheduler" where
  "set_max_total_jobs n s = s\<lparr>max_total_jobs := n\<rparr>"

text \<open>What is serialized to the file and what is done with the list read back.\<close>

definition persisted :: "cron_scheduler \<Rightarrow> job_meta list" where
  "persisted s = map snd (jobs s)"

definition load_jobs :: "job_meta list \<Rightarrow> cron_scheduler \<Rightarrow> nat \<times> cron_scheduler" where
  "load_jobs metas s =
     (length metas, s\<lparr>jobs := foldl (\<lambda>js m. AList.update (job_id (meta_job m)) m js) (jobs s) metas\<rparr>)"

datatype cron_error =
    GlobalLimit nat
  | InvalidJob job_invalid
  | JobNotFound nat

definition schedule_next :: "cron_crate \<Rightarrow> instant \<Rightarrow> cron_job \<Rightarrow> cron_job" where
  "schedule_next upcoming now j = j\<lparr>next_run := Some (compute_next_run upcoming now (job_schedule j))\<rparr>"

definition jobs_of :: "string \<Rightarrow> cron_scheduler \<Rightarrow> cron_job list" where
  "jobs_of agent s = filter (\<lambda>j. job_agent j = agent) (map (meta_job \<circ> snd) (jobs s))"

definition add_job ::
  "(string \<Rightarrow> bool) \<Rightarrow> cron_crate \<Rightarrow> instant \<Rightarrow> cron_job \<Rightarrow> bool \<Rightarrow> cron_scheduler
   \<Rightarrow> (nat, cron_error) result \<times> cron_scheduler" where
  "add_job plain_text upcoming now job once s =
     (if length (jobs s) \<ge> max_total_jobs s then (Err (GlobalLimit (max_total_jobs s)), s)
      else case validate_job plain_text now job (length (jobs_of (job_agent job) s)) of
             Inl e \<Rightarrow> (Err (InvalidJob e), s)
           | Inr _ \<Rightarrow>
               (Ok (job_id job),
                s\<lparr>jobs := AList.update (job_id job) (new_meta (schedule_next upcoming now job) once) (jobs s)\<rparr>))"

definition remove_job :: "nat \<Rightarrow> cron_scheduler \<Rightarrow> (cron_job, cron_error) result \<times> cron_scheduler" where
  "remove_job i s =
     (case map_of (jobs s) i of
        None \<Rightarrow> (Err (JobNotFound i), s)
      | Some m \<Rightarrow> (Ok (meta_job m), s\<lparr>jobs := AList.delete i (jobs s)\<rparr>))"

definition set_enabled ::
  "cron_crate \<Rightarrow> instant \<Rightarrow> nat \<Rightarrow> bool \<Rightarrow> cron_scheduler \<Rightarrow> (unit, cron_error) result \<times> cron_scheduler" where
  "set_enabled upcoming now i on s =
     (case map_of (jobs s) i of
        None \<Rightarrow> (Err (JobNotFound i), s)
      | Some m \<Rightarrow>
          let m1 = m\<lparr>meta_job := (meta_job m)\<lparr>job_enabled := on\<rparr>\<rparr>;
              m2 = (if on then m1\<lparr>consecutive_errors := 0, meta_job := schedule_next upcoming now (meta_job m1)\<rparr> else m1)
          in (Ok (), s\<lparr>jobs := AList.update i m2 (jobs s)\<rparr>))"

definition get_job :: "nat \<Rightarrow> cron_scheduler \<Rightarrow> cron_job option" where
  "get_job i s = map_option meta_job (map_of (jobs s) i)"

definition get_meta :: "nat \<Rightarrow> cron_scheduler \<Rightarrow> job_meta option" where
  "get_meta i s = map_of (jobs s) i"

definition list_all_jobs :: "cron_scheduler \<Rightarrow> cron_job list" where
  "list_all_jobs s = map (meta_job \<circ> snd) (jobs s)"

definition total_jobs :: "cron_scheduler \<Rightarrow> nat" where
  "total_jobs s = length (jobs s)"

definition is_due :: "instant \<Rightarrow> job_meta \<Rightarrow> bool" where
  "is_due now m \<longleftrightarrow> job_enabled (meta_job m) \<and> (case next_run (meta_job m) of None \<Rightarrow> False | Some t \<Rightarrow> t \<le> now)"

definition due_jobs :: "cron_crate \<Rightarrow> instant \<Rightarrow> cron_scheduler \<Rightarrow> cron_job list \<times> cron_scheduler" where
  "due_jobs upcoming now s =
     (map (meta_job \<circ> snd) (filter (\<lambda>(i, m). is_due now m) (jobs s)),
      s\<lparr>jobs := map (\<lambda>(i, m). (i, if is_due now m then m\<lparr>meta_job := schedule_next upcoming now (meta_job m)\<rparr> else m))
         (jobs s)\<rparr>)"

definition record_success :: "cron_crate \<Rightarrow> instant \<Rightarrow> nat \<Rightarrow> cron_scheduler \<Rightarrow> cron_scheduler" where
  "record_success upcoming now i s =
     (case map_of (jobs s) i of
        None \<Rightarrow> s
      | Some m \<Rightarrow>
          if one_shot m then s\<lparr>jobs := AList.delete i (jobs s)\<rparr>
          else s\<lparr>jobs := AList.update i
                 (m\<lparr>meta_job := schedule_next upcoming now ((meta_job m)\<lparr>last_run := Some now\<rparr>),
                    last_status := Some ''ok'', consecutive_errors := 0\<rparr>) (jobs s)\<rparr>)"

text \<open>The slice of the message panics inside a character; the time of the run has been set by then.\<close>

definition record_failure ::
  "cron_crate \<Rightarrow> instant \<Rightarrow> nat \<Rightarrow> string \<Rightarrow> cron_scheduler \<Rightarrow> (unit, panic) result \<times> cron_scheduler" where
  "record_failure upcoming now i msg s =
     (case map_of (jobs s) i of
        None \<Rightarrow> (Ok (), s)
      | Some m \<Rightarrow>
          let j = (meta_job m)\<lparr>last_run := Some now\<rparr>
          in case slice_to msg (min (length msg) 256) of
               Inl p \<Rightarrow> (Err p, s\<lparr>jobs := AList.update i (m\<lparr>meta_job := j\<rparr>) (jobs s)\<rparr>)
             | Inr short \<Rightarrow>
                 let n = consecutive_errors m + 1;
                     j1 = (if n \<ge> max_consecutive_errors then j\<lparr>job_enabled := False\<rparr> else schedule_next upcoming now j)
                 in (Ok (), s\<lparr>jobs := AList.update i
                       (m\<lparr>meta_job := j1, last_status := Some (''error: '' @ short), consecutive_errors := n\<rparr>) (jobs s)\<rparr>))"

section \<open>The tick loop of the kernel\<close>

datatype turn_outcome =
    TurnReplied string
  | TurnFailed string
  | TurnTimedOut

text \<open>What the kernel does with the world \<open>'w\<close>: events, turns of agents under a timeout, deliveries, the clock.\<close>

record 'w cron_world =
  publish_cron :: "string \<Rightarrow> string \<Rightarrow> nat \<Rightarrow> 'w \<Rightarrow> 'w"
  send_turn :: "string \<Rightarrow> string \<Rightarrow> nat \<Rightarrow> 'w \<Rightarrow> turn_outcome \<times> 'w"
  set_last_channel :: "string \<Rightarrow> string \<Rightarrow> string \<Rightarrow> 'w \<Rightarrow> 'w"
  post_webhook :: "string \<Rightarrow> string \<Rightarrow> string \<Rightarrow> 'w \<Rightarrow> 'w"
  clock :: "'w \<Rightarrow> instant"

definition cron_deliver_response :: "'w cron_world \<Rightarrow> string \<Rightarrow> string \<Rightarrow> cron_delivery \<Rightarrow> 'w \<Rightarrow> 'w" where
  "cron_deliver_response env agent response d w =
     (if response = [] then w
      else case d of
             NoDelivery \<Rightarrow> w
           | ToChannel channel recipient \<Rightarrow> set_last_channel env agent channel recipient w
           | LastChannel \<Rightarrow> w
           | ToWebhook url \<Rightarrow> post_webhook env url agent response w)"

text \<open>One due job: whether the loop panicked, the scheduler and the world.\<close>

definition fire_job ::
  "cron_crate \<Rightarrow> 'w cron_world \<Rightarrow> cron_job \<Rightarrow> cron_scheduler \<times> 'w \<Rightarrow> (unit, panic) result \<times> cron_scheduler \<times> 'w" where
  "fire_job upcoming env job st =
     (case st of (s, w) \<Rightarrow>
        case job_action job of
          CronEvent t \<Rightarrow>
            let w1 = publish_cron env (''cron.'' @ job_name job) t (job_id job) w
            in (Ok (), record_success upcoming (clock env w1) (job_id job) s, w1)
        | AgentTurn msg _ timeout \<Rightarrow>
            let secs = (case timeout of None \<Rightarrow> 120 | Some t \<Rightarrow> t)
            in (case send_turn env (job_agent job) msg secs w of
                  (TurnReplied response, w1) \<Rightarrow>
                    (Ok (), record_success upcoming (clock env w1) (job_id job) s,
                     cron_deliver_response env (job_agent job) response (job_delivery job) w1)
                | (TurnFailed e, w1) \<Rightarrow>
                    (case record_failure upcoming (clock env w1) (job_id job) e s of (r, s1) \<Rightarrow> (r, s1, w1))
                | (TurnTimedOut, w1) \<Rightarrow>
                    (case record_failure upcoming (clock env w1) (job_id job)
                         (''timed out after '' @ show_nat secs @ ''s'') s of (r, s1) \<Rightarrow> (r, s1, w1))))"

fun fire_jobs ::
  "cron_crate \<Rightarrow> 'w cron_world \<Rightarrow> cron_job list \<Rightarrow> cron_scheduler \<times> 'w \<Rightarrow> (unit, panic) result \<times> cron_scheduler \<times> 'w" where
  "fire_jobs upcoming env [] st = (Ok (), st)"
| "fire_jobs upcoming env (j # js) st =
     (case fire_job upcoming env j st of
        (Inl p, st1) \<Rightarrow> (Err p, st1)
      | (Inr _, st1) \<Rightarrow> fire_jobs upcoming env js st1)"

definition cron_tick :: "cron_crate \<Rightarrow> 'w cron_world \<Rightarrow> cron_scheduler \<times> 'w \<Rightarrow> (unit, panic) result \<times> cron_scheduler \<times> 'w" where
  "cron_tick upcoming env st =
     (case st of (s, w) \<Rightarrow>
        let (due, s1) = due_jobs upcoming (clock env w) s
        in fire_jobs upcoming env due (s1, w))"

section \<open>The map of jobs\<close>

text \<open>Every job is stored once, under its own identifier.\<close>

definition jobs_ok :: "cron_scheduler \<Rightarrow> bool" where
  "jobs_ok s \<longleftrightarrow> distinct (map fst (jobs s)) \<and> (\<forall>(i, m) \<in> set (jobs s). job_id (meta_job m) = i)"

lemma schedule_next_simps [simp]:
  "job_id (schedule_next up now j) = job_id j" "job_agent (schedule_next up now j) = job_agent j"
  "job_schedule (schedule_next up now j) = job_schedule j" "job_enabled (schedule_next up now j) = job_enabled j"
  "next_run (schedule_next up now j) = Some (compute_next_run up now (job_schedule j))"
  by (simp_all add: schedule_next_def)

lemma jobs_ok_get: "jobs_ok s \<Longrightarrow> map_of (jobs s) i = Some m \<Longrightarrow> job_id (meta_job m) = i"
  by (auto simp: jobs_ok_def dest: map_of_SomeD)

lemma jobs_ok_update:
  assumes "jobs_ok s" "job_id (meta_job m) = i"
  shows "jobs_ok (s\<lparr>jobs := AList.update i m (jobs s)\<rparr>)"
proof -
  have d: "distinct (map fst (AList.update i m (jobs s)))"
    using assms(1) by (simp add: jobs_ok_def distinct_update)
  have "job_id (meta_job m') = j" if "(j, m') \<in> set (AList.update i m (jobs s))" for j m'
  proof -
    from that d have "map_of (AList.update i m (jobs s)) j = Some m'" by (simp add: map_of_is_SomeI)
    then show ?thesis using assms by (auto simp: update_conv' jobs_ok_get split: if_splits)
  qed
  with d show ?thesis by (auto simp: jobs_ok_def)
qed

lemma jobs_ok_delete: "jobs_ok s \<Longrightarrow> jobs_ok (s\<lparr>jobs := AList.delete i (jobs s)\<rparr>)"
  by (auto simp: jobs_ok_def AList.delete_eq intro: distinct_map_filter)

lemma due_map:
  "map_of (jobs (snd (due_jobs up now s))) i =
     map_option (\<lambda>m. if is_due now m then m\<lparr>meta_job := schedule_next up now (meta_job m)\<rparr> else m) (map_of (jobs s) i)"
  by (simp add: due_jobs_def map_of_map)

lemma jobs_ok_due: "jobs_ok s \<Longrightarrow> jobs_ok (snd (due_jobs up now s))"
  by (auto simp: jobs_ok_def due_jobs_def o_def split_def)

lemma due_iff:
  "jobs_ok s \<Longrightarrow> j \<in> set (fst (due_jobs up now s)) \<longleftrightarrow>
     (\<exists>m. map_of (jobs s) (job_id j) = Some m \<and> meta_job m = j \<and> is_due now m)"
  by (force simp: due_jobs_def jobs_ok_def map_of_is_SomeI dest: map_of_SomeD)

section \<open>Any sequence of operations\<close>

datatype cron_op =
    TakeDue
  | Succeed nat
  | Fail nat string
  | Add cron_job bool
  | Remove nat
  | Enable nat bool
  | SetMax nat

fun cron_step :: "(string \<Rightarrow> bool) \<Rightarrow> cron_crate \<Rightarrow> cron_scheduler \<Rightarrow> instant \<times> cron_op \<Rightarrow> cron_scheduler" where
  "cron_step plain up s (now, TakeDue) = snd (due_jobs up now s)"
| "cron_step plain up s (now, Succeed i) = record_success up now i s"
| "cron_step plain up s (now, Fail i msg) = snd (record_failure up now i msg s)"
| "cron_step plain up s (now, Add j once) = snd (add_job plain up now j once s)"
| "cron_step plain up s (now, Remove i) = snd (remove_job i s)"
| "cron_step plain up s (now, Enable i on) = snd (set_enabled up now i on s)"
| "cron_step plain up s (now, SetMax n) = set_max_total_jobs n s"

definition run_cron :: "(string \<Rightarrow> bool) \<Rightarrow> cron_crate \<Rightarrow> cron_scheduler \<Rightarrow> (instant \<times> cron_op) list \<Rightarrow> cron_scheduler" where
  "run_cron plain up s ops = foldl (cron_step plain up) s ops"

lemma run_cron_simps [simp]:
  "run_cron plain up s [] = s"
  "run_cron plain up s (x # xs) = run_cron plain up (cron_step plain up s x) xs"
  by (simp_all add: run_cron_def)

lemma jobs_ok_max: "jobs_ok (s\<lparr>max_total_jobs := n\<rparr>) = jobs_ok s"
  by (simp add: jobs_ok_def)

lemma jobs_ok_step: "jobs_ok s \<Longrightarrow> jobs_ok (cron_step plain up s x)"
  by (cases "(plain, up, s, x)" rule: cron_step.cases)
    (auto simp: jobs_ok_due record_success_def record_failure_def add_job_def remove_job_def set_enabled_def
      set_max_total_jobs_def jobs_ok_max new_meta_def Let_def jobs_ok_get
      intro!: jobs_ok_update jobs_ok_delete split: option.split sum.split)

text \<open>Job \<open>i\<close> repeats every \<open>n\<close> seconds and does not run again before \<open>t\<close>, if it is still there.\<close>

definition quiet :: "nat \<Rightarrow> nat \<Rightarrow> instant \<Rightarrow> cron_scheduler \<Rightarrow> bool" where
  "quiet i n t s \<longleftrightarrow> (\<forall>m. map_of (jobs s) i = Some m \<longrightarrow>
     job_schedule (meta_job m) = Every n \<and> (\<exists>r. next_run (meta_job m) = Some r \<and> t \<le> r))"

definition adds_job :: "nat \<Rightarrow> cron_op \<Rightarrow> bool" where
  "adds_job i op = (case op of Add j _ \<Rightarrow> job_id j = i | _ \<Rightarrow> False)"

lemma quiet_update:
  "quiet i n t s \<Longrightarrow> (k = i \<Longrightarrow> job_schedule (meta_job m) = Every n \<and> (\<exists>r. next_run (meta_job m) = Some r \<and> t \<le> r)) \<Longrightarrow>
   quiet i n t (s\<lparr>jobs := AList.update k m (jobs s)\<rparr>)"
  by (auto simp: quiet_def update_conv')

lemma quiet_delete: "quiet i n t s \<Longrightarrow> quiet i n t (s\<lparr>jobs := AList.delete k (jobs s)\<rparr>)"
  by (auto simp: quiet_def delete_conv' split: if_splits)

lemma next_every [simp]: "compute_next_run up now (Every n) = now + seconds (as_i64 n)"
  by (simp add: compute_next_run_def)

lemma quiet_step:
  assumes "quiet i n (t0 + seconds (as_i64 n)) s" "t0 \<le> fst x" "\<not> adds_job i (snd x)"
  shows "quiet i n (t0 + seconds (as_i64 n)) (cron_step plain up s x)"
proof -
  have get: "job_schedule (meta_job m) = Every n \<and> (\<exists>r. next_run (meta_job m) = Some r \<and> t0 + seconds (as_i64 n) \<le> r)"
    if "map_of (jobs s) i = Some m" for m
    using assms(1) that by (simp add: quiet_def)
  show ?thesis
  proof (cases "(plain, up, s, x)" rule: cron_step.cases)
    case (1 _ _ _ now)
    then show ?thesis using assms by (auto simp: quiet_def due_map)
  next
    case (2 _ _ _ now k)
    with assms get show ?thesis
      by (cases "k = i") (auto simp: record_success_def intro!: quiet_update quiet_delete split: option.split)
  next
    case (3 _ _ _ now k msg)
    with assms get show ?thesis
      by (cases "k = i")
        (auto simp: record_failure_def Let_def intro!: quiet_update split: option.split sum.split)
  next
    case (4 _ _ _ now j once)
    with assms show ?thesis
      by (auto simp: add_job_def adds_job_def intro!: quiet_update split: sum.split)
  next
    case (5 _ _ _ now k)
    with assms show ?thesis by (auto simp: remove_job_def intro!: quiet_delete split: option.split)
  next
    case (6 _ _ _ now k on)
    with assms get show ?thesis
      by (cases "k = i") (auto simp: set_enabled_def Let_def intro!: quiet_update split: option.split)
  next
    case (7 _ _ _ now k)
    with assms show ?thesis by (simp add: set_max_total_jobs_def quiet_def)
  qed
qed

lemma quiet_run:
  "quiet i n (t0 + seconds (as_i64 n)) s \<Longrightarrow> list_all (\<lambda>x. t0 \<le> fst x \<and> \<not> adds_job i (snd x)) ops \<Longrightarrow>
   quiet i n (t0 + seconds (as_i64 n)) (run_cron plain up s ops)"
  by (induction ops arbitrary: s) (simp_all add: quiet_step)

lemma jobs_ok_run: "jobs_ok s \<Longrightarrow> jobs_ok (run_cron plain up s ops)"
  by (induction ops arbitrary: s) (simp_all add: jobs_ok_step)

text \<open>
  C19: A repeating job keeps its interval. Once a job that repeats every n seconds has been handed out, no
  sequence of operations that leaves it in place (outcomes, other jobs, disabling, enabling, more rounds)
  makes it due again before n seconds have passed.
\<close>

theorem interval_kept:
  assumes "jobs_ok s" "j \<in> set (fst (due_jobs up t s))" "job_schedule j = Every n"
    and "list_all (\<lambda>x. t \<le> fst x \<and> \<not> adds_job (job_id j) (snd x)) ops"
    and "t' < t + seconds (as_i64 n)"
  shows "job_id j \<notin> job_id ` set (fst (due_jobs up t' (run_cron plain up (snd (due_jobs up t s)) ops)))"
proof
  let ?s = "run_cron plain up (snd (due_jobs up t s)) ops"
  assume "job_id j \<in> job_id ` set (fst (due_jobs up t' ?s))"
  moreover have ok: "jobs_ok ?s" by (simp add: jobs_ok_run jobs_ok_due assms(1))
  ultimately obtain m where m: "map_of (jobs ?s) (job_id j) = Some m" "is_due t' m"
    by (auto simp: due_iff)
  obtain m0 where m0: "map_of (jobs s) (job_id j) = Some m0" "meta_job m0 = j" "is_due t m0"
    using assms(1,2) by (auto simp: due_iff)
  define up_to where "up_to = schedule_next up t j"
  have "map_of (jobs (snd (due_jobs up t s))) (job_id j) = Some (m0\<lparr>meta_job := up_to\<rparr>)"
    by (simp add: due_map m0 up_to_def)
  then have "quiet (job_id j) n (t + seconds (as_i64 n)) (snd (due_jobs up t s))"
    using assms(3) by (simp add: quiet_def up_to_def)
  then have "quiet (job_id j) n (t + seconds (as_i64 n)) ?s" by (rule quiet_run [OF _ assms(4)])
  with m assms(5) show False by (auto simp: quiet_def is_due_def)
qed

definition demo_job :: "nat \<Rightarrow> cron_schedule \<Rightarrow> cron_job" where
  "demo_job i sch = \<lparr>job_id = i, job_agent = ''a'', job_name = ''tick'', job_enabled = True, job_schedule = sch,
     job_action = CronEvent ''go'', job_delivery = NoDelivery, job_created = 0, last_run = None, next_run = None\<rparr>"

text \<open>A scheduler with a job that repeats every minute and one for the second 90; the crate knows no expression.\<close>

definition no_crate :: cron_crate where
  "no_crate e now = None"

definition demo_cron :: cron_scheduler where
  "demo_cron = run_cron (\<lambda>_. True) no_crate (new_cron 5)
     [(0, Add (demo_job 1 (Every 60)) False), (0, Add (demo_job 2 (At (seconds 90))) False)]"

lemma demo_jobs:
  "jobs demo_cron = [(1, new_meta ((demo_job 1 (Every 60))\<lparr>next_run := Some (seconds 60)\<rparr>) False),
     (2, new_meta ((demo_job 2 (At (seconds 90)))\<lparr>next_run := Some (seconds 90)\<rparr>) False)]"
  by (simp add: demo_cron_def new_cron_def add_job_def validate_job_def validate_schedule_def validate_action_def
      validate_delivery_def and_then_def demo_job_def schedule_next_def as_i64_def seconds_def new_meta_def jobs_of_def
      max_jobs_per_agent_def max_name_len_def min_every_secs_def max_every_secs_def max_at_horizon_secs_def
      max_event_text_len_def compute_next_run_def)

lemma demo_ok: "jobs_ok demo_cron"
  unfolding demo_cron_def by (rule jobs_ok_run) (simp add: jobs_ok_def new_cron_def)

lemma interval_kept_witness:
  "1 \<notin> job_id ` set (fst (due_jobs no_crate (seconds 119)
     (run_cron (\<lambda>_. True) no_crate (snd (due_jobs no_crate (seconds 60) demo_cron)) [(seconds 61, Succeed 1)])))"
proof -
  have "fst (due_jobs no_crate (seconds 60) demo_cron) = [(demo_job 1 (Every 60))\<lparr>next_run := Some (seconds 60)\<rparr>]"
    by (simp add: due_jobs_def demo_jobs is_due_def new_meta_def demo_job_def seconds_def)
  then have d: "(demo_job 1 (Every 60))\<lparr>next_run := Some (seconds 60)\<rparr> \<in> set (fst (due_jobs no_crate (seconds 60) demo_cron))"
    by simp
  show ?thesis
    using interval_kept [OF demo_ok d, of 60 "[(seconds 61, Succeed 1)]" "seconds 119" "\<lambda>_. True"]
    by (simp add: demo_job_def seconds_def as_i64_def adds_job_def)
qed

section \<open>One-time jobs\<close>

text \<open>Rounds in which the due jobs are handed out and one of them succeeds.\<close>

fun fired_rounds :: "cron_crate \<Rightarrow> nat \<Rightarrow> instant list \<Rightarrow> cron_scheduler \<Rightarrow> bool list" where
  "fired_rounds up i [] s = []"
| "fired_rounds up i (t # ts) s =
     (i \<in> job_id ` set (fst (due_jobs up t s))) # fired_rounds up i ts (record_success up t i (snd (due_jobs up t s)))"

text \<open>
  A job for one point in time that was not also created as one-shot never stops: it runs
  in every later round, however many there are, although each run succeeds.
\<close>

theorem at_job_repeats:
  assumes "jobs_ok s" "map_of (jobs s) i = Some m" "job_schedule (meta_job m) = At t0" "next_run (meta_job m) = Some t0"
    and "job_enabled (meta_job m)" "\<not> one_shot m" "list_all (\<lambda>t. t0 \<le> t) ts"
  shows "fired_rounds up i ts s = replicate (length ts) True"
  using assms
proof (induction ts arbitrary: s m)
  case (Cons t ts)
  let ?s1 = "snd (due_jobs up t s)"
  have id: "job_id (meta_job m) = i" using Cons.prems(1,2) by (rule jobs_ok_get)
  have due: "is_due t m" using Cons.prems by (simp add: is_due_def)
  then have 1: "meta_job m \<in> set (fst (due_jobs up t s))"
    using Cons.prems(1,2) id by (simp add: due_iff)
  have ok: "jobs_ok ?s1" by (rule jobs_ok_due [OF Cons.prems(1)])
  define m1 where "m1 = m\<lparr>meta_job := schedule_next up t (meta_job m)\<rparr>"
  have m1: "map_of (jobs ?s1) i = Some m1" using due Cons.prems(2) by (simp add: due_map m1_def)
  define m2 where "m2 = m1\<lparr>meta_job := schedule_next up t ((meta_job m1)\<lparr>last_run := Some t\<rparr>),
    last_status := Some ''ok'', consecutive_errors := 0\<rparr>"
  have step: "record_success up t i ?s1 = ?s1\<lparr>jobs := AList.update i m2 (jobs ?s1)\<rparr>"
    using m1 Cons.prems(6) by (simp add: record_success_def m2_def m1_def)
  have "jobs_ok (record_success up t i ?s1)" "map_of (jobs (record_success up t i ?s1)) i = Some m2"
    unfolding step using ok id by (auto simp: m2_def m1_def update_conv' intro!: jobs_ok_update)
  moreover have "job_schedule (meta_job m2) = At t0" "next_run (meta_job m2) = Some t0" "job_enabled (meta_job m2)"
    "\<not> one_shot m2"
    using Cons.prems by (simp_all add: m2_def m1_def compute_next_run_def)
  ultimately have "fired_rounds up i ts (record_success up t i ?s1) = replicate (length ts) True"
    using Cons.prems(7) by (intro Cons.IH) auto
  with 1 id show ?case by force
qed simp

lemma at_job_repeats_witness:
  "fired_rounds no_crate 2 (map (\<lambda>n. seconds (90 + 15 * n)) [0..100]) demo_cron = replicate 101 True"
proof -
  have m: "map_of (jobs demo_cron) 2 = Some (new_meta ((demo_job 2 (At (seconds 90)))\<lparr>next_run := Some (seconds 90)\<rparr>) False)"
    by (simp add: demo_jobs)
  show ?thesis
    using at_job_repeats [OF demo_ok m, of "seconds 90" "map (\<lambda>n. seconds (90 + 15 * n)) [0..100]"]
    by (simp add: new_meta_def demo_job_def list_all_iff seconds_def)
qed

section \<open>Failures\<close>

lemma failure_counts:
  assumes "map_of (jobs s) i = Some m" "single_bytes msg"
  shows "\<exists>m'. map_of (jobs (snd (record_failure up now i msg s))) i = Some m'
     \<and> fst (record_failure up now i msg s) = Ok ()
     \<and> consecutive_errors m' = consecutive_errors m + 1
     \<and> job_enabled (meta_job m') = (job_enabled (meta_job m) \<and> consecutive_errors m + 1 < max_consecutive_errors)"
  using assms by (auto simp: record_failure_def single_bytes_slice_to Let_def update_conv')

text \<open>The fifth failure in a row disables a job, and a disabled job is not handed out.\<close>

lemma failing_job_disabled:
  assumes "map_of (jobs s) i = Some m" "consecutive_errors m = 0" "length msgs = 5" "list_all single_bytes msgs"
  shows "\<exists>m'. map_of (jobs (foldl (\<lambda>s msg. snd (record_failure up now i msg s)) s msgs)) i = Some m'
     \<and> \<not> job_enabled (meta_job m')"
proof -
  obtain a b c d e where m: "msgs = [a, b, c, d, e]"
    using assms(3) by (auto simp: length_Suc_conv eval_nat_numeral)
  let ?f = "\<lambda>s msg. snd (record_failure up now i msg s)"
  have s: "single_bytes a" "single_bytes b" "single_bytes c" "single_bytes d" "single_bytes e"
    using assms(4) m by simp_all
  obtain m1 where 1: "map_of (jobs (?f s a)) i = Some m1" "consecutive_errors m1 = 1"
    using failure_counts [OF assms(1) s(1)] assms(2) by fastforce
  obtain m2 where 2: "map_of (jobs (?f (?f s a) b)) i = Some m2" "consecutive_errors m2 = 2"
    using failure_counts [OF 1(1) s(2)] 1(2) by fastforce
  obtain m3 where 3: "map_of (jobs (?f (?f (?f s a) b) c)) i = Some m3" "consecutive_errors m3 = 3"
    using failure_counts [OF 2(1) s(3)] 2(2) by fastforce
  obtain m4 where 4: "map_of (jobs (?f (?f (?f (?f s a) b) c) d)) i = Some m4" "consecutive_errors m4 = 4"
    using failure_counts [OF 3(1) s(4)] 3(2) by fastforce
  show ?thesis
    using failure_counts [OF 4(1) s(5)] 4(2) by (auto simp: m max_consecutive_errors_def)
qed

text \<open>
  An error message with a character across byte 256 makes the recording of the failure panic, which ends
  the task that runs all scheduled jobs.
\<close>

lemma failure_report_panics:
  "fst (record_failure up now 1 (replicate 255 CHR ''x'' @ [CHR 0xC3, CHR 0xA9]) (snd (load_jobs [m\<lparr>meta_job := j\<lparr>job_id := 1\<rparr>\<rparr>] (new_cron 9))))
     = Err SliceNotOnBoundary"
proof -
  let ?msg = "replicate 255 CHR ''x'' @ [CHR 0xC3, CHR 0xA9]"
  have "slice_to ?msg (min (length ?msg) 256) = Err SliceNotOnBoundary" by code_simp
  then show ?thesis by (simp add: record_failure_def load_jobs_def new_cron_def Let_def)
qed

section \<open>Bounds\<close>

text \<open>What validation leaves of a job, and the bounds on the scheduler.\<close>

definition job_fields_ok :: "(string \<Rightarrow> bool) \<Rightarrow> cron_job \<Rightarrow> bool" where
  "job_fields_ok plain j \<longleftrightarrow>
     job_name j \<noteq> [] \<and> length (job_name j) \<le> max_name_len \<and> plain (job_name j)
     \<and> (\<forall>n. job_schedule j = Every n \<longrightarrow> min_every_secs \<le> n \<and> n \<le> max_every_secs)
     \<and> validate_action (job_action j) = Ok () \<and> validate_delivery (job_delivery j) = Ok ()"

definition count_of :: "string \<Rightarrow> cron_scheduler \<Rightarrow> nat" where
  "count_of agent s = length (jobs_of agent s)"

definition in_limits :: "(string \<Rightarrow> bool) \<Rightarrow> nat \<Rightarrow> cron_scheduler \<Rightarrow> bool" where
  "in_limits plain N s \<longleftrightarrow>
     jobs_ok s \<and> length (jobs s) \<le> N \<and> max_total_jobs s \<le> N
     \<and> (\<forall>agent. count_of agent s \<le> max_jobs_per_agent)
     \<and> (\<forall>(i, m) \<in> set (jobs s). job_fields_ok plain (meta_job m))"

lemma validate_job_ok:
  "validate_job plain now j n = Ok () \<Longrightarrow> job_fields_ok plain j \<and> n < max_jobs_per_agent"
  by (auto simp: validate_job_def job_fields_ok_def and_then_def validate_schedule_def
      split: if_splits sum.splits cron_schedule.splits)

lemma count_kept:
  "job_agent (meta_job m') = job_agent (meta_job m) \<Longrightarrow> map_of xs i = Some m \<Longrightarrow>
   length (filter (\<lambda>j. job_agent j = a) (map (meta_job \<circ> snd) (AList.update i m' xs)))
     = length (filter (\<lambda>j. job_agent j = a) (map (meta_job \<circ> snd) xs))"
  by (induction xs) (auto split: if_splits)

lemma count_insert:
  "length (filter P (map f (AList.update i m xs))) \<le> length (filter P (map f xs)) + (if P (f (i, m)) then 1 else 0)"
  by (induction xs) auto

lemma length_update_le: "length (AList.update i m xs) \<le> Suc (length xs)"
  by (induction xs) auto

lemma length_update_same: "map_of xs i = Some m \<Longrightarrow> length (AList.update i m' xs) = length xs"
  by (induction xs) (auto split: if_splits)

lemma set_update_subset: "set (AList.update i m xs) \<subseteq> insert (i, m) (set xs)"
  by (induction xs) auto

lemma within_get: "in_limits plain N s \<Longrightarrow> map_of (jobs s) i = Some m \<Longrightarrow> job_fields_ok plain (meta_job m)"
  by (auto simp: in_limits_def dest!: map_of_SomeD)

lemma within_update:
  assumes "in_limits plain N s" "map_of (jobs s) i = Some m" "job_agent (meta_job m') = job_agent (meta_job m)"
    and "job_id (meta_job m') = job_id (meta_job m)" "job_fields_ok plain (meta_job m')"
  shows "in_limits plain N (s\<lparr>jobs := AList.update i m' (jobs s)\<rparr>)"
proof -
  have "jobs_ok s" using assms(1) by (simp add: in_limits_def)
  with assms have "jobs_ok (s\<lparr>jobs := AList.update i m' (jobs s)\<rparr>)"
    by (intro jobs_ok_update) (simp_all add: jobs_ok_get)
  moreover have "\<forall>(k, x) \<in> set (AList.update i m' (jobs s)). job_fields_ok plain (meta_job x)"
    using assms(1,5) set_update_subset [of i m' "jobs s"] by (auto simp: in_limits_def)
  ultimately show ?thesis
    using assms(1) count_kept [OF assms(3,2)] length_update_same [OF assms(2)]
    by (simp add: in_limits_def count_of_def jobs_of_def)
qed

lemma filter_le: "length (filter P (map f (filter Q xs))) \<le> length (filter P (map f xs))"
  by (induction xs) auto

lemma within_delete:
  assumes "in_limits plain N s"
  shows "in_limits plain N (s\<lparr>jobs := AList.delete i (jobs s)\<rparr>)"
proof -
  let ?s = "s\<lparr>jobs := AList.delete i (jobs s)\<rparr>"
  have js: "jobs ?s = filter (\<lambda>(k, _). i \<noteq> k) (jobs s)" by (simp add: AList.delete_eq)
  have "count_of a ?s \<le> count_of a s" for a
    unfolding count_of_def jobs_of_def js by (rule filter_le)
  then have "count_of a ?s \<le> max_jobs_per_agent" for a
    using assms by (metis in_limits_def order_trans)
  moreover have "length (jobs ?s) \<le> N"
    unfolding js using assms by (metis in_limits_def length_filter_le order_trans)
  ultimately show ?thesis using assms jobs_ok_delete [of s i] by (auto simp: in_limits_def AList.delete_eq)
qed

lemma job_fields_keep [simp]:
  "job_fields_ok plain (schedule_next up now j) = job_fields_ok plain j"
  "job_fields_ok plain (j\<lparr>last_run := t\<rparr>) = job_fields_ok plain j"
  "job_fields_ok plain (j\<lparr>job_enabled := b\<rparr>) = job_fields_ok plain j"
  by (simp_all add: job_fields_ok_def schedule_next_def)

lemma within_due: "in_limits plain N s \<Longrightarrow> in_limits plain N (snd (due_jobs up now s))"
proof -
  assume w: "in_limits plain N s"
  let ?s = "snd (due_jobs up now s)"
  have "length (filter (\<lambda>j. job_agent j = a) (map (meta_job \<circ> snd) (map (\<lambda>(i, m). (i, if is_due now m
      then m\<lparr>meta_job := schedule_next up now (meta_job m)\<rparr> else m)) xs)))
    = length (filter (\<lambda>j. job_agent j = a) (map (meta_job \<circ> snd) xs))" for a and xs :: "(nat \<times> job_meta) list"
    by (induction xs) (auto split: if_splits)
  then have "count_of a ?s = count_of a s" for a by (simp add: count_of_def jobs_of_def due_jobs_def)
  moreover have "\<forall>(i, m) \<in> set (jobs ?s). job_fields_ok plain (meta_job m)"
    using w by (auto simp: in_limits_def due_jobs_def)
  moreover have "length (jobs ?s) = length (jobs s)" "max_total_jobs ?s = max_total_jobs s"
    by (simp_all add: due_jobs_def)
  ultimately show ?thesis using w by (simp add: in_limits_def jobs_ok_due)
qed

lemma within_add:
  assumes w: "in_limits plain N s"
  shows "in_limits plain N (snd (add_job plain up now j once s))"
proof (cases "length (jobs s) < max_total_jobs s \<and> validate_job plain now j (length (jobs_of (job_agent j) s)) = Ok ()")
  case True
  let ?m = "new_meta (schedule_next up now j) once"
  let ?s = "s\<lparr>jobs := AList.update (job_id j) ?m (jobs s)\<rparr>"
  from True have ok: "job_fields_ok plain j" "count_of (job_agent j) s < max_jobs_per_agent"
    using validate_job_ok by (auto simp: count_of_def)
  have "count_of a ?s \<le> count_of a s + (if job_agent j = a then 1 else 0)" for a
    unfolding count_of_def jobs_of_def
    using count_insert [of "\<lambda>j. job_agent j = a" "meta_job \<circ> snd" "job_id j" ?m "jobs s"]
    by (simp add: new_meta_def)
  with ok(2) w have "count_of a ?s \<le> max_jobs_per_agent" for a
    by (cases "job_agent j = a") (fastforce simp: in_limits_def intro: order_trans)+
  moreover have "length (jobs ?s) \<le> N"
    using True w length_update_le [of "job_id j" ?m "jobs s"] by (auto simp: in_limits_def)
  moreover have "jobs_ok ?s" using w by (intro jobs_ok_update) (simp_all add: in_limits_def new_meta_def)
  moreover have "\<forall>(i, m) \<in> set (jobs ?s). job_fields_ok plain (meta_job m)"
    using w ok(1) set_update_subset [of "job_id j" ?m "jobs s"] by (auto simp: in_limits_def new_meta_def)
  ultimately have "in_limits plain N ?s" using w by (simp add: in_limits_def)
  with True show ?thesis by (simp add: add_job_def)
next
  case False
  with w show ?thesis by (auto simp: add_job_def split: sum.split)
qed

definition limit_le :: "nat \<Rightarrow> cron_op \<Rightarrow> bool" where
  "limit_le N op = (case op of SetMax n \<Rightarrow> n \<le> N | _ \<Rightarrow> True)"

lemma within_step:
  assumes "in_limits plain N s" "limit_le N (snd x)"
  shows "in_limits plain N (cron_step plain up s x)"
proof (cases "(plain, up, s, x)" rule: cron_step.cases)
  case (2 _ _ _ now k)
  with assms show ?thesis
    by (auto simp: record_success_def within_get intro!: within_update within_delete split: option.split)
next
  case (3 _ _ _ now k msg)
  with assms show ?thesis
    by (auto simp: record_failure_def Let_def within_get intro!: within_update split: option.split sum.split)
next
  case (5 _ _ _ now k)
  with assms show ?thesis by (auto simp: remove_job_def intro!: within_delete split: option.split)
next
  case (6 _ _ _ now k on)
  with assms show ?thesis
    by (auto simp: set_enabled_def Let_def within_get intro!: within_update split: option.split)
next
  case (7 _ _ _ now n)
  with assms show ?thesis
    by (simp add: in_limits_def limit_le_def set_max_total_jobs_def jobs_ok_max count_of_def jobs_of_def)
qed (use assms in \<open>auto simp: within_due within_add\<close>)

text \<open>
  The limits hold in every state. From the empty scheduler on, whatever is added, handed out, recorded,
  removed or enabled, no agent has more than fifty jobs, there are never more jobs than the largest limit
  set, and every job has a valid name and action and repeats no more often than once a minute.
\<close>

theorem cron_limits:
  assumes "n \<le> N" "list_all (\<lambda>x. limit_le N (snd x)) ops"
  shows "in_limits plain N (run_cron plain up (new_cron n) ops)"
proof -
  have "in_limits plain N s \<Longrightarrow> in_limits plain N (run_cron plain up s ops)" for s
    using assms(2) by (induction ops arbitrary: s) (simp_all add: within_step)
  moreover have "in_limits plain N (new_cron n)"
    using assms(1) by (simp add: in_limits_def new_cron_def jobs_ok_def count_of_def jobs_of_def)
  ultimately show ?thesis .
qed

lemma cron_limits_witness: "in_limits (\<lambda>_. True) 5 demo_cron"
  unfolding demo_cron_def by (rule cron_limits) (simp_all add: limit_le_def)

section \<open>Persistence\<close>

lemma load_fold:
  assumes "distinct (map fst xs)" "\<forall>(i, m) \<in> set xs. job_id (meta_job m) = i" "fst ` set ys \<inter> fst ` set xs = {}"
  shows "foldl (\<lambda>js m. AList.update (job_id (meta_job m)) m js) ys (map snd xs) = ys @ xs"
  using assms
proof (induction xs arbitrary: ys)
  case (Cons x xs)
  obtain i m where x: "x = (i, m)" by (cases x)
  with Cons.prems have "i \<notin> fst ` set ys" "job_id (meta_job m) = i" by auto
  then have "AList.update (job_id (meta_job m)) m ys = ys @ [(i, m)]" by (induction ys) auto
  moreover have "foldl (\<lambda>js m. AList.update (job_id (meta_job m)) m js) (ys @ [(i, m)]) (map snd xs) = (ys @ [(i, m)]) @ xs"
    using Cons.prems x by (intro Cons.IH) auto
  ultimately show ?case using x by simp
qed simp

text \<open>Loading what was saved into an empty scheduler gives the same jobs.\<close>

lemma persist_load: "jobs_ok s \<Longrightarrow> jobs (snd (load_jobs (persisted s) (new_cron n))) = jobs s"
  using load_fold [of "jobs s" "[]"] by (simp add: load_jobs_def persisted_def new_cron_def jobs_ok_def)

end
