(* ===== verification/Supervision.thy ===== *)
theory Supervision
  imports Registry Event
begin

text \<open>
  Supervision of the running agents: the counters of \<open>clawreform-kernel/src/supervisor.rs\<close>, the heartbeat
  of \<open>heartbeat.rs\<close> with the kernel's monitor, and the event bus of \<open>event_bus.rs\<close>.

  Counters wrap at their width, as the atomics do. A broadcast channel of tokio is the list of what was
  sent on it; a receiver is a position in it. That tokio drops the oldest of a slow receiver is not modelled.
\<close>

section \<open>The supervisor\<close>

record supervisor =
  shutting_down :: bool
  restart_count :: "64 word"
  panic_count :: "64 word"
  agent_restarts :: "agent_id \<rightharpoonup> 32 word"

definition new_supervisor :: supervisor where
  "new_supervisor = \<lparr>shutting_down = False, restart_count = 0, panic_count = 0, agent_restarts = Map.empty\<rparr>"

definition shutdown :: "supervisor \<Rightarrow> supervisor" where
  "shutdown s = s\<lparr>shutting_down := True\<rparr>"

definition record_panic :: "supervisor \<Rightarrow> supervisor" where
  "record_panic s = s\<lparr>panic_count := panic_count s + 1\<rparr>"

definition record_restart :: "supervisor \<Rightarrow> supervisor" where
  "record_restart s = s\<lparr>restart_count := restart_count s + 1\<rparr>"

definition agent_restart_count :: "agent_id \<Rightarrow> supervisor \<Rightarrow> 32 word" where
  "agent_restart_count a s = (case agent_restarts s a of None \<Rightarrow> 0 | Some n \<Rightarrow> n)"

definition record_agent_restart ::
  "agent_id \<Rightarrow> 32 word \<Rightarrow> supervisor \<Rightarrow> (32 word, 32 word) result \<times> supervisor" where
  "record_agent_restart a max_restarts s =
     (let n = agent_restart_count a s + 1;
          s1 = record_restart (s\<lparr>agent_restarts := (agent_restarts s)(a \<mapsto> n)\<rparr>)
      in (if max_restarts > 0 \<and> n > max_restarts then Err n else Ok n, s1))"

definition reset_agent_restarts :: "agent_id \<Rightarrow> supervisor \<Rightarrow> supervisor" where
  "reset_agent_restarts a s = s\<lparr>agent_restarts := (agent_restarts s)(a := None)\<rparr>"

record supervisor_health =
  health_shutting_down :: bool
  health_panics :: "64 word"
  health_restarts :: "64 word"

definition health :: "supervisor \<Rightarrow> supervisor_health" where
  "health s = \<lparr>health_shutting_down = shutting_down s, health_panics = panic_count s, health_restarts = restart_count s\<rparr>"

text \<open>The answers to a number of restarts of one agent in a row.\<close>

fun restarts :: "agent_id \<Rightarrow> 32 word \<Rightarrow> nat \<Rightarrow> supervisor \<Rightarrow> (32 word, 32 word) result list" where
  "restarts a limit 0 s = []"
| "restarts a limit (Suc k) s =
     (case record_agent_restart a limit s of (r, s1) \<Rightarrow> r # restarts a limit k s1)"

definition restart_answer :: "32 word \<Rightarrow> 32 word \<Rightarrow> (32 word, 32 word) result" where
  "restart_answer limit n = (if limit > 0 \<and> n > limit then Err n else Ok n)"

lemma restarts_from:
  "restarts a limit k s = map (\<lambda>i. restart_answer limit (agent_restart_count a s + of_nat (Suc i))) [0..<k]"
proof (induction k arbitrary: s)
  case (Suc k)
  obtain r s1 where r: "record_agent_restart a limit s = (r, s1)" by (metis surj_pair)
  then have n: "r = restart_answer limit (agent_restart_count a s + 1)"
    "agent_restart_count a s1 = agent_restart_count a s + 1"
    by (auto simp: record_agent_restart_def agent_restart_count_def record_restart_def restart_answer_def Let_def)
  have "restarts a limit (Suc k) s
      = map (\<lambda>i. restart_answer limit (agent_restart_count a s + of_nat (Suc i))) (0 # map Suc [0..<k])"
    by (simp add: r Suc.IH n add.assoc)
  also have "0 # map Suc [0..<k] = [0..<Suc k]" by (simp add: upt_conv_Cons map_Suc_upt del: upt_Suc)
  finally show ?case .
qed simp

section \<open>The event bus\<close>

definition history_size :: nat where
  "history_size = 1000"

record 'j event_bus =
  all_events :: "'j event list"
  agent_channels :: "agent_id \<rightharpoonup> 'j event list"
  history :: "'j event list"

definition new_bus :: "'j event_bus" where
  "new_bus = \<lparr>all_events = [], agent_channels = Map.empty, history = []\<rparr>"

definition publish :: "'j event \<Rightarrow> 'j event_bus \<Rightarrow> 'j event_bus" where
  "publish ev b =
     (let b1 = b\<lparr>history := (if length (history b) \<ge> history_size then tl (history b) else history b) @ [ev]\<rparr>
      in case target ev of
           ToAgent a \<Rightarrow>
             (case agent_channels b1 a of
                None \<Rightarrow> b1
              | Some es \<Rightarrow> b1\<lparr>agent_channels := (agent_channels b1)(a \<mapsto> es @ [ev])\<rparr>)
         | Broadcast \<Rightarrow>
             b1\<lparr>all_events := all_events b1 @ [ev],
                agent_channels := (\<lambda>a. map_option (\<lambda>es. es @ [ev]) (agent_channels b1 a))\<rparr>
         | ToPattern _ \<Rightarrow> b1\<lparr>all_events := all_events b1 @ [ev]\<rparr>
         | ToSystem \<Rightarrow> b1\<lparr>all_events := all_events b1 @ [ev]\<rparr>)"

text \<open>Subscribing gives the position from which the new receiver reads.\<close>

definition subscribe_agent :: "agent_id \<Rightarrow> 'j event_bus \<Rightarrow> nat \<times> 'j event_bus" where
  "subscribe_agent a b =
     (case agent_channels b a of
        None \<Rightarrow> (0, b\<lparr>agent_channels := (agent_channels b)(a \<mapsto> [])\<rparr>)
      | Some es \<Rightarrow> (length es, b))"

definition subscribe_all :: "'j event_bus \<Rightarrow> nat" where
  "subscribe_all b = length (all_events b)"

definition recent_events :: "nat \<Rightarrow> 'j event_bus \<Rightarrow> 'j event list" where
  "recent_events limit b = take limit (rev (history b))"

definition unsubscribe_agent :: "agent_id \<Rightarrow> 'j event_bus \<Rightarrow> 'j event_bus" where
  "unsubscribe_agent a b = b\<lparr>agent_channels := (agent_channels b)(a := None)\<rparr>"

definition last_n :: "nat \<Rightarrow> 'a list \<Rightarrow> 'a list" where
  "last_n n xs = drop (length xs - n) xs"

lemma history_publish: "history (publish ev b) = (if length (history b) \<ge> history_size then tl (history b) else history b) @ [ev]"
  by (simp add: publish_def Let_def split: event_target.split option.split)

lemma history_recent:
  "history b = last_n history_size es \<Longrightarrow> history (publish ev b) = last_n history_size (es @ [ev])"
proof -
  assume h: "history b = last_n history_size es"
  show ?thesis
  proof (cases "length es \<ge> history_size")
    case True
    then have "length es - history_size < length es \<and> tl (drop (length es - history_size) es) = drop (Suc (length es - history_size)) es"
      by (simp add: history_size_def drop_Suc tl_drop)
    moreover have "Suc (length es) - history_size = Suc (length es - history_size)" using True by simp
    ultimately show ?thesis using True by (simp add: history_publish h last_n_def history_size_def)
  next
    case False
    then show ?thesis by (simp add: history_publish h last_n_def)
  qed
qed

text \<open>The history holds the last thousand events, and a query gives the newest of them first.\<close>

lemma bus_history:
  "recent_events n (foldl (\<lambda>b ev. publish ev b) new_bus es) = take n (rev (last_n history_size es))"
proof -
  have "history (foldl (\<lambda>b ev. publish ev b) new_bus es) = last_n history_size es"
  proof (induction es rule: rev_induct)
    case Nil
    show ?case by (simp add: new_bus_def last_n_def)
  qed (simp add: history_recent)
  then show ?thesis by (simp add: recent_events_def)
qed

definition reaches :: "agent_id \<Rightarrow> 'j event \<Rightarrow> bool" where
  "reaches a ev \<longleftrightarrow> target ev = ToAgent a \<or> target ev = Broadcast"

lemma channel_publish:
  "agent_channels (publish ev b) a
     = map_option (\<lambda>es. if reaches a ev then es @ [ev] else es) (agent_channels b a)"
  by (cases "agent_channels b a") (auto simp: publish_def Let_def reaches_def split: event_target.split option.split)

text \<open>
  An agent's receiver gets exactly the events published after its subscription that are addressed to
  the agent or broadcast, each once and in order.
\<close>

theorem bus_delivers_exactly:
  assumes "subscribe_agent a b = (from, b1)"
  shows "drop from (the (agent_channels (foldl (\<lambda>b ev. publish ev b) b1 es) a)) = filter (reaches a) es"
proof -
  obtain old where old: "agent_channels b1 a = Some old" "from = length old"
    using assms by (auto simp: subscribe_agent_def split: option.splits)
  have "agent_channels (foldl (\<lambda>b ev. publish ev b) b1 es) a = Some (old @ filter (reaches a) es)"
    by (induction es rule: rev_induct) (simp_all add: old channel_publish)
  then show ?thesis by (simp add: old)
qed

section \<open>The heartbeat\<close>

record heartbeat_status =
  hb_agent :: agent_id
  hb_name :: string
  inactive_secs :: int
  unresponsive :: bool

record heartbeat_config =
  check_interval_secs :: nat
  default_timeout_secs :: nat

definition unresponsive_multiplier :: nat where
  "unresponsive_multiplier = 2"

definition default_heartbeat :: heartbeat_config where
  "default_heartbeat = \<lparr>check_interval_secs = 30, default_timeout_secs = 30 * unresponsive_multiplier\<rparr>"

record autonomous_config =
  quiet_hours :: "string option"
  auto_max_iterations :: nat
  max_restarts :: nat
  heartbeat_interval_secs :: nat
  heartbeat_channel :: "string option"

definition default_autonomous :: autonomous_config where
  "default_autonomous = \<lparr>quiet_hours = None, auto_max_iterations = 50, max_restarts = 10,
     heartbeat_interval_secs = 30, heartbeat_channel = None\<rparr>"

text \<open>
  The section \<open>autonomous\<close> of a manifest is read by \<open>auto_of\<close>; times are in seconds. The product wraps at 64
  bits in a release build and the sum is compared as \<open>i64\<close>.
\<close>

definition timeout_for :: "('x \<Rightarrow> autonomous_config option) \<Rightarrow> heartbeat_config \<Rightarrow> 'x agent_entry \<Rightarrow> int" where
  "timeout_for auto_of c e =
     sint (of_nat (case auto_of (manifest_rest (manifest e)) of
             Some a \<Rightarrow> heartbeat_interval_secs a * unresponsive_multiplier
           | None \<Rightarrow> default_timeout_secs c) :: 64 word)"

definition check_agents ::
  "('x \<Rightarrow> autonomous_config option) \<Rightarrow> int \<Rightarrow> heartbeat_config \<Rightarrow> 'x agent_entry list \<Rightarrow> heartbeat_status list" where
  "check_agents auto_of now c es =
     map (\<lambda>e. let idle = now - int (last_active e)
              in \<lparr>hb_agent = entry_id e, hb_name = entry_name e, inactive_secs = idle,
                  unresponsive = (idle > timeout_for auto_of c e)\<rparr>)
       (filter (\<lambda>e. state e = Running) es)"

text \<open>One side of the range.\<close>

definition parse_time :: "string \<Rightarrow> nat option" where
  "parse_time s =
     (case split_on (CHR '':'') (trim s) of
        [hh, mm] \<Rightarrow>
          (case (parse_uint 32 hh, parse_uint 32 mm) of
             (Some h, Some m) \<Rightarrow> if h > 23 \<or> m > 59 then None else Some (h * 60 + m)
           | _ \<Rightarrow> None)
      | _ \<Rightarrow> None)"

definition is_quiet_hours :: "nat \<Rightarrow> string \<Rightarrow> bool" where
  "is_quiet_hours current_minutes s =
     (case split_on (CHR ''-'') s of
        [a, b] \<Rightarrow>
          (case parse_time a of
             None \<Rightarrow> False
           | Some start \<Rightarrow>
               (case parse_time b of
                  None \<Rightarrow> False
                | Some end_min \<Rightarrow>
                    if start \<le> end_min then current_minutes \<ge> start \<and> current_minutes < end_min
                    else current_minutes \<ge> start \<or> current_minutes < end_min))
      | _ \<Rightarrow> False)"

record heartbeat_summary =
  total_checked :: nat
  responsive_count :: nat
  unresponsive_count :: nat
  unresponsive_agents :: "heartbeat_status list"

definition summarize :: "heartbeat_status list \<Rightarrow> heartbeat_summary" where
  "summarize ss =
     (let bad = filter unresponsive ss
      in \<lparr>total_checked = length ss, responsive_count = length ss - length bad, unresponsive_count = length bad,
          unresponsive_agents = bad\<rparr>)"

text \<open>One round of the kernel's monitor: the agents reported, with their seconds of inactivity as \<open>u64\<close>.\<close>

definition heartbeat_round ::
  "('x \<Rightarrow> autonomous_config option) \<Rightarrow> int \<Rightarrow> nat \<Rightarrow> 'x registry \<Rightarrow> 'x agent_entry list \<Rightarrow> (agent_id \<times> 64 word) list" where
  "heartbeat_round auto_of now current_minutes r es =
     map (\<lambda>st. (hb_agent st, word_of_int (inactive_secs st)))
       (filter (\<lambda>st.
          \<not> (case get_agent r (hb_agent st) of
               None \<Rightarrow> False
             | Some e \<Rightarrow>
                 (case auto_of (manifest_rest (manifest e)) of
                    None \<Rightarrow> False
                  | Some a \<Rightarrow> (case quiet_hours a of None \<Rightarrow> False | Some q \<Rightarrow> is_quiet_hours current_minutes q)))
          \<and> unresponsive st)
        (check_agents auto_of now default_heartbeat es))"

text \<open>Two digits of a clock.\<close>

definition clock_text :: "nat \<Rightarrow> string" where
  "clock_text t = show_nat (t div 60) @ '':'' @ show_nat (t mod 60)"

lemma clock_text_chars: "c \<in> set (clock_text t) \<Longrightarrow> is_digit c \<or> c = CHR '':''"
  using show_nat_digits by (auto simp: clock_text_def list_all_iff)

lemma split_on_none: "c \<notin> set s \<Longrightarrow> split_on c s = [s]"
  by (induction s) auto

lemma split_on_two: "c \<notin> set s \<Longrightarrow> c \<notin> set t \<Longrightarrow> split_on c (s @ c # t) = [s, t]"
  by (induction s) (auto simp: split_on_none)

lemma parse_clock: "t < 1440 \<Longrightarrow> parse_time (clock_text t) = Some t"
proof -
  assume t: "t < 1440"
  have ne: "clock_text t \<noteq> []" by (simp add: clock_text_def)
  have vis: "visible c" if "c \<in> set (clock_text t)" for c
    using clock_text_chars [OF that] by (auto simp: visible_def is_digit_def)
  have 1: "trim (clock_text t) = clock_text t"
    using ne by (intro trim_visible) (auto intro: vis)
  have nc: "CHR '':'' \<notin> set (show_nat n)" for n using show_nat_digits [of n] by (auto simp: list_all_iff is_digit_def)
  have "split_on (CHR '':'') (clock_text t) = [show_nat (t div 60), show_nat (t mod 60)]"
    using split_on_two [OF nc nc] by (simp add: clock_text_def)
  moreover have "t div 60 \<le> 23" using t by simp
  moreover have "t mod 60 \<le> 59" using mod_less_divisor [of 60 t] by simp
  ultimately show ?thesis using 1
    by (simp add: parse_time_def parse_show)
qed

text \<open>
  Quiet hours go round the clock: for a range between two times of the day, past midnight or not, an
  agent is quiet exactly when fewer minutes have passed since the start than the range is long.
\<close>

theorem quiet_hours_cyclic:
  assumes "s < 1440" "e < 1440" "now < 1440"
  shows "is_quiet_hours now (clock_text s @ ''-'' @ clock_text e)
    \<longleftrightarrow> (int now - int s) mod 1440 < (int e - int s) mod 1440"
proof -
  have nd: "CHR ''-'' \<notin> set (clock_text t)" for t
    using clock_text_chars [of "CHR ''-''" t] by (auto simp: is_digit_def)
  have "split_on (CHR ''-'') (clock_text s @ ''-'' @ clock_text e) = [clock_text s, clock_text e]"
    using split_on_two [OF nd nd] by simp
  then have q: "is_quiet_hours now (clock_text s @ ''-'' @ clock_text e) \<longleftrightarrow>
      (if s \<le> e then s \<le> now \<and> now < e else s \<le> now \<or> now < e)"
    using assms by (simp add: is_quiet_hours_def parse_clock)
  have m: "(int a - int s) mod 1440 = (if s \<le> a then int a - int s else int a - int s + 1440)" if "a < 1440" for a
  proof (cases "s \<le> a")
    case True
    with that show ?thesis by (simp add: mod_pos_pos_trivial)
  next
    case False
    with that assms(1) have "(int a - int s + 1440) mod 1440 = int a - int s + 1440" by (intro mod_pos_pos_trivial) auto
    with False show ?thesis by simp
  qed
  show ?thesis unfolding q m [OF assms(2)] m [OF assms(3)] using assms by auto
qed

lemma quiet_hours_cyclic_witness:
  "is_quiet_hours 30 (clock_text 1320 @ ''-'' @ clock_text 360)"
  using quiet_hours_cyclic [of 1320 360 30] by simp

text \<open>The format that the configuration documents is not a range of hours, so such an agent is never quiet.\<close>

lemma documented_quiet_hours: "\<not> is_quiet_hours now ''0 22 * * * to 0 6 * * *''"
proof -
  have "split_on (CHR ''-'') ''0 22 * * * to 0 6 * * *'' = [''0 22 * * * to 0 6 * * *'']" by code_simp
  then show ?thesis by (simp add: is_quiet_hours_def)
qed

definition demo_bus_event :: "event_target \<Rightarrow> nat \<Rightarrow> unit event" where
  "demo_bus_event tgt i = new_event i 0 9 tgt (SystemEv KernelStarted)"

lemma bus_delivers_exactly_witness:
  "drop 0 (the (agent_channels (foldl (\<lambda>b ev. publish ev b) (snd (subscribe_agent 7 new_bus))
      [demo_bus_event (ToAgent 7) 0, demo_bus_event (ToAgent 2) 1, demo_bus_event Broadcast 2]) 7))
    = [demo_bus_event (ToAgent 7) 0, demo_bus_event Broadcast 2]"
proof -
  obtain b1 :: "unit event_bus" where b: "subscribe_agent 7 new_bus = (0, b1)" by (simp add: subscribe_agent_def new_bus_def)
  show ?thesis
    using bus_delivers_exactly [OF b, of "[demo_bus_event (ToAgent 7) 0, demo_bus_event (ToAgent 2) 1, demo_bus_event Broadcast 2]"]
    by (simp add: b reaches_def demo_bus_event_def new_event_def)
qed

end
