(* ===== verification/Background.thy ===== *)
theory Background
  imports Triggers Agent
begin

text \<open>
  Autonomous agents, \<open>clawreform-kernel/src/background.rs\<close>: the loops of continuous and periodic agents as
  steps of a system that share five permits, and the simplified schedules. The conditions of proactive agents
  are in theory \<open>Triggers\<close>.
\<close>

section \<open>Schedules\<close>

text \<open>The products wrap at 64 bits in a release build.\<close>

definition times_u64 :: "nat \<Rightarrow> nat \<Rightarrow> nat" where
  "times_u64 n k = unat (of_nat n * of_nat k :: 64 word)"

text \<open>The units in the order in which they are tried.\<close>

fun try_units :: "string \<Rightarrow> (string \<times> nat) list \<Rightarrow> nat option" where
  "try_units rest [] = None"
| "try_units rest ((u, k) # us) =
     (case strip_suffix u rest of
        None \<Rightarrow> try_units rest us
      | Some num \<Rightarrow>
          (case parse_uint 64 (trim num) of
             Some n \<Rightarrow> Some (times_u64 n k)
           | None \<Rightarrow> try_units rest us))"

definition schedule_units :: "(string \<times> nat) list" where
  "schedule_units = [(''s'', 1), (''m'', 60), (''h'', 3600), (''d'', 86400)]"

definition parse_cron_to_secs :: "string \<Rightarrow> nat" where
  "parse_cron_to_secs cron =
     (case strip_prefix ''every '' (to_lowercase (trim cron)) of
        None \<Rightarrow> 300
      | Some rest \<Rightarrow> (case try_units (trim rest) schedule_units of None \<Rightarrow> 300 | Some n \<Rightarrow> n))"

section \<open>The loops\<close>

datatype loop_phase = Asleep | AwaitPermit | Ended | Aborted

text \<open>
  A loop with its busy flag, the prompts whose agents are at work, and the answered ones whose watcher has
  given the permit back but not yet cleared the flag.
\<close>

record bg_loop =
  loop_agent :: agent_id
  phase :: loop_phase
  busy :: bool
  in_flight :: nat
  answered :: nat

record background =
  loops :: "bg_loop list"
  tasks :: "agent_id \<rightharpoonup> nat"
  permits :: nat
  shutdown_seen :: bool

definition max_concurrent_bg_llm :: nat where
  "max_concurrent_bg_llm = 5"

definition new_background :: background where
  "new_background = \<lparr>loops = [], tasks = Map.empty, permits = max_concurrent_bg_llm, shutdown_seen = False\<rparr>"

definition has_loop :: "schedule_mode \<Rightarrow> bool" where
  "has_loop m = (case m of Continuous _ \<Rightarrow> True | Periodic _ \<Rightarrow> True | _ \<Rightarrow> False)"

definition start_agent :: "agent_id \<Rightarrow> schedule_mode \<Rightarrow> background \<Rightarrow> background" where
  "start_agent a m b =
     (if has_loop m
      then b\<lparr>loops := loops b @ [\<lparr>loop_agent = a, phase = Asleep, busy = False, in_flight = 0, answered = 0\<rparr>],
             tasks := (tasks b)(a \<mapsto> length (loops b))\<rparr>
      else b)"

definition on_loop :: "nat \<Rightarrow> (bg_loop \<Rightarrow> bg_loop) \<Rightarrow> background \<Rightarrow> background" where
  "on_loop i f b = b\<lparr>loops := (loops b)[i := f (loops b ! i)]\<rparr>"

definition stop_agent :: "agent_id \<Rightarrow> background \<Rightarrow> background" where
  "stop_agent a b =
     (case tasks b a of
        None \<Rightarrow> b
      | Some i \<Rightarrow> on_loop i (\<lambda>l. l\<lparr>phase := Aborted\<rparr>) (b\<lparr>tasks := (tasks b)(a := None)\<rparr>))"

text \<open>What the loops, their watchers and the kernel do, in any order.\<close>

datatype bg_action =
    Wake nat
  | GetPermit nat
  | Answer nat
  | ClearBusy nat
  | SeeShutdown nat
  | StartAgent agent_id schedule_mode
  | StopAgent agent_id
  | SignalShutdown

fun bg_do :: "background \<Rightarrow> bg_action \<Rightarrow> background option" where
  "bg_do b (Wake i) =
     (if i < length (loops b) \<and> phase (loops b ! i) = Asleep
      then Some (if busy (loops b ! i) then b else on_loop i (\<lambda>l. l\<lparr>phase := AwaitPermit, busy := True\<rparr>) b)
      else None)"
| "bg_do b (GetPermit i) =
     (if i < length (loops b) \<and> phase (loops b ! i) = AwaitPermit \<and> 0 < permits b
      then Some (on_loop i (\<lambda>l. l\<lparr>phase := Asleep, in_flight := in_flight l + 1\<rparr>) (b\<lparr>permits := permits b - 1\<rparr>))
      else None)"
| "bg_do b (Answer i) =
     (if i < length (loops b) \<and> 0 < in_flight (loops b ! i)
      then Some (on_loop i (\<lambda>l. l\<lparr>in_flight := in_flight l - 1, answered := answered l + 1\<rparr>) (b\<lparr>permits := permits b + 1\<rparr>))
      else None)"
| "bg_do b (ClearBusy i) =
     (if i < length (loops b) \<and> 0 < answered (loops b ! i)
      then Some (on_loop i (\<lambda>l. l\<lparr>answered := answered l - 1, busy := False\<rparr>) b)
      else None)"
| "bg_do b (SeeShutdown i) =
     (if i < length (loops b) \<and> phase (loops b ! i) = Asleep \<and> shutdown_seen b
      then Some (on_loop i (\<lambda>l. l\<lparr>phase := Ended\<rparr>) b)
      else None)"
| "bg_do b (StartAgent a m) = Some (start_agent a m b)"
| "bg_do b (StopAgent a) = Some (stop_agent a b)"
| "bg_do b SignalShutdown = Some (b\<lparr>shutdown_seen := True\<rparr>)"

inductive bg_step :: "background \<Rightarrow> bg_action \<Rightarrow> background \<Rightarrow> bool" where
  act: "bg_do b x = Some b' \<Longrightarrow> bg_step b x b'"

inductive bg_reachable :: "background \<Rightarrow> bool" where
  start: "bg_reachable new_background"
| step: "bg_reachable b \<Longrightarrow> bg_step b x b' \<Longrightarrow> bg_reachable b'"

inductive_cases bg_step_cases: "bg_step b x b'"

definition active_count :: "background \<Rightarrow> nat" where
  "active_count b = card (dom (tasks b))"

text \<open>Each loop has one prompt on its way at most; the permits are those that no prompt holds.\<close>

definition loop_ok :: "bg_loop \<Rightarrow> bool" where
  "loop_ok l \<longleftrightarrow> in_flight l + answered l + (if phase l = AwaitPermit then 1 else 0) \<le> (if busy l then 1 else 0)"

definition bg_ok :: "background \<Rightarrow> bool" where
  "bg_ok b \<longleftrightarrow> list_all loop_ok (loops b)
     \<and> sum_list (map in_flight (loops b)) + permits b = max_concurrent_bg_llm
     \<and> (\<forall>a i. tasks b a = Some i \<longrightarrow> i < length (loops b))"

lemma on_loop_simps [simp]:
  "permits (on_loop i f b) = permits b" "tasks (on_loop i f b) = tasks b" "length (loops (on_loop i f b)) = length (loops b)"
  "shutdown_seen (on_loop i f b) = shutdown_seen b"
  by (simp_all add: on_loop_def)

lemma list_all_update: "list_all P xs \<Longrightarrow> P y \<Longrightarrow> list_all P (xs[i := y])"
  using set_update_subset_insert [of xs i y] by (auto simp: list_all_iff)

lemma in_flight_update:
  assumes "i < length ls"
  shows "sum_list (map in_flight (ls[i := l])) + in_flight (ls ! i) = sum_list (map in_flight ls) + in_flight l"
proof -
  have "sum_list (map in_flight (ls[i := l])) = sum_list (map in_flight ls) + in_flight l - in_flight (ls ! i)"
    using sum_list_update [of i "map in_flight ls" "in_flight l"] assms by (simp add: map_update)
  moreover have "in_flight (ls ! i) \<le> sum_list (map in_flight ls)"
    using assms elem_le_sum_list [of i "map in_flight ls"] by simp
  ultimately show ?thesis by simp
qed

lemma bg_ok_on_loop:
  assumes "bg_ok b" "i < length (loops b)" "loop_ok (f (loops b ! i))"
    and "in_flight (f (loops b ! i)) + permits b' = in_flight (loops b ! i) + permits b"
    and "loops b' = loops b" "\<And>a k. tasks b' a = Some k \<Longrightarrow> tasks b a = Some k"
  shows "bg_ok (on_loop i f b')"
proof -
  have "sum_list (map in_flight ((loops b)[i := f (loops b ! i)])) + permits b' = max_concurrent_bg_llm"
    using in_flight_update [OF assms(2), of "f (loops b ! i)"] assms(1,4) by (simp add: bg_ok_def)
  moreover have "list_all loop_ok ((loops b)[i := f (loops b ! i)])"
    using assms(1,3) by (simp add: bg_ok_def list_all_update)
  moreover have "k < length (loops b)" if "tasks b' a = Some k" for a k
    using assms(1) assms(6) [OF that] by (simp add: bg_ok_def)
  ultimately show ?thesis using assms(5) by (simp add: bg_ok_def) (simp add: on_loop_def)
qed

lemma loop_at: "bg_ok b \<Longrightarrow> i < length (loops b) \<Longrightarrow> loop_ok (loops b ! i)"
  by (simp add: bg_ok_def list_all_length)

lemma bg_ok_do:
  assumes ok: "bg_ok b" and do: "bg_do b x = Some b'"
  shows "bg_ok b'"
proof (cases x)
  case (Wake i)
  then have i: "i < length (loops b)" using do by (simp split: if_splits)
  show ?thesis
  proof (cases "busy (loops b ! i)")
    case True
    with Wake ok do show ?thesis by (simp split: if_splits)
  next
    case False
    with Wake do have "b' = on_loop i (\<lambda>l. l\<lparr>phase := AwaitPermit, busy := True\<rparr>) b" by (simp split: if_splits)
    moreover have "loop_ok ((loops b ! i)\<lparr>phase := AwaitPermit, busy := True\<rparr>)"
      using loop_at [OF ok i] False by (simp add: loop_ok_def)
    ultimately show ?thesis using bg_ok_on_loop [OF ok i] by simp
  qed
next
  case (GetPermit i)
  with do have i: "i < length (loops b)" "phase (loops b ! i) = AwaitPermit" "0 < permits b"
    "b' = on_loop i (\<lambda>l. l\<lparr>phase := Asleep, in_flight := in_flight l + 1\<rparr>) (b\<lparr>permits := permits b - 1\<rparr>)"
    by (simp_all split: if_splits)
  moreover have "loop_ok ((loops b ! i)\<lparr>phase := Asleep, in_flight := in_flight (loops b ! i) + 1\<rparr>)"
    using loop_at [OF ok i(1)] i(2) by (simp add: loop_ok_def)
  ultimately show ?thesis by (auto intro!: bg_ok_on_loop [OF ok])
next
  case (Answer i)
  with do have i: "i < length (loops b)" "0 < in_flight (loops b ! i)"
    "b' = on_loop i (\<lambda>l. l\<lparr>in_flight := in_flight l - 1, answered := answered l + 1\<rparr>) (b\<lparr>permits := permits b + 1\<rparr>)"
    by (simp_all split: if_splits)
  moreover have "loop_ok ((loops b ! i)\<lparr>in_flight := in_flight (loops b ! i) - 1, answered := answered (loops b ! i) + 1\<rparr>)"
    using loop_at [OF ok i(1)] i(2) by (simp add: loop_ok_def)
  ultimately show ?thesis by (auto intro!: bg_ok_on_loop [OF ok])
next
  case (ClearBusy i)
  with do have i: "i < length (loops b)" "0 < answered (loops b ! i)"
    "b' = on_loop i (\<lambda>l. l\<lparr>answered := answered l - 1, busy := False\<rparr>) b"
    by (simp_all split: if_splits)
  moreover have "loop_ok ((loops b ! i)\<lparr>answered := answered (loops b ! i) - 1, busy := False\<rparr>)"
    using loop_at [OF ok i(1)] i(2) by (auto simp: loop_ok_def split: if_splits)
  ultimately show ?thesis by (auto intro!: bg_ok_on_loop [OF ok])
next
  case (SeeShutdown i)
  with do have i: "i < length (loops b)" "b' = on_loop i (\<lambda>l. l\<lparr>phase := Ended\<rparr>) b"
    by (simp_all split: if_splits)
  moreover have "loop_ok ((loops b ! i)\<lparr>phase := Ended\<rparr>)"
    using loop_at [OF ok i(1)] by (auto simp: loop_ok_def split: if_splits)
  ultimately show ?thesis by (auto intro!: bg_ok_on_loop [OF ok])
next
  case (StartAgent a m)
  with ok do show ?thesis
    by (auto simp: start_agent_def bg_ok_def loop_ok_def less_Suc_eq split: if_splits)
next
  case (StopAgent a)
  show ?thesis
  proof (cases "tasks b a")
    case None
    with StopAgent ok do show ?thesis by (simp add: stop_agent_def)
  next
    case (Some i)
    then have i: "i < length (loops b)" using ok by (simp add: bg_ok_def)
    have "loop_ok ((loops b ! i)\<lparr>phase := Aborted\<rparr>)"
      using loop_at [OF ok i] by (auto simp: loop_ok_def split: if_splits)
    with StopAgent Some do i show ?thesis
      by (auto simp: stop_agent_def intro!: bg_ok_on_loop [OF ok] split: if_splits)
  qed
next
  case SignalShutdown
  with ok do show ?thesis by (auto simp: bg_ok_def)
qed

lemma bg_reachable_ok: "bg_reachable b \<Longrightarrow> bg_ok b"
proof (induction rule: bg_reachable.induct)
  case start
  show ?case by (simp add: bg_ok_def new_background_def)
next
  case (step b x b')
  from step(2) have "bg_do b x = Some b'" by (rule bg_step_cases)
  with step(3) show ?case by (rule bg_ok_do)
qed

lemma some_in_flight: "0 < sum_list (map in_flight ls) \<Longrightarrow> \<exists>l \<in> set ls. 0 < in_flight l"
  by (induction ls) auto


definition demo_background :: background where
  "demo_background = fold (\<lambda>x b. the (bg_do b x))
     [StartAgent 3 (Continuous 60), Wake 0, GetPermit 0, StartAgent 4 (Periodic ''every 5m''), Wake 1] new_background"

lemma reach_do: "bg_reachable b \<Longrightarrow> bg_do b x \<noteq> None \<Longrightarrow> bg_reachable (the (bg_do b x))"
  using bg_reachable.step [OF _ bg_step.act] by auto

lemma demo_background_reachable: "bg_reachable demo_background"
  unfolding demo_background_def fold_simps by (intro reach_do bg_reachable.start; code_simp)


text \<open>
  The schedule of a periodic agent is a number and a unit. A cron expression in five fields is not
  understood: it stands for five minutes, whatever it says.
\<close>

lemma cron_expression_ignored: "parse_cron_to_secs ''0 9 * * 1-5'' = 300"
  by code_simp

lemma lower_ascii: "list_all (\<lambda>c. (of_char c :: nat) < 128) s \<Longrightarrow> to_lowercase s = map ascii_lower s"
  by (induction s rule: to_lowercase.induct) auto

lemma show_nat_plain: "list_all (\<lambda>c. (of_char c :: nat) < 128 \<and> ascii_lower c = c \<and> visible c) (show_nat n)"
  using show_nat_digits [of n] by (auto simp: list_all_iff is_digit_def ascii_lower_def visible_def Let_def)

text \<open>A number and a unit are understood as long as the product is a 64-bit number.\<close>

lemma schedule_understood:
  assumes "(u, k) \<in> set schedule_units" "n * k < 2 ^ 64"
  shows "parse_cron_to_secs (''every '' @ show_nat n @ u) = n * k"
proof -
  obtain c r where d: "show_nat n = c # r" "visible c" "list_all is_digit (show_nat n)"
    using show_nat_digits [of n] show_nat_plain [of n] by (cases "show_nat n") auto
  have u: "u \<noteq> []" "visible (last u)" "map ascii_lower u = u" "list_all (\<lambda>c. (of_char c :: nat) < 128) u" "0 < k"
    using assms(1) by (auto simp: schedule_units_def visible_def ascii_lower_def)
  have t1: "trim (''every '' @ show_nat n @ u) = ''every '' @ show_nat n @ u"
    using u by (intro trim_visible) (simp_all add: visible_def)
  have t2: "trim (show_nat n @ u) = show_nat n @ u"
    using u d(1,2) by (intro trim_visible) simp_all
  have t3: "trim (show_nat n) = show_nat n"
    using show_nat_plain [of n] d(1) by (intro trim_visible) (auto simp: list_all_iff)
  have "map ascii_lower (show_nat n) = show_nat n"
    using show_nat_plain [of n] by (auto simp: list_all_iff intro: map_idI)
  moreover have "list_all (\<lambda>c. (of_char c :: nat) < 128) (show_nat n)"
    using show_nat_plain [of n] by (auto simp: list_all_iff)
  ultimately have low: "to_lowercase (''every '' @ show_nat n @ u) = ''every '' @ show_nat n @ u"
    using u by (simp add: lower_ascii ascii_lower_def)
  have "n \<le> n * k" using u(5) by (cases k) auto
  then have p: "parse_uint 64 (show_nat n) = Some n" using assms(2) by (intro parse_show) linarith
  have tu: "times_u64 n k = n * k"
    using assms(2) by (simp add: times_u64_def unat_of_nat flip: of_nat_mult)
  have suf: "strip_suffix v (show_nat n @ u) = (if v = u then Some (show_nat n) else None)" if "(v, j) \<in> set schedule_units" for v j
    using that assms(1) by (auto simp: schedule_units_def strip_suffix_None strip_suffix_Some)
  have "try_units (show_nat n @ u) schedule_units = Some (n * k)"
    using assms(1) suf [of "''s''" 1] suf [of "''m''" 60] suf [of "''h''" 3600] suf [of "''d''" 86400] tu
    by (auto simp: schedule_units_def t3 p)
  moreover have "strip_prefix ''every '' (''every '' @ show_nat n @ u) = Some (show_nat n @ u)"
    by (simp add: strip_prefix_Some)
  ultimately show ?thesis unfolding parse_cron_to_secs_def t1 low by (simp add: t2)
qed

end
