(* ===== verification/Auto_Reply.thy ===== *)
theory Auto_Reply
  imports Str_Utils
begin

text \<open>
  Replies in the background, \<open>clawreform-kernel/src/auto_reply.rs\<close>: suppression and the limit on concurrent
  replies. A task that runs is one that holds a permit of the semaphore.
\<close>

record auto_reply_config =
  ar_enabled :: bool
  max_concurrent :: nat
  ar_timeout_secs :: nat
  suppress_patterns :: "string list"

definition default_auto_reply :: auto_reply_config where
  "default_auto_reply = \<lparr>ar_enabled = False, max_concurrent = 3, ar_timeout_secs = 120,
     suppress_patterns = [''/stop'', ''/pause'']\<rparr>"

record auto_reply_channel =
  ar_channel_type :: string
  peer_id :: string
  thread_id :: "string option"

text \<open>The engine with its free permits and the replies under way.\<close>

record auto_reply_engine =
  ar_config :: auto_reply_config
  free_permits :: nat
  replying :: "(string \<times> string \<times> auto_reply_channel) list"

definition new_auto_reply :: "auto_reply_config \<Rightarrow> auto_reply_engine" where
  "new_auto_reply c = \<lparr>ar_config = c, free_permits = max (max_concurrent c) 1, replying = []\<rparr>"

definition should_reply :: "auto_reply_engine \<Rightarrow> string \<Rightarrow> 'a \<Rightarrow> 'a option" where
  "should_reply e message agent =
     (if \<not> ar_enabled (ar_config e) then None
      else if list_ex (\<lambda>p. contains_str (to_lowercase message) (to_lowercase p)) (suppress_patterns (ar_config e))
        then None
      else Some agent)"

text \<open>The start of a reply, or the limit that the error text names.\<close>

definition execute_reply ::
  "string \<Rightarrow> string \<Rightarrow> auto_reply_channel \<Rightarrow> auto_reply_engine \<Rightarrow> (unit, nat) result \<times> auto_reply_engine" where
  "execute_reply agent message ch e =
     (if free_permits e = 0 then (Err (max_concurrent (ar_config e)), e)
      else (Ok (), e\<lparr>free_permits := free_permits e - 1, replying := replying e @ [(agent, message, ch)]\<rparr>))"

datatype reply_outcome = Answered string | AgentError string | ReplyTimedOut

text \<open>The end of the \<open>i\<close>-th reply under way: what is sent to the channel, if anything.\<close>

definition finish_reply ::
  "nat \<Rightarrow> reply_outcome \<Rightarrow> auto_reply_engine \<Rightarrow> (string \<times> auto_reply_channel) option \<times> auto_reply_engine" where
  "finish_reply i out e =
     (if i < length (replying e) then
        (case out of
           Answered r \<Rightarrow> Some (r, snd (snd (replying e ! i)))
         | _ \<Rightarrow> None,
         e\<lparr>free_permits := free_permits e + 1, replying := take i (replying e) @ drop (Suc i) (replying e)\<rparr>)
      else (None, e))"

definition available_permits :: "auto_reply_engine \<Rightarrow> nat" where
  "available_permits e = free_permits e"

datatype reply_event = Begin string string auto_reply_channel | End nat reply_outcome

fun reply_step :: "auto_reply_engine \<Rightarrow> reply_event \<Rightarrow> auto_reply_engine" where
  "reply_step e (Begin a m ch) = snd (execute_reply a m ch e)"
| "reply_step e (End i out) = snd (finish_reply i out e)"

text \<open>In every history the replies under way and the free permits add up to the limit, which is at least one.\<close>

lemma replies_bounded:
  "length (replying (foldl reply_step (new_auto_reply c) evs))
     + free_permits (foldl reply_step (new_auto_reply c) evs) = max (max_concurrent c) 1"
proof (induction evs rule: rev_induct)
  case Nil
  show ?case by (simp add: new_auto_reply_def)
next
  case (snoc x evs)
  then show ?case by (cases x) (auto simp: execute_reply_def finish_reply_def)
qed

text \<open>A message that contains a suppressed pattern in any case gets no reply.\<close>

lemma suppressed: "should_reply (new_auto_reply (default_auto_reply\<lparr>ar_enabled := True\<rparr>)) ''please /STOP now'' a = None"
  by code_simp

end
