(* ===== verification/Auth.thy ===== *)
theory Auth
  imports Str_Utils
begin

text \<open>
  Users, roles and permissions, \<open>clawreform-kernel/src/auth.rs\<close>. The identifiers of new users, which the
  code draws at random, come with the configurations.
\<close>

section \<open>Roles and actions\<close>

datatype user_role = Viewer | User | Admin | Owner

text \<open>The discriminants of the enumeration, which its derived order compares.\<close>

fun rank :: "user_role \<Rightarrow> nat" where
  "rank Viewer = 0"
| "rank User = 1"
| "rank Admin = 2"
| "rank Owner = 3"

lemma rank_inject [simp]: "rank a = rank b \<longleftrightarrow> a = b"
  by (cases a; cases b) simp_all

instantiation user_role :: linorder
begin

definition less_eq_user_role :: "user_role \<Rightarrow> user_role \<Rightarrow> bool" where
  "a \<le> b \<longleftrightarrow> rank a \<le> rank b"

definition less_user_role :: "user_role \<Rightarrow> user_role \<Rightarrow> bool" where
  "a < b \<longleftrightarrow> rank a < rank b"

instance
  by standard (auto simp: less_eq_user_role_def less_user_role_def)

end

definition from_str_role :: "string \<Rightarrow> user_role" where
  "from_str_role s =
     (let l = to_lowercase s
      in if l = ''owner'' then Owner else if l = ''admin'' then Admin else if l = ''viewer'' then Viewer else User)"

fun role_text :: "user_role \<Rightarrow> string" where
  "role_text Viewer = ''viewer''"
| "role_text User = ''user''"
| "role_text Admin = ''admin''"
| "role_text Owner = ''owner''"

datatype user_action =
    ChatWithAgent | SpawnAgent | KillAgent | InstallSkill | ViewConfig | ModifyConfig | ViewUsage | ManageUsers

fun required_role :: "user_action \<Rightarrow> user_role" where
  "required_role ChatWithAgent = User"
| "required_role ViewConfig = User"
| "required_role ViewUsage = Admin"
| "required_role SpawnAgent = Admin"
| "required_role KillAgent = Admin"
| "required_role InstallSkill = Admin"
| "required_role ModifyConfig = Owner"
| "required_role ManageUsers = Owner"

section \<open>The manager\<close>

record user_config =
  uc_name :: string
  uc_role :: string
  uc_bindings :: "(string \<times> string) list"
  uc_api_key_hash :: "string option"

record 'u user_identity =
  ui_id :: 'u
  ui_name :: string
  ui_role :: user_role

record 'u auth_manager =
  users :: "'u \<rightharpoonup> 'u user_identity"
  channel_index :: "string \<rightharpoonup> 'u"

definition channel_key :: "string \<Rightarrow> string \<Rightarrow> string" where
  "channel_key channel_type platform_id = channel_type @ '':'' @ platform_id"

definition register_user :: "'u auth_manager \<Rightarrow> 'u \<times> user_config \<Rightarrow> 'u auth_manager" where
  "register_user m c =
     (case c of (uid, cfg) \<Rightarrow>
        \<lparr>users = (users m)(uid \<mapsto> \<lparr>ui_id = uid, ui_name = uc_name cfg, ui_role = from_str_role (uc_role cfg)\<rparr>),
         channel_index = foldl (\<lambda>ix (ch, pid). ix(channel_key ch pid \<mapsto> uid)) (channel_index m) (uc_bindings cfg)\<rparr>)"

definition new_auth :: "('u \<times> user_config) list \<Rightarrow> 'u auth_manager" where
  "new_auth cfgs = foldl register_user \<lparr>users = Map.empty, channel_index = Map.empty\<rparr> cfgs"

definition identify :: "'u auth_manager \<Rightarrow> string \<Rightarrow> string \<Rightarrow> 'u option" where
  "identify m channel_type platform_id = channel_index m (channel_key channel_type platform_id)"

definition get_user :: "'u auth_manager \<Rightarrow> 'u \<Rightarrow> 'u user_identity option" where
  "get_user m uid = users m uid"

datatype auth_denied =
    UnknownUser
  | LacksPermission string user_role user_action user_role

definition authorize :: "'u auth_manager \<Rightarrow> 'u \<Rightarrow> user_action \<Rightarrow> (unit, auth_denied) result" where
  "authorize m uid act =
     (case users m uid of
        None \<Rightarrow> Err UnknownUser
      | Some i \<Rightarrow>
          let required = required_role act
          in if ui_role i \<ge> required then Ok ()
             else Err (LacksPermission (ui_name i) (ui_role i) act required))"

definition rbac_enabled :: "'u auth_manager \<Rightarrow> bool" where
  "rbac_enabled m \<longleftrightarrow> users m \<noteq> Map.empty"

section \<open>What a configuration grants\<close>

lemma users_fold: "users (foldl register_user m cfgs) uid =
    (case map_of (rev cfgs) uid of
       Some cfg \<Rightarrow> Some \<lparr>ui_id = uid, ui_name = uc_name cfg, ui_role = from_str_role (uc_role cfg)\<rparr>
     | None \<Rightarrow> users m uid)"
proof (induction cfgs rule: rev_induct)
  case (snoc c cfgs)
  then show ?case by (cases c) (simp add: register_user_def)
qed simp

lemma index_fold:
  "foldl (\<lambda>ix (ch, pid). ix(channel_key ch pid \<mapsto> uid)) ix bs k = Some u \<longleftrightarrow>
     (if \<exists>(ch, pid) \<in> set bs. channel_key ch pid = k then u = uid else ix k = Some u)"
  by (induction bs arbitrary: ix) auto

text \<open>Every channel identity that is recognised belongs to a configured user who is bound to it.\<close>

lemma identified_is_bound:
  "identify (new_auth cfgs) ch pid = Some u \<Longrightarrow>
     \<exists>cfg. (u, cfg) \<in> set cfgs \<and> (\<exists>(c, p) \<in> set (uc_bindings cfg). channel_key c p = channel_key ch pid)"
proof (induction cfgs rule: rev_induct)
  case (snoc c cfgs)
  obtain uid cfg where c: "c = (uid, cfg)" by (cases c)
  let ?m = "new_auth cfgs"
  have new: "new_auth (cfgs @ [c]) = register_user ?m (uid, cfg)" by (simp add: new_auth_def c)
  show ?case
  proof (cases "\<exists>(ch', pid') \<in> set (uc_bindings cfg). channel_key ch' pid' = channel_key ch pid")
    case True
    with snoc.prems have "u = uid"
      unfolding identify_def new by (simp add: register_user_def index_fold)
    with True c show ?thesis by auto
  next
    case False
    then have "identify ?m ch pid = Some u"
      using snoc.prems unfolding identify_def new by (simp add: register_user_def index_fold)
    from snoc.IH [OF this] show ?thesis by auto
  qed
qed (simp add: identify_def new_auth_def)

lemma channel_key_inject:
  assumes "CHR '':'' \<notin> set ch" "CHR '':'' \<notin> set ch'" "channel_key ch pid = channel_key ch' pid'"
  shows "ch = ch' \<and> pid = pid'"
proof -
  have "str_find (CHR '':'') (ch @ CHR '':'' # pid) = str_find (CHR '':'') (ch' @ CHR '':'' # pid')"
    using assms(3) by (simp add: channel_key_def)
  then have "length ch = length ch'" by (simp only: str_find_first [OF assms(1)] str_find_first [OF assms(2)]) simp
  with assms(3) show ?thesis by (simp add: channel_key_def)
qed

text \<open>
  A message over a channel may do only what the configuration says. When it is let through for an
  action, the channel identity is bound to a configured user whose role reaches the action's, provided
  that user identifiers are distinct and channel names hold no colon.
\<close>

lemma authorized_is_bound:
  assumes "distinct (map fst cfgs)" "\<forall>(u, cfg) \<in> set cfgs. \<forall>(c, p) \<in> set (uc_bindings cfg). CHR '':'' \<notin> set c"
    and "CHR '':'' \<notin> set ch" "identify (new_auth cfgs) ch pid = Some u" "authorize (new_auth cfgs) u act = Ok ()"
  shows "\<exists>cfg. (u, cfg) \<in> set cfgs \<and> (ch, pid) \<in> set (uc_bindings cfg) \<and> required_role act \<le> from_str_role (uc_role cfg)"
proof -
  from identified_is_bound [OF assms(4)] obtain cfg c p
    where cfg: "(u, cfg) \<in> set cfgs" "(c, p) \<in> set (uc_bindings cfg)" "channel_key c p = channel_key ch pid" by auto
  with assms(2,3) channel_key_inject [of c ch p pid] have bound: "(ch, pid) \<in> set (uc_bindings cfg)" by fastforce
  have "map_of (rev cfgs) u = Some cfg"
    using assms(1) cfg(1) by (intro map_of_is_SomeI) (simp_all flip: rev_map)
  then have user: "users (new_auth cfgs) u = Some \<lparr>ui_id = u, ui_name = uc_name cfg, ui_role = from_str_role (uc_role cfg)\<rparr>"
    by (simp add: new_auth_def users_fold)
  with assms(5) have "required_role act \<le> from_str_role (uc_role cfg)"
    by (simp add: authorize_def Let_def split: if_splits)
  with cfg(1) bound show ?thesis by blast
qed

text \<open>Whoever may do one action may do every action that needs no higher role.\<close>

lemma authorize_monotone:
  "authorize m u act = Ok () \<Longrightarrow> required_role act' \<le> required_role act \<Longrightarrow> authorize m u act' = Ok ()"
  by (auto simp: authorize_def Let_def split: option.splits if_splits)

definition demo_users :: "(nat \<times> user_config) list" where
  "demo_users =
     [(1, \<lparr>uc_name = ''Ada'', uc_role = ''Owner'', uc_bindings = [(''telegram'', ''11'')], uc_api_key_hash = None\<rparr>),
      (2, \<lparr>uc_name = ''Bob'', uc_role = ''viewer'', uc_bindings = [(''telegram'', ''22'')], uc_api_key_hash = None\<rparr>)]"

lemma demo_users_simps:
  "users (new_auth demo_users) 1 = Some \<lparr>ui_id = 1, ui_name = ''Ada'', ui_role = Owner\<rparr>"
  "users (new_auth demo_users) 2 = Some \<lparr>ui_id = 2, ui_name = ''Bob'', ui_role = Viewer\<rparr>"
  "identify (new_auth demo_users) ''telegram'' ''11'' = Some 1"
  "identify (new_auth demo_users) ''telegram'' ''22'' = Some 2"
proof -
  have roles: "from_str_role ''Owner'' = Owner" "from_str_role ''viewer'' = Viewer" by code_simp+
  show "users (new_auth demo_users) 1 = Some \<lparr>ui_id = 1, ui_name = ''Ada'', ui_role = Owner\<rparr>"
    "users (new_auth demo_users) 2 = Some \<lparr>ui_id = 2, ui_name = ''Bob'', ui_role = Viewer\<rparr>"
    "identify (new_auth demo_users) ''telegram'' ''11'' = Some 1"
    "identify (new_auth demo_users) ''telegram'' ''22'' = Some 2"
    by (simp_all add: new_auth_def register_user_def demo_users_def roles identify_def channel_key_def)
qed

text \<open>A role that is misspelt counts as that of a standard user, also where it was meant to be less.\<close>

lemma unknown_role: "from_str_role ''viewr'' = User"
  by code_simp

end
