(* ===== verification/Channel_Router.thy ===== *)
theory Channel_Router
  imports Str_Utils
begin

text \<open>
  Which agent a message from a channel goes to: \<open>clawreform-channels/src/router.rs\<close>, with the bindings and
  the broadcast configuration of \<open>clawreform-types/src/config.rs\<close>. Agents have identifiers of a type \<open>'a\<close>.
\<close>

section \<open>Channels and configuration\<close>

datatype channel_type =
    Telegram | WhatsApp | Slack | Discord | Signal | Matrix | Email | Teams | Mattermost | WebChat | Cli
  | CustomChannel string

fun channel_type_to_str :: "channel_type \<Rightarrow> string" where
  "channel_type_to_str Telegram = ''telegram''"
| "channel_type_to_str Discord = ''discord''"
| "channel_type_to_str Slack = ''slack''"
| "channel_type_to_str WhatsApp = ''whatsapp''"
| "channel_type_to_str Signal = ''signal''"
| "channel_type_to_str Matrix = ''matrix''"
| "channel_type_to_str Email = ''email''"
| "channel_type_to_str Teams = ''teams''"
| "channel_type_to_str Mattermost = ''mattermost''"
| "channel_type_to_str WebChat = ''webchat''"
| "channel_type_to_str Cli = ''cli''"
| "channel_type_to_str (CustomChannel s) = s"

record match_rule =
  rule_channel :: "string option"
  rule_account :: "string option"
  rule_peer :: "string option"
  rule_guild :: "string option"
  rule_roles :: "string list"

record agent_binding =
  bound_agent :: string
  bound_rule :: match_rule

definition specificity :: "match_rule \<Rightarrow> nat" where
  "specificity r =
     (if rule_peer r \<noteq> None then 8 else 0) + (if rule_guild r \<noteq> None then 4 else 0)
     + (if rule_roles r \<noteq> [] then 2 else 0) + (if rule_account r \<noteq> None then 2 else 0)
     + (if rule_channel r \<noteq> None then 1 else 0)"

datatype broadcast_strategy = Parallel | OneByOne

record broadcast_config =
  strategy :: broadcast_strategy
  routes :: "string \<rightharpoonup> string list"

definition no_broadcast :: broadcast_config where
  "no_broadcast = \<lparr>strategy = Parallel, routes = Map.empty\<rparr>"

section \<open>The router\<close>

record binding_context =
  ctx_channel :: string
  ctx_account :: "string option"
  ctx_peer :: string
  ctx_guild :: "string option"
  ctx_roles :: "string list"

text \<open>The direct routes are keyed by the debug text of a channel type, here by the channel type itself.\<close>

record 'a agent_router =
  user_defaults :: "string \<rightharpoonup> 'a"
  direct_routes :: "channel_type \<times> string \<rightharpoonup> 'a"
  default_agent :: "'a option"
  bindings :: "agent_binding list"
  broadcast :: broadcast_config
  name_cache :: "string \<rightharpoonup> 'a"

definition new_router :: "'a agent_router" where
  "new_router = \<lparr>user_defaults = Map.empty, direct_routes = Map.empty, default_agent = None, bindings = [],
     broadcast = no_broadcast, name_cache = Map.empty\<rparr>"

definition set_default :: "'a \<Rightarrow> 'a agent_router \<Rightarrow> 'a agent_router" where
  "set_default a r = r\<lparr>default_agent := Some a\<rparr>"

definition set_user_default :: "string \<Rightarrow> 'a \<Rightarrow> 'a agent_router \<Rightarrow> 'a agent_router" where
  "set_user_default k a r = r\<lparr>user_defaults := (user_defaults r)(k \<mapsto> a)\<rparr>"

definition set_direct_route :: "channel_type \<Rightarrow> string \<Rightarrow> 'a \<Rightarrow> 'a agent_router \<Rightarrow> 'a agent_router" where
  "set_direct_route ch u a r = r\<lparr>direct_routes := (direct_routes r)((ch, u) \<mapsto> a)\<rparr>"

text \<open>The stable sort by descending specificity.\<close>

definition by_specificity :: "agent_binding list \<Rightarrow> agent_binding list" where
  "by_specificity = sort_key (\<lambda>b. - int (specificity (bound_rule b)))"

definition load_bindings :: "agent_binding list \<Rightarrow> 'a agent_router \<Rightarrow> 'a agent_router" where
  "load_bindings bs r = r\<lparr>bindings := by_specificity bs\<rparr>"

definition load_broadcast :: "broadcast_config \<Rightarrow> 'a agent_router \<Rightarrow> 'a agent_router" where
  "load_broadcast b r = r\<lparr>broadcast := b\<rparr>"

definition register_name :: "string \<Rightarrow> 'a \<Rightarrow> 'a agent_router \<Rightarrow> 'a agent_router" where
  "register_name n a r = r\<lparr>name_cache := (name_cache r)(n \<mapsto> a)\<rparr>"

definition add_binding :: "agent_binding \<Rightarrow> 'a agent_router \<Rightarrow> 'a agent_router" where
  "add_binding b r = r\<lparr>bindings := by_specificity (bindings r @ [b])\<rparr>"

definition remove_binding :: "nat \<Rightarrow> 'a agent_router \<Rightarrow> agent_binding option \<times> 'a agent_router" where
  "remove_binding i r =
     (if i < length (bindings r)
      then (Some (bindings r ! i), r\<lparr>bindings := take i (bindings r) @ drop (Suc i) (bindings r)\<rparr>)
      else (None, r))"

definition given :: "'b option \<Rightarrow> ('b \<Rightarrow> bool) \<Rightarrow> bool" where
  "given x P = (case x of None \<Rightarrow> True | Some v \<Rightarrow> P v)"

definition binding_matches :: "match_rule \<Rightarrow> binding_context \<Rightarrow> bool" where
  "binding_matches rule ctx \<longleftrightarrow>
     given (rule_channel rule) (\<lambda>c. c = ctx_channel ctx)
     \<and> given (rule_account rule) (\<lambda>a. ctx_account ctx = Some a)
     \<and> given (rule_peer rule) (\<lambda>p. p = ctx_peer ctx)
     \<and> given (rule_guild rule) (\<lambda>g. ctx_guild ctx = Some g)
     \<and> (rule_roles rule = [] \<or> list_ex (\<lambda>x. x \<in> set (ctx_roles ctx)) (rule_roles rule))"

fun first_binding :: "(string \<rightharpoonup> 'a) \<Rightarrow> agent_binding list \<Rightarrow> binding_context \<Rightarrow> 'a option" where
  "first_binding names [] ctx = None"
| "first_binding names (b # bs) ctx =
     (if binding_matches (bound_rule b) ctx
      then (case names (bound_agent b) of Some a \<Rightarrow> Some a | None \<Rightarrow> first_binding names bs ctx)
      else first_binding names bs ctx)"

definition resolve_binding :: "'a agent_router \<Rightarrow> binding_context \<Rightarrow> 'a option" where
  "resolve_binding r ctx = first_binding (name_cache r) (bindings r) ctx"

definition or_else :: "'b option \<Rightarrow> 'b option \<Rightarrow> 'b option" where
  "or_else x y = (case x of Some v \<Rightarrow> Some v | None \<Rightarrow> y)"

definition resolve_with_context ::
  "'a agent_router \<Rightarrow> channel_type \<Rightarrow> string \<Rightarrow> string option \<Rightarrow> binding_context \<Rightarrow> 'a option" where
  "resolve_with_context r ch uid user_key ctx =
     or_else (resolve_binding r ctx)
       (or_else (direct_routes r (ch, uid))
          (or_else (case user_key of None \<Rightarrow> None | Some k \<Rightarrow> user_defaults r k)
             (or_else (user_defaults r uid) (default_agent r))))"

definition plain_context :: "channel_type \<Rightarrow> string \<Rightarrow> binding_context" where
  "plain_context ch uid = \<lparr>ctx_channel = channel_type_to_str ch, ctx_account = None, ctx_peer = uid,
     ctx_guild = None, ctx_roles = []\<rparr>"

definition resolve :: "'a agent_router \<Rightarrow> channel_type \<Rightarrow> string \<Rightarrow> string option \<Rightarrow> 'a option" where
  "resolve r ch uid user_key = resolve_with_context r ch uid user_key (plain_context ch uid)"

definition resolve_broadcast :: "'a agent_router \<Rightarrow> string \<Rightarrow> (string \<times> 'a option) list" where
  "resolve_broadcast r peer =
     (case routes (broadcast r) peer of
        None \<Rightarrow> []
      | Some names \<Rightarrow> map (\<lambda>n. (n, name_cache r n)) names)"

definition has_broadcast :: "'a agent_router \<Rightarrow> string \<Rightarrow> bool" where
  "has_broadcast r peer \<longleftrightarrow> routes (broadcast r) peer \<noteq> None"

section \<open>The most specific binding wins\<close>

definition usable :: "'a agent_router \<Rightarrow> binding_context \<Rightarrow> agent_binding \<Rightarrow> bool" where
  "usable r ctx b \<longleftrightarrow> binding_matches (bound_rule b) ctx \<and> name_cache r (bound_agent b) \<noteq> None"

lemma first_binding_find:
  "first_binding names bs ctx =
     (case find (\<lambda>b. binding_matches (bound_rule b) ctx \<and> names (bound_agent b) \<noteq> None) bs of
        None \<Rightarrow> None | Some b \<Rightarrow> names (bound_agent b))"
  by (induction bs) (auto split: option.split)

definition sorted_bindings :: "agent_binding list \<Rightarrow> bool" where
  "sorted_bindings bs \<longleftrightarrow> sorted (map (\<lambda>b. - int (specificity (bound_rule b))) bs)"

lemma sorted_load [simp]: "sorted_bindings (by_specificity bs)"
  by (simp add: sorted_bindings_def by_specificity_def)

lemma set_by_specificity [simp]: "set (by_specificity bs) = set bs"
  by (simp add: by_specificity_def)

lemma find_most_specific:
  assumes "sorted_bindings bs" "find P bs = Some b"
  shows "b \<in> set bs \<and> P b \<and> (\<forall>b' \<in> set bs. P b' \<longrightarrow> specificity (bound_rule b') \<le> specificity (bound_rule b))"
proof -
  obtain i where i: "i < length bs" "P (bs ! i)" "b = bs ! i" "\<forall>j<i. \<not> P (bs ! j)"
    using assms(2) by (auto simp: find_Some_iff)
  have "specificity (bound_rule (bs ! j)) \<le> specificity (bound_rule b)" if "j < length bs" "P (bs ! j)" for j
  proof -
    have "i \<le> j" using i(4) that(2) by (meson not_less)
    then show ?thesis
      using assms(1) that(1) i(1,3) sorted_nth_mono [of "map (\<lambda>b. - int (specificity (bound_rule b))) bs" i j]
      by (simp add: sorted_bindings_def)
  qed
  with i show ?thesis by (auto simp: in_set_conv_nth)
qed


text \<open>A message routed without its guild, account or roles never meets a rule that names one of them.\<close>

lemma guild_rules_unreachable:
  "rule_guild rule \<noteq> None \<or> rule_account rule \<noteq> None \<or> rule_roles rule \<noteq> [] \<Longrightarrow>
   \<not> binding_matches rule (plain_context ch uid)"
  by (auto simp: binding_matches_def plain_context_def given_def list_ex_iff split: option.splits)

definition demo_rule :: match_rule where
  "demo_rule = \<lparr>rule_channel = Some ''discord'', rule_account = None, rule_peer = None, rule_guild = None, rule_roles = []\<rparr>"


end
