(* ===== verification/Channel_Format.thy ===== *)
theory Channel_Format
  imports Str_Utils
begin

text \<open>
  What leaves for a channel: the conversions of \<open>clawreform-channels/src/formatter.rs\<close> and
  \<open>split_message\<close> of \<open>types.rs\<close>. The special characters are ASCII, so working on bytes is the same as
  working on characters.
\<close>

section \<open>Formats\<close>

datatype output_format = Markdown | TelegramHtml | SlackMrkdwn | PlainText

definition stars :: "string \<Rightarrow> nat" where
  "stars s = count_list s (CHR ''*'')"

text \<open>The text around the first two occurrences of a marker.\<close>

definition first_pair :: "string \<Rightarrow> string \<Rightarrow> (string \<times> string \<times> string) option" where
  "first_pair m s =
     (case find_sub m s of
        None \<Rightarrow> None
      | Some i \<Rightarrow>
          let r = drop (i + length m) s
          in (case find_sub m r of
                None \<Rightarrow> None
              | Some j \<Rightarrow> Some (take i s, take j r, drop (j + length m) r)))"

lemma first_pair_Some: "first_pair m s = Some (a, b, c) \<Longrightarrow> s = a @ m @ b @ m @ c"
proof -
  assume "first_pair m s = Some (a, b, c)"
  then obtain i j where i: "find_sub m s = Some i" "a = take i s"
    and j: "find_sub m (drop (i + length m) s) = Some j" "b = take j (drop (i + length m) s)"
      "c = drop (j + length m) (drop (i + length m) s)"
    by (auto simp: first_pair_def Let_def split: option.splits)
  have split: "t = take k t @ m @ drop (k + length m) t" if "find_sub m t = Some k" for t k
  proof -
    from find_sub_Some [OF that] obtain u where "drop k t = m @ u" by (auto simp: prefix_def)
    moreover have "drop (k + length m) t = drop (length m) (drop k t)" by (simp add: add.commute)
    ultimately show ?thesis by (metis append_eq_conv_conj append_take_drop_id)
  qed
  show ?thesis using split [OF i(1)] split [OF j(1)] i(2) j(2,3) by metis
qed

datatype bold_style = HtmlBold | SlackBold

fun bold_open :: "bold_style \<Rightarrow> string" where
  "bold_open HtmlBold = ''<b>''"
| "bold_open SlackBold = ''*''"

fun bold_close :: "bold_style \<Rightarrow> string" where
  "bold_close HtmlBold = ''</b>''"
| "bold_close SlackBold = ''*''"

lemma stars_append [simp]: "stars (s @ t) = stars s + stars t"
  by (simp add: stars_def)

function bold_loop :: "bold_style \<Rightarrow> string \<Rightarrow> string" where
  "bold_loop st s =
     (case first_pair ''**'' s of
        None \<Rightarrow> s
      | Some (a, inner, c) \<Rightarrow> bold_loop st (a @ bold_open st @ inner @ bold_close st @ c))"
  by pat_completeness auto
termination
proof (relation "measure (\<lambda>(st, s). stars s)")
  fix st s x a y inner c
  assume "first_pair ''**'' s = Some x" "(a, y) = x" "(inner, c) = y"
  then have s: "s = a @ ''**'' @ inner @ ''**'' @ c" using first_pair_Some by blast
  have "stars (bold_open st) + stars (bold_close st) < 4" by (cases st) (simp_all add: stars_def)
  then show "((st, a @ bold_open st @ inner @ bold_close st @ c), (st, s)) \<in> measure (\<lambda>(st, s). stars s)"
    unfolding s by (simp add: stars_def)
qed simp

text \<open>A star without a star beside it: the character before it (if any) and the rest of the text are given.\<close>

fun lone_star :: "char option \<Rightarrow> char \<Rightarrow> string \<Rightarrow> bool" where
  "lone_star before c rest \<longleftrightarrow>
     c = CHR ''*'' \<and> before \<noteq> Some (CHR ''*'') \<and> (case rest of [] \<Rightarrow> True | d # _ \<Rightarrow> d \<noteq> CHR ''*'')"

fun italic_pass :: "char option \<Rightarrow> bool \<Rightarrow> string \<Rightarrow> string" where
  "italic_pass before in_italic [] = []"
| "italic_pass before in_italic (c # s) =
     (if lone_star before c s
      then (if in_italic then ''</i>'' else ''<i>'') @ italic_pass (Some c) (\<not> in_italic) s
      else c # italic_pass (Some c) in_italic s)"

definition ticks :: "string \<Rightarrow> nat" where
  "ticks s = count_list s (CHR 0x60)"

lemma ticks_append [simp]: "ticks (s @ t) = ticks s + ticks t"
  by (simp add: ticks_def)

function code_loop :: "string \<Rightarrow> string" where
  "code_loop s =
     (case first_pair [CHR 0x60] s of
        None \<Rightarrow> s
      | Some (a, inner, c) \<Rightarrow> code_loop (a @ ''<code>'' @ inner @ ''</code>'' @ c))"
  by pat_completeness auto
termination
proof (relation "measure ticks")
  fix s x a y inner c
  assume "first_pair [CHR 0x60] s = Some x" "(a, y) = x" "(inner, c) = y"
  then have "s = a @ [CHR 0x60] @ inner @ [CHR 0x60] @ c" using first_pair_Some by blast
  then show "(a @ ''<code>'' @ inner @ ''</code>'' @ c, s) \<in> measure ticks" by (simp add: ticks_def)
qed simp

datatype link_style = HtmlLink | SlackLink | PlainLink

fun render_link :: "link_style \<Rightarrow> string \<Rightarrow> string \<Rightarrow> string" where
  "render_link HtmlLink url t = ''<a href='' @ [CHR 0x22] @ url @ [CHR 0x22] @ ''>'' @ t @ ''</a>''"
| "render_link SlackLink url t = ''<'' @ url @ ''|'' @ t @ ''>''"
| "render_link PlainLink url t = t @ '' ('' @ url @ '')''"

text \<open>The first opening bracket, the first \<open>](\<close> behind it and the first closing parenthesis behind that.\<close>

definition first_link :: "string \<Rightarrow> (string \<times> string \<times> string \<times> string) option" where
  "first_link s =
     (case str_find (CHR ''['') s of
        None \<Rightarrow> None
      | Some i \<Rightarrow>
          (case find_sub '']('' (drop i s) of
             None \<Rightarrow> None
           | Some k \<Rightarrow>
               let r = drop (i + k + 2) s
               in (case str_find (CHR '')'') r of
                     None \<Rightarrow> None
                   | Some j \<Rightarrow> Some (take i s, take (k - 1) (drop (i + 1) s), take j r, drop (j + 1) r))))"

lemma take_drop_split: "drop i s = x # xs \<Longrightarrow> s = take i s @ x # xs \<and> drop (Suc i) s = xs"
  by (metis append_take_drop_id drop_Suc list.sel(3) tl_drop)

lemma first_link_Some:
  assumes "first_link s = Some (a, t, url, c)"
  shows "s = a @ ''['' @ t @ ''](''  @ url @ '')'' @ c"
proof -
  obtain i k j where i: "str_find (CHR ''['') s = Some i" and k: "find_sub ''](''  (drop i s) = Some k"
    and j: "str_find (CHR '')'') (drop (i + k + 2) s) = Some j"
    and r: "a = take i s" "t = take (k - 1) (drop (i + 1) s)" "url = take j (drop (i + k + 2) s)" "c = drop (j + 1) (drop (i + k + 2) s)"
    using assms by (auto simp: first_link_def Let_def split: option.splits)
  from str_find_Some [OF i] have s: "s = a @ CHR ''['' # drop (Suc i) s" by (simp add: r)
  then have d: "drop i s = CHR ''['' # drop (Suc i) s"
    by (metis append_take_drop_id r(1) same_append_eq)
  have "k \<noteq> 0" using k d by (auto split: if_splits)
  then obtain m where m: "k = Suc m" by (cases k) auto
  from find_sub_Some [OF k] obtain u where u: "drop k (drop i s) = ''](''  @ u" by (auto simp: prefix_def)
  then have "drop m (drop (Suc i) s) = ''](''  @ u" unfolding m d by simp
  then have t: "drop (Suc i) s = t @ ''](''  @ u"
    by (metis append_take_drop_id r(2) m diff_Suc_1 Suc_eq_plus1)
  have "drop (i + k + 2) s = drop 2 (drop k (drop i s))" by (simp only: drop_drop) (simp add: ac_simps)
  also have "\<dots> = u" by (simp only: u) simp
  finally have u2: "drop (i + k + 2) s = u" .
  from str_find_Some [OF j [unfolded u2]] have "u = take j u @ CHR '')'' # drop (Suc j) u" by blast
  moreover have "url = take j u" "c = drop (Suc j) u" by (simp_all only: r u2 Suc_eq_plus1)
  ultimately have "u = url @ CHR '')'' # c" by simp
  with s t show ?thesis by simp
qed

definition brackets :: "string \<Rightarrow> nat" where
  "brackets s = count_list s (CHR ''['')"

lemma brackets_append [simp]: "brackets (s @ t) = brackets s + brackets t"
  by (simp add: brackets_def)

lemma brackets_link: "brackets (render_link st url t) = brackets url + brackets t"
  by (cases st) (simp_all add: brackets_def)

function link_loop :: "link_style \<Rightarrow> string \<Rightarrow> string" where
  "link_loop st s =
     (case first_link s of
        None \<Rightarrow> s
      | Some (a, t, url, c) \<Rightarrow> link_loop st (a @ render_link st url t @ c))"
  by pat_completeness auto
termination
proof (relation "measure (\<lambda>(st, s). brackets s)")
  fix st s x a y t z url c
  assume "first_link s = Some x" "(a, y) = x" "(t, z) = y" "(url, c) = z"
  then have s: "s = a @ ''['' @ t @ ''](''  @ url @ '')'' @ c" using first_link_Some by blast
  have "brackets ''['' = 1" "brackets ''](''  = 0" "brackets '')'' = 0" by (simp_all add: brackets_def)
  then show "((st, a @ render_link st url t @ c), (st, s)) \<in> measure (\<lambda>(st, s). brackets s)"
    unfolding s by (simp only: in_measure prod.case brackets_append brackets_link)
qed simp

declare bold_loop.simps [simp del] code_loop.simps [simp del] link_loop.simps [simp del]

definition markdown_to_telegram_html :: "string \<Rightarrow> string" where
  "markdown_to_telegram_html s = link_loop HtmlLink (code_loop (italic_pass None False (bold_loop HtmlBold s)))"

definition markdown_to_slack_mrkdwn :: "string \<Rightarrow> string" where
  "markdown_to_slack_mrkdwn s = link_loop SlackLink (bold_loop SlackBold s)"

fun drop_lone_stars :: "char option \<Rightarrow> string \<Rightarrow> string" where
  "drop_lone_stars before [] = []"
| "drop_lone_stars before (c # s) =
     (if lone_star before c s then drop_lone_stars (Some c) s else c # drop_lone_stars (Some c) s)"

definition markdown_to_plain :: "string \<Rightarrow> string" where
  "markdown_to_plain s =
     link_loop PlainLink (filter (\<lambda>c. c \<noteq> CHR 0x60) (drop_lone_stars None (str_replace ''**'' [] s)))"

definition format_for_channel :: "string \<Rightarrow> output_format \<Rightarrow> string" where
  "format_for_channel s f =
     (case f of
        Markdown \<Rightarrow> s
      | TelegramHtml \<Rightarrow> markdown_to_telegram_html s
      | SlackMrkdwn \<Rightarrow> markdown_to_slack_mrkdwn s
      | PlainText \<Rightarrow> markdown_to_plain s)"

lemma format_example:
  "format_for_channel ''**a** *b* [t](u)'' TelegramHtml = ''<b>a</b> <i>b</i> <a href='' @ [CHR 0x22] @ ''u'' @ [CHR 0x22] @ ''>t</a>''"
  "format_for_channel ''**a** [t](u)'' SlackMrkdwn = ''*a* <u|t>''"
  "format_for_channel ''**a** *b* [t](u)'' PlainText = ''a b t (u)''"
  by code_simp+

section \<open>Plain text is plain\<close>

text \<open>No two stars stand side by side.\<close>

fun spread :: "string \<Rightarrow> bool" where
  "spread (c # d # s) \<longleftrightarrow> \<not> (c = CHR ''*'' \<and> d = CHR ''*'') \<and> spread (d # s)"
| "spread _ \<longleftrightarrow> True"

lemma replaced_spread:
  "spread (str_replace ''**'' [] s) \<and> (\<forall>c r. s = c # r \<longrightarrow> c \<noteq> CHR ''*'' \<longrightarrow> (\<exists>r'. str_replace ''**'' [] s = c # r'))"
proof (induction "''**''" "[] :: string" s rule: str_replace.induct)
  case (2 c s)
  show ?case
  proof (cases "prefix ''**'' (c # s)")
    case True
    then obtain u where u: "c = CHR ''*''" "s = CHR ''*'' # u" by (auto simp: prefix_def)
    with 2(1) True have "spread (str_replace ''**'' [] u)" by simp
    with u show ?thesis by simp
  next
    case False
    then have r: "str_replace ''**'' [] (c # s) = c # str_replace ''**'' [] s"
      by (simp only: str_replace.simps(2) if_False simp_thms)
    have ih: "spread (str_replace ''**'' [] s)"
      "\<And>d u. s = d # u \<Longrightarrow> d \<noteq> CHR ''*'' \<Longrightarrow> \<exists>r'. str_replace ''**'' [] s = d # r'"
      using 2(2) False by auto
    show ?thesis
    proof (cases "c = CHR ''*''")
      case True
      with False have "s = [] \<or> (\<exists>d u. s = d # u \<and> d \<noteq> CHR ''*'')" by (cases s) auto
      with ih True show ?thesis unfolding r by (cases "str_replace ''**'' [] s") auto
    next
      case False
      with ih show ?thesis unfolding r by (cases "str_replace ''**'' [] s") auto
    qed
  qed
qed simp

lemma drop_lone_all:
  "spread s \<Longrightarrow> (before = Some (CHR ''*'') \<longrightarrow> s = [] \<or> hd s \<noteq> CHR ''*'') \<Longrightarrow> CHR ''*'' \<notin> set (drop_lone_stars before s)"
proof (induction before s rule: drop_lone_stars.induct)
  case (2 before c s)
  then show ?case by (cases s) (auto split: if_splits)
qed simp

lemma link_plain_set: "set (link_loop PlainLink s) \<subseteq> set s \<union> set '' ()''"
proof (induction "PlainLink" s rule: link_loop.induct)
  case (1 s)
  show ?case
  proof (cases "first_link s")
    case None
    then show ?thesis by (subst link_loop.simps) auto
  next
    case (Some p)
    obtain a t url c where p: "p = (a, t, url, c)" by (cases p)
    have s: "s = a @ ''['' @ t @ ''](''  @ url @ '')'' @ c" using first_link_Some Some p by blast
    have "set (link_loop PlainLink (a @ render_link PlainLink url t @ c)) \<subseteq> set (a @ render_link PlainLink url t @ c) \<union> set '' ()''"
      using 1 Some p by blast
    then have "set (link_loop PlainLink (a @ render_link PlainLink url t @ c)) \<subseteq> set s \<union> set '' ()''"
      unfolding s by auto
    then show ?thesis by (subst link_loop.simps) (simp add: Some p)
  qed
qed

text \<open>Plain text has no star and no backtick, whatever the markup was.\<close>

lemma plain_text_clean: "CHR ''*'' \<notin> set (markdown_to_plain s) \<and> CHR 0x60 \<notin> set (markdown_to_plain s)"
proof -
  let ?t = "filter (\<lambda>c. c \<noteq> CHR 0x60) (drop_lone_stars None (str_replace ''**'' [] s))"
  have "CHR ''*'' \<notin> set ?t" using drop_lone_all [of "str_replace ''**'' [] s" None] replaced_spread by auto
  moreover have "CHR 0x60 \<notin> set ?t" by simp
  ultimately show ?thesis using link_plain_set [of ?t] by (auto simp: markdown_to_plain_def)
qed

text \<open>The Telegram format escapes nothing: a comparison in a text reads as the start of a tag.\<close>

lemma telegram_unescaped: "markdown_to_telegram_html ''x<y'' = ''x<y''"
  by code_simp

section \<open>Long messages\<close>

text \<open>\<open>str::rfind\<close> of a character.\<close>

definition rfind_char :: "char \<Rightarrow> string \<Rightarrow> nat option" where
  "rfind_char c s = map_option (\<lambda>i. length s - 1 - i) (str_find c (rev s))"

lemma rfind_char_Some: "rfind_char c s = Some i \<Longrightarrow> i < length s \<and> s ! i = c"
proof -
  assume "rfind_char c s = Some i"
  then obtain k where k: "str_find c (rev s) = Some k" "i = length s - 1 - k" by (auto simp: rfind_char_def)
  from str_find_Some [OF k(1)] have "length (rev s) = length (take k (rev s) @ c # drop (Suc k) (rev s))" by simp
  moreover have "k < length s"
  proof (rule ccontr)
    assume "\<not> k < length s"
    with str_find_Some [OF k(1)] show False by simp
  qed
  moreover from this str_find_Some [OF k(1)] have "rev s ! k = c"
    by (metis append_take_drop_id id_take_nth_drop length_rev nth_append_length length_take min.absorb4)
  ultimately show ?thesis using k(2) by (simp add: rev_nth)
qed

definition skip_newline :: "string \<Rightarrow> string" where
  "skip_newline rest =
     (case strip_prefix [CHR 0x0D, newline] rest of
        Some r \<Rightarrow> r
      | None \<Rightarrow> (case strip_prefix [newline] rest of Some r \<Rightarrow> r | None \<Rightarrow> rest))"

text \<open>The loop of \<open>split_message\<close>: \<open>None\<close> when it does not end, a panic when a cut falls into a character.\<close>

partial_function (option) split_loop :: "nat \<Rightarrow> string \<Rightarrow> string list \<Rightarrow> (string list, panic) result option" where
  "split_loop n remaining chunks =
     (if remaining = [] then Some (Ok chunks)
      else if length remaining \<le> n then Some (Ok (chunks @ [remaining]))
      else case slice_to remaining n of
             Inl p \<Rightarrow> Some (Err p)
           | Inr window \<Rightarrow>
               (let k = (case rfind_char newline window of Some i \<Rightarrow> i | None \<Rightarrow> n)
                in split_loop n (skip_newline (drop k remaining)) (chunks @ [take k remaining])))"

definition split_message :: "string \<Rightarrow> nat \<Rightarrow> (string list, panic) result option" where
  "split_message t n = (if length t \<le> n then Some (Ok [t]) else split_loop n t [])"

text \<open>The chunks are the text with one line break left out at some of the cuts.\<close>

fun rejoins :: "string list \<Rightarrow> string \<Rightarrow> bool" where
  "rejoins [] t \<longleftrightarrow> t = []"
| "rejoins (c # cs) t \<longleftrightarrow>
     prefix c t \<and> (rejoins cs (drop (length c) t)
       \<or> prefix [newline] (drop (length c) t) \<and> rejoins cs (drop (length c + 1) t)
       \<or> prefix [CHR 0x0D, newline] (drop (length c) t) \<and> rejoins cs (drop (length c + 2) t))"

lemma skip_newline_cases:
  "skip_newline r = r \<or> (prefix [newline] r \<and> skip_newline r = drop 1 r)
     \<or> (prefix [CHR 0x0D, newline] r \<and> skip_newline r = drop 2 r)"
  by (auto simp: skip_newline_def strip_prefix_Some split: option.split)

lemma skip_newline_length: "length (skip_newline r) \<le> length r"
  using skip_newline_cases [of r] by auto

lemma skip_newline_here: "r \<noteq> [] \<Longrightarrow> hd r = newline \<Longrightarrow> length (skip_newline r) < length r"
  by (cases r) (auto simp: skip_newline_def strip_prefix_Some newline_def split: option.split)

lemma single_bytes_skip: "single_bytes r \<Longrightarrow> single_bytes (skip_newline r)"
  using skip_newline_cases [of r] by (auto simp: single_bytes_drop)

lemma split_loop_ok:
  assumes "0 < n" "single_bytes t"
  shows "\<exists>cs. split_loop n t acc = Some (Ok (acc @ cs)) \<and> rejoins cs t \<and> (\<forall>c \<in> set cs. length c \<le> n)"
  using assms(2)
proof (induction "length t" arbitrary: t acc rule: less_induct)
  case less
  consider "t = []" | "t \<noteq> []" "length t \<le> n" | "n < length t" by linarith
  then show ?case
  proof cases
    case 1
    then show ?thesis by (subst split_loop.simps) simp
  next
    case 2
    then have "split_loop n t acc = Some (Ok (acc @ [t]))" by (subst split_loop.simps) simp
    moreover have "rejoins [t] t" by simp
    ultimately show ?thesis using 2 by (intro exI [of _ "[t]"]) simp
  next
    case 3
    define k where "k = (case rfind_char newline (take n t) of Some i \<Rightarrow> i | None \<Rightarrow> n)"
    let ?rest = "skip_newline (drop k t)"
    have "t \<noteq> []" using 3 by auto
    then have k: "k \<le> n" "k = 0 \<longrightarrow> hd (drop k t) = newline"
      using rfind_char_Some [of newline "take n t"] 3 assms(1)
      by (auto simp: k_def hd_drop_conv_nth hd_conv_nth split: option.split)
    have "length ?rest < length t"
    proof (cases "k = 0")
      case True
      with k(2) 3 show ?thesis using skip_newline_here [of t] by (cases t) auto
    next
      case False
      with 3 k(1) show ?thesis using skip_newline_length [of "drop k t"] by simp
    qed
    moreover have "single_bytes ?rest" by (simp add: single_bytes_skip single_bytes_drop less.prems)
    ultimately obtain cs where cs: "split_loop n ?rest (acc @ [take k t]) = Some (Ok ((acc @ [take k t]) @ cs))"
      "rejoins cs ?rest" "\<forall>c \<in> set cs. length c \<le> n"
      using less.hyps by blast
    have "slice_to t n = Ok (take n t)" using 3 less.prems by (simp add: single_bytes_slice_to)
    then have "split_loop n t acc = split_loop n ?rest (acc @ [take k t])"
      using 3 \<open>t \<noteq> []\<close> by (subst split_loop.simps) (simp add: k_def Let_def)
    moreover have "rejoins (take k t # cs) t"
      using cs(2) skip_newline_cases [of "drop k t"] k(1) 3 by (auto simp: take_is_prefix min_def add.commute)
    ultimately show ?thesis using cs k(1) by (intro exI [of _ "take k t # cs"]) simp
  qed
qed

text \<open>
  Splitting a message of single-byte characters ends, each part fits the limit, and the parts put
  together are the message with at most one line break left out at each cut.
\<close>

theorem split_message_ok:
  assumes "0 < n" "single_bytes t"
  shows "\<exists>cs. split_message t n = Some (Ok cs) \<and> rejoins cs t \<and> (\<forall>c \<in> set cs. length c \<le> n)"
proof (cases "length t \<le> n")
  case True
  then show ?thesis by (intro exI [of _ "[t]"]) (simp add: split_message_def)
next
  case False
  then show ?thesis using split_loop_ok [OF assms, of "[]"] by (simp add: split_message_def)
qed

lemma split_message_ok_witness:
  "\<exists>cs. split_message (replicate 2000 CHR ''a'') 1024 = Some (Ok cs) \<and> (\<forall>c \<in> set cs. length c \<le> 1024)"
proof -
  have "single_bytes (replicate 2000 CHR ''a'')" by (simp add: single_bytes_def list_all_iff is_cont_def)
  from split_message_ok [OF _ this, of 1024] show ?thesis by auto
qed

text \<open>A character of two bytes across the limit of 4096 bytes panics, and with it the task of the channel.\<close>

lemma split_message_panics:
  "split_message (replicate 4095 CHR ''a'' @ [CHR 0xC3, CHR 0xA9]) 4096 = Some (Err SliceNotOnBoundary)"
proof -
  let ?t = "replicate 4095 CHR ''a'' @ [CHR 0xC3, CHR 0xA9]"
  have "?t ! 4096 = CHR 0xA9" by (simp add: nth_append)
  then have "slice_to ?t 4096 = Err SliceNotOnBoundary"
    by (simp add: slice_to_def is_char_boundary_def is_cont_def)
  then show ?thesis by (simp add: split_message_def) (subst split_loop.simps, simp)
qed

section \<open>Rate limit\<close>

text \<open>Times are nanoseconds; the bucket of a user holds the times of the messages let through.\<close>

type_synonym channel_limiter = "string \<Rightarrow> nat list"

definition rate_check ::
  "nat \<Rightarrow> string \<Rightarrow> string \<Rightarrow> nat \<Rightarrow> channel_limiter \<Rightarrow> (unit, nat) result \<times> channel_limiter" where
  "rate_check now channel platform_id max_per_minute b =
     (if max_per_minute = 0 then (Ok (), b)
      else let k = channel @ '':'' @ platform_id;
               recent = filter (\<lambda>t. now - t < 60 * 10 ^ 9) (b k)
           in if length recent \<ge> max_per_minute then (Err max_per_minute, b(k := recent))
              else (Ok (), b(k := recent @ [now])))"

text \<open>The times at which the messages of one user got through, out of a list of times.\<close>

fun passed :: "string \<Rightarrow> string \<Rightarrow> nat \<Rightarrow> nat list \<Rightarrow> channel_limiter \<Rightarrow> nat list" where
  "passed ch u n [] b = []"
| "passed ch u n (t # ts) b =
     (case rate_check t ch u n b of
        (Inr _, b1) \<Rightarrow> t # passed ch u n ts b1
      | (Inl _, b1) \<Rightarrow> passed ch u n ts b1)"

definition minute :: nat where
  "minute = 60 * 10 ^ 9"

definition window :: "nat \<Rightarrow> nat list \<Rightarrow> nat list" where
  "window t ts = filter (\<lambda>x. x \<le> t \<and> t - x < minute) ts"

lemma filter_le_length: "(\<And>x. x \<in> set xs \<Longrightarrow> P x \<Longrightarrow> Q x) \<Longrightarrow> length (filter P xs) \<le> length (filter Q xs)"
  by (induction xs) auto

lemma rate_invariant:
  assumes "0 < n" "sorted (t0 # ts)" "\<forall>x \<in> set h. x \<le> t0"
    and "\<forall>now \<ge> t0. filter (\<lambda>t. now - t < minute) (b (ch @ '':'' @ u)) = filter (\<lambda>t. now - t < minute) h"
    and "\<forall>t. length (window t h) \<le> n"
  shows "length (window t (h @ passed ch u n ts b)) \<le> n"
  using assms
proof (induction ts arbitrary: t0 h b)
  case (Cons now ts)
  let ?k = "ch @ '':'' @ u"
  let ?recent = "filter (\<lambda>t. now - t < minute) (b ?k)"
  have now: "t0 \<le> now" "sorted (now # ts)" "\<forall>x \<in> set h. x \<le> now" using Cons.prems(2,3) by auto
  then have recent: "?recent = filter (\<lambda>t. now - t < minute) h" using Cons.prems(4) by simp
  have later: "filter (\<lambda>t. m - t < minute) ?recent = filter (\<lambda>t. m - t < minute) h" if "now \<le> m" for m
    using that unfolding recent by (auto intro: filter_cong)
  show ?case
  proof (cases "length ?recent \<ge> n")
    case True
    let ?b = "b(?k := ?recent)"
    have "rate_check now ch u n b = (Err n, ?b)"
      using True Cons.prems(1) by (simp add: rate_check_def minute_def Let_def)
    moreover have "length (window t (h @ passed ch u n ts ?b)) \<le> n"
      using Cons.prems(1,5) now later by (intro Cons.IH [of now]) auto
    ultimately show ?thesis by simp
  next
    case False
    let ?b = "b(?k := ?recent @ [now])"
    have "length (window m (h @ [now])) \<le> n" for m
    proof (cases "m < now")
      case True
      with Cons.prems(5) show ?thesis by (simp add: window_def)
    next
      case False': False
      have "length (window m h) \<le> length ?recent"
        unfolding window_def recent using False' by (intro filter_le_length) auto
      with False show ?thesis by (simp add: window_def)
    qed
    moreover have "rate_check now ch u n b = (Ok (), ?b)"
      using False Cons.prems(1) by (simp add: rate_check_def minute_def Let_def)
    moreover have "filter (\<lambda>t. m - t < minute) (?b ?k) = filter (\<lambda>t. m - t < minute) (h @ [now])" if "now \<le> m" for m
      using later [OF that] by simp
    moreover have "\<forall>x \<in> set (h @ [now]). x \<le> now" using now(3) by simp
    ultimately have "length (window t ((h @ [now]) @ passed ch u n ts ?b)) \<le> n"
      using Cons.prems(1) now(2) by (intro Cons.IH [of now]) auto
    with \<open>rate_check now ch u n b = (Ok (), ?b)\<close> show ?thesis by simp
  qed
qed simp

text \<open>
  In no minute does a channel user get more messages through than the limit of the channel allows.
\<close>

theorem rate_limit_sound:
  assumes "0 < n" "sorted ts"
  shows "length (window t (passed ch u n ts (\<lambda>_. []))) \<le> n"
proof (cases ts)
  case (Cons t0 rest)
  have "length (window t ([] @ passed ch u n ts (\<lambda>_. []))) \<le> n"
    using assms Cons by (intro rate_invariant [of n t0]) (auto simp: window_def)
  then show ?thesis by simp
qed (simp add: window_def)

lemma rate_limit_sound_witness:
  "length (window 5 (passed ''telegram'' ''u'' 2 [1, 2, 3, 4] (\<lambda>_. []))) \<le> 2"
  using rate_limit_sound [of 2 "[1, 2, 3, 4]" 5] by simp

end
