(* ===== verification/Channel_Bridge.thy ===== *)
theory Channel_Bridge
  imports Channel_Router Channel_Format
begin

text \<open>
  The dispatch of channel messages, \<open>clawreform-channels/src/bridge.rs\<close>: policies, rate limit, commands,
  broadcast and the way to an agent. What the kernel does for the bridge is a record of operations on a
  world \<open>'w\<close>; agents have identifiers of a type \<open>'a\<close>.
\<close>

section \<open>Messages and overrides\<close>

record channel_user =
  platform_id :: string
  display_name :: string
  user_identity :: "string option"

datatype channel_content =
    TextMessage string
  | ImageMessage string "string option"
  | FileMessage string string
  | VoiceMessage string nat
  | LocationMessage f64 f64
  | CommandMessage string "string list"

record channel_message =
  msg_channel :: channel_type
  platform_message_id :: string
  msg_sender :: channel_user
  msg_content :: channel_content
  is_group :: bool
  msg_thread :: "string option"

datatype dm_policy = Respond | AllowedOnly | IgnoreDm

datatype group_policy = AllMessages | MentionOnly | CommandsOnly | IgnoreGroup

record channel_overrides =
  ov_model :: "string option"
  ov_system_prompt :: "string option"
  ov_dm_policy :: dm_policy
  ov_group_policy :: group_policy
  rate_limit_per_user :: nat
  threading :: bool
  ov_output_format :: "output_format option"

section \<open>The handle\<close>

text \<open>The operations that answer with a text for the user, and those on a session that can fail.\<close>

datatype bridge_query =
    UptimeInfo | ListModels | ListProviders | ListSkills | ListHands | ListWorkflows
  | RunWorkflow string string
  | ListTriggers
  | CreateTrigger string string string
  | DeleteTrigger string
  | ListSchedules
  | ManageSchedule string "string list"
  | ListApprovals
  | ResolveApproval string bool
  | BudgetText | PeersText | A2aAgents

datatype 'a session_call =
    ResetSession 'a
  | CompactSession 'a
  | SetModel 'a string
  | StopRun 'a
  | SessionUsage 'a
  | SetThinking 'a bool

record ('a, 'w) bridge_handle =
  send_message :: "'a \<Rightarrow> string \<Rightarrow> 'w \<Rightarrow> (string, string) result \<times> 'w"
  send_parallel :: "(string \<times> 'a) list \<Rightarrow> string \<Rightarrow> 'w \<Rightarrow> (string, string) result option list \<times> 'w"
  find_agent :: "string \<Rightarrow> 'w \<Rightarrow> ('a option, string) result \<times> 'w"
  list_agents :: "'w \<Rightarrow> ('a \<times> string) list \<times> 'w"
  spawn_by_name :: "string \<Rightarrow> 'w \<Rightarrow> ('a, string) result \<times> 'w"
  query :: "bridge_query \<Rightarrow> 'w \<Rightarrow> string \<times> 'w"
  on_session :: "'a session_call \<Rightarrow> 'w \<Rightarrow> (string, string) result \<times> 'w"
  authorize_user :: "string \<Rightarrow> string \<Rightarrow> string \<Rightarrow> 'w \<Rightarrow> (unit, string) result"
  overrides_of :: "string \<Rightarrow> channel_overrides option"
  check_auto_reply :: "'a \<Rightarrow> string \<Rightarrow> 'w \<Rightarrow> string option \<times> 'w"
  record_delivery :: "'a \<Rightarrow> string \<Rightarrow> string \<Rightarrow> string option \<Rightarrow> 'w \<Rightarrow> 'w"
  adapter_send :: "channel_user \<Rightarrow> string option \<Rightarrow> string \<Rightarrow> 'w \<Rightarrow> 'w"
  send_typing :: "channel_user \<Rightarrow> 'w \<Rightarrow> 'w"

text \<open>The state of the bridge: the router, the rate limiter and the world.\<close>

record ('a, 'w) bridge =
  router :: "'a agent_router"
  limiter :: channel_limiter
  world :: 'w

definition send_response ::
  "('a, 'w) bridge_handle \<Rightarrow> channel_user \<Rightarrow> string \<Rightarrow> string option \<Rightarrow> output_format \<Rightarrow> ('a, 'w) bridge \<Rightarrow> ('a, 'w) bridge" where
  "send_response h user t thread fmt b = b\<lparr>world := adapter_send h user thread (format_for_channel t fmt) (world b)\<rparr>"

section \<open>Commands\<close>

definition agent_lines :: "('a \<times> string) list \<Rightarrow> string" where
  "agent_lines agents = concat (map (\<lambda>(_, n). ''  - '' @ n @ [newline]) agents)"

definition welcome_text :: "('a \<times> string) list \<Rightarrow> string" where
  "welcome_text agents =
     ''Welcome to clawREFORM by aegntic.ai! I connect you to AI agents.'' @ [newline, newline]
     @ ''Available agents:'' @ [newline]
     @ (if agents = [] then ''  (none running)'' @ [newline] else agent_lines agents)
     @ [newline] @ ''Commands:'' @ [newline] @ ''/agents - list agents'' @ [newline]
     @ ''/agent <name> - select an agent'' @ [newline] @ ''/help - show this help''"

definition help_text :: string where
  "help_text = str_join [newline]
     [''clawREFORM by aegntic.ai Bot Commands:'', [], ''Session:'', ''/agents - list running agents'',
      ''/agent <name> - select which agent to talk to'', ''/new - reset session (clear messages)'',
      ''/compact - trigger LLM session compaction'', ''/model [name] - show or switch agent model'',
      ''/stop - cancel current agent run'', ''/usage - show session token usage and cost'',
      ''/think [on|off] - toggle extended thinking'', [], ''Info:'', ''/models - list available AI models'',
      ''/providers - show configured providers'', ''/skills - list installed skills'',
      ''/hands - list available and active hands'', ''/status - show system status'', [], ''Automation:'',
      ''/workflows - list workflows'', ''/workflow run <name> [input] - run a workflow'',
      ''/triggers - list event triggers'', ''/trigger add <agent> <pattern> <prompt> - create trigger'',
      ''/trigger del <id> - remove trigger'', ''/schedules - list cron jobs'',
      ''/schedule add <agent> <cron-5-fields> <message> - create job'', ''/schedule del <id> - remove job'',
      ''/schedule run <id> - run job now'', ''/approvals - list pending approvals'',
      ''/approve <id> - approve a request'', ''/reject <id> - reject a request'', [], ''Monitoring:'',
      ''/budget - show spending limits and current costs'', ''/peers - show OFP peer network status'',
      ''/a2a - list discovered external A2A agents'', [], ''/start - show welcome message'',
      ''/help - show this help'']"

definition schedule_usage :: string where
  "schedule_usage = str_join [newline]
     [''Usage:'', ''  /schedule add <agent> <cron-5-fields> <message>'', ''  /schedule del <id-prefix>'',
      ''  /schedule run <id-prefix>'']"

text \<open>The commands on a session: the agent is resolved as if the user wrote on the command line.\<close>

definition session_command ::
  "('a, 'w) bridge_handle \<Rightarrow> channel_user \<Rightarrow> ('a \<Rightarrow> 'a session_call) \<Rightarrow> ('a, 'w) bridge \<Rightarrow> string \<times> ('a, 'w) bridge" where
  "session_command h sender op b =
     (case resolve (router b) Cli (platform_id sender) (user_identity sender) of
        None \<Rightarrow> (''No agent selected. Use /agent <name> first.'', b)
      | Some a \<Rightarrow>
          (case on_session h (op a) (world b) of
             (Inr t, w1) \<Rightarrow> (t, b\<lparr>world := w1\<rparr>)
           | (Inl e, w1) \<Rightarrow> (''Error: '' @ e, b\<lparr>world := w1\<rparr>)))"

definition ask_handle :: "('a, 'w) bridge_handle \<Rightarrow> bridge_query \<Rightarrow> ('a, 'w) bridge \<Rightarrow> string \<times> ('a, 'w) bridge" where
  "ask_handle h q b = (case query h q (world b) of (t, w1) \<Rightarrow> (t, b\<lparr>world := w1\<rparr>))"

definition agent_command ::
  "('a, 'w) bridge_handle \<Rightarrow> string list \<Rightarrow> channel_user \<Rightarrow> ('a, 'w) bridge \<Rightarrow> string \<times> ('a, 'w) bridge" where
  "agent_command h args sender b =
     (case args of
        [] \<Rightarrow> (''Usage: /agent <name>'', b)
      | n # _ \<Rightarrow>
          (case find_agent h n (world b) of
             (Inl e, w1) \<Rightarrow> (''Error finding agent: '' @ e, b\<lparr>world := w1\<rparr>)
           | (Inr (Some a), w1) \<Rightarrow>
               (''Now talking to agent: '' @ n,
                b\<lparr>world := w1, router := set_user_default (platform_id sender) a (router b)\<rparr>)
           | (Inr None, w1) \<Rightarrow>
               (case spawn_by_name h n w1 of
                  (Inr a, w2) \<Rightarrow>
                    (''Spawned and connected to agent: '' @ n,
                     b\<lparr>world := w2, router := set_user_default (platform_id sender) a (router b)\<rparr>)
                | (Inl e, w2) \<Rightarrow>
                    (''Agent '' @ [CHR 0x27] @ n @ [CHR 0x27] @ '' not found and could not spawn: '' @ e, b\<lparr>world := w2\<rparr>))))"

definition handle_command ::
  "('a, 'w) bridge_handle \<Rightarrow> string \<Rightarrow> string list \<Rightarrow> channel_user \<Rightarrow> ('a, 'w) bridge \<Rightarrow> string \<times> ('a, 'w) bridge" where
  "handle_command h name args sender b =
     (if name = ''start'' then
        (case list_agents h (world b) of (agents, w1) \<Rightarrow> (welcome_text agents, b\<lparr>world := w1\<rparr>))
      else if name = ''help'' then (help_text, b)
      else if name = ''status'' then ask_handle h UptimeInfo b
      else if name = ''agents'' then
        (case list_agents h (world b) of
           (agents, w1) \<Rightarrow>
             (if agents = [] then ''No agents running.'' else ''Running agents:'' @ [newline] @ agent_lines agents,
              b\<lparr>world := w1\<rparr>))
      else if name = ''agent'' then agent_command h args sender b
      else if name = ''new'' then session_command h sender ResetSession b
      else if name = ''compact'' then session_command h sender CompactSession b
      else if name = ''model'' then
        session_command h sender (\<lambda>a. SetModel a (case args of [] \<Rightarrow> [] | m # _ \<Rightarrow> m)) b
      else if name = ''stop'' then session_command h sender StopRun b
      else if name = ''usage'' then session_command h sender SessionUsage b
      else if name = ''think'' then
        session_command h sender (\<lambda>a. SetThinking a (case args of [] \<Rightarrow> True | x # _ \<Rightarrow> x = ''on'')) b
      else if name = ''models'' then ask_handle h ListModels b
      else if name = ''providers'' then ask_handle h ListProviders b
      else if name = ''skills'' then ask_handle h ListSkills b
      else if name = ''hands'' then ask_handle h ListHands b
      else if name = ''workflows'' then ask_handle h ListWorkflows b
      else if name = ''workflow'' then
        (if length args \<ge> 2 \<and> args ! 0 = ''run''
         then ask_handle h (RunWorkflow (args ! 1) (str_join '' '' (drop 2 args))) b
         else (''Usage: /workflow run <name> [input]'', b))
      else if name = ''triggers'' then ask_handle h ListTriggers b
      else if name = ''trigger'' then
        (if length args \<ge> 4 \<and> args ! 0 = ''add''
         then ask_handle h (CreateTrigger (args ! 1) (args ! 2) (str_join '' '' (drop 3 args))) b
         else if length args \<ge> 2 \<and> args ! 0 = ''del'' then ask_handle h (DeleteTrigger (args ! 1)) b
         else (''Usage:'' @ [newline] @ ''  /trigger add <agent> <pattern> <prompt>'' @ [newline]
                 @ ''  /trigger del <id-prefix>'', b))
      else if name = ''schedules'' then ask_handle h ListSchedules b
      else if name = ''schedule'' then
        (case args of
           [] \<Rightarrow> (schedule_usage, b)
         | act # rest \<Rightarrow>
             if act \<in> {''add'', ''del'', ''run''} then ask_handle h (ManageSchedule act rest) b else (schedule_usage, b))
      else if name = ''approvals'' then ask_handle h ListApprovals b
      else if name = ''approve'' then
        (case args of [] \<Rightarrow> (''Usage: /approve <id-prefix>'', b) | i # _ \<Rightarrow> ask_handle h (ResolveApproval i True) b)
      else if name = ''reject'' then
        (case args of [] \<Rightarrow> (''Usage: /reject <id-prefix>'', b) | i # _ \<Rightarrow> ask_handle h (ResolveApproval i False) b)
      else if name = ''budget'' then ask_handle h BudgetText b
      else if name = ''peers'' then ask_handle h PeersText b
      else if name = ''a2a'' then ask_handle h A2aAgents b
      else (''Unknown command: /'' @ name, b))"

definition text_commands :: "string list" where
  "text_commands =
     [''start'', ''help'', ''agents'', ''agent'', ''status'', ''models'', ''providers'', ''new'', ''compact'',
      ''model'', ''stop'', ''usage'', ''think'', ''skills'', ''hands'', ''workflows'', ''workflow'', ''triggers'',
      ''trigger'', ''schedules'', ''schedule'', ''approvals'', ''approve'', ''reject'', ''budget'', ''peers'', ''a2a'']"

text \<open>The command of a text that begins with a slash: the word up to the first space and the words after it.\<close>

definition parse_slash :: "string \<Rightarrow> string \<times> string list" where
  "parse_slash t =
     (case str_find (CHR '' '') t of
        None \<Rightarrow> (drop 1 t, [])
      | Some i \<Rightarrow> (drop 1 (take i t), split_whitespace (drop (i + 1) t)))"

section \<open>Dispatch\<close>

definition is_command :: "channel_content \<Rightarrow> bool" where
  "is_command c = (case c of CommandMessage _ _ \<Rightarrow> True | TextMessage t \<Rightarrow> starts_with t ''/'' | _ \<Rightarrow> False)"

definition policy_allows :: "channel_overrides \<Rightarrow> channel_message \<Rightarrow> bool" where
  "policy_allows ov m =
     (if is_group m
      then (case ov_group_policy ov of
              IgnoreGroup \<Rightarrow> False
            | CommandsOnly \<Rightarrow> is_command (msg_content m)
            | _ \<Rightarrow> True)
      else ov_dm_policy ov \<noteq> IgnoreDm)"

definition reply_line :: "string \<Rightarrow> (string, string) result \<Rightarrow> string" where
  "reply_line n r = (case r of Inr t \<Rightarrow> ''['' @ n @ '']: '' @ t | Inl e \<Rightarrow> ''['' @ n @ '']: Error: '' @ e)"

text \<open>The registered targets, one after the other.\<close>

fun send_sequential ::
  "('a, 'w) bridge_handle \<Rightarrow> (string \<times> 'a) list \<Rightarrow> string \<Rightarrow> 'w \<Rightarrow> string list \<times> 'w" where
  "send_sequential h [] t w = ([], w)"
| "send_sequential h ((n, a) # rest) t w =
     (case send_message h a t w of
        (r, w1) \<Rightarrow> (case send_sequential h rest t w1 of (rs, w2) \<Rightarrow> (reply_line n r # rs, w2)))"

definition registered :: "(string \<times> 'a option) list \<Rightarrow> (string \<times> 'a) list" where
  "registered ts = map (\<lambda>(n, a). (n, the a)) (filter (\<lambda>(n, a). a \<noteq> None) ts)"

definition broadcast_replies ::
  "('a, 'w) bridge_handle \<Rightarrow> broadcast_strategy \<Rightarrow> (string \<times> 'a) list \<Rightarrow> string \<Rightarrow> 'w \<Rightarrow> string list \<times> 'w" where
  "broadcast_replies h st ts t w =
     (case st of
        OneByOne \<Rightarrow> send_sequential h ts t w
      | Parallel \<Rightarrow>
          (case send_parallel h ts t w of
             (rs, w1) \<Rightarrow>
               (map (\<lambda>((n, _), r). reply_line n (the r)) (filter (\<lambda>(_, r). r \<noteq> None) (zip ts rs)), w1)))"

definition denied_text :: "string \<Rightarrow> string" where
  "denied_text reason = ''Access denied: '' @ reason"

text \<open>The way of a text that is no command: a broadcast, or the agent the router finds.\<close>

definition forward_text ::
  "('a, 'w) bridge_handle \<Rightarrow> channel_message \<Rightarrow> string option \<Rightarrow> output_format \<Rightarrow> string \<Rightarrow> ('a, 'w) bridge \<Rightarrow> ('a, 'w) bridge" where
  "forward_text h m thread fmt t b =
     (let user = msg_sender m; pid = platform_id user; ct = channel_type_to_str (msg_channel m);
          respond = (\<lambda>x b. send_response h user x thread fmt b);
          targets = resolve_broadcast (router b) pid
      in if has_broadcast (router b) pid \<and> targets \<noteq> []
         then (case authorize_user h ct pid ''chat'' (world b) of
                 Inl reason \<Rightarrow> respond (denied_text reason) b
               | Inr _ \<Rightarrow>
                   (case broadcast_replies h (strategy (broadcast (router b))) (registered targets) t (send_typing h user (world b)) of
                      (rs, w1) \<Rightarrow> respond (str_join [newline, newline] rs) (b\<lparr>world := w1\<rparr>)))
         else (case resolve (router b) (msg_channel m) pid (user_identity user) of
                 None \<Rightarrow>
                   respond ''No agent assigned. Use /agents to list available agents, then /agent <name> to select one.'' b
               | Some a \<Rightarrow>
                   (case authorize_user h ct pid ''chat'' (world b) of
                      Inl reason \<Rightarrow> respond (denied_text reason) b
                    | Inr _ \<Rightarrow>
                        (case check_auto_reply h a t (world b) of
                           (Some reply, w1) \<Rightarrow>
                             let b1 = respond reply (b\<lparr>world := w1\<rparr>)
                             in b1\<lparr>world := record_delivery h a ct pid None (world b1)\<rparr>
                         | (None, w1) \<Rightarrow>
                             (case send_message h a t (send_typing h user w1) of
                                (Inr response, w2) \<Rightarrow>
                                  let b1 = respond response (b\<lparr>world := w2\<rparr>)
                                  in b1\<lparr>world := record_delivery h a ct pid None (world b1)\<rparr>
                              | (Inl e, w2) \<Rightarrow>
                                  let err = ''Agent error: '' @ e; b1 = respond err (b\<lparr>world := w2\<rparr>)
                                  in b1\<lparr>world := record_delivery h a ct pid (Some err) (world b1)\<rparr>)))))"

definition run_command ::
  "('a, 'w) bridge_handle \<Rightarrow> channel_message \<Rightarrow> string option \<Rightarrow> output_format \<Rightarrow> string \<Rightarrow> string list \<Rightarrow> ('a, 'w) bridge
   \<Rightarrow> ('a, 'w) bridge" where
  "run_command h m thread fmt name args b =
     (case handle_command h name args (msg_sender m) b of
        (t, b1) \<Rightarrow> send_response h (msg_sender m) t thread fmt b1)"

definition dispatch_content ::
  "('a, 'w) bridge_handle \<Rightarrow> channel_message \<Rightarrow> string option \<Rightarrow> output_format \<Rightarrow> ('a, 'w) bridge \<Rightarrow> ('a, 'w) bridge" where
  "dispatch_content h m thread fmt b =
     (case msg_content m of
        TextMessage t \<Rightarrow>
          if starts_with t ''/'' \<and> fst (parse_slash t) \<in> set text_commands
          then run_command h m thread fmt (fst (parse_slash t)) (snd (parse_slash t)) b
          else forward_text h m thread fmt t b
      | CommandMessage name args \<Rightarrow> run_command h m thread fmt name args b
      | _ \<Rightarrow> send_response h (msg_sender m) ''I can only handle text messages for now.'' thread fmt b)"

definition rate_error :: "nat \<Rightarrow> string" where
  "rate_error n = ''Rate limit exceeded ('' @ show_nat n @ '' messages/minute). Please wait.''"

definition dispatch_message ::
  "('a, 'w) bridge_handle \<Rightarrow> nat \<Rightarrow> channel_message \<Rightarrow> ('a, 'w) bridge \<Rightarrow> ('a, 'w) bridge" where
  "dispatch_message h now m b =
     (let ct = channel_type_to_str (msg_channel m);
          overrides = overrides_of h ct;
          fmt = (case overrides of
                   None \<Rightarrow> Markdown
                 | Some ov \<Rightarrow> (case ov_output_format ov of None \<Rightarrow> Markdown | Some f \<Rightarrow> f));
          thread = (case overrides of None \<Rightarrow> None | Some ov \<Rightarrow> if threading ov then msg_thread m else None)
      in case overrides of
           None \<Rightarrow> dispatch_content h m thread fmt b
         | Some ov \<Rightarrow>
             if \<not> policy_allows ov m then b
             else (case rate_check now ct (platform_id (msg_sender m)) (rate_limit_per_user ov) (limiter b) of
                     (Inl n, l1) \<Rightarrow> send_response h (msg_sender m) (rate_error n) thread fmt (b\<lparr>limiter := l1\<rparr>)
                   | (Inr _, l1) \<Rightarrow> dispatch_content h m thread fmt (b\<lparr>limiter := l1\<rparr>)))"

section \<open>What a message can make the kernel do\<close>

text \<open>A handle that also keeps a log of the calls that reach the kernel.\<close>

datatype 'a kernel_call =
    SentTo 'a string
  | Spawned string
  | Asked bridge_query
  | OnSession "'a session_call"

definition logged :: "('a, 'w) bridge_handle \<Rightarrow> ('a, 'w \<times> 'a kernel_call list) bridge_handle" where
  "logged h =
     \<lparr>send_message = (\<lambda>a t x. case send_message h a t (fst x) of (r, w1) \<Rightarrow> (r, (w1, snd x @ [SentTo a t]))),
      send_parallel = (\<lambda>ts t x. case send_parallel h ts t (fst x) of
         (r, w1) \<Rightarrow> (r, (w1, snd x @ map (\<lambda>(_, a). SentTo a t) ts))),
      find_agent = (\<lambda>n x. case find_agent h n (fst x) of (r, w1) \<Rightarrow> (r, (w1, snd x))),
      list_agents = (\<lambda>x. case list_agents h (fst x) of (r, w1) \<Rightarrow> (r, (w1, snd x))),
      spawn_by_name = (\<lambda>n x. case spawn_by_name h n (fst x) of (r, w1) \<Rightarrow> (r, (w1, snd x @ [Spawned n]))),
      query = (\<lambda>q x. case query h q (fst x) of (r, w1) \<Rightarrow> (r, (w1, snd x @ [Asked q]))),
      on_session = (\<lambda>c x. case on_session h c (fst x) of (r, w1) \<Rightarrow> (r, (w1, snd x @ [OnSession c]))),
      authorize_user = (\<lambda>ct pid act x. authorize_user h ct pid act (fst x)),
      overrides_of = overrides_of h,
      check_auto_reply = (\<lambda>a t x. case check_auto_reply h a t (fst x) of
         (r, w1) \<Rightarrow> (r, (w1, snd x @ (case r of None \<Rightarrow> [] | Some _ \<Rightarrow> [SentTo a t])))),
      record_delivery = (\<lambda>a ct pid e x. (record_delivery h a ct pid e (fst x), snd x)),
      adapter_send = (\<lambda>u th t x. (adapter_send h u th t (fst x), snd x)),
      send_typing = (\<lambda>u x. (send_typing h u (fst x), snd x))\<rparr>"

abbreviation calls :: "('a, 'w \<times> 'a kernel_call list) bridge \<Rightarrow> 'a kernel_call list" where
  "calls b \<equiv> snd (world b)"

lemma calls_response [simp]: "calls (send_response (logged h) u t th f b) = calls b"
  by (simp add: send_response_def logged_def)

lemma logged_simps [simp]:
  "authorize_user (logged h) ct pid act x = authorize_user h ct pid act (fst x)"
  "overrides_of (logged h) = overrides_of h"
  by (simp_all add: logged_def)

definition is_sent :: "'a kernel_call \<Rightarrow> bool" where
  "is_sent c = (case c of SentTo _ _ \<Rightarrow> True | _ \<Rightarrow> False)"

text \<open>A step that sends no message to an agent.\<close>

definition keeps :: "('a, 'w \<times> 'a kernel_call list) bridge \<Rightarrow> string \<times> ('a, 'w \<times> 'a kernel_call list) bridge \<Rightarrow> bool" where
  "keeps b p \<longleftrightarrow> filter is_sent (calls (snd p)) = filter is_sent (calls b)"

lemma keeps_rules:
  "keeps b p \<Longrightarrow> keeps b q \<Longrightarrow> keeps b (if c then p else q)"
  "keeps b (t, b)"
  "keeps b (ask_handle (logged h) x b)"
  "keeps b (session_command (logged h) u f b)"
  "keeps b (agent_command (logged h) args u b)"
  "keeps b (case list_agents (logged h) (world b) of (agents, w1) \<Rightarrow> (g agents, b\<lparr>world := w1\<rparr>))"
  "keeps b p0 \<Longrightarrow> (\<And>x r. keeps b (k x r)) \<Longrightarrow> keeps b (case xs of [] \<Rightarrow> p0 | x # r \<Rightarrow> k x r)"
  by (simp_all add: keeps_def ask_handle_def session_command_def agent_command_def logged_def is_sent_def
      split: prod.split option.split sum.split list.split)

lemma command_keeps: "keeps b (handle_command (logged h) name args u b)"
  unfolding handle_command_def by (intro keeps_rules)

lemma run_command_sends_nothing:
  "filter is_sent (calls (run_command (logged h) m th f name args b)) = filter is_sent (calls b)"
  using command_keeps [of b h name args "msg_sender m"]
  by (auto simp: run_command_def keeps_def split: prod.split)

lemma forward_denied:
  assumes "\<forall>w. authorize_user h (channel_type_to_str (msg_channel m)) (platform_id (msg_sender m)) ''chat'' w \<noteq> Ok ()"
  shows "calls (forward_text (logged h) m th f t b) = calls b"
proof -
  obtain e where "authorize_user h (channel_type_to_str (msg_channel m)) (platform_id (msg_sender m)) ''chat'' (fst (world b)) = Err e"
    using assms [rule_format, of "fst (world b)"]
    by (cases "authorize_user h (channel_type_to_str (msg_channel m)) (platform_id (msg_sender m)) ''chat'' (fst (world b))") simp_all
  then show ?thesis by (auto simp: forward_text_def Let_def split: option.split)
qed

lemma dispatch_content_denied:
  assumes "\<forall>w. authorize_user h (channel_type_to_str (msg_channel m)) (platform_id (msg_sender m)) ''chat'' w \<noteq> Ok ()"
  shows "filter is_sent (calls (dispatch_content (logged h) m th f b)) = filter is_sent (calls b)"
  by (cases "msg_content m")
    (simp_all add: dispatch_content_def run_command_sends_nothing forward_denied [OF assms])

text \<open>
  No chat without the right to. Whatever the channel, the policies, the bindings and the content of a
  message are, if its sender is not authorized to chat then handling it sends no message to any agent.
\<close>

lemma chat_needs_authorization:
  assumes "\<forall>w. authorize_user h (channel_type_to_str (msg_channel m)) (platform_id (msg_sender m)) ''chat'' w \<noteq> Ok ()"
  shows "filter is_sent (calls (dispatch_message (logged h) now m b)) = filter is_sent (calls b)"
  using dispatch_content_denied [OF assms]
  by (simp add: dispatch_message_def Let_def split: option.split sum.split prod.split)

text \<open>A message that the policy of the channel excludes changes nothing at all.\<close>

lemma policy_excludes:
  "overrides_of h (channel_type_to_str (msg_channel m)) = Some ov \<Longrightarrow> \<not> policy_allows ov m \<Longrightarrow> dispatch_message h now m b = b"
  by (simp add: dispatch_message_def Let_def)

definition text_from :: "string \<Rightarrow> string \<Rightarrow> channel_message" where
  "text_from uid t = \<lparr>msg_channel = Telegram, platform_message_id = ''1'',
     msg_sender = \<lparr>platform_id = uid, display_name = uid, user_identity = None\<rparr>,
     msg_content = TextMessage t, is_group = False, msg_thread = None\<rparr>"

lemma slash_approve: "parse_slash ''/approve 7'' = (''approve'', [''7''])" "parse_slash ''/agent coder'' = (''agent'', [''coder''])"
  by code_simp+

text \<open>
  Commands are not authorized. Anyone whose messages reach the bot can answer a pending request for
  approval: for every handle, also one that denies everything to everyone, a message \<open>/approve 7\<close> of any sender
  approves the request, as long as the channel has no policy or rate limit of its own.
\<close>

theorem commands_unauthorized:
  assumes "overrides_of h ''telegram'' = None"
  shows "calls (dispatch_message (logged h) now (text_from uid ''/approve 7'') b) = calls b @ [Asked (ResolveApproval ''7'' True)]"
proof -
  have "handle_command (logged h) ''approve'' [''7''] u b = ask_handle (logged h) (ResolveApproval ''7'' True) b" for u
    by (simp add: handle_command_def)
  then show ?thesis
    using assms
    by (simp add: dispatch_message_def text_from_def dispatch_content_def slash_approve text_commands_def run_command_def
        starts_with_def ask_handle_def logged_def send_response_def split: prod.split)
qed

text \<open>A handle that denies everything, does nothing and answers nothing.\<close>

definition deaf_handle :: "(nat, unit) bridge_handle" where
  "deaf_handle = \<lparr>send_message = (\<lambda>_ _ w. (Ok [], w)), send_parallel = (\<lambda>ts _ w. (map (\<lambda>_. None) ts, w)),
     find_agent = (\<lambda>_ w. (Ok None, w)), list_agents = (\<lambda>w. ([], w)), spawn_by_name = (\<lambda>_ w. (Ok 1, w)),
     query = (\<lambda>_ w. ([], w)), on_session = (\<lambda>_ w. (Ok [], w)), authorize_user = (\<lambda>_ _ _ _. Err ''no''),
     overrides_of = (\<lambda>_. None), check_auto_reply = (\<lambda>_ _ w. (None, w)), record_delivery = (\<lambda>_ _ _ _ w. w),
     adapter_send = (\<lambda>_ _ _ w. w), send_typing = (\<lambda>_ w. w)\<rparr>"

definition demo_bridge :: "(nat, unit \<times> nat kernel_call list) bridge" where
  "demo_bridge = \<lparr>router = set_default 4 new_router, limiter = (\<lambda>_. []), world = ((), [])\<rparr>"

lemma commands_unauthorized_witness:
  "calls (dispatch_message (logged deaf_handle) 0 (text_from ''eve'' ''/approve 7'') demo_bridge)
     = [Asked (ResolveApproval ''7'' True)]"
  using commands_unauthorized [of deaf_handle 0 "''eve''" demo_bridge]
  by (simp add: deaf_handle_def demo_bridge_def)

text \<open>In the same way anyone can start an agent by its name.\<close>

lemma anyone_spawns:
  "calls (dispatch_message (logged deaf_handle) 0 (text_from ''eve'' ''/agent coder'') demo_bridge) = [Spawned ''coder'']"
  by (simp add: dispatch_message_def text_from_def dispatch_content_def slash_approve text_commands_def run_command_def
      starts_with_def handle_command_def agent_command_def logged_def send_response_def deaf_handle_def demo_bridge_def)

end
