(* ===== verification/Channel_Access.thy ===== *)
theory Channel_Access
  imports Auth Channel_Bridge
begin

text \<open>
  The bridge of theory \<open>Channel_Bridge\<close> with the kernel's answer to whether a channel user may do something,
  \<open>authorize_channel_user\<close> of \<open>clawreform-api/src/channel_bridge.rs\<close>, on the users of theory \<open>Auth\<close>.
\<close>

definition action_of :: "string \<Rightarrow> user_action" where
  "action_of act =
     (if act = ''chat'' then ChatWithAgent
      else if act = ''spawn'' then SpawnAgent
      else if act = ''kill'' then KillAgent
      else if act = ''install_skill'' then InstallSkill
      else ChatWithAgent)"

text \<open>The error is turned into text by \<open>show_denied\<close>.\<close>

definition authorize_channel_user ::
  "(auth_denied \<Rightarrow> string) \<Rightarrow> 'u auth_manager \<Rightarrow> string \<Rightarrow> string \<Rightarrow> string \<Rightarrow> (unit, string) result" where
  "authorize_channel_user show_denied m channel_type pid act =
     (if \<not> rbac_enabled m then Ok ()
      else case identify m channel_type pid of
             None \<Rightarrow> Err ''Unrecognized user. Contact an admin to get access.''
           | Some u \<Rightarrow> map_sum show_denied id (authorize m u (action_of act)))"

lemma allowed_iff:
  "authorize_channel_user sd m ct pid act = Ok () \<longleftrightarrow>
     \<not> rbac_enabled m \<or> (\<exists>u. identify m ct pid = Some u \<and> authorize m u (action_of act) = Ok ())"
  by (auto simp: authorize_channel_user_def map_sum_Inr split: option.split)

lemma rbac_new: "rbac_enabled (new_auth cfgs) \<longleftrightarrow> cfgs \<noteq> []"
proof (cases cfgs rule: rev_cases)
  case (snoc cs c)
  then show ?thesis by (cases c) (auto simp: rbac_enabled_def new_auth_def register_user_def)
qed (simp add: rbac_enabled_def new_auth_def)

text \<open>
  C22: Only configured users reach an agent. With users in the configuration, if handling a message of a
  channel sends anything to an agent, then the configuration binds the sender's identity on that channel to a
  user whose role is at least that of an ordinary user.
\<close>

theorem chat_only_for_users:
  assumes "cfgs \<noteq> []" "distinct (map fst cfgs)" "\<forall>(u, cfg) \<in> set cfgs. \<forall>(c, p) \<in> set (uc_bindings cfg). CHR '':'' \<notin> set c"
    and "CHR '':'' \<notin> set (channel_type_to_str (msg_channel m))"
    and "\<forall>ct pid act w. authorize_user h ct pid act w = authorize_channel_user sd (new_auth cfgs) ct pid act"
    and "filter is_sent (calls (dispatch_message (logged h) now m b)) \<noteq> filter is_sent (calls b)"
  shows "\<exists>(u, cfg) \<in> set cfgs. (channel_type_to_str (msg_channel m), platform_id (msg_sender m)) \<in> set (uc_bindings cfg)
    \<and> User \<le> from_str_role (uc_role cfg)"
proof -
  let ?ct = "channel_type_to_str (msg_channel m)" and ?pid = "platform_id (msg_sender m)"
  have "authorize_channel_user sd (new_auth cfgs) ?ct ?pid ''chat'' = Ok ()"
    using chat_needs_authorization [of h m now b] assms(5,6) by auto
  then obtain u where u: "identify (new_auth cfgs) ?ct ?pid = Some u" "authorize (new_auth cfgs) u ChatWithAgent = Ok ()"
    using assms(1) by (auto simp: allowed_iff rbac_new action_of_def)
  from authorized_is_bound [OF assms(2,3,4) u] show ?thesis by auto
qed

text \<open>A handle whose users are those of the example configuration, and which answers every message.\<close>

definition demo_handle :: "(nat, unit) bridge_handle" where
  "demo_handle = deaf_handle\<lparr>authorize_user := (\<lambda>ct pid act _. authorize_channel_user (\<lambda>_. ''denied'') (new_auth demo_users) ct pid act)\<rparr>"

lemma demo_handle_auth:
  "\<forall>ct pid act w. authorize_user demo_handle ct pid act w = authorize_channel_user (\<lambda>_. ''denied'') (new_auth demo_users) ct pid act"
  by (simp add: demo_handle_def)

lemma ada_reaches_agent:
  "calls (dispatch_message (logged demo_handle) 0 (text_from ''11'' ''hi'') demo_bridge) = [SentTo 4 ''hi'']"
proof -
  have "parse_slash ''hi'' = (''i'', [])" by code_simp
  moreover have "authorize (new_auth demo_users) 1 ChatWithAgent = Ok ()"
    by (simp add: authorize_def demo_users_simps less_eq_user_role_def del: One_nat_def)
  ultimately show ?thesis
    by (simp add: dispatch_message_def text_from_def dispatch_content_def forward_text_def starts_with_def logged_def
        demo_handle_def deaf_handle_def demo_bridge_def send_response_def authorize_channel_user_def demo_users_simps
        action_of_def has_broadcast_def new_router_def set_default_def no_broadcast_def resolve_def
        resolve_with_context_def resolve_binding_def or_else_def Let_def del: One_nat_def)
qed

lemma chat_only_for_users_witness:
  "\<exists>(u, cfg) \<in> set demo_users. (''telegram'', ''11'') \<in> set (uc_bindings cfg) \<and> User \<le> from_str_role (uc_role cfg)"
proof -
  have d: "demo_users \<noteq> []" "distinct (map fst demo_users)"
    "\<forall>(u, cfg) \<in> set demo_users. \<forall>(c, p) \<in> set (uc_bindings cfg). CHR '':'' \<notin> set c"
    by (simp_all add: demo_users_def)
  have "filter is_sent (calls (dispatch_message (logged demo_handle) 0 (text_from ''11'' ''hi'') demo_bridge))
      \<noteq> filter is_sent (calls demo_bridge)"
    by (simp add: ada_reaches_agent is_sent_def) (simp add: demo_bridge_def)
  from chat_only_for_users [OF d _ demo_handle_auth this] show ?thesis by (simp add: text_from_def)
qed

text \<open>Bob may only look, so his text reaches no agent.\<close>

lemma viewer_is_denied:
  "authorize_channel_user (\<lambda>_. ''denied'') (new_auth demo_users) ''telegram'' ''22'' ''chat'' = Err ''denied''"
  by (simp add: authorize_channel_user_def rbac_new demo_users_simps action_of_def authorize_def less_eq_user_role_def)
     (simp add: demo_users_def)

end
