(* ===== verification/Net_Address.thy ===== *)
theory Net_Address
  imports Prelude
begin

text \<open>
  IP addresses at the width they have on the wire, with the tests of the standard library that the program uses and
  its own test for private ranges (\<open>is_private_ip\<close> of \<open>clawreform-runtime/src/web_fetch.rs\<close>, repeated in
  \<open>host_functions.rs\<close>).
\<close>

section \<open>Addresses\<close>

datatype ip_addr = V4 "8 word" "8 word" "8 word" "8 word" | V6 "16 word list"

text \<open>\<open>IpAddr::is_loopback\<close> and \<open>is_unspecified\<close> of the standard library.\<close>

fun is_loopback :: "ip_addr \<Rightarrow> bool" where
  "is_loopback (V4 a b c d) \<longleftrightarrow> a = 127"
| "is_loopback (V6 s) \<longleftrightarrow> s = [0, 0, 0, 0, 0, 0, 0, 1]"

fun is_unspecified :: "ip_addr \<Rightarrow> bool" where
  "is_unspecified (V4 a b c d) \<longleftrightarrow> a = 0 \<and> b = 0 \<and> c = 0 \<and> d = 0"
| "is_unspecified (V6 s) \<longleftrightarrow> s = [0, 0, 0, 0, 0, 0, 0, 0]"

fun is_private_ip :: "ip_addr \<Rightarrow> bool" where
  "is_private_ip (V4 a b c d) \<longleftrightarrow>
     a = 10 \<or> (a = 172 \<and> 16 \<le> b \<and> b \<le> 31) \<or> (a = 192 \<and> b = 168) \<or> (a = 169 \<and> b = 254)"
| "is_private_ip (V6 s) \<longleftrightarrow> and (s ! 0) 0xfe00 = 0xfc00 \<or> and (s ! 0) 0xffc0 = 0xfe80"

definition internal :: "ip_addr \<Rightarrow> bool" where
  "internal ip \<longleftrightarrow> is_loopback ip \<or> is_unspecified ip \<or> is_private_ip ip"

end
