(* ===== verification/Web_Fetch.thy ===== *)
theory Web_Fetch
  imports Web_Content Net_Address
begin

text \<open>
  Fetching pages: the check of the target (\<open>check_ssrf\<close>), the cache and the pipeline of
  \<open>clawreform-runtime/src/web_fetch.rs\<close> and \<open>web_cache.rs\<close>, and the links of a message
  (\<open>link_understanding.rs\<close>). Name resolution, the HTTP client, SHA-256 and the Unicode tables are parameters.
\<close>

section \<open>The host of a URL\<close>

definition http :: string where "http = ''http://''"

definition https :: string where "https = ''https://''"

text \<open>\<open>url.split("://").nth(1)\<close>: the text between the first and the second separator.\<close>

definition after_scheme :: "string \<Rightarrow> string option" where
  "after_scheme url =
     (case find_sub ''://'' url of
        None \<Rightarrow> None
      | Some i \<Rightarrow>
          (let rest = drop (i + 3) url
           in Some (case find_sub ''://'' rest of None \<Rightarrow> rest | Some j \<Rightarrow> take j rest)))"

definition default_port :: "string \<Rightarrow> nat" where
  "default_port url = (if starts_with url ''https'' then 443 else 80)"

definition host_with_port :: "string \<Rightarrow> nat \<Rightarrow> string" where
  "host_with_port h port = h @ '':'' @ show_nat port"

definition extract_host :: "string \<Rightarrow> string" where
  "extract_host url =
     (case after_scheme url of
        None \<Rightarrow> url
      | Some rest \<Rightarrow>
          (let host_port = hd (split_on (CHR ''/'') rest);
               plain = (if CHR '':'' \<in> set host_port then host_port else host_with_port host_port (default_port url))
           in if starts_with host_port ''[''
              then (case str_find (CHR '']'') host_port of
                      Some bracket_end \<Rightarrow>
                        (let ipv6_host = take (bracket_end + 1) host_port
                         in case strip_prefix '':'' (drop (bracket_end + 1) host_port) of
                              Some port \<Rightarrow> ipv6_host @ '':'' @ port
                            | None \<Rightarrow> host_with_port ipv6_host (default_port url))
                    | None \<Rightarrow> plain)
              else plain))"

definition hostname_of :: "string \<Rightarrow> string" where
  "hostname_of host =
     (if starts_with host ''[''
      then (case str_find (CHR '']'') host of Some i \<Rightarrow> take (i + 1) host | None \<Rightarrow> host)
      else hd (split_on (CHR '':'') host))"

section \<open>The check\<close>

definition blocked_hosts :: "string list" where
  "blocked_hosts =
     [''localhost'', ''ip6-localhost'', ''metadata.google.internal'', ''metadata.aws.internal'', ''instance-data'',
      ''169.254.169.254'', ''100.100.100.200'', ''192.0.0.192'', ''0.0.0.0'', ''::1'', ''[::1]'']"

datatype ssrf_error = BadScheme | RestrictedHost string | ResolvesToPrivate string ip_addr

text \<open>\<open>to_socket_addrs\<close> is the parameter \<open>dns\<close>: the addresses of a host with a port, or an error.\<close>

type_synonym resolver = "string \<Rightarrow> ip_addr list option"

definition check_ssrf :: "resolver \<Rightarrow> string \<Rightarrow> (unit, ssrf_error) result" where
  "check_ssrf dns url =
     (if \<not> starts_with url http \<and> \<not> starts_with url https then Err BadScheme
      else let hostname = hostname_of (extract_host url)
           in if hostname \<in> set blocked_hosts then Err (RestrictedHost hostname)
              else case dns (host_with_port hostname (default_port url)) of
                     None \<Rightarrow> Ok ()
                   | Some ips \<Rightarrow>
                       (case find internal ips of
                          None \<Rightarrow> Ok ()
                        | Some ip \<Rightarrow> Err (ResolvesToPrivate hostname ip)))"

section \<open>The cache\<close>

text \<open>Time is in nanoseconds; the elapsed time of \<open>Instant\<close> saturates at zero.\<close>

record web_cache =
  entries :: "(string \<times> (string \<times> nat)) list"
  ttl :: nat

definition new_cache :: "nat \<Rightarrow> web_cache" where
  "new_cache t = \<lparr>entries = [], ttl = t\<rparr>"

definition cache_get :: "nat \<Rightarrow> string \<Rightarrow> web_cache \<Rightarrow> string option \<times> web_cache" where
  "cache_get now k c =
     (if ttl c = 0 then (None, c)
      else case map_of (entries c) k of
             None \<Rightarrow> (None, c)
           | Some (v, t) \<Rightarrow>
               if now - t > ttl c then (None, c\<lparr>entries := filter (\<lambda>e. fst e \<noteq> k) (entries c)\<rparr>)
               else (Some v, c))"

definition cache_put :: "nat \<Rightarrow> string \<Rightarrow> string \<Rightarrow> web_cache \<Rightarrow> web_cache" where
  "cache_put now k v c =
     (if ttl c = 0 then c
      else c\<lparr>entries := (k, (v, now)) # filter (\<lambda>e. fst e \<noteq> k) (entries c)\<rparr>)"

definition evict_expired :: "nat \<Rightarrow> web_cache \<Rightarrow> web_cache" where
  "evict_expired now c = c\<lparr>entries := filter (\<lambda>e. now - snd (snd e) \<le> ttl c) (entries c)\<rparr>"

definition cache_len :: "web_cache \<Rightarrow> nat" where
  "cache_len c = length (entries c)"

definition cache_is_empty :: "web_cache \<Rightarrow> bool" where
  "cache_is_empty c \<longleftrightarrow> entries c = []"

section \<open>The pipeline\<close>

record fetch_config =
  max_chars :: nat
  max_response_bytes :: nat
  timeout_secs :: nat
  readability :: bool

definition default_fetch :: fetch_config where
  "default_fetch = \<lparr>max_chars = 50000, max_response_bytes = 10 * 1024 * 1024, timeout_secs = 30, readability = True\<rparr>"

text \<open>What the HTTP client answers: the status line, the headers the code reads and the body, or an error.\<close>

record http_response =
  status_text :: string
  content_length :: "nat option"
  content_type :: "string option"
  body_text :: "string option"

datatype fetch_error =
    SsrfBlocked ssrf_error
  | RequestFailed
  | ResponseTooLarge nat nat
  | BodyUnreadable

definition is_html :: "string \<Rightarrow> string \<Rightarrow> bool" where
  "is_html ct body \<longleftrightarrow>
     contains_str ct ''text/html'' \<or> contains_str ct ''application/xhtml''
     \<or> starts_with (trim_start body) ''<!DOCTYPE'' \<or> starts_with (trim_start body) ''<!doctype''
     \<or> starts_with (trim_start body) ''<html''"

text \<open>The world outside: the resolver, the client with its trace of requested URLs, and the two text functions.\<close>

record fetch_env =
  name_lookup :: resolver
  client :: "string \<Rightarrow> http_response option"
  lower_text :: "string \<Rightarrow> string"
  hash6 :: "string \<Rightarrow> string"

definition readable_text :: "fetch_env \<Rightarrow> fetch_config \<Rightarrow> string \<Rightarrow> string \<Rightarrow> (string, panic) result" where
  "readable_text env cfg ct body =
     (if readability cfg \<and> is_html ct body
      then (case html_to_markdown (lower_text env) body of
              Inl p \<Rightarrow> Err p
            | Inr md \<Rightarrow> Ok (if trim md = [] then body else md))
      else Ok body)"

definition truncate_text :: "fetch_config \<Rightarrow> string \<Rightarrow> (string, panic) result" where
  "truncate_text cfg t =
     (if length t > max_chars cfg
      then map_sum id (\<lambda>s. s @ ''... [truncated, '' @ show_nat (length t) @ '' total chars]'') (slice_to t (max_chars cfg))
      else Ok t)"

definition cache_key :: "string \<Rightarrow> string" where
  "cache_key url = ''fetch:'' @ url"

text \<open>
  One call of \<open>fetch\<close>: the answer or a panic, the new cache and the URLs that were requested. \<open>t0\<close> and \<open>t1\<close> are
  the times of the look-up and of the insertion.
\<close>

definition fetch ::
  "fetch_env \<Rightarrow> fetch_config \<Rightarrow> nat \<Rightarrow> nat \<Rightarrow> string \<Rightarrow> web_cache
   \<Rightarrow> ((string, fetch_error) result, panic) result \<times> web_cache \<times> string list" where
  "fetch env cfg t0 t1 url c =
     (case check_ssrf (name_lookup env) url of
        Inl e \<Rightarrow> (Ok (Err (SsrfBlocked e)), c, [])
      | Inr _ \<Rightarrow>
          (case cache_get t0 (cache_key url) c of
             (Some cached, c1) \<Rightarrow> (Ok (Ok cached), c1, [])
           | (None, c1) \<Rightarrow>
               (case client env url of
                  None \<Rightarrow> (Ok (Err RequestFailed), c1, [url])
                | Some resp \<Rightarrow>
                    if (case content_length resp of None \<Rightarrow> False | Some len \<Rightarrow> len > max_response_bytes cfg)
                    then (Ok (Err (ResponseTooLarge (the (content_length resp)) (max_response_bytes cfg))), c1, [url])
                    else (case body_text resp of
                       None \<Rightarrow> (Ok (Err BodyUnreadable), c1, [url])
                     | Some body \<Rightarrow>
                         (case and_next (readable_text env cfg (case content_type resp of Some t \<Rightarrow> t | None \<Rightarrow> []) body)
                                 (truncate_text cfg) of
                            Inl p \<Rightarrow> (Err p, c1, [url])
                          | Inr t \<Rightarrow>
                              (let result = ''HTTP '' @ status_text resp @ nl2 @ wrap_external_content (hash6 env) url t
                               in (Ok (Ok result), cache_put t1 (cache_key url) result c1, [url])))))))"

section \<open>Links in a message\<close>

definition is_private_url :: "string \<Rightarrow> bool" where
  "is_private_url url =
     (case after_scheme url of
        None \<Rightarrow> True
      | Some rest \<Rightarrow>
          (let authority = hd (split_on (CHR ''/'') rest);
               host = (if starts_with authority ''[''
                       then dropWhile (\<lambda>c. c = CHR ''['') (hd (split_on (CHR '']'') authority))
                       else hd (split_on (CHR '':'') authority));
               h = to_lowercase host
           in h \<in> {''localhost'', ''127.0.0.1'', ''0.0.0.0'', ''::1'', ''[::1]'', ''metadata.google.internal'', ''169.254.169.254''}
              \<or> ends_with h ''.local'' \<or> ends_with h ''.internal'' \<or> starts_with h ''10.'' \<or> starts_with h ''192.168.''
              \<or> (starts_with h ''172.''
                 \<and> (case split_on (CHR ''.'') h of
                      _ # second # _ \<Rightarrow> (case parse_uint 8 second of Some n \<Rightarrow> 16 \<le> n \<and> n \<le> 31 | None \<Rightarrow> False)
                    | _ \<Rightarrow> False))))"

text \<open>\<open>matches\<close> are the matches of the regular expression, in order.\<close>

fun extract_urls :: "nat \<Rightarrow> string list \<Rightarrow> string list \<Rightarrow> string list \<Rightarrow> string list" where
  "extract_urls limit seen urls [] = urls"
| "extract_urls limit seen urls (u # us) =
     (if u \<in> set seen then extract_urls limit seen urls us
      else if is_private_url u then extract_urls limit (u # seen) urls us
      else if length (urls @ [u]) \<ge> limit then urls @ [u]
      else extract_urls limit (u # seen) (urls @ [u]) us)"

definition build_link_context :: "bool \<Rightarrow> nat \<Rightarrow> string list \<Rightarrow> string option" where
  "build_link_context enabled limit matches =
     (if \<not> enabled then None
      else let urls = extract_urls limit [] [] matches
           in if urls = [] then None
              else Some (nl2 @ ''[Link Context - URLs detected in message]'' @ [newline]
                @ concat (map (\<lambda>u. ''- '' @ u @ [newline]) urls)
                @ ''Use web_fetch to retrieve content from these URLs if relevant to the user'' @ [CHR 0x27]
                @ ''s request.'' @ [newline]))"

section \<open>What the check guarantees\<close>

lemma hd_split_on: "hd (split_on c s) = takeWhile (\<lambda>x. x \<noteq> c) s"
proof (induction s)
  case (Cons x s)
  then show ?case by (cases "split_on c s") auto
qed simp

text \<open>A URL without user, query or fragment before its path, and with a name or an IPv4 address as its host.\<close>

definition plain_url :: "string \<Rightarrow> string \<Rightarrow> string \<Rightarrow> string \<Rightarrow> bool" where
  "plain_url scheme host port p \<longleftrightarrow>
     scheme \<in> {http, https} \<and> CHR '':'' \<notin> set host \<and> CHR ''/'' \<notin> set host \<and> \<not> starts_with host ''[''
     \<and> (port = [] \<or> (\<exists>d. port = CHR '':'' # d \<and> d \<noteq> [] \<and> CHR '':'' \<notin> set d \<and> CHR ''/'' \<notin> set d))
     \<and> (p = [] \<or> starts_with p ''/'')"

lemma second_separator:
  assumes "plain_url scheme host port p" "find_sub ''://'' (host @ port @ p) = Some j"
  shows "length (host @ port) \<le> j"
proof (rule ccontr)
  assume "\<not> length (host @ port) \<le> j"
  then have j: "j < length (host @ port)" by simp
  have pre: "prefix ''://'' (drop j (host @ port @ p))" using find_sub_Some [OF assms(2)] by simp
  then obtain r where r: "drop j (host @ port @ p) = CHR '':'' # CHR ''/'' # CHR ''/'' # r" by (auto simp: prefix_def)
  have "j < length (host @ port @ p)" using j by simp
  then have at: "(host @ port @ p) ! j = CHR '':''" using r by (metis hd_drop_conv_nth list.sel(1))
  have "length host \<le> j"
  proof (rule ccontr)
    assume "\<not> length host \<le> j"
    then have "CHR '':'' \<in> set host" using at nth_mem [of j host] by (simp add: nth_append)
    with assms(1) show False by (simp add: plain_url_def)
  qed
  with j obtain d where d: "port = CHR '':'' # d" "d \<noteq> []" "CHR '':'' \<notin> set d" "CHR ''/'' \<notin> set d"
    using assms(1) by (auto simp: plain_url_def)
  define i where "i = j - length host"
  have i: "i < length port" using j \<open>length host \<le> j\<close> by (simp add: i_def)
  have dr: "drop i (port @ p) = CHR '':'' # CHR ''/'' # CHR ''/'' # r" using r \<open>length host \<le> j\<close> by (simp add: i_def)
  have "i = 0"
  proof (cases i)
    case (Suc k)
    then have k: "k < length d" "drop k (d @ p) = CHR '':'' # CHR ''/'' # CHR ''/'' # r" using i dr d(1) by simp_all
    then have "d ! k = CHR '':''" by (metis Cons_nth_drop_Suc append_eq_conv_conj length_append list.inject nth_append trans_less_add1)
    with k(1) d(3) nth_mem [of k d] show ?thesis by simp
  qed simp
  with dr d show False by (cases d) auto
qed

lemma extract_plain:
  assumes "plain_url scheme host port p"
  shows "hostname_of (extract_host (scheme @ host @ port @ p)) = host"
    and "default_port (scheme @ host @ port @ p) = (if scheme = https then 443 else 80)"
proof -
  let ?rest = "host @ port @ p"
  have ca: "\<exists>t. after_scheme (scheme @ ?rest) = Some t \<and> takeWhile (\<lambda>x. x \<noteq> CHR ''/'') t = host @ port"
  proof -
    have first: "find_sub ''://'' (scheme @ ?rest) = Some (length scheme - 3)"
      using assms by (auto simp: plain_url_def http_def https_def)
    have drop: "drop (length scheme - 3 + 3) (scheme @ ?rest) = ?rest"
      using assms by (auto simp: plain_url_def http_def https_def)
    have tw: "takeWhile (\<lambda>x. x \<noteq> CHR ''/'') (host @ port @ take n p) = host @ port" for n
    proof -
      have "takeWhile (\<lambda>x. x \<noteq> CHR ''/'') (take n p) = []"
        using assms by (cases p; cases n) (auto simp: plain_url_def starts_with_def)
      moreover have "\<forall>x \<in> set (host @ port). x \<noteq> CHR ''/''"
        using assms by (auto simp: plain_url_def)
      ultimately show ?thesis
        using takeWhile_append2 [of "host @ port" "\<lambda>x. x \<noteq> CHR ''/''" "take n p"] by simp
    qed
    show ?thesis
    proof (cases "find_sub ''://'' ?rest")
      case None
      then show ?thesis using first drop tw [of "length p"] by (simp add: after_scheme_def Let_def)
    next
      case (Some j)
      have "take j ?rest = host @ port @ take (j - length (host @ port)) p"
        using second_separator [OF assms Some] by simp
      then show ?thesis
        using first drop Some tw [of "j - length (host @ port)"] by (simp only: after_scheme_def Let_def option.case append_assoc) simp
    qed
  qed
  then obtain t where t: "after_scheme (scheme @ ?rest) = Some t" "takeWhile (\<lambda>x. x \<noteq> CHR ''/'') t = host @ port"
    by blast
  have nb: "\<not> starts_with (host @ port) ''[''"
    using assms by (cases host) (auto simp: plain_url_def starts_with_def)
  have nb2: "\<not> starts_with (host @ CHR '':'' # q) ''[''" for q
    using assms by (cases host) (auto simp: plain_url_def starts_with_def)
  have tw: "takeWhile (\<lambda>x. x \<noteq> CHR '':'') (host @ CHR '':'' # q) = host" for q
    using assms by (subst takeWhile_append2) (auto simp: plain_url_def)
  have "\<exists>q. extract_host (scheme @ ?rest) = host @ CHR '':'' # q"
  proof (cases "port = []")
    case True
    then show ?thesis
      using t nb assms by (auto simp: extract_host_def hd_split_on host_with_port_def Let_def plain_url_def)
  next
    case False
    then obtain d where "port = CHR '':'' # d" using assms by (auto simp: plain_url_def)
    then show ?thesis using t nb by (auto simp: extract_host_def hd_split_on Let_def)
  qed
  then show "hostname_of (extract_host (scheme @ ?rest)) = host"
    using nb2 tw by (auto simp: hostname_of_def hd_split_on)
  show "default_port (scheme @ host @ port @ p) = (if scheme = https then 443 else 80)"
    using assms by (auto simp: plain_url_def default_port_def starts_with_def http_def https_def)
qed

lemma addresses_pass:
  "(case r of None \<Rightarrow> Ok ()
    | Some ips \<Rightarrow> (case find internal ips of None \<Rightarrow> Ok () | Some ip \<Rightarrow> Err (ResolvesToPrivate h ip))) = Ok ()
   \<longleftrightarrow> (\<forall>ips. r = Some ips \<longrightarrow> (\<forall>ip \<in> set ips. \<not> internal ip))"
proof (cases r)
  case (Some ips)
  have "find internal ips = None \<longleftrightarrow> (\<forall>ip \<in> set ips. \<not> internal ip)" by (auto simp: find_None_iff)
  with Some show ?thesis by (cases "find internal ips") simp_all
qed simp

lemma check_plain:
  assumes "plain_url scheme host port p"
  shows "check_ssrf dns (scheme @ host @ port @ p) = Ok () \<longleftrightarrow>
    host \<notin> set blocked_hosts
    \<and> (\<forall>ips. dns (host_with_port host (if scheme = https then 443 else 80)) = Some ips \<longrightarrow> (\<forall>ip \<in> set ips. \<not> internal ip))"
proof -
  have "starts_with (scheme @ host @ port @ p) http \<or> starts_with (scheme @ host @ port @ p) https"
    using assms by (auto simp: plain_url_def starts_with_def)
  then have "check_ssrf dns (scheme @ host @ port @ p) = Ok () \<longleftrightarrow>
      host \<notin> set blocked_hosts \<and> (case dns (host_with_port host (if scheme = https then 443 else 80)) of None \<Rightarrow> Ok ()
        | Some ips \<Rightarrow> (case find internal ips of None \<Rightarrow> Ok () | Some ip \<Rightarrow> Err (ResolvesToPrivate host ip))) = Ok ()"
    unfolding check_ssrf_def extract_plain [OF assms] Let_def by auto
  then show ?thesis by (simp only: addresses_pass)
qed


definition demo_env :: fetch_env where
  "demo_env = \<lparr>name_lookup = (\<lambda>h. if h = ''example.com:80'' then Some [V4 93 184 216 34] else None),
     client = (\<lambda>_. None),
     lower_text = map ascii_lower, hash6 = (\<lambda>_. ''00'')\<rparr>"


text \<open>
  What the check misses. The part up to the first slash counts as the host: with a query or a user before it the
  name does not resolve, and what does not resolve passes, while an HTTP client connects to the address in the URL.
  The IPv6 form of an IPv4 loopback address passes as well, as none of the tests knows it.
\<close>

theorem ssrf_bypasses:
  "(dns ''127.0.0.1?x:80'' = None \<longrightarrow> check_ssrf dns ''http://127.0.0.1?x'' = Ok ())
   \<and> (dns ''u@169.254.169.254:80'' = None \<longrightarrow> check_ssrf dns ''http://u@169.254.169.254/latest/'' = Ok ())
   \<and> (dns ''[::ffff:127.0.0.1]:80'' = Some [V6 [0, 0, 0, 0, 0, 0xffff, 0x7f00, 1]]
        \<longrightarrow> check_ssrf dns ''http://[::ffff:127.0.0.1]/'' = Ok ())"
proof (intro conjI impI)
  assume "dns ''127.0.0.1?x:80'' = None"
  moreover have "hostname_of (extract_host ''http://127.0.0.1?x'') = ''127.0.0.1?x''"
    "host_with_port ''127.0.0.1?x'' (default_port ''http://127.0.0.1?x'') = ''127.0.0.1?x:80''" by code_simp+
  ultimately show "check_ssrf dns ''http://127.0.0.1?x'' = Ok ()"
    by (simp add: check_ssrf_def blocked_hosts_def starts_with_def http_def)
next
  assume "dns ''u@169.254.169.254:80'' = None"
  moreover have "hostname_of (extract_host ''http://u@169.254.169.254/latest/'') = ''u@169.254.169.254''"
    "host_with_port ''u@169.254.169.254'' (default_port ''http://u@169.254.169.254/latest/'') = ''u@169.254.169.254:80''"
    by code_simp+
  ultimately show "check_ssrf dns ''http://u@169.254.169.254/latest/'' = Ok ()"
    by (simp add: check_ssrf_def blocked_hosts_def starts_with_def http_def)
next
  assume "dns ''[::ffff:127.0.0.1]:80'' = Some [V6 [0, 0, 0, 0, 0, 0xffff, 0x7f00, 1]]"
  moreover have "hostname_of (extract_host ''http://[::ffff:127.0.0.1]/'') = ''[::ffff:127.0.0.1]''"
    "host_with_port ''[::ffff:127.0.0.1]'' (default_port ''http://[::ffff:127.0.0.1]/'') = ''[::ffff:127.0.0.1]:80''"
    by code_simp+
  ultimately show "check_ssrf dns ''http://[::ffff:127.0.0.1]/'' = Ok ()"
    by (simp add: check_ssrf_def blocked_hosts_def starts_with_def http_def internal_def)
qed

definition demo_dns :: resolver where
  "demo_dns h = (if h = ''[::ffff:127.0.0.1]:80'' then Some [V6 [0, 0, 0, 0, 0, 0xffff, 0x7f00, 1]] else None)"

lemma ssrf_bypasses_witness:
  "check_ssrf demo_dns ''http://127.0.0.1?x'' = Ok () \<and> check_ssrf demo_dns ''http://[::ffff:127.0.0.1]/'' = Ok ()"
  using ssrf_bypasses [of demo_dns] by (simp add: demo_dns_def)

text \<open>A value is served while it is not older than the time to live.\<close>

lemma cache_fresh:
  "0 < ttl c \<Longrightarrow> t' - t \<le> ttl c \<Longrightarrow> fst (cache_get t' k (cache_put t k v c)) = Some v"
  by (simp add: cache_get_def cache_put_def)

lemma cache_expired: "ttl c < t' - t \<Longrightarrow> fst (cache_get t' k (cache_put t k v c)) = None"
  by (simp add: cache_get_def cache_put_def map_of_eq_None_iff split: option.split)

text \<open>A long page with a character across the limit panics.\<close>

lemma truncation_panics: "truncate_text \<lparr>max_chars = 1, max_response_bytes = 7, timeout_secs = 7, readability = False\<rparr> [CHR 0xC3, CHR 0xA9] = Err SliceNotOnBoundary"
  by code_simp

text \<open>A limit of no links still gives one.\<close>

lemma one_link_too_many: "build_link_context True 0 [''http://example.com''] \<noteq> None"
  by code_simp

end
