(* ===== verification/Wasm_Host.thy ===== *)
theory Wasm_Host
  imports Capability Workspace Web_Fetch
begin

text \<open>
  The functions a WASM guest can call: \<open>clawreform-runtime/src/host_functions.rs\<close>. The guest reaches files, the
  network, processes, the environment, the memory and other agents through \<open>dispatch\<close> alone. Files are those of
  the theory \<open>Filesystem\<close>; the HTTP client, processes, the environment and the kernel handle are parameters that
  act on the rest \<open>'w\<close> of the world, and JSON values are a parameter with the accessors the code uses.
\<close>

section \<open>State and world\<close>

record 'w host_world =
  files :: filesystem
  outside :: 'w

record ('j, 'w) kernel_calls =
  memory_recall :: "string \<Rightarrow> 'w \<Rightarrow> ('j option, string) result \<times> 'w"
  memory_store :: "string \<Rightarrow> 'j \<Rightarrow> 'w \<Rightarrow> (unit, string) result \<times> 'w"
  send_to_agent :: "string \<Rightarrow> string \<Rightarrow> 'w \<Rightarrow> (string, string) result \<times> 'w"
  spawn_checked :: "string \<Rightarrow> string \<Rightarrow> capability list \<Rightarrow> 'w \<Rightarrow> (string \<times> string, string) result \<times> 'w"

record ('j, 'w) guest_state =
  guest_caps :: "capability list"
  guest_kernel :: "('j, 'w) kernel_calls option"
  guest_agent :: string

datatype http_method = Get | Post string | Put string | Delete

record ('j, 'w) host_api =
  str_arg :: "string \<Rightarrow> 'j \<Rightarrow> string option"
  any_arg :: "string \<Rightarrow> 'j \<Rightarrow> 'j option"
  str_items :: "string \<Rightarrow> 'j \<Rightarrow> string list option"
  clock_now :: "'w \<Rightarrow> nat"
  lookup_host :: "'w \<Rightarrow> resolver"
  http_call :: "http_method \<Rightarrow> string \<Rightarrow> 'w \<Rightarrow> (nat \<times> string, string) result \<times> 'w"
  run_command :: "string \<Rightarrow> string list \<Rightarrow> 'w \<Rightarrow> (int option \<times> string \<times> string, string) result \<times> 'w"
  env_var :: "string \<Rightarrow> 'w \<Rightarrow> string option"

datatype host_error =
    UnknownMethod string
  | MissingParameter string
  | CapDenied capability
  | TraversalDenied
  | CannotResolve io_error
  | NoParent
  | CannotResolveParent io_error
  | NoFileName
  | BadFileName
  | FsFailed string io_error
  | HostSsrf ssrf_error
  | Failed string
  | NoKernel

datatype 'j host_reply =
    OkTime nat
  | OkText string
  | OkTrue
  | OkNames "string list"
  | OkResponse nat string
  | OkOutput "int option" string string
  | OkNull
  | OkJson 'j
  | OkAgent string string
  | HostError host_error

section \<open>Checks\<close>

fun check_capability :: "capability list \<Rightarrow> capability \<Rightarrow> (unit, host_error) result" where
  "check_capability [] required = Err (CapDenied required)"
| "check_capability (granted # rest) required =
     (if capability_matches granted required then Ok () else check_capability rest required)"

definition has_parent_dir :: "path \<Rightarrow> bool" where
  "has_parent_dir p \<longleftrightarrow> ''..'' \<in> set (components p)"

definition safe_resolve_path :: "filesystem \<Rightarrow> string \<Rightarrow> (path, host_error) result" where
  "safe_resolve_path fs s =
     (let p = path_of s
      in if has_parent_dir p then Err TraversalDenied
         else case canonicalize fs p of
                Inl e \<Rightarrow> Err (CannotResolve e)
              | Inr q \<Rightarrow> Ok (entry_path q))"

definition safe_resolve_parent :: "filesystem \<Rightarrow> string \<Rightarrow> (path, host_error) result" where
  "safe_resolve_parent fs s =
     (let p = path_of s
      in if has_parent_dir p then Err TraversalDenied
         else case path_parent p of
                None \<Rightarrow> Err NoParent
              | Some par \<Rightarrow>
                  if \<not> absolute par \<and> pieces par = [] then Err NoParent
                  else case canonicalize fs par of
                         Inl e \<Rightarrow> Err (CannotResolveParent e)
                       | Inr q \<Rightarrow>
                           (case path_file_name p of
                              None \<Rightarrow> Err NoFileName
                            | Some name \<Rightarrow>
                                if contains_str name ''..'' then Err BadFileName
                                else Ok (path_join (entry_path q) (path_of name))))"

text \<open>The guest's form of the host, without the brackets of IPv6 addresses.\<close>

definition extract_host_from_url :: "string \<Rightarrow> string" where
  "extract_host_from_url url =
     (case after_scheme url of
        None \<Rightarrow> url
      | Some rest \<Rightarrow>
          (let host_port = hd (split_on (CHR ''/'') rest)
           in if CHR '':'' \<in> set host_port then host_port else host_with_port host_port (default_port url)))"

definition guest_blocked_hosts :: "string list" where
  "guest_blocked_hosts =
     [''localhost'', ''metadata.google.internal'', ''metadata.aws.internal'', ''instance-data'', ''169.254.169.254'']"

definition is_ssrf_target :: "resolver \<Rightarrow> string \<Rightarrow> (unit, ssrf_error) result" where
  "is_ssrf_target resolve url =
     (if \<not> starts_with url http \<and> \<not> starts_with url https then Err BadScheme
      else let hostname = hd (split_on (CHR '':'') (extract_host_from_url url))
           in if hostname \<in> set guest_blocked_hosts then Err (RestrictedHost hostname)
              else case resolve (host_with_port hostname (default_port url)) of
                     None \<Rightarrow> Ok ()
                   | Some ips \<Rightarrow>
                       (case find internal ips of
                          None \<Rightarrow> Ok ()
                        | Some ip \<Rightarrow> Err (ResolvesToPrivate hostname ip)))"

section \<open>The functions\<close>

definition on_outside :: "('w \<Rightarrow> 'r \<times> 'w) \<Rightarrow> 'w host_world \<Rightarrow> 'r \<times> 'w host_world" where
  "on_outside f w = (case f (outside w) of (r, o1) \<Rightarrow> (r, w\<lparr>outside := o1\<rparr>))"

definition gated ::
  "('j, 'w) guest_state \<Rightarrow> capability \<Rightarrow> 'w host_world \<Rightarrow> ('j host_reply \<times> 'w host_world)
   \<Rightarrow> 'j host_reply \<times> 'w host_world" where
  "gated st required w run =
     (case check_capability (guest_caps st) required of Inl e \<Rightarrow> (HostError e, w) | Inr _ \<Rightarrow> run)"

definition host_time_now :: "('j, 'w) host_api \<Rightarrow> 'w host_world \<Rightarrow> 'j host_reply \<times> 'w host_world" where
  "host_time_now api w = (OkTime (clock_now api (outside w)), w)"

definition host_fs_read ::
  "('j, 'w) host_api \<Rightarrow> ('j, 'w) guest_state \<Rightarrow> 'j \<Rightarrow> 'w host_world \<Rightarrow> 'j host_reply \<times> 'w host_world" where
  "host_fs_read api st args w =
     (case str_arg api ''path'' args of
        None \<Rightarrow> (HostError (MissingParameter ''path''), w)
      | Some p \<Rightarrow> gated st (FileRead p) w
          (case safe_resolve_path (files w) p of
             Inl e \<Rightarrow> (HostError e, w)
           | Inr q \<Rightarrow>
               (case read_to_string (files w) q of
                  Inr t \<Rightarrow> (OkText t, w)
                | Inl e \<Rightarrow> (HostError (FsFailed ''fs_read'' e), w))))"

definition host_fs_write ::
  "('j, 'w) host_api \<Rightarrow> ('j, 'w) guest_state \<Rightarrow> 'j \<Rightarrow> 'w host_world \<Rightarrow> 'j host_reply \<times> 'w host_world" where
  "host_fs_write api st args w =
     (case str_arg api ''path'' args of
        None \<Rightarrow> (HostError (MissingParameter ''path''), w)
      | Some p \<Rightarrow>
          (case str_arg api ''content'' args of
             None \<Rightarrow> (HostError (MissingParameter ''content''), w)
           | Some t \<Rightarrow> gated st (FileWrite p) w
               (case safe_resolve_parent (files w) p of
                  Inl e \<Rightarrow> (HostError e, w)
                | Inr q \<Rightarrow>
                    (case write_file (files w) q t of
                       Inr fs1 \<Rightarrow> (OkTrue, w\<lparr>files := fs1\<rparr>)
                     | Inl e \<Rightarrow> (HostError (FsFailed ''fs_write'' e), w)))))"

definition host_fs_list ::
  "('j, 'w) host_api \<Rightarrow> ('j, 'w) guest_state \<Rightarrow> 'j \<Rightarrow> 'w host_world \<Rightarrow> 'j host_reply \<times> 'w host_world" where
  "host_fs_list api st args w =
     (case str_arg api ''path'' args of
        None \<Rightarrow> (HostError (MissingParameter ''path''), w)
      | Some p \<Rightarrow> gated st (FileRead p) w
          (case safe_resolve_path (files w) p of
             Inl e \<Rightarrow> (HostError e, w)
           | Inr q \<Rightarrow>
               (case read_dir (files w) q of
                  Inr es \<Rightarrow> (OkNames (map fst es), w)
                | Inl e \<Rightarrow> (HostError (FsFailed ''fs_list'' e), w))))"

text \<open>
  \<open>to_uppercase\<close> up to equality with the three method names: besides the ASCII letters only the long s and two
  ligatures have upper cases made of letters of these names.
\<close>

fun upper_name :: "string \<Rightarrow> string" where
  "upper_name [] = []"
| "upper_name (c # s) =
     (if prefix [CHR 0xC5, CHR 0xBF] (c # s) then CHR ''S'' # upper_name (drop 1 s)
      else if prefix [CHR 0xEF, CHR 0xAC, CHR 0x85] (c # s) \<or> prefix [CHR 0xEF, CHR 0xAC, CHR 0x86] (c # s)
        then CHR ''S'' # CHR ''T'' # upper_name (drop 2 s)
      else (let n = (of_char c :: nat) in if 97 \<le> n \<and> n \<le> 122 then char_of (n - 32) else c) # upper_name s)"

definition method_of :: "string \<Rightarrow> string \<Rightarrow> http_method" where
  "method_of m body =
     (if upper_name m = ''POST'' then Post body
      else if upper_name m = ''PUT'' then Put body
      else if upper_name m = ''DELETE'' then Delete
      else Get)"

definition host_net_fetch ::
  "('j, 'w) host_api \<Rightarrow> ('j, 'w) guest_state \<Rightarrow> 'j \<Rightarrow> 'w host_world \<Rightarrow> 'j host_reply \<times> 'w host_world" where
  "host_net_fetch api st args w =
     (case str_arg api ''url'' args of
        None \<Rightarrow> (HostError (MissingParameter ''url''), w)
      | Some url \<Rightarrow>
          (let m = (case str_arg api ''method'' args of Some m \<Rightarrow> m | None \<Rightarrow> ''GET'');
               body = (case str_arg api ''body'' args of Some b \<Rightarrow> b | None \<Rightarrow> [])
           in case is_ssrf_target (lookup_host api (outside w)) url of
                Inl e \<Rightarrow> (HostError (HostSsrf e), w)
              | Inr _ \<Rightarrow> gated st (NetConnect (extract_host_from_url url)) w
                  (case on_outside (http_call api (method_of m body) url) w of
                     (Inr (status, text), w1) \<Rightarrow> (OkResponse status text, w1)
                   | (Inl e, w1) \<Rightarrow> (HostError (Failed e), w1))))"

definition host_shell_exec ::
  "('j, 'w) host_api \<Rightarrow> ('j, 'w) guest_state \<Rightarrow> 'j \<Rightarrow> 'w host_world \<Rightarrow> 'j host_reply \<times> 'w host_world" where
  "host_shell_exec api st args w =
     (case str_arg api ''command'' args of
        None \<Rightarrow> (HostError (MissingParameter ''command''), w)
      | Some cmd \<Rightarrow> gated st (ShellExec cmd) w
          (case on_outside (run_command api cmd (case str_items api ''args'' args of Some xs \<Rightarrow> xs | None \<Rightarrow> [])) w of
             (Inr (code, stdout, stderr), w1) \<Rightarrow> (OkOutput code stdout stderr, w1)
           | (Inl e, w1) \<Rightarrow> (HostError (Failed e), w1)))"

definition host_env_read ::
  "('j, 'w) host_api \<Rightarrow> ('j, 'w) guest_state \<Rightarrow> 'j \<Rightarrow> 'w host_world \<Rightarrow> 'j host_reply \<times> 'w host_world" where
  "host_env_read api st args w =
     (case str_arg api ''name'' args of
        None \<Rightarrow> (HostError (MissingParameter ''name''), w)
      | Some n \<Rightarrow> gated st (EnvRead n) w
          (case env_var api n (outside w) of Some v \<Rightarrow> (OkText v, w) | None \<Rightarrow> (OkNull, w)))"

definition with_kernel ::
  "('j, 'w) guest_state \<Rightarrow> 'w host_world \<Rightarrow> (('j, 'w) kernel_calls \<Rightarrow> 'j host_reply \<times> 'w host_world)
   \<Rightarrow> 'j host_reply \<times> 'w host_world" where
  "with_kernel st w run = (case guest_kernel st of None \<Rightarrow> (HostError NoKernel, w) | Some k \<Rightarrow> run k)"

definition host_kv_get ::
  "('j, 'w) host_api \<Rightarrow> ('j, 'w) guest_state \<Rightarrow> 'j \<Rightarrow> 'w host_world \<Rightarrow> 'j host_reply \<times> 'w host_world" where
  "host_kv_get api st args w =
     (case str_arg api ''key'' args of
        None \<Rightarrow> (HostError (MissingParameter ''key''), w)
      | Some key \<Rightarrow> gated st (MemoryRead key) w (with_kernel st w (\<lambda>k.
          case on_outside (memory_recall k key) w of
            (Inr (Some v), w1) \<Rightarrow> (OkJson v, w1)
          | (Inr None, w1) \<Rightarrow> (OkNull, w1)
          | (Inl e, w1) \<Rightarrow> (HostError (Failed e), w1))))"

definition host_kv_set ::
  "('j, 'w) host_api \<Rightarrow> ('j, 'w) guest_state \<Rightarrow> 'j \<Rightarrow> 'w host_world \<Rightarrow> 'j host_reply \<times> 'w host_world" where
  "host_kv_set api st args w =
     (case str_arg api ''key'' args of
        None \<Rightarrow> (HostError (MissingParameter ''key''), w)
      | Some key \<Rightarrow>
          (case any_arg api ''value'' args of
             None \<Rightarrow> (HostError (MissingParameter ''value''), w)
           | Some v \<Rightarrow> gated st (MemoryWrite key) w (with_kernel st w (\<lambda>k.
               case on_outside (memory_store k key v) w of
                 (Inr _, w1) \<Rightarrow> (OkTrue, w1)
               | (Inl e, w1) \<Rightarrow> (HostError (Failed e), w1)))))"

definition host_agent_send ::
  "('j, 'w) host_api \<Rightarrow> ('j, 'w) guest_state \<Rightarrow> 'j \<Rightarrow> 'w host_world \<Rightarrow> 'j host_reply \<times> 'w host_world" where
  "host_agent_send api st args w =
     (case str_arg api ''target'' args of
        None \<Rightarrow> (HostError (MissingParameter ''target''), w)
      | Some target \<Rightarrow>
          (case str_arg api ''message'' args of
             None \<Rightarrow> (HostError (MissingParameter ''message''), w)
           | Some msg \<Rightarrow> gated st (AgentMessage target) w (with_kernel st w (\<lambda>k.
               case on_outside (send_to_agent k target msg) w of
                 (Inr t, w1) \<Rightarrow> (OkText t, w1)
               | (Inl e, w1) \<Rightarrow> (HostError (Failed e), w1)))))"

definition host_agent_spawn ::
  "('j, 'w) host_api \<Rightarrow> ('j, 'w) guest_state \<Rightarrow> 'j \<Rightarrow> 'w host_world \<Rightarrow> 'j host_reply \<times> 'w host_world" where
  "host_agent_spawn api st args w =
     gated st AgentSpawn w
       (case str_arg api ''manifest'' args of
          None \<Rightarrow> (HostError (MissingParameter ''manifest''), w)
        | Some toml \<Rightarrow> with_kernel st w (\<lambda>k.
            case on_outside (spawn_checked k toml (guest_agent st) (guest_caps st)) w of
              (Inr (i, n), w1) \<Rightarrow> (OkAgent i n, w1)
            | (Inl e, w1) \<Rightarrow> (HostError (Failed e), w1)))"

definition dispatch ::
  "('j, 'w) host_api \<Rightarrow> ('j, 'w) guest_state \<Rightarrow> string \<Rightarrow> 'j \<Rightarrow> 'w host_world \<Rightarrow> 'j host_reply \<times> 'w host_world" where
  "dispatch api st m args w =
     (if m = ''time_now'' then host_time_now api w
      else if m = ''fs_read'' then host_fs_read api st args w
      else if m = ''fs_write'' then host_fs_write api st args w
      else if m = ''fs_list'' then host_fs_list api st args w
      else if m = ''net_fetch'' then host_net_fetch api st args w
      else if m = ''shell_exec'' then host_shell_exec api st args w
      else if m = ''env_read'' then host_env_read api st args w
      else if m = ''kv_get'' then host_kv_get api st args w
      else if m = ''kv_set'' then host_kv_set api st args w
      else if m = ''agent_send'' then host_agent_send api st args w
      else if m = ''agent_spawn'' then host_agent_spawn api st args w
      else (HostError (UnknownMethod m), w))"

section \<open>Every effect needs its capability\<close>

text \<open>The capability a call needs, read off its parameters.\<close>

definition required_for :: "('j, 'w) host_api \<Rightarrow> string \<Rightarrow> 'j \<Rightarrow> capability option" where
  "required_for api m args =
     (let named = (\<lambda>k c. map_option c (str_arg api k args))
      in if m = ''fs_read'' \<or> m = ''fs_list'' then named ''path'' FileRead
         else if m = ''fs_write'' then named ''path'' FileWrite
         else if m = ''net_fetch'' then named ''url'' (\<lambda>u. NetConnect (extract_host_from_url u))
         else if m = ''shell_exec'' then named ''command'' ShellExec
         else if m = ''env_read'' then named ''name'' EnvRead
         else if m = ''kv_get'' then named ''key'' MemoryRead
         else if m = ''kv_set'' then named ''key'' MemoryWrite
         else if m = ''agent_send'' then named ''target'' AgentMessage
         else if m = ''agent_spawn'' then Some AgentSpawn
         else None)"

definition granted :: "('j, 'w) guest_state \<Rightarrow> capability \<Rightarrow> bool" where
  "granted st c \<longleftrightarrow> (\<exists>g \<in> set (guest_caps st). capability_matches g c)"

definition is_error :: "'j host_reply \<Rightarrow> bool" where
  "is_error r = (case r of HostError _ \<Rightarrow> True | _ \<Rightarrow> False)"

lemma check_capability_iff: "is_ok (check_capability gs c) \<longleftrightarrow> (\<exists>g \<in> set gs. capability_matches g c)"
  by (induction gs) auto

lemma gated_cases:
  "granted st c \<Longrightarrow> gated st c w run = run"
  "\<not> granted st c \<Longrightarrow> \<exists>e. gated st c w run = (HostError e, w)"
  using check_capability_iff [of "guest_caps st" c]
  by (auto simp: gated_def granted_def is_ok_conv split: sum.split)

text \<open>A guarded call does nothing and fails, or the guest holds the capability.\<close>

definition denied_or :: "bool \<Rightarrow> 'w host_world \<Rightarrow> 'j host_reply \<times> 'w host_world \<Rightarrow> bool" where
  "denied_or ok w r \<longleftrightarrow> ok \<or> (is_error (fst r) \<and> snd r = w)"

lemma denied_or_rules:
  "denied_or ok w (HostError e, w)"
  "denied_or (granted st c) w (gated st c w run)"
  "ok \<Longrightarrow> denied_or ok w r"
  using gated_cases [of st c w run] by (auto simp: denied_or_def is_error_def)

lemma denied_or_option:
  "(x = None \<Longrightarrow> denied_or ok w a) \<Longrightarrow> (\<And>y. x = Some y \<Longrightarrow> denied_or ok w (f y))
   \<Longrightarrow> denied_or ok w (case x of None \<Rightarrow> a | Some y \<Rightarrow> f y)"
  by (cases x) simp_all

lemma denied_or_sum:
  "(\<And>e. x = Inl e \<Longrightarrow> denied_or ok w (a e)) \<Longrightarrow> (\<And>y. x = Inr y \<Longrightarrow> denied_or ok w (f y))
   \<Longrightarrow> denied_or ok w (case x of Inl e \<Rightarrow> a e | Inr y \<Rightarrow> f y)"
  by (cases x) simp_all

definition held :: "('j, 'w) host_api \<Rightarrow> ('j, 'w) guest_state \<Rightarrow> string \<Rightarrow> 'j \<Rightarrow> bool" where
  "held api st m args \<longleftrightarrow> (\<exists>c. required_for api m args = Some c \<and> granted st c)"

lemma gated_held:
  "required_for api m args = Some c \<Longrightarrow> denied_or (held api st m args) w (gated st c w run)"
  using denied_or_rules(2) [of st c w run] by (simp add: held_def)

lemma functions_mediated:
  "denied_or (held api st ''fs_read'' args) w (host_fs_read api st args w)"
  "denied_or (held api st ''fs_write'' args) w (host_fs_write api st args w)"
  "denied_or (held api st ''fs_list'' args) w (host_fs_list api st args w)"
  "denied_or (held api st ''net_fetch'' args) w (host_net_fetch api st args w)"
  "denied_or (held api st ''shell_exec'' args) w (host_shell_exec api st args w)"
  "denied_or (held api st ''env_read'' args) w (host_env_read api st args w)"
  "denied_or (held api st ''kv_get'' args) w (host_kv_get api st args w)"
  "denied_or (held api st ''kv_set'' args) w (host_kv_set api st args w)"
  "denied_or (held api st ''agent_send'' args) w (host_agent_send api st args w)"
  "denied_or (held api st ''agent_spawn'' args) w (host_agent_spawn api st args w)"
  unfolding host_fs_read_def host_fs_write_def host_fs_list_def host_net_fetch_def host_shell_exec_def
    host_env_read_def host_kv_get_def host_kv_set_def host_agent_send_def host_agent_spawn_def Let_def
  by (intro denied_or_option denied_or_sum denied_or_rules(1) gated_held; simp add: required_for_def)+

text \<open>
  C5: Complete mediation. Whatever method a guest calls with whatever parameters, an answer that is not an error and
  any change of the world need a granted capability that matches the one the parameters ask for; only the clock can be
  read without, and reading it changes nothing.
\<close>

theorem host_calls_mediated:
  assumes "dispatch api st m args w = (r, w')" "\<not> is_error r \<or> w' \<noteq> w"
  shows "(m = ''time_now'' \<and> w' = w) \<or> (\<exists>c. required_for api m args = Some c \<and> granted st c)"
proof (cases "m = ''time_now''")
  case True
  then show ?thesis using assms(1) by (simp add: dispatch_def host_time_now_def)
next
  case False
  then have "denied_or (held api st m args) w (dispatch api st m args w)"
    by (simp add: dispatch_def functions_mediated denied_or_rules(1))
  then show ?thesis using assms by (auto simp: denied_or_def held_def)
qed

section \<open>Files and the capability\<close>

definition no_links :: "filesystem \<Rightarrow> bool" where
  "no_links fs \<longleftrightarrow> (\<forall>q t. node_at fs q \<noteq> Some (Link t))"

lemma walk_without_links:
  assumes "no_links fs" "''..'' \<notin> set cs" "walk fs n cur cs = Ok pl"
  shows "pl = Found (cur @ filter (\<lambda>c. c \<noteq> ''.'') cs) \<or> pl = Absent (cur @ filter (\<lambda>c. c \<noteq> ''.'') cs)"
  using assms
  by (induction fs n cur cs rule: walk.induct)
    (auto simp: no_links_def split: if_splits option.splits node.splits)

lemma components_absolute: "absolute p \<Longrightarrow> components p = filter (\<lambda>c. c \<noteq> ''.'') (pieces p)"
  by (simp add: components_def Let_def)

lemma locate_without_links:
  assumes "no_links fs" "absolute p" "\<not> has_parent_dir p" "locate fs p = Ok pl"
  shows "pl = Found (components p) \<or> pl = Absent (components p)"
proof -
  have "''..'' \<notin> set (pieces p)"
    using assms(2,3) by (auto simp: has_parent_dir_def components_absolute)
  then show ?thesis
    using walk_without_links [OF assms(1), of "pieces p" max_links "[]" pl] assms(2,4)
    by (simp add: locate_def components_absolute split: if_splits)
qed

lemma canonicalize_without_links:
  assumes "no_links fs" "absolute p" "\<not> has_parent_dir p" "canonicalize fs p = Ok q"
  shows "q = components p"
proof -
  obtain pl where pl: "locate fs p = Ok pl" using assms(4) by (auto simp: canonicalize_def split: sum.splits)
  show ?thesis
    using locate_without_links [OF assms(1-3) pl] assms(4) pl by (auto simp: canonicalize_def)
qed

lemma canonical_again:
  assumes "absolute p" "\<not> has_parent_dir p"
  shows "absolute (entry_path (components p))" "\<not> has_parent_dir (entry_path (components p))"
    "components (entry_path (components p)) = components p"
  using assms by (auto simp: has_parent_dir_def components_absolute)

lemma path_of_absolute: "starts_with s ''/'' \<Longrightarrow> absolute (path_of s)"
  by (simp add: path_of_def starts_with_def)

lemma read_resolved:
  assumes "no_links fs" "starts_with s ''/''" "safe_resolve_path fs s = Ok q" "read_to_string fs q = Ok t"
  shows "node_at fs (components (path_of s)) = Some (Regular t)"
proof -
  note ab = path_of_absolute [OF assms(2)]
  have np: "\<not> has_parent_dir (path_of s)" and "q = entry_path (components (path_of s))"
    using assms(3) canonicalize_without_links [OF assms(1) ab]
    by (auto simp: safe_resolve_path_def Let_def split: if_splits sum.splits)
  then show ?thesis
    using assms(4) canonicalize_without_links [OF assms(1) canonical_again(1,2) [OF ab np]] canonical_again(3) [OF ab np]
    by (auto simp: read_to_string_def split: sum.splits option.splits node.splits if_splits)
qed

lemma path_of_name:
  assumes "c \<in> set (components (path_of s))"
  shows "path_of c = \<lparr>absolute = False, pieces = [c]\<rparr>"
proof -
  have "c \<in> set (split_on (CHR ''/'') s) \<or> c = ''.''" and ne: "c \<noteq> []"
    using assms by (auto simp: components_def path_of_def Let_def split: if_splits)
  then have slash: "CHR ''/'' \<notin> set c" using split_on_parts by auto
  then have "split_on (CHR ''/'') c = [c]"
  proof (induction c)
    case (Cons x c)
    then show ?case by (cases c) auto
  qed simp
  moreover have "\<not> prefix ''/'' c" "\<not> suffix ''/'' c"
    using slash by (auto dest: set_mono_prefix set_mono_suffix)
  ultimately show ?thesis using ne by (simp add: path_of_def)
qed

lemma write_resolved:
  assumes "no_links fs" "starts_with s ''/''" "safe_resolve_parent fs s = Ok q" "write_file fs q t = Ok fs'"
  shows "fs' = put_node fs (components (path_of s)) (Regular t)"
proof -
  let ?cs = "components (path_of s)"
  note ab = path_of_absolute [OF assms(2)]
  have np: "\<not> has_parent_dir (path_of s)" using assms(3) by (auto simp: safe_resolve_parent_def Let_def split: if_splits)
  have "?cs \<noteq> []" using assms(3) by (auto simp: safe_resolve_parent_def path_parent_def Let_def split: if_splits)
  then have par: "path_parent (path_of s) = Some \<lparr>absolute = True, pieces = butlast ?cs\<rparr>"
    using ab by (simp add: path_parent_def)
  let ?par = "\<lparr>absolute = True, pieces = butlast ?cs\<rparr>"
  have clean: "\<forall>c \<in> set ?cs. c \<noteq> ''.'' \<and> c \<noteq> ''..''"
    using ab np by (auto simp: components_absolute has_parent_dir_def)
  have pc: "components ?par = butlast ?cs"
    using clean in_set_butlastD [of _ ?cs] by (subst components_absolute) (auto simp: filter_id_conv)
  have pnp: "\<not> has_parent_dir ?par" using clean in_set_butlastD [of _ ?cs] by (auto simp: has_parent_dir_def pc)
  have name: "path_file_name (path_of s) = Some (last ?cs)"
    using \<open>?cs \<noteq> []\<close> clean by (auto simp: path_file_name_def Let_def)
  obtain d where d: "canonicalize fs ?par = Ok d" "q = path_join (entry_path d) (path_of (last ?cs))"
    using assms(3) par name np by (auto simp: safe_resolve_parent_def Let_def split: if_splits sum.splits)
  have "d = butlast ?cs" using canonicalize_without_links [OF assms(1) _ pnp d(1)] pc by simp
  then have q: "q = entry_path ?cs"
    using d(2) \<open>?cs \<noteq> []\<close> path_of_name [of "last ?cs" s]
    by (simp add: path_join_def entry_path_def)
  obtain pl where pl: "locate fs q = Ok pl" using assms(4) by (auto simp: write_file_def split: sum.splits)
  have "pl = Found ?cs \<or> pl = Absent ?cs"
    using locate_without_links [OF assms(1) _ _ pl] canonical_again [OF ab np] q by simp
  then show ?thesis using assms(4) pl by (auto simp: write_file_def split: if_splits)
qed

lemma gated_granted: "gated st c w run = (r, w') \<Longrightarrow> \<not> is_error r \<Longrightarrow> granted st c"
  using gated_cases(2) [of st c w run] by (cases "granted st c") (auto simp: is_error_def)

text \<open>
  C14: The granted path is the one used. While the file system has no symbolic links a guest that reads or writes an
  absolute path holds a capability for just this path, and the file it gets or replaces is the one at this path; no
  other file changes.
\<close>

theorem guest_files_exact:
  assumes "no_links (files w)" "str_arg api ''path'' args = Some s" "starts_with s ''/''"
  shows "(host_fs_read api st args w = (OkText t, w') \<longrightarrow>
      granted st (FileRead s) \<and> node_at (files w) (components (path_of s)) = Some (Regular t) \<and> w' = w)
    \<and> (host_fs_write api st args w = (OkTrue, w') \<longrightarrow>
      granted st (FileWrite s)
      \<and> (\<exists>t. str_arg api ''content'' args = Some t
            \<and> w' = w\<lparr>files := put_node (files w) (components (path_of s)) (Regular t)\<rparr>))"
proof (intro conjI impI)
  assume r: "host_fs_read api st args w = (OkText t, w')"
  have g: "granted st (FileRead s)"
    using r assms(2) by (intro gated_granted [of st "FileRead s" w _ "OkText t" w']) (auto simp: host_fs_read_def is_error_def)
  moreover from r assms(2) obtain q where
    "safe_resolve_path (files w) s = Ok q" "read_to_string (files w) q = Ok t" "w' = w"
    by (auto simp: host_fs_read_def gated_cases(1) [OF g] split: sum.splits)
  ultimately show "granted st (FileRead s)" "node_at (files w) (components (path_of s)) = Some (Regular t)" "w' = w"
    using read_resolved [OF assms(1,3)] by simp_all
next
  assume r: "host_fs_write api st args w = (OkTrue, w')"
  obtain t where t: "str_arg api ''content'' args = Some t"
    using r assms(2) by (auto simp: host_fs_write_def split: option.splits)
  show g: "granted st (FileWrite s)"
    using r assms(2) t by (intro gated_granted [of st "FileWrite s" w _ OkTrue w']) (auto simp: host_fs_write_def is_error_def)
  from r assms(2) t obtain q fs1 where
    "safe_resolve_parent (files w) s = Ok q" "write_file (files w) q t = Ok fs1" "w' = w\<lparr>files := fs1\<rparr>"
    by (auto simp: host_fs_write_def gated_cases(1) [OF g] split: sum.splits)
  then show "\<exists>t. str_arg api ''content'' args = Some t
      \<and> w' = w\<lparr>files := put_node (files w) (components (path_of s)) (Regular t)\<rparr>"
    using write_resolved [OF assms(1,3)] t by blast
qed

section \<open>Ways round the capabilities\<close>

definition demo_fs :: filesystem where
  "demo_fs = \<lparr>nodes = [([], Directory), ([''data''], Directory), ([''data'', ''note''], Regular ''hi''),
      ([''data'', ''l''], Link ''/etc''), ([''etc''], Directory), ([''etc'', ''passwd''], Regular ''secret'')], cwd = []\<rparr>"

definition plain_fs :: filesystem where
  "plain_fs = \<lparr>nodes = [([], Directory), ([''data''], Directory), ([''data'', ''note''], Regular ''hi'')], cwd = []\<rparr>"

text \<open>Parameters are an association list; every request is answered and recorded.\<close>

definition demo_api :: "((string \<times> string) list, string list) host_api" where
  "demo_api = \<lparr>str_arg = (\<lambda>k xs. map_of xs k), any_arg = (\<lambda>k xs. map_option (\<lambda>v. [(k, v)]) (map_of xs k)),
     str_items = (\<lambda>_ _. None), clock_now = (\<lambda>_. 5), lookup_host = (\<lambda>_ _. None),
     http_call = (\<lambda>m url w. (Ok (200, ''page''), url # w)), run_command = (\<lambda>_ _ w. (Err ''no'', w)),
     env_var = (\<lambda>_ _. None)\<rparr>"

definition guest_with :: "capability list \<Rightarrow> ((string \<times> string) list, string list) guest_state" where
  "guest_with cs = \<lparr>guest_caps = cs, guest_kernel = None, guest_agent = ''a''\<rparr>"

definition demo_world :: "filesystem \<Rightarrow> string list host_world" where
  "demo_world fs = \<lparr>files = fs, outside = []\<rparr>"

lemma demo_read: "host_fs_read demo_api (guest_with [FileRead ''/data/*'']) [(''path'', ''/data/note'')] (demo_world plain_fs)
    = (OkText ''hi'', demo_world plain_fs)"
  by code_simp

lemma plain_no_links: "no_links plain_fs"
  by (simp add: no_links_def plain_fs_def node_at_def)

lemma guest_files_exact_witness:
  "granted (guest_with [FileRead ''/data/*'']) (FileRead ''/data/note'')
   \<and> node_at plain_fs [''data'', ''note''] = Some (Regular ''hi'')"
proof -
  have "components (path_of ''/data/note'') = [''data'', ''note'']" by code_simp
  then show ?thesis
    using guest_files_exact [of "demo_world plain_fs" demo_api "[(''path'', ''/data/note'')]" "''/data/note''"] demo_read
    by (simp add: demo_world_def plain_no_links demo_api_def starts_with_def)
qed

lemma host_calls_mediated_witness:
  "granted (guest_with [FileRead ''/data/*'']) (FileRead ''/data/note'')"
proof -
  have "dispatch demo_api (guest_with [FileRead ''/data/*'']) ''fs_read'' [(''path'', ''/data/note'')] (demo_world plain_fs)
      = (OkText ''hi'', demo_world plain_fs)"
    by (simp add: dispatch_def demo_read)
  from host_calls_mediated [OF this] show ?thesis by (simp add: is_error_def required_for_def demo_api_def)
qed

text \<open>
  Two ways round. A symbolic link in a granted directory leads a guest to any file, as the resolved path is not
  compared with the capability again; and the host a network capability is compared with ends at the first slash, so
  a query makes an address outside the granted domain look like one inside.
\<close>

theorem guest_escapes:
  "host_fs_read demo_api (guest_with [FileRead ''/data/*'']) [(''path'', ''/data/l/passwd'')] (demo_world demo_fs)
     = (OkText ''secret'', demo_world demo_fs)
   \<and> host_net_fetch demo_api (guest_with [NetConnect ''*.example.com:80'']) [(''url'', ''http://evil.test?.example.com'')]
       (demo_world plain_fs)
     = (OkResponse 200 ''page'', (demo_world plain_fs)\<lparr>outside := [''http://evil.test?.example.com'']\<rparr>)"
proof
  show "host_fs_read demo_api (guest_with [FileRead ''/data/*'']) [(''path'', ''/data/l/passwd'')] (demo_world demo_fs)
     = (OkText ''secret'', demo_world demo_fs)"
    by code_simp
next
  have "is_ssrf_target (lookup_host demo_api []) ''http://evil.test?.example.com'' = Ok ()"
    "check_capability [NetConnect ''*.example.com:80''] (NetConnect (extract_host_from_url ''http://evil.test?.example.com'')) = Ok ()"
    by code_simp+
  then show "host_net_fetch demo_api (guest_with [NetConnect ''*.example.com:80''])
       [(''url'', ''http://evil.test?.example.com'')] (demo_world plain_fs)
     = (OkResponse 200 ''page'', (demo_world plain_fs)\<lparr>outside := [''http://evil.test?.example.com'']\<rparr>)"
    by (simp add: host_net_fetch_def demo_world_def gated_def guest_with_def on_outside_def demo_api_def)
qed

end
