(* ===== verification/Api_Gate.thy ===== *)
theory Api_Gate
  imports Str_Utils Net_Address
begin

text \<open>
  The way of a request through the HTTP server: rate limit, authentication, routing. The table of routes and the
  order of the layers are those of \<open>build_router\<close> (\<open>clawreform-api/src/server.rs\<close>), the checks those of
  \<open>middleware.rs\<close> and \<open>rate_limiter.rs\<close>. The limiter is the \<open>governor\<close> crate and so a parameter, as are the
  handlers, which are only named. The router's choice between patterns is the documented one of axum: a fixed
  segment goes before a parameter and that before a wildcard, and \<open>get\<close> serves \<open>HEAD\<close> as well. Cross-origin
  preflight requests end in an outer layer and are left out.
\<close>

section \<open>Requests\<close>

datatype http_verb = GET | HEAD | POST | PUT | DELETE | PATCH | OPTIONS | OtherVerb string

text \<open>\<open>authorization\<close> is the header when it is visible ASCII, \<open>peer\<close> the address of \<open>ConnectInfo\<close>.\<close>

record request =
  verb :: http_verb
  req_path :: string
  query :: "string option"
  authorization :: "string option"
  peer :: "ip_addr option"

datatype response =
    Handled string
  | TooManyRequests
  | ForbiddenRemote
  | InvalidKey
  | MissingKey
  | NoRoute
  | MethodNotAllowed

section \<open>The rate limit\<close>

definition operation_cost :: "http_verb \<Rightarrow> string \<Rightarrow> nat" where
  "operation_cost m p =
     (if p = ''/api/health'' then 1
      else if m = GET \<and> p = ''/api/status'' then 1
      else if m = GET \<and> p = ''/api/version'' then 1
      else if m = GET \<and> p = ''/api/tools'' then 1
      else if m = GET \<and> p = ''/api/agents'' then 2
      else if m = GET \<and> p = ''/api/skills'' then 2
      else if m = GET \<and> p = ''/api/peers'' then 2
      else if m = GET \<and> p = ''/api/config'' then 2
      else if m = GET \<and> p = ''/api/usage'' then 3
      else if m = GET \<and> starts_with p ''/api/audit'' then 5
      else if m = GET \<and> starts_with p ''/api/marketplace'' then 10
      else if m = POST \<and> p = ''/api/agents'' then 50
      else if m = POST \<and> contains_str p ''/message'' then 30
      else if m = POST \<and> contains_str p ''/run'' then 100
      else if m = POST \<and> p = ''/api/skills/install'' then 50
      else if m = POST \<and> p = ''/api/skills/uninstall'' then 10
      else if m = POST \<and> p = ''/api/migrate'' then 100
      else if m = PUT \<and> contains_str p ''/update'' then 10
      else 5)"

text \<open>\<open>check_key_n\<close>: whether so many tokens are left for the address now, and the limiter after it.\<close>

type_synonym 'l limiter = "ip_addr \<Rightarrow> nat \<Rightarrow> 'l \<Rightarrow> bool \<times> 'l"

definition client_ip :: "request \<Rightarrow> ip_addr" where
  "client_ip r = (case peer r of Some ip \<Rightarrow> ip | None \<Rightarrow> V4 127 0 0 1)"

definition gcra_rate_limit :: "'l limiter \<Rightarrow> request \<Rightarrow> 'l \<Rightarrow> response \<Rightarrow> response \<times> 'l" where
  "gcra_rate_limit check_key_n r l inner =
     (case check_key_n (client_ip r) (operation_cost (verb r) (req_path r)) l of
        (False, l1) \<Rightarrow> (TooManyRequests, l1)
      | (True, l1) \<Rightarrow> (inner, l1))"

section \<open>Authentication\<close>

definition is_loopback_request :: "request \<Rightarrow> bool" where
  "is_loopback_request r = (case peer r of Some ip \<Rightarrow> is_loopback ip | None \<Rightarrow> False)"

definition public_paths :: "string list" where
  "public_paths =
     [''/'', ''/api/health'', ''/api/health/detail'', ''/api/status'', ''/api/version'', ''/api/agents'',
      ''/api/profiles'', ''/api/config'', ''/api/models'', ''/api/models/aliases'', ''/api/providers'', ''/api/budget'',
      ''/api/budget/agents'', ''/api/network/status'', ''/api/a2a/agents'', ''/api/approvals'', ''/api/channels'',
      ''/api/skills'', ''/api/sessions'', ''/api/integrations'', ''/api/integrations/available'',
      ''/api/integrations/health'']"

definition is_public_dashboard_path :: "string \<Rightarrow> bool" where
  "is_public_dashboard_path p \<longleftrightarrow>
     p \<in> set public_paths \<or> starts_with p ''/api/uploads/'' \<or> starts_with p ''/api/budget/agents/''
     \<or> starts_with p ''/api/cron/''"

definition is_local_obsidian_bootstrap_request :: "request \<Rightarrow> bool" where
  "is_local_obsidian_bootstrap_request r \<longleftrightarrow>
     is_loopback_request r
     \<and> (verb r = POST \<and> req_path r = ''/api/agents''
        \<or> (case strip_prefix ''/api/agents/'' (req_path r) of
             None \<Rightarrow> False
           | Some sfx \<Rightarrow>
               (case str_find (CHR ''/'') sfx of
                  None \<Rightarrow> False
                | Some i \<Rightarrow>
                    (let rest = drop (i + 1) sfx
                     in verb r = GET \<and> rest = ''files''
                        \<or> (verb r = GET \<or> verb r = PUT) \<and> starts_with rest ''files/''))))"

definition bearer_token :: "request \<Rightarrow> string option" where
  "bearer_token r = (case authorization r of None \<Rightarrow> None | Some v \<Rightarrow> strip_prefix ''Bearer '' v)"

fun token_pair :: "string list \<Rightarrow> string option" where
  "token_pair [] = None"
| "token_pair (pair # rest) =
     (case strip_prefix ''token='' pair of Some t \<Rightarrow> Some t | None \<Rightarrow> token_pair rest)"

definition query_token :: "request \<Rightarrow> string option" where
  "query_token r = (case query r of None \<Rightarrow> None | Some q \<Rightarrow> token_pair (split_on (CHR ''&'') q))"

text \<open>The comparison takes the same time for all tokens of one length; its result is equality.\<close>

definition key_matches :: "string \<Rightarrow> string \<Rightarrow> bool" where
  "key_matches api_key token \<longleftrightarrow> length token = length api_key \<and> token = api_key"

definition auth :: "string \<Rightarrow> request \<Rightarrow> response \<Rightarrow> response" where
  "auth api_key r inner =
     (if api_key = [] then (if \<not> is_loopback_request r then ForbiddenRemote else inner)
      else if is_public_dashboard_path (req_path r) \<or> is_local_obsidian_bootstrap_request r then inner
      else let header_auth = map_option (key_matches api_key) (bearer_token r);
               query_auth = map_option (key_matches api_key) (query_token r)
           in if header_auth = Some True \<or> query_auth = Some True then inner
              else if header_auth \<noteq> None \<or> query_auth \<noteq> None then InvalidKey
              else MissingKey)"

section \<open>Routes\<close>

datatype segment = Fixed string | Param string | Wildcard string

record route =
  pattern :: "segment list"
  handlers :: "(http_verb \<times> string) list"

definition segment_of :: "string \<Rightarrow> segment" where
  "segment_of s =
     (if starts_with s ''{*'' then Wildcard s else if starts_with s ''{'' then Param s else Fixed s)"

definition segments :: "string \<Rightarrow> string list" where
  "segments p = split_on (CHR ''/'') (tl p)"

definition route :: "string \<Rightarrow> (http_verb \<times> string) list \<Rightarrow> route" where
  "route p hs = \<lparr>pattern = map segment_of (segments p), handlers = hs\<rparr>"

text \<open>The dashboard, the health checks and the agents.\<close>

definition agent_routes :: "route list" where
  "agent_routes =
     [route ''/'' [(GET, ''webchat::webchat_page'')],
      route ''/logo.png'' [(GET, ''webchat::logo_png'')],
      route ''/favicon.ico'' [(GET, ''webchat::favicon_ico'')],
      route ''/branding/{*path}'' [(GET, ''webchat::branding_asset'')],
      route ''/api/metrics'' [(GET, ''prometheus_metrics'')],
      route ''/api/health'' [(GET, ''health'')],
      route ''/api/health/detail'' [(GET, ''health_detail'')],
      route ''/api/status'' [(GET, ''status'')],
      route ''/api/version'' [(GET, ''version'')],
      route ''/api/agents'' [(GET, ''list_agents''), (POST, ''spawn_agent'')],
      route ''/api/agents/{id}'' [(GET, ''get_agent''), (DELETE, ''kill_agent'')],
      route ''/api/agents/{id}/mode'' [(PUT, ''set_agent_mode'')],
      route ''/api/profiles'' [(GET, ''list_profiles'')],
      route ''/api/agents/{id}/message'' [(POST, ''send_message'')],
      route ''/api/agents/{id}/message/stream'' [(POST, ''send_message_stream'')],
      route ''/api/agents/{id}/session'' [(GET, ''get_agent_session'')],
      route ''/api/agents/{id}/sessions'' [(GET, ''list_agent_sessions''), (POST, ''create_agent_session'')],
      route ''/api/agents/{id}/sessions/{session_id}/switch'' [(POST, ''switch_agent_session'')],
      route ''/api/agents/{id}/session/reset'' [(POST, ''reset_session'')],
      route ''/api/agents/{id}/session/compact'' [(POST, ''compact_session'')],
      route ''/api/agents/{id}/stop'' [(POST, ''stop_agent'')],
      route ''/api/agents/{id}/model'' [(PUT, ''set_model'')],
      route ''/api/agents/{id}/skills'' [(GET, ''get_agent_skills''), (PUT, ''set_agent_skills'')],
      route ''/api/agents/{id}/mcp_servers'' [(GET, ''get_agent_mcp_servers''), (PUT, ''set_agent_mcp_servers'')],
      route ''/api/agents/{id}/identity'' [(PATCH, ''update_agent_identity'')],
      route ''/api/agents/{id}/config'' [(PATCH, ''patch_agent_config'')],
      route ''/api/agents/{id}/clone'' [(POST, ''clone_agent'')],
      route ''/api/agents/{id}/files'' [(GET, ''list_agent_files'')],
      route ''/api/agents/{id}/files/{filename}'' [(GET, ''get_agent_file''), (PUT, ''set_agent_file'')],
      route ''/api/agents/{id}/deliveries'' [(GET, ''get_agent_deliveries'')],
      route ''/api/agents/{id}/upload'' [(POST, ''upload_file'')],
      route ''/api/agents/{id}/ws'' [(GET, ''ws::agent_ws'')],
      route ''/api/uploads/{file_id}'' [(GET, ''serve_upload'')]]"

text \<open>Channels, templates, memory, triggers, schedules, workflows, skills, imports and the market.\<close>

definition channel_routes :: "route list" where
  "channel_routes =
     [route ''/api/channels'' [(GET, ''list_channels'')],
      route ''/api/channels/{name}/configure'' [(POST, ''configure_channel''), (DELETE, ''remove_channel'')],
      route ''/api/channels/{name}/test'' [(POST, ''test_channel'')],
      route ''/api/channels/reload'' [(POST, ''reload_channels'')],
      route ''/api/channels/whatsapp/qr/start'' [(POST, ''whatsapp_qr_start'')],
      route ''/api/channels/whatsapp/qr/status'' [(GET, ''whatsapp_qr_status'')],
      route ''/api/templates'' [(GET, ''list_templates'')],
      route ''/api/templates/{name}'' [(GET, ''get_template'')],
      route ''/api/memory/agents/{id}/kv'' [(GET, ''get_agent_kv'')],
      route ''/api/memory/agents/{id}/kv/{key}'' [(GET, ''get_agent_kv_key''), (PUT, ''set_agent_kv_key''), (DELETE, ''delete_agent_kv_key'')],
      route ''/api/triggers'' [(GET, ''list_triggers''), (POST, ''create_trigger'')],
      route ''/api/triggers/{id}'' [(DELETE, ''delete_trigger''), (PUT, ''update_trigger'')],
      route ''/api/schedules'' [(GET, ''list_schedules''), (POST, ''create_schedule'')],
      route ''/api/schedules/{id}'' [(DELETE, ''delete_schedule''), (PUT, ''update_schedule'')],
      route ''/api/schedules/{id}/run'' [(POST, ''run_schedule'')],
      route ''/api/workflows'' [(GET, ''list_workflows''), (POST, ''create_workflow'')],
      route ''/api/workflows/{id}/run'' [(POST, ''run_workflow'')],
      route ''/api/workflows/{id}/runs'' [(GET, ''list_workflow_runs'')],
      route ''/api/skills'' [(GET, ''list_skills'')],
      route ''/api/skills/install'' [(POST, ''install_skill'')],
      route ''/api/skills/uninstall'' [(POST, ''uninstall_skill'')],
      route ''/api/import/scan'' [(POST, ''auto_import::scan_directory'')],
      route ''/api/import'' [(POST, ''auto_import::import_items'')],
      route ''/api/import/suggestions'' [(GET, ''auto_import::get_suggestions'')],
      route ''/api/marketplace/search'' [(GET, ''marketplace_search'')],
      route ''/api/clawhub/search'' [(GET, ''clawhub_search'')],
      route ''/api/clawhub/browse'' [(GET, ''clawhub_browse'')],
      route ''/api/clawhub/skill/{slug}'' [(GET, ''clawhub_skill_detail'')],
      route ''/api/clawhub/install'' [(POST, ''clawhub_install'')]]"

text \<open>Hands, MCP, audit, network, tools, configuration, approvals, usage, budget and sessions.\<close>

definition hand_routes :: "route list" where
  "hand_routes =
     [route ''/api/hands'' [(GET, ''list_hands'')],
      route ''/api/hands/active'' [(GET, ''list_active_hands'')],
      route ''/api/hands/{hand_id}'' [(GET, ''get_hand'')],
      route ''/api/hands/{hand_id}/activate'' [(POST, ''activate_hand'')],
      route ''/api/hands/{hand_id}/check-deps'' [(POST, ''check_hand_deps'')],
      route ''/api/hands/{hand_id}/install-deps'' [(POST, ''install_hand_deps'')],
      route ''/api/hands/instances/{id}/pause'' [(POST, ''pause_hand'')],
      route ''/api/hands/instances/{id}/resume'' [(POST, ''resume_hand'')],
      route ''/api/hands/instances/{id}'' [(DELETE, ''deactivate_hand'')],
      route ''/api/hands/instances/{id}/stats'' [(GET, ''hand_stats'')],
      route ''/api/hands/instances/{id}/browser'' [(GET, ''hand_instance_browser'')],
      route ''/api/mcp/servers'' [(GET, ''list_mcp_servers'')],
      route ''/api/audit/recent'' [(GET, ''audit_recent'')],
      route ''/api/audit/verify'' [(GET, ''audit_verify'')],
      route ''/api/logs/stream'' [(GET, ''logs_stream'')],
      route ''/api/peers'' [(GET, ''list_peers'')],
      route ''/api/network/status'' [(GET, ''network_status'')],
      route ''/api/tools'' [(GET, ''list_tools'')],
      route ''/api/config'' [(GET, ''get_config'')],
      route ''/api/config/schema'' [(GET, ''config_schema'')],
      route ''/api/config/set'' [(POST, ''config_set'')],
      route ''/api/approvals'' [(GET, ''list_approvals''), (POST, ''create_approval'')],
      route ''/api/approvals/{id}/approve'' [(POST, ''approve_request'')],
      route ''/api/approvals/{id}/reject'' [(POST, ''reject_request'')],
      route ''/api/usage'' [(GET, ''usage_stats'')],
      route ''/api/usage/summary'' [(GET, ''usage_summary'')],
      route ''/api/usage/by-model'' [(GET, ''usage_by_model'')],
      route ''/api/usage/daily'' [(GET, ''usage_daily'')],
      route ''/api/budget'' [(GET, ''budget_status''), (PUT, ''update_budget'')],
      route ''/api/budget/agents'' [(GET, ''agent_budget_ranking'')],
      route ''/api/budget/agents/{id}'' [(GET, ''agent_budget_status'')],
      route ''/api/sessions'' [(GET, ''list_sessions'')],
      route ''/api/sessions/{id}'' [(DELETE, ''delete_session'')],
      route ''/api/sessions/{id}/label'' [(PUT, ''set_session_label'')],
      route ''/api/agents/{id}/sessions/by-label/{label}'' [(GET, ''find_session_by_label'')],
      route ''/api/agents/{id}/update'' [(PUT, ''update_agent'')]]"

text \<open>Models, providers, migration, cron jobs, hooks, the company, shutdown, commands and bindings.\<close>

definition model_routes :: "route list" where
  "model_routes =
     [route ''/api/security'' [(GET, ''security_status'')],
      route ''/api/models'' [(GET, ''list_models'')],
      route ''/api/models/aliases'' [(GET, ''list_aliases'')],
      route ''/api/models/{*id}'' [(GET, ''get_model'')],
      route ''/api/providers'' [(GET, ''list_providers'')],
      route ''/api/providers/{name}/key'' [(POST, ''set_provider_key''), (DELETE, ''delete_provider_key'')],
      route ''/api/providers/{name}/test'' [(POST, ''test_provider'')],
      route ''/api/providers/{name}/url'' [(PUT, ''set_provider_url'')],
      route ''/api/skills/create'' [(POST, ''create_skill'')],
      route ''/api/migrate/detect'' [(GET, ''migrate_detect'')],
      route ''/api/migrate/scan'' [(POST, ''migrate_scan'')],
      route ''/api/migrate'' [(POST, ''run_migrate'')],
      route ''/api/cron/jobs'' [(GET, ''list_cron_jobs''), (POST, ''create_cron_job'')],
      route ''/api/cron/jobs/{id}'' [(DELETE, ''delete_cron_job'')],
      route ''/api/cron/jobs/{id}/enable'' [(PUT, ''toggle_cron_job'')],
      route ''/api/cron/jobs/{id}/status'' [(GET, ''cron_job_status'')],
      route ''/hooks/wake'' [(POST, ''webhook_wake'')],
      route ''/hooks/agent'' [(POST, ''webhook_agent'')],
      route ''/api/company/overview'' [(GET, ''company_overview'')],
      route ''/api/company/goals'' [(GET, ''list_company_goals''), (POST, ''create_company_goal'')],
      route ''/api/company/goals/{id}'' [(PUT, ''update_company_goal''), (DELETE, ''delete_company_goal'')],
      route ''/api/company/issues'' [(GET, ''list_company_issues''), (POST, ''create_company_issue'')],
      route ''/api/company/issues/{id}'' [(PUT, ''update_company_issue''), (DELETE, ''delete_company_issue'')],
      route ''/api/company/issues/{id}/comments'' [(POST, ''add_company_issue_comment'')],
      route ''/api/company/org'' [(GET, ''company_org'')],
      route ''/api/shutdown'' [(POST, ''shutdown'')],
      route ''/api/commands'' [(GET, ''list_commands'')],
      route ''/api/config/reload'' [(POST, ''config_reload'')],
      route ''/api/bindings'' [(GET, ''list_bindings''), (POST, ''add_binding'')],
      route ''/api/bindings/{index}'' [(DELETE, ''remove_binding'')]]"

text \<open>The agent protocols, integrations, pairing, MCP, OpenClaw and the interface in OpenAI form.\<close>

definition integration_routes :: "route list" where
  "integration_routes =
     [route ''/.well-known/agent.json'' [(GET, ''a2a_agent_card'')],
      route ''/a2a/agents'' [(GET, ''a2a_list_agents'')],
      route ''/a2a/tasks/send'' [(POST, ''a2a_send_task'')],
      route ''/a2a/tasks/{id}'' [(GET, ''a2a_get_task'')],
      route ''/a2a/tasks/{id}/cancel'' [(POST, ''a2a_cancel_task'')],
      route ''/api/a2a/agents'' [(GET, ''a2a_list_external_agents'')],
      route ''/api/a2a/discover'' [(POST, ''a2a_discover_external'')],
      route ''/api/a2a/send'' [(POST, ''a2a_send_external'')],
      route ''/api/a2a/tasks/{id}/status'' [(GET, ''a2a_external_task_status'')],
      route ''/api/integrations'' [(GET, ''list_integrations'')],
      route ''/api/integrations/available'' [(GET, ''list_available_integrations'')],
      route ''/api/integrations/add'' [(POST, ''add_integration'')],
      route ''/api/integrations/{id}'' [(DELETE, ''remove_integration'')],
      route ''/api/integrations/{id}/reconnect'' [(POST, ''reconnect_integration'')],
      route ''/api/integrations/health'' [(GET, ''integrations_health'')],
      route ''/api/integrations/reload'' [(POST, ''reload_integrations'')],
      route ''/api/pairing/request'' [(POST, ''pairing_request'')],
      route ''/api/pairing/complete'' [(POST, ''pairing_complete'')],
      route ''/api/pairing/devices'' [(GET, ''pairing_devices'')],
      route ''/api/pairing/devices/{id}'' [(DELETE, ''pairing_remove_device'')],
      route ''/api/pairing/notify'' [(POST, ''pairing_notify'')],
      route ''/mcp'' [(POST, ''mcp_http'')],
      route ''/api/openclaw/status'' [(GET, ''openclaw::get_status'')],
      route ''/api/openclaw/agents'' [(GET, ''openclaw::list_registered_agents''), (POST, ''openclaw::register_agent'')],
      route ''/api/openclaw/agents/{id}'' [(GET, ''openclaw::get_registered_agent'')],
      route ''/api/openclaw/dispatch'' [(POST, ''openclaw::dispatch_task'')],
      route ''/api/openclaw/routes'' [(GET, ''openclaw::get_routes'')],
      route ''/api/openclaw/schedules'' [(GET, ''openclaw::list_schedules''), (POST, ''openclaw::create_schedule'')],
      route ''/api/openclaw/schedules/{id}/trigger'' [(POST, ''openclaw::trigger_schedule'')],
      route ''/api/openclaw/evaluate'' [(POST, ''openclaw::evaluate_artifact'')],
      route ''/api/openclaw/repair'' [(POST, ''openclaw::request_repair'')],
      route ''/api/openclaw/repair/{id}'' [(GET, ''openclaw::get_repair_status'')],
      route ''/api/openclaw/repair/{id}/execute'' [(POST, ''openclaw::execute_repair'')],
      route ''/api/openclaw/strategies'' [(GET, ''openclaw::get_repair_strategies'')],
      route ''/v1/chat/completions'' [(POST, ''openai_compat::chat_completions'')],
      route ''/v1/models'' [(GET, ''openai_compat::list_models'')]]"

definition all_routes :: "route list" where
  "all_routes = agent_routes @ channel_routes @ hand_routes @ model_routes @ integration_routes"

fun matches :: "segment list \<Rightarrow> string list \<Rightarrow> bool" where
  "matches [] [] \<longleftrightarrow> True"
| "matches [Wildcard _] (x # xs) \<longleftrightarrow> x \<noteq> [] \<or> xs \<noteq> []"
| "matches (Fixed s # ps) (x # xs) \<longleftrightarrow> s = x \<and> matches ps xs"
| "matches (Param _ # ps) (x # xs) \<longleftrightarrow> x \<noteq> [] \<and> matches ps xs"
| "matches _ _ \<longleftrightarrow> False"

text \<open>Whether the first pattern is more specific, at the first segment where they differ in kind.\<close>

fun goes_before :: "segment list \<Rightarrow> segment list \<Rightarrow> bool" where
  "goes_before (Fixed _ # ps) (Fixed _ # qs) = goes_before ps qs"
| "goes_before (Param _ # ps) (Param _ # qs) = goes_before ps qs"
| "goes_before (Fixed _ # ps) _ = True"
| "goes_before (Param _ # ps) (Wildcard _ # qs) = True"
| "goes_before _ _ = False"

fun best_route :: "route list \<Rightarrow> route option" where
  "best_route [] = None"
| "best_route (r # rs) =
     (case best_route rs of
        None \<Rightarrow> Some r
      | Some b \<Rightarrow> if goes_before (pattern b) (pattern r) then Some b else Some r)"

definition find_route :: "string \<Rightarrow> route option" where
  "find_route p = best_route (filter (\<lambda>r. matches (pattern r) (segments p)) all_routes)"

definition handler_for :: "http_verb \<Rightarrow> route \<Rightarrow> string option" where
  "handler_for v r =
     (case map_of (handlers r) v of
        Some h \<Rightarrow> Some h
      | None \<Rightarrow> if v = HEAD then map_of (handlers r) GET else None)"

definition routed :: "request \<Rightarrow> response" where
  "routed r =
     (case find_route (req_path r) of
        None \<Rightarrow> NoRoute
      | Some rt \<Rightarrow> (case handler_for (verb r) rt of None \<Rightarrow> MethodNotAllowed | Some h \<Rightarrow> Handled h))"

text \<open>The layers of \<open>build_router\<close>: the rate limit is outside the authentication, that outside the routes.\<close>

definition serve :: "'l limiter \<Rightarrow> string \<Rightarrow> request \<Rightarrow> 'l \<Rightarrow> response \<times> 'l" where
  "serve check_key_n api_key r l = gcra_rate_limit check_key_n r l (auth api_key r (routed r))"

section \<open>Protection\<close>

text \<open>A request that shows the key.\<close>

definition has_key :: "string \<Rightarrow> request \<Rightarrow> bool" where
  "has_key api_key r \<longleftrightarrow> bearer_token r = Some api_key \<or> query_token r = Some api_key"

lemma handled_cases:
  assumes "serve check_key_n api_key r l = (Handled h, l')"
  shows "routed r = Handled h
    \<and> (if api_key = [] then is_loopback_request r
       else has_key api_key r \<or> is_public_dashboard_path (req_path r) \<or> is_local_obsidian_bootstrap_request r)"
  using assms
  by (auto simp: serve_def gcra_rate_limit_def auth_def has_key_def key_matches_def Let_def
      split: prod.splits bool.splits if_splits)

text \<open>The handlers other than \<open>GET\<close> ones that a request without any credential reaches from anywhere.\<close>

definition open_mutations :: "(http_verb \<times> string) list" where
  "open_mutations =
     [(POST, ''spawn_agent''), (POST, ''create_cron_job''), (DELETE, ''delete_cron_job''), (PUT, ''toggle_cron_job''),
      (PUT, ''update_budget''), (POST, ''create_approval'')]"

definition only_open :: "route \<Rightarrow> bool" where
  "only_open r = list_all (\<lambda>vh. fst vh = GET \<or> vh \<in> set open_mutations) (handlers r)"

text \<open>Whether a pattern matches some path that begins with the given segments.\<close>

fun may_match :: "string list \<Rightarrow> segment list \<Rightarrow> bool" where
  "may_match [] ps \<longleftrightarrow> True"
| "may_match (x # xs) (Fixed s # ps) \<longleftrightarrow> s = x \<and> may_match xs ps"
| "may_match (x # xs) (Param _ # ps) \<longleftrightarrow> may_match xs ps"
| "may_match (x # xs) (Wildcard _ # ps) \<longleftrightarrow> True"
| "may_match (x # xs) [] \<longleftrightarrow> False"

lemma matches_may: "matches ps (pre @ xs) \<Longrightarrow> may_match pre ps"
proof (induction pre ps rule: may_match.induct)
  case (2 x xs s ps)
  then show ?case by (cases ps) auto
next
  case (3 x xs n ps)
  then show ?case by (cases ps) auto
qed auto

text \<open>Two of the public paths also match the pattern of a route that removes an integration.\<close>

definition shadowed_paths :: "string list" where
  "shadowed_paths = [''/api/integrations/available'', ''/api/integrations/health'']"

definition public_segments :: "string list list" where
  "public_segments = map segments (filter (\<lambda>p. p \<notin> set shadowed_paths) public_paths)"

definition public_prefixes :: "string list list" where
  "public_prefixes = [[''api'', ''uploads''], [''api'', ''budget'', ''agents''], [''api'', ''cron'']]"

definition maybe_public :: "segment list \<Rightarrow> bool" where
  "maybe_public ps \<longleftrightarrow> list_ex (matches ps) public_segments \<or> list_ex (\<lambda>pre. may_match pre ps) public_prefixes"

lemma public_routes_only_open: "list_all (\<lambda>r. only_open r \<or> \<not> maybe_public (pattern r)) all_routes"
  by code_simp

text \<open>The routes that match one of a few paths, out of which the router chooses.\<close>

definition open_paths :: "string list" where
  "open_paths = [''/api/agents'', ''/api/cron/jobs'', ''/api/cron/jobs/7'', ''/api/cron/jobs/7/enable'', ''/api/budget'', ''/api/approvals'']"

definition some_open :: "segment list \<Rightarrow> bool" where
  "some_open ps \<longleftrightarrow> list_ex (matches ps) (map segments (open_paths @ shadowed_paths))"

definition candidates :: "route list" where
  "candidates =
     [route ''/api/agents'' [(GET, ''list_agents''), (POST, ''spawn_agent'')],
      route ''/api/approvals'' [(GET, ''list_approvals''), (POST, ''create_approval'')],
      route ''/api/budget'' [(GET, ''budget_status''), (PUT, ''update_budget'')],
      route ''/api/cron/jobs'' [(GET, ''list_cron_jobs''), (POST, ''create_cron_job'')],
      route ''/api/cron/jobs/{id}'' [(DELETE, ''delete_cron_job'')],
      route ''/api/cron/jobs/{id}/enable'' [(PUT, ''toggle_cron_job'')],
      route ''/api/integrations/available'' [(GET, ''list_available_integrations'')],
      route ''/api/integrations/{id}'' [(DELETE, ''remove_integration'')],
      route ''/api/integrations/health'' [(GET, ''integrations_health'')]]"

lemma open_candidates: "filter (\<lambda>r. some_open (pattern r)) all_routes = candidates"
  by code_simp

lemma find_candidate:
  assumes "p \<in> set (open_paths @ shadowed_paths)"
  shows "find_route p = best_route (filter (\<lambda>r. matches (pattern r) (segments p)) candidates)"
proof -
  have "some_open (pattern r)" if "matches (pattern r) (segments p)" for r
    using assms that by (auto simp: some_open_def list_ex_iff)
  then have "filter (\<lambda>r. matches (pattern r) (segments p)) all_routes
      = filter (\<lambda>r. matches (pattern r) (segments p)) (filter (\<lambda>r. some_open (pattern r)) all_routes)"
    by (auto intro: filter_cong)
  then show ?thesis by (simp only: find_route_def open_candidates)
qed

lemma candidates_found:
  "map (\<lambda>p. best_route (filter (\<lambda>r. matches (pattern r) (segments p)) candidates)) (open_paths @ shadowed_paths) =
     [Some (route ''/api/agents'' [(GET, ''list_agents''), (POST, ''spawn_agent'')]),
      Some (route ''/api/cron/jobs'' [(GET, ''list_cron_jobs''), (POST, ''create_cron_job'')]),
      Some (route ''/api/cron/jobs/{id}'' [(DELETE, ''delete_cron_job'')]),
      Some (route ''/api/cron/jobs/{id}/enable'' [(PUT, ''toggle_cron_job'')]),
      Some (route ''/api/budget'' [(GET, ''budget_status''), (PUT, ''update_budget'')]),
      Some (route ''/api/approvals'' [(GET, ''list_approvals''), (POST, ''create_approval'')]),
      Some (route ''/api/integrations/available'' [(GET, ''list_available_integrations'')]),
      Some (route ''/api/integrations/health'' [(GET, ''integrations_health'')])]"
  by code_simp

lemma routes_found:
  "find_route ''/api/agents'' = Some (route ''/api/agents'' [(GET, ''list_agents''), (POST, ''spawn_agent'')])"
  "find_route ''/api/cron/jobs'' = Some (route ''/api/cron/jobs'' [(GET, ''list_cron_jobs''), (POST, ''create_cron_job'')])"
  "find_route ''/api/cron/jobs/7'' = Some (route ''/api/cron/jobs/{id}'' [(DELETE, ''delete_cron_job'')])"
  "find_route ''/api/cron/jobs/7/enable'' = Some (route ''/api/cron/jobs/{id}/enable'' [(PUT, ''toggle_cron_job'')])"
  "find_route ''/api/budget'' = Some (route ''/api/budget'' [(GET, ''budget_status''), (PUT, ''update_budget'')])"
  "find_route ''/api/approvals'' = Some (route ''/api/approvals'' [(GET, ''list_approvals''), (POST, ''create_approval'')])"
  "find_route ''/api/integrations/available''
     = Some (route ''/api/integrations/available'' [(GET, ''list_available_integrations'')])"
  "find_route ''/api/integrations/health'' = Some (route ''/api/integrations/health'' [(GET, ''integrations_health'')])"
  using candidates_found by (simp_all only: find_candidate open_paths_def shadowed_paths_def append.simps list.map list.inject
      list.set insert_iff simp_thms)

lemma best_route_member: "best_route rs = Some r \<Longrightarrow> r \<in> set rs"
  by (induction rs arbitrary: r) (auto split: option.splits if_splits)

lemma handler_only_open:
  "only_open r \<Longrightarrow> handler_for v r = Some h \<Longrightarrow> v = GET \<or> v = HEAD \<or> (v, h) \<in> set open_mutations"
  by (auto simp: handler_for_def only_open_def list_all_iff split: option.splits if_splits dest!: map_of_SomeD)

lemma segments_prefix:
  "segments (''/api/uploads/'' @ x) = [''api'', ''uploads''] @ split_on (CHR ''/'') x"
  "segments (''/api/budget/agents/'' @ x) = [''api'', ''budget'', ''agents''] @ split_on (CHR ''/'') x"
  "segments (''/api/cron/'' @ x) = [''api'', ''cron''] @ split_on (CHR ''/'') x"
  by (simp_all add: segments_def)

lemma public_only_open:
  assumes "is_public_dashboard_path p" "find_route p = Some r"
  shows "only_open r"
proof (cases "p \<in> set shadowed_paths")
  case True
  then show ?thesis
    using assms(2) routes_found(7,8) by (auto simp: shadowed_paths_def only_open_def route_def)
next
  case False
  have r: "r \<in> set all_routes" "matches (pattern r) (segments p)"
    using best_route_member [of _ r] assms(2) by (auto simp: find_route_def dest!: best_route_member)
  have "maybe_public (pattern r)"
  proof (cases "p \<in> set public_paths")
    case True
    with False r(2) show ?thesis by (auto simp: maybe_public_def public_segments_def list_ex_iff)
  next
    case False
    then obtain pre x where "pre \<in> set public_prefixes" "segments p = pre @ x"
      using assms(1) segments_prefix
      by (fastforce simp: is_public_dashboard_path_def starts_with_def prefix_def public_prefixes_def)
    with r(2) matches_may [of "pattern r" pre x] show ?thesis by (auto simp: maybe_public_def list_ex_iff)
  qed
  then show ?thesis using public_routes_only_open r(1) by (auto simp: list_all_iff)
qed

definition reached :: "http_verb \<Rightarrow> string \<Rightarrow> bool" where
  "reached v h \<longleftrightarrow> (\<exists>p rt. is_public_dashboard_path p \<and> find_route p = Some rt \<and> handler_for v rt = Some h)"

lemma reachedI:
  "find_route p = Some rt \<Longrightarrow> is_public_dashboard_path p \<Longrightarrow> handler_for v rt = Some h \<Longrightarrow> reached v h"
  by (auto simp: reached_def)

lemma all_reached:
  "reached POST ''spawn_agent''" "reached POST ''create_cron_job''" "reached DELETE ''delete_cron_job''"
  "reached PUT ''toggle_cron_job''" "reached PUT ''update_budget''" "reached POST ''create_approval''"
  by (rule reachedI [OF routes_found(1)] reachedI [OF routes_found(2)] reachedI [OF routes_found(3)]
      reachedI [OF routes_found(4)] reachedI [OF routes_found(5)] reachedI [OF routes_found(6)];
      simp add: is_public_dashboard_path_def public_paths_def starts_with_def handler_for_def route_def; fail)+

text \<open>
  C6: What needs the key. With a key configured, a request from another machine that shows neither the key in its
  header nor in its query reaches a handler only by \<open>GET\<close> (or \<open>HEAD\<close>), or one of six handlers that change
  something: it can spawn an agent, create, delete and switch cron jobs, change the budget and file an approval. All
  six can be reached.
\<close>

theorem open_handlers_exact:
  assumes "api_key \<noteq> []" and "\<forall>ip n l. fst (check_key_n ip n l)"
  shows "{(verb r, h) | r h. fst (serve check_key_n api_key r l) = Handled h \<and> \<not> is_loopback_request r
      \<and> \<not> has_key api_key r \<and> verb r \<noteq> GET \<and> verb r \<noteq> HEAD} = set open_mutations"
proof (intro equalityI subsetI; clarify?)
  fix r h
  assume a: "fst (serve check_key_n api_key r l) = Handled h" "\<not> is_loopback_request r" "\<not> has_key api_key r"
    "verb r \<noteq> GET" "verb r \<noteq> HEAD"
  then have "routed r = Handled h" "is_public_dashboard_path (req_path r)"
    using handled_cases [of check_key_n api_key r l h] assms(1)
    by (auto simp: is_local_obsidian_bootstrap_request_def prod_eq_iff split: if_splits)
  then show "(verb r, h) \<in> set open_mutations"
    using public_only_open [of "req_path r"] handler_only_open [of _ "verb r" h] a(4,5)
    by (auto simp: routed_def split: option.splits)
next
  fix v h
  assume "(v, h) \<in> set open_mutations"
  define r where "r = (\<lambda>p. \<lparr>verb = v, req_path = p, query = None, authorization = None, peer = Some (V4 203 0 113 5)\<rparr>)"
  have far: "\<not> is_loopback_request (r p)" "\<not> has_key api_key (r p)" "verb (r p) = v" "req_path (r p) = p" for p
    using assms(1) by (simp_all add: r_def is_loopback_request_def has_key_def bearer_token_def query_token_def)
  have served: "fst (serve check_key_n api_key (r p) l) = Handled h"
    if "is_public_dashboard_path p" "find_route p = Some rt" "handler_for v rt = Some h" for p rt
    using that far assms
    by (auto simp: serve_def gcra_rate_limit_def auth_def routed_def split: prod.split bool.split) (metis fst_conv)
  have "reached v h" using \<open>(v, h) \<in> set open_mutations\<close> all_reached by (auto simp: open_mutations_def)
  then obtain p where "fst (serve check_key_n api_key (r p) l) = Handled h" using served by (auto simp: reached_def)
  moreover have "v \<noteq> GET" "v \<noteq> HEAD" using \<open>(v, h) \<in> set open_mutations\<close> by (auto simp: open_mutations_def)
  ultimately show "\<exists>r' h'. (v, h) = (verb r', h') \<and> fst (serve check_key_n api_key r' l) = Handled h'
      \<and> \<not> is_loopback_request r' \<and> \<not> has_key api_key r' \<and> verb r' \<noteq> GET \<and> verb r' \<noteq> HEAD"
    using far by (intro exI [of _ "r p"] exI [of _ h]) simp
qed

lemma open_handlers_exact_witness:
  "(POST, ''spawn_agent'') \<in> {(verb r, h) | r h. fst (serve (\<lambda>_ _ l. (True, l)) ''secret'' r ()) = Handled h
      \<and> \<not> is_loopback_request r \<and> \<not> has_key ''secret'' r \<and> verb r \<noteq> GET \<and> verb r \<noteq> HEAD}"
  using open_handlers_exact [of "''secret''" "\<lambda>_ _ l. (True, l)" "()"] by (simp add: open_mutations_def)

text \<open>Without a key in the configuration only requests from the machine itself are handled.\<close>

lemma keyless_local:
  "serve check_key_n [] r l = (Handled h, l') \<Longrightarrow> is_loopback_request r"
  using handled_cases [of check_key_n "[]"] by simp

end
