(* ===== verification/Metering.thy ===== *)
theory Metering
  imports Agent Str_Utils
begin

text \<open>
  Costs and quotas: the table of usage events (\<open>clawreform-memory/src/usage.rs\<close>) with the queries that the
  quotas use, and the engine that checks them (\<open>clawreform-kernel/src/metering.rs\<close>). The events are the rows of
  an SQLite table; a query is the filter its \<open>WHERE\<close> clause describes. SQLite compares texts byte by byte, and the
  code compares the time it stored in RFC 3339 form with the text of \<open>datetime(...)\<close>. The sum of a column, the
  arithmetic of \<open>f64\<close> and the calendar are parameters.
\<close>

section \<open>Times as texts\<close>

text \<open>Times are seconds since the epoch; \<open>date_text\<close> renders a day, \<open>month_start\<close> is the first day of its month.\<close>

record calendar =
  date_text :: "nat \<Rightarrow> string"
  month_start :: "nat \<Rightarrow> nat"

definition day_of :: "nat \<Rightarrow> nat" where
  "day_of t = t div 86400"

definition two :: "nat \<Rightarrow> string" where
  "two n = [char_of (48 + n div 10), char_of (48 + n mod 10)]"

definition clock :: "nat \<Rightarrow> string" where
  "clock t =
     (let s = t mod 86400 in two (s div 3600) @ '':'' @ two (s mod 3600 div 60) @ '':'' @ two (s mod 60))"

text \<open>\<open>Utc::now().to_rfc3339()\<close>; \<open>subsec\<close> is the fraction of the second, which chrono prints when it is not zero.\<close>

definition rfc3339 :: "calendar \<Rightarrow> nat \<Rightarrow> string \<Rightarrow> string" where
  "rfc3339 cal t subsec = date_text cal (day_of t) @ ''T'' @ clock t @ subsec @ ''+00:00''"

text \<open>\<open>datetime(...)\<close> of SQLite.\<close>

definition sql_datetime :: "calendar \<Rightarrow> nat \<Rightarrow> string" where
  "sql_datetime cal t = date_text cal (day_of t) @ '' '' @ clock t"

section \<open>The table\<close>

record usage_record =
  usage_agent :: agent_id
  usage_model :: string
  input_tokens :: nat
  output_tokens :: nat
  cost_usd :: f64
  tool_calls :: nat

record usage_row =
  stamp :: string
  usage :: usage_record

type_synonym usage_store = "usage_row list"

definition record_usage_event :: "calendar \<Rightarrow> nat \<Rightarrow> string \<Rightarrow> usage_record \<Rightarrow> usage_store \<Rightarrow> usage_store" where
  "record_usage_event cal now subsec u s = s @ [\<lparr>stamp = rfc3339 cal now subsec, usage = u\<rparr>]"

text \<open>The three bounds of the queries.\<close>

definition hour_ago :: "calendar \<Rightarrow> nat \<Rightarrow> string" where
  "hour_ago cal now = sql_datetime cal (now - 3600)"

definition day_start :: "calendar \<Rightarrow> nat \<Rightarrow> string" where
  "day_start cal now = sql_datetime cal (day_of now * 86400)"

definition month_begin :: "calendar \<Rightarrow> nat \<Rightarrow> string" where
  "month_begin cal now = sql_datetime cal (month_start cal (day_of now) * 86400)"

definition rows_after :: "string \<Rightarrow> usage_store \<Rightarrow> usage_store" where
  "rows_after bound s = filter (\<lambda>r. text_less bound (stamp r)) s"

definition rows_of :: "agent_id \<Rightarrow> usage_store \<Rightarrow> usage_store" where
  "rows_of a s = filter (\<lambda>r. usage_agent (usage r) = a) s"

definition total_cost :: "(f64 list \<Rightarrow> f64) \<Rightarrow> usage_store \<Rightarrow> f64" where
  "total_cost sql_sum s = sql_sum (map (\<lambda>r. cost_usd (usage r)) s)"

record ledger =
  cal :: calendar
  sum_of :: "f64 list \<Rightarrow> f64"
  rows :: usage_store

definition query_hourly :: "ledger \<Rightarrow> nat \<Rightarrow> agent_id \<Rightarrow> f64" where
  "query_hourly l now a = total_cost (sum_of l) (rows_after (hour_ago (cal l) now) (rows_of a (rows l)))"

definition query_daily :: "ledger \<Rightarrow> nat \<Rightarrow> agent_id \<Rightarrow> f64" where
  "query_daily l now a = total_cost (sum_of l) (rows_after (day_start (cal l) now) (rows_of a (rows l)))"

definition query_monthly :: "ledger \<Rightarrow> nat \<Rightarrow> agent_id \<Rightarrow> f64" where
  "query_monthly l now a = total_cost (sum_of l) (rows_after (month_begin (cal l) now) (rows_of a (rows l)))"

definition query_global_hourly :: "ledger \<Rightarrow> nat \<Rightarrow> f64" where
  "query_global_hourly l now = total_cost (sum_of l) (rows_after (hour_ago (cal l) now) (rows l))"

definition query_today_cost :: "ledger \<Rightarrow> nat \<Rightarrow> f64" where
  "query_today_cost l now = total_cost (sum_of l) (rows_after (day_start (cal l) now) (rows l))"

definition query_global_monthly :: "ledger \<Rightarrow> nat \<Rightarrow> f64" where
  "query_global_monthly l now = total_cost (sum_of l) (rows_after (month_begin (cal l) now) (rows l))"

definition cleanup_old :: "nat \<Rightarrow> nat \<Rightarrow> ledger \<Rightarrow> nat \<times> ledger" where
  "cleanup_old now days l =
     (let old = (\<lambda>r. text_less (stamp r) (sql_datetime (cal l) (now - days * 86400)))
      in (length (filter old (rows l)), l\<lparr>rows := filter (\<lambda>r. \<not> old r) (rows l)\<rparr>))"

section \<open>Quotas\<close>

definition f64_positive :: "f64 \<Rightarrow> bool" where
  "f64_positive x \<longleftrightarrow> f64_ge x (Fin 0) \<and> x \<noteq> Fin 0"

datatype quota_error =
    HourlyCost agent_id f64 f64
  | DailyCost agent_id f64 f64
  | MonthlyCost agent_id f64 f64
  | GlobalHourly f64 f64
  | GlobalDaily f64 f64
  | GlobalMonthly f64 f64

definition over :: "f64 \<Rightarrow> f64 \<Rightarrow> bool" where
  "over cost limit \<longleftrightarrow> f64_positive limit \<and> f64_ge cost limit"

definition check_cost_quota :: "ledger \<Rightarrow> nat \<Rightarrow> agent_id \<Rightarrow> resource_quota \<Rightarrow> (unit, quota_error) result" where
  "check_cost_quota l now a q =
     (let hourly = query_hourly l now a; daily = query_daily l now a; monthly = query_monthly l now a
      in if over hourly (max_cost_per_hour_usd q) then Err (HourlyCost a hourly (max_cost_per_hour_usd q))
         else if over daily (max_cost_per_day_usd q) then Err (DailyCost a daily (max_cost_per_day_usd q))
         else if over monthly (max_cost_per_month_usd q) then Err (MonthlyCost a monthly (max_cost_per_month_usd q))
         else Ok ())"

record budget_config =
  max_hourly_usd :: f64
  max_daily_usd :: f64
  max_monthly_usd :: f64
  alert_threshold :: f64

definition default_budget :: budget_config where
  "default_budget = \<lparr>max_hourly_usd = Fin 0, max_daily_usd = Fin 0, max_monthly_usd = Fin 0, alert_threshold = Fin (8 / 10)\<rparr>"

definition check_global_budget :: "ledger \<Rightarrow> nat \<Rightarrow> budget_config \<Rightarrow> (unit, quota_error) result" where
  "check_global_budget l now b =
     (let hourly = query_global_hourly l now; daily = query_today_cost l now; monthly = query_global_monthly l now
      in if over hourly (max_hourly_usd b) then Err (GlobalHourly hourly (max_hourly_usd b))
         else if over daily (max_daily_usd b) then Err (GlobalDaily daily (max_daily_usd b))
         else if over monthly (max_monthly_usd b) then Err (GlobalMonthly monthly (max_monthly_usd b))
         else Ok ())"

record budget_status =
  hourly_spend :: f64
  hourly_limit :: f64
  hourly_pct :: f64
  daily_spend :: f64
  daily_limit :: f64
  daily_pct :: f64
  monthly_spend :: f64
  monthly_limit :: f64
  monthly_pct :: f64
  status_alert :: f64

definition pct :: "(f64 \<Rightarrow> f64 \<Rightarrow> f64) \<Rightarrow> f64 \<Rightarrow> f64 \<Rightarrow> f64" where
  "pct quot cost limit = (if f64_positive limit then quot cost limit else Fin 0)"

definition budget_status_of :: "(f64 \<Rightarrow> f64 \<Rightarrow> f64) \<Rightarrow> ledger \<Rightarrow> nat \<Rightarrow> budget_config \<Rightarrow> budget_status" where
  "budget_status_of quot l now b =
     (let hourly = query_global_hourly l now; daily = query_today_cost l now; monthly = query_global_monthly l now
      in \<lparr>hourly_spend = hourly, hourly_limit = max_hourly_usd b, hourly_pct = pct quot hourly (max_hourly_usd b),
          daily_spend = daily, daily_limit = max_daily_usd b, daily_pct = pct quot daily (max_daily_usd b),
          monthly_spend = monthly, monthly_limit = max_monthly_usd b, monthly_pct = pct quot monthly (max_monthly_usd b),
          status_alert = alert_threshold b\<rparr>)"

section \<open>Prices\<close>

text \<open>The first row one of whose words the name contains; dollars per million tokens of input and output.\<close>

definition price_rules :: "(string list \<times> rat \<times> rat) list" where
  "price_rules =
     [([''haiku''], 1 / 4, 5 / 4),
      ([''opus-4-6'', ''claude-opus-4-6''], 5, 25),
      ([''opus''], 15, 75),
      ([''sonnet-4-6'', ''claude-sonnet-4-6''], 3, 15),
      ([''sonnet''], 3, 15),
      ([''gpt-5.2-pro''], 7 / 4, 14),
      ([''gpt-5.2''], 7 / 4, 14),
      ([''gpt-5.1''], 5 / 4, 10),
      ([''gpt-5-nano''], 1 / 20, 2 / 5),
      ([''gpt-5-mini''], 1 / 4, 2),
      ([''gpt-5''], 5 / 4, 10),
      ([''gpt-4o-mini''], 3 / 20, 3 / 5),
      ([''gpt-4o''], 5 / 2, 10),
      ([''gpt-4.1-nano''], 1 / 10, 2 / 5),
      ([''gpt-4.1-mini''], 2 / 5, 8 / 5),
      ([''gpt-4.1''], 2, 8),
      ([''o4-mini''], 11 / 10, 22 / 5),
      ([''o3-mini''], 11 / 10, 22 / 5),
      ([''o3''], 2, 8),
      ([''gpt-4''], 5 / 2, 10),
      ([''gemini-3.1''], 5 / 2, 15),
      ([''gemini-3''], 1 / 2, 3),
      ([''gemini-2.5-flash-lite''], 1 / 25, 3 / 20),
      ([''gemini-2.5-pro''], 5 / 4, 10),
      ([''gemini-2.5-flash''], 3 / 20, 3 / 5),
      ([''gemini-2.0-flash'', ''gemini-flash''], 1 / 10, 2 / 5),
      ([''gemini''], 3 / 20, 3 / 5),
      ([''deepseek-reasoner'', ''deepseek-r1''], 11 / 20, 219 / 100),
      ([''deepseek''], 27 / 100, 11 / 10),
      ([''cerebras''], 3 / 50, 3 / 50),
      ([''sambanova''], 3 / 50, 3 / 50),
      ([''replicate''], 2 / 5, 2 / 5),
      ([''llama-4-maverick''], 1 / 2, 77 / 100),
      ([''llama-4-scout''], 11 / 100, 17 / 50),
      ([''llama'', ''mixtral''], 1 / 20, 1 / 10),
      ([''qwen-max''], 4, 12),
      ([''qwen-vl''], 3 / 2, 9 / 2),
      ([''qwen-plus''], 4 / 5, 2),
      ([''qwen-turbo''], 3 / 10, 3 / 5),
      ([''qwen''], 1 / 5, 3 / 5),
      ([''minimax''], 1, 3),
      ([''glm-4-flash''], 1 / 10, 1 / 10),
      ([''glm''], 3 / 2, 5),
      ([''codegeex''], 1 / 10, 1 / 10),
      ([''moonshot'', ''kimi''], 4 / 5, 4 / 5),
      ([''ernie''], 2, 6),
      ([''nova-pro''], 4 / 5, 16 / 5),
      ([''nova-lite''], 3 / 50, 6 / 25),
      ([''mistral-large''], 2, 6),
      ([''mistral-small'', ''mistral''], 1 / 10, 3 / 10),
      ([''command-r-plus''], 5 / 2, 10),
      ([''command-r''], 3 / 20, 3 / 5),
      ([''sonar-pro''], 3, 15),
      ([''sonar''], 1, 5),
      ([''grok-4.1''], 1 / 5, 1 / 2),
      ([''grok-4''], 3, 15),
      ([''grok-3-mini'', ''grok-2-mini'', ''grok-mini''], 3 / 10, 1 / 2),
      ([''grok-3''], 3, 15),
      ([''grok''], 2, 10),
      ([''jamba''], 2, 8)]"

definition estimate_cost_rates :: "string \<Rightarrow> rat \<times> rat" where
  "estimate_cost_rates m =
     (case find (\<lambda>(words, _). list_ex (contains_str m) words) price_rules of
        Some (_, rates) \<Rightarrow> rates
      | None \<Rightarrow> (1, 3))"

text \<open>The cost, over the operations of \<open>f64\<close>: the conversions of a count and of a decimal, and the arithmetic.\<close>

record 'f float_ops =
  of_count :: "nat \<Rightarrow> 'f"
  of_decimal :: "rat \<Rightarrow> 'f"
  fdiv :: "'f \<Rightarrow> 'f \<Rightarrow> 'f"
  fmul :: "'f \<Rightarrow> 'f \<Rightarrow> 'f"
  fadd :: "'f \<Rightarrow> 'f \<Rightarrow> 'f"

definition cost_at :: "'f float_ops \<Rightarrow> 'f \<times> 'f \<Rightarrow> nat \<Rightarrow> nat \<Rightarrow> 'f" where
  "cost_at ops rates tokens_in tokens_out =
     (let part = (\<lambda>n rate. fmul ops (fdiv ops (of_count ops n) (of_decimal ops 1000000)) rate)
      in fadd ops (part tokens_in (fst rates)) (part tokens_out (snd rates)))"

definition estimate_cost :: "'f float_ops \<Rightarrow> string \<Rightarrow> nat \<Rightarrow> nat \<Rightarrow> 'f" where
  "estimate_cost ops m tokens_in tokens_out =
     cost_at ops (map_prod (of_decimal ops) (of_decimal ops) (estimate_cost_rates (to_lowercase m))) tokens_in tokens_out"

text \<open>\<open>pricing\<close> is the look-up in the model catalog.\<close>

definition estimate_cost_with_catalog ::
  "'f float_ops \<Rightarrow> (string \<Rightarrow> ('f \<times> 'f) option) \<Rightarrow> string \<Rightarrow> nat \<Rightarrow> nat \<Rightarrow> 'f" where
  "estimate_cost_with_catalog ops pricing m tokens_in tokens_out =
     cost_at ops (case pricing m of Some r \<Rightarrow> r | None \<Rightarrow> (of_decimal ops 1, of_decimal ops 3)) tokens_in tokens_out"

section \<open>What the queries count\<close>

text \<open>Dates of one length that grow with the day, as they do while the year has four digits.\<close>

definition last_day :: nat where
  "last_day = 2932896"

definition calendar_ok :: "calendar \<Rightarrow> bool" where
  "calendar_ok c \<longleftrightarrow> (\<forall>a b. a < b \<longrightarrow> b \<le> last_day \<longrightarrow> text_less (date_text c a) (date_text c b))
     \<and> (\<forall>a b. length (date_text c a) = length (date_text c b))"

lemma text_less_append:
  "length a = length b \<Longrightarrow> text_less (a @ x) (b @ y) \<longleftrightarrow> text_less a b \<or> (a = b \<and> text_less x y)"
  by (induction a b rule: list_induct2) auto

lemma day_order:
  assumes "calendar_ok c" "a \<le> last_day" "b \<le> last_day"
  shows "text_less (date_text c a) (date_text c b) \<longleftrightarrow> a < b" "date_text c a = date_text c b \<longleftrightarrow> a = b"
proof -
  have less: "x < y \<Longrightarrow> y \<le> last_day \<Longrightarrow> text_less (date_text c x) (date_text c y)" for x y
    using assms by (simp add: calendar_ok_def)
  show "text_less (date_text c a) (date_text c b) \<longleftrightarrow> a < b"
    using less text_less_trans text_less_irrefl assms(2,3) by (metis linorder_cases)
  show "date_text c a = date_text c b \<longleftrightarrow> a = b"
    using less text_less_irrefl assms(2,3) by (metis linorder_cases)
qed

text \<open>A stored time is after a bound when its day is not before the bound's: the letter T is after the blank.\<close>

lemma stored_after:
  assumes "calendar_ok c" "day_of b \<le> last_day" "day_of t \<le> last_day"
  shows "text_less (sql_datetime c b) (rfc3339 c t subsec) \<longleftrightarrow> day_of b \<le> day_of t"
proof -
  have "length (date_text c (day_of b)) = length (date_text c (day_of t))" using assms by (simp add: calendar_ok_def)
  then show ?thesis
    using day_order [OF assms]
    by (auto simp: sql_datetime_def rfc3339_def text_less_append)
qed

text \<open>A table that was only written by \<open>record\<close>, with the times of its rows.\<close>

fun log_usage :: "calendar \<Rightarrow> (nat \<times> string \<times> usage_record) list \<Rightarrow> usage_store" where
  "log_usage c [] = []"
| "log_usage c ((t, subsec, u) # es) = \<lparr>stamp = rfc3339 c t subsec, usage = u\<rparr> # log_usage c es"

lemma log_usage_snoc: "log_usage c (es @ [(t, subsec, u)]) = record_usage_event c t subsec u (log_usage c es)"
  by (induction c es rule: log_usage.induct) (auto simp: record_usage_event_def)

definition counted :: "(f64 list \<Rightarrow> f64) \<Rightarrow> (nat \<Rightarrow> bool) \<Rightarrow> agent_id \<Rightarrow> (nat \<times> string \<times> usage_record) list \<Rightarrow> f64" where
  "counted sm P a es =
     sm (map (\<lambda>(t, subsec, u). cost_usd u) (filter (\<lambda>(t, subsec, u). usage_agent u = a \<and> P t) es))"

lemma queried:
  assumes "calendar_ok c" "day_of b \<le> last_day" "\<forall>(t, subsec, u) \<in> set es. day_of t \<le> last_day"
  shows "total_cost sm (rows_after (sql_datetime c b) (rows_of a (log_usage c es))) = counted sm (\<lambda>t. day_of b \<le> day_of t) a es"
proof -
  have "map (\<lambda>r. cost_usd (usage r)) (rows_after (sql_datetime c b) (rows_of a (log_usage c es)))
      = map (\<lambda>(t, subsec, u). cost_usd u) (filter (\<lambda>(t, subsec, u). usage_agent u = a \<and> day_of b \<le> day_of t) es)"
    using assms(3)
  proof (induction es)
    case (Cons e es)
    then show ?case by (cases e) (auto simp: rows_after_def rows_of_def stored_after [OF assms(1,2)])
  qed (simp add: rows_after_def rows_of_def)
  then show ?thesis by (simp add: total_cost_def counted_def)
qed

text \<open>
  C34: What a quota counts. The check of an agent's cost refuses exactly when a positive limit is reached by the sum
  of a window; the windows of the day and of the month are exact, but the one of the hour reaches back to the midnight
  before the last hour began, because a time stored with a T is after every bound of the same day.
\<close>

theorem quota_windows:
  assumes "calendar_ok (cal l)" "rows l = log_usage (cal l) es" "month_start (cal l) (day_of now) \<le> day_of now"
    and "day_of now \<le> last_day" "\<forall>(t, subsec, u) \<in> set es. day_of t \<le> last_day"
  shows "check_cost_quota l now a q = Ok () \<longleftrightarrow>
      \<not> over (counted (sum_of l) (\<lambda>t. day_of (now - 3600) \<le> day_of t) a es) (max_cost_per_hour_usd q)
    \<and> \<not> over (counted (sum_of l) (\<lambda>t. day_of now \<le> day_of t) a es) (max_cost_per_day_usd q)
    \<and> \<not> over (counted (sum_of l) (\<lambda>t. month_start (cal l) (day_of now) \<le> day_of t) a es) (max_cost_per_month_usd q)"
proof -
  have whole: "day_of (d * 86400) = d" for d by (simp add: day_of_def)
  have "day_of (now - 3600) \<le> day_of now" by (simp add: day_of_def div_le_mono)
  then show ?thesis
    using assms(2-4) queried [OF assms(1) _ assms(5), of _ "sum_of l"]
    by (simp add: check_cost_quota_def query_hourly_def query_daily_def query_monthly_def hour_ago_def day_start_def
        month_begin_def whole Let_def)
qed

text \<open>A calendar that numbers the days, in seven digits.\<close>

fun digits :: "nat \<Rightarrow> nat \<Rightarrow> string" where
  "digits 0 n = []"
| "digits (Suc k) n = char_of (48 + n div 10 ^ k mod 10) # digits k n"

lemma digits_length: "length (digits k n) = k"
  by (induction k) simp_all

lemma digits_less: "a mod 10 ^ k < b mod 10 ^ k \<Longrightarrow> text_less (digits k a) (digits k b)"
proof (induction k)
  case (Suc k)
  let ?hi = "\<lambda>n::nat. n div 10 ^ k mod 10"
  have split: "n mod 10 ^ Suc k = ?hi n * 10 ^ k + n mod 10 ^ k" for n :: nat
    using mod_mult2_eq [of n "10 ^ k" 10] by (simp add: mult.commute)
  have low: "n mod 10 ^ k < 10 ^ k" for n :: nat by simp
  have val: "(of_char (char_of (48 + ?hi n)) :: nat) = 48 + ?hi n" for n :: nat
  proof -
    have "?hi n < 10" by simp
    then have "48 + ?hi n < 256" by linarith
    then show ?thesis by (simp add: of_char_of)
  qed
  have "?hi a < ?hi b \<or> (?hi a = ?hi b \<and> a mod 10 ^ k < b mod 10 ^ k)"
  proof (cases "?hi b < ?hi a")
    case True
    then have "Suc (?hi b) * 10 ^ k \<le> ?hi a * 10 ^ k" by (intro mult_le_mono1) simp
    then have "?hi b * 10 ^ k + b mod 10 ^ k < ?hi a * 10 ^ k + a mod 10 ^ k" using low [of b] unfolding mult_Suc by linarith
    then show ?thesis using Suc.prems unfolding split by simp
  next
    case False
    then show ?thesis using Suc.prems unfolding split by (cases "?hi a = ?hi b") auto
  qed
  then show ?case using Suc.IH by (auto simp: val)
qed simp

definition demo_calendar :: calendar where
  "demo_calendar = \<lparr>date_text = digits 7, month_start = (\<lambda>d. d)\<rparr>"

lemma demo_calendar_ok: "calendar_ok demo_calendar"
proof -
  have "text_less (digits 7 a) (digits 7 b)" if "a < b" "b \<le> last_day" for a b
    using that by (intro digits_less) (simp add: last_day_def)
  then show ?thesis by (simp add: calendar_ok_def demo_calendar_def digits_length)
qed

lemma demo_month: "month_start demo_calendar d = d"
  by (simp add: demo_calendar_def)

definition demo_usage :: usage_record where
  "demo_usage = \<lparr>usage_agent = 7, usage_model = ''m'', input_tokens = 5, output_tokens = 5, cost_usd = Fin 2, tool_calls = 0\<rparr>"

definition demo_ledger :: ledger where
  "demo_ledger = \<lparr>cal = demo_calendar, sum_of = (\<lambda>xs. case xs of [] \<Rightarrow> Fin 0 | x # _ \<Rightarrow> x),
     rows = log_usage demo_calendar [(60, [], demo_usage)]\<rparr>"

text \<open>A call one minute after midnight still blocks the agent's hourly limit of one dollar ten hours later.\<close>

lemma quota_windows_witness: "check_cost_quota demo_ledger 36060 7 default_quota \<noteq> Ok ()"
  using quota_windows [of demo_ledger "[(60, [], demo_usage)]" 36060 7 default_quota]
  by (simp add: demo_ledger_def demo_calendar_ok day_of_def last_day_def counted_def demo_usage_def over_def
      f64_positive_def default_quota_def demo_month)

text \<open>Every word of the price table finds its own row: no row is shadowed by one before it.\<close>

lemma price_rules_reachable:
  "list_all (\<lambda>(words, rates). list_all (\<lambda>w. estimate_cost_rates w = rates) words) price_rules"
  by code_simp

text \<open>A limit that is not a number is no limit.\<close>

lemma nan_limit: "\<not> over c NaN" "\<not> over NaN limit"
  by (cases limit; simp add: over_def f64_positive_def)+

end
