(* ===== verification/Pairing.thy ===== *)
theory Pairing
  imports Str_Utils "HOL-Library.AList"
begin

text \<open>
  Device pairing (\<open>clawreform-kernel/src/pairing.rs\<close>): short-lived tokens, the list of devices and the push
  notifications. The two maps are lists of entries with one entry per key. Random tokens, the clock (nanoseconds), the
  environment and the HTTP client are parameters; the callback that persists a change is the list of its calls.
\<close>

section \<open>State\<close>

definition max_pending_requests :: nat where
  "max_pending_requests = 5"

record paired_device =
  device_id :: string
  device_name :: string
  platform :: string
  paired_at :: nat
  last_seen :: nat
  push_token :: "string option"

record pairing_request =
  token :: string
  created_at :: nat
  expires_at :: int

datatype persist_op = Save | Remove

record pairing_config =
  pairing_enabled :: bool
  max_devices :: nat
  token_expiry_secs :: nat
  push_provider :: string
  ntfy_url :: "string option"
  ntfy_topic :: "string option"

definition default_pairing :: pairing_config where
  "default_pairing = \<lparr>pairing_enabled = False, max_devices = 10, token_expiry_secs = 300, push_provider = ''none'',
     ntfy_url = None, ntfy_topic = None\<rparr>"

record pairing_manager =
  config :: pairing_config
  pending :: "(string \<times> pairing_request) list"
  devices :: "(string \<times> paired_device) list"
  persisted :: "(paired_device \<times> persist_op) list option"

definition new_pairing :: "pairing_config \<Rightarrow> pairing_manager" where
  "new_pairing c = \<lparr>config = c, pending = [], devices = [], persisted = None\<rparr>"

definition set_persist :: "pairing_manager \<Rightarrow> pairing_manager" where
  "set_persist m = m\<lparr>persisted := Some []\<rparr>"

definition load_devices :: "paired_device list \<Rightarrow> pairing_manager \<Rightarrow> pairing_manager" where
  "load_devices ds m = m\<lparr>devices := foldl (\<lambda>xs d. AList.update (device_id d) d xs) (devices m) ds\<rparr>"

definition persist :: "paired_device \<Rightarrow> persist_op \<Rightarrow> pairing_manager \<Rightarrow> pairing_manager" where
  "persist d act m = m\<lparr>persisted := map_option (\<lambda>calls. calls @ [(d, act)]) (persisted m)\<rparr>"

section \<open>Pairing\<close>

datatype pairing_error =
    PairingDisabled
  | TooManyPending
  | InvalidToken
  | TokenExpired
  | MaxDevices nat
  | DeviceNotFound string

definition clean_expired :: "nat \<Rightarrow> pairing_manager \<Rightarrow> pairing_manager" where
  "clean_expired now m = m\<lparr>pending := filter (\<lambda>(k, r). expires_at r > int now) (pending m)\<rparr>"

text \<open>\<open>token_expiry_secs as i64\<close> wraps above the largest signed value.\<close>

definition expiry_nanos :: "nat \<Rightarrow> int" where
  "expiry_nanos secs = sint (word_of_nat secs :: 64 word) * 10 ^ 9"

definition create_pairing_request ::
  "string \<Rightarrow> nat \<Rightarrow> pairing_manager \<Rightarrow> (pairing_request, pairing_error) result \<times> pairing_manager" where
  "create_pairing_request fresh now m =
     (if \<not> pairing_enabled (config m) then (Err PairingDisabled, m)
      else let m1 = (if length (pending m) \<ge> max_pending_requests then clean_expired now m else m)
           in if length (pending m1) \<ge> max_pending_requests then (Err TooManyPending, m1)
              else let r = \<lparr>token = fresh, created_at = now, expires_at = int now + expiry_nanos (token_expiry_secs (config m))\<rparr>
                   in (Ok r, m1\<lparr>pending := AList.update fresh r (pending m1)\<rparr>))"

text \<open>
  The four stages of \<open>complete_pairing\<close>, which run one after the other without a lock over all of them: the search
  for the token, the tests of time and room, the removal of the token, and the insertion of the device.
\<close>

definition find_request :: "string \<Rightarrow> pairing_manager \<Rightarrow> (string \<times> pairing_request) option" where
  "find_request t m = find (\<lambda>(k, r). token r = t) (pending m)"

definition drop_token :: "string \<Rightarrow> pairing_manager \<Rightarrow> pairing_manager" where
  "drop_token k m = m\<lparr>pending := AList.delete k (pending m)\<rparr>"

definition admit :: "nat \<Rightarrow> string \<times> pairing_request \<Rightarrow> pairing_manager \<Rightarrow> (unit, pairing_error) result \<times> pairing_manager" where
  "admit now e m =
     (if int now > expires_at (snd e) then (Err TokenExpired, drop_token (fst e) m)
      else if length (devices m) \<ge> max_devices (config m) then (Err (MaxDevices (max_devices (config m))), m)
      else (Ok (), m))"

definition store_device :: "paired_device \<Rightarrow> pairing_manager \<Rightarrow> pairing_manager" where
  "store_device d m = persist d Save (m\<lparr>devices := AList.update (device_id d) d (devices m)\<rparr>)"

definition complete_pairing ::
  "nat \<Rightarrow> string \<Rightarrow> paired_device \<Rightarrow> pairing_manager \<Rightarrow> (paired_device, pairing_error) result \<times> pairing_manager" where
  "complete_pairing now t d m =
     (case find_request t m of
        None \<Rightarrow> (Err InvalidToken, m)
      | Some e \<Rightarrow>
          (case admit now e m of
             (Inl err, m1) \<Rightarrow> (Err err, m1)
           | (Inr _, m1) \<Rightarrow> (Ok d, store_device d (drop_token (fst e) m1))))"

definition list_devices :: "pairing_manager \<Rightarrow> paired_device list" where
  "list_devices m = map snd (devices m)"

definition remove_device :: "string \<Rightarrow> pairing_manager \<Rightarrow> (unit, pairing_error) result \<times> pairing_manager" where
  "remove_device i m =
     (case map_of (devices m) i of
        None \<Rightarrow> (Err (DeviceNotFound i), m)
      | Some d \<Rightarrow> (Ok (), persist d Remove (m\<lparr>devices := AList.delete i (devices m)\<rparr>)))"

section \<open>Notifications\<close>

datatype push_error =
    NoTopic
  | NoAppToken
  | NoServerUrl
  | PushStatus string nat
  | PushFailed string string

text \<open>The request: the URL, the header and the texts. The client answers with a status or an error.\<close>

datatype push_request = Ntfy string string string | Gotify string string string string

record push_env =
  env_value :: "string \<Rightarrow> string option"
  send_push :: "push_request \<Rightarrow> (nat, string) result"

definition trim_end_slashes :: "string \<Rightarrow> string" where
  "trim_end_slashes s = rev (dropWhile (\<lambda>c. c = CHR ''/'') (rev s))"

definition pushed ::
  "string \<Rightarrow> push_env \<Rightarrow> push_request \<Rightarrow> pairing_manager \<Rightarrow> (string \<times> (unit, push_error) result) list" where
  "pushed provider env req m =
     (case send_push env req of
        Inr status \<Rightarrow>
          if 200 \<le> status \<and> status < 300 then map (\<lambda>(k, d). (device_id d, Ok ())) (devices m)
          else [(provider, Err (PushStatus provider status))]
      | Inl e \<Rightarrow> [(provider, Err (PushFailed provider e))])"

definition notify_devices ::
  "push_env \<Rightarrow> string \<Rightarrow> string \<Rightarrow> pairing_manager \<Rightarrow> (string \<times> (unit, push_error) result) list" where
  "notify_devices env title body m =
     (let c = config m
      in if push_provider c = ''ntfy''
         then (let url = (case ntfy_url c of Some u \<Rightarrow> u | None \<Rightarrow> ''https://ntfy.sh'')
               in case ntfy_topic c of
                    None \<Rightarrow> [(''ntfy'', Err NoTopic)]
                  | Some topic \<Rightarrow> pushed ''ntfy'' env (Ntfy (trim_end_slashes url @ ''/'' @ topic) title body) m)
         else if push_provider c = ''gotify''
         then (case env_value env ''GOTIFY_APP_TOKEN'' of
                 None \<Rightarrow> [(''gotify'', Err NoAppToken)]
               | Some key \<Rightarrow>
                   (case env_value env ''GOTIFY_SERVER_URL'' of
                      None \<Rightarrow> [(''gotify'', Err NoServerUrl)]
                    | Some u \<Rightarrow> pushed ''gotify'' env (Gotify (trim_end_slashes u @ ''/message'') key title body) m))
         else [])"

section \<open>One call after the other\<close>

datatype pairing_call =
    CreateRequest string
  | Complete string paired_device
  | RemoveDevice string
  | CleanExpired

fun pairing_step :: "nat \<Rightarrow> pairing_call \<Rightarrow> pairing_manager \<Rightarrow> pairing_manager" where
  "pairing_step now (CreateRequest fresh) m = snd (create_pairing_request fresh now m)"
| "pairing_step now (Complete t d) m = snd (complete_pairing now t d m)"
| "pairing_step now (RemoveDevice i) m = snd (remove_device i m)"
| "pairing_step now CleanExpired m = clean_expired now m"

fun pairing_run :: "(nat \<times> pairing_call) list \<Rightarrow> pairing_manager \<Rightarrow> pairing_manager" where
  "pairing_run [] m = m"
| "pairing_run ((now, c) # cs) m = pairing_run cs (pairing_step now c m)"

definition pairing_ok :: "pairing_manager \<Rightarrow> bool" where
  "pairing_ok m \<longleftrightarrow>
     distinct (map fst (pending m)) \<and> distinct (map fst (devices m))
     \<and> list_all (\<lambda>(k, r). token r = k) (pending m) \<and> list_all (\<lambda>(k, d). device_id d = k) (devices m)
     \<and> length (pending m) \<le> max_pending_requests \<and> length (devices m) \<le> max_devices (config m)"

lemma update_length: "length (AList.update k v xs) \<le> Suc (length xs)"
  by (induction xs) auto

lemma update_member: "e \<in> set (AList.update k v xs) \<Longrightarrow> e = (k, v) \<or> e \<in> set xs"
  by (induction xs) (auto split: if_splits)

lemma delete_filter: "AList.delete k xs = filter (\<lambda>e. fst e \<noteq> k) xs"
  by (auto simp: AList.delete_eq intro!: filter_cong)

lemma persist_simps [simp]:
  "pending (persist d act m) = pending m" "devices (persist d act m) = devices m" "config (persist d act m) = config m"
  by (simp_all add: persist_def)

lemma distinct_filter_keys: "distinct (map fst xs) \<Longrightarrow> distinct (map fst (filter P xs))"
  by (induction xs) auto

lemma length_filter_bound: "length xs \<le> n \<Longrightarrow> length (filter P xs) \<le> n"
  using length_filter_le [of P xs] by linarith

lemmas pairing_sets = delete_filter distinct_filter_keys length_filter_bound list_all_iff

lemma admit_ok: "admit now e m = (Ok (), m1) \<Longrightarrow> m1 = m \<and> length (devices m) < max_devices (config m) \<and> int now \<le> expires_at (snd e)"
  by (auto simp: admit_def split: if_splits)

lemma pending_ok:
  "pairing_ok m \<Longrightarrow> length (pending m) < max_pending_requests \<Longrightarrow> token r = k
   \<Longrightarrow> pairing_ok (m\<lparr>pending := AList.update k r (pending m)\<rparr>)"
  using update_length [of k r "pending m"]
  by (auto simp: pairing_ok_def list_all_iff distinct_update dest!: update_member)

lemma step_ok:
  assumes "pairing_ok m"
  shows "pairing_ok (pairing_step now c m) \<and> config (pairing_step now c m) = config m"
proof (cases c)
  case (CreateRequest fresh)
  have clean: "pairing_ok (clean_expired now m)" "config (clean_expired now m) = config m"
    using assms by (auto simp: pairing_ok_def clean_expired_def pairing_sets)
  let ?m = "if length (pending m) \<ge> max_pending_requests then clean_expired now m else m"
  have m: "pairing_ok ?m" "config ?m = config m" using assms clean by auto
  show ?thesis
  proof (cases "pairing_enabled (config m)")
    case True
    then show ?thesis
      using m pending_ok [OF m(1)]
      by (auto simp: CreateRequest create_pairing_request_def Let_def)
  qed (use assms in \<open>simp add: CreateRequest create_pairing_request_def\<close>)
next
  case (Complete t d)
  show ?thesis
  proof (cases "find_request t m")
    case None
    then show ?thesis using assms by (simp add: Complete complete_pairing_def)
  next
    case (Some e)
    show ?thesis
    proof (cases "fst (admit now e m)")
      case (Inl err)
      then show ?thesis
        using assms Some
        by (auto simp: Complete complete_pairing_def admit_def drop_token_def pairing_ok_def pairing_sets
            split: if_splits)
    next
      case (Inr u)
      then have "admit now e m = (Ok (), m)" using admit_ok [of now e m "snd (admit now e m)"] by (cases "admit now e m") auto
      then show ?thesis
        using assms Some admit_ok [of now e m m] update_length [of "device_id d" d "devices m"]
        by (auto simp: Complete complete_pairing_def drop_token_def store_device_def pairing_ok_def pairing_sets
            distinct_update dest!: update_member)
    qed
  qed
next
  case (RemoveDevice i)
  then show ?thesis
    using assms by (auto simp: remove_device_def pairing_ok_def pairing_sets split: option.split)
next
  case CleanExpired
  then show ?thesis using assms by (auto simp: clean_expired_def pairing_ok_def pairing_sets)
qed

lemma run_ok: "pairing_ok m \<Longrightarrow> pairing_ok (pairing_run cs m) \<and> config (pairing_run cs m) = config m"
  by (induction cs m rule: pairing_run.induct) (auto simp: step_ok)

lemma find_pending:
  assumes "pairing_ok m" "find_request t m = Some e"
  shows "fst e = t \<and> (t, snd e) \<in> set (pending m)"
  using assms by (auto simp: find_request_def find_Some_iff pairing_ok_def list_all_iff) (metis nth_mem case_prodD)+

lemma find_request_none: "find_request t m = None \<longleftrightarrow> (\<forall>(k, r) \<in> set (pending m). token r \<noteq> t)"
  by (auto simp: find_request_def find_None_iff)

definition creates :: "string \<Rightarrow> nat \<times> pairing_call \<Rightarrow> bool" where
  "creates t c \<longleftrightarrow> snd c = CreateRequest t"

lemma stays_unknown:
  assumes "find_request t m = None" "c \<noteq> CreateRequest t"
  shows "find_request t (pairing_step now c m) = None"
proof (cases c)
  case (CreateRequest fresh)
  have "find_request t (clean_expired now m) = None"
    using assms(1) by (auto simp: find_request_none clean_expired_def)
  then show ?thesis
    using assms CreateRequest
    by (auto simp: create_pairing_request_def find_request_none Let_def dest!: update_member)
next
  case (Complete u d)
  then show ?thesis
    using assms(1)
    by (auto simp: complete_pairing_def admit_def drop_token_def store_device_def find_request_none delete_filter
        split: option.split)
next
  case (RemoveDevice i)
  then show ?thesis using assms(1) by (auto simp: remove_device_def find_request_none split: option.split)
next
  case CleanExpired
  then show ?thesis using assms(1) by (auto simp: clean_expired_def find_request_none)
qed

lemma run_unknown:
  "find_request t m = None \<Longrightarrow> list_all (\<lambda>c. \<not> creates t c) cs \<Longrightarrow> find_request t (pairing_run cs m) = None"
  by (induction cs m rule: pairing_run.induct) (auto simp: creates_def stays_unknown)

text \<open>
  A token pairs one device. When the calls come one after the other, a device is paired only with a token that is
  pending and not expired and while there is room, and whatever calls follow, the same token is refused unless it is
  drawn again.
\<close>

theorem token_single_use:
  assumes "pairing_ok m" "complete_pairing now t d m = (Ok x, m')" "list_all (\<lambda>c. \<not> creates t c) cs"
  shows "(\<exists>r. (t, r) \<in> set (pending m) \<and> int now \<le> expires_at r) \<and> length (devices m) < max_devices (config m)
    \<and> fst (complete_pairing now' t d' (pairing_run cs m')) = Err InvalidToken"
proof -
  obtain e where e: "find_request t m = Some e" using assms(2) by (auto simp: complete_pairing_def split: option.splits)
  note te = find_pending [OF assms(1) e]
  obtain m1 where "admit now e m = (Ok (), m1)"
    using assms(2) e by (auto simp: complete_pairing_def split: prod.splits sum.splits)
  note ad = this admit_ok [OF this]
  have m': "m' = store_device d (drop_token t m)" using assms(2) e ad te by (auto simp: complete_pairing_def)
  have "find_request t m' = None"
    using assms(1) by (auto simp: m' find_request_none store_device_def drop_token_def delete_filter pairing_ok_def list_all_iff)
  from run_unknown [OF this assms(3)]
  have "fst (complete_pairing now' t d' (pairing_run cs m')) = Err InvalidToken" by (simp add: complete_pairing_def)
  with te ad show ?thesis by auto
qed

definition demo_device :: "string \<Rightarrow> paired_device" where
  "demo_device i = \<lparr>device_id = i, device_name = i, platform = ''ios'', paired_at = 0, last_seen = 0, push_token = None\<rparr>"

definition demo_pairing :: pairing_manager where
  "demo_pairing =
     \<lparr>config = default_pairing\<lparr>pairing_enabled := True, max_devices := 7\<rparr>,
      pending = [(''t'', \<lparr>token = ''t'', created_at = 0, expires_at = 300\<rparr>)], devices = [], persisted = None\<rparr>"

lemma token_single_use_witness:
  "fst (complete_pairing 9 ''t'' (demo_device ''b'') (snd (complete_pairing 5 ''t'' (demo_device ''a'') demo_pairing)))
     = Err InvalidToken"
proof -
  have "pairing_ok demo_pairing" by (simp add: pairing_ok_def demo_pairing_def max_pending_requests_def)
  moreover have "complete_pairing 5 ''t'' (demo_device ''a'') demo_pairing
      = (Ok (demo_device ''a''), snd (complete_pairing 5 ''t'' (demo_device ''a'') demo_pairing))"
    by (simp add: complete_pairing_def find_request_def admit_def demo_pairing_def)
  ultimately show ?thesis
    using token_single_use [of demo_pairing 5 "''t''" "demo_device ''a''" _ _ "[]" 9 "demo_device ''b''"] by auto
qed

text \<open>
  Two calls at once: when both have found the token and passed the tests before either removes it, one token pairs two
  devices, also beyond the number of devices allowed.
\<close>

lemma pairing_race:
  assumes "find_request t m = Some e" "admit now e m = (Ok (), m)" "device_id d1 \<noteq> device_id d2"
    and "map_of (devices m) (device_id d1) = None" "map_of (devices m) (device_id d2) = None"
  shows "length (devices (store_device d2 (drop_token (fst e) (store_device d1 (drop_token (fst e) m))))) = length (devices m) + 2"
proof -
  have new: "map_of xs k = None \<Longrightarrow> AList.update k v xs = xs @ [(k, v)]" for xs and k :: string and v :: paired_device
    by (induction xs) (auto split: if_splits)
  show ?thesis using assms(3-5) by (simp add: store_device_def drop_token_def new map_of_append split: option.split)
qed

end
