(* ===== verification/Wire.thy ===== *)
theory Wire
  imports Str_Utils "HOL-Library.AList"
begin

text \<open>
  The peer protocol: messages and framing (\<open>clawreform-wire/src/message.rs\<close>), the registry of peers
  (\<open>registry.rs\<close>) and the node with its handshake and its message loop (\<open>peer.rs\<close>). A connection is the list of
  what is read from it, the list of what was written to it and the number of writes that still succeed. HMAC-SHA256
  in hexadecimal is the parameter \<open>hmac\<close>, random texts are arguments, JSON is a pair of parameters, and the handle of
  the kernel acts on its own state \<open>'w\<close>.
\<close>

section \<open>Messages\<close>

record remote_agent_info =
  agent_id :: string
  agent_name :: string
  description :: string
  tags :: "string list"
  tool_names :: "string list"
  agent_state :: string

datatype wire_request =
    Handshake (hs_node: string) (hs_name: string) (hs_version: nat) (hs_agents: "remote_agent_info list")
      (hs_nonce: string) (hs_hmac: string)
  | Discover string
  | AgentMessage string string "string option"
  | Ping

datatype wire_response =
    HandshakeAck string string nat "remote_agent_info list" string string
  | DiscoverResult "remote_agent_info list"
  | AgentResponse string
  | Pong nat
  | ErrorResponse int string

datatype wire_notification =
    AgentSpawned remote_agent_info
  | AgentTerminated string
  | ShuttingDown

datatype message_kind = Request wire_request | Response wire_response | Notification wire_notification

record wire_message =
  msg_id :: string
  kind :: message_kind

definition protocol_version :: nat where
  "protocol_version = 1"

definition max_message_size :: nat where
  "max_message_size = 16 * 1024 * 1024"

section \<open>Framing\<close>

definition be_bytes :: "nat \<Rightarrow> string" where
  "be_bytes n = map (\<lambda>k. char_of (n div 256 ^ k mod 256)) [3, 2, 1, 0]"

definition decode_length :: "string \<Rightarrow> nat" where
  "decode_length header = foldl (\<lambda>n c. n * 256 + of_char c) 0 header"

record 'm codec =
  to_vec :: "'m \<Rightarrow> string option"
  from_slice :: "string \<Rightarrow> 'm option"

definition encode_message :: "'m codec \<Rightarrow> 'm \<Rightarrow> string option" where
  "encode_message c m = map_option (\<lambda>json. be_bytes (length json mod 2 ^ 32) @ json) (to_vec c m)"

datatype wire_error =
    IoError
  | JsonError
  | HandshakeFailed string
  | RemoteError int string
  | ConnectionClosed
  | MessageTooLarge nat
  | VersionMismatch nat nat

text \<open>\<open>read_message\<close> on the bytes that are still to come before the end of the stream.\<close>

definition read_message :: "'m codec \<Rightarrow> string \<Rightarrow> ('m, wire_error) result \<times> string" where
  "read_message c stream =
     (if length stream < 4 then (Err ConnectionClosed, [])
      else let len = decode_length (take 4 stream); rest = drop 4 stream
           in if len > max_message_size then (Err (MessageTooLarge len), rest)
              else if length rest < len then (Err IoError, [])
              else case from_slice c (take len rest) of
                     None \<Rightarrow> (Err JsonError, drop len rest)
                   | Some m \<Rightarrow> (Ok m, drop len rest))"

section \<open>The registry\<close>

datatype peer_state = Connected | Disconnected

record 'a peer_entry =
  node_id :: string
  node_name :: string
  address :: 'a
  agents :: "remote_agent_info list"
  peer_state :: peer_state
  peer_version :: nat

type_synonym 'a peer_registry = "(string \<times> 'a peer_entry) list"

definition new_registry :: "'a peer_registry" where
  "new_registry = []"

definition add_peer :: "'a peer_entry \<Rightarrow> 'a peer_registry \<Rightarrow> 'a peer_registry" where
  "add_peer e r = AList.update (node_id e) e r"

definition remove_peer :: "string \<Rightarrow> 'a peer_registry \<Rightarrow> 'a peer_entry option \<times> 'a peer_registry" where
  "remove_peer i r = (map_of r i, AList.delete i r)"

definition on_peer :: "string \<Rightarrow> ('a peer_entry \<Rightarrow> 'a peer_entry) \<Rightarrow> 'a peer_registry \<Rightarrow> 'a peer_registry" where
  "on_peer i f r = map (\<lambda>(k, e). (k, if k = i then f e else e)) r"

definition mark_disconnected :: "string \<Rightarrow> 'a peer_registry \<Rightarrow> 'a peer_registry" where
  "mark_disconnected i = on_peer i (\<lambda>e. e\<lparr>peer_state := Disconnected\<rparr>)"

definition mark_connected :: "string \<Rightarrow> 'a peer_registry \<Rightarrow> 'a peer_registry" where
  "mark_connected i = on_peer i (\<lambda>e. e\<lparr>peer_state := Connected\<rparr>)"

definition get_peer :: "string \<Rightarrow> 'a peer_registry \<Rightarrow> 'a peer_entry option" where
  "get_peer i r = map_of r i"

definition connected_peers :: "'a peer_registry \<Rightarrow> 'a peer_entry list" where
  "connected_peers r = filter (\<lambda>e. peer_state e = Connected) (map snd r)"

definition all_peers :: "'a peer_registry \<Rightarrow> 'a peer_entry list" where
  "all_peers r = map snd r"

definition update_agents :: "string \<Rightarrow> remote_agent_info list \<Rightarrow> 'a peer_registry \<Rightarrow> 'a peer_registry" where
  "update_agents i as = on_peer i (\<lambda>e. e\<lparr>agents := as\<rparr>)"

fun put_agent :: "remote_agent_info \<Rightarrow> remote_agent_info list \<Rightarrow> remote_agent_info list" where
  "put_agent a [] = [a]"
| "put_agent a (x # xs) = (if agent_id x = agent_id a then a # xs else x # put_agent a xs)"

definition add_agent :: "string \<Rightarrow> remote_agent_info \<Rightarrow> 'a peer_registry \<Rightarrow> 'a peer_registry" where
  "add_agent i a = on_peer i (\<lambda>e. e\<lparr>agents := put_agent a (agents e)\<rparr>)"

definition remove_agent :: "string \<Rightarrow> string \<Rightarrow> 'a peer_registry \<Rightarrow> 'a peer_registry" where
  "remove_agent i a = on_peer i (\<lambda>e. e\<lparr>agents := filter (\<lambda>x. agent_id x \<noteq> a) (agents e)\<rparr>)"

definition agent_matches :: "string \<Rightarrow> remote_agent_info \<Rightarrow> bool" where
  "agent_matches q a \<longleftrightarrow>
     contains_str (to_lowercase (agent_name a)) q \<or> contains_str (to_lowercase (description a)) q
     \<or> list_ex (\<lambda>t. contains_str (to_lowercase t) q) (tags a)"

definition all_remote_agents :: "'a peer_registry \<Rightarrow> (string \<times> remote_agent_info) list" where
  "all_remote_agents r = concat (map (\<lambda>e. map (\<lambda>a. (node_id e, a)) (agents e)) (connected_peers r))"

definition find_agents :: "string \<Rightarrow> 'a peer_registry \<Rightarrow> (string \<times> remote_agent_info) list" where
  "find_agents q r = filter (\<lambda>(_, a). agent_matches (to_lowercase q) a) (all_remote_agents r)"

definition connected_count :: "'a peer_registry \<Rightarrow> nat" where
  "connected_count r = length (connected_peers r)"

definition total_count :: "'a peer_registry \<Rightarrow> nat" where
  "total_count r = length r"

section \<open>The node\<close>

record peer_config =
  own_id :: string
  own_name :: string
  shared_secret :: string

record 'w peer_handle =
  local_agents :: "'w \<Rightarrow> remote_agent_info list"
  handle_agent_message :: "string \<Rightarrow> string \<Rightarrow> string option \<Rightarrow> 'w \<Rightarrow> (string, string) result \<times> 'w"
  discover_agents :: "string \<Rightarrow> 'w \<Rightarrow> remote_agent_info list"
  uptime_secs :: "'w \<Rightarrow> nat"

datatype incoming = Message wire_message | ReadFails wire_error

record connection =
  inbox :: "incoming list"
  outbox :: "wire_message list"
  writes_left :: "nat option"

text \<open>The end of the list is the end of the stream.\<close>

definition read_next :: "connection \<Rightarrow> (wire_message, wire_error) result \<times> connection" where
  "read_next c =
     (case inbox c of
        [] \<Rightarrow> (Err ConnectionClosed, c)
      | Message m # rest \<Rightarrow> (Ok m, c\<lparr>inbox := rest\<rparr>)
      | ReadFails e # rest \<Rightarrow> (Err e, c\<lparr>inbox := rest\<rparr>))"

definition write_message :: "wire_message \<Rightarrow> connection \<Rightarrow> (unit, wire_error) result \<times> connection" where
  "write_message m c =
     (case writes_left c of
        Some 0 \<Rightarrow> (Err IoError, c)
      | left \<Rightarrow> (Ok (), c\<lparr>outbox := outbox c @ [m], writes_left := map_option (\<lambda>n. n - 1) left\<rparr>))"

definition hmac_verify :: "(string \<Rightarrow> string \<Rightarrow> string) \<Rightarrow> string \<Rightarrow> string \<Rightarrow> string \<Rightarrow> bool" where
  "hmac_verify hmac secret msg signature \<longleftrightarrow> hmac secret msg = signature"

definition start_node :: "peer_config \<Rightarrow> (unit, wire_error) result" where
  "start_node cfg =
     (if shared_secret cfg = []
      then Err (HandshakeFailed ''OFP requires shared_secret. Set [network] shared_secret in config.toml'') else Ok ())"

record ('a, 'w) node =
  registry :: "'a peer_registry"
  world :: 'w

definition handle_notification :: "string \<Rightarrow> wire_notification \<Rightarrow> 'a peer_registry \<Rightarrow> 'a peer_registry" where
  "handle_notification peer n r =
     (case n of
        AgentSpawned a \<Rightarrow> add_agent peer a r
      | AgentTerminated i \<Rightarrow> remove_agent peer i r
      | ShuttingDown \<Rightarrow> mark_disconnected peer r)"

definition handle_request_in_loop :: "'w peer_handle \<Rightarrow> wire_message \<Rightarrow> 'w \<Rightarrow> wire_message \<times> 'w" where
  "handle_request_in_loop h m w =
     (let (k, w1) =
        (case kind m of
           Request Ping \<Rightarrow> (Response (Pong (uptime_secs h w)), w)
         | Request (Discover q) \<Rightarrow> (Response (DiscoverResult (discover_agents h q w)), w)
         | Request (AgentMessage a t s) \<Rightarrow>
             (case handle_agent_message h a t s w of
                (Inr reply, w1) \<Rightarrow> (Response (AgentResponse reply), w1)
              | (Inl e, w1) \<Rightarrow> (Response (ErrorResponse 500 e), w1))
         | _ \<Rightarrow> (Response (ErrorResponse 400 ''Unexpected request in connection loop''), w))
      in (\<lparr>msg_id = msg_id m, kind = k\<rparr>, w1))"

text \<open>Every round of the loop takes one element off the inbox or ends, so its length is enough fuel.\<close>

fun connection_loop ::
  "nat \<Rightarrow> 'w peer_handle \<Rightarrow> string \<Rightarrow> connection \<Rightarrow> ('a, 'w) node
   \<Rightarrow> (unit, wire_error) result \<times> connection \<times> ('a, 'w) node" where
  "connection_loop 0 h peer c n = (Ok (), c, n)"
| "connection_loop (Suc fuel) h peer c n =
     (case read_next c of
        (Inl ConnectionClosed, c1) \<Rightarrow> (Ok (), c1, n)
      | (Inl e, c1) \<Rightarrow> (Err e, c1, n)
      | (Inr m, c1) \<Rightarrow>
          (case kind m of
             Notification nt \<Rightarrow> connection_loop fuel h peer c1 (n\<lparr>registry := handle_notification peer nt (registry n)\<rparr>)
           | Request _ \<Rightarrow>
               (let (resp, w1) = handle_request_in_loop h m (world n)
                in case write_message resp c1 of
                     (Inl e, c2) \<Rightarrow> (Err e, c2, n\<lparr>world := w1\<rparr>)
                   | (Inr _, c2) \<Rightarrow> connection_loop fuel h peer c2 (n\<lparr>world := w1\<rparr>))
           | Response _ \<Rightarrow> connection_loop fuel h peer c1 n))"

definition error_message :: "wire_message \<Rightarrow> int \<Rightarrow> string \<Rightarrow> wire_message" where
  "error_message m code t = \<lparr>msg_id = msg_id m, kind = Response (ErrorResponse code t)\<rparr>"

text \<open>An error message that is written before the connection is given up with an error of its own.\<close>

definition refuse ::
  "wire_message \<Rightarrow> wire_error \<Rightarrow> connection \<Rightarrow> ('a, 'w) node \<Rightarrow> (unit, wire_error) result \<times> connection \<times> ('a, 'w) node" where
  "refuse reply err c n =
     (case write_message reply c of (Inl e, c1) \<Rightarrow> (Err e, c1, n) | (Inr _, c1) \<Rightarrow> (Err err, c1, n))"

definition ack_message ::
  "(string \<Rightarrow> string \<Rightarrow> string) \<Rightarrow> peer_config \<Rightarrow> 'w peer_handle \<Rightarrow> 'w \<Rightarrow> string \<Rightarrow> string \<Rightarrow> wire_message" where
  "ack_message hmac cfg h w i nonce =
     \<lparr>msg_id = i,
      kind = Response (HandshakeAck (own_id cfg) (own_name cfg) protocol_version (local_agents h w) nonce
        (hmac (shared_secret cfg) (nonce @ own_id cfg)))\<rparr>"

text \<open>One inbound connection; \<open>ack_nonce\<close> is the random text of the acknowledgement.\<close>

definition handle_inbound ::
  "(string \<Rightarrow> string \<Rightarrow> string) \<Rightarrow> peer_config \<Rightarrow> 'w peer_handle \<Rightarrow> string \<Rightarrow> 'a \<Rightarrow> connection \<Rightarrow> ('a, 'w) node
   \<Rightarrow> (unit, wire_error) result \<times> connection \<times> ('a, 'w) node" where
  "handle_inbound hmac cfg h ack_nonce addr c n =
     (case read_next c of
        (Inl e, c1) \<Rightarrow> (Err e, c1, n)
      | (Inr m, c1) \<Rightarrow>
          (case kind m of
             Request (Handshake nid nname version as nonce mac) \<Rightarrow>
               if version \<noteq> protocol_version
               then refuse (error_message m 1 (''Protocol version mismatch: expected '' @ show_nat protocol_version
                      @ '', got '' @ show_nat version))
                    (VersionMismatch protocol_version version) c1 n
               else if \<not> hmac_verify hmac (shared_secret cfg) (nonce @ nid) mac
               then refuse (error_message m 403 ''HMAC authentication failed'')
                    (HandshakeFailed ''HMAC verification failed on incoming Handshake'') c1 n
               else (case write_message (ack_message hmac cfg h (world n) (msg_id m) ack_nonce) c1 of
                 (Inl e, c2) \<Rightarrow> (Err e, c2, n)
               | (Inr _, c2) \<Rightarrow>
                   (let n1 = n\<lparr>registry := add_peer \<lparr>node_id = nid, node_name = nname, address = addr, agents = as,
                          peer_state = Connected, peer_version = version\<rparr> (registry n)\<rparr>;
                        (res, c3, n2) = connection_loop (Suc (length (inbox c2))) h nid c2 n1
                    in (Ok (), c3, n2\<lparr>registry := mark_disconnected nid (registry n2)\<rparr>)))
           | _ \<Rightarrow>
               refuse (error_message m 401 ''Authentication required: complete HMAC handshake first'')
                 (HandshakeFailed ''Rejected unauthenticated request'') c1 n))"

text \<open>The two clients share the first half: the handshake is sent and its acknowledgement checked.\<close>

definition handshake_message ::
  "(string \<Rightarrow> string \<Rightarrow> string) \<Rightarrow> peer_config \<Rightarrow> remote_agent_info list \<Rightarrow> string \<Rightarrow> string \<Rightarrow> wire_message" where
  "handshake_message hmac cfg as i nonce =
     \<lparr>msg_id = i,
      kind = Request (Handshake (own_id cfg) (own_name cfg) protocol_version as nonce
        (hmac (shared_secret cfg) (nonce @ own_id cfg)))\<rparr>"

definition check_ack ::
  "(string \<Rightarrow> string \<Rightarrow> string) \<Rightarrow> peer_config \<Rightarrow> wire_message
   \<Rightarrow> (string \<times> string \<times> nat \<times> remote_agent_info list, wire_error) result" where
  "check_ack hmac cfg m =
     (case kind m of
        Response (HandshakeAck nid nname version as nonce mac) \<Rightarrow>
          if version \<noteq> protocol_version then Err (VersionMismatch protocol_version version)
          else if \<not> hmac_verify hmac (shared_secret cfg) (nonce @ nid) mac
          then Err (HandshakeFailed ''HMAC verification failed on HandshakeAck'')
          else Ok (nid, nname, version, as)
      | Response (ErrorResponse code t) \<Rightarrow> Err (RemoteError code t)
      | _ \<Rightarrow> Err (HandshakeFailed ''Unexpected response to handshake''))"

definition shake_hands ::
  "(string \<Rightarrow> string \<Rightarrow> string) \<Rightarrow> peer_config \<Rightarrow> remote_agent_info list \<Rightarrow> string \<Rightarrow> string \<Rightarrow> connection
   \<Rightarrow> (string \<times> string \<times> nat \<times> remote_agent_info list, wire_error) result \<times> connection" where
  "shake_hands hmac cfg as i nonce c =
     (case write_message (handshake_message hmac cfg as i nonce) c of
        (Inl e, c1) \<Rightarrow> (Err e, c1)
      | (Inr _, c1) \<Rightarrow>
          (case read_next c1 of
             (Inl e, c2) \<Rightarrow> (Err e, c2)
           | (Inr m, c2) \<Rightarrow> (check_ack hmac cfg m, c2)))"

definition connect_to_peer ::
  "(string \<Rightarrow> string \<Rightarrow> string) \<Rightarrow> peer_config \<Rightarrow> 'w peer_handle \<Rightarrow> string \<Rightarrow> string \<Rightarrow> 'a \<Rightarrow> connection \<Rightarrow> ('a, 'w) node
   \<Rightarrow> (unit, wire_error) result \<times> connection \<times> ('a, 'w) node" where
  "connect_to_peer hmac cfg h i nonce addr c n =
     (case shake_hands hmac cfg (local_agents h (world n)) i nonce c of
        (Inl e, c1) \<Rightarrow> (Err e, c1, n)
      | (Inr (nid, nname, version, as), c1) \<Rightarrow>
          (let n1 = n\<lparr>registry := add_peer \<lparr>node_id = nid, node_name = nname, address = addr, agents = as,
                 peer_state = Connected, peer_version = version\<rparr> (registry n)\<rparr>;
               (res, c2, n2) = connection_loop (Suc (length (inbox c1))) h nid c1 n1
           in (Ok (), c2, n2\<lparr>registry := mark_disconnected nid (registry n2)\<rparr>)))"

definition send_to_peer ::
  "(string \<Rightarrow> string \<Rightarrow> string) \<Rightarrow> peer_config \<Rightarrow> 'w peer_handle \<Rightarrow> string \<Rightarrow> string \<Rightarrow> string \<Rightarrow> string \<Rightarrow> string
   \<Rightarrow> string \<Rightarrow> string option \<Rightarrow> ('a \<Rightarrow> connection option) \<Rightarrow> ('a, 'w) node
   \<Rightarrow> (string, wire_error) result \<times> connection option" where
  "send_to_peer hmac cfg h i nonce i2 target agent text sender connect n =
     (case get_peer target (registry n) of
        None \<Rightarrow> (Err (HandshakeFailed (''Unknown peer: '' @ target)), None)
      | Some p \<Rightarrow>
          (case connect (address p) of
             None \<Rightarrow> (Err IoError, None)
           | Some c \<Rightarrow>
               (case shake_hands hmac cfg (local_agents h (world n)) i nonce c of
                  (Inl e, c1) \<Rightarrow> (Err e, Some c1)
                | (Inr _, c1) \<Rightarrow>
                    (case write_message \<lparr>msg_id = i2, kind = Request (AgentMessage agent text sender)\<rparr> c1 of
                       (Inl e, c2) \<Rightarrow> (Err e, Some c2)
                     | (Inr _, c2) \<Rightarrow>
                         (case read_next c2 of
                            (Inl e, c3) \<Rightarrow> (Err e, Some c3)
                          | (Inr m, c3) \<Rightarrow>
                              (case kind m of
                                 Response (AgentResponse t) \<Rightarrow> Ok t
                               | Response (ErrorResponse code t) \<Rightarrow> Err (RemoteError code t)
                               | _ \<Rightarrow> Err (HandshakeFailed ''Unexpected response type''), Some c3))))))"

text \<open>A notification goes over a new connection for each connected peer, without a handshake.\<close>

definition broadcast_notification ::
  "wire_notification \<Rightarrow> ('a \<Rightarrow> connection option) \<Rightarrow> (nat \<Rightarrow> string) \<Rightarrow> 'a peer_registry \<Rightarrow> (string \<times> wire_error) list" where
  "broadcast_notification nt connect ids r =
     concat (map (\<lambda>(k, p).
       case connect (address p) of
         None \<Rightarrow> [(node_id p, IoError)]
       | Some c \<Rightarrow>
           (case fst (write_message \<lparr>msg_id = ids k, kind = Notification nt\<rparr> c) of
              Inl e \<Rightarrow> [(node_id p, e)]
            | Inr _ \<Rightarrow> [])) (enumerate 0 (connected_peers r)))"

section \<open>Frames\<close>

lemma be_bytes_value: "n < 2 ^ 32 \<Longrightarrow> decode_length (be_bytes n) = n"
proof -
  assume n: "n < 2 ^ 32"
  have c: "(of_char (char_of (m mod 256) :: char) :: nat) = m mod 256" for m :: nat
    by (simp add: of_char_of)
  have "n div 16777216 < 256" using n by (simp add: less_mult_imp_div_less)
  then have "n div 16777216 mod 256 = n div 16777216" by simp
  moreover have "n div 16777216 = n div 65536 div 256" "n div 65536 = n div 256 div 256"
    by (simp_all add: div_mult2_eq [symmetric])
  moreover have "m div 256 * 256 + m mod 256 = m" for m :: nat by simp
  ultimately show ?thesis by (simp only: decode_length_def be_bytes_def c list.map foldl.simps) simp
qed

lemma be_bytes_length [simp]: "length (be_bytes n) = 4"
  by (simp add: be_bytes_def)

text \<open>
  C40: Frames round trip. A message whose JSON text is read back to it and is not longer than sixteen megabytes comes
  out of the stream it was written to, whatever follows, and what follows is left in place.
\<close>

theorem frame_roundtrip:
  assumes "to_vec c m = Some json" "from_slice c json = Some m" "length json \<le> max_message_size"
  shows "\<exists>bytes. encode_message c m = Some bytes \<and> read_message c (bytes @ rest) = (Ok m, rest)"
proof (intro exI conjI)
  have small: "length json < 2 ^ 32" using assms(3) by (simp add: max_message_size_def)
  then show "encode_message c m = Some (be_bytes (length json) @ json)" using assms(1) by (simp add: encode_message_def)
  have "decode_length (be_bytes (length json)) = length json" using small by (rule be_bytes_value)
  then show "read_message c ((be_bytes (length json) @ json) @ rest) = (Ok m, rest)"
    using assms(2,3) by (simp add: read_message_def Let_def)
qed

lemma frame_roundtrip_witness:
  "\<exists>bytes. encode_message \<lparr>to_vec = Some, from_slice = Some\<rparr> ''hi'' = Some bytes
     \<and> read_message \<lparr>to_vec = Some, from_slice = Some\<rparr> (bytes @ ''x'') = (Ok ''hi'', ''x'')"
  using frame_roundtrip [of "\<lparr>to_vec = Some, from_slice = Some\<rparr>" "''hi''" "''hi''" "''x''"]
  by (simp add: max_message_size_def)

section \<open>What the handshake guarantees\<close>

definition signed_with :: "(string \<Rightarrow> string \<Rightarrow> string) \<Rightarrow> string \<Rightarrow> wire_message \<Rightarrow> bool" where
  "signed_with hmac secret m \<longleftrightarrow>
     (case kind m of
        Request (Handshake nid nname version as nonce mac) \<Rightarrow> version = protocol_version \<and> mac = hmac secret (nonce @ nid)
      | _ \<Rightarrow> False)"

lemma refuse_keeps: "snd (snd (refuse reply err c n)) = n"
  by (simp add: refuse_def split: prod.split sum.split)

lemma unsigned_ignored:
  assumes "inbox c = Message m # rest" "\<not> signed_with hmac (shared_secret cfg) m"
  shows "snd (snd (handle_inbound hmac cfg h ack_nonce addr c n)) = n"
  using assms
  by (auto simp: handle_inbound_def read_next_def signed_with_def hmac_verify_def refuse_keeps
      split: message_kind.splits wire_request.splits)

text \<open>
  C12: Nothing before the handshake. An inbound connection changes the registry or reaches an agent only when its first
  message is a handshake of this version whose code is the HMAC of its nonce and node under the shared secret; and a
  node without a secret does not start.
\<close>

theorem inbound_needs_handshake:
  assumes "handle_inbound hmac cfg h ack_nonce addr c n = (res, c', n')" "n' \<noteq> n"
  shows "\<exists>m rest. inbox c = Message m # rest \<and> signed_with hmac (shared_secret cfg) m"
proof (cases "inbox c")
  case Nil
  then show ?thesis using assms by (simp add: handle_inbound_def read_next_def)
next
  case (Cons x rest)
  show ?thesis
  proof (cases x)
    case (Message m)
    then show ?thesis using assms Cons unsigned_ignored [of c m rest hmac cfg h ack_nonce addr n] by auto
  next
    case (ReadFails e)
    then show ?thesis using assms Cons by (simp add: handle_inbound_def read_next_def)
  qed
qed

text \<open>A handshake turned round into an acknowledgement, which takes no secret.\<close>

definition reflect :: "wire_message \<Rightarrow> wire_message" where
  "reflect m =
     (case kind m of
        Request (Handshake nid nname version as nonce mac) \<Rightarrow>
          m\<lparr>kind := Response (HandshakeAck nid nname version as nonce mac)\<rparr>
      | _ \<Rightarrow> m)"

text \<open>
  The handshake can be forged without the secret. A client accepts its own handshake sent back to it as the
  acknowledgement of any peer, hands over its message and takes the answer; an inbound handshake that was accepted
  once is accepted again from anyone at any time; and its code also signs any split of the same text into nonce and
  node, so another node name.
\<close>

theorem handshake_forgeable:
  assumes "get_peer target (registry n) = Some p" "connect (address p) = Some c" "writes_left c = None"
    and "inbox c = [Message (reflect (handshake_message hmac cfg (local_agents h (world n)) i nonce)),
                    Message \<lparr>msg_id = i2, kind = Response (AgentResponse answer)\<rparr>]"
  shows "fst (send_to_peer hmac cfg h i nonce i2 target agent text sender connect n) = Ok answer
    \<and> (signed_with hmac secret \<lparr>msg_id = j, kind = Request (Handshake nid nname version as (a @ b) mac)\<rparr> \<longrightarrow>
         signed_with hmac secret \<lparr>msg_id = j', kind = Request (Handshake (b @ nid) nname' version as' a mac)\<rparr>)"
  using assms
  by (simp add: send_to_peer_def shake_hands_def write_message_def read_next_def reflect_def handshake_message_def
      check_ack_def hmac_verify_def signed_with_def)

definition demo_handle :: "nat peer_handle" where
  "demo_handle = \<lparr>local_agents = (\<lambda>_. []), handle_agent_message = (\<lambda>_ _ _ w. (Ok ''done'', w + 1)),
     discover_agents = (\<lambda>_ _. []), uptime_secs = (\<lambda>_. 5)\<rparr>"

definition demo_cfg :: peer_config where
  "demo_cfg = \<lparr>own_id = ''n1'', own_name = ''one'', shared_secret = ''s''\<rparr>"

definition demo_hmac :: "string \<Rightarrow> string \<Rightarrow> string" where
  "demo_hmac k m = k @ m"

definition demo_node :: "(nat, nat) node" where
  "demo_node = \<lparr>registry = [(''n2'', \<lparr>node_id = ''n2'', node_name = ''two'', address = 9, agents = [],
     peer_state = Connected, peer_version = 1\<rparr>)], world = 0\<rparr>"

lemma handshake_forgeable_witness:
  "fst (send_to_peer demo_hmac demo_cfg demo_handle ''i'' ''x'' ''j'' ''n2'' ''a'' ''secret text'' None
     (\<lambda>_. Some \<lparr>inbox = [Message (reflect (handshake_message demo_hmac demo_cfg [] ''i'' ''x'')),
                         Message \<lparr>msg_id = ''j'', kind = Response (AgentResponse ''forged'')\<rparr>],
                outbox = [], writes_left = None\<rparr>) demo_node) = Ok ''forged''"
  using handshake_forgeable [of "''n2''" demo_node "snd (hd (registry demo_node))" "(\<lambda>_. Some \<lparr>inbox = [Message (reflect (handshake_message demo_hmac demo_cfg [] ''i'' ''x'')),
                         Message \<lparr>msg_id = ''j'', kind = Response (AgentResponse ''forged'')\<rparr>],
                outbox = [], writes_left = None\<rparr>)" _ demo_hmac demo_cfg demo_handle "''i''" "''x''" "''j''" "''forged''"]
  by (simp add: demo_node_def get_peer_def demo_handle_def)

definition demo_inbound :: connection where
  "demo_inbound =
     \<lparr>inbox = [Message \<lparr>msg_id = ''h'', kind = Request (Handshake ''n2'' ''two'' 1 [] ''x'' ''sxn2'')\<rparr>,
        Message \<lparr>msg_id = ''m'', kind = Request (AgentMessage ''a'' ''hi'' None)\<rparr>], outbox = [], writes_left = None\<rparr>"

text \<open>
  Each message of a peer comes over a connection of its own. When it ends the entry of the peer is marked as
  disconnected and has the address of that connection, not the one the peer listens on.
\<close>

lemma demo_inbound_result:
  "snd (snd (handle_inbound demo_hmac demo_cfg demo_handle ''y'' 77 demo_inbound demo_node)) =
     \<lparr>registry = [(''n2'', \<lparr>node_id = ''n2'', node_name = ''two'', address = 77, agents = [],
        peer_state = Disconnected, peer_version = 1\<rparr>)], world = 1\<rparr>"
  by code_simp

lemma inbound_needs_handshake_witness:
  "\<exists>m rest. inbox demo_inbound = Message m # rest \<and> signed_with demo_hmac ''s'' m"
proof -
  let ?run = "handle_inbound demo_hmac demo_cfg demo_handle ''y'' 77 demo_inbound demo_node"
  have "snd (snd ?run) \<noteq> demo_node" unfolding demo_inbound_result by (simp add: demo_node_def)
  then have "\<exists>m rest. inbox demo_inbound = Message m # rest \<and> signed_with demo_hmac (shared_secret demo_cfg) m"
    by (intro inbound_needs_handshake [of demo_hmac demo_cfg demo_handle "''y''" 77 demo_inbound demo_node
        "fst ?run" "fst (snd ?run)" "snd (snd ?run)"]) simp_all
  then show ?thesis by (simp add: demo_cfg_def)
qed

text \<open>A notification that is broadcast reaches a peer as the first message of a connection and is refused.\<close>

lemma broadcast_refused:
  "inbox c = Message \<lparr>msg_id = i, kind = Notification nt\<rparr> # rest \<Longrightarrow>
   snd (snd (handle_inbound hmac cfg h ack_nonce addr c n)) = n"
  using unsigned_ignored [of c "\<lparr>msg_id = i, kind = Notification nt\<rparr>" rest] by (simp add: signed_with_def)

text \<open>Agents are added to an entry under their id, each id at most once.\<close>

lemma put_agent_ids:
  "distinct (map agent_id xs) \<Longrightarrow> distinct (map agent_id (put_agent a xs))
     \<and> set (map agent_id (put_agent a xs)) = insert (agent_id a) (set (map agent_id xs))"
  by (induction xs) auto

end
