(* ===== verification/Model_Catalog.thy ===== *)
theory Model_Catalog
  imports Str_Utils
begin

text \<open>
  The catalog of models: the types of \<open>clawreform-types/src/model_catalog.rs\<close> and the catalog of
  \<open>clawreform-runtime/src/model_catalog.rs\<close> with its built-in data. The alias table, a hash map in the
  code, is an association list with distinct keys; the environment variables are a function. Prices are
  dollars per million tokens.
\<close>

section \<open>Types\<close>

datatype model_tier = Frontier | Smart | Balanced | Fast | Local

datatype auth_status = Configured | Missing | NotRequired

record model_entry =
  model_id :: string
  display_name :: string
  model_provider :: string
  tier :: model_tier
  context_window :: nat
  max_output_tokens :: nat
  input_cost_per_m :: rat
  output_cost_per_m :: rat
  supports_tools :: bool
  supports_vision :: bool
  supports_streaming :: bool
  entry_aliases :: "string list"

record provider_info =
  provider_id :: string
  provider_name :: string
  provider_key_env :: string
  provider_url :: string
  key_required :: bool
  auth_status :: auth_status
  model_count :: nat

definition catalog_entry ::
  "string \<Rightarrow> string \<Rightarrow> string \<Rightarrow> model_tier \<Rightarrow> nat \<Rightarrow> nat \<Rightarrow> rat \<Rightarrow> rat \<Rightarrow> bool \<Rightarrow> bool \<Rightarrow> bool \<Rightarrow> string list \<Rightarrow> model_entry" where
  "catalog_entry i d p t cw mo ic oc st sv ss al =
     \<lparr>model_id = i, display_name = d, model_provider = p, tier = t, context_window = cw, max_output_tokens = mo,
      input_cost_per_m = ic, output_cost_per_m = oc, supports_tools = st, supports_vision = sv,
      supports_streaming = ss, entry_aliases = al\<rparr>"

definition provider_entry :: "string \<Rightarrow> string \<Rightarrow> string \<Rightarrow> string \<Rightarrow> bool \<Rightarrow> auth_status \<Rightarrow> provider_info" where
  "provider_entry i d k u r a =
     \<lparr>provider_id = i, provider_name = d, provider_key_env = k, provider_url = u, key_required = r,
      auth_status = a, model_count = 0\<rparr>"

section \<open>Built-in data\<close>

definition models_1 :: "model_entry list" where
  "models_1 =
     [
      catalog_entry ''claude-opus-4-6'' ''Claude Opus 4.6'' ''anthropic'' Frontier 200000 128000
        (5) (25) True True True [''opus'', ''claude-opus''],
      catalog_entry ''claude-sonnet-4-6'' ''Claude Sonnet 4.6'' ''anthropic'' Smart 200000 64000
        (3) (15) True True True [''sonnet'', ''claude-sonnet''],
      catalog_entry ''claude-opus-4-20250514'' ''Claude Opus 4'' ''anthropic'' Frontier 200000 32000
        (15) (75) True True True [],
      catalog_entry ''claude-sonnet-4-20250514'' ''Claude Sonnet 4'' ''anthropic'' Smart 200000 64000
        (3) (15) True True True [],
      catalog_entry ''claude-haiku-4-5-20251001'' ''Claude Haiku 4.5'' ''anthropic'' Fast 200000 8192
        (1 / 4) (5 / 4) True True True [''haiku'', ''claude-haiku''],
      catalog_entry ''claude-sonnet-4-5-20250514'' ''Claude Sonnet 4.5'' ''anthropic'' Smart 200000 64000
        (3) (15) True True True [],
      catalog_entry ''claude-3-5-sonnet-20241022'' ''Claude 3.5 Sonnet'' ''anthropic'' Smart 200000 8192
        (3) (15) True True True [],
      catalog_entry ''gpt-4o'' ''GPT-4o'' ''openai'' Smart 128000 16384
        (5 / 2) (10) True True True [''gpt4'', ''gpt4o''],
      catalog_entry ''gpt-4o-mini'' ''GPT-4o Mini'' ''openai'' Fast 128000 16384
        (3 / 20) (3 / 5) True True True [''gpt4-mini''],
      catalog_entry ''gpt-4.1'' ''GPT-4.1'' ''openai'' Frontier 1047576 32768
        (2) (8) True True True []]"

definition models_2 :: "model_entry list" where
  "models_2 =
     [
      catalog_entry ''gpt-4.1-mini'' ''GPT-4.1 Mini'' ''openai'' Balanced 1047576 32768
        (2 / 5) (8 / 5) True True True [],
      catalog_entry ''gpt-4.1-nano'' ''GPT-4.1 Nano'' ''openai'' Fast 1047576 32768
        (1 / 10) (2 / 5) True False True [],
      catalog_entry ''o3'' ''o3'' ''openai'' Frontier 200000 100000
        (2) (8) True True True [],
      catalog_entry ''o3-mini'' ''o3-mini'' ''openai'' Smart 200000 100000
        (11 / 10) (22 / 5) True False True [],
      catalog_entry ''o4-mini'' ''o4-mini'' ''openai'' Smart 200000 100000
        (11 / 10) (22 / 5) True True True [],
      catalog_entry ''gpt-4-turbo'' ''GPT-4 Turbo'' ''openai'' Smart 128000 4096
        (10) (30) True True True [],
      catalog_entry ''gpt-3.5-turbo'' ''GPT-3.5 Turbo'' ''openai'' Fast 16385 4096
        (1 / 2) (3 / 2) True False True [],
      catalog_entry ''gpt-5'' ''GPT-5'' ''openai'' Frontier 400000 128000
        (5 / 4) (10) True True True [],
      catalog_entry ''gpt-5-mini'' ''GPT-5 Mini'' ''openai'' Balanced 400000 128000
        (1 / 4) (2) True True True [''gpt5-mini''],
      catalog_entry ''gpt-5-nano'' ''GPT-5 Nano'' ''openai'' Fast 400000 128000
        (1 / 20) (2 / 5) True False True []]"

definition models_3 :: "model_entry list" where
  "models_3 =
     [
      catalog_entry ''gpt-5.1'' ''GPT-5.1'' ''openai'' Frontier 400000 128000
        (5 / 4) (10) True True True [],
      catalog_entry ''gpt-5.2'' ''GPT-5.2'' ''openai'' Frontier 400000 128000
        (7 / 4) (14) True True True [''gpt5''],
      catalog_entry ''gpt-5.2-pro'' ''GPT-5.2 Pro'' ''openai'' Frontier 400000 128000
        (7 / 4) (14) True True True [],
      catalog_entry ''gemini-3.1-pro'' ''Gemini 3.1 Pro'' ''gemini'' Frontier 1048576 65536
        (5 / 2) (15) True True True [''gemini-pro''],
      catalog_entry ''gemini-3-flash'' ''Gemini 3 Flash'' ''gemini'' Smart 1048576 65536
        (1 / 2) (3) True True True [''flash'', ''gemini-flash''],
      catalog_entry ''gemini-3-deep-think'' ''Gemini 3 Deep Think'' ''gemini'' Frontier 1048576 65536
        (5 / 2) (15) True True True [],
      catalog_entry ''gemini-2.5-flash-lite'' ''Gemini 2.5 Flash Lite'' ''gemini'' Fast 1048576 8192
        (1 / 25) (3 / 20) True True True [],
      catalog_entry ''gemini-2.5-pro'' ''Gemini 2.5 Pro'' ''gemini'' Frontier 1048576 65536
        (5 / 4) (10) True True True [],
      catalog_entry ''gemini-2.5-flash'' ''Gemini 2.5 Flash'' ''gemini'' Smart 1048576 65536
        (3 / 20) (3 / 5) True True True [],
      catalog_entry ''gemini-2.0-flash'' ''Gemini 2.0 Flash'' ''gemini'' Fast 1048576 8192
        (1 / 10) (2 / 5) True True True []]"

definition models_4 :: "model_entry list" where
  "models_4 =
     [
      catalog_entry ''gemini-2.0-flash-lite'' ''Gemini 2.0 Flash Lite'' ''gemini'' Fast 1048576 8192
        (3 / 40) (3 / 10) True True True [],
      catalog_entry ''gemini-1.5-pro'' ''Gemini 1.5 Pro'' ''gemini'' Smart 2097152 8192
        (5 / 4) (5) True True True [],
      catalog_entry ''gemini-1.5-flash'' ''Gemini 1.5 Flash'' ''gemini'' Fast 1048576 8192
        (3 / 40) (3 / 10) True True True [],
      catalog_entry ''deepseek-chat'' ''DeepSeek V3'' ''deepseek'' Smart 64000 8192
        (27 / 100) (11 / 10) True False True [''deepseek'', ''deepseek-v3''],
      catalog_entry ''deepseek-reasoner'' ''DeepSeek R1'' ''deepseek'' Frontier 64000 8192
        (11 / 20) (219 / 100) False False True [''deepseek-r1''],
      catalog_entry ''deepseek-coder'' ''DeepSeek Coder V2'' ''deepseek'' Balanced 128000 8192
        (7 / 50) (7 / 25) True False True [],
      catalog_entry ''deepseek-chat-v3-0324'' ''DeepSeek V3 0324'' ''deepseek'' Smart 64000 8192
        (27 / 100) (11 / 10) True False True [],
      catalog_entry ''llama-3.3-70b-versatile'' ''Llama 3.3 70B'' ''groq'' Balanced 128000 32768
        (59 / 1000) (79 / 1000) True False True [''llama'', ''llama-70b''],
      catalog_entry ''llama-3.1-8b-instant'' ''Llama 3.1 8B'' ''groq'' Fast 128000 8192
        (1 / 20) (2 / 25) True False True [],
      catalog_entry ''llama-3.2-90b-vision-preview'' ''Llama 3.2 90B Vision'' ''groq'' Smart 128000 8192
        (9 / 10) (9 / 10) True True True []]"

definition models_5 :: "model_entry list" where
  "models_5 =
     [
      catalog_entry ''llama-3.2-11b-vision-preview'' ''Llama 3.2 11B Vision'' ''groq'' Balanced 128000 8192
        (9 / 50) (9 / 50) True True True [],
      catalog_entry ''llama-3.2-3b-preview'' ''Llama 3.2 3B'' ''groq'' Fast 128000 8192
        (3 / 50) (3 / 50) True False True [],
      catalog_entry ''llama-3.2-1b-preview'' ''Llama 3.2 1B'' ''groq'' Fast 128000 8192
        (1 / 25) (1 / 25) True False True [],
      catalog_entry ''deepseek-r1-distill-llama-70b'' ''DeepSeek R1 Distill 70B'' ''groq'' Smart 128000 16384
        (3 / 4) (99 / 100) True False True [],
      catalog_entry ''mixtral-8x7b-32768'' ''Mixtral 8x7B'' ''groq'' Balanced 32768 4096
        (3 / 125) (3 / 125) True False True [''mixtral''],
      catalog_entry ''gemma2-9b-it'' ''Gemma 2 9B'' ''groq'' Fast 8192 4096
        (1 / 50) (1 / 50) False False True [],
      catalog_entry ''qwen-qwq-32b'' ''Qwen QWQ 32B'' ''groq'' Balanced 128000 16384
        (1 / 5) (1 / 5) True False True [],
      catalog_entry ''meta-llama/llama-4-scout-17b-16e-instruct'' ''Llama 4 Scout 17B'' ''groq'' Balanced 128000 8192
        (11 / 100) (17 / 50) True True True [],
      catalog_entry ''openrouter/auto'' ''OpenRouter Auto'' ''openrouter'' Smart 200000 32000
        (1) (3) True True True [],
      catalog_entry ''openrouter/optimus'' ''OpenRouter Optimus'' ''openrouter'' Balanced 200000 32000
        (1 / 2) (3 / 2) True False True []]"

definition models_6 :: "model_entry list" where
  "models_6 =
     [
      catalog_entry ''openrouter/nitro'' ''OpenRouter Nitro'' ''openrouter'' Fast 128000 16000
        (1 / 5) (3 / 5) True False True [],
      catalog_entry ''openrouter/anthropic/claude-sonnet-4'' ''Claude Sonnet 4 (OpenRouter)'' ''openrouter'' Smart 200000 64000
        (3) (15) True True True [],
      catalog_entry ''openrouter/google/gemini-2.5-flash'' ''Gemini 2.5 Flash (OpenRouter)'' ''openrouter'' Smart 1048576 65536
        (3 / 20) (3 / 5) True True True [],
      catalog_entry ''mistral-large-latest'' ''Mistral Large'' ''mistral'' Smart 128000 8192
        (2) (6) True False True [''mistral''],
      catalog_entry ''mistral-medium-latest'' ''Mistral Medium'' ''mistral'' Balanced 128000 8192
        (27 / 10) (81 / 10) True False True [],
      catalog_entry ''mistral-small-latest'' ''Mistral Small'' ''mistral'' Fast 128000 8192
        (1 / 10) (3 / 10) True False True [],
      catalog_entry ''codestral-latest'' ''Codestral'' ''mistral'' Smart 32000 8192
        (3 / 10) (9 / 10) True False True [''codestral''],
      catalog_entry ''open-mistral-nemo'' ''Mistral Nemo'' ''mistral'' Fast 128000 8192
        (3 / 20) (3 / 20) True False True [''mistral-nemo''],
      catalog_entry ''pixtral-large-latest'' ''Pixtral Large'' ''mistral'' Smart 128000 8192
        (2) (6) True True True [''pixtral''],
      catalog_entry ''meta-llama/Meta-Llama-3.1-405B-Instruct-Turbo'' ''Llama 3.1 405B (Together)'' ''together'' Frontier 130000 4096
        (7 / 2) (7 / 2) True False True []]"

definition models_7 :: "model_entry list" where
  "models_7 =
     [
      catalog_entry ''meta-llama/Llama-3.3-70B-Instruct-Turbo'' ''Llama 3.3 70B (Together)'' ''together'' Smart 128000 4096
        (22 / 25) (22 / 25) True False True [],
      catalog_entry ''meta-llama/Llama-4-Maverick-17B-128E-Instruct-FP8'' ''Llama 4 Maverick (Together)'' ''together'' Smart 1048576 8192
        (27 / 100) (7 / 20) True False True [],
      catalog_entry ''meta-llama/Llama-4-Scout-17B-16E-Instruct'' ''Llama 4 Scout (Together)'' ''together'' Balanced 512000 8192
        (9 / 50) (3 / 10) True False True [],
      catalog_entry ''deepseek-ai/DeepSeek-R1'' ''DeepSeek R1 (Together)'' ''together'' Frontier 64000 8192
        (3) (7) False False True [],
      catalog_entry ''deepseek-ai/DeepSeek-V3'' ''DeepSeek V3 (Together)'' ''together'' Smart 64000 8192
        (9 / 10) (9 / 10) True False True [],
      catalog_entry ''Qwen/Qwen2.5-72B-Instruct-Turbo'' ''Qwen 2.5 72B (Together)'' ''together'' Smart 32768 4096
        (1 / 5) (3 / 5) True False True [],
      catalog_entry ''mistralai/Mixtral-8x22B-Instruct-v0.1'' ''Mixtral 8x22B (Together)'' ''together'' Balanced 65536 4096
        (3 / 5) (3 / 5) True False True [],
      catalog_entry ''accounts/fireworks/models/llama-v3p1-405b-instruct'' ''Llama 3.1 405B (Fireworks)'' ''fireworks'' Frontier 131072 16384
        (3) (3) True False True [],
      catalog_entry ''accounts/fireworks/models/llama-v3p3-70b-instruct'' ''Llama 3.3 70B (Fireworks)'' ''fireworks'' Smart 131072 16384
        (9 / 10) (9 / 10) True False True [],
      catalog_entry ''accounts/fireworks/models/deepseek-r1'' ''DeepSeek R1 (Fireworks)'' ''fireworks'' Frontier 64000 8192
        (3) (8) False False True []]"

definition models_8 :: "model_entry list" where
  "models_8 =
     [
      catalog_entry ''accounts/fireworks/models/deepseek-v3'' ''DeepSeek V3 (Fireworks)'' ''fireworks'' Smart 64000 8192
        (9 / 10) (9 / 10) True False True [],
      catalog_entry ''accounts/fireworks/models/mixtral-8x22b-instruct'' ''Mixtral 8x22B (Fireworks)'' ''fireworks'' Balanced 65536 4096
        (9 / 10) (9 / 10) True False True [],
      catalog_entry ''llama3.2'' ''Llama 3.2 (Ollama)'' ''ollama'' Local 128000 4096
        (0) (0) True False True [],
      catalog_entry ''llama3.1'' ''Llama 3.1 (Ollama)'' ''ollama'' Local 128000 4096
        (0) (0) True False True [],
      catalog_entry ''mistral:latest'' ''Mistral (Ollama)'' ''ollama'' Local 32768 4096
        (0) (0) True False True [],
      catalog_entry ''qwen2.5'' ''Qwen 2.5 (Ollama)'' ''ollama'' Local 32768 4096
        (0) (0) True False True [],
      catalog_entry ''phi3'' ''Phi-3 (Ollama)'' ''ollama'' Local 128000 4096
        (0) (0) False False True [],
      catalog_entry ''deepseek-r1:latest'' ''DeepSeek R1 (Ollama)'' ''ollama'' Local 64000 4096
        (0) (0) False False True [],
      catalog_entry ''vllm-local'' ''vLLM Local Model'' ''vllm'' Local 32768 4096
        (0) (0) True False True [],
      catalog_entry ''lmstudio-local'' ''LM Studio Local Model'' ''lmstudio'' Local 32768 4096
        (0) (0) True False True []]"

definition models_9 :: "model_entry list" where
  "models_9 =
     [
      catalog_entry ''sonar-pro'' ''Sonar Pro'' ''perplexity'' Smart 200000 8192
        (3) (15) False False True [''sonar''],
      catalog_entry ''sonar-reasoning-pro'' ''Sonar Reasoning Pro'' ''perplexity'' Frontier 200000 8192
        (2) (8) False False True [],
      catalog_entry ''sonar-reasoning'' ''Sonar Reasoning'' ''perplexity'' Balanced 128000 8192
        (1) (5) False False True [],
      catalog_entry ''sonar-basic'' ''Sonar'' ''perplexity'' Fast 128000 8192
        (1) (5) False False True [],
      catalog_entry ''command-r-plus'' ''Command R+'' ''cohere'' Smart 128000 4096
        (5 / 2) (10) True False True [''command-r''],
      catalog_entry ''command-r-08-2024'' ''Command R (Aug 2024)'' ''cohere'' Balanced 128000 4096
        (3 / 20) (3 / 5) True False True [],
      catalog_entry ''command-a'' ''Command A'' ''cohere'' Smart 256000 8192
        (5 / 2) (10) True False True [],
      catalog_entry ''command-light'' ''Command Light'' ''cohere'' Fast 4096 4096
        (3 / 10) (3 / 5) True False True [],
      catalog_entry ''jamba-1.5-large'' ''Jamba 1.5 Large'' ''ai21'' Smart 256000 4096
        (2) (8) True False True [''jamba''],
      catalog_entry ''jamba-1.5-mini'' ''Jamba 1.5 Mini'' ''ai21'' Fast 256000 4096
        (1 / 5) (2 / 5) True False True []]"

definition models_10 :: "model_entry list" where
  "models_10 =
     [
      catalog_entry ''jamba-instruct'' ''Jamba Instruct'' ''ai21'' Balanced 256000 4096
        (1 / 2) (7 / 10) True False True [],
      catalog_entry ''cerebras/llama3.3-70b'' ''Llama 3.3 70B (Cerebras)'' ''cerebras'' Balanced 128000 8192
        (3 / 50) (3 / 50) True False True [],
      catalog_entry ''cerebras/llama3.1-8b'' ''Llama 3.1 8B (Cerebras)'' ''cerebras'' Fast 128000 8192
        (1 / 100) (1 / 100) True False True [],
      catalog_entry ''cerebras/llama-4-scout-17b'' ''Llama 4 Scout (Cerebras)'' ''cerebras'' Smart 512000 8192
        (1 / 10) (1 / 10) True False True [],
      catalog_entry ''cerebras/qwen-2.5-32b'' ''Qwen 2.5 32B (Cerebras)'' ''cerebras'' Balanced 32768 8192
        (3 / 50) (3 / 50) True False True [],
      catalog_entry ''sambanova/llama-3.3-70b'' ''Llama 3.3 70B (SambaNova)'' ''sambanova'' Balanced 128000 8192
        (3 / 50) (3 / 50) True False True [],
      catalog_entry ''sambanova/deepseek-r1'' ''DeepSeek R1 (SambaNova)'' ''sambanova'' Smart 64000 8192
        (3 / 50) (3 / 50) False False True [],
      catalog_entry ''sambanova/qwen-2.5-72b'' ''Qwen 2.5 72B (SambaNova)'' ''sambanova'' Smart 32768 8192
        (3 / 50) (3 / 50) True False True [],
      catalog_entry ''grok-4'' ''Grok 4'' ''xai'' Frontier 256000 32768
        (3) (15) True True True [''grok''],
      catalog_entry ''grok-4.1-fast'' ''Grok 4.1 Fast'' ''xai'' Fast 2000000 32768
        (1 / 5) (1 / 2) True False True [''grok-fast'']]"

definition models_11 :: "model_entry list" where
  "models_11 =
     [
      catalog_entry ''grok-3'' ''Grok 3'' ''xai'' Frontier 131072 32768
        (3) (15) True True True [''grok3''],
      catalog_entry ''grok-3-mini'' ''Grok 3 Mini'' ''xai'' Balanced 131072 32768
        (3 / 10) (1 / 2) True False True [],
      catalog_entry ''grok-2'' ''Grok 2'' ''xai'' Smart 131072 32768
        (2) (10) True True True [],
      catalog_entry ''grok-2-mini'' ''Grok 2 Mini'' ''xai'' Fast 131072 32768
        (3 / 10) (1 / 2) True False True [''grok-mini''],
      catalog_entry ''hf/meta-llama/Llama-3.3-70B-Instruct'' ''Llama 3.3 70B (HF)'' ''huggingface'' Balanced 128000 4096
        (3 / 10) (3 / 10) False False True [],
      catalog_entry ''hf/deepseek-ai/DeepSeek-R1'' ''DeepSeek R1 (HF)'' ''huggingface'' Smart 64000 4096
        (3 / 10) (3 / 10) False False True [],
      catalog_entry ''hf/Qwen/Qwen2.5-72B-Instruct'' ''Qwen 2.5 72B (HF)'' ''huggingface'' Balanced 32768 4096
        (3 / 10) (3 / 10) False False True [],
      catalog_entry ''replicate/meta-llama-3.3-70b-instruct'' ''Llama 3.3 70B (Replicate)'' ''replicate'' Balanced 128000 4096
        (2 / 5) (2 / 5) False False True [],
      catalog_entry ''replicate/deepseek-r1'' ''DeepSeek R1 (Replicate)'' ''replicate'' Smart 64000 4096
        (2 / 5) (2 / 5) False False True [],
      catalog_entry ''replicate/mistral-7b-instruct'' ''Mistral 7B (Replicate)'' ''replicate'' Fast 32768 4096
        (1 / 20) (1 / 4) False False True []]"

definition models_12 :: "model_entry list" where
  "models_12 =
     [
      catalog_entry ''copilot/gpt-4o'' ''GPT-4o (Copilot)'' ''github-copilot'' Smart 128000 4096
        (0) (0) True True True [''copilot-gpt4o''],
      catalog_entry ''copilot/gpt-4'' ''GPT-4 (Copilot)'' ''github-copilot'' Frontier 128000 4096
        (0) (0) True False True [''copilot-gpt4''],
      catalog_entry ''qwen-max'' ''Qwen Max'' ''qwen'' Frontier 32768 8192
        (4) (12) True False True [],
      catalog_entry ''qwen-plus'' ''Qwen Plus'' ''qwen'' Smart 131072 8192
        (4 / 5) (2) True False True [''qwen''],
      catalog_entry ''qwen-turbo'' ''Qwen Turbo'' ''qwen'' Fast 131072 8192
        (3 / 10) (3 / 5) True False True [],
      catalog_entry ''qwen-vl-plus'' ''Qwen VL Plus'' ''qwen'' Smart 32768 8192
        (3 / 2) (9 / 2) False True True [],
      catalog_entry ''qwen-coder-plus'' ''Qwen Coder Plus'' ''qwen'' Smart 131072 8192
        (4 / 5) (2) True False True [],
      catalog_entry ''qwen-long'' ''Qwen Long'' ''qwen'' Balanced 1000000 8192
        (1 / 2) (2) True False True [],
      catalog_entry ''MiniMax-M2.5'' ''MiniMax M2.5'' ''minimax'' Smart 1048576 16384
        (1) (3) True False True [''minimax2.5''],
      catalog_entry ''minimax-text-01'' ''MiniMax Text 01'' ''minimax'' Smart 1048576 16384
        (1) (3) True False True [''minimax'']]"

definition models_13 :: "model_entry list" where
  "models_13 =
     [
      catalog_entry ''MiniMax-M2.1'' ''MiniMax M2.1'' ''minimax'' Smart 1048576 16384
        (1) (3) True False True [],
      catalog_entry ''abab6.5-chat'' ''ABAB 6.5 Chat'' ''minimax'' Balanced 245760 8192
        (1 / 2) (3 / 2) True False True [],
      catalog_entry ''glm-4-plus'' ''GLM-4 Plus'' ''zhipu'' Smart 131072 8192
        (3 / 2) (5) True False True [''glm''],
      catalog_entry ''glm-4-flash'' ''GLM-4 Flash'' ''zhipu'' Fast 131072 8192
        (1 / 10) (1 / 10) True False True [],
      catalog_entry ''glm-4v-plus'' ''GLM-4V Plus'' ''zhipu'' Smart 8192 4096
        (2) (5) True True True [],
      catalog_entry ''glm-4-long'' ''GLM-4 Long'' ''zhipu'' Balanced 1000000 8192
        (1 / 10) (1 / 10) True False True [],
      catalog_entry ''codegeex-4'' ''CodeGeeX 4'' ''zhipu_coding'' Smart 131072 8192
        (1 / 10) (1 / 10) True False True [''codegeex''],
      catalog_entry ''moonshot-v1-128k'' ''Moonshot V1 128K'' ''moonshot'' Smart 131072 8192
        (4 / 5) (4 / 5) True False True [''kimi''],
      catalog_entry ''moonshot-v1-32k'' ''Moonshot V1 32K'' ''moonshot'' Balanced 32768 8192
        (3 / 10) (3 / 10) True False True [],
      catalog_entry ''moonshot-v1-8k'' ''Moonshot V1 8K'' ''moonshot'' Fast 8192 4096
        (1 / 10) (1 / 10) True False True []]"

definition models_14 :: "model_entry list" where
  "models_14 =
     [
      catalog_entry ''ernie-4.5-8k'' ''ERNIE 4.5 8K'' ''qianfan'' Smart 8192 4096
        (2) (6) True False True [''ernie''],
      catalog_entry ''ernie-4.0-turbo-8k'' ''ERNIE 4.0 Turbo 8K'' ''qianfan'' Balanced 8192 4096
        (1) (3) True False True [],
      catalog_entry ''ernie-speed-128k'' ''ERNIE Speed 128K'' ''qianfan'' Fast 131072 4096
        (0) (0) True False True [],
      catalog_entry ''bedrock/anthropic.claude-opus-4-6'' ''Claude Opus 4.6 (Bedrock)'' ''bedrock'' Frontier 200000 128000
        (5) (25) True True True [],
      catalog_entry ''bedrock/anthropic.claude-sonnet-4-6'' ''Claude Sonnet 4.6 (Bedrock)'' ''bedrock'' Smart 200000 64000
        (3) (15) True True True [],
      catalog_entry ''bedrock/anthropic.claude-opus-4-20250514'' ''Claude Opus 4 (Bedrock)'' ''bedrock'' Frontier 200000 32000
        (15) (75) True True True [],
      catalog_entry ''bedrock/anthropic.claude-sonnet-4-20250514'' ''Claude Sonnet 4 (Bedrock)'' ''bedrock'' Smart 200000 64000
        (3) (15) True True True [],
      catalog_entry ''bedrock/anthropic.claude-haiku-4-5-20251001'' ''Claude Haiku 4.5 (Bedrock)'' ''bedrock'' Fast 200000 8192
        (1 / 4) (5 / 4) True True True [],
      catalog_entry ''bedrock/amazon.nova-pro-v1:0'' ''Amazon Nova Pro (Bedrock)'' ''bedrock'' Smart 300000 5120
        (4 / 5) (16 / 5) True True True [],
      catalog_entry ''bedrock/amazon.nova-lite-v1:0'' ''Amazon Nova Lite (Bedrock)'' ''bedrock'' Fast 300000 5120
        (3 / 50) (6 / 25) True True True []]"

definition models_15 :: "model_entry list" where
  "models_15 =
     [
      catalog_entry ''bedrock/meta.llama3-3-70b-instruct-v1:0'' ''Llama 3.3 70B (Bedrock)'' ''bedrock'' Balanced 128000 4096
        (18 / 25) (18 / 25) True False True []]"

definition builtin_models :: "model_entry list" where
  "builtin_models =
     models_1 @ models_2 @ models_3 @ models_4 @ models_5 @ models_6 @ models_7 @ models_8 @ models_9 @ models_10 @ models_11 @ models_12 @ models_13 @ models_14 @ models_15"

definition providers_1 :: "provider_info list" where
  "providers_1 =
     [
      provider_entry ''anthropic'' ''Anthropic'' ''ANTHROPIC_API_KEY''
        ''https://api.anthropic.com'' True Missing,
      provider_entry ''openai'' ''OpenAI'' ''OPENAI_API_KEY''
        ''https://api.openai.com/v1'' True Missing,
      provider_entry ''gemini'' ''Google Gemini'' ''GEMINI_API_KEY''
        ''https://generativelanguage.googleapis.com'' True Missing,
      provider_entry ''deepseek'' ''DeepSeek'' ''DEEPSEEK_API_KEY''
        ''https://api.deepseek.com/v1'' True Missing,
      provider_entry ''groq'' ''Groq'' ''GROQ_API_KEY''
        ''https://api.groq.com/openai/v1'' True Missing,
      provider_entry ''openrouter'' ''OpenRouter'' ''OPENROUTER_API_KEY''
        ''https://openrouter.ai/api/v1'' True Missing,
      provider_entry ''mistral'' ''Mistral AI'' ''MISTRAL_API_KEY''
        ''https://api.mistral.ai/v1'' True Missing,
      provider_entry ''together'' ''Together AI'' ''TOGETHER_API_KEY''
        ''https://api.together.xyz/v1'' True Missing,
      provider_entry ''fireworks'' ''Fireworks AI'' ''FIREWORKS_API_KEY''
        ''https://api.fireworks.ai/inference/v1'' True Missing,
      provider_entry ''ollama'' ''Ollama'' ''OLLAMA_API_KEY''
        ''http://localhost:11434/v1'' False NotRequired,
      provider_entry ''vllm'' ''vLLM'' ''VLLM_API_KEY''
        ''http://localhost:8000/v1'' False NotRequired,
      provider_entry ''lmstudio'' ''LM Studio'' ''LMSTUDIO_API_KEY''
        ''http://localhost:1234/v1'' False NotRequired,
      provider_entry ''perplexity'' ''Perplexity AI'' ''PERPLEXITY_API_KEY''
        ''https://api.perplexity.ai'' True Missing,
      provider_entry ''cohere'' ''Cohere'' ''COHERE_API_KEY''
        ''https://api.cohere.com/v2'' True Missing]"

definition providers_2 :: "provider_info list" where
  "providers_2 =
     [
      provider_entry ''ai21'' ''AI21 Labs'' ''AI21_API_KEY''
        ''https://api.ai21.com/studio/v1'' True Missing,
      provider_entry ''cerebras'' ''Cerebras'' ''CEREBRAS_API_KEY''
        ''https://api.cerebras.ai/v1'' True Missing,
      provider_entry ''sambanova'' ''SambaNova'' ''SAMBANOVA_API_KEY''
        ''https://api.sambanova.ai/v1'' True Missing,
      provider_entry ''huggingface'' ''Hugging Face'' ''HF_API_KEY''
        ''https://api-inference.huggingface.co/v1'' True Missing,
      provider_entry ''xai'' ''xAI'' ''XAI_API_KEY''
        ''https://api.x.ai/v1'' True Missing,
      provider_entry ''replicate'' ''Replicate'' ''REPLICATE_API_TOKEN''
        ''https://api.replicate.com/v1'' True Missing,
      provider_entry ''github-copilot'' ''GitHub Copilot'' ''GITHUB_TOKEN''
        ''https://api.githubcopilot.com'' True Missing,
      provider_entry ''qwen'' ''Qwen (Alibaba)'' ''DASHSCOPE_API_KEY''
        ''https://dashscope.aliyuncs.com/compatible-mode/v1'' True Missing,
      provider_entry ''minimax'' ''MiniMax'' ''MINIMAX_API_KEY''
        ''https://api.minimax.io/v1'' True Missing,
      provider_entry ''zhipu'' ''Zhipu AI (GLM)'' ''ZHIPU_API_KEY''
        ''https://open.bigmodel.cn/api/paas/v4'' True Missing,
      provider_entry ''zhipu_coding'' ''Zhipu Coding (CodeGeeX)'' ''ZHIPU_API_KEY''
        ''https://open.bigmodel.cn/api/paas/v4'' True Missing,
      provider_entry ''moonshot'' ''Moonshot (Kimi)'' ''MOONSHOT_API_KEY''
        ''https://api.moonshot.cn/v1'' True Missing,
      provider_entry ''qianfan'' ''Baidu Qianfan'' ''QIANFAN_API_KEY''
        ''https://qianfan.baidubce.com/v2'' True Missing,
      provider_entry ''bedrock'' ''AWS Bedrock'' ''AWS_ACCESS_KEY_ID''
        ''https://bedrock-runtime.us-east-1.amazonaws.com'' True Missing]"

definition builtin_providers :: "provider_info list" where
  "builtin_providers = providers_1 @ providers_2"

definition builtin_aliases :: "(string \<times> string) list" where
  "builtin_aliases =
     [
      (''sonnet'', ''claude-sonnet-4-6''),
      (''claude-sonnet'', ''claude-sonnet-4-6''),
      (''haiku'', ''claude-haiku-4-5-20251001''),
      (''claude-haiku'', ''claude-haiku-4-5-20251001''),
      (''opus'', ''claude-opus-4-6''),
      (''claude-opus'', ''claude-opus-4-6''),
      (''gpt4'', ''gpt-4o''),
      (''gpt4o'', ''gpt-4o''),
      (''gpt4-mini'', ''gpt-4o-mini''),
      (''gpt5'', ''gpt-5.2''),
      (''gpt5-mini'', ''gpt-5-mini''),
      (''flash'', ''gemini-3-flash''),
      (''gemini-flash'', ''gemini-3-flash''),
      (''gemini-pro'', ''gemini-3.1-pro''),
      (''deepseek'', ''deepseek-chat''),
      (''llama'', ''llama-3.3-70b-versatile''),
      (''llama-70b'', ''llama-3.3-70b-versatile''),
      (''mixtral'', ''mixtral-8x7b-32768''),
      (''mistral'', ''mistral-large-latest''),
      (''codestral'', ''codestral-latest''),
      (''deepseek-v3'', ''deepseek-chat''),
      (''deepseek-r1'', ''deepseek-reasoner''),
      (''mistral-nemo'', ''open-mistral-nemo''),
      (''pixtral'', ''pixtral-large-latest''),
      (''grok'', ''grok-4''),
      (''grok-mini'', ''grok-2-mini''),
      (''grok3'', ''grok-3''),
      (''grok-fast'', ''grok-4.1-fast''),
      (''sonar'', ''sonar-pro''),
      (''jamba'', ''jamba-1.5-large''),
      (''command-r'', ''command-r-plus''),
      (''command'', ''command-a''),
      (''copilot'', ''copilot/gpt-4o''),
      (''copilot-4o'', ''copilot/gpt-4o''),
      (''copilot-4'', ''copilot/gpt-4''),
      (''copilot-gpt4o'', ''copilot/gpt-4o''),
      (''copilot-gpt4'', ''copilot/gpt-4''),
      (''qwen'', ''qwen-plus''),
      (''glm'', ''glm-4-plus''),
      (''ernie'', ''ernie-4.5-8k''),
      (''kimi'', ''moonshot-v1-128k''),
      (''minimax'', ''minimax-text-01''),
      (''codegeex'', ''codegeex-4'')]"

section \<open>The catalog\<close>

record model_catalog =
  models :: "model_entry list"
  aliases :: "(string \<times> string) list"
  providers :: "provider_info list"

definition models_of :: "string \<Rightarrow> model_entry list \<Rightarrow> nat" where
  "models_of p ms = length (filter (\<lambda>m. model_provider m = p) ms)"

definition new_catalog :: model_catalog where
  "new_catalog =
     \<lparr>models = builtin_models, aliases = builtin_aliases,
      providers = map (\<lambda>p. p\<lparr>model_count := models_of (provider_id p) builtin_models\<rparr>) builtin_providers\<rparr>"

definition has_nonempty_env_var :: "(string \<Rightarrow> string option) \<Rightarrow> string \<Rightarrow> bool" where
  "has_nonempty_env_var env n = (case env n of None \<Rightarrow> False | Some v \<Rightarrow> trim v \<noteq> [])"

definition detect_auth :: "(string \<Rightarrow> string option) \<Rightarrow> model_catalog \<Rightarrow> model_catalog" where
  "detect_auth env c =
     c\<lparr>providers := map (\<lambda>p. p\<lparr>auth_status :=
         (if \<not> key_required p then NotRequired
          else if has_nonempty_env_var env (provider_key_env p) then Configured
          else if provider_id p = ''gemini'' \<and> has_nonempty_env_var env ''GOOGLE_API_KEY'' then Configured
          else Missing)\<rparr>) (providers c)\<rparr>"

definition find_model :: "model_catalog \<Rightarrow> string \<Rightarrow> model_entry option" where
  "find_model c x =
     (let lower = to_lowercase x
      in case find (\<lambda>m. to_lowercase (model_id m) = lower) (models c) of
           Some m \<Rightarrow> Some m
         | None \<Rightarrow>
             (case map_of (aliases c) lower of
                Some canonical \<Rightarrow> find (\<lambda>m. model_id m = canonical) (models c)
              | None \<Rightarrow> None))"

definition resolve_alias :: "model_catalog \<Rightarrow> string \<Rightarrow> string option" where
  "resolve_alias c x = map_of (aliases c) (to_lowercase x)"

definition get_provider :: "model_catalog \<Rightarrow> string \<Rightarrow> provider_info option" where
  "get_provider c i = find (\<lambda>p. provider_id p = i) (providers c)"

definition models_by_provider :: "model_catalog \<Rightarrow> string \<Rightarrow> model_entry list" where
  "models_by_provider c p = filter (\<lambda>m. model_provider m = p) (models c)"

definition available_models :: "model_catalog \<Rightarrow> model_entry list" where
  "available_models c =
     (let configured = map provider_id (filter (\<lambda>p. auth_status p \<noteq> Missing) (providers c))
      in filter (\<lambda>m. model_provider m \<in> set configured) (models c))"

definition pricing :: "model_catalog \<Rightarrow> string \<Rightarrow> (rat \<times> rat) option" where
  "pricing c i = map_option (\<lambda>m. (input_cost_per_m m, output_cost_per_m m)) (find_model c i)"

definition models_by_tier :: "model_catalog \<Rightarrow> model_tier \<Rightarrow> model_entry list" where
  "models_by_tier c t = filter (\<lambda>m. tier m = t) (models c)"

text \<open>The first provider with an identifier is changed in place.\<close>

fun change_first :: "string \<Rightarrow> (provider_info \<Rightarrow> provider_info) \<Rightarrow> provider_info list \<Rightarrow> provider_info list" where
  "change_first i f [] = []"
| "change_first i f (p # ps) = (if provider_id p = i then f p # ps else p # change_first i f ps)"

definition set_provider_url :: "string \<Rightarrow> string \<Rightarrow> model_catalog \<Rightarrow> bool \<times> model_catalog" where
  "set_provider_url i url c =
     (if get_provider c i = None then (False, c)
      else (True, c\<lparr>providers := change_first i (\<lambda>p. p\<lparr>provider_url := url\<rparr>) (providers c)\<rparr>))"

definition apply_url_overrides :: "(string \<times> string) list \<Rightarrow> model_catalog \<Rightarrow> model_catalog" where
  "apply_url_overrides overrides c = foldl (\<lambda>c (i, url). snd (set_provider_url i url c)) c overrides"

definition discovered_model :: "string \<Rightarrow> string \<Rightarrow> model_entry" where
  "discovered_model p i =
     catalog_entry i (i @ '' ('' @ p @ '')'') p Local 32768 4096 0 0 True False True []"

definition merge_discovered_models :: "string \<Rightarrow> string list \<Rightarrow> model_catalog \<Rightarrow> model_catalog" where
  "merge_discovered_models p ids c =
     (let existing = map (\<lambda>m. to_lowercase (model_id m)) (filter (\<lambda>m. model_provider m = p) (models c));
          added = filter (\<lambda>i. to_lowercase i \<notin> set existing) ids;
          ms = models c @ map (discovered_model p) added
      in if added = [] then c
         else c\<lparr>models := ms,
                providers := change_first p (\<lambda>q. q\<lparr>model_count := models_of p ms\<rparr>) (providers c)\<rparr>)"

section \<open>The built-in data\<close>

lemmas model_groups =
  models_1_def models_2_def models_3_def models_4_def models_5_def models_6_def models_7_def models_8_def models_9_def models_10_def models_11_def models_12_def models_13_def models_14_def models_15_def

definition builtin_ids :: "string list" where
  "builtin_ids = map model_id builtin_models"

lemma builtin_ids_eval: "builtin_ids =
  [''claude-opus-4-6'', ''claude-sonnet-4-6'', ''claude-opus-4-20250514'', ''claude-sonnet-4-20250514'', ''claude-haiku-4-5-20251001'', ''claude-sonnet-4-5-20250514'', ''claude-3-5-sonnet-20241022'', ''gpt-4o'', ''gpt-4o-mini'', ''gpt-4.1'', ''gpt-4.1-mini'', ''gpt-4.1-nano'', ''o3'', ''o3-mini'', ''o4-mini'', ''gpt-4-turbo'', ''gpt-3.5-turbo'', ''gpt-5'', ''gpt-5-mini'', ''gpt-5-nano'', ''gpt-5.1'', ''gpt-5.2'', ''gpt-5.2-pro'', ''gemini-3.1-pro'', ''gemini-3-flash'', ''gemini-3-deep-think'', ''gemini-2.5-flash-lite'', ''gemini-2.5-pro'', ''gemini-2.5-flash'', ''gemini-2.0-flash'', ''gemini-2.0-flash-lite'', ''gemini-1.5-pro'', ''gemini-1.5-flash'', ''deepseek-chat'', ''deepseek-reasoner'', ''deepseek-coder'', ''deepseek-chat-v3-0324'', ''llama-3.3-70b-versatile'', ''llama-3.1-8b-instant'', ''llama-3.2-90b-vision-preview'', ''llama-3.2-11b-vision-preview'', ''llama-3.2-3b-preview'', ''llama-3.2-1b-preview'', ''deepseek-r1-distill-llama-70b'', ''mixtral-8x7b-32768'', ''gemma2-9b-it'', ''qwen-qwq-32b'', ''meta-llama/llama-4-scout-17b-16e-instruct'', ''openrouter/auto'', ''openrouter/optimus'', ''openrouter/nitro'', ''openrouter/anthropic/claude-sonnet-4'', ''openrouter/google/gemini-2.5-flash'', ''mistral-large-latest'', ''mistral-medium-latest'', ''mistral-small-latest'', ''codestral-latest'', ''open-mistral-nemo'', ''pixtral-large-latest'', ''meta-llama/Meta-Llama-3.1-405B-Instruct-Turbo'', ''meta-llama/Llama-3.3-70B-Instruct-Turbo'', ''meta-llama/Llama-4-Maverick-17B-128E-Instruct-FP8'', ''meta-llama/Llama-4-Scout-17B-16E-Instruct'', ''deepseek-ai/DeepSeek-R1'', ''deepseek-ai/DeepSeek-V3'', ''Qwen/Qwen2.5-72B-Instruct-Turbo'', ''mistralai/Mixtral-8x22B-Instruct-v0.1'', ''accounts/fireworks/models/llama-v3p1-405b-instruct'', ''accounts/fireworks/models/llama-v3p3-70b-instruct'', ''accounts/fireworks/models/deepseek-r1'', ''accounts/fireworks/models/deepseek-v3'', ''accounts/fireworks/models/mixtral-8x22b-instruct'', ''llama3.2'', ''llama3.1'', ''mistral:latest'', ''qwen2.5'', ''phi3'', ''deepseek-r1:latest'', ''vllm-local'', ''lmstudio-local'', ''sonar-pro'', ''sonar-reasoning-pro'', ''sonar-reasoning'', ''sonar-basic'', ''command-r-plus'', ''command-r-08-2024'', ''command-a'', ''command-light'', ''jamba-1.5-large'', ''jamba-1.5-mini'', ''jamba-instruct'', ''cerebras/llama3.3-70b'', ''cerebras/llama3.1-8b'', ''cerebras/llama-4-scout-17b'', ''cerebras/qwen-2.5-32b'', ''sambanova/llama-3.3-70b'', ''sambanova/deepseek-r1'', ''sambanova/qwen-2.5-72b'', ''grok-4'', ''grok-4.1-fast'', ''grok-3'', ''grok-3-mini'', ''grok-2'', ''grok-2-mini'', ''hf/meta-llama/Llama-3.3-70B-Instruct'', ''hf/deepseek-ai/DeepSeek-R1'', ''hf/Qwen/Qwen2.5-72B-Instruct'', ''replicate/meta-llama-3.3-70b-instruct'', ''replicate/deepseek-r1'', ''replicate/mistral-7b-instruct'', ''copilot/gpt-4o'', ''copilot/gpt-4'', ''qwen-max'', ''qwen-plus'', ''qwen-turbo'', ''qwen-vl-plus'', ''qwen-coder-plus'', ''qwen-long'', ''MiniMax-M2.5'', ''minimax-text-01'', ''MiniMax-M2.1'', ''abab6.5-chat'', ''glm-4-plus'', ''glm-4-flash'', ''glm-4v-plus'', ''glm-4-long'', ''codegeex-4'', ''moonshot-v1-128k'', ''moonshot-v1-32k'', ''moonshot-v1-8k'', ''ernie-4.5-8k'', ''ernie-4.0-turbo-8k'', ''ernie-speed-128k'', ''bedrock/anthropic.claude-opus-4-6'', ''bedrock/anthropic.claude-sonnet-4-6'', ''bedrock/anthropic.claude-opus-4-20250514'', ''bedrock/anthropic.claude-sonnet-4-20250514'', ''bedrock/anthropic.claude-haiku-4-5-20251001'', ''bedrock/amazon.nova-pro-v1:0'', ''bedrock/amazon.nova-lite-v1:0'', ''bedrock/meta.llama3-3-70b-instruct-v1:0'']"
  by (simp add: builtin_ids_def builtin_models_def model_groups catalog_entry_def)

text \<open>The lower case of the characters that occur, one rule for each.\<close>

lemma lower_chars:
  "to_lowercase (CHR ''-'' # s) = CHR ''-'' # to_lowercase s"
  "to_lowercase (CHR ''.'' # s) = CHR ''.'' # to_lowercase s"
  "to_lowercase (CHR ''/'' # s) = CHR ''/'' # to_lowercase s"
  "to_lowercase (CHR ''0'' # s) = CHR ''0'' # to_lowercase s"
  "to_lowercase (CHR ''1'' # s) = CHR ''1'' # to_lowercase s"
  "to_lowercase (CHR ''2'' # s) = CHR ''2'' # to_lowercase s"
  "to_lowercase (CHR ''3'' # s) = CHR ''3'' # to_lowercase s"
  "to_lowercase (CHR ''4'' # s) = CHR ''4'' # to_lowercase s"
  "to_lowercase (CHR ''5'' # s) = CHR ''5'' # to_lowercase s"
  "to_lowercase (CHR ''6'' # s) = CHR ''6'' # to_lowercase s"
  "to_lowercase (CHR ''7'' # s) = CHR ''7'' # to_lowercase s"
  "to_lowercase (CHR ''8'' # s) = CHR ''8'' # to_lowercase s"
  "to_lowercase (CHR ''9'' # s) = CHR ''9'' # to_lowercase s"
  "to_lowercase (CHR '':'' # s) = CHR '':'' # to_lowercase s"
  "to_lowercase (CHR ''B'' # s) = CHR ''b'' # to_lowercase s"
  "to_lowercase (CHR ''D'' # s) = CHR ''d'' # to_lowercase s"
  "to_lowercase (CHR ''E'' # s) = CHR ''e'' # to_lowercase s"
  "to_lowercase (CHR ''F'' # s) = CHR ''f'' # to_lowercase s"
  "to_lowercase (CHR ''I'' # s) = CHR ''i'' # to_lowercase s"
  "to_lowercase (CHR ''L'' # s) = CHR ''l'' # to_lowercase s"
  "to_lowercase (CHR ''M'' # s) = CHR ''m'' # to_lowercase s"
  "to_lowercase (CHR ''P'' # s) = CHR ''p'' # to_lowercase s"
  "to_lowercase (CHR ''Q'' # s) = CHR ''q'' # to_lowercase s"
  "to_lowercase (CHR ''R'' # s) = CHR ''r'' # to_lowercase s"
  "to_lowercase (CHR ''S'' # s) = CHR ''s'' # to_lowercase s"
  "to_lowercase (CHR ''T'' # s) = CHR ''t'' # to_lowercase s"
  "to_lowercase (CHR ''V'' # s) = CHR ''v'' # to_lowercase s"
  "to_lowercase (CHR ''a'' # s) = CHR ''a'' # to_lowercase s"
  "to_lowercase (CHR ''b'' # s) = CHR ''b'' # to_lowercase s"
  "to_lowercase (CHR ''c'' # s) = CHR ''c'' # to_lowercase s"
  "to_lowercase (CHR ''d'' # s) = CHR ''d'' # to_lowercase s"
  "to_lowercase (CHR ''e'' # s) = CHR ''e'' # to_lowercase s"
  "to_lowercase (CHR ''f'' # s) = CHR ''f'' # to_lowercase s"
  "to_lowercase (CHR ''g'' # s) = CHR ''g'' # to_lowercase s"
  "to_lowercase (CHR ''h'' # s) = CHR ''h'' # to_lowercase s"
  "to_lowercase (CHR ''i'' # s) = CHR ''i'' # to_lowercase s"
  "to_lowercase (CHR ''j'' # s) = CHR ''j'' # to_lowercase s"
  "to_lowercase (CHR ''k'' # s) = CHR ''k'' # to_lowercase s"
  "to_lowercase (CHR ''l'' # s) = CHR ''l'' # to_lowercase s"
  "to_lowercase (CHR ''m'' # s) = CHR ''m'' # to_lowercase s"
  "to_lowercase (CHR ''n'' # s) = CHR ''n'' # to_lowercase s"
  "to_lowercase (CHR ''o'' # s) = CHR ''o'' # to_lowercase s"
  "to_lowercase (CHR ''p'' # s) = CHR ''p'' # to_lowercase s"
  "to_lowercase (CHR ''q'' # s) = CHR ''q'' # to_lowercase s"
  "to_lowercase (CHR ''r'' # s) = CHR ''r'' # to_lowercase s"
  "to_lowercase (CHR ''s'' # s) = CHR ''s'' # to_lowercase s"
  "to_lowercase (CHR ''t'' # s) = CHR ''t'' # to_lowercase s"
  "to_lowercase (CHR ''u'' # s) = CHR ''u'' # to_lowercase s"
  "to_lowercase (CHR ''v'' # s) = CHR ''v'' # to_lowercase s"
  "to_lowercase (CHR ''w'' # s) = CHR ''w'' # to_lowercase s"
  "to_lowercase (CHR ''x'' # s) = CHR ''x'' # to_lowercase s"
  "to_lowercase (CHR ''z'' # s) = CHR ''z'' # to_lowercase s"
  by (simp_all add: ascii_lower_def) (code_simp+)

lemma builtin_lower_eval: "map to_lowercase builtin_ids =
  [''claude-opus-4-6'', ''claude-sonnet-4-6'', ''claude-opus-4-20250514'', ''claude-sonnet-4-20250514'', ''claude-haiku-4-5-20251001'', ''claude-sonnet-4-5-20250514'', ''claude-3-5-sonnet-20241022'', ''gpt-4o'', ''gpt-4o-mini'', ''gpt-4.1'', ''gpt-4.1-mini'', ''gpt-4.1-nano'', ''o3'', ''o3-mini'', ''o4-mini'', ''gpt-4-turbo'', ''gpt-3.5-turbo'', ''gpt-5'', ''gpt-5-mini'', ''gpt-5-nano'', ''gpt-5.1'', ''gpt-5.2'', ''gpt-5.2-pro'', ''gemini-3.1-pro'', ''gemini-3-flash'', ''gemini-3-deep-think'', ''gemini-2.5-flash-lite'', ''gemini-2.5-pro'', ''gemini-2.5-flash'', ''gemini-2.0-flash'', ''gemini-2.0-flash-lite'', ''gemini-1.5-pro'', ''gemini-1.5-flash'', ''deepseek-chat'', ''deepseek-reasoner'', ''deepseek-coder'', ''deepseek-chat-v3-0324'', ''llama-3.3-70b-versatile'', ''llama-3.1-8b-instant'', ''llama-3.2-90b-vision-preview'', ''llama-3.2-11b-vision-preview'', ''llama-3.2-3b-preview'', ''llama-3.2-1b-preview'', ''deepseek-r1-distill-llama-70b'', ''mixtral-8x7b-32768'', ''gemma2-9b-it'', ''qwen-qwq-32b'', ''meta-llama/llama-4-scout-17b-16e-instruct'', ''openrouter/auto'', ''openrouter/optimus'', ''openrouter/nitro'', ''openrouter/anthropic/claude-sonnet-4'', ''openrouter/google/gemini-2.5-flash'', ''mistral-large-latest'', ''mistral-medium-latest'', ''mistral-small-latest'', ''codestral-latest'', ''open-mistral-nemo'', ''pixtral-large-latest'', ''meta-llama/meta-llama-3.1-405b-instruct-turbo'', ''meta-llama/llama-3.3-70b-instruct-turbo'', ''meta-llama/llama-4-maverick-17b-128e-instruct-fp8'', ''meta-llama/llama-4-scout-17b-16e-instruct'', ''deepseek-ai/deepseek-r1'', ''deepseek-ai/deepseek-v3'', ''qwen/qwen2.5-72b-instruct-turbo'', ''mistralai/mixtral-8x22b-instruct-v0.1'', ''accounts/fireworks/models/llama-v3p1-405b-instruct'', ''accounts/fireworks/models/llama-v3p3-70b-instruct'', ''accounts/fireworks/models/deepseek-r1'', ''accounts/fireworks/models/deepseek-v3'', ''accounts/fireworks/models/mixtral-8x22b-instruct'', ''llama3.2'', ''llama3.1'', ''mistral:latest'', ''qwen2.5'', ''phi3'', ''deepseek-r1:latest'', ''vllm-local'', ''lmstudio-local'', ''sonar-pro'', ''sonar-reasoning-pro'', ''sonar-reasoning'', ''sonar-basic'', ''command-r-plus'', ''command-r-08-2024'', ''command-a'', ''command-light'', ''jamba-1.5-large'', ''jamba-1.5-mini'', ''jamba-instruct'', ''cerebras/llama3.3-70b'', ''cerebras/llama3.1-8b'', ''cerebras/llama-4-scout-17b'', ''cerebras/qwen-2.5-32b'', ''sambanova/llama-3.3-70b'', ''sambanova/deepseek-r1'', ''sambanova/qwen-2.5-72b'', ''grok-4'', ''grok-4.1-fast'', ''grok-3'', ''grok-3-mini'', ''grok-2'', ''grok-2-mini'', ''hf/meta-llama/llama-3.3-70b-instruct'', ''hf/deepseek-ai/deepseek-r1'', ''hf/qwen/qwen2.5-72b-instruct'', ''replicate/meta-llama-3.3-70b-instruct'', ''replicate/deepseek-r1'', ''replicate/mistral-7b-instruct'', ''copilot/gpt-4o'', ''copilot/gpt-4'', ''qwen-max'', ''qwen-plus'', ''qwen-turbo'', ''qwen-vl-plus'', ''qwen-coder-plus'', ''qwen-long'', ''minimax-m2.5'', ''minimax-text-01'', ''minimax-m2.1'', ''abab6.5-chat'', ''glm-4-plus'', ''glm-4-flash'', ''glm-4v-plus'', ''glm-4-long'', ''codegeex-4'', ''moonshot-v1-128k'', ''moonshot-v1-32k'', ''moonshot-v1-8k'', ''ernie-4.5-8k'', ''ernie-4.0-turbo-8k'', ''ernie-speed-128k'', ''bedrock/anthropic.claude-opus-4-6'', ''bedrock/anthropic.claude-sonnet-4-6'', ''bedrock/anthropic.claude-opus-4-20250514'', ''bedrock/anthropic.claude-sonnet-4-20250514'', ''bedrock/anthropic.claude-haiku-4-5-20251001'', ''bedrock/amazon.nova-pro-v1:0'', ''bedrock/amazon.nova-lite-v1:0'', ''bedrock/meta.llama3-3-70b-instruct-v1:0'']"
  unfolding builtin_ids_eval by (simp only: list.map lower_chars to_lowercase.simps(1))

lemma builtin_provider_ids: "map provider_id builtin_providers =
  [''anthropic'', ''openai'', ''gemini'', ''deepseek'', ''groq'', ''openrouter'', ''mistral'', ''together'', ''fireworks'', ''ollama'', ''vllm'', ''lmstudio'', ''perplexity'', ''cohere'', ''ai21'', ''cerebras'', ''sambanova'', ''huggingface'', ''xai'', ''replicate'', ''github-copilot'', ''qwen'', ''minimax'', ''zhipu'', ''zhipu_coding'', ''moonshot'', ''qianfan'', ''bedrock'']"
  by (simp add: builtin_providers_def providers_1_def providers_2_def provider_entry_def)

lemma builtin_providers_distinct: "distinct (map provider_id builtin_providers)"
  unfolding builtin_provider_ids by simp

lemma builtin_model_providers: "map model_provider builtin_models =
  [''anthropic'', ''anthropic'', ''anthropic'', ''anthropic'', ''anthropic'', ''anthropic'', ''anthropic'', ''openai'', ''openai'', ''openai'', ''openai'', ''openai'', ''openai'', ''openai'', ''openai'', ''openai'', ''openai'', ''openai'', ''openai'', ''openai'', ''openai'', ''openai'', ''openai'', ''gemini'', ''gemini'', ''gemini'', ''gemini'', ''gemini'', ''gemini'', ''gemini'', ''gemini'', ''gemini'', ''gemini'', ''deepseek'', ''deepseek'', ''deepseek'', ''deepseek'', ''groq'', ''groq'', ''groq'', ''groq'', ''groq'', ''groq'', ''groq'', ''groq'', ''groq'', ''groq'', ''groq'', ''openrouter'', ''openrouter'', ''openrouter'', ''openrouter'', ''openrouter'', ''mistral'', ''mistral'', ''mistral'', ''mistral'', ''mistral'', ''mistral'', ''together'', ''together'', ''together'', ''together'', ''together'', ''together'', ''together'', ''together'', ''fireworks'', ''fireworks'', ''fireworks'', ''fireworks'', ''fireworks'', ''ollama'', ''ollama'', ''ollama'', ''ollama'', ''ollama'', ''ollama'', ''vllm'', ''lmstudio'', ''perplexity'', ''perplexity'', ''perplexity'', ''perplexity'', ''cohere'', ''cohere'', ''cohere'', ''cohere'', ''ai21'', ''ai21'', ''ai21'', ''cerebras'', ''cerebras'', ''cerebras'', ''cerebras'', ''sambanova'', ''sambanova'', ''sambanova'', ''xai'', ''xai'', ''xai'', ''xai'', ''xai'', ''xai'', ''huggingface'', ''huggingface'', ''huggingface'', ''replicate'', ''replicate'', ''replicate'', ''github-copilot'', ''github-copilot'', ''qwen'', ''qwen'', ''qwen'', ''qwen'', ''qwen'', ''qwen'', ''minimax'', ''minimax'', ''minimax'', ''minimax'', ''zhipu'', ''zhipu'', ''zhipu'', ''zhipu'', ''zhipu_coding'', ''moonshot'', ''moonshot'', ''moonshot'', ''qianfan'', ''qianfan'', ''qianfan'', ''bedrock'', ''bedrock'', ''bedrock'', ''bedrock'', ''bedrock'', ''bedrock'', ''bedrock'', ''bedrock'']"
  by (simp add: builtin_models_def model_groups catalog_entry_def)

lemma builtin_models_provided: "list_all (\<lambda>p. p \<in> set (map provider_id builtin_providers)) (map model_provider builtin_models)"
  unfolding builtin_provider_ids builtin_model_providers by code_simp

text \<open>The models that have aliases, group by group.\<close>

lemma targets_models_1:
  "''claude-sonnet-4-6'' \<in> set builtin_ids"
  "''claude-haiku-4-5-20251001'' \<in> set builtin_ids"
  "''claude-opus-4-6'' \<in> set builtin_ids"
  "''gpt-4o'' \<in> set builtin_ids"
  "''gpt-4o-mini'' \<in> set builtin_ids"
  by (simp_all add: builtin_ids_def builtin_models_def models_1_def catalog_entry_def)

lemma targets_models_2:
  "''gpt-5-mini'' \<in> set builtin_ids"
  by (simp_all add: builtin_ids_def builtin_models_def models_2_def catalog_entry_def)

lemma targets_models_3:
  "''gpt-5.2'' \<in> set builtin_ids"
  "''gemini-3-flash'' \<in> set builtin_ids"
  "''gemini-3.1-pro'' \<in> set builtin_ids"
  by (simp_all add: builtin_ids_def builtin_models_def models_3_def catalog_entry_def)

lemma targets_models_4:
  "''deepseek-chat'' \<in> set builtin_ids"
  "''llama-3.3-70b-versatile'' \<in> set builtin_ids"
  "''deepseek-reasoner'' \<in> set builtin_ids"
  by (simp_all add: builtin_ids_def builtin_models_def models_4_def catalog_entry_def)

lemma targets_models_5:
  "''mixtral-8x7b-32768'' \<in> set builtin_ids"
  by (simp_all add: builtin_ids_def builtin_models_def models_5_def catalog_entry_def)

lemma targets_models_6:
  "''mistral-large-latest'' \<in> set builtin_ids"
  "''codestral-latest'' \<in> set builtin_ids"
  "''open-mistral-nemo'' \<in> set builtin_ids"
  "''pixtral-large-latest'' \<in> set builtin_ids"
  by (simp_all add: builtin_ids_def builtin_models_def models_6_def catalog_entry_def)

lemma targets_models_9:
  "''sonar-pro'' \<in> set builtin_ids"
  "''jamba-1.5-large'' \<in> set builtin_ids"
  "''command-r-plus'' \<in> set builtin_ids"
  "''command-a'' \<in> set builtin_ids"
  by (simp_all add: builtin_ids_def builtin_models_def models_9_def catalog_entry_def)

lemma targets_models_10:
  "''grok-4'' \<in> set builtin_ids"
  "''grok-4.1-fast'' \<in> set builtin_ids"
  by (simp_all add: builtin_ids_def builtin_models_def models_10_def catalog_entry_def)

lemma targets_models_11:
  "''grok-2-mini'' \<in> set builtin_ids"
  "''grok-3'' \<in> set builtin_ids"
  by (simp_all add: builtin_ids_def builtin_models_def models_11_def catalog_entry_def)

lemma targets_models_12:
  "''copilot/gpt-4o'' \<in> set builtin_ids"
  "''copilot/gpt-4'' \<in> set builtin_ids"
  "''qwen-plus'' \<in> set builtin_ids"
  "''minimax-text-01'' \<in> set builtin_ids"
  by (simp_all add: builtin_ids_def builtin_models_def models_12_def catalog_entry_def)

lemma targets_models_13:
  "''glm-4-plus'' \<in> set builtin_ids"
  "''moonshot-v1-128k'' \<in> set builtin_ids"
  "''codegeex-4'' \<in> set builtin_ids"
  by (simp_all add: builtin_ids_def builtin_models_def models_13_def catalog_entry_def)

lemma targets_models_14:
  "''ernie-4.5-8k'' \<in> set builtin_ids"
  by (simp_all add: builtin_ids_def builtin_models_def models_14_def catalog_entry_def)

lemma builtin_alias_targets: "list_all (\<lambda>(k, v). v \<in> set builtin_ids) builtin_aliases"
  by (simp add: builtin_aliases_def targets_models_1 targets_models_2 targets_models_3 targets_models_4 targets_models_5 targets_models_6 targets_models_9 targets_models_10 targets_models_11 targets_models_12 targets_models_13 targets_models_14)

lemma builtin_aliases_distinct: "distinct (map fst builtin_aliases)"
  unfolding builtin_aliases_def by simp

lemma builtin_lower_short: "filter (\<lambda>i. length i \<le> 13) (map to_lowercase builtin_ids) =
  [''gpt-4o'', ''gpt-4o-mini'', ''gpt-4.1'', ''gpt-4.1-mini'', ''gpt-4.1-nano'', ''o3'', ''o3-mini'', ''o4-mini'', ''gpt-4-turbo'', ''gpt-3.5-turbo'', ''gpt-5'', ''gpt-5-mini'', ''gpt-5-nano'', ''gpt-5.1'', ''gpt-5.2'', ''gpt-5.2-pro'', ''deepseek-chat'', ''gemma2-9b-it'', ''qwen-qwq-32b'', ''llama3.2'', ''llama3.1'', ''qwen2.5'', ''phi3'', ''vllm-local'', ''sonar-pro'', ''sonar-basic'', ''command-a'', ''command-light'', ''grok-4'', ''grok-4.1-fast'', ''grok-3'', ''grok-3-mini'', ''grok-2'', ''grok-2-mini'', ''copilot/gpt-4'', ''qwen-max'', ''qwen-plus'', ''qwen-turbo'', ''qwen-vl-plus'', ''qwen-long'', ''minimax-m2.5'', ''minimax-m2.1'', ''abab6.5-chat'', ''glm-4-plus'', ''glm-4-flash'', ''glm-4v-plus'', ''glm-4-long'', ''codegeex-4'', ''ernie-4.5-8k'']"
  unfolding builtin_lower_eval by simp

lemma builtin_alias_short:
  "list_all (\<lambda>(k, v). length k \<le> 13 \<and> k \<notin> set (filter (\<lambda>i. length i \<le> 13) (map to_lowercase builtin_ids))) builtin_aliases"
  unfolding builtin_lower_short builtin_aliases_def by simp

lemma builtin_alias_names: "list_all (\<lambda>(k, v). k \<notin> set (map to_lowercase builtin_ids)) builtin_aliases"
  using builtin_alias_short by (auto simp: list_all_iff)

lemma builtin_alias_lower: "list_all (\<lambda>(k, v). to_lowercase k = k) builtin_aliases"
  unfolding builtin_aliases_def by code_simp

section \<open>Lookup\<close>

lemma find_exists: "x \<in> set xs \<Longrightarrow> P x \<Longrightarrow> \<exists>y. find P xs = Some y \<and> y \<in> set xs \<and> P y"
  by (cases "find P xs") (auto simp: find_None_iff find_Some_iff)

lemma find_in: "find P xs = Some y \<Longrightarrow> y \<in> set xs \<and> P y"
  by (auto simp: find_Some_iff)

lemma find_append: "find P (xs @ ys) = (case find P xs of None \<Rightarrow> find P ys | Some y \<Rightarrow> Some y)"
  by (induction xs) auto

lemma find_model_prefix:
  "find (\<lambda>m. to_lowercase (model_id m) = to_lowercase x) ms = Some y \<Longrightarrow> models c = ms @ rest \<Longrightarrow> find_model c x = Some y"
  by (simp add: find_model_def find_append Let_def)

text \<open>Every built-in alias leads to the built-in model it names, and so to a provider of the catalog.\<close>

theorem builtin_alias_resolves:
  assumes "(k, v) \<in> set builtin_aliases"
  shows "\<exists>m. find_model new_catalog k = Some m \<and> model_id m = v
    \<and> model_provider m \<in> set (map provider_id (providers new_catalog))"
proof -
  have low: "to_lowercase k = k" and new: "k \<notin> set (map to_lowercase builtin_ids)" and v: "v \<in> set builtin_ids"
    using assms builtin_alias_lower builtin_alias_names builtin_alias_targets by (auto simp: list_all_iff)
  have "find (\<lambda>m. to_lowercase (model_id m) = k) builtin_models = None"
    using new by (auto simp: find_None_iff builtin_ids_def)
  moreover from v obtain m0 where "m0 \<in> set builtin_models" "model_id m0 = v" by (auto simp: builtin_ids_def)
  then obtain m where m: "find (\<lambda>m. model_id m = v) builtin_models = Some m" "m \<in> set builtin_models" "model_id m = v"
    using find_exists [of m0 builtin_models "\<lambda>m. model_id m = v"] by blast
  moreover have "map_of builtin_aliases k = Some v"
    using assms builtin_aliases_distinct by simp
  moreover have "model_provider m \<in> set (map provider_id builtin_providers)"
    using m(2) builtin_models_provided by (auto simp: list_all_iff)
  ultimately show ?thesis by (simp add: find_model_def new_catalog_def low Let_def)
qed

text \<open>
  Two built-in models of different providers have identifiers that differ in case only: asking for the
  second one by its own identifier gives the first one, with its provider and its price.
\<close>

lemma models_split: "builtin_models = (models_1 @ models_2 @ models_3 @ models_4 @ models_5) @ (models_6 @ models_7 @ models_8 @ models_9 @ models_10 @ models_11 @ models_12 @ models_13 @ models_14 @ models_15)"
  by (simp add: builtin_models_def)

theorem model_shadowed:
  "\<exists>m \<in> set builtin_models. model_id m = ''meta-llama/Llama-4-Scout-17B-16E-Instruct'' \<and> model_provider m = ''together''
     \<and> (\<exists>m'. find_model new_catalog ''meta-llama/Llama-4-Scout-17B-16E-Instruct'' = Some m' \<and> model_id m' \<noteq> ''meta-llama/Llama-4-Scout-17B-16E-Instruct'')"
proof -
  let ?x = "''meta-llama/Llama-4-Scout-17B-16E-Instruct''"
  let ?a = "models_1 @ models_2 @ models_3 @ models_4 @ models_5" and ?b = "models_6 @ models_7 @ models_8 @ models_9 @ models_10 @ models_11 @ models_12 @ models_13 @ models_14 @ models_15"
  have "\<exists>m \<in> set models_7. model_id m = ?x \<and> model_provider m = ''together''" by (simp add: models_7_def catalog_entry_def)
  then have 1: "\<exists>m \<in> set builtin_models. model_id m = ?x \<and> model_provider m = ''together''"
    by (auto simp: builtin_models_def)
  have "\<exists>m \<in> set models_5. model_id m = ''meta-llama/llama-4-scout-17b-16e-instruct''" by (simp add: models_5_def catalog_entry_def)
  then obtain m0 where m0: "m0 \<in> set ?a" "model_id m0 = ''meta-llama/llama-4-scout-17b-16e-instruct''" by auto
  have low: "to_lowercase ?x = ''meta-llama/llama-4-scout-17b-16e-instruct''" "to_lowercase ''meta-llama/llama-4-scout-17b-16e-instruct'' = ''meta-llama/llama-4-scout-17b-16e-instruct''" by code_simp+
  with m0 obtain m where m: "find (\<lambda>m. to_lowercase (model_id m) = to_lowercase ?x) ?a = Some m" "m \<in> set ?a"
    using find_exists [of m0 ?a "\<lambda>m. to_lowercase (model_id m) = to_lowercase ?x"] by auto
  have "list_all (\<lambda>m. model_id m \<noteq> ?x) ?a" by (simp add: model_groups catalog_entry_def)
  with m(2) have "model_id m \<noteq> ?x" unfolding list_all_iff by blast
  moreover have "find_model new_catalog ?x = Some m"
    by (rule find_model_prefix [OF m(1), of _ ?b]) (simp only: new_catalog_def models_split model_catalog.simps)
  ultimately show ?thesis using 1 by blast
qed

section \<open>Operations keep the catalog consistent\<close>

datatype catalog_op =
    DetectAuth "string \<Rightarrow> string option"
  | SetUrl string string
  | OverrideUrls "(string \<times> string) list"
  | MergeDiscovered string "string list"

fun catalog_do :: "model_catalog \<Rightarrow> catalog_op \<Rightarrow> model_catalog" where
  "catalog_do c (DetectAuth env) = detect_auth env c"
| "catalog_do c (SetUrl i url) = snd (set_provider_url i url c)"
| "catalog_do c (OverrideUrls us) = apply_url_overrides us c"
| "catalog_do c (MergeDiscovered p ids) = merge_discovered_models p ids c"

definition catalog_ok :: "model_catalog \<Rightarrow> bool" where
  "catalog_ok c \<longleftrightarrow>
     map provider_id (providers c) = map provider_id builtin_providers
     \<and> list_all (\<lambda>p. model_count p = models_of (provider_id p) (models c)) (providers c)
     \<and> prefix builtin_models (models c) \<and> aliases c = builtin_aliases"

lemma new_catalog_ok: "catalog_ok new_catalog"
  by (simp add: catalog_ok_def new_catalog_def list_all_iff)

lemma change_first_ids:
  "(\<And>p. provider_id (f p) = provider_id p) \<Longrightarrow> map provider_id (change_first i f ps) = map provider_id ps"
  by (induction ps) auto

lemma change_first_all:
  "(\<And>p. provider_id p = i \<Longrightarrow> Q p \<Longrightarrow> R (f p)) \<Longrightarrow> (\<And>p. provider_id p \<noteq> i \<Longrightarrow> Q p \<Longrightarrow> R p) \<Longrightarrow>
     distinct (map provider_id ps) \<Longrightarrow> list_all Q ps \<Longrightarrow> list_all R (change_first i f ps)"
proof (induction ps)
  case (Cons p ps)
  show ?case
  proof (cases "provider_id p = i")
    case True
    then have "i \<notin> provider_id ` set ps" using Cons.prems(3) by simp
    then have "\<forall>x \<in> set ps. provider_id x \<noteq> i" by (metis image_eqI)
    then show ?thesis using True Cons.prems(1,2,4) by (auto simp: list_all_iff)
  next
    case False
    then show ?thesis using Cons by auto
  qed
qed simp

lemma set_provider_url_ok: "catalog_ok c \<Longrightarrow> catalog_ok (snd (set_provider_url i url c))"
proof -
  assume c: "catalog_ok c"
  then have "distinct (map provider_id (providers c))" using builtin_providers_distinct by (simp add: catalog_ok_def)
  then have "list_all (\<lambda>p. model_count p = models_of (provider_id p) (models c))
      (change_first i (\<lambda>p. p\<lparr>provider_url := url\<rparr>) (providers c))"
    using c by (intro change_first_all [where Q = "\<lambda>p. model_count p = models_of (provider_id p) (models c)"])
      (auto simp: catalog_ok_def)
  then show ?thesis using c by (simp add: set_provider_url_def catalog_ok_def change_first_ids)
qed

lemma models_of_other:
  "q \<noteq> p \<Longrightarrow> models_of q (ms @ map (discovered_model p) ids) = models_of q ms"
  by (induction ids) (auto simp: models_of_def discovered_model_def catalog_entry_def)

lemma merge_discovered_ok: "catalog_ok c \<Longrightarrow> catalog_ok (merge_discovered_models p ids c)"
proof -
  assume c: "catalog_ok c"
  then have d: "distinct (map provider_id (providers c))" using builtin_providers_distinct by (simp add: catalog_ok_def)
  let ?ms = "\<lambda>added. models c @ map (discovered_model p) added"
  have "list_all (\<lambda>q. model_count q = models_of (provider_id q) (?ms added))
      (change_first p (\<lambda>q. q\<lparr>model_count := models_of p (?ms added)\<rparr>) (providers c))" for added
    using c d by (intro change_first_all [where Q = "\<lambda>q. model_count q = models_of (provider_id q) (models c)"])
      (auto simp: catalog_ok_def models_of_other)
  then show ?thesis using c by (auto simp: merge_discovered_models_def catalog_ok_def change_first_ids Let_def)
qed

lemma overrides_ok: "catalog_ok c \<Longrightarrow> catalog_ok (apply_url_overrides us c)"
  unfolding apply_url_overrides_def by (induction us arbitrary: c) (auto simp: set_provider_url_ok)

lemma detect_auth_ok: "catalog_ok c \<Longrightarrow> catalog_ok (detect_auth env c)"
  by (auto simp: catalog_ok_def detect_auth_def list_all_iff comp_def)

lemma catalog_reachable: "catalog_ok (foldl catalog_do new_catalog ops)"
proof (induction ops rule: rev_induct)
  case (snoc op ops)
  then show ?case
    by (cases op) (auto simp: set_provider_url_ok merge_discovered_ok overrides_ok detect_auth_ok)
qed (simp add: new_catalog_ok)

text \<open>
  Whatever keys are found, URLs overridden and models discovered, the catalog stays consistent: it has the
  built-in providers, each with the exact number of its models, a lookup by the identifier of a built-in
  model finds what it found at the start, and a lookup that finds nothing at the start can only find a
  discovered model.
\<close>

theorem catalog_consistent:
  "map provider_id (providers (foldl catalog_do new_catalog ops)) = map provider_id builtin_providers
   \<and> list_all (\<lambda>p. model_count p = models_of (provider_id p) (models (foldl catalog_do new_catalog ops)))
       (providers (foldl catalog_do new_catalog ops))
   \<and> list_all (\<lambda>m. find_model (foldl catalog_do new_catalog ops) (model_id m) = find_model new_catalog (model_id m)
         \<and> find_model new_catalog (model_id m) \<noteq> None) builtin_models"
proof -
  let ?c = "foldl catalog_do new_catalog ops"
  have ok: "catalog_ok ?c" by (rule catalog_reachable)
  then obtain rest where r: "models ?c = builtin_models @ rest" by (auto simp: catalog_ok_def prefix_def)
  have "find_model ?c (model_id m) = find_model new_catalog (model_id m) \<and> find_model new_catalog (model_id m) \<noteq> None"
    if m: "m \<in> set builtin_models" for m
  proof -
    obtain y where "find (\<lambda>x. to_lowercase (model_id x) = to_lowercase (model_id m)) builtin_models = Some y"
      using find_exists [OF m, of "\<lambda>x. to_lowercase (model_id x) = to_lowercase (model_id m)"] by auto
    from find_model_prefix [OF this r] find_model_prefix [OF this, of new_catalog "[]"]
    show ?thesis by (simp add: new_catalog_def)
  qed
  then show ?thesis using ok by (auto simp: catalog_ok_def list_all_iff)
qed

end
