(* ===== verification/Model_Routing.thy ===== *)
theory Model_Routing
  imports Model_Catalog Llm_Retry
begin

text \<open>
  Choice of the model by the complexity of a request: \<open>clawreform-runtime/src/routing.rs\<close> with
  \<open>ModelRoutingConfig\<close> of \<open>clawreform-types/src/agent.rs\<close>. The score is a 32-bit number that wraps, as in
  a release build.
\<close>

datatype task_complexity = Simple | Medium | Complex

record routing_config =
  simple_model :: string
  medium_model :: string
  complex_model :: string
  simple_threshold :: "32 word"
  complex_threshold :: "32 word"

definition default_routing :: routing_config where
  "default_routing =
     \<lparr>simple_model = ''claude-haiku-4-5-20251001'', medium_model = ''claude-sonnet-4-20250514'',
      complex_model = ''claude-sonnet-4-20250514'', simple_threshold = 100, complex_threshold = 500\<rparr>"

section \<open>The score\<close>

definition code_markers :: "string list" where
  "code_markers =
     [[CHR 0x60, CHR 0x60, CHR 0x60], ''fn '', ''def '', ''class '', ''import '', ''function '', ''async '', ''await '',
      ''struct '', ''impl '', ''return '']"

definition code_score :: "'j message list \<Rightarrow> nat" where
  "code_score ms =
     (if ms = [] then 0
      else let lower = to_lowercase (text_content (content (last ms)))
           in length (filter (\<lambda>m. contains_str lower m) code_markers))"

definition message_chars :: "'j completion_request \<Rightarrow> nat" where
  "message_chars req = sum_list (map (\<lambda>m. text_length (content m)) (req_messages req))"

definition score :: "'j completion_request \<Rightarrow> 32 word" where
  "score req =
     (let s1 = (of_nat (message_chars req div 4) :: 32 word);
          tool_count = (of_nat (length (req_tools req)) :: 32 word);
          s2 = (if tool_count > 0 then s1 + tool_count * 20 else s1);
          s3 = s2 + of_nat (code_score (req_messages req)) * 30;
          msg_count = (of_nat (length (req_messages req)) :: 32 word);
          s4 = (if msg_count > 10 then s3 + (msg_count - 10) * 15 else s3)
      in case req_system req of
           None \<Rightarrow> s4
         | Some sys \<Rightarrow>
             (let sys_len = (of_nat (length sys) :: 32 word)
              in if sys_len > 500 then s4 + (sys_len - 500) div 10 else s4))"

definition classify :: "routing_config \<Rightarrow> 32 word \<Rightarrow> task_complexity" where
  "classify cfg s =
     (if s < simple_threshold cfg then Simple
      else if s \<ge> complex_threshold cfg then Complex
      else Medium)"

section \<open>The router\<close>

fun model_for_complexity :: "routing_config \<Rightarrow> task_complexity \<Rightarrow> string" where
  "model_for_complexity cfg Simple = simple_model cfg"
| "model_for_complexity cfg Medium = medium_model cfg"
| "model_for_complexity cfg Complex = complex_model cfg"

definition select_model :: "routing_config \<Rightarrow> 'j completion_request \<Rightarrow> task_complexity \<times> string" where
  "select_model cfg req =
     (let c = classify cfg (score req) in (c, model_for_complexity cfg c))"

definition validate_models :: "routing_config \<Rightarrow> model_catalog \<Rightarrow> string list" where
  "validate_models cfg cat =
     map (\<lambda>m. ''Model '' @ [CHR 0x27] @ m @ [CHR 0x27] @ '' not found in catalog'')
       (filter (\<lambda>m. find_model cat m = None) [simple_model cfg, medium_model cfg, complex_model cfg])"

definition or_alias :: "model_catalog \<Rightarrow> string \<Rightarrow> string" where
  "or_alias cat m = (case resolve_alias cat m of None \<Rightarrow> m | Some r \<Rightarrow> r)"

definition resolve_aliases :: "model_catalog \<Rightarrow> routing_config \<Rightarrow> routing_config" where
  "resolve_aliases cat cfg =
     cfg\<lparr>simple_model := or_alias cat (simple_model cfg), medium_model := or_alias cat (medium_model cfg),
         complex_model := or_alias cat (complex_model cfg)\<rparr>"

section \<open>What the score counts\<close>

definition true_score :: "'j completion_request \<Rightarrow> nat" where
  "true_score req =
     message_chars req div 4 + length (req_tools req) * 20 + code_score (req_messages req) * 30
     + (length (req_messages req) - 10) * 15
     + (case req_system req of None \<Rightarrow> 0 | Some sys \<Rightarrow> (length sys - 500) div 10)"

text \<open>Numbers below \<open>2 ^ 32\<close> are compared and subtracted as natural numbers are.\<close>

lemma word_less_nat: "a < 2 ^ 32 \<Longrightarrow> b < 2 ^ 32 \<Longrightarrow> (of_nat a :: 32 word) < of_nat b \<longleftrightarrow> a < b"
  by (simp add: word_less_nat_alt unat_of_nat take_bit_nat_eq_self)

lemma word_div_nat: "a < 2 ^ 32 \<Longrightarrow> b < 2 ^ 32 \<Longrightarrow> (of_nat a :: 32 word) div of_nat b = of_nat (a div b)"
  by (rule word_unat_eq_iff [THEN iffD2])
    (simp add: unat_div unat_of_nat take_bit_nat_eq_self div_le_dividend [THEN le_less_trans])

lemma extra_messages:
  "n < 2 ^ 32 \<Longrightarrow>
     (if (of_nat n :: 32 word) > 10 then (x :: 32 word) + (of_nat n - 10) * 15 else x) = x + of_nat ((n - 10) * 15)"
  using word_less_nat [of 10 n] by (cases "10 < n") (simp_all add: of_nat_diff)

lemma extra_system:
  assumes "n < 2 ^ 32"
  shows "(if (of_nat n :: 32 word) > 500 then (x :: 32 word) + (of_nat n - 500) div 10 else x) = x + of_nat ((n - 500) div 10)"
proof (cases "500 < n")
  case True
  then have "(of_nat n - 500 :: 32 word) = of_nat (n - 500)" by (simp add: of_nat_diff)
  moreover have "(of_nat (n - 500) :: 32 word) div 10 = of_nat ((n - 500) div 10)"
    using word_div_nat [of "n - 500" 10] assms by simp
  ultimately show ?thesis using word_less_nat [of 500 n] assms True by simp
next
  case False
  then show ?thesis using word_less_nat [of 500 n] assms by simp
qed

lemma score_true:
  assumes "length (req_messages req) < 2 ^ 32" "case req_system req of None \<Rightarrow> True | Some sys \<Rightarrow> length sys < 2 ^ 32"
  shows "score req = of_nat (true_score req)"
proof -
  have t: "(if (of_nat k :: 32 word) > 0 then x + of_nat k * 20 else x) = x + of_nat (k * 20)" for k and x :: "32 word"
  proof (cases "(of_nat k :: 32 word) > 0")
    case False
    then have "(of_nat k :: 32 word) = 0" by (simp add: word_gt_0)
    then show ?thesis by simp
  qed simp
  show ?thesis
    using assms extra_messages [OF assms(1)]
    by (cases "req_system req") (simp_all add: score_def Let_def t extra_system true_score_def)
qed

text \<open>
  As long as the score fits into 32 bits a request that counts more never gets a simpler model: the tier
  is decided by where the score lies between the two thresholds.
\<close>

theorem routing_by_score:
  assumes "length (req_messages req) < 2 ^ 32" "case req_system req of None \<Rightarrow> True | Some sys \<Rightarrow> length sys < 2 ^ 32"
    and "true_score req < 2 ^ 32" "simple_threshold cfg \<le> complex_threshold cfg"
  shows "select_model cfg req =
    (if true_score req < unat (simple_threshold cfg) then (Simple, simple_model cfg)
     else if true_score req < unat (complex_threshold cfg) then (Medium, medium_model cfg)
     else (Complex, complex_model cfg))"
proof -
  have s: "unat (score req) = true_score req"
    using assms(3) by (simp add: score_true [OF assms(1,2)] unat_of_nat take_bit_nat_eq_self)
  then show ?thesis
    by (auto simp: select_model_def classify_def Let_def word_less_nat_alt word_le_nat_alt)
qed

theorem routing_by_score_witness:
  "select_model default_routing \<lparr>req_model = ''m'', req_messages = [user_message ''hi''], req_tools = [] :: unit tool_definition list,
      req_max_tokens = 10, req_temperature = Fin 0, req_system = None\<rparr> = (Simple, ''claude-haiku-4-5-20251001'')"
proof -
  let ?r = "\<lparr>req_model = ''m'', req_messages = [user_message ''hi''], req_tools = [] :: unit tool_definition list,
      req_max_tokens = 10, req_temperature = Fin 0, req_system = None\<rparr>"
  have "code_score [user_message ''hi''] = 0" by code_simp
  then have t: "true_score ?r = 0" by (simp add: true_score_def message_chars_def user_message_def)
  show ?thesis
    using routing_by_score [of ?r default_routing] by (simp add: t default_routing_def)
qed

end
