(* ===== verification/Session_Store.thy ===== *)
theory Session_Store
  imports Message Agent "HOL-Library.AList"
begin

text \<open>
  The store of sessions: \<open>clawreform-memory/src/session.rs\<close>. A table is the list of its rows in the order
  they were inserted, with the primary key first; an \<open>INSERT ... ON CONFLICT DO UPDATE\<close> changes a row in
  place. SQL statements on the open database succeed here; what can fail is decoding a stored history.
  MessagePack is a library of its own: the two encoders the code uses and the decoder are the record
  \<open>packer\<close>. A slice inside a character is a panic, after which nothing is saved.
\<close>

record 'j packer =
  to_vec_named :: "'j message list \<Rightarrow> string"
  to_vec :: "'j message list \<Rightarrow> string"
  from_slice :: "string \<Rightarrow> 'j message list option"

definition packer_ok :: "'j packer \<Rightarrow> bool" where
  "packer_ok p \<longleftrightarrow> (\<forall>ms. from_slice p (to_vec_named p ms) = Some ms \<and> from_slice p (to_vec p ms) = Some ms)"

datatype store_error = Serialization | Panicked panic

section \<open>Tables\<close>

record 'j session =
  sess_id :: session_id
  sess_agent :: agent_id
  sess_messages :: "'j message list"
  sess_window :: nat
  sess_label :: "string option"

record session_row =
  row_agent :: agent_id
  row_messages :: string
  row_window :: nat
  row_label :: "string option"
  row_created :: string
  row_updated :: string

record canonical_row =
  can_messages :: string
  can_cursor :: nat
  can_summary :: "string option"
  can_updated :: string

record session_store =
  session_rows :: "(session_id \<times> session_row) list"
  canonical_rows :: "(agent_id \<times> canonical_row) list"

definition empty_store :: session_store where
  "empty_store = \<lparr>session_rows = [], canonical_rows = []\<rparr>"

section \<open>Sessions\<close>

definition decode :: "'j packer \<Rightarrow> string \<Rightarrow> ('j message list, store_error) result" where
  "decode p blob = (case from_slice p blob of None \<Rightarrow> Err Serialization | Some ms \<Rightarrow> Ok ms)"

definition session_of_row ::
  "'j packer \<Rightarrow> session_id \<Rightarrow> session_row \<Rightarrow> ('j session, store_error) result" where
  "session_of_row p i r =
     map_sum id (\<lambda>ms. \<lparr>sess_id = i, sess_agent = row_agent r, sess_messages = ms, sess_window = row_window r,
                     sess_label = row_label r\<rparr>)
       (decode p (row_messages r))"

definition get_session ::
  "'j packer \<Rightarrow> session_id \<Rightarrow> session_store \<Rightarrow> ('j session option, store_error) result" where
  "get_session p i s =
     (case map_of (session_rows s) i of
        None \<Rightarrow> Ok None
      | Some r \<Rightarrow> map_sum id Some (session_of_row p i r))"

text \<open>A conflict updates the row but leaves its agent and its creation time.\<close>

definition save_session :: "'j packer \<Rightarrow> string \<Rightarrow> 'j session \<Rightarrow> session_store \<Rightarrow> session_store" where
  "save_session p now sess s =
     (let blob = to_vec_named p (sess_messages sess);
          row = (case map_of (session_rows s) (sess_id sess) of
                   None \<Rightarrow> \<lparr>row_agent = sess_agent sess, row_messages = blob, row_window = sess_window sess,
                            row_label = sess_label sess, row_created = now, row_updated = now\<rparr>
                 | Some r \<Rightarrow> r\<lparr>row_messages := blob, row_window := sess_window sess,
                            row_label := sess_label sess, row_updated := now\<rparr>)
      in s\<lparr>session_rows := AList.update (sess_id sess) row (session_rows s)\<rparr>)"

definition delete_session :: "session_id \<Rightarrow> session_store \<Rightarrow> session_store" where
  "delete_session i s = s\<lparr>session_rows := AList.delete i (session_rows s)\<rparr>"

definition delete_agent_sessions :: "agent_id \<Rightarrow> session_store \<Rightarrow> session_store" where
  "delete_agent_sessions a s = s\<lparr>session_rows := filter (\<lambda>(i, r). row_agent r \<noteq> a) (session_rows s)\<rparr>"

definition new_session :: "session_id \<Rightarrow> agent_id \<Rightarrow> string option \<Rightarrow> 'j session" where
  "new_session i a l = \<lparr>sess_id = i, sess_agent = a, sess_messages = [], sess_window = 0, sess_label = l\<rparr>"

text \<open>The identifier of a new session, random in the code, is an argument.\<close>

definition create_session_with_label ::
  "'j packer \<Rightarrow> string \<Rightarrow> session_id \<Rightarrow> agent_id \<Rightarrow> string option \<Rightarrow> session_store \<Rightarrow> 'j session \<times> session_store" where
  "create_session_with_label p now i a l s = (new_session i a l, save_session p now (new_session i a l) s)"

definition create_session ::
  "'j packer \<Rightarrow> string \<Rightarrow> session_id \<Rightarrow> agent_id \<Rightarrow> session_store \<Rightarrow> 'j session \<times> session_store" where
  "create_session p now i a s = (new_session i a None, save_session p now (new_session i a None) s)"

definition set_session_label :: "string \<Rightarrow> session_id \<Rightarrow> string option \<Rightarrow> session_store \<Rightarrow> session_store" where
  "set_session_label now i l s =
     s\<lparr>session_rows := map (\<lambda>(j, r). (j, if j = i then r\<lparr>row_label := l, row_updated := now\<rparr> else r))
        (session_rows s)\<rparr>"

definition find_session_by_label ::
  "'j packer \<Rightarrow> agent_id \<Rightarrow> string \<Rightarrow> session_store \<Rightarrow> ('j session option, store_error) result" where
  "find_session_by_label p a l s =
     (case find (\<lambda>(i, r). row_agent r = a \<and> row_label r = Some l) (session_rows s) of
        None \<Rightarrow> Ok None
      | Some (i, r) \<Rightarrow> map_sum id Some (session_of_row p i r))"

text \<open>The lists, newest first; a history that cannot be decoded counts as empty.\<close>

fun insert_newest :: "session_id \<times> session_row \<Rightarrow> (session_id \<times> session_row) list \<Rightarrow> (session_id \<times> session_row) list" where
  "insert_newest x [] = [x]"
| "insert_newest x (y # ys) =
     (if text_less (row_created (snd y)) (row_created (snd x)) then x # y # ys else y # insert_newest x ys)"

definition newest_first :: "(session_id \<times> session_row) list \<Rightarrow> (session_id \<times> session_row) list" where
  "newest_first rs = foldl (\<lambda>acc r. insert_newest r acc) [] rs"

record session_info =
  info_session :: session_id
  info_agent :: agent_id
  message_count :: nat
  created_at :: string
  info_label :: "string option"

definition describe_row :: "'j packer \<Rightarrow> session_id \<times> session_row \<Rightarrow> session_info" where
  "describe_row p x =
     \<lparr>info_session = fst x, info_agent = row_agent (snd x),
      message_count = (case from_slice p (row_messages (snd x)) of None \<Rightarrow> 0 | Some ms \<Rightarrow> length ms),
      created_at = row_created (snd x), info_label = row_label (snd x)\<rparr>"

definition list_sessions :: "'j packer \<Rightarrow> session_store \<Rightarrow> session_info list" where
  "list_sessions p s = map (describe_row p) (newest_first (session_rows s))"

definition list_agent_sessions :: "'j packer \<Rightarrow> agent_id \<Rightarrow> session_store \<Rightarrow> session_info list" where
  "list_agent_sessions p a s =
     map (describe_row p) (newest_first (filter (\<lambda>(i, r). row_agent r = a) (session_rows s)))"

section \<open>The canonical session of an agent\<close>

record 'j canonical_session =
  messages :: "'j message list"
  compaction_cursor :: nat
  compacted_summary :: "string option"
  updated_at :: string

definition default_canonical_window :: nat where
  "default_canonical_window = 50"

definition default_compaction_threshold :: nat where
  "default_compaction_threshold = 100"

definition load_canonical ::
  "'j packer \<Rightarrow> string \<Rightarrow> agent_id \<Rightarrow> session_store \<Rightarrow> ('j canonical_session, store_error) result" where
  "load_canonical p now a s =
     (case map_of (canonical_rows s) a of
        None \<Rightarrow> Ok \<lparr>messages = [], compaction_cursor = 0, compacted_summary = None, updated_at = now\<rparr>
      | Some r \<Rightarrow>
          map_sum id (\<lambda>ms. \<lparr>messages = ms, compaction_cursor = can_cursor r, compacted_summary = can_summary r,
                          updated_at = can_updated r\<rparr>)
            (decode p (can_messages r)))"

definition save_canonical ::
  "'j packer \<Rightarrow> agent_id \<Rightarrow> 'j canonical_session \<Rightarrow> session_store \<Rightarrow> session_store" where
  "save_canonical p a c s =
     s\<lparr>canonical_rows := AList.update a
        \<lparr>can_messages = to_vec p (messages c), can_cursor = compaction_cursor c,
         can_summary = compacted_summary c, can_updated = updated_at c\<rparr> (canonical_rows s)\<rparr>"

fun role_label :: "role \<Rightarrow> string" where
  "role_label User = ''User''"
| "role_label Assistant = ''Assistant''"
| "role_label System = ''System''"

text \<open>The line of a message in the summary; an empty text gives none.\<close>

definition summary_line :: "'j message \<Rightarrow> (string list, panic) result" where
  "summary_line m =
     (let t = text_content (content m)
      in if t = [] then Ok []
         else if length t > 200
           then map_sum id (\<lambda>cut. [role_label (role m) @ '': '' @ cut @ ''...'']) (slice_to t 200)
         else Ok [role_label (role m) @ '': '' @ t])"

fun summary_lines :: "'j message list \<Rightarrow> (string list, panic) result" where
  "summary_lines [] = Ok []"
| "summary_lines (m # ms) =
     (case summary_line m of
        Inl e \<Rightarrow> Err e
      | Inr xs \<Rightarrow> map_sum id (\<lambda>ys. xs @ ys) (summary_lines ms))"

definition clip_summary :: "string \<Rightarrow> (string, panic) result" where
  "clip_summary t = (if length t > 4000 then slice_from t (length t - 4000) else Ok t)"

definition summarize_old :: "string option \<Rightarrow> 'j message list \<Rightarrow> (string, panic) result" where
  "summarize_old existing ms =
     (case summary_lines ms of
        Inl e \<Rightarrow> Err e
      | Inr xs \<Rightarrow> clip_summary (str_join [newline] ((case existing of None \<Rightarrow> [] | Some t \<Rightarrow> [t]) @ xs)))"

definition compact_canonical :: "nat \<Rightarrow> 'j canonical_session \<Rightarrow> ('j canonical_session, panic) result" where
  "compact_canonical threshold c =
     (let to_compact = length (messages c) - default_canonical_window
      in if length (messages c) > threshold \<and> to_compact > compaction_cursor c
         then map_sum id
                (\<lambda>t. c\<lparr>compacted_summary := Some t, messages := drop to_compact (messages c), compaction_cursor := 0\<rparr>)
                (summarize_old (compacted_summary c) (drop (compaction_cursor c) (take to_compact (messages c))))
         else Ok c)"

definition append_canonical ::
  "'j packer \<Rightarrow> string \<Rightarrow> agent_id \<Rightarrow> 'j message list \<Rightarrow> nat option \<Rightarrow> session_store
   \<Rightarrow> ('j canonical_session, store_error) result \<times> session_store" where
  "append_canonical p now a new_messages threshold s =
     (case load_canonical p now a s of
        Inl e \<Rightarrow> (Err e, s)
      | Inr c \<Rightarrow>
          (case compact_canonical (case threshold of None \<Rightarrow> default_compaction_threshold | Some n \<Rightarrow> n)
                  (c\<lparr>messages := messages c @ new_messages\<rparr>) of
             Inl e \<Rightarrow> (Err (Panicked e), s)
           | Inr c1 \<Rightarrow>
               (let c2 = c1\<lparr>updated_at := now\<rparr> in (Ok c2, save_canonical p a c2 s))))"

definition canonical_context ::
  "'j packer \<Rightarrow> string \<Rightarrow> agent_id \<Rightarrow> nat option \<Rightarrow> session_store
   \<Rightarrow> (string option \<times> 'j message list, store_error) result" where
  "canonical_context p now a window_size s =
     map_sum id
       (\<lambda>c. let window = (case window_size of None \<Rightarrow> default_canonical_window | Some n \<Rightarrow> n)
            in (compacted_summary c, drop (length (messages c) - window) (messages c)))
       (load_canonical p now a s)"

definition store_llm_summary ::
  "'j packer \<Rightarrow> string \<Rightarrow> agent_id \<Rightarrow> string \<Rightarrow> 'j message list \<Rightarrow> session_store
   \<Rightarrow> (unit, store_error) result \<times> session_store" where
  "store_llm_summary p now a summary kept s =
     (case load_canonical p now a s of
        Inl e \<Rightarrow> (Err e, s)
      | Inr c \<Rightarrow>
          (Ok (), save_canonical p a
             (c\<lparr>compacted_summary := Some summary, messages := kept, compaction_cursor := 0, updated_at := now\<rparr>) s))"

section \<open>The mirror\<close>

text \<open>The lines \<open>write_jsonl_mirror\<close> writes; a panic leaves the lines before it in the file.\<close>

datatype 'j tool_part = UsePart string string 'j | ResultPart string string bool

record 'j jsonl_line =
  line_time :: string
  line_role :: string
  line_content :: string
  line_tools :: "'j tool_part list option"

fun mirror_role :: "role \<Rightarrow> string" where
  "mirror_role User = ''user''"
| "mirror_role Assistant = ''assistant''"
| "mirror_role System = ''system''"

fun mirror_texts :: "'j content_block list \<Rightarrow> (string list, panic) result" where
  "mirror_texts [] = Ok []"
| "mirror_texts (b # bs) =
     (case (case b of
              Text t \<Rightarrow> Ok [t]
            | Image media_type _ \<Rightarrow> Ok [''[image: '' @ media_type @ '']'']
            | Thinking t \<Rightarrow> map_sum id (\<lambda>cut. [''[thinking: '' @ cut @ '']'']) (slice_to t (min (length t) 200))
            | _ \<Rightarrow> Ok []) of
        Inl e \<Rightarrow> Err e
      | Inr xs \<Rightarrow> map_sum id (\<lambda>ys. xs @ ys) (mirror_texts bs))"

fun tools_of_block :: "'j content_block \<Rightarrow> 'j tool_part list" where
  "tools_of_block (ToolUse i n v) = [UsePart i n v]"
| "tools_of_block (ToolResult i c e) = [ResultPart i c e]"
| "tools_of_block _ = []"

definition mirror_line :: "string \<Rightarrow> 'j message \<Rightarrow> ('j jsonl_line, panic) result" where
  "mirror_line now m =
     map_sum id
       (\<lambda>texts. let tools = concat (map tools_of_block (case content m of TextContent _ \<Rightarrow> [] | Blocks bs \<Rightarrow> bs))
               in \<lparr>line_time = now, line_role = mirror_role (role m), line_content = str_join [newline] texts,
                   line_tools = (if tools = [] then None else Some tools)\<rparr>)
       (case content m of TextContent t \<Rightarrow> Ok [t] | Blocks bs \<Rightarrow> mirror_texts bs)"

fun write_jsonl_mirror :: "string \<Rightarrow> 'j message list \<Rightarrow> 'j jsonl_line list \<times> panic option" where
  "write_jsonl_mirror now [] = ([], None)"
| "write_jsonl_mirror now (m # ms) =
     (case mirror_line now m of
        Inl e \<Rightarrow> ([], Some e)
      | Inr l \<Rightarrow> (case write_jsonl_mirror now ms of (ls, e) \<Rightarrow> (l # ls, e)))"

section \<open>What a store holds\<close>

lemma map_of_update': "map_of (AList.update k v xs) j = (if j = k then Some v else map_of xs j)"
  by (simp add: update_conv')

text \<open>
  Saving and loading a session gives it back, except that a session saved under an identifier that is
  taken keeps the agent of the row.
\<close>

lemma loads_back:
  assumes "packer_ok p"
  shows "get_session p (sess_id x) (save_session p now x s)
           = Ok (Some (x\<lparr>sess_agent := (case map_of (session_rows s) (sess_id x) of
                                            None \<Rightarrow> sess_agent x | Some r \<Rightarrow> row_agent r)\<rparr>))"
  using assms
  by (auto simp: get_session_def save_session_def Let_def map_of_update' session_of_row_def decode_def packer_ok_def
      split: option.splits)

lemma save_session_other:
  "i \<noteq> sess_id x \<Longrightarrow> get_session p i (save_session p now x s) = get_session p i s"
  by (simp add: get_session_def save_session_def Let_def map_of_update')

lemma saved_canonical_loads:
  "packer_ok p \<Longrightarrow> load_canonical p now a (save_canonical p a c s) = Ok c"
  by (simp add: load_canonical_def save_canonical_def map_of_update' decode_def packer_ok_def)

lemma save_canonical_other:
  "b \<noteq> a \<Longrightarrow> load_canonical p now b (save_canonical p a c s) = load_canonical p now b s"
  by (simp add: load_canonical_def save_canonical_def map_of_update')

section \<open>The canonical memory\<close>

text \<open>The store as its operations leave it: every history decodes and no compaction is half done.\<close>

definition store_ok :: "'j packer \<Rightarrow> session_store \<Rightarrow> bool" where
  "store_ok p s \<longleftrightarrow>
     (\<forall>(i, r) \<in> set (session_rows s). from_slice p (row_messages r) \<noteq> None)
     \<and> (\<forall>(a, r) \<in> set (canonical_rows s). from_slice p (can_messages r) \<noteq> None \<and> can_cursor r = 0)"

datatype 'j store_op =
    SaveSession string "'j session"
  | CreateSession string session_id agent_id "string option"
  | SetLabel string session_id "string option"
  | DeleteSession session_id
  | DeleteAgent agent_id
  | AppendCanonical string agent_id "'j message list" "nat option"
  | StoreSummary string agent_id string "'j message list"

fun store_do :: "'j packer \<Rightarrow> session_store \<Rightarrow> 'j store_op \<Rightarrow> session_store" where
  "store_do p s (SaveSession now x) = save_session p now x s"
| "store_do p s (CreateSession now i a l) = snd (create_session_with_label p now i a l s)"
| "store_do p s (SetLabel now i l) = set_session_label now i l s"
| "store_do p s (DeleteSession i) = delete_session i s"
| "store_do p s (DeleteAgent a) = delete_agent_sessions a s"
| "store_do p s (AppendCanonical now a ms n) = snd (append_canonical p now a ms n s)"
| "store_do p s (StoreSummary now a t ms) = snd (store_llm_summary p now a t ms s)"

lemma in_store_update: "(i, r) \<in> set (AList.update k v xs) \<Longrightarrow> (i, r) = (k, v) \<or> (i, r) \<in> set xs"
  by (induction xs) (auto split: if_splits)

lemma store_ok_save: "packer_ok p \<Longrightarrow> store_ok p s \<Longrightarrow> store_ok p (save_session p now x s)"
  by (auto simp: store_ok_def save_session_def Let_def packer_ok_def split: option.splits dest!: in_store_update)

lemma store_ok_save_canonical:
  "packer_ok p \<Longrightarrow> store_ok p s \<Longrightarrow> compaction_cursor c = 0 \<Longrightarrow> store_ok p (save_canonical p a c s)"
  by (auto simp: store_ok_def save_canonical_def packer_ok_def dest!: in_store_update)

lemma load_ok:
  assumes "store_ok p s"
  shows "\<exists>c. load_canonical p now a s = Ok c \<and> compaction_cursor c = 0"
proof (cases "map_of (canonical_rows s) a")
  case (Some r)
  then have "(a, r) \<in> set (canonical_rows s)" by (rule map_of_SomeD)
  then show ?thesis using assms Some by (auto simp: load_canonical_def decode_def store_ok_def split: option.split)
qed (simp add: load_canonical_def)

lemma compact_canonical_cursor:
  "compact_canonical n c = Ok c' \<Longrightarrow> compaction_cursor c = 0 \<Longrightarrow> compaction_cursor c' = 0"
  by (auto simp: compact_canonical_def Let_def map_sum_Inr split: if_splits)

lemma store_ok_append:
  assumes "packer_ok p" "store_ok p s"
  shows "store_ok p (snd (append_canonical p now a ms n s))"
proof -
  from load_ok [OF assms(2)] obtain c where c: "load_canonical p now a s = Ok c" "compaction_cursor c = 0" by blast
  show ?thesis
  proof (cases "compact_canonical (case n of None \<Rightarrow> default_compaction_threshold | Some n \<Rightarrow> n)
           (c\<lparr>messages := messages c @ ms\<rparr>)")
    case (Inr c1)
    with compact_canonical_cursor [OF Inr] c(2) have "compaction_cursor c1 = 0" by simp
    then show ?thesis using assms Inr c(1) by (simp add: append_canonical_def Let_def store_ok_save_canonical)
  qed (simp add: append_canonical_def c(1) assms(2))
qed

lemma store_ok_summary:
  assumes "packer_ok p" "store_ok p s"
  shows "store_ok p (snd (store_llm_summary p now a t ms s))"
proof -
  from load_ok [OF assms(2)] obtain c where "load_canonical p now a s = Ok c" by blast
  then show ?thesis using assms by (simp add: store_llm_summary_def store_ok_save_canonical)
qed

lemma store_ok_label: "store_ok p s \<Longrightarrow> store_ok p (set_session_label now i l s)"
  by (auto simp: store_ok_def set_session_label_def)

lemma store_ok_delete: "store_ok p s \<Longrightarrow> store_ok p (delete_session i s)"
  by (auto simp: store_ok_def delete_session_def AList.delete_eq)

lemma store_ok_delete_agent: "store_ok p s \<Longrightarrow> store_ok p (delete_agent_sessions a s)"
  by (auto simp: store_ok_def delete_agent_sessions_def)

lemma store_ok_step: "packer_ok p \<Longrightarrow> store_ok p s \<Longrightarrow> store_ok p (store_do p s op)"
  by (cases op) (simp_all add: store_ok_append store_ok_summary store_ok_save create_session_with_label_def
    store_ok_label store_ok_delete store_ok_delete_agent)

theorem store_stays_ok: "packer_ok p \<Longrightarrow> store_ok p (foldl (store_do p) empty_store ops)"
proof (induction ops rule: rev_induct)
  case Nil
  then show ?case by (simp add: store_ok_def empty_store_def)
next
  case (snoc op ops)
  then show ?case by (simp add: store_ok_step)
qed

text \<open>A text that is cut inside a character.\<close>

definition uncuttable :: "'j message \<Rightarrow> bool" where
  "uncuttable m =
     (let t = text_content (content m) in 200 < length t \<and> \<not> is_char_boundary t 200)"

lemma summary_line_ok: "summary_line m = Err e \<longleftrightarrow> uncuttable m \<and> e = SliceNotOnBoundary"
  by (auto simp: summary_line_def uncuttable_def Let_def slice_to_def)

lemma summary_lines_ok: "summary_lines ms = Err e \<longleftrightarrow> (\<exists>m \<in> set ms. uncuttable m) \<and> e = SliceNotOnBoundary"
proof (induction ms)
  case (Cons m ms)
  show ?case
  proof (cases "summary_line m")
    case (Inl e')
    then have "uncuttable m" "e' = SliceNotOnBoundary" using summary_line_ok [of m e'] by auto
    then show ?thesis using Inl by auto
  next
    case (Inr xs)
    then have "\<not> uncuttable m" using summary_line_ok [of m] by fastforce
    then show ?thesis using Inr Cons by (auto simp: map_sum_Inl)
  qed
qed simp

lemma clip_summary_cases:
  "clip_summary t = Ok t' \<Longrightarrow> t' = drop (length t - 4000) t \<and> length t' \<le> 4000"
  by (auto simp: clip_summary_def slice_from_def split: if_splits)

lemma clip_summary_err: "clip_summary t = Err e \<Longrightarrow> e = SliceNotOnBoundary"
  by (auto simp: clip_summary_def slice_from_def split: if_splits)

lemma summarize_old_err: "summarize_old old ms = Err e \<Longrightarrow> e = SliceNotOnBoundary"
  by (auto simp: summarize_old_def split: sum.splits dest: clip_summary_err)
    (simp add: summary_lines_ok)

lemma compact_canonical_fresh:
  assumes "compaction_cursor c = 0"
  shows "compact_canonical n c =
    (let k = (if length (messages c) > n then length (messages c) - default_canonical_window else 0)
     in if k = 0 then Ok c
        else map_sum id (\<lambda>t. c\<lparr>compacted_summary := Some t, messages := drop k (messages c), compaction_cursor := 0\<rparr>)
               (summarize_old (compacted_summary c) (take k (messages c))))"
  using assms by (simp add: compact_canonical_def Let_def)

lemma compact_canonical_result:
  assumes "compact_canonical n c = Ok c'" "compaction_cursor c = 0"
  shows "suffix (messages c') (messages c) \<and> length (messages c') \<le> max n default_canonical_window
    \<and> (messages c' = messages c \<and> compacted_summary c' = compacted_summary c
       \<or> length (messages c') = default_canonical_window
         \<and> (\<exists>t. compacted_summary c' = Some t \<and> length t \<le> 4000))"
proof (cases "(if length (messages c) > n then length (messages c) - default_canonical_window else 0) = 0")
  case True
  with assms have "c' = c" by (simp add: compact_canonical_fresh)
  then show ?thesis using True by (auto split: if_splits)
next
  case False
  then have l: "length (messages c) > n" "length (messages c) > default_canonical_window"
    by (simp_all split: if_splits)
  have "compact_canonical n c =
    map_sum id (\<lambda>t. c\<lparr>compacted_summary := Some t,
        messages := drop (length (messages c) - default_canonical_window) (messages c), compaction_cursor := 0\<rparr>)
      (summarize_old (compacted_summary c) (take (length (messages c) - default_canonical_window) (messages c)))"
    using l assms(2) by (simp add: compact_canonical_fresh Let_def)
  with assms(1) obtain t where t: "summarize_old (compacted_summary c)
        (take (length (messages c) - default_canonical_window) (messages c)) = Ok t"
    and c': "messages c' = drop (length (messages c) - default_canonical_window) (messages c)"
      "compacted_summary c' = Some t"
    by (auto simp: map_sum_Inr)
  from t have "length t \<le> 4000" by (auto simp: summarize_old_def split: sum.splits dest: clip_summary_cases)
  then show ?thesis using c' l(2) by (auto simp: suffix_drop)
qed


subsection \<open>A packer that can be run\<close>

text \<open>
  A byte format with which the assumptions on the packer can be met and the store can be run: a text is its
  bytes, each after a 1, and a final 0; the input of a tool use is a text.
\<close>

definition put_str :: "string \<Rightarrow> string" where
  "put_str s = concat (map (\<lambda>c. [CHR 0x01, c]) s) @ [CHR 0x00]"

fun get_str :: "string \<Rightarrow> (string \<times> string) option" where
  "get_str [] = None"
| "get_str [x] = (if x = CHR 0x00 then Some ([], []) else None)"
| "get_str (x # c # r) =
     (if x = CHR 0x00 then Some ([], c # r) else map_option (\<lambda>(s, r'). (c # s, r')) (get_str r))"

lemma get_put_str [simp]: "get_str (put_str s @ r) = Some (s, r)"
proof (induction s)
  case Nil
  then show ?case by (cases r) (simp_all add: put_str_def)
qed (simp add: put_str_def)

definition put_list :: "('a \<Rightarrow> string) \<Rightarrow> 'a list \<Rightarrow> string" where
  "put_list put xs = concat (map (\<lambda>x. CHR 0x01 # put x) xs) @ [CHR 0x00]"

fun get_list :: "nat \<Rightarrow> (string \<Rightarrow> ('a \<times> string) option) \<Rightarrow> string \<Rightarrow> ('a list \<times> string) option" where
  "get_list (Suc n) get (x # r) =
     (if x = CHR 0x00 then Some ([], r)
      else case get r of
             None \<Rightarrow> None
           | Some (v, r') \<Rightarrow> map_option (\<lambda>(vs, r''). (v # vs, r'')) (get_list n get r'))"
| "get_list _ _ _ = None"

lemma get_put_list:
  "(\<And>v r. get (put v @ r) = Some (v, r)) \<Longrightarrow> length xs < n \<Longrightarrow> get_list n get (put_list put xs @ r) = Some (xs, r)"
proof (induction xs arbitrary: n)
  case Nil
  then show ?case by (cases n) (simp_all add: put_list_def)
next
  case (Cons x xs)
  then obtain k where "n = Suc k" "length xs < k" by (cases n) auto
  with Cons show ?case by (simp add: put_list_def)
qed

lemma put_list_length: "length xs < length (put_list put xs @ r)"
  by (induction xs) (simp_all add: put_list_def)

fun put_block :: "string content_block \<Rightarrow> string" where
  "put_block (Text t) = ''T'' @ put_str t"
| "put_block (Image a b) = ''I'' @ put_str a @ put_str b"
| "put_block (ToolUse a b c) = ''U'' @ put_str a @ put_str b @ put_str c"
| "put_block (ToolResult a b e) = (if e then ''E'' else ''R'') @ put_str a @ put_str b"
| "put_block (Thinking t) = ''H'' @ put_str t"
| "put_block Unknown = ''N''"

definition get2 :: "(string \<Rightarrow> string \<Rightarrow> 'a) \<Rightarrow> string \<Rightarrow> ('a \<times> string) option" where
  "get2 f r = (case get_str r of None \<Rightarrow> None | Some (a, r1) \<Rightarrow> map_option (\<lambda>(b, r2). (f a b, r2)) (get_str r1))"

definition get_block :: "string \<Rightarrow> (string content_block \<times> string) option" where
  "get_block s =
     (case s of
        [] \<Rightarrow> None
      | t # r \<Rightarrow>
          (if t = CHR ''T'' then map_option (\<lambda>(a, r1). (Text a, r1)) (get_str r)
           else if t = CHR ''I'' then get2 Image r
           else if t = CHR ''U'' then
             (case get_str r of None \<Rightarrow> None | Some (a, r1) \<Rightarrow> get2 (ToolUse a) r1)
           else if t = CHR ''R'' then get2 (\<lambda>a b. ToolResult a b False) r
           else if t = CHR ''E'' then get2 (\<lambda>a b. ToolResult a b True) r
           else if t = CHR ''H'' then map_option (\<lambda>(a, r1). (Thinking a, r1)) (get_str r)
           else Some (Unknown, r)))"

lemma get_put_block: "get_block (put_block b @ r) = Some (b, r)"
  by (cases b) (simp_all add: get_block_def get2_def)

fun role_byte :: "role \<Rightarrow> char" where
  "role_byte System = CHR ''s''"
| "role_byte User = CHR ''u''"
| "role_byte Assistant = CHR ''a''"

definition put_message :: "string message \<Rightarrow> string" where
  "put_message m =
     role_byte (role m) # (case content m of
        TextContent t \<Rightarrow> CHR ''t'' # put_str t
      | Blocks bs \<Rightarrow> CHR ''b'' # put_list put_block bs)"

definition get_message :: "string \<Rightarrow> (string message \<times> string) option" where
  "get_message s =
     (case s of
        c # k # r \<Rightarrow>
          (let ro = (if c = CHR ''s'' then System else if c = CHR ''u'' then User else Assistant)
           in if k = CHR ''t'' then map_option (\<lambda>(t, r1). (\<lparr>role = ro, content = TextContent t\<rparr>, r1)) (get_str r)
              else map_option (\<lambda>(bs, r1). (\<lparr>role = ro, content = Blocks bs\<rparr>, r1)) (get_list (length r) get_block r))
      | _ \<Rightarrow> None)"

lemma get_put_message: "get_message (put_message m @ r) = Some (m, r)"
proof (cases "content m")
  case (TextContent t)
  then show ?thesis by (cases "role m") (simp_all add: put_message_def get_message_def Let_def)
next
  case (Blocks bs)
  then have "get_list (length (put_list put_block bs @ r)) get_block (put_list put_block bs @ r) = Some (bs, r)"
    by (intro get_put_list get_put_block put_list_length)
  then show ?thesis using Blocks by (cases "role m") (simp_all add: put_message_def get_message_def Let_def)
qed

definition byte_packer :: "string packer" where
  "byte_packer =
     \<lparr>to_vec_named = put_list put_message, to_vec = put_list put_message,
      from_slice = (\<lambda>s. map_option fst (get_list (length s) get_message s))\<rparr>"

lemma byte_packer_ok: "packer_ok byte_packer"
proof -
  have "get_list (length (put_list put_message ms @ [])) get_message (put_list put_message ms @ []) = Some (ms, [])" for ms
    by (intro get_put_list get_put_message put_list_length)
  then show ?thesis by (simp add: packer_ok_def byte_packer_def)
qed


subsection \<open>A message that cannot be cut\<close>

text \<open>
  When one of the fifty-one oldest messages is longer than 200 bytes and its byte 200 is inside a
  character, no append ever succeeds that would bring the history above the threshold: each panics in
  the compaction and the messages of that turn are lost. However many turns follow, the memory never
  holds more than a hundred messages, and the old ones stay.
\<close>

lemma append_stuck:
  assumes "load_canonical p now a s = Ok c" "compaction_cursor c = 0"
    and "\<exists>m \<in> set (take 51 (messages c)). uncuttable m" "length (messages c @ new) > 100"
  shows "append_canonical p now a new None s = (Err (Panicked SliceNotOnBoundary), s)"
proof -
  let ?all = "messages c @ new"
  have "set (take 51 (messages c)) \<subseteq> set (take (length ?all - 50) ?all)"
  proof -
    have "take 51 (messages c) = take 51 (take (length (messages c)) ?all)" by simp
    also have "\<dots> = take (min 51 (length (messages c))) ?all" by (simp only: take_take min.commute)
    also have "set \<dots> \<subseteq> set (take (length ?all - 50) ?all)"
      using assms(4) by (intro set_take_subset_set_take) auto
    finally show ?thesis .
  qed
  with assms(3) have "summary_lines (take (length ?all - 50) ?all) = Err SliceNotOnBoundary"
    using summary_lines_ok by blast
  then show ?thesis using assms(1,2,4)
    by (simp add: append_canonical_def compact_canonical_fresh default_compaction_threshold_def
        default_canonical_window_def summarize_old_def)
qed

definition append_all :: "'j packer \<Rightarrow> agent_id \<Rightarrow> session_store \<Rightarrow> (string \<times> 'j message list) list \<Rightarrow> session_store" where
  "append_all p a s turns = foldl (\<lambda>s (now, ms). snd (append_canonical p now a ms None s)) s turns"

theorem canonical_memory_stuck:
  assumes "packer_ok p" "store_ok p s" "load_canonical p now a s = Ok c"
    and "\<exists>m \<in> set (take 51 (messages c)). uncuttable m" "length (messages c) \<le> 100"
  shows "\<exists>c'. load_canonical p now a (append_all p a s turns) = Ok c' \<and> prefix (messages c) (messages c')
    \<and> length (messages c') \<le> 100"
  using assms(2-)
proof (induction turns arbitrary: s c)
  case Nil
  then show ?case by (auto simp: append_all_def)
next
  case (Cons x turns)
  obtain t ms where x: "x = (t, ms)" by (cases x)
  from load_ok [OF Cons.prems(1), of now a] Cons.prems(2) have z: "compaction_cursor c = 0" by auto
  obtain ct where ct: "load_canonical p t a s = Ok ct" "compaction_cursor ct = 0" "messages ct = messages c"
    using Cons.prems(2) z by (auto simp: load_canonical_def map_sum_Inr split: option.splits)
  show ?case
  proof (cases "length (messages c @ ms) > 100")
    case True
    then have "append_canonical p t a ms None s = (Err (Panicked SliceNotOnBoundary), s)"
      using append_stuck [OF ct(1,2)] Cons.prems(3) ct(3) by simp
    then show ?thesis using Cons.IH [OF Cons.prems] x by (simp add: append_all_def)
  next
    case False
    define c2 where "c2 = ct\<lparr>messages := messages c @ ms, updated_at := t\<rparr>"
    have a: "snd (append_canonical p t a ms None s) = save_canonical p a c2 s"
      using False ct by (simp add: append_canonical_def compact_canonical_def default_compaction_threshold_def c2_def Let_def)
    have m: "messages c2 = messages c @ ms" by (simp add: c2_def)
    have "store_ok p (save_canonical p a c2 s)"
      using assms(1) Cons.prems(1) ct(2) by (simp add: store_ok_save_canonical c2_def)
    moreover have "load_canonical p now a (save_canonical p a c2 s) = Ok c2"
      using assms(1) by (rule saved_canonical_loads)
    moreover have "\<exists>m \<in> set (take 51 (messages c2)). uncuttable m" using Cons.prems(3) m by auto
    moreover have "length (messages c2) \<le> 100" using False m by simp
    ultimately obtain c' where "load_canonical p now a (append_all p a (save_canonical p a c2 s) turns) = Ok c'"
        "prefix (messages c2) (messages c')" "length (messages c') \<le> 100"
      using Cons.IH by blast
    then show ?thesis using a m x by (auto simp: append_all_def dest: append_prefixD)
  qed
qed

text \<open>The mirror of a session panics on a thought that cannot be cut; the lines before it are written.\<close>

lemma mirror_texts_err:
  "mirror_texts bs = Err e \<longleftrightarrow>
     (\<exists>t. Thinking t \<in> set bs \<and> 200 < length t \<and> \<not> is_char_boundary t 200) \<and> e = SliceNotOnBoundary"
proof (induction bs)
  case (Cons b bs)
  show ?case
  proof (cases b)
    case (Thinking t)
    show ?thesis
    proof (cases "200 < length t \<and> \<not> is_char_boundary t 200")
      case True
      then show ?thesis using Thinking by (auto simp: slice_to_def min_def)
    next
      case False
      then have "\<exists>cut. slice_to t (min (length t) 200) = Ok cut"
        by (auto simp: slice_to_def min_def is_char_boundary_def)
      then show ?thesis using Thinking Cons False by (auto simp: map_sum_Inl)
    qed
  qed (use Cons in \<open>auto simp: map_sum_Inl\<close>)
qed simp

theorem mirror_panics:
  "snd (write_jsonl_mirror now ms) = Some SliceNotOnBoundary \<longleftrightarrow>
     (\<exists>m \<in> set ms. \<exists>bs t. content m = Blocks bs \<and> Thinking t \<in> set bs \<and> 200 < length t \<and> \<not> is_char_boundary t 200)"
proof (induction ms)
  case (Cons m ms)
  show ?case
  proof (cases "content m")
    case (TextContent t)
    then show ?thesis using Cons by (cases "write_jsonl_mirror now ms") (auto simp: mirror_line_def)
  next
    case (Blocks bs)
    show ?thesis
    proof (cases "mirror_texts bs")
      case (Inl e)
      then show ?thesis using mirror_texts_err [of bs e] Blocks by (auto simp: mirror_line_def)
    next
      case (Inr ts)
      then have "\<not> (\<exists>t. Thinking t \<in> set bs \<and> 200 < length t \<and> \<not> is_char_boundary t 200)"
        using mirror_texts_err [of bs SliceNotOnBoundary] by simp
      then show ?thesis using Cons Inr Blocks by (cases "write_jsonl_mirror now ms") (auto simp: mirror_line_def)
    qed
  qed
qed simp

end
