(* ===== verification/Compactor.thy ===== *)
theory Compactor
  imports Session_Store Llm_Retry Context_Budget Session_Repair Result_Strip Registry
begin

text \<open>
  Compaction of a session with the help of a model: \<open>clawreform-runtime/src/compactor.rs\<close>, and what the
  kernel does around it, \<open>compact_agent_session\<close> and the two triggers in \<open>kernel.rs\<close>. A driver is a
  function on the world \<open>'w\<close>, \<open>to_json\<close> is \<open>serde_json::to_string\<close>. The outer result of an operation
  is a panic of the code: a slice inside a character, or one of \<open>strip_tool_result_details\<close>.
\<close>

section \<open>Configuration and triggers\<close>

record compaction_config =
  cc_threshold :: nat
  cc_keep_recent :: nat
  cc_max_summary_tokens :: nat
  cc_base_chunk_ratio :: dyadic
  cc_min_chunk_ratio :: dyadic
  cc_safety_margin :: dyadic
  cc_summarization_overhead_tokens :: nat
  cc_max_chunk_chars :: nat
  cc_max_retries :: nat
  cc_token_threshold_ratio :: dyadic
  cc_context_window_tokens :: nat

text \<open>The numbers 0.4, 0.15, 1.2 and 0.7 as they are stored.\<close>

definition default_compaction :: compaction_config where
  "default_compaction =
     \<lparr>cc_threshold = 30, cc_keep_recent = 10, cc_max_summary_tokens = 1024,
      cc_base_chunk_ratio = Dy 3602879701896397 (- 53), cc_min_chunk_ratio = Dy 5404319552844595 (- 55),
      cc_safety_margin = Dy 5404319552844595 (- 52), cc_summarization_overhead_tokens = 4096,
      cc_max_chunk_chars = 80000, cc_max_retries = 3, cc_token_threshold_ratio = Dy 3152519739159347 (- 52),
      cc_context_window_tokens = 200000\<rparr>"

definition needs_compaction :: "'j message list \<Rightarrow> compaction_config \<Rightarrow> bool" where
  "needs_compaction ms cfg \<longleftrightarrow> length ms > cc_threshold cfg"

definition needs_compaction_by_tokens :: "nat \<Rightarrow> compaction_config \<Rightarrow> bool" where
  "needs_compaction_by_tokens estimated cfg \<longleftrightarrow>
     estimated > f64_to_u64 (f64_mul (f64_of_nat (cc_context_window_tokens cfg)) (cc_token_threshold_ratio cfg))"

section \<open>The report\<close>

datatype context_pressure = LowPressure | MediumPressure | HighPressure | CriticalPressure

definition from_percent :: "dyadic \<Rightarrow> context_pressure" where
  "from_percent pct =
     (if f64_less (Dy 85 0) pct then CriticalPressure
      else if f64_less (Dy 70 0) pct then HighPressure
      else if f64_less (Dy 50 0) pct then MediumPressure
      else LowPressure)"

record context_report =
  estimated_tokens :: nat
  context_window :: nat
  usage_percent :: dyadic
  pressure :: context_pressure
  report_messages :: nat
  system_prompt_tokens :: nat
  message_tokens :: nat
  tool_definition_tokens :: nat
  recommendation :: string

fun recommend :: "context_pressure \<Rightarrow> string" where
  "recommend LowPressure = ''Context usage is healthy.''"
| "recommend MediumPressure = ''Consider using /compact if the conversation grows longer.''"
| "recommend HighPressure = ''Context is getting full. Use /compact to summarize older messages.''"
| "recommend CriticalPressure = ''Context is nearly full! Use /compact or /new immediately.''"

definition percent_used :: "nat \<Rightarrow> nat \<Rightarrow> dyadic" where
  "percent_used used cw =
     (let x = f64_mul (f64_div (f64_of_nat used) (f64_of_nat cw)) (Dy 100 0)
      in if f64_less (Dy 100 0) x then Dy 100 0 else x)"

definition generate_context_report ::
  "('j \<Rightarrow> string) \<Rightarrow> 'j message list \<Rightarrow> string option \<Rightarrow> 'j tool_definition list option \<Rightarrow> nat \<Rightarrow> context_report" where
  "generate_context_report to_json ms sys tool_defs window =
     (let sp = (case sys of None \<Rightarrow> 0 | Some s \<Rightarrow> length s div 4);
          mt = sum_list (map (\<lambda>m. text_length (content m) + 16) ms) div 4;
          tt = (case tool_defs of None \<Rightarrow> 0 | Some defs \<Rightarrow> tool_chars to_json defs div 4);
          used = sp + mt + tt; cw = max window 1; pct = percent_used used cw
      in \<lparr>estimated_tokens = used, context_window = cw,
          usage_percent = f64_div (f64_of_nat (f64_round (f64_mul pct (Dy 10 0)))) (Dy 10 0),
          pressure = from_percent pct, report_messages = length ms, system_prompt_tokens = sp,
          message_tokens = mt, tool_definition_tokens = tt, recommendation = recommend (from_percent pct)\<rparr>)"

section \<open>Chunks\<close>

text \<open>
  The average length is a quotient of floating point numbers in the code. It is above 1000 or 500 exactly
  when the sum is above that many times the number of messages, for any history of fewer than \<open>2 ^ 42\<close>
  messages.
\<close>

definition f64_clamp :: "dyadic \<Rightarrow> dyadic \<Rightarrow> dyadic \<Rightarrow> dyadic" where
  "f64_clamp x lo hi = (if f64_less x lo then lo else if f64_less hi x then hi else x)"

definition compute_adaptive_chunk_ratio :: "'j message list \<Rightarrow> compaction_config \<Rightarrow> dyadic" where
  "compute_adaptive_chunk_ratio ms cfg =
     (if ms = [] then cc_base_chunk_ratio cfg
      else let chars = sum_list (map (\<lambda>m. text_length (content m)) ms);
               ratio = (if chars > 1000 * length ms then cc_min_chunk_ratio cfg
                        else if chars > 500 * length ms
                          then f64_div (f64_add (cc_base_chunk_ratio cfg) (cc_min_chunk_ratio cfg)) (Dy 2 0)
                        else cc_base_chunk_ratio cfg)
           in f64_clamp ratio (cc_min_chunk_ratio cfg) (cc_base_chunk_ratio cfg))"

definition chunk_size :: "'j message list \<Rightarrow> compaction_config \<Rightarrow> nat" where
  "chunk_size ms cfg =
     max (f64_ceil (f64_mul (f64_of_nat (length ms)) (compute_adaptive_chunk_ratio ms cfg))) 5"

function chunks :: "nat \<Rightarrow> 'a list \<Rightarrow> 'a list list" where
  "chunks n xs = (if xs = [] \<or> n = 0 then [] else take n xs # chunks n (drop n xs))"
  by pat_completeness auto
termination by (relation "measure (\<lambda>(n, xs). length xs)") auto

declare chunks.simps [simp del]

section \<open>The text that is summarised\<close>

definition is_oversized :: "'j message \<Rightarrow> compaction_config \<Rightarrow> bool" where
  "is_oversized m cfg \<longleftrightarrow> text_length (content m) > cc_max_chunk_chars cfg div 2"

definition blank_line :: string where
  "blank_line = [newline, newline]"

definition shorten_text :: "nat \<Rightarrow> string \<Rightarrow> string" where
  "shorten_text limit t =
     (if length t > limit
      then safe_truncate_str t limit @ ''...[truncated from '' @ show_nat (length t) @ '' chars]'' else t)"

definition role_text :: "compaction_config \<Rightarrow> bool \<Rightarrow> role \<Rightarrow> string \<Rightarrow> string" where
  "role_text cfg oversized r t =
     (if t = [] then []
      else role_label r @ '': '' @ (if oversized then shorten_text (cc_max_chunk_chars cfg div 4) t else t) @ blank_line)"

definition preview_of :: "nat \<Rightarrow> string \<Rightarrow> string" where
  "preview_of n t = (if length t > n then safe_truncate_str t n @ ''...'' else t)"

fun block_text :: "('j \<Rightarrow> string) \<Rightarrow> compaction_config \<Rightarrow> bool \<Rightarrow> role \<Rightarrow> 'j content_block \<Rightarrow> (string, panic) result" where
  "block_text to_json cfg oversized r (Text t) = Ok (role_text cfg oversized r t)"
| "block_text to_json cfg oversized r (ToolUse i n v) =
     Ok (''[Used tool '' @ [CHR 0x27] @ n @ [CHR 0x27] @ '' with params: '' @ preview_of 200 (to_json v) @ '']'' @ blank_line)"
| "block_text to_json cfg oversized r (ToolResult i c e) =
     map_sum id
       (\<lambda>cleaned. ''[Tool result ('' @ (if e then ''ERROR'' else ''OK'') @ ''): '' @ preview_of 2000 cleaned @ '']'' @ blank_line)
       (strip_tool_result_details c)"
| "block_text to_json cfg oversized r (Image media_type d) = Ok (''[Image: '' @ media_type @ '']'' @ blank_line)"
| "block_text to_json cfg oversized r (Thinking t) = Ok []"
| "block_text to_json cfg oversized r Unknown = Ok []"

fun join_results :: "(string, panic) result list \<Rightarrow> (string, panic) result" where
  "join_results [] = Ok []"
| "join_results (Inl e # rs) = Err e"
| "join_results (Inr t # rs) = map_sum id (\<lambda>u. t @ u) (join_results rs)"

definition build_conversation_text ::
  "('j \<Rightarrow> string) \<Rightarrow> 'j message list \<Rightarrow> compaction_config \<Rightarrow> (string, panic) result" where
  "build_conversation_text to_json ms cfg =
     join_results (concat (map (\<lambda>m.
       case content m of
         TextContent t \<Rightarrow> [Ok (role_text cfg (is_oversized m cfg) (role m) t)]
       | Blocks bs \<Rightarrow> map (block_text to_json cfg (is_oversized m cfg) (role m)) bs) ms))"

definition effective_max :: "compaction_config \<Rightarrow> nat" where
  "effective_max cfg = f64_to_u64 (f64_div (f64_of_nat (cc_max_chunk_chars cfg)) (cc_safety_margin cfg))"

definition conversation_tail :: "compaction_config \<Rightarrow> string \<Rightarrow> (string, panic) result" where
  "conversation_tail cfg t =
     (if length t > effective_max cfg then slice_from t (length t - effective_max cfg) else Ok t)"

section \<open>Summaries\<close>

definition summary_request :: "string \<Rightarrow> compaction_config \<Rightarrow> string \<Rightarrow> string \<Rightarrow> 'j completion_request" where
  "summary_request m cfg sys prompt =
     \<lparr>req_model = m, req_messages = [\<lparr>role = User, content = Blocks [Text prompt]\<rparr>], req_tools = [],
      req_max_tokens = cc_max_summary_tokens cfg, req_temperature = Fin (10066330 / 33554432), req_system = Some sys\<rparr>"

definition summarize_prompt :: "string \<Rightarrow> string" where
  "summarize_prompt t =
     ''Summarize the following conversation preserving key facts, decisions, user preferences, and important context. Be concise but thorough. Output only the summary, no preamble.''
     @ blank_line @ ''---'' @ [newline] @ t @ ''---''"

definition summarizer_system :: string where
  "summarizer_system =
     ''You are a conversation summarizer. Produce a concise summary that captures all key facts, decisions, and context from the conversation.''"

definition merger_system :: string where
  "merger_system =
     ''You are a conversation summarizer. Merge the provided partial summaries into a single cohesive summary.''"

fun attempt_summary ::
  "('j, 'w) driver_call \<Rightarrow> 'j completion_request \<Rightarrow> nat \<Rightarrow> string \<Rightarrow> 'w \<Rightarrow> (string, string) result \<times> 'w" where
  "attempt_summary ask req 0 last_error w = (Err last_error, w)"
| "attempt_summary ask req (Suc n) last_error w =
     (case ask req w of
        (Inr response, w1) \<Rightarrow>
          if response_text response = []
          then attempt_summary ask req n ''LLM returned empty summary'' w1
          else (Ok (response_text response), w1)
      | (Inl e, w1) \<Rightarrow> attempt_summary ask req n (''LLM summarization failed: '' @ llm_error_text e) w1)"

definition summarize_messages ::
  "('j \<Rightarrow> string) \<Rightarrow> ('j, 'w) driver_call \<Rightarrow> string \<Rightarrow> 'j message list \<Rightarrow> compaction_config \<Rightarrow> 'w
   \<Rightarrow> ((string, string) result \<times> 'w, panic) result" where
  "summarize_messages to_json ask m ms cfg w =
     (case build_conversation_text to_json ms cfg of
        Inl e \<Rightarrow> Err e
      | Inr t \<Rightarrow>
          (case conversation_tail cfg t of
             Inl e \<Rightarrow> Err e
           | Inr t1 \<Rightarrow>
               Ok (attempt_summary ask (summary_request m cfg summarizer_system (summarize_prompt t1))
                     (cc_max_retries cfg) [] w)))"

definition chunk_note :: "nat \<Rightarrow> nat \<Rightarrow> string" where
  "chunk_note i n =
     ''[Chunk '' @ show_nat (i + 1) @ '': '' @ show_nat n @ '' messages, summarization unavailable]''"

text \<open>The summaries of the chunks from the \<open>i\<close>th on, the number of good ones and the last error.\<close>

fun summarize_each ::
  "('j \<Rightarrow> string) \<Rightarrow> ('j, 'w) driver_call \<Rightarrow> string \<Rightarrow> compaction_config \<Rightarrow> nat \<Rightarrow> 'j message list list
   \<Rightarrow> string list \<times> nat \<times> string \<Rightarrow> 'w \<Rightarrow> ((string list \<times> nat \<times> string) \<times> 'w, panic) result" where
  "summarize_each to_json ask m cfg i [] acc w = Ok (acc, w)"
| "summarize_each to_json ask m cfg i (c # cs) (summaries, good, last_error) w =
     (case summarize_messages to_json ask m c cfg w of
        Inl e \<Rightarrow> Err e
      | Inr (Inr t, w1) \<Rightarrow> summarize_each to_json ask m cfg (Suc i) cs (summaries @ [t], Suc good, last_error) w1
      | Inr (Inl e, w1) \<Rightarrow>
          summarize_each to_json ask m cfg (Suc i) cs
            (summaries @ [chunk_note i (length c)], good, e) w1)"

definition merge_prompt :: "string list \<Rightarrow> string" where
  "merge_prompt summaries =
     ''Merge these '' @ show_nat (length summaries)
     @ '' conversation summaries into one concise, coherent summary. Preserve all key facts, decisions, and context. Output only the merged summary.''
     @ blank_line
     @ str_join blank_line (map (\<lambda>(i, s). ''--- Part '' @ show_nat (i + 1) @ '' ---'' @ [newline] @ s) (enumerate 0 summaries))"

definition summarize_in_chunks ::
  "('j \<Rightarrow> string) \<Rightarrow> ('j, 'w) driver_call \<Rightarrow> string \<Rightarrow> 'j message list \<Rightarrow> compaction_config \<Rightarrow> 'w
   \<Rightarrow> ((string, string) result \<times> 'w, panic) result" where
  "summarize_in_chunks to_json ask m ms cfg w =
     (case summarize_each to_json ask m cfg 0 (chunks (chunk_size ms cfg) ms) ([], 0, []) w of
        Inl e \<Rightarrow> Err e
      | Inr ((summaries, good, last_error), w1) \<Rightarrow>
          Ok (if good = 0
              then (Err (''All '' @ show_nat (length summaries) @ '' chunks failed to summarize: '' @ last_error), w1)
              else case summaries of
                     [] \<Rightarrow> (Err ''No chunks were summarized'', w1)
                   | [s] \<Rightarrow> (Ok s, w1)
                   | _ \<Rightarrow>
                     (case ask (summary_request m cfg merger_system (merge_prompt summaries)) w1 of
                        (Inr response, w2) \<Rightarrow>
                          (Ok (if response_text response = [] then str_join blank_line summaries else response_text response), w2)
                      | (Inl _, w2) \<Rightarrow> (Ok (str_join blank_line summaries), w2))))"

record 'j compaction_result =
  summary :: string
  kept_messages :: "'j message list"
  compacted_count :: nat
  chunks_used :: nat
  used_fallback :: bool

definition chunk_count :: "'j message list \<Rightarrow> compaction_config \<Rightarrow> nat" where
  "chunk_count ms cfg = max (f64_ceil (f64_div (f64_of_nat (length ms)) (f64_of_nat (chunk_size ms cfg)))) 1"

definition compact_session ::
  "('j \<Rightarrow> string) \<Rightarrow> ('j, 'w) driver_call \<Rightarrow> string \<Rightarrow> 'j message list \<Rightarrow> compaction_config \<Rightarrow> 'w
   \<Rightarrow> ('j compaction_result \<times> 'w, panic) result" where
  "compact_session to_json ask m ms cfg w =
     (if length ms \<le> cc_keep_recent cfg
      then Ok (\<lparr>summary = [], kept_messages = ms, compacted_count = 0, chunks_used = 0, used_fallback = False\<rparr>, w)
      else
        let split_at = length ms - cc_keep_recent cfg; old = take split_at ms; kept = drop split_at ms
        in case summarize_messages to_json ask m old cfg w of
             Inl e \<Rightarrow> Err e
           | Inr (Inr t, w1) \<Rightarrow>
               Ok (\<lparr>summary = t, kept_messages = kept, compacted_count = length old, chunks_used = 1, used_fallback = False\<rparr>, w1)
           | Inr (Inl _, w1) \<Rightarrow>
               (case summarize_in_chunks to_json ask m old cfg w1 of
                  Inl e \<Rightarrow> Err e
                | Inr (Inr t, w2) \<Rightarrow>
                    Ok (\<lparr>summary = t, kept_messages = kept, compacted_count = length old,
                         chunks_used = chunk_count old cfg, used_fallback = False\<rparr>, w2)
                | Inr (Inl _, w2) \<Rightarrow>
                    Ok (\<lparr>summary = ''[Session compacted: '' @ show_nat (length old) @ '' messages removed. Recent ''
                           @ show_nat (length kept) @ '' messages preserved. Summarization was unavailable.]'',
                         kept_messages = kept, compacted_count = length old, chunks_used = 0, used_fallback = True\<rparr>, w2)))"

section \<open>The kernel\<close>

datatype compaction_error =
    AgentNotFound agent_id
  | StoreFailed store_error
  | DriverFailed string
  | CompactionPanicked panic

datatype compaction_reply =
    NotNeeded nat nat
  | CompactedInto nat nat nat repair_stats

text \<open>What a compaction of an agent's session works with: the registry's entry and the driver it resolves to.\<close>

record ('x, 'j, 'w) compaction_env =
  ce_packer :: "'j packer"
  ce_json :: "'j \<Rightarrow> string"
  ce_entry :: "'x agent_entry option"
  ce_driver :: "(('j, 'w) driver_call, string) result"
  ce_now :: string

definition session_or_new ::
  "'j packer \<Rightarrow> session_id \<Rightarrow> agent_id \<Rightarrow> session_store \<Rightarrow> ('j session, store_error) result" where
  "session_or_new p i a s =
     map_sum id (\<lambda>x. case x of None \<Rightarrow> new_session i a None | Some y \<Rightarrow> y) (get_session p i s)"

definition compact_agent_session ::
  "('x, 'j, 'w) compaction_env \<Rightarrow> agent_id \<Rightarrow> session_store \<Rightarrow> 'w
   \<Rightarrow> (compaction_reply, compaction_error) result \<times> session_store \<times> 'w" where
  "compact_agent_session env a s w =
     (let p = ce_packer env; cfg = default_compaction
      in case ce_entry env of
           None \<Rightarrow> (Err (AgentNotFound a), s, w)
         | Some e \<Rightarrow>
             (case session_or_new p (session_id e) a s of
                Inl err \<Rightarrow> (Err (StoreFailed err), s, w)
              | Inr sess \<Rightarrow>
                  if \<not> needs_compaction (sess_messages sess) cfg
                  then (Ok (NotNeeded (length (sess_messages sess)) (cc_threshold cfg)), s, w)
                  else case ce_driver env of
                         Inl err \<Rightarrow> (Err (DriverFailed err), s, w)
                       | Inr ask \<Rightarrow>
                           (case compact_session (ce_json env) ask (model (model_conf (manifest e)))
                                   (sess_messages sess) cfg w of
                              Inl err \<Rightarrow> (Err (CompactionPanicked err), s, w)
                            | Inr (r, w1) \<Rightarrow>
                                (case store_llm_summary p (ce_now env) a (summary r) (kept_messages r) s of
                                   (Inl err, s1) \<Rightarrow> (Err (StoreFailed err), s1, w1)
                                 | (Inr _, s1) \<Rightarrow>
                                     (let (repaired, stats) = validate_and_repair_with_stats (kept_messages r);
                                          sess1 = sess\<lparr>sess_messages := repaired\<rparr>
                                      in (Ok (CompactedInto (compacted_count r) (length (summary r)) (length repaired) stats),
                                          save_session p (ce_now env) sess1 s1, w1))))))"

text \<open>
  The triggers: before a streamed turn, when the history is too long or its estimated size too large, and
  after it, when the size is too large. The messages of the session that the turn runs on are the result.
\<close>

definition needs_auto_compaction :: "('j \<Rightarrow> string) \<Rightarrow> string \<Rightarrow> 'j message list \<Rightarrow> bool" where
  "needs_auto_compaction to_json sys ms \<longleftrightarrow>
     needs_compaction ms default_compaction
     \<or> needs_compaction_by_tokens (estimate_token_count to_json ms (Some sys) None) default_compaction"

definition auto_compact ::
  "('x, 'j, 'w) compaction_env \<Rightarrow> agent_id \<Rightarrow> 'x agent_entry \<Rightarrow> 'j session \<Rightarrow> session_store \<Rightarrow> 'w
   \<Rightarrow> 'j session \<times> session_store \<times> 'w" where
  "auto_compact env a e sess s w =
     (if needs_auto_compaction (ce_json env) (system_prompt (model_conf (manifest e))) (sess_messages sess)
      then (case compact_agent_session env a s w of
              (Inr _, s1, w1) \<Rightarrow>
                ((case get_session (ce_packer env) (sess_id sess) s1 of Inr (Some y) \<Rightarrow> y | _ \<Rightarrow> sess), s1, w1)
            | (Inl _, s1, w1) \<Rightarrow> (sess, s1, w1))
      else (sess, s, w))"

definition post_loop_compaction ::
  "('x, 'j, 'w) compaction_env \<Rightarrow> agent_id \<Rightarrow> 'j message list \<Rightarrow> session_store \<Rightarrow> 'w \<Rightarrow> session_store \<times> 'w" where
  "post_loop_compaction env a ms s w =
     (if needs_compaction_by_tokens (estimate_token_count (ce_json env) ms None None) default_compaction
      then (case compact_agent_session env a s w of (_, s1, w1) \<Rightarrow> (s1, w1))
      else (s, w))"

section \<open>Limits\<close>

lemma token_threshold: "needs_compaction_by_tokens n default_compaction \<longleftrightarrow> n > 140000"
  by (simp add: needs_compaction_by_tokens_def default_compaction_def f64_of_nat_def shift_round_def Let_def f64_to_u64_def)

lemma effective_max_default: "effective_max default_compaction = 66666"
  by (simp add: effective_max_def default_compaction_def f64_of_nat_def shift_round_def Let_def f64_to_u64_def)

lemma conversation_tail_panics:
  "conversation_tail cfg t = Err e \<longleftrightarrow>
     effective_max cfg < length t \<and> \<not> is_char_boundary t (length t - effective_max cfg) \<and> e = SliceNotOnBoundary"
  by (auto simp: conversation_tail_def slice_from_def)

text \<open>The parts of the report add up to at most the estimate of the triggers, and to at least two less.\<close>

theorem report_estimate:
  "let r = generate_context_report to_json ms sys tool_defs window
   in estimated_tokens r = system_prompt_tokens r + message_tokens r + tool_definition_tokens r
      \<and> estimated_tokens r \<le> estimate_token_count to_json ms sys tool_defs
      \<and> estimate_token_count to_json ms sys tool_defs \<le> estimated_tokens r + 2"
proof -
  have "a div 4 + b div 4 + c div 4 \<le> (a + b + c) div 4" "(a + b + c) div 4 \<le> a div 4 + b div 4 + c div 4 + 2" for a b c :: nat
    by linarith+
  then show ?thesis
    by (cases sys; cases tool_defs) (simp_all add: generate_context_report_def estimate_token_count_def Let_def, auto)
qed

section \<open>Every message is summarised or kept\<close>

lemma attempt_summary_ok: "attempt_summary ask req n e w = (Ok t, w') \<Longrightarrow> t \<noteq> []"
  by (induction n arbitrary: e w) (auto split: prod.splits sum.splits if_splits)

lemma summarize_messages_ok: "summarize_messages to_json ask m ms cfg w = Ok (Ok t, w') \<Longrightarrow> t \<noteq> []"
  by (auto simp: summarize_messages_def split: sum.splits dest: attempt_summary_ok)

lemma summarize_each_ok:
  "summarize_each to_json ask m cfg i cs (xs, good, e) w = Ok ((xs', good', e'), w') \<Longrightarrow> [] \<notin> set xs \<Longrightarrow>
     [] \<notin> set xs' \<and> length xs' = length xs + length cs"
proof (induction cs arbitrary: i xs good e w)
  case (Cons c cs)
  then obtain r w1 where r: "summarize_messages to_json ask m c cfg w = Ok (r, w1)" by (auto split: sum.splits)
  show ?case
  proof (cases r)
    case (Inl err)
    with Cons.prems(1) r
    have "summarize_each to_json ask m cfg (Suc i) cs (xs @ [chunk_note i (length c)], good, err) w1
        = Ok ((xs', good', e'), w')" by simp
    from Cons.IH [OF this] Cons.prems(2) show ?thesis by (simp add: chunk_note_def)
  next
    case (Inr t)
    with r have "summarize_messages to_json ask m c cfg w = Ok (Ok t, w1)" by simp
    then have "t \<noteq> []" by (rule summarize_messages_ok)
    have "summarize_each to_json ask m cfg (Suc i) cs (xs @ [t], Suc good, e) w1 = Ok ((xs', good', e'), w')"
      using Cons.prems(1) r Inr by simp
    from Cons.IH [OF this] Cons.prems(2) \<open>t \<noteq> []\<close> show ?thesis by simp
  qed
qed simp

lemma str_join_empty: "[] \<notin> set xs \<Longrightarrow> str_join sep xs = [] \<longleftrightarrow> xs = []"
  by (induction sep xs rule: str_join.induct) auto

lemma summarize_in_chunks_ok: "summarize_in_chunks to_json ask m ms cfg w = Ok (Ok t, w') \<Longrightarrow> t \<noteq> []"
  by (auto simp: summarize_in_chunks_def str_join_empty split: sum.splits prod.splits if_splits list.splits
      dest!: summarize_each_ok)

lemma compaction_split:
  assumes "compact_session to_json ask m ms cfg w = Ok (r, w')"
  shows "take (compacted_count r) ms @ kept_messages r = ms
    \<and> length (kept_messages r) = min (length ms) (cc_keep_recent cfg)
    \<and> (summary r = [] \<longleftrightarrow> compacted_count r = 0)
    \<and> (used_fallback r \<longleftrightarrow> 0 < compacted_count r \<and> chunks_used r = 0)"
  using assms
  by (auto simp: compact_session_def chunk_count_def Let_def split: if_splits sum.splits prod.splits
      dest: summarize_messages_ok summarize_in_chunks_ok)

section \<open>The number of calls\<close>

text \<open>A driver that counts its calls in the world.\<close>

definition counted :: "('j, 'w) driver_call \<Rightarrow> ('j, nat \<times> 'w) driver_call" where
  "counted ask req w = (case ask req (snd w) of (r, w1) \<Rightarrow> (r, (Suc (fst w), w1)))"

lemma counted_world: "\<exists>r w'. counted ask req w = (r, (Suc (fst w), w'))"
  by (cases "ask req (snd w)") (simp add: counted_def)

lemma attempt_summary_calls:
  "attempt_summary (counted ask) req n e w = (r, w') \<Longrightarrow> fst w' \<le> fst w + n"
proof (induction n arbitrary: e w)
  case (Suc n)
  obtain x v where x: "counted ask req w = (x, (Suc (fst w), v))" using counted_world [of ask req w] by blast
  show ?case
  proof (cases x)
    case (Inl err)
    with Suc.prems x show ?thesis by (auto dest!: Suc.IH)
  next
    case (Inr resp)
    with Suc.prems x show ?thesis by (auto dest!: Suc.IH split: if_splits)
  qed
qed simp

lemma summarize_messages_calls:
  "summarize_messages to_json (counted ask) m ms cfg w = Ok (r, w') \<Longrightarrow> fst w' \<le> fst w + cc_max_retries cfg"
  by (auto simp: summarize_messages_def split: sum.splits dest: attempt_summary_calls)

lemma summarize_each_calls:
  "summarize_each to_json (counted ask) m cfg i cs acc w = Ok (acc', w') \<Longrightarrow>
     fst w' \<le> fst w + length cs * cc_max_retries cfg"
proof (induction cs arbitrary: i acc w)
  case (Cons c cs)
  obtain xs good e where acc: "acc = (xs, good, e)" by (cases acc)
  from Cons.prems obtain r w1 where r: "summarize_messages to_json (counted ask) m c cfg w = Ok (r, w1)"
    by (auto simp: acc split: sum.splits)
  then have "fst w1 \<le> fst w + cc_max_retries cfg" by (rule summarize_messages_calls)
  moreover have "fst w' \<le> fst w1 + length cs * cc_max_retries cfg"
    using Cons.prems r by (cases r) (auto simp: acc dest!: Cons.IH)
  ultimately show ?case by simp
qed simp

lemma chunks_count: "5 \<le> n \<Longrightarrow> 5 * length (chunks n xs) \<le> length xs + 4"
proof (induction n xs rule: chunks.induct)
  case (1 n xs)
  show ?case
  proof (cases "xs = []")
    case False
    then have "5 * length (chunks n (drop n xs)) \<le> length (drop n xs) + 4" using 1 by auto
    moreover have "length (chunks n xs) = Suc (length (chunks n (drop n xs)))"
      using False 1(2) by (subst chunks.simps) simp
    moreover have "length xs \<le> n \<Longrightarrow> chunks n (drop n xs) = []" by (subst chunks.simps) simp
    moreover have "1 \<le> length xs" using False by (simp add: Suc_le_eq)
    ultimately show ?thesis using 1(2) by (cases "length xs \<le> n") (simp_all del: length_greater_0_conv)
  qed (simp add: chunks.simps)
qed

lemma chunks_concat: "0 < n \<Longrightarrow> concat (chunks n xs) = xs"
proof (induction n xs rule: chunks.induct)
  case (1 n xs)
  then show ?case by (subst chunks.simps) auto
qed

lemma summarize_in_chunks_calls:
  assumes "summarize_in_chunks to_json (counted ask) m ms cfg w = Ok (r, w')"
  shows "fst w' \<le> fst w + (length ms + 4) div 5 * cc_max_retries cfg + 1"
proof -
  let ?cs = "chunks (chunk_size ms cfg) ms"
  from assms obtain xs good e w1 where
    e: "summarize_each to_json (counted ask) m cfg 0 ?cs ([], 0, []) w = Ok ((xs, good, e), w1)"
    by (auto simp: summarize_in_chunks_def split: sum.splits)
  have "length ?cs \<le> (length ms + 4) div 5" using chunks_count [of "chunk_size ms cfg" ms] by (simp add: chunk_size_def)
  then have "length ?cs * cc_max_retries cfg \<le> (length ms + 4) div 5 * cc_max_retries cfg" by (rule mult_le_mono1)
  moreover have "fst w1 \<le> fst w + length ?cs * cc_max_retries cfg" using e by (rule summarize_each_calls)
  ultimately have "fst w1 \<le> fst w + (length ms + 4) div 5 * cc_max_retries cfg" by linarith
  moreover have "fst w' \<le> fst w1 + 1"
  proof -
    obtain x v where "counted ask (summary_request m cfg merger_system (merge_prompt xs)) w1 = (x, (Suc (fst w1), v))"
      using counted_world [of ask "summary_request m cfg merger_system (merge_prompt xs)" w1] by blast
    then show ?thesis using assms e
      by (auto simp: summarize_in_chunks_def split: if_splits list.splits sum.splits)
  qed
  ultimately show ?thesis by simp
qed

text \<open>
  A compaction makes a bounded number of calls, whatever the driver answers: the retries of the whole
  history, those of each chunk, of which there is one for every five messages at most, and one merge.
\<close>

theorem compaction_calls_bounded:
  assumes "compact_session to_json (counted ask) m ms cfg (0, w) = Ok (r, (n, w'))"
  shows "n \<le> cc_max_retries cfg * (1 + (length ms - cc_keep_recent cfg + 4) div 5) + 1"
proof (cases "length ms \<le> cc_keep_recent cfg")
  case True
  then show ?thesis using assms by (simp add: compact_session_def)
next
  case False
  let ?old = "take (length ms - cc_keep_recent cfg) ms"
  from assms False obtain x w1 where x: "summarize_messages to_json (counted ask) m ?old cfg (0, w) = Ok (x, w1)"
    by (auto simp: compact_session_def Let_def split: sum.splits)
  then have w1: "fst w1 \<le> cc_max_retries cfg" by (auto dest: summarize_messages_calls)
  show ?thesis
  proof (cases x)
    case (Inr t)
    then show ?thesis using assms False x w1 by (auto simp: compact_session_def Let_def)
  next
    case (Inl e)
    with assms False x obtain y where y: "summarize_in_chunks to_json (counted ask) m ?old cfg w1 = Ok (y, (n, w'))"
      by (auto simp: compact_session_def Let_def split: sum.splits)
    from summarize_in_chunks_calls [OF y] w1 False show ?thesis by (simp add: algebra_simps)
  qed
qed

text \<open>A driver that always answers, and a history of empty messages.\<close>

definition sample_driver :: "(string, 'w) driver_call" where
  "sample_driver req w =
     (Ok \<lparr>resp_content = [Text ''s''], resp_stop_reason = EndTurn, resp_tool_calls = [],
          resp_usage = \<lparr>input_tokens = 0, output_tokens = 0\<rparr>\<rparr>, w)"

lemma join_empty: "join_results (concat (map (\<lambda>m. [Ok []]) ms)) = Ok []"
  by (induction ms) simp_all

lemma summarize_empty:
  assumes "set ms \<subseteq> {user_message []}"
  shows "\<exists>v. summarize_messages to_json ask m ms default_compaction w = Ok v"
proof -
  have "map (\<lambda>x. case content x of
           TextContent t \<Rightarrow> [Ok (role_text default_compaction (is_oversized x default_compaction) (role x) t)]
         | Blocks bs \<Rightarrow> map (block_text to_json default_compaction (is_oversized x default_compaction) (role x)) bs) ms
      = map (\<lambda>x. [Ok []]) ms"
    using assms by (auto simp: user_message_def role_text_def)
  then have "build_conversation_text to_json ms default_compaction = Ok []"
    unfolding build_conversation_text_def by (simp only: join_empty)
  then show ?thesis by (simp add: summarize_messages_def conversation_tail_def)
qed

theorem compaction_calls_bounded_witness:
  "\<exists>r n. compact_session id (counted sample_driver) ''m'' (replicate 31 (user_message [])) default_compaction (0, ()) = Ok (r, (n, ()))
     \<and> n \<le> 19"
proof -
  let ?ms = "replicate 31 (user_message [])"
  obtain v where v: "summarize_messages id (counted sample_driver) ''m'' (take 21 ?ms) default_compaction (0, ()) = Ok v"
    using summarize_empty [of "take 21 ?ms"] by fastforce
  then have "fst v = Ok ''s''"
    by (auto simp: summarize_messages_def default_compaction_def counted_def sample_driver_def response_text_def
        numeral_3_eq_3 split: sum.splits)
  then obtain r n where
    c: "compact_session id (counted sample_driver) ''m'' ?ms default_compaction (0, ()) = Ok (r, (n, ()))"
    using v by (cases v) (auto simp: compact_session_def default_compaction_def Let_def)
  from compaction_calls_bounded [OF c] show ?thesis using c by (auto simp: default_compaction_def)
qed

section \<open>What a compaction leaves\<close>

lemma compact_agent_session_cases:
  assumes "compact_agent_session env a s w = (Ok (CompactedInto n l k st), s', w')" "ce_entry env = Some e"
  obtains sess ask r where
    "session_or_new (ce_packer env) (session_id e) a s = Ok sess"
    "needs_compaction (sess_messages sess) default_compaction"
    "compact_session (ce_json env) ask (model (model_conf (manifest e))) (sess_messages sess) default_compaction w = Ok (r, w')"
    "s' = save_session (ce_packer env) (ce_now env) (sess\<lparr>sess_messages := validate_and_repair (kept_messages r)\<rparr>)
            (snd (store_llm_summary (ce_packer env) (ce_now env) a (summary r) (kept_messages r) s))"
    "is_ok (fst (store_llm_summary (ce_packer env) (ce_now env) a (summary r) (kept_messages r) s))"
    "n = compacted_count r"
  using assms
  by (auto simp: compact_agent_session_def Let_def validate_and_repair_def split: sum.splits if_splits prod.splits)

lemma store_summary_canonical:
  assumes "packer_ok p" "is_ok (fst (store_llm_summary p now a t ms s))"
  shows "\<exists>c. load_canonical p later a (snd (store_llm_summary p now a t ms s)) = Ok c
    \<and> messages c = ms \<and> compacted_summary c = Some t \<and> compaction_cursor c = 0"
  using assms by (auto simp: store_llm_summary_def saved_canonical_loads split: sum.splits)

lemma save_session_canonical: "load_canonical p now a (save_session p t x s) = load_canonical p now a s"
  by (simp add: load_canonical_def save_session_def Let_def)

lemma store_summary_rows:
  "session_rows (snd (store_llm_summary p now a t ms s)) = session_rows s"
  by (auto simp: store_llm_summary_def save_canonical_def split: sum.split)

lemma session_or_new_cases:
  assumes "session_or_new p i a s = Ok x"
  obtains "get_session p i s = Ok None" "x = new_session i a None" | "get_session p i s = Ok (Some x)"
proof (cases "get_session p i s")
  case (Inl err)
  then show ?thesis using assms by (simp add: session_or_new_def)
next
  case (Inr found)
  then show ?thesis using assms that by (cases found) (simp_all add: session_or_new_def)
qed

lemma get_session_id: "get_session p i s = Ok (Some x) \<Longrightarrow> sess_id x = i"
proof (cases "map_of (session_rows s) i")
  case (Some r)
  then show "get_session p i s = Ok (Some x) \<Longrightarrow> sess_id x = i"
    by (cases "from_slice p (row_messages r)") (auto simp: get_session_def session_of_row_def decode_def)
qed (simp add: get_session_def)

lemma session_or_new_id: "session_or_new p i a s = Ok x \<Longrightarrow> sess_id x = i"
  by (erule session_or_new_cases) (simp_all add: new_session_def get_session_id)

text \<open>
  C17: After a compaction the session of the agent holds the last ten messages of its history, repaired: what
  the next turn loads is a history the model's API accepts, and together with the summary in the agent's
  memory it accounts for every message.
\<close>

theorem compacted_session_well_formed:
  assumes "packer_ok (ce_packer env)" "ce_entry env = Some e"
    and "compact_agent_session env a s w = (Ok (CompactedInto n l k st), s', w')"
  shows "\<exists>old new c. session_or_new (ce_packer env) (session_id e) a s = Ok old
    \<and> get_session (ce_packer env) (session_id e) s' = Ok (Some new)
    \<and> load_canonical (ce_packer env) later a s' = Ok c
    \<and> length (messages c) = 10 \<and> take n (sess_messages old) @ messages c = sess_messages old
    \<and> compacted_summary c \<noteq> None \<and> compacted_summary c \<noteq> Some []
    \<and> sess_messages new = validate_and_repair (messages c)
    \<and> alternates (sess_messages new) \<and> list_all non_empty (sess_messages new)
    \<and> set (results (sess_messages new)) \<subseteq> set (uses (sess_messages new))
    \<and> set (assistant_uses (sess_messages new)) \<subseteq> set (results (sess_messages new))"
proof -
  from compact_agent_session_cases [OF assms(3,2)] obtain sess ask r where
    sess: "session_or_new (ce_packer env) (session_id e) a s = Ok sess"
    and long: "needs_compaction (sess_messages sess) default_compaction"
    and r: "compact_session (ce_json env) ask (model (model_conf (manifest e))) (sess_messages sess) default_compaction w = Ok (r, w')"
    and s': "s' = save_session (ce_packer env) (ce_now env) (sess\<lparr>sess_messages := validate_and_repair (kept_messages r)\<rparr>)
            (snd (store_llm_summary (ce_packer env) (ce_now env) a (summary r) (kept_messages r) s))"
    and ok: "is_ok (fst (store_llm_summary (ce_packer env) (ce_now env) a (summary r) (kept_messages r) s))"
    and n: "n = compacted_count r" by blast
  have ten: "length (kept_messages r) = 10" "take n (sess_messages sess) @ kept_messages r = sess_messages sess"
    "summary r \<noteq> []"
    using compaction_split [OF r] long n by (auto simp: needs_compaction_def default_compaction_def)
  from store_summary_canonical [OF assms(1) ok] obtain c where
    "load_canonical (ce_packer env) later a s' = Ok c" "messages c = kept_messages r" "compacted_summary c = Some (summary r)"
    unfolding s' save_session_canonical by blast
  moreover obtain new where "get_session (ce_packer env) (session_id e) s' = Ok (Some new)"
      "sess_messages new = validate_and_repair (kept_messages r)"
    using loads_back [OF assms(1), of "sess\<lparr>sess_messages := validate_and_repair (kept_messages r)\<rparr>"]
      session_or_new_id [OF sess] unfolding s' by fastforce
  ultimately show ?thesis
    using sess ten repair_output_facts [of "kept_messages r"] by simp
qed

theorem compacted_session_well_formed_witness:
  "\<exists>(env :: (unit, string, unit) compaction_env) s n l k st s'.
     compact_agent_session env 1 s () = (Ok (CompactedInto n l k st), s', ())
     \<and> (\<exists>c. load_canonical byte_packer ''u'' 1 s' = Ok c \<and> length (messages c) = 10)"
proof -
  let ?ms = "replicate 31 (user_message [])"
  let ?s = "save_session byte_packer ''t'' ((new_session 1 1 None)\<lparr>sess_messages := ?ms\<rparr>) empty_store"
  let ?e = "(sample_entry 1 ''ann'')\<lparr>session_id := 1\<rparr>"
  let ?env = "\<lparr>ce_packer = byte_packer, ce_json = id, ce_entry = Some ?e, ce_driver = Ok sample_driver, ce_now = ''u''\<rparr>
    :: (unit, string, unit) compaction_env"
  let ?m = "model (model_conf (manifest ?e))"
  have g: "session_or_new byte_packer 1 1 ?s = Ok ((new_session 1 1 None)\<lparr>sess_messages := ?ms\<rparr>)"
    using loads_back [OF byte_packer_ok, of "(new_session 1 1 None)\<lparr>sess_messages := ?ms\<rparr>" "''t''" empty_store]
    by (simp add: session_or_new_def new_session_def empty_store_def)
  obtain v where v: "summarize_messages id sample_driver ?m (take 21 ?ms) default_compaction () = Ok v"
    using summarize_empty [of "take 21 ?ms"] by fastforce
  then have "fst v = Ok ''s''"
    by (auto simp: summarize_messages_def default_compaction_def sample_driver_def response_text_def
        numeral_3_eq_3 split: sum.splits)
  then obtain r where
    c: "compact_session id sample_driver ?m ?ms default_compaction () = Ok (r, ())"
    using v by (cases v) (auto simp: compact_session_def default_compaction_def Let_def)
  have l: "load_canonical byte_packer ''u'' 1 ?s
      = Ok \<lparr>messages = [], compaction_cursor = 0, compacted_summary = None, updated_at = ''u''\<rparr>"
    unfolding save_session_canonical by (simp add: load_canonical_def empty_store_def)
  have "\<exists>n l k st s'. compact_agent_session ?env 1 ?s () = (Ok (CompactedInto n l k st), s', ())"
    using g c l
    by (simp add: compact_agent_session_def needs_compaction_def Let_def new_session_def store_llm_summary_def
        split: prod.split) (simp add: default_compaction_def)
  then obtain n l k st s' where r: "compact_agent_session ?env 1 ?s () = (Ok (CompactedInto n l k st), s', ())" by blast
  have "packer_ok (ce_packer ?env)" "ce_entry ?env = Some ?e" by (simp_all add: byte_packer_ok)
  from compacted_session_well_formed [OF this r, of "''u''"]
  have "\<exists>c. load_canonical byte_packer ''u'' 1 s' = Ok c \<and> length (messages c) = 10" by auto
  with r show ?thesis by blast
qed

text \<open>
  The triggers that look at the size of the history have no effect: whatever the size, a session of at
  most thirty messages is not compacted, because the compaction itself asks for their number only.
\<close>

theorem size_trigger_void:
  assumes "ce_entry env = Some e" "session_or_new (ce_packer env) (session_id e) a s = Ok sess"
    and "length (sess_messages sess) \<le> 30"
  shows "auto_compact env a e sess s w = (sess, s, w) \<and> post_loop_compaction env a ms s w = (s, w)"
proof -
  have no: "compact_agent_session env a s w = (Ok (NotNeeded (length (sess_messages sess)) 30), s, w)"
    using assms by (simp add: compact_agent_session_def needs_compaction_def default_compaction_def Let_def)
  have "(case get_session (ce_packer env) (sess_id sess) s of Inr (Some y) \<Rightarrow> y | _ \<Rightarrow> sess) = sess"
    using assms(2) session_or_new_id [OF assms(2)] by (auto elim: session_or_new_cases)
  then show ?thesis by (simp add: auto_compact_def post_loop_compaction_def no)
qed

end
