(* ===== verification/Turn.thy ===== *)
theory Turn
  imports Agent_Loop Kernel Metering Audit_Trail Supervision Model_Routing Web_Fetch Compactor
begin

text \<open>
  A turn of an agent: \<open>send_message_with_handle\<close>, \<open>execute_llm_agent\<close> and \<open>send_message_streaming\<close> of
  \<open>clawreform-kernel/src/kernel.rs\<close>. It composes the quota of the scheduler, the spending limits, the
  session store, the choice of the model, the agent loop, the memory across channels, the usage ledger,
  the audit trail and the supervisor. The state of the kernel is the world on which the agent loop acts,
  so that a tool may change it, too.

  The text of the system prompt (\<open>te_prompt\<close>), the manifest fields that no other theory models
  (\<open>te_module\<close>, \<open>te_pinned\<close>, \<open>te_routing\<close>, \<open>te_max_iterations\<close>), the runtimes of WASM and Python agents
  (\<open>te_run_module\<close>) and the files of the workspace (\<open>te_workspace\<close>, \<open>te_write\<close>) are functions of the
  environment.
\<close>

section \<open>State and environment\<close>

record ('x, 'u) turn_state =
  k_kernel :: "'x kernel"
  k_ledger :: ledger
  k_audit :: audit_log
  k_supervisor :: supervisor
  k_store :: session_store
  k_rest :: 'u

datatype usage_footer = FooterOff | FooterTokens | FooterCost | FooterFull

datatype turn_error =
    TokenQuota Scheduler.quota_error
  | NoSuchAgent agent_id
  | OverBudget Metering.quota_error
  | StoreError store_error
  | NoDriver string
  | ModuleFailed string
  | LoopFailed loop_error
  | TurnPanicked panic

record turn_reply =
  tr_response :: string
  tr_usage :: token_usage
  tr_iterations :: nat
  tr_cost :: "f64 option"
  tr_silent :: bool
  tr_directives :: directive_set

record ('x, 'j, 'u) turn_env =
  te_packer :: "'j packer"
  te_loop :: "('j, ('x, 'u) turn_state) loop_env"
  te_context :: "('j, ('x, 'u) turn_state) tool_context"
  te_sources :: "'j tool_sources"
  te_driver :: "model_config \<Rightarrow> (('j, ('x, 'u) turn_state) driver, string) result"
  te_prompt :: "'x agent_manifest \<Rightarrow> 'j tool_definition list \<Rightarrow> string option \<Rightarrow> ('x, 'u) turn_state \<Rightarrow> string"
  te_module :: "'x agent_manifest \<Rightarrow> string"
  te_pinned :: "'x agent_manifest \<Rightarrow> string option"
  te_routing :: "'x agent_manifest \<Rightarrow> routing_config option"
  te_max_iterations :: "'x agent_manifest \<Rightarrow> nat option"
  te_run_module :: "'x agent_entry \<Rightarrow> string \<Rightarrow> ('x, 'u) turn_state \<Rightarrow> (string, string) result \<times> ('x, 'u) turn_state"
  te_workspace :: "'x agent_manifest \<Rightarrow> agent_id \<Rightarrow> 'u \<Rightarrow> string option \<times> 'u"
  te_write :: "string \<Rightarrow> session_id \<Rightarrow> 'j jsonl_line list \<Rightarrow> 'u \<Rightarrow> 'u"
  te_links :: "string \<Rightarrow> string option"
  te_catalog :: model_catalog
  te_floats :: "f64 float_ops"
  te_stable :: bool
  te_footer :: usage_footer
  te_agent_text :: "agent_id \<Rightarrow> string"
  te_error_text :: "turn_error \<Rightarrow> string"
  te_sha256 :: "string \<Rightarrow> string"
  te_now :: nat
  te_subsec :: string
  te_stamp :: string

section \<open>Preparation\<close>

definition on_kernel :: "('x kernel \<Rightarrow> 'x kernel) \<Rightarrow> ('x, 'u) turn_state \<Rightarrow> ('x, 'u) turn_state" where
  "on_kernel f k = k\<lparr>k_kernel := f (k_kernel k)\<rparr>"

text \<open>An agent without a workspace gets one; when that fails the turn goes on without.\<close>

definition backfill_workspace ::
  "('x, 'j, 'u) turn_env \<Rightarrow> agent_id \<Rightarrow> 'x agent_manifest \<Rightarrow> ('x, 'u) turn_state \<Rightarrow> 'x agent_manifest \<times> ('x, 'u) turn_state" where
  "backfill_workspace env a m k =
     (if workspace m \<noteq> None then (m, k)
      else case te_workspace env m a (k_rest k) of
             (None, u) \<Rightarrow> (m, k\<lparr>k_rest := u\<rparr>)
           | (Some d, u) \<Rightarrow>
               (m\<lparr>workspace := Some d\<rparr>,
                on_kernel (\<lambda>x. x\<lparr>Kernel.registry := fst (update_workspace (te_now env) (Kernel.registry x) a (Some d))\<rparr>) (k\<lparr>k_rest := u\<rparr>)))"

definition canonical_summary :: "('x, 'j, 'u) turn_env \<Rightarrow> agent_id \<Rightarrow> ('x, 'u) turn_state \<Rightarrow> string option" where
  "canonical_summary env a k =
     (case canonical_context (te_packer env) (te_stamp env) a None (k_store k) of Inr (s, _) \<Rightarrow> s | Inl _ \<Rightarrow> None)"

definition with_prompt ::
  "('x, 'j, 'u) turn_env \<Rightarrow> agent_id \<Rightarrow> 'j tool_definition list \<Rightarrow> ('x, 'u) turn_state \<Rightarrow> 'x agent_manifest \<Rightarrow> 'x agent_manifest" where
  "with_prompt env a offered k m =
     m\<lparr>model_conf := (model_conf m)\<lparr>system_prompt := te_prompt env m offered (canonical_summary env a k) k\<rparr>\<rparr>"

definition choose_model ::
  "('x, 'j, 'u) turn_env \<Rightarrow> string \<Rightarrow> 'j tool_definition list \<Rightarrow> 'x agent_manifest \<Rightarrow> 'x agent_manifest" where
  "choose_model env msg offered m =
     (let use = (\<lambda>n. m\<lparr>model_conf := (model_conf m)\<lparr>model := n\<rparr>\<rparr>)
      in if te_stable env then (case te_pinned env m of Some n \<Rightarrow> use n | None \<Rightarrow> m)
         else case te_routing env m of
                None \<Rightarrow> m
              | Some cfg \<Rightarrow>
                  (let c = model_conf m;
                       probe = \<lparr>req_model = model c, req_messages = [user_message msg], req_tools = offered,
                         req_max_tokens = max_tokens c, req_temperature = temperature c,
                         req_system = Some (system_prompt c)\<rparr>
                   in use (snd (select_model (resolve_aliases (te_catalog env) cfg) probe))))"

definition loop_input_for ::
  "('x, 'j, 'u) turn_env \<Rightarrow> agent_id \<Rightarrow> 'x agent_manifest \<Rightarrow> 'j tool_definition list \<Rightarrow> string \<Rightarrow> 'j loop_input" where
  "loop_input_for env a m offered msg =
     \<lparr>in_agent_name = manifest_name m, in_agent_id = te_agent_text env a, in_model = model_conf m,
      in_max_iterations = te_max_iterations env m, in_system = [], in_tools = offered,
      in_window = map_option model_entry.context_window (find_model (te_catalog env) (model (model_conf m))),
      in_user_message = msg @ (case te_links env msg of None \<Rightarrow> [] | Some c \<Rightarrow> c)\<rparr>"

text \<open>The loop saves the session it runs on into the store.\<close>

definition loop_env_for ::
  "('x, 'j, 'u) turn_env \<Rightarrow> ('j, ('x, 'u) turn_state) driver \<Rightarrow> 'j session \<Rightarrow> ('j, ('x, 'u) turn_state) loop_env" where
  "loop_env_for env d sess =
     (te_loop env)\<lparr>le_driver := d,
       le_save := (\<lambda>ms k. (Ok (), k\<lparr>k_store := save_session (te_packer env) (te_stamp env)
                                    (sess\<lparr>sess_messages := ms\<rparr>) (k_store k)\<rparr>))\<rparr>"

section \<open>After the loop\<close>

text \<open>The memory and the mirror; a panic ends the turn.\<close>

definition remember_turn ::
  "('x, 'j, 'u) turn_env \<Rightarrow> agent_id \<Rightarrow> 'x agent_manifest \<Rightarrow> session_id \<Rightarrow> nat \<Rightarrow> 'j message list \<Rightarrow> ('x, 'u) turn_state
   \<Rightarrow> (unit, panic) result \<times> ('x, 'u) turn_state" where
  "remember_turn env a m i before ms k =
     (let (outcome, store1) = (if length ms > before
            then (case append_canonical (te_packer env) (te_stamp env) a (drop before ms) None (k_store k) of (r, s) \<Rightarrow> (Some r, s))
            else (None, k_store k));
          k1 = k\<lparr>k_store := store1\<rparr>
      in case outcome of
           Some (Inl (Panicked p)) \<Rightarrow> (Err p, k1)
         | _ \<Rightarrow>
             (case workspace m of
                None \<Rightarrow> (Ok (), k1)
              | Some d \<Rightarrow>
                  (case write_jsonl_mirror (te_stamp env) ms of
                     (lines, crash) \<Rightarrow>
                       (case crash of None \<Rightarrow> Ok () | Some p \<Rightarrow> Err p, k1\<lparr>k_rest := te_write env d i lines (k_rest k1)\<rparr>))))"

definition turn_cost :: "('x, 'j, 'u) turn_env \<Rightarrow> string \<Rightarrow> token_usage \<Rightarrow> f64" where
  "turn_cost env m u =
     estimate_cost_with_catalog (te_floats env)
       (\<lambda>i. map_option (map_prod (of_decimal (te_floats env)) (of_decimal (te_floats env))) (pricing (te_catalog env) i))
       m (Message.input_tokens u) (Message.output_tokens u)"

definition shown_cost :: "usage_footer \<Rightarrow> f64 \<Rightarrow> f64 option" where
  "shown_cost f c =
     (case f of
        FooterOff \<Rightarrow> None
      | FooterTokens \<Rightarrow> None
      | _ \<Rightarrow> if f64_positive c then Some c else None)"

definition reply_of :: "'j loop_result \<Rightarrow> f64 option \<Rightarrow> turn_reply" where
  "reply_of r c =
     \<lparr>tr_response = lr_response r, tr_usage = lr_usage r, tr_iterations = lr_iterations r, tr_cost = c,
      tr_silent = lr_silent r, tr_directives = lr_directives r\<rparr>"

definition meter_turn ::
  "('x, 'j, 'u) turn_env \<Rightarrow> agent_id \<Rightarrow> string \<Rightarrow> 'j loop_result \<Rightarrow> ('x, 'u) turn_state \<Rightarrow> turn_reply \<times> ('x, 'u) turn_state" where
  "meter_turn env a m r k =
     (let cost = turn_cost env m (lr_usage r);
          u = \<lparr>usage_agent = a, usage_model = m, usage_record.input_tokens = Message.input_tokens (lr_usage r),
               output_tokens = Message.output_tokens (lr_usage r), cost_usd = cost, tool_calls = lr_iterations r - 1\<rparr>;
          l = k_ledger k
      in (reply_of r (shown_cost (te_footer env) cost),
          k\<lparr>k_ledger := l\<lparr>rows := record_usage_event (cal l) (te_now env) (te_subsec env) u (rows l)\<rparr>\<rparr>))"

section \<open>The turn\<close>

definition execute_llm_agent ::
  "('x, 'j, 'u) turn_env \<Rightarrow> 'x agent_entry \<Rightarrow> agent_id \<Rightarrow> string \<Rightarrow> ('x, 'u) turn_state
   \<Rightarrow> (turn_reply, turn_error) result \<times> ('x, 'u) turn_state" where
  "execute_llm_agent env e a msg k =
     (case check_cost_quota (k_ledger k) (te_now env) a (resources (manifest e)) of
        Inl q \<Rightarrow> (Err (OverBudget q), k)
      | Inr _ \<Rightarrow>
          (case session_or_new (te_packer env) (session_id e) a (k_store k) of
             Inl err \<Rightarrow> (Err (StoreError err), k)
           | Inr sess \<Rightarrow>
               (let offered = filter_tools (mode e) (available_tools (te_sources env) (k_kernel k) a);
                    (m1, k1) = backfill_workspace env a (manifest e) k;
                    m2 = choose_model env msg offered (with_prompt env a offered k1 m1)
                in case te_driver env (model_conf m2) of
                     Inl err \<Rightarrow> (Err (NoDriver err), k1)
                   | Inr d \<Rightarrow>
                       (case run_agent_loop (loop_env_for env d sess) (te_context env) (loop_input_for env a m2 offered msg)
                               (sess_messages sess) k1 of
                          (Inl (LoopPanicked p), st) \<Rightarrow> (Err (TurnPanicked p), ls_world st)
                        | (Inl err, st) \<Rightarrow> (Err (LoopFailed err), ls_world st)
                        | (Inr r, st) \<Rightarrow>
                            (case remember_turn env a m2 (session_id e) (length (sess_messages sess)) (ls_session st) (ls_world st) of
                               (Inl p, k2) \<Rightarrow> (Err (TurnPanicked p), k2)
                             | (Inr _, k2) \<Rightarrow>
                                 (case meter_turn env a (model (model_conf m2)) r k2 of (reply, k3) \<Rightarrow> (Ok reply, k3)))))))"

definition module_reply :: "string \<Rightarrow> turn_reply" where
  "module_reply t =
     \<lparr>tr_response = t, tr_usage = \<lparr>token_usage.input_tokens = 0, token_usage.output_tokens = 0\<rparr>, tr_iterations = 1, tr_cost = None,
      tr_silent = False, tr_directives = no_directives\<rparr>"

definition runs_module :: "('x, 'j, 'u) turn_env \<Rightarrow> 'x agent_entry \<Rightarrow> bool" where
  "runs_module env e \<longleftrightarrow>
     starts_with (te_module env (manifest e)) ''wasm:'' \<or> starts_with (te_module env (manifest e)) ''python:''"

definition execute_module ::
  "('x, 'j, 'u) turn_env \<Rightarrow> 'x agent_entry \<Rightarrow> string \<Rightarrow> ('x, 'u) turn_state
   \<Rightarrow> (turn_reply, turn_error) result \<times> ('x, 'u) turn_state" where
  "execute_module env e msg k =
     (case te_run_module env e msg k of
        (Inl err, k1) \<Rightarrow> (Err (ModuleFailed err), k1)
      | (Inr t, k1) \<Rightarrow> (Ok (module_reply t), k1))"

definition audit ::
  "('x, 'j, 'u) turn_env \<Rightarrow> agent_id \<Rightarrow> string \<Rightarrow> string \<Rightarrow> ('x, 'u) turn_state \<Rightarrow> ('x, 'u) turn_state" where
  "audit env a det res k =
     k\<lparr>k_audit := snd (record_event (te_sha256 env) (te_stamp env) (te_agent_text env a) AgentMessage det res (k_audit k))\<rparr>"

definition use_tokens :: "('x, 'j, 'u) turn_env \<Rightarrow> agent_id \<Rightarrow> token_usage \<Rightarrow> ('x, 'u) turn_state \<Rightarrow> ('x, 'u) turn_state" where
  "use_tokens env a u =
     on_kernel (\<lambda>x. x\<lparr>scheduler := Scheduler.record_usage (te_now env) (scheduler x) a u,
                     Kernel.registry := fst (set_state (te_now env) (Kernel.registry x) a Running)\<rparr>)"

text \<open>A panic unwinds: nothing of what follows the agent's run is done.\<close>

definition conclude_turn ::
  "('x, 'j, 'u) turn_env \<Rightarrow> agent_id \<Rightarrow> (turn_reply, turn_error) result \<times> ('x, 'u) turn_state
   \<Rightarrow> (turn_reply, turn_error) result \<times> ('x, 'u) turn_state" where
  "conclude_turn env a outcome =
     (case outcome of
        (Inr r, k) \<Rightarrow>
          (Ok r, audit env a (''tokens_in='' @ show_nat (Message.input_tokens (tr_usage r))
                   @ '', tokens_out='' @ show_nat (Message.output_tokens (tr_usage r))) ''ok'' (use_tokens env a (tr_usage r) k))
      | (Inl (TurnPanicked p), k) \<Rightarrow> (Err (TurnPanicked p), k)
      | (Inl err, k) \<Rightarrow>
          (let k1 = audit env a ''agent loop failed'' (''error: '' @ te_error_text env err) k
           in (Err err, k1\<lparr>k_supervisor := record_panic (k_supervisor k1)\<rparr>)))"

definition check_tokens ::
  "('x, 'j, 'u) turn_env \<Rightarrow> agent_id \<Rightarrow> ('x, 'u) turn_state \<Rightarrow> (unit, Scheduler.quota_error) result \<times> ('x, 'u) turn_state" where
  "check_tokens env a k =
     (case Scheduler.check_quota (te_now env) (scheduler (k_kernel k)) a of
        (s, r) \<Rightarrow> (r, on_kernel (\<lambda>x. x\<lparr>scheduler := s\<rparr>) k))"

definition send_message ::
  "('x, 'j, 'u) turn_env \<Rightarrow> agent_id \<Rightarrow> string \<Rightarrow> ('x, 'u) turn_state
   \<Rightarrow> (turn_reply, turn_error) result \<times> ('x, 'u) turn_state" where
  "send_message env a msg k =
     (case check_tokens env a k of
        (Inl q, k1) \<Rightarrow> (Err (TokenQuota q), k1)
      | (Inr _, k1) \<Rightarrow>
          (case get_agent (Kernel.registry (k_kernel k1)) a of
             None \<Rightarrow> (Err (NoSuchAgent a), k1)
           | Some e \<Rightarrow>
               conclude_turn env a
                 (if runs_module env e then execute_module env e msg k1 else execute_llm_agent env e a msg k1)))"

section \<open>The streamed turn\<close>

text \<open>
  The end of the task that runs the agent. An error before it is started, of the store or the driver, is
  returned as it is; a panic unwinds.
\<close>

definition streamed_outcome ::
  "('x, 'j, 'u) turn_env \<Rightarrow> agent_id \<Rightarrow> (turn_reply, turn_error) result \<times> ('x, 'u) turn_state
   \<Rightarrow> (turn_reply, turn_error) result \<times> ('x, 'u) turn_state" where
  "streamed_outcome env a outcome =
     (case outcome of
        (Inr r, k) \<Rightarrow> (Ok r, use_tokens env a (tr_usage r) k)
      | (Inl err, k) \<Rightarrow>
          (Err err,
           case err of
             LoopFailed _ \<Rightarrow> k\<lparr>k_supervisor := record_panic (k_supervisor k)\<rparr>
           | ModuleFailed _ \<Rightarrow> k\<lparr>k_supervisor := record_panic (k_supervisor k)\<rparr>
           | _ \<Rightarrow> k))"

definition compaction_for ::
  "('x, 'j, 'u) turn_env \<Rightarrow> ('j, ('x, 'u) turn_state) driver \<Rightarrow> agent_id \<Rightarrow> ('x, 'u) turn_state
   \<Rightarrow> ('x, 'j, ('x, 'u) turn_state) compaction_env" where
  "compaction_for env d a k =
     \<lparr>ce_packer = te_packer env, ce_json = json_text (te_context env),
      ce_entry = get_agent (Kernel.registry (k_kernel k)) a, ce_driver = Ok (complete d), ce_now = te_stamp env\<rparr>"

text \<open>The compaction on the kernel's state: its store is the part of the state that it changes itself.\<close>

definition compacted_session ::
  "('x, 'j, 'u) turn_env \<Rightarrow> ('j, ('x, 'u) turn_state) driver \<Rightarrow> agent_id \<Rightarrow> 'x agent_entry \<Rightarrow> 'j session \<Rightarrow> ('x, 'u) turn_state
   \<Rightarrow> 'j session \<times> ('x, 'u) turn_state" where
  "compacted_session env d a e sess k =
     (case auto_compact (compaction_for env d a k) a e sess (k_store k) k of
        (sess1, s, k1) \<Rightarrow> (sess1, k1\<lparr>k_store := s\<rparr>))"

definition stream_llm_agent ::
  "('x, 'j, 'u) turn_env \<Rightarrow> 'x agent_entry \<Rightarrow> agent_id \<Rightarrow> string \<Rightarrow> ('x, 'u) turn_state
   \<Rightarrow> (turn_reply, turn_error) result \<times> ('x, 'u) turn_state" where
  "stream_llm_agent env e a msg k =
     (case session_or_new (te_packer env) (session_id e) a (k_store k) of
        Inl err \<Rightarrow> (Err (StoreError err), k)
      | Inr sess \<Rightarrow>
          (let offered = filter_tools (mode e) (available_tools (te_sources env) (k_kernel k) a)
           in case te_driver env (model_conf (manifest e)) of
                Inl err \<Rightarrow> (Err (NoDriver err), k)
              | Inr d \<Rightarrow>
                  (let (m1, k1) = backfill_workspace env a (manifest e) k;
                       m2 = with_prompt env a offered k1 m1;
                       (sess1, k2) = compacted_session env d a e sess k1
                   in case run_agent_loop_streaming (loop_env_for env d sess1) (te_context env)
                             (loop_input_for env a m2 offered msg) (sess_messages sess1) k2 of
                        (Inl (LoopPanicked p), st) \<Rightarrow> (Err (TurnPanicked p), ls_world st)
                      | (Inl err, st) \<Rightarrow> (Err (LoopFailed err), ls_world st)
                      | (Inr r, st) \<Rightarrow>
                          (case remember_turn env a m2 (session_id e) (length (sess_messages sess1)) (ls_session st) (ls_world st) of
                             (Inl p, k3) \<Rightarrow> (Err (TurnPanicked p), k3)
                           | (Inr _, k3) \<Rightarrow> (Ok (reply_of r None), k3)))))"

definition send_message_streaming ::
  "('x, 'j, 'u) turn_env \<Rightarrow> agent_id \<Rightarrow> string \<Rightarrow> ('x, 'u) turn_state
   \<Rightarrow> (turn_reply, turn_error) result \<times> ('x, 'u) turn_state" where
  "send_message_streaming env a msg k =
     (case check_tokens env a k of
        (Inl q, k1) \<Rightarrow> (Err (TokenQuota q), k1)
      | (Inr _, k1) \<Rightarrow>
          (case get_agent (Kernel.registry (k_kernel k1)) a of
             None \<Rightarrow> (Err (NoSuchAgent a), k1)
           | Some e \<Rightarrow>
               streamed_outcome env a
                 (if runs_module env e then execute_module env e msg k1 else stream_llm_agent env e a msg k1)))"

section \<open>Limits and accounts\<close>

lemma frames [simp]:
  "k_ledger (on_kernel f k) = k_ledger k" "k_audit (on_kernel f k) = k_audit k" "k_store (on_kernel f k) = k_store k"
  "k_rest (on_kernel f k) = k_rest k" "k_supervisor (on_kernel f k) = k_supervisor k"
  "k_kernel (on_kernel f k) = f (k_kernel k)"
  "k_ledger (use_tokens env a u k) = k_ledger k" "k_audit (use_tokens env a u k) = k_audit k"
  "k_ledger (audit env a d res k) = k_ledger k" "k_kernel (audit env a d res k) = k_kernel k"
  "k_store (audit env a d res k) = k_store k" "k_rest (audit env a d res k) = k_rest k"
  by (simp_all add: on_kernel_def use_tokens_def audit_def)

lemma check_tokens_frame:
  "check_tokens env a k = (r, k1) \<Longrightarrow>
     Kernel.registry (k_kernel k1) = Kernel.registry (k_kernel k) \<and> k_ledger k1 = k_ledger k \<and> k_audit k1 = k_audit k
     \<and> k_store k1 = k_store k \<and> k_rest k1 = k_rest k \<and> k_supervisor k1 = k_supervisor k"
  by (auto simp: check_tokens_def split: prod.splits)

lemma audit_entries:
  "\<exists>e. audit_log.entries (k_audit (audit env a d res k)) = audit_log.entries (k_audit k) @ [e] \<and> entry_agent e = te_agent_text env a
     \<and> action e = AgentMessage \<and> detail e = d \<and> entry_outcome e = res"
  by (simp add: audit_def record_event_def Let_def)


lemma execute_llm_agent_ok:
  assumes "execute_llm_agent env e a msg k = (Ok r, k')"
  shows "\<exists>k2 u. k' = k2\<lparr>k_ledger := (k_ledger k2)\<lparr>rows := rows (k_ledger k2) @ [u]\<rparr>\<rparr> \<and> usage_agent (usage_row.usage u) = a
    \<and> usage_record.input_tokens (usage_row.usage u) = Message.input_tokens (tr_usage r)
    \<and> usage_record.output_tokens (usage_row.usage u) = Message.output_tokens (tr_usage r)"
proof -
  from assms obtain m lr k2 where mt: "meter_turn env a m lr k2 = (r, k')"
    by (auto simp: execute_llm_agent_def Let_def split: sum.splits prod.splits loop_error.splits)
  show ?thesis
    by (rule exI [of _ k2], rule exI)
      (use mt in \<open>auto simp: meter_turn_def reply_of_def record_usage_event_def Let_def\<close>)
qed


text \<open>
  A streamed turn is outside all this: it is never refused for money, and after the loop it adds nothing to
  the ledger or the audit trail.
\<close>

theorem streamed_turn_unmetered:
  assumes "stream_llm_agent env e a msg k = (r, k')"
  shows "r \<noteq> Err (OverBudget q)
    \<and> (\<forall>x. r = Ok x \<longrightarrow> (\<exists>lenv inp ms k1 lr st. run_agent_loop_streaming lenv (te_context env) inp ms k1 = (Ok lr, st)
          \<and> k_ledger k' = k_ledger (ls_world st) \<and> k_audit k' = k_audit (ls_world st)))"
proof -
  have m: "k_ledger k2 = k_ledger k1 \<and> k_audit k2 = k_audit k1" if "remember_turn env a m i n ms k1 = (y, k2)" for m i n ms k1 y k2
    using that by (auto simp: remember_turn_def Let_def split: prod.splits option.splits sum.splits store_error.splits if_splits)
  show ?thesis
  proof (intro conjI allI impI)
    show "r \<noteq> Err (OverBudget q)"
      using assms by (auto simp: stream_llm_agent_def Let_def split: sum.splits prod.splits loop_error.splits)
  next
    fix x
    assume "r = Ok x"
    with assms obtain lenv inp ms k1 lr st m i n where
      "run_agent_loop_streaming lenv (te_context env) inp ms k1 = (Ok lr, st)"
      "remember_turn env a m i n (ls_session st) (ls_world st) = (Ok (), k')"
      by (auto simp: stream_llm_agent_def Let_def split: sum.splits prod.splits loop_error.splits)
    with m show "\<exists>lenv inp ms k1 lr st. run_agent_loop_streaming lenv (te_context env) inp ms k1 = (Ok lr, st)
          \<and> k_ledger k' = k_ledger (ls_world st) \<and> k_audit k' = k_audit (ls_world st)" by blast
  qed
qed

text \<open>
  With a memory that is stuck, a turn that would fill it panics after the model has answered: the error
  reaches no audit trail and the usage no ledger.
\<close>

theorem stuck_turn_unrecorded:
  assumes "load_canonical (te_packer env) (te_stamp env) a (k_store k) = Ok c" "compaction_cursor c = 0"
    and "\<exists>m \<in> set (take 51 (messages c)). uncuttable m"
    and "before < length ms" "length (messages c @ drop before ms) > 100"
  shows "remember_turn env a m i before ms k = (Err SliceNotOnBoundary, k)
    \<and> conclude_turn env a (Err (TurnPanicked SliceNotOnBoundary), k) = (Err (TurnPanicked SliceNotOnBoundary), k)"
  using append_stuck [OF assms(1-3,5)] assms(4) by (simp add: remember_turn_def conclude_turn_def)

section \<open>An example\<close>

text \<open>An agent whose hourly limit is one dollar and whose ledger says that five were spent.\<close>

definition demo_turn_env :: "string \<Rightarrow> (unit, unit, unit) turn_env" where
  "demo_turn_env mdl =
     \<lparr>te_packer = \<lparr>to_vec_named = (\<lambda>_. []), to_vec = (\<lambda>_. []), from_slice = (\<lambda>_. None)\<rparr>,
      te_loop =
        \<lparr>le_env = \<lparr>environment.clock = (\<lambda>_. 0), sleep_ms = (\<lambda>_ w. w)\<rparr>,
         le_driver = \<lparr>complete = (\<lambda>_ w. (Err (ParseError []), w)), stream = (\<lambda>_ w. (Err (ParseError []), w))\<rparr>,
         le_guard = \<lparr>to_json = (\<lambda>_. []), command_field = (\<lambda>_. None), sha256_hex = id\<rparr>,
         le_parse = (\<lambda>_. None), le_uuid = (\<lambda>_ n. show_nat n),
         le_execute = (\<lambda>_ c w. Ok (\<lparr>result_use_id = call_id c, result_content = [], result_is_error = False\<rparr>, w)),
         le_timeout = (\<lambda>_ _. None), le_hooks = new_hooks, le_phase = (\<lambda>_ w. w), le_emit = (\<lambda>_ w. w),
         le_save = (\<lambda>_ w. (Ok (), w)), le_embedder = None, le_recall = (\<lambda>_ _ _ w. (Ok [], w)),
         le_remember = (\<lambda>_ _ w. w), le_streaming = False\<rparr>,
      te_context =
        \<lparr>json_text = (\<lambda>_. []), str_field = (\<lambda>_ _. None), warnings_on = True, allowed_tools = None,
         requires_approval = None, ask_approval = (\<lambda>_ _ _ w. (Ok False, w)), caller = None, shell_policy = None,
         has_browser = False, connected_mcp = None, skill_tools = None, run_tool = (\<lambda>_ _ w. (Ok [], w)),
         run_mcp = (\<lambda>_ _ _ w. (Ok [], w)), run_skill = (\<lambda>_ _ w. (Ok [], w))\<rparr>,
      te_sources = \<lparr>tool_sources.builtin_tools = [], skill_tools = (\<lambda>_. []), mcp_tools = []\<rparr>,
      te_driver = (\<lambda>_. Err ''no driver''), te_prompt = (\<lambda>_ _ _ _. []), te_module = (\<lambda>_. mdl), te_pinned = (\<lambda>_. None),
      te_routing = (\<lambda>_. None), te_max_iterations = (\<lambda>_. None), te_run_module = (\<lambda>_ msg k. (Ok msg, k)),
      te_workspace = (\<lambda>_ _ u. (None, u)), te_write = (\<lambda>_ _ _ u. u), te_links = (\<lambda>_. None),
      te_catalog = \<lparr>models = [], aliases = [], providers = []\<rparr>,
      te_floats = \<lparr>of_count = (\<lambda>_. Fin 0), of_decimal = Fin, fdiv = (\<lambda>a b. a), fmul = (\<lambda>a b. a), fadd = (\<lambda>a b. a)\<rparr>,
      te_stable = False, te_footer = FooterOff, te_agent_text = show_nat, te_error_text = (\<lambda>_. ''refused''),
      te_sha256 = id, te_now = 0, te_subsec = [], te_stamp = ''t''\<rparr>"

definition demo_entry :: "unit agent_entry" where
  "demo_entry = (sample_entry 1 ''ann'')\<lparr>manifest := (manifest (sample_entry 1 ''ann''))
     \<lparr>resources := default_quota\<lparr>max_cost_per_hour_usd := Fin 1\<rparr>\<rparr>\<rparr>"

definition demo_turn_state :: "(unit, unit) turn_state" where
  "demo_turn_state =
     \<lparr>k_kernel = \<lparr>kernel.registry = fst (register new_registry demo_entry), caps = new_manager, scheduler = new_scheduler,
        engine = new_engine, stored = Map.empty\<rparr>,
      k_ledger = \<lparr>cal = demo_calendar, sum_of = (\<lambda>_. Fin 5), rows = []\<rparr>,
      k_audit = new_log, k_supervisor = new_supervisor, k_store = empty_store, k_rest = ()\<rparr>"

lemma demo_found: "get_agent (Kernel.registry (k_kernel demo_turn_state)) 1 = Some demo_entry"
  by (simp add: demo_turn_state_def register_def get_agent_def new_registry_def demo_entry_def sample_entry_def)

lemma demo_tokens: "check_tokens (demo_turn_env m) 1 demo_turn_state = (Ok (), demo_turn_state)"
  by (simp add: check_tokens_def Scheduler.check_quota_def new_scheduler_def demo_turn_state_def on_kernel_def)



end
