(* ===== verification/Hands.thy ===== *)
theory Hands
  imports Kernel Supervision Exec_Policy
begin

text \<open>
  Hands, the curated packages of \<open>clawreform-hands\<close>: the definitions and their settings
  (\<open>src/lib.rs\<close>), the registry of definitions and running instances (\<open>src/registry.rs\<close>), and the
  activation of a hand by the kernel, which spawns its agent (\<open>clawreform-kernel/src/kernel.rs\<close>).

  A hash map is the list of its entries in the order an iteration visits them. The user's
  configuration has the JSON values as a type \<open>'j\<close>, read by \<open>as_str\<close>. The environment of the process
  is a map, and \<open>is_file\<close> tells which paths are files.
\<close>

section \<open>Definitions of hands\<close>

datatype hand_error =
    HandNotFound string
  | AlreadyActive string
  | InstanceNotFound nat
  | ActivationFailed string
  | TomlParse string
  | HandIo string

datatype hand_category = Content | Security | Productivity | Development | Communication | Data

fun show_category :: "hand_category \<Rightarrow> string" where
  "show_category Content = ''Content''"
| "show_category Security = ''Security''"
| "show_category Productivity = ''Productivity''"
| "show_category Development = ''Development''"
| "show_category Communication = ''Communication''"
| "show_category Data = ''Data''"

datatype requirement_type = BinaryOnPath | EnvVar | ApiKey

record hand_install_info =
  macos :: "string option"
  windows :: "string option"
  linux_apt :: "string option"
  linux_dnf :: "string option"
  linux_pacman :: "string option"
  pip :: "string option"
  signup_url :: "string option"
  docs_url :: "string option"
  env_example :: "string option"
  manual_url :: "string option"
  estimated_time :: "string option"
  install_steps :: "string list"

record hand_requirement =
  req_key :: string
  req_label :: string
  requirement_type :: requirement_type
  check_value :: string
  req_description :: "string option"
  install :: "hand_install_info option"

record hand_metric =
  metric_label :: string
  memory_key :: string
  metric_format :: string

datatype hand_setting_type = SelectOne | FreeText | Toggle

record hand_setting_option =
  opt_value :: string
  opt_label :: string
  provider_env :: "string option"
  opt_binary :: "string option"

record hand_setting =
  setting_key :: string
  setting_label :: string
  setting_description :: string
  setting_type :: hand_setting_type
  setting_default :: string
  setting_options :: "hand_setting_option list"

record hand_agent_config =
  ha_name :: string
  ha_description :: string
  ha_module :: string
  ha_provider :: string
  ha_model :: string
  ha_api_key_env :: "string option"
  ha_base_url :: "string option"
  ha_max_tokens :: nat
  ha_temperature :: f64
  ha_system_prompt :: string
  ha_max_iterations :: "nat option"

record hand_definition =
  hd_id :: string
  hd_name :: string
  hd_description :: string
  hd_category :: hand_category
  hd_icon :: string
  hd_tools :: "string list"
  hd_skills :: "string list"
  hd_mcp_servers :: "string list"
  hd_requires :: "hand_requirement list"
  hd_settings :: "hand_setting list"
  hd_agent :: hand_agent_config
  hd_dashboard :: "hand_metric list"
  hd_skill_content :: "string option"

text \<open>\<open>from_toml\<close> is the parser of a \<open>HAND.toml\<close>.\<close>

definition parse_bundled ::
  "(string \<Rightarrow> (hand_definition, string) result) \<Rightarrow> string \<Rightarrow> string
   \<Rightarrow> (hand_definition, hand_error) result" where
  "parse_bundled from_toml toml skill =
     (case from_toml toml of
        Inl e \<Rightarrow> Err (TomlParse e)
      | Inr d \<Rightarrow> Ok (if skill = [] then d else d\<lparr>hd_skill_content := Some skill\<rparr>))"

section \<open>Settings\<close>

record resolved_settings =
  prompt_block :: string
  env_vars :: "string list"

definition chosen_value :: "('j \<Rightarrow> string option) \<Rightarrow> (string \<rightharpoonup> 'j) \<Rightarrow> hand_setting \<Rightarrow> string" where
  "chosen_value as_str config s =
     (case Option.bind (config (setting_key s)) as_str of Some v \<Rightarrow> v | None \<Rightarrow> setting_default s)"

definition matched_option :: "hand_setting \<Rightarrow> string \<Rightarrow> hand_setting_option option" where
  "matched_option s v = find (\<lambda>op. opt_value op = v) (setting_options s)"

definition setting_line :: "hand_setting \<Rightarrow> string \<Rightarrow> string list" where
  "setting_line s v =
     (case setting_type s of
        SelectOne \<Rightarrow>
          [''- '' @ setting_label s @ '': ''
             @ (case matched_option s v of Some op \<Rightarrow> opt_label op | None \<Rightarrow> v) @ '' ('' @ v @ '')'']
      | Toggle \<Rightarrow>
          [''- '' @ setting_label s @ '': ''
             @ (if v = ''true'' \<or> v = ''1'' then ''Enabled'' else ''Disabled'')]
      | FreeText \<Rightarrow> if v \<noteq> [] then [''- '' @ setting_label s @ '': '' @ v] else [])"

definition setting_env :: "hand_setting \<Rightarrow> string \<Rightarrow> string list" where
  "setting_env s v =
     (case setting_type s of
        SelectOne \<Rightarrow>
          (case Option.bind (matched_option s v) provider_env of Some e \<Rightarrow> [e] | None \<Rightarrow> [])
      | _ \<Rightarrow> [])"

definition resolve_settings ::
  "('j \<Rightarrow> string option) \<Rightarrow> hand_setting list \<Rightarrow> (string \<rightharpoonup> 'j) \<Rightarrow> resolved_settings" where
  "resolve_settings as_str settings config =
     (let lines = concat (map (\<lambda>s. setting_line s (chosen_value as_str config s)) settings)
      in \<lparr>prompt_block =
            (if lines = [] then []
             else ''## User Configuration'' @ [newline, newline] @ str_join [newline] lines),
          env_vars = concat (map (\<lambda>s. setting_env s (chosen_value as_str config s)) settings)\<rparr>)"

section \<open>Requirements\<close>

text \<open>The Unix build: the separator of \<open>PATH\<close> is a colon, and no extension is tried.\<close>

definition join_dir :: "string \<Rightarrow> string \<Rightarrow> string" where
  "join_dir dir n =
     (if starts_with n ''/'' \<or> dir = [] then n
      else if ends_with dir ''/'' then dir @ n else dir @ ''/'' @ n)"

definition which_binary :: "(string \<rightharpoonup> string) \<Rightarrow> (string \<Rightarrow> bool) \<Rightarrow> string \<Rightarrow> bool" where
  "which_binary vars is_file n =
     list_ex (\<lambda>dir. is_file (join_dir dir n))
       (split_on (CHR '':'') (case vars ''PATH'' of Some p \<Rightarrow> p | None \<Rightarrow> []))"

definition var_set :: "(string \<rightharpoonup> string) \<Rightarrow> string \<Rightarrow> bool" where
  "var_set vars n = (case vars n of Some v \<Rightarrow> v \<noteq> [] | None \<Rightarrow> False)"

definition check_requirement ::
  "(string \<rightharpoonup> string) \<Rightarrow> (string \<Rightarrow> bool) \<Rightarrow> hand_requirement \<Rightarrow> bool" where
  "check_requirement vars is_file req =
     (case requirement_type req of
        BinaryOnPath \<Rightarrow> which_binary vars is_file (check_value req)
      | _ \<Rightarrow> var_set vars (check_value req))"

definition check_option_available ::
  "(string \<rightharpoonup> string) \<Rightarrow> (string \<Rightarrow> bool) \<Rightarrow> string option \<Rightarrow> string option \<Rightarrow> bool" where
  "check_option_available vars is_file env binary =
     (let found = (case binary of Some b \<Rightarrow> which_binary vars is_file b | None \<Rightarrow> True)
      in case env of
           None \<Rightarrow> found
         | Some e \<Rightarrow>
             if var_set vars e then found
             else if e = ''GEMINI_API_KEY'' \<and> var_set vars ''GOOGLE_API_KEY'' then found
             else False)"

section \<open>The registry\<close>

datatype hand_status = ActiveHand | PausedHand | FailedHand string | InactiveHand

fun show_status :: "hand_status \<Rightarrow> string" where
  "show_status ActiveHand = ''Active''"
| "show_status PausedHand = ''Paused''"
| "show_status (FailedHand msg) = ''Error: '' @ msg"
| "show_status InactiveHand = ''Inactive''"

record 'j hand_instance =
  instance_id :: nat
  hand_id :: string
  hand_status :: hand_status
  hand_agent :: "agent_id option"
  agent_name :: string
  hand_config :: "string \<rightharpoonup> 'j"
  activated_at :: timestamp
  updated_at :: timestamp

record 'j hand_registry =
  hand_definitions :: "(string \<times> hand_definition) list"
  instances :: "(nat \<times> 'j hand_instance) list"

definition new_hands :: "'j hand_registry" where
  "new_hands = \<lparr>hand_definitions = [], instances = []\<rparr>"

fun load_hands ::
  "(string \<Rightarrow> (hand_definition, string) result) \<Rightarrow> (string \<times> string \<times> string) list
   \<Rightarrow> 'j hand_registry \<Rightarrow> 'j hand_registry \<times> nat" where
  "load_hands from_toml [] reg = (reg, 0)"
| "load_hands from_toml ((_, toml, skill) # rest) reg =
     (case parse_bundled from_toml toml skill of
        Inr d \<Rightarrow>
          (let (r, n) = load_hands from_toml rest
                 (reg\<lparr>hand_definitions := AList.update (hd_id d) d (hand_definitions reg)\<rparr>)
           in (r, Suc n))
      | Inl _ \<Rightarrow> load_hands from_toml rest reg)"

definition get_definition :: "'j hand_registry \<Rightarrow> string \<Rightarrow> hand_definition option" where
  "get_definition reg h = map_of (hand_definitions reg) h"

text \<open>\<open>sort_by_key\<close> is a stable sort by the code points of the names.\<close>

fun insert_named :: "hand_definition \<Rightarrow> hand_definition list \<Rightarrow> hand_definition list" where
  "insert_named d [] = [d]"
| "insert_named d (x # xs) = (if text_less (hd_name x) (hd_name d) then x # insert_named d xs else d # x # xs)"

definition list_definitions :: "'j hand_registry \<Rightarrow> hand_definition list" where
  "list_definitions reg = foldr insert_named (map snd (hand_definitions reg)) []"

definition new_instance ::
  "nat \<Rightarrow> timestamp \<Rightarrow> string \<Rightarrow> string \<Rightarrow> (string \<rightharpoonup> 'j) \<Rightarrow> 'j hand_instance" where
  "new_instance iid t h n config = \<lparr>instance_id = iid, hand_id = h, hand_status = ActiveHand,
     hand_agent = None, agent_name = n, hand_config = config, activated_at = t, updated_at = t\<rparr>"

definition active_of :: "string \<Rightarrow> nat \<times> 'j hand_instance \<Rightarrow> bool" where
  "active_of h = (\<lambda>(_, i). hand_id i = h \<and> hand_status i = ActiveHand)"

definition activate ::
  "nat \<Rightarrow> timestamp \<Rightarrow> 'j hand_registry \<Rightarrow> string \<Rightarrow> (string \<rightharpoonup> 'j)
   \<Rightarrow> 'j hand_registry \<times> ('j hand_instance, hand_error) result" where
  "activate iid t reg h config =
     (case get_definition reg h of
        None \<Rightarrow> (reg, Err (HandNotFound h))
      | Some d \<Rightarrow>
          if list_ex (active_of h) (instances reg) then (reg, Err (AlreadyActive h))
          else let i = new_instance iid t h (ha_name (hd_agent d)) config
               in (reg\<lparr>instances := AList.update iid i (instances reg)\<rparr>, Ok i))"

definition deactivate ::
  "'j hand_registry \<Rightarrow> nat \<Rightarrow> 'j hand_registry \<times> ('j hand_instance, hand_error) result" where
  "deactivate reg iid =
     (case map_of (instances reg) iid of
        None \<Rightarrow> (reg, Err (InstanceNotFound iid))
      | Some i \<Rightarrow> (reg\<lparr>instances := AList.delete iid (instances reg)\<rparr>, Ok i))"

text \<open>The operations that change one instance and stamp it.\<close>

definition change_instance ::
  "timestamp \<Rightarrow> ('j hand_instance \<Rightarrow> 'j hand_instance) \<Rightarrow> 'j hand_registry \<Rightarrow> nat
   \<Rightarrow> 'j hand_registry \<times> (unit, hand_error) result" where
  "change_instance t f reg iid =
     (case map_of (instances reg) iid of
        None \<Rightarrow> (reg, Err (InstanceNotFound iid))
      | Some i \<Rightarrow> (reg\<lparr>instances := AList.update iid ((f i)\<lparr>updated_at := t\<rparr>) (instances reg)\<rparr>, Ok ()))"

definition pause :: "timestamp \<Rightarrow> 'j hand_registry \<Rightarrow> nat \<Rightarrow> 'j hand_registry \<times> (unit, hand_error) result" where
  "pause t = change_instance t (hand_status_update (\<lambda>_. PausedHand))"

definition resume :: "timestamp \<Rightarrow> 'j hand_registry \<Rightarrow> nat \<Rightarrow> 'j hand_registry \<times> (unit, hand_error) result" where
  "resume t = change_instance t (hand_status_update (\<lambda>_. ActiveHand))"

definition set_error ::
  "timestamp \<Rightarrow> string \<Rightarrow> 'j hand_registry \<Rightarrow> nat \<Rightarrow> 'j hand_registry \<times> (unit, hand_error) result" where
  "set_error t msg = change_instance t (hand_status_update (\<lambda>_. FailedHand msg))"

definition set_agent ::
  "timestamp \<Rightarrow> agent_id \<Rightarrow> 'j hand_registry \<Rightarrow> nat \<Rightarrow> 'j hand_registry \<times> (unit, hand_error) result" where
  "set_agent t aid = change_instance t (hand_agent_update (\<lambda>_. Some aid))"

definition find_by_agent :: "'j hand_registry \<Rightarrow> agent_id \<Rightarrow> 'j hand_instance option" where
  "find_by_agent reg aid = find (\<lambda>i. hand_agent i = Some aid) (map snd (instances reg))"

definition list_instances :: "'j hand_registry \<Rightarrow> 'j hand_instance list" where
  "list_instances reg = map snd (instances reg)"

definition get_instance :: "'j hand_registry \<Rightarrow> nat \<Rightarrow> 'j hand_instance option" where
  "get_instance reg iid = map_of (instances reg) iid"

definition check_requirements ::
  "(string \<rightharpoonup> string) \<Rightarrow> (string \<Rightarrow> bool) \<Rightarrow> 'j hand_registry \<Rightarrow> string
   \<Rightarrow> ((hand_requirement \<times> bool) list, hand_error) result" where
  "check_requirements vars is_file reg h =
     (case get_definition reg h of
        None \<Rightarrow> Err (HandNotFound h)
      | Some d \<Rightarrow> Ok (map (\<lambda>req. (req, check_requirement vars is_file req)) (hd_requires d)))"

text \<open>The status of a setting is the setting with its options marked available or not.\<close>

definition check_settings_availability ::
  "(string \<rightharpoonup> string) \<Rightarrow> (string \<Rightarrow> bool) \<Rightarrow> 'j hand_registry \<Rightarrow> string
   \<Rightarrow> ((hand_setting \<times> (hand_setting_option \<times> bool) list) list, hand_error) result" where
  "check_settings_availability vars is_file reg h =
     (case get_definition reg h of
        None \<Rightarrow> Err (HandNotFound h)
      | Some d \<Rightarrow>
          Ok (map (\<lambda>s. (s, map (\<lambda>op. (op, check_option_available vars is_file (provider_env op) (opt_binary op)))
                             (setting_options s))) (hd_settings d)))"

section \<open>The kernel and its hands\<close>

text \<open>The part of a manifest that only the manifests of hands use here.\<close>

record hand_rest =
  own_autonomous :: "autonomous_config option"
  own_exec_policy :: "exec_policy option"
  hand_allowed_env :: "string list option"

definition bare_capabilities :: manifest_capabilities where
  "bare_capabilities = \<lparr>network = [], tools = [], memory_read = [], memory_write = [],
     agent_spawn = False, agent_message = [], shell = [], ofp_discover = False, ofp_connect = []\<rparr>"

definition hand_exec_policy :: exec_policy where
  "hand_exec_policy =
     default_exec_policy\<lparr>exec_mode := FullExec, exec_timeout := 300, no_output_timeout := 120\<rparr>"

definition rule :: string where
  "rule = [newline, newline] @ ''---'' @ [newline, newline]"

definition hand_system_prompt :: "hand_definition \<Rightarrow> resolved_settings \<Rightarrow> string" where
  "hand_system_prompt d res =
     (let p = ha_system_prompt (hd_agent d);
          p1 = (if prompt_block res \<noteq> [] then p @ rule @ prompt_block res else p)
      in case hd_skill_content d of
           Some sk \<Rightarrow> p1 @ rule @ ''## Reference Knowledge'' @ [newline, newline] @ sk
         | None \<Rightarrow> p1)"

text \<open>
  The manifest of a hand's agent; \<open>show_id\<close> prints the identifier of the instance, and the two names
  are the provider and the model of the configuration.
\<close>

definition hand_manifest ::
  "(nat \<Rightarrow> string) \<Rightarrow> string \<Rightarrow> string \<Rightarrow> hand_definition \<Rightarrow> string \<Rightarrow> nat \<Rightarrow> resolved_settings
   \<Rightarrow> hand_rest agent_manifest" where
  "hand_manifest show_id conf_provider conf_model d h iid res =
     (let a = hd_agent d in
      \<lparr>manifest_name = ha_name a, description = ha_description a, schedule = Reactive,
       model_conf =
         \<lparr>provider = (if ha_provider a = ''default'' then conf_provider else ha_provider a),
          model = (if ha_model a = ''default'' then conf_model else ha_model a),
          max_tokens = ha_max_tokens a, temperature = ha_temperature a,
          system_prompt = hand_system_prompt d res,
          api_key_env = ha_api_key_env a, base_url = ha_base_url a\<rparr>,
       resources = default_quota,
       capabilities = bare_capabilities\<lparr>tools := hd_tools d\<rparr>,
       profile = None, skills = hd_skills d, mcp_servers = hd_mcp_servers d,
       manifest_tags = [''hand:'' @ h, ''hand_instance:'' @ show_id iid],
       workspace = None, generate_identity_files = True,
       manifest_rest =
         \<lparr>own_autonomous =
            map_option (\<lambda>n. default_autonomous\<lparr>auto_max_iterations := n\<rparr>) (ha_max_iterations a),
          own_exec_policy = (if ''shell_exec'' \<in> set (hd_tools d) then Some hand_exec_policy else None),
          hand_allowed_env = (if env_vars res \<noteq> [] then Some (env_vars res) else None)\<rparr>\<rparr>)"

datatype hand_failure = HandUnknown string | HandInternal hand_error | SpawnFailed kernel_error

record 'j hand_env =
  he_spawn :: "hand_rest spawn_env"
  he_instance :: nat
  he_now :: timestamp
  he_as_str :: "'j \<Rightarrow> string option"
  he_show_id :: "nat \<Rightarrow> string"
  he_provider :: string
  he_model :: string
  he_policy :: exec_policy

text \<open>The kernel's own policy is for the manifests that bring none (\<open>spawn_agent_with_parent\<close>).\<close>

definition inherit_policy :: "exec_policy \<Rightarrow> hand_rest \<Rightarrow> hand_rest" where
  "inherit_policy pol r =
     r\<lparr>own_exec_policy := Some (case own_exec_policy r of Some p \<Rightarrow> p | None \<Rightarrow> pol)\<rparr>"

definition hand_spawn :: "'j hand_env \<Rightarrow> hand_rest spawn_env" where
  "hand_spawn env = (he_spawn env)\<lparr>fallback_exec_policy := inherit_policy (he_policy env)\<rparr>"

type_synonym 'j hand_state = "hand_rest kernel \<times> 'j hand_registry"

definition activate_hand ::
  "'j hand_env \<Rightarrow> 'j hand_state \<Rightarrow> string \<Rightarrow> (string \<rightharpoonup> 'j)
   \<Rightarrow> 'j hand_state \<times> ('j hand_instance, hand_failure) result" where
  "activate_hand env st h config =
     (case st of (k, reg) \<Rightarrow>
       (case get_definition reg h of
          None \<Rightarrow> ((k, reg), Err (HandUnknown h))
        | Some d \<Rightarrow>
            (case activate (he_instance env) (he_now env) reg h config of
               (reg1, Inl e) \<Rightarrow> ((k, reg1), Err (HandInternal e))
             | (reg1, Inr i) \<Rightarrow>
                 (let res = resolve_settings (he_as_str env) (hd_settings d) (hand_config i);
                      m = hand_manifest (he_show_id env) (he_provider env) (he_model env) d h (instance_id i) res
                  in case spawn_agent_with_parent (hand_spawn env) k m None of
                       (k1, Inl e) \<Rightarrow> ((k1, reg1), Err (SpawnFailed e))
                     | (k1, Inr aid) \<Rightarrow>
                         (case set_agent (he_now env) aid reg1 (instance_id i) of
                            (reg2, Inl e) \<Rightarrow> ((k1, reg2), Err (HandInternal e))
                          | (reg2, Inr _) \<Rightarrow>
                              ((k1, reg2), Ok (case get_instance reg2 (instance_id i) of
                                                 Some j \<Rightarrow> j | None \<Rightarrow> i)))))))"

definition deactivate_hand ::
  "'j hand_state \<Rightarrow> nat \<Rightarrow> 'j hand_state \<times> (unit, hand_failure) result" where
  "deactivate_hand st iid =
     (case st of (k, reg) \<Rightarrow>
       (case deactivate reg iid of
          (reg1, Inl e) \<Rightarrow> ((k, reg1), Err (HandInternal e))
        | (reg1, Inr i) \<Rightarrow>
            (case hand_agent i of
               None \<Rightarrow> ((k, reg1), Ok ())
             | Some aid \<Rightarrow> ((fst (kill_agent k aid), reg1), Ok ()))))"

definition pause_hand ::
  "timestamp \<Rightarrow> 'j hand_state \<Rightarrow> nat \<Rightarrow> 'j hand_state \<times> (unit, hand_failure) result" where
  "pause_hand t st iid =
     (case pause t (snd st) iid of (reg, r) \<Rightarrow> ((fst st, reg), map_sum HandInternal id r))"

definition resume_hand ::
  "timestamp \<Rightarrow> 'j hand_state \<Rightarrow> nat \<Rightarrow> 'j hand_state \<times> (unit, hand_failure) result" where
  "resume_hand t st iid =
     (case resume t (snd st) iid of (reg, r) \<Rightarrow> ((fst st, reg), map_sum HandInternal id r))"

text \<open>The tools \<open>hand_list\<close> and \<open>hand_status\<close>: the first instance of a hand, whatever its status.\<close>

definition hand_list ::
  "'j hand_registry \<Rightarrow> (hand_definition \<times> string \<times> nat option \<times> agent_id option) list" where
  "hand_list reg =
     map (\<lambda>d. case find (\<lambda>i. hand_id i = hd_id d) (list_instances reg) of
                Some i \<Rightarrow> (d, show_status (hand_status i), Some (instance_id i), hand_agent i)
              | None \<Rightarrow> (d, ''available'', None, None)) (list_definitions reg)"

definition hand_status_of :: "'j hand_registry \<Rightarrow> string \<Rightarrow> ('j hand_instance \<times> string \<times> string) option" where
  "hand_status_of reg h =
     (case find (\<lambda>i. hand_id i = h) (list_instances reg) of
        None \<Rightarrow> None
      | Some i \<Rightarrow>
          (case get_definition reg h of
             Some d \<Rightarrow> Some (i, hd_name d, hd_icon d)
           | None \<Rightarrow> Some (i, [], [])))"

section \<open>Settings reach the agent as declared\<close>

lemma setting_env_declared:
  "e \<in> set (setting_env s v) \<Longrightarrow> \<exists>op \<in> set (setting_options s). opt_value op = v \<and> provider_env op = Some e"
proof -
  assume "e \<in> set (setting_env s v)"
  then obtain op where "find (\<lambda>op. opt_value op = v) (setting_options s) = Some op" "provider_env op = Some e"
    by (cases "matched_option s v")
      (auto simp: setting_env_def matched_option_def split: hand_setting_type.splits option.splits)
  then show ?thesis by (auto simp: find_Some_iff dest: nth_mem)
qed

text \<open>A configuration selects among the declared variables; it cannot name one of its own.\<close>

lemma resolved_env_declared:
  assumes "e \<in> set (env_vars (resolve_settings as_str settings config))"
  shows "\<exists>s \<in> set settings. \<exists>op \<in> set (setting_options s). provider_env op = Some e"
  using assms by (fastforce simp: resolve_settings_def Let_def dest: setting_env_declared)

lemma no_settings_no_block [simp]: "resolve_settings as_str [] config = \<lparr>prompt_block = [], env_vars = []\<rparr>"
  by (simp add: resolve_settings_def)

section \<open>Activation\<close>

lemma activate_cases:
  assumes "activate iid t reg h config = (reg', r)"
  obtains (missing) "get_definition reg h = None" "reg' = reg" "r = Err (HandNotFound h)"
    | (active) d where "get_definition reg h = Some d" "list_ex (active_of h) (instances reg)" "reg' = reg"
        "r = Err (AlreadyActive h)"
    | (new) d i where "get_definition reg h = Some d" "\<not> list_ex (active_of h) (instances reg)"
        "i = new_instance iid t h (ha_name (hd_agent d)) config"
        "reg' = reg\<lparr>instances := AList.update iid i (instances reg)\<rparr>" "r = Ok i"
  using assms by (auto simp: activate_def Let_def split: option.splits if_splits)

lemma new_instance_fields [simp]:
  "instance_id (new_instance iid t h n c) = iid" "hand_id (new_instance iid t h n c) = h"
  "hand_status (new_instance iid t h n c) = ActiveHand" "hand_agent (new_instance iid t h n c) = None"
  "hand_config (new_instance iid t h n c) = c" "agent_name (new_instance iid t h n c) = n"
  by (simp_all add: new_instance_def)

lemma change_instance_map:
  "map_of (instances (fst (change_instance t f reg iid))) =
     (case map_of (instances reg) iid of
        None \<Rightarrow> map_of (instances reg)
      | Some i \<Rightarrow> (map_of (instances reg))(iid \<mapsto> (f i)\<lparr>updated_at := t\<rparr>))"
  by (simp add: change_instance_def update_conv' split: option.split)

lemma change_instance_definitions [simp]:
  "hand_definitions (fst (change_instance t f reg iid)) = hand_definitions reg"
  by (simp add: change_instance_def split: option.split)

lemma hand_manifest_parts [simp]:
  "manifest_to_capabilities (hand_manifest sh p md d h iid res) = map ToolInvoke (hd_tools d)"
  "manifest_tags (hand_manifest sh p md d h iid res) = [''hand:'' @ h, ''hand_instance:'' @ sh iid]"
  "own_exec_policy (manifest_rest (hand_manifest sh p md d h iid res)) =
     (if ''shell_exec'' \<in> set (hd_tools d) then Some hand_exec_policy else None)"
  "manifest_name (hand_manifest sh p md d h iid res) = ha_name (hd_agent d)"
  by (simp_all add: hand_manifest_def Let_def manifest_to_capabilities_def effective_capabilities_def
      bare_capabilities_def)

lemma hand_tag_prefix: "starts_with (''hand:'' @ h) ''hand:''"
  by (simp add: starts_with_def)

lemma activated:
  assumes "activate_hand env (k, reg) h config = ((k', reg'), Ok i)"
  obtains d i0 aid where "get_definition reg h = Some d" "\<not> list_ex (active_of h) (instances reg)"
    "i0 = new_instance (he_instance env) (he_now env) h (ha_name (hd_agent d)) config"
    "spawn_agent_with_parent (hand_spawn env) k
       (hand_manifest (he_show_id env) (he_provider env) (he_model env) d h (he_instance env)
          (resolve_settings (he_as_str env) (hd_settings d) config)) None = (k', Ok aid)"
    "map_of (instances reg') = (map_of (instances reg))(he_instance env \<mapsto> i)"
    "i = i0\<lparr>hand_agent := Some aid, updated_at := he_now env\<rparr>"
proof -
  obtain reg1 r1 where act: "activate (he_instance env) (he_now env) reg h config = (reg1, r1)"
    by (cases "activate (he_instance env) (he_now env) reg h config")
  from act show thesis
  proof (cases rule: activate_cases)
    case (new d i0)
    then show thesis
      using that assms act
      by (auto simp: activate_hand_def Let_def set_agent_def change_instance_def get_instance_def update_conv'
          split: prod.splits sum.splits option.splits)
  qed (use assms act in \<open>auto simp: activate_hand_def\<close>)
qed


section \<open>One active instance\<close>

definition one_active :: "'j hand_registry \<Rightarrow> bool" where
  "one_active reg \<longleftrightarrow> (\<forall>a b i j. map_of (instances reg) a = Some i \<longrightarrow> map_of (instances reg) b = Some j \<longrightarrow>
     hand_status i = ActiveHand \<longrightarrow> hand_status j = ActiveHand \<longrightarrow> hand_id i = hand_id j \<longrightarrow> a = b)"

lemma not_active_map:
  "\<not> list_ex (active_of h) xs \<Longrightarrow> map_of xs a = Some i \<Longrightarrow> hand_id i = h \<Longrightarrow> hand_status i \<noteq> ActiveHand"
  by (force simp: list_ex_iff active_of_def dest: map_of_SomeD)

lemma activate_one_active:
  assumes "one_active reg" shows "one_active (fst (activate iid t reg h config))"
proof -
  obtain reg' r where act: "activate iid t reg h config = (reg', r)" by (cases "activate iid t reg h config")
  from act have "one_active reg'"
  proof (cases rule: activate_cases)
    case (new d i)
    then show ?thesis
      using assms not_active_map [OF new(2)] by (force simp: one_active_def update_conv')
  qed (use assms in simp_all)
  then show ?thesis by (simp add: act)
qed

text \<open>A change that leaves the hand alone and makes nothing active keeps the uniqueness.\<close>

lemma change_one_active:
  assumes "one_active reg" "\<And>i. hand_id (f i) = hand_id i"
    and "\<And>i. hand_status (f i) = ActiveHand \<Longrightarrow> hand_status i = ActiveHand"
  shows "one_active (fst (change_instance t f reg iid))"
proof (cases "map_of (instances reg) iid")
  case None
  then show ?thesis using assms(1) by (simp add: one_active_def change_instance_map)
next
  case (Some i)
  have "\<exists>i0. map_of (instances reg) a = Some i0 \<and> hand_status i0 = ActiveHand \<and> hand_id i0 = hand_id j"
    if "map_of (instances (fst (change_instance t f reg iid))) a = Some j" "hand_status j = ActiveHand" for a j
    using that Some assms(2,3) by (auto simp: change_instance_map split: if_splits)
  then show ?thesis using assms(1) unfolding one_active_def by metis
qed

lemma deactivate_one_active: "one_active reg \<Longrightarrow> one_active (fst (deactivate reg iid))"
  by (auto simp: one_active_def deactivate_def delete_conv' split: option.split)

datatype 'j hand_op =
    Activating "'j hand_env" string "string \<rightharpoonup> 'j"
  | Deactivating nat
  | Pausing timestamp nat
  | Resuming timestamp nat
  | Failing timestamp string nat

fun hand_do :: "'j hand_op \<Rightarrow> 'j hand_state \<Rightarrow> 'j hand_state" where
  "hand_do (Activating env h config) st = fst (activate_hand env st h config)"
| "hand_do (Deactivating iid) st = fst (deactivate_hand st iid)"
| "hand_do (Pausing t iid) st = fst (pause_hand t st iid)"
| "hand_do (Resuming t iid) st = fst (resume_hand t st iid)"
| "hand_do (Failing t msg iid) (k, reg) = (k, fst (set_error t msg reg iid))"

lemma activate_hand_registry:
  "snd (fst (activate_hand env (k, reg) h config)) = fst (activate (he_instance env) (he_now env) reg h config)
   \<or> (\<exists>aid. snd (fst (activate_hand env (k, reg) h config))
        = fst (set_agent (he_now env) aid (fst (activate (he_instance env) (he_now env) reg h config)) (he_instance env)))"
proof -
  obtain reg' r where act: "activate (he_instance env) (he_now env) reg h config = (reg', r)"
    by (cases "activate (he_instance env) (he_now env) reg h config")
  from act show ?thesis
  proof (cases rule: activate_cases)
    case (new d i)
    then show ?thesis
      by (auto simp: activate_hand_def act Let_def split: option.split sum.split prod.split) (metis fst_conv)+
  qed (auto simp: activate_hand_def act split: option.split)
qed

lemma set_agent_one_active: "one_active reg \<Longrightarrow> one_active (fst (set_agent t aid reg iid))"
  unfolding set_agent_def by (rule change_one_active) simp_all

lemma hand_do_one_active:
  assumes "one_active (snd st)" "\<And>t iid. op \<noteq> Resuming t iid"
  shows "one_active (snd (hand_do op st))"
proof (cases op)
  case (Activating env h config)
  obtain k reg where st: "st = (k, reg)" by (cases st)
  show ?thesis
    using activate_hand_registry [of env k reg h config] assms(1)
    by (force simp: Activating st intro: activate_one_active set_agent_one_active [OF activate_one_active])
next
  case (Deactivating iid)
  then show ?thesis
    using deactivate_one_active [OF assms(1), of iid]
    by (auto simp: deactivate_hand_def split: prod.split sum.split option.split)
next
  case (Pausing t iid)
  then show ?thesis using assms(1)
    by (auto simp: pause_hand_def pause_def split: prod.split
        dest: change_one_active [where f = "hand_status_update (\<lambda>_. PausedHand)" and t = t and iid = iid])
next
  case (Failing t msg iid)
  then show ?thesis using assms(1)
    by (cases st) (auto simp: set_error_def
        dest: change_one_active [where f = "hand_status_update (\<lambda>_. FailedHand msg)" and t = t and iid = iid])
qed (use assms(2) in blast)

lemma one_active_instance:
  assumes "\<forall>op \<in> set ops. \<forall>t iid. op \<noteq> Resuming t iid" "one_active (snd st)"
  shows "one_active (snd (fold hand_do ops st))"
  using assms
proof (induction ops arbitrary: st)
  case (Cons op ops)
  then show ?case using hand_do_one_active [of st op] by simp
qed simp

section \<open>Deactivation\<close>

lemma kill_outcome:
  "get_agent (registry (fst (kill_agent k aid))) b = (if b = aid then None else get_agent (registry k) b)"
  by (auto simp: kill_agent_def remove_agent_def get_agent_def split: option.split)

lemma hand_deactivated:
  assumes "deactivate_hand (k, reg) iid = ((k', reg'), Ok ())"
  shows "\<exists>i. get_instance reg iid = Some i \<and> get_instance reg' iid = None
    \<and> (\<forall>j. j \<noteq> iid \<longrightarrow> get_instance reg' j = get_instance reg j)
    \<and> (\<forall>b. get_agent (registry k') b = (if hand_agent i = Some b then None else get_agent (registry k) b))"
  using assms
  by (auto simp: deactivate_hand_def deactivate_def get_instance_def delete_conv' kill_outcome
      split: option.splits prod.splits sum.splits)

section \<open>What goes wrong\<close>

text \<open>
  An activation whose spawn fails leaves its active instance, without an agent: the hand counts as
  active and every later activation is refused, until someone deactivates the instance whose
  identifier the failed call did not return.
\<close>

lemma failed_activation_blocks:
  assumes "activate_hand env (k, reg) h config = ((k', reg'), Err (SpawnFailed e))"
  shows "map_option hand_agent (get_instance reg' (he_instance env)) = Some None
    \<and> activate_hand env2 (k2, reg') h config2 = ((k2, reg'), Err (HandInternal (AlreadyActive h)))"
proof -
  obtain d reg1 i where d: "get_definition reg h = Some d"
    and act: "activate (he_instance env) (he_now env) reg h config = (reg1, Ok i)" and reg': "reg' = reg1"
    using assms by (auto simp: activate_hand_def Let_def set_agent_def
        split: option.splits prod.splits sum.splits)
  from act show ?thesis
  proof (cases rule: activate_cases)
    case (new d' i')
    have a: "map_of (instances reg') (he_instance env) = Some i'"
      by (simp add: reg' new(4) update_conv')
    have "list_ex (active_of h) (instances reg')"
      using map_of_SomeD [OF a] by (force simp: list_ex_iff active_of_def new(3))
    moreover have "get_definition reg' h = Some d" using d by (simp add: reg' new(4) get_definition_def)
    ultimately show ?thesis using a
      by (simp add: activate_hand_def activate_def get_instance_def new(3))
  qed simp_all
qed

definition idle_agent :: hand_agent_config where
  "idle_agent = \<lparr>ha_name = ''clip-hand'', ha_description = [], ha_module = ''builtin:chat'',
     ha_provider = ''default'', ha_model = ''default'', ha_api_key_env = None, ha_base_url = None,
     ha_max_tokens = 4096, ha_temperature = Fin 0, ha_system_prompt = ''Clip.'', ha_max_iterations = Some 60\<rparr>"

definition stt_setting :: hand_setting where
  "stt_setting = \<lparr>setting_key = ''stt'', setting_label = ''STT'', setting_description = [],
     setting_type = SelectOne, setting_default = ''auto'',
     setting_options = [\<lparr>opt_value = ''groq'', opt_label = ''Groq'', provider_env = Some ''GROQ_API_KEY'',
                         opt_binary = None\<rparr>]\<rparr>"

definition clip_hand :: hand_definition where
  "clip_hand = \<lparr>hd_id = ''clip'', hd_name = ''Clip Hand'', hd_description = [], hd_category = Content,
     hd_icon = [], hd_tools = [''shell_exec''], hd_skills = [], hd_mcp_servers = [], hd_requires = [],
     hd_settings = [stt_setting], hd_agent = idle_agent, hd_dashboard = [], hd_skill_content = None\<rparr>"

definition clip_registry :: "string hand_registry" where
  "clip_registry = new_hands\<lparr>hand_definitions := [(''clip'', clip_hand)]\<rparr>"

definition clip_spawn :: "nat \<Rightarrow> hand_rest spawn_env" where
  "clip_spawn i = \<lparr>new_agent = i, new_session = i, now = 0, clock_secs = 0, session_created = True,
     workspace_ready = True, agent_saved = True, workspace_of = (\<lambda>n _. n),
     fallback_exec_policy = id, default_provider = [], default_model_name = [],
     default_base_url = None, trigger_ids = id, event_format = plain_env, visit_order = (\<lambda>_. [])\<rparr>"

definition clip_env :: "nat \<Rightarrow> string hand_env" where
  "clip_env i = \<lparr>he_spawn = clip_spawn i, he_instance = i, he_now = 0, he_as_str = Some, he_show_id = show_nat,
     he_provider = ''groq'', he_model = ''llama'', he_policy = default_exec_policy\<rparr>"

definition bare_kernel :: "hand_rest kernel" where
  "bare_kernel = \<lparr>registry = new_registry, caps = new_manager, scheduler = new_scheduler,
     engine = new_engine, stored = Map.empty\<rparr>"

definition groq_config :: "string \<rightharpoonup> string" where
  "groq_config = [''stt'' \<mapsto> ''groq'']"

lemmas clip_defs = idle_agent_def stt_setting_def clip_hand_def clip_registry_def clip_spawn_def
  clip_env_def bare_kernel_def groq_config_def new_hands_def

lemma clip_activates:
  obtains k' reg' i where "activate_hand (clip_env 7) (bare_kernel, clip_registry) ''clip'' groq_config = ((k', reg'), Ok i)"
proof -
  have "is_ok (snd (activate_hand (clip_env 7) (bare_kernel, clip_registry) ''clip'' groq_config))"
    by (simp add: activate_hand_def activate_def get_definition_def Let_def set_agent_def change_instance_def
        clip_defs hand_manifest_def hand_spawn_def spawn_defs new_registry_def bare_capabilities_def
        new_instance_def)
  then show thesis using that
    by (cases "activate_hand (clip_env 7) (bare_kernel, clip_registry) ''clip'' groq_config") (auto simp: is_ok_conv)
qed


text \<open>Pausing a hand frees its place: another instance is started, and resuming the first gives two.\<close>

lemma resume_duplicates:
  "let a = fst (activate 4 0 clip_registry ''clip'' groq_config); b = fst (pause 2 a 4);
       c = fst (activate 5 3 b ''clip'' groq_config); d = fst (resume 6 c 4)
   in one_active c \<and> \<not> one_active d \<and> length (filter (active_of ''clip'') (instances d)) = 2"
proof -
  have e: "one_active clip_registry" by (simp add: one_active_def clip_registry_def new_hands_def)
  have c: "one_active (fst (activate 5 3 (fst (pause 2 (fst (activate 4 0 clip_registry ''clip'' groq_config)) 4))
      ''clip'' groq_config))"
    unfolding pause_def by (intro activate_one_active change_one_active e) simp_all
  have d: "instances (fst (resume 6 (fst (activate 5 3 (fst (pause 2 (fst (activate 4 0 clip_registry ''clip''
      groq_config)) 4)) ''clip'' groq_config)) 4)) =
      [(4, (new_instance 4 0 ''clip'' ''clip-hand'' groq_config)\<lparr>updated_at := 6\<rparr>),
       (5, new_instance 5 3 ''clip'' ''clip-hand'' groq_config)]"
    unfolding pause_def resume_def activate_def change_instance_def get_definition_def Let_def clip_registry_def
      clip_hand_def idle_agent_def new_hands_def new_instance_def active_of_def
    by simp
  have n: "\<not> one_active r" if "instances r = [(4, (new_instance 4 0 ''clip'' ''clip-hand'' groq_config)\<lparr>updated_at := 6\<rparr>),
       (5, new_instance 5 3 ''clip'' ''clip-hand'' groq_config)]" for r
  proof
    assume o: "one_active r"
    have "map_of (instances r) 4 = Some ((new_instance 4 0 ''clip'' ''clip-hand'' groq_config)\<lparr>updated_at := 6\<rparr>)"
      "map_of (instances r) 5 = Some (new_instance 5 3 ''clip'' ''clip-hand'' groq_config)"
      by (simp_all add: that)
    from o [unfolded one_active_def, rule_format, OF this] show False by simp
  qed
  note n = n [OF d]
  show ?thesis
    unfolding Let_def using c n by (simp add: d active_of_def)
qed

end
