(* ===== verification/Session_Ops.thy ===== *)
theory Session_Ops
  imports Turn
begin

text \<open>
  What the kernel does with the sessions and the settings of an agent between turns: reset with its
  summary, listing, creating and switching sessions, the model, the skills and the servers of an
  agent, and the estimate of a session's cost (\<open>clawreform-kernel/src/kernel.rs\<close>, \<open>reset_session\<close> to
  \<open>session_usage_cost\<close>).

  The Unicode tables behind \<open>to_lowercase\<close> and \<open>is_alphanumeric\<close> are the parameters \<open>lower\<close> and
  \<open>alnum\<close>. Files written are listed by workspace, directories and name; errors of those writes are
  ignored by the code. The refresh of the Markdown views of a workspace is not modelled.
\<close>

section \<open>State\<close>

record 'x ops_state =
  os_kernel :: "'x kernel"
  os_store :: session_store
  os_notes :: "agent_id \<Rightarrow> string \<rightharpoonup> string"
  os_files :: "(string \<times> string list \<times> string) list"

record 'j ops_env =
  oe_packer :: "'j packer"
  oe_now :: timestamp
  oe_stamp :: string
  oe_date :: string
  oe_session :: session_id
  oe_lower :: "string \<Rightarrow> string"
  oe_alnum :: "string \<Rightarrow> bool"

datatype ops_error =
    UnknownAgent agent_id
  | StoreFailure store_error
  | SessionNotFound
  | ForeignSession
  | UnknownSkill string
  | UnknownServer string
  | RegistryRefused registry_error

definition with_registry :: "('x registry \<Rightarrow> 'x registry) \<Rightarrow> 'x ops_state \<Rightarrow> 'x ops_state" where
  "with_registry f st = st\<lparr>os_kernel := (os_kernel st)\<lparr>Kernel.registry := f (Kernel.registry (os_kernel st))\<rparr>\<rparr>"

definition agent_in :: "'x ops_state \<Rightarrow> agent_id \<Rightarrow> 'x agent_entry option" where
  "agent_in st a = get_agent (Kernel.registry (os_kernel st)) a"

section \<open>The summary of a session\<close>

text \<open>The characters of a text, each as its bytes.\<close>

fun chars_of :: "string \<Rightarrow> string list" where
  "chars_of [] = []"
| "chars_of (c # s) =
     (case chars_of s of
        [] \<Rightarrow> [[c]]
      | x # xs \<Rightarrow> if is_cont (hd x) then (c # x) # xs else [c] # x # xs)"

definition slug_of :: "'j ops_env \<Rightarrow> string \<Rightarrow> string" where
  "slug_of env t =
     concat (take 60 (filter (\<lambda>c. oe_alnum env c \<or> c = ''-'')
       (chars_of (oe_lower env (str_join ''-'' (take 6 (split_whitespace t)))))))"

definition topics_of :: "'j message list \<Rightarrow> string list" where
  "topics_of ms =
     concat (map (\<lambda>m. case (role m, content m) of (User, TextContent t) \<Rightarrow> [t] | _ \<Rightarrow> [])
       (drop (length ms - 10) ms))"

fun numbered :: "nat \<Rightarrow> string list \<Rightarrow> (string list, panic) result" where
  "numbered i [] = Ok []"
| "numbered i (t # ts) =
     (case (if length t > 200 then slice_to t 200 else Ok t) of
        Inl p \<Rightarrow> Err p
      | Inr u \<Rightarrow>
          (case numbered (Suc i) ts of
             Inl p \<Rightarrow> Err p
           | Inr ls \<Rightarrow> Ok ((show_nat i @ ''. '' @ u) # ls)))"

definition session_summary :: "'j ops_env \<Rightarrow> string list \<Rightarrow> (string, panic) result" where
  "session_summary env ts =
     map_sum id (\<lambda>ls. ''Session on '' @ oe_date env @ '': '' @ slug_of env (hd ts) @ [newline, newline]
                   @ ''Key exchanges:'' @ [newline] @ str_join [newline] ls)
       (numbered 1 (take 5 ts))"

definition note_key :: "'j ops_env \<Rightarrow> string \<Rightarrow> string" where
  "note_key env slug = ''session_'' @ oe_date env @ ''_'' @ slug"

definition note_name :: "'j ops_env \<Rightarrow> string \<Rightarrow> string" where
  "note_name env slug = oe_date env @ ''-'' @ (if slug = [] then ''session'' else slug) @ ''.md''"

definition save_session_summary ::
  "'j ops_env \<Rightarrow> agent_id \<Rightarrow> 'x agent_entry \<Rightarrow> 'j message list \<Rightarrow> 'x ops_state \<Rightarrow> ('x ops_state, panic) result" where
  "save_session_summary env a e ms st =
     (let ts = topics_of ms
      in if ts = [] then Ok st
         else case session_summary env ts of
                Inl p \<Rightarrow> Err p
              | Inr text \<Rightarrow>
                  (let slug = slug_of env (hd ts);
                       st1 = st\<lparr>os_notes := (os_notes st)(a := (os_notes st a)(note_key env slug \<mapsto> text))\<rparr>
                   in Ok (case workspace (manifest e) of
                            None \<Rightarrow> st1
                          | Some w \<Rightarrow>
                              st1\<lparr>os_files := os_files st1
                                 @ [(w, [''memory''], oe_date env @ ''-'' @ slug @ ''.md''),
                                    (w, [''memory'', ''summaries''], note_name env slug)]\<rparr>)))"

section \<open>Sessions of an agent\<close>

text \<open>A panic leaves the state as it was when it struck.\<close>

definition switch_to :: "'j ops_env \<Rightarrow> agent_id \<Rightarrow> session_id \<Rightarrow> 'x ops_state \<Rightarrow> 'x ops_state \<times> (unit, ops_error) result" where
  "switch_to env a i st =
     (case update_session_id (oe_now env) (Kernel.registry (os_kernel st)) a i of
        (r, res) \<Rightarrow> (with_registry (\<lambda>_. r) st, map_sum RegistryRefused id res))"

definition summary_before_reset ::
  "'j ops_env \<Rightarrow> agent_id \<Rightarrow> 'x agent_entry \<Rightarrow> 'x ops_state \<Rightarrow> ('x ops_state, panic) result" where
  "summary_before_reset env a e st =
     (case get_session (oe_packer env) (session_id e) (os_store st) of
        Inr (Some old) \<Rightarrow>
          if length (sess_messages old) \<ge> 2 then save_session_summary env a e (sess_messages old) st else Ok st
      | _ \<Rightarrow> Ok st)"

definition reset_session ::
  "'j ops_env \<Rightarrow> agent_id \<Rightarrow> 'x ops_state \<Rightarrow> 'x ops_state \<times> ((unit, ops_error) result, panic) result" where
  "reset_session env a st =
     (case agent_in st a of
        None \<Rightarrow> (st, Ok (Err (UnknownAgent a)))
      | Some e \<Rightarrow>
          (case summary_before_reset env a e st of
             Inl p \<Rightarrow> (st, Err p)
           | Inr st1 \<Rightarrow>
               (let s1 = delete_session (session_id e) (os_store st1);
                    s2 = snd (create_session (oe_packer env) (oe_stamp env) (oe_session env) a s1);
                    (st2, r) = switch_to env a (oe_session env) (st1\<lparr>os_store := s2\<rparr>)
                in (st2, Ok r))))"

definition list_sessions_of ::
  "'j ops_env \<Rightarrow> agent_id \<Rightarrow> 'x ops_state \<Rightarrow> ((session_info \<times> bool) list, ops_error) result" where
  "list_sessions_of env a st =
     (case agent_in st a of
        None \<Rightarrow> Err (UnknownAgent a)
      | Some e \<Rightarrow>
          Ok (map (\<lambda>s. (s, info_session s = session_id e)) (list_agent_sessions (oe_packer env) a (os_store st))))"

definition create_agent_session ::
  "'j ops_env \<Rightarrow> agent_id \<Rightarrow> string option \<Rightarrow> 'x ops_state
   \<Rightarrow> 'x ops_state \<times> (session_id \<times> string option, ops_error) result" where
  "create_agent_session env a l st =
     (case agent_in st a of
        None \<Rightarrow> (st, Err (UnknownAgent a))
      | Some _ \<Rightarrow>
          (let s1 = snd (create_session_with_label (oe_packer env) (oe_stamp env) (oe_session env) a l (os_store st));
               (st1, r) = switch_to env a (oe_session env) (st\<lparr>os_store := s1\<rparr>)
           in (st1, map_sum id (\<lambda>_. (oe_session env, l)) r)))"

definition switch_agent_session ::
  "'j ops_env \<Rightarrow> agent_id \<Rightarrow> session_id \<Rightarrow> 'x ops_state \<Rightarrow> 'x ops_state \<times> (unit, ops_error) result" where
  "switch_agent_session env a i st =
     (case agent_in st a of
        None \<Rightarrow> (st, Err (UnknownAgent a))
      | Some _ \<Rightarrow>
          (case get_session (oe_packer env) i (os_store st) of
             Inl e \<Rightarrow> (st, Err (StoreFailure e))
           | Inr None \<Rightarrow> (st, Err SessionNotFound)
           | Inr (Some s) \<Rightarrow>
               if sess_agent s \<noteq> a then (st, Err ForeignSession) else switch_to env a i st))"

section \<open>Settings of an agent\<close>

text \<open>\<open>save_agent\<close> stores the entry as it is now; its errors are ignored and it is taken to succeed.\<close>

definition persist :: "agent_id \<Rightarrow> 'x ops_state \<Rightarrow> 'x ops_state" where
  "persist a st =
     (case agent_in st a of
        None \<Rightarrow> st
      | Some e \<Rightarrow> st\<lparr>os_kernel := (os_kernel st)\<lparr>stored := (stored (os_kernel st))(a \<mapsto> e)\<rparr>\<rparr>)"

definition change_agent ::
  "('x registry \<Rightarrow> 'x registry \<times> (unit, registry_error) result) \<Rightarrow> agent_id \<Rightarrow> 'x ops_state
   \<Rightarrow> 'x ops_state \<times> (unit, ops_error) result" where
  "change_agent f a st =
     (case f (Kernel.registry (os_kernel st)) of
        (r, Inl e) \<Rightarrow> (with_registry (\<lambda>_. r) st, Err (RegistryRefused e))
      | (r, Inr _) \<Rightarrow> (persist a (with_registry (\<lambda>_. r) st), Ok ()))"

definition set_agent_model ::
  "'j ops_env \<Rightarrow> model_catalog \<Rightarrow> agent_id \<Rightarrow> string \<Rightarrow> 'x ops_state \<Rightarrow> 'x ops_state \<times> (unit, ops_error) result" where
  "set_agent_model env cat a new_model st =
     (case find_model cat new_model of
        Some m \<Rightarrow> change_agent (\<lambda>r. update_model_and_provider (oe_now env) r a new_model (model_provider m)) a st
      | None \<Rightarrow> change_agent (\<lambda>r. update_model (oe_now env) r a new_model) a st)"

definition set_agent_skills ::
  "'j ops_env \<Rightarrow> string list \<Rightarrow> agent_id \<Rightarrow> string list \<Rightarrow> 'x ops_state \<Rightarrow> 'x ops_state \<times> (unit, ops_error) result" where
  "set_agent_skills env skill_names a names st =
     (case (if names = [] then None else find (\<lambda>n. n \<notin> set skill_names) names) of
        Some n \<Rightarrow> (st, Err (UnknownSkill n))
      | None \<Rightarrow> change_agent (\<lambda>r. update_skills (oe_now env) r a names) a st)"

definition known_servers :: "'j tool_definition list \<Rightarrow> string list" where
  "known_servers ts = concat (map (\<lambda>t. case extract_mcp_server (tool_name t) of Some s \<Rightarrow> [s] | None \<Rightarrow> []) ts)"

definition set_agent_mcp_servers ::
  "'j ops_env \<Rightarrow> 'j tool_definition list \<Rightarrow> agent_id \<Rightarrow> string list \<Rightarrow> 'x ops_state \<Rightarrow> 'x ops_state \<times> (unit, ops_error) result" where
  "set_agent_mcp_servers env ts a names st =
     (case (if names = [] then None else find (\<lambda>n. normalize_name n \<notin> set (known_servers ts)) names) of
        Some n \<Rightarrow> (st, Err (UnknownServer n))
      | None \<Rightarrow> change_agent (\<lambda>r. update_mcp_servers (oe_now env) r a names) a st)"

section \<open>The cost of a session\<close>

definition message_tokens :: "'j message \<Rightarrow> nat" where
  "message_tokens m = length (text_content (content m)) div 4"

fun count_tokens :: "'j message list \<Rightarrow> nat \<times> nat" where
  "count_tokens [] = (0, 0)"
| "count_tokens (m # ms) =
     (case count_tokens ms of (i, j) \<Rightarrow>
       (case role m of
          Assistant \<Rightarrow> (i, message_tokens m + j)
        | _ \<Rightarrow> (message_tokens m + i, j)))"

definition session_usage_cost ::
  "'j packer \<Rightarrow> f64 float_ops \<Rightarrow> model_catalog \<Rightarrow> agent_id \<Rightarrow> 'x ops_state \<Rightarrow> (nat \<times> nat \<times> f64, ops_error) result" where
  "session_usage_cost p ops cat a st =
     (case agent_in st a of
        None \<Rightarrow> Err (UnknownAgent a)
      | Some e \<Rightarrow>
          (case get_session p (session_id e) (os_store st) of
             Inl err \<Rightarrow> Err (StoreFailure err)
           | Inr s \<Rightarrow>
               (let (i, j) = (case s of Some x \<Rightarrow> count_tokens (sess_messages x) | None \<Rightarrow> (0, 0));
                    rates = (\<lambda>n. map_option (map_prod (of_decimal ops) (of_decimal ops)) (pricing cat n))
                in Ok (i, j, estimate_cost_with_catalog ops rates (model (model_conf (manifest e))) i j))))"

section \<open>Whose session an agent is on\<close>

definition current_session :: "'x ops_state \<Rightarrow> agent_id \<Rightarrow> session_id option" where
  "current_session st a = map_option session_id (agent_in st a)"

definition owned :: "'x ops_state \<Rightarrow> bool" where
  "owned st \<longleftrightarrow>
     (\<forall>a i r. current_session st a = Some i \<longrightarrow> map_of (session_rows (os_store st)) i = Some r \<longrightarrow> row_agent r = a)
     \<and> (\<forall>a b i. current_session st a = Some i \<longrightarrow> current_session st b = Some i \<longrightarrow> a = b)"

lemma ownedI:
  "(\<And>a i r. current_session st a = Some i \<Longrightarrow> map_of (session_rows (os_store st)) i = Some r \<Longrightarrow> row_agent r = a)
     \<Longrightarrow> (\<And>a b i. current_session st a = Some i \<Longrightarrow> current_session st b = Some i \<Longrightarrow> a = b) \<Longrightarrow> owned st"
  by (simp add: owned_def)

lemma ownedD:
  assumes "owned st" "current_session st a = Some i"
  shows "map_of (session_rows (os_store st)) i = Some r \<Longrightarrow> row_agent r = a"
    and "current_session st b = Some i \<Longrightarrow> b = a"
  using assms by (auto simp: owned_def)

definition unused :: "session_id \<Rightarrow> 'x ops_state \<Rightarrow> bool" where
  "unused i st \<longleftrightarrow> map_of (session_rows (os_store st)) i = None \<and> (\<forall>b. current_session st b \<noteq> Some i)"

text \<open>
  One operation of the kernel, or the saving of a session at the end of a turn; the random
  identifier of a new session is one not in use.
\<close>

inductive session_step :: "'j packer \<Rightarrow> 'x ops_state \<Rightarrow> 'x ops_state \<Rightarrow> bool" for p where
  resetting: "reset_session env a st = (st', r) \<Longrightarrow> oe_packer env = p \<Longrightarrow> unused (oe_session env) st
     \<Longrightarrow> session_step p st st'"
| creating: "create_agent_session env a l st = (st', r) \<Longrightarrow> oe_packer env = p \<Longrightarrow> unused (oe_session env) st
     \<Longrightarrow> session_step p st st'"
| switching: "switch_agent_session env a i st = (st', r) \<Longrightarrow> oe_packer env = p \<Longrightarrow> session_step p st st'"
| set_model: "set_agent_model env cat a n st = (st', r) \<Longrightarrow> oe_packer env = p \<Longrightarrow> session_step p st st'"
| set_skills: "set_agent_skills env ns a names st = (st', r) \<Longrightarrow> oe_packer env = p \<Longrightarrow> session_step p st st'"
| set_servers: "set_agent_mcp_servers env ts a names st = (st', r) \<Longrightarrow> oe_packer env = p \<Longrightarrow> session_step p st st'"
| after_turn: "current_session st a = Some i \<Longrightarrow> session_or_new p i a (os_store st) = Ok x
     \<Longrightarrow> session_step p st (st\<lparr>os_store := save_session p t (x\<lparr>sess_messages := ms\<rparr>) (os_store st)\<rparr>)"

lemma current_after_modify:
  assumes "modify_entry t f (Kernel.registry (os_kernel st)) a = (r, res)"
  shows "current_session (with_registry (\<lambda>_. r) st) b =
    (if b = a then map_option (\<lambda>e. session_id (f e)) (agent_in st a) else current_session st b)"
  using assms
  by (auto simp: modify_entry_def current_session_def agent_in_def with_registry_def get_agent_def
      split: option.splits)

lemma current_persist [simp]: "current_session (persist a st) b = current_session st b"
  by (simp add: persist_def current_session_def agent_in_def split: option.split)

lemma store_kept [simp]:
  "os_store (persist a st) = os_store st" "os_store (with_registry f st) = os_store st"
  by (simp_all add: persist_def with_registry_def split: option.split)

lemma current_store [simp]: "current_session (st\<lparr>os_store := s\<rparr>) b = current_session st b"
  by (simp add: current_session_def agent_in_def)

lemma change_agent_keeps:
  assumes "change_agent (\<lambda>r. modify_entry t f r a) a' st = (st', res)" "\<And>e. session_id (f e) = session_id e"
  shows "current_session st' b = current_session st b \<and> os_store st' = os_store st"
proof -
  obtain r x where m: "modify_entry t f (Kernel.registry (os_kernel st)) a = (r, x)"
    by (cases "modify_entry t f (Kernel.registry (os_kernel st)) a")
  have "current_session (with_registry (\<lambda>_. r) st) b = current_session st b"
    unfolding current_after_modify [OF m] by (simp add: assms(2) current_session_def)
  then show ?thesis
    using assms(1) by (auto simp: change_agent_def m split: sum.splits)
qed

lemma owned_kept:
  "owned st \<Longrightarrow> (\<And>b. current_session st' b = current_session st b) \<Longrightarrow> os_store st' = os_store st \<Longrightarrow> owned st'"
  by (simp add: owned_def)

lemma switch_to_current:
  assumes "switch_to env a i st = (st', res)"
  shows "os_store st' = os_store st \<and> (current_session st' b = current_session st b
    \<or> b = a \<and> current_session st' b = Some i)"
proof -
  obtain r x where m: "modify_entry (oe_now env) (\<lambda>e. e\<lparr>session_id := i\<rparr>) (Kernel.registry (os_kernel st)) a = (r, x)"
    by (cases "modify_entry (oe_now env) (\<lambda>e. e\<lparr>session_id := i\<rparr>) (Kernel.registry (os_kernel st)) a")
  have "st' = with_registry (\<lambda>_. r) st"
    using assms by (simp add: switch_to_def update_session_id_def m)
  then show ?thesis
    using current_after_modify [OF m, of b] by (cases "agent_in st a") (auto simp: current_session_def)
qed

text \<open>Moving an agent to a session that is its own, or that has no row and is nobody's.\<close>

lemma owned_switch:
  assumes "switch_to env a i st = (st', res)" "owned st"
    and row: "\<And>r. map_of (session_rows (os_store st)) i = Some r \<Longrightarrow> row_agent r = a"
    and free: "\<And>b. current_session st b = Some i \<Longrightarrow> b = a"
  shows "owned st'"
proof (rule ownedI)
  fix b j r
  assume "current_session st' b = Some j" "map_of (session_rows (os_store st')) j = Some r"
  moreover from switch_to_current [OF assms(1), of b]
  consider "current_session st' b = current_session st b" | "b = a" "current_session st' b = Some i"
    by blast
  ultimately show "row_agent r = b"
    using switch_to_current [OF assms(1), of b] row ownedD(1) [OF assms(2), of b j r] by cases auto
next
  fix b c j
  assume "current_session st' b = Some j" "current_session st' c = Some j"
  then have "current_session st b = Some j \<or> b = a \<and> i = j" "current_session st c = Some j \<or> c = a \<and> i = j"
    using switch_to_current [OF assms(1), of b] switch_to_current [OF assms(1), of c] by auto
  then show "b = c"
    using free [of b] free [of c] ownedD(2) [OF assms(2), of c j b] by blast
qed

lemma saved_owner:
  "map_of (session_rows (save_session p t x s)) j = Some r \<Longrightarrow>
     row_agent r = (case map_of (session_rows s) j of None \<Rightarrow> sess_agent x | Some q \<Rightarrow> row_agent q)
     \<and> (j = sess_id x \<or> map_of (session_rows s) j = Some r)"
  by (auto simp: save_session_def Let_def map_of_update' split: option.splits if_splits)

lemma owned_save:
  assumes "owned st"
    and own: "\<And>a. current_session st a = Some (sess_id x) \<Longrightarrow>
      map_of (session_rows (os_store st)) (sess_id x) = None \<Longrightarrow> sess_agent x = a"
  shows "owned (st\<lparr>os_store := save_session p t x (os_store st)\<rparr>)"
proof (rule ownedI)
  fix a j r
  assume c: "current_session (st\<lparr>os_store := save_session p t x (os_store st)\<rparr>) a = Some j"
    and "map_of (session_rows (os_store (st\<lparr>os_store := save_session p t x (os_store st)\<rparr>))) j = Some r"
  with saved_owner [of p t x "os_store st" j r] ownedD(1) [OF assms(1)] own show "row_agent r = a"
    by (cases "map_of (session_rows (os_store st)) j") auto
next
  fix a b j
  assume "current_session (st\<lparr>os_store := save_session p t x (os_store st)\<rparr>) a = Some j"
    "current_session (st\<lparr>os_store := save_session p t x (os_store st)\<rparr>) b = Some j"
  then show "a = b" using ownedD(2) [OF assms(1)] by simp
qed

lemma owned_delete: "owned st \<Longrightarrow> owned (st\<lparr>os_store := delete_session i (os_store st)\<rparr>)"
  by (auto simp: owned_def delete_session_def delete_conv' split: if_splits)

lemma summary_keeps:
  assumes "summary_before_reset env a e st = Ok st'"
  shows "os_store st' = os_store st \<and> os_kernel st' = os_kernel st"
  using assms
  by (auto simp: summary_before_reset_def save_session_summary_def Let_def
      split: sum.splits option.splits if_splits)

text \<open>A new session, with an identifier not in use, taken up by the agent it is made for.\<close>

lemma owned_new:
  assumes "owned st" "unused i st"
    and "switch_to env a i (st\<lparr>os_store := save_session p t (new_session i a l) (os_store st)\<rparr>) = (st', r)"
  shows "owned st'"
proof (rule owned_switch [OF assms(3)])
  show "owned (st\<lparr>os_store := save_session p t (new_session i a l) (os_store st)\<rparr>)"
    using assms(2) by (intro owned_save [OF assms(1)]) (auto simp: unused_def new_session_def)
next
  show "b = a" if "current_session (st\<lparr>os_store := save_session p t (new_session i a l) (os_store st)\<rparr>) b = Some i" for b
    using that assms(2) by (simp add: unused_def)
next
  fix q
  assume "map_of (session_rows (os_store (st\<lparr>os_store := save_session p t (new_session i a l) (os_store st)\<rparr>))) i = Some q"
  with saved_owner [of p t "new_session i a l" "os_store st" i q] assms(2) show "row_agent q = a"
    by (auto simp: unused_def new_session_def split: option.splits)
qed

lemma loaded_row:
  "get_session p i s = Ok (Some x) \<Longrightarrow> sess_id x = i \<and> (\<exists>r. map_of (session_rows s) i = Some r \<and> sess_agent x = row_agent r)"
  by (auto simp: get_session_def session_of_row_def map_sum_Inr split: option.splits sum.splits)

lemma loaded_or_new:
  "session_or_new p i a s = Ok x \<Longrightarrow> sess_id x = i
     \<and> (case map_of (session_rows s) i of None \<Rightarrow> sess_agent x = a | Some r \<Rightarrow> sess_agent x = row_agent r)"
proof -
  assume "session_or_new p i a s = Ok x"
  then obtain y where y: "get_session p i s = Ok y" "x = (case y of None \<Rightarrow> new_session i a None | Some z \<Rightarrow> z)"
    by (auto simp: session_or_new_def map_sum_Inr)
  show ?thesis
  proof (cases y)
    case None
    then have "map_of (session_rows s) i = None"
      using y(1) by (auto simp: get_session_def map_sum_Inr split: option.splits)
    then show ?thesis using y(2) None by (simp add: new_session_def)
  next
    case (Some z)
    then show ?thesis using loaded_row [of p i s z] y by auto
  qed
qed

lemma reset_owned:
  assumes "reset_session env a st = (st', r)" "owned st" "unused (oe_session env) st"
  shows "owned st'"
proof (cases "\<exists>e st1. agent_in st a = Some e \<and> summary_before_reset env a e st = Ok st1")
  case True
  then obtain e st1 where e: "agent_in st a = Some e" "summary_before_reset env a e st = Ok st1" by blast
  let ?d = "st1\<lparr>os_store := delete_session (session_id e) (os_store st1)\<rparr>"
  have o: "owned ?d"
    using owned_delete [OF assms(2)] summary_keeps [OF e(2)]
    by (simp add: owned_def current_session_def agent_in_def)
  have u: "unused (oe_session env) ?d"
    using assms(3) summary_keeps [OF e(2)]
    by (auto simp: unused_def current_session_def agent_in_def delete_session_def delete_conv')
  have "\<exists>q. switch_to env a (oe_session env)
      (?d\<lparr>os_store := save_session (oe_packer env) (oe_stamp env) (new_session (oe_session env) a None) (os_store ?d)\<rparr>) = (st', q)"
    using assms(1) by (auto simp: reset_session_def e Let_def create_session_def split: prod.splits)
  then show ?thesis using owned_new [OF o u] by blast
next
  case False
  then have "st' = st"
    using assms(1) by (auto simp: reset_session_def split: option.splits sum.splits)
  then show ?thesis using assms(2) by simp
qed

lemma settings_keep:
  "set_agent_model env cat a n st = (st', r) \<Longrightarrow> current_session st' b = current_session st b \<and> os_store st' = os_store st"
  "set_agent_skills env ns a names st = (st', r) \<Longrightarrow> current_session st' b = current_session st b \<and> os_store st' = os_store st"
  "set_agent_mcp_servers env ts a names st = (st', r) \<Longrightarrow> current_session st' b = current_session st b \<and> os_store st' = os_store st"
proof -
  assume a: "set_agent_model env cat a n st = (st', r)"
  show "current_session st' b = current_session st b \<and> os_store st' = os_store st"
  proof (cases "find_model cat n")
    case None
    with a have "change_agent (\<lambda>r. modify_entry (oe_now env) (on_model (\<lambda>c. c\<lparr>model := n\<rparr>)) r a) a st = (st', r)"
      by (simp add: set_agent_model_def update_model_def)
    then show ?thesis by (rule change_agent_keeps) simp
  next
    case (Some m)
    with a have "change_agent (\<lambda>r. modify_entry (oe_now env)
        (on_model (\<lambda>c. c\<lparr>model := n, provider := model_provider m\<rparr>)) r a) a st = (st', r)"
      by (simp add: set_agent_model_def update_model_and_provider_def)
    then show ?thesis by (rule change_agent_keeps) simp
  qed
next
  assume a: "set_agent_skills env ns a names st = (st', r)"
  show "current_session st' b = current_session st b \<and> os_store st' = os_store st"
  proof (cases "if names = [] then None else find (\<lambda>n. n \<notin> set ns) names")
    case None
    with a have "change_agent (\<lambda>r. modify_entry (oe_now env) (on_manifest (\<lambda>m. m\<lparr>skills := names\<rparr>)) r a) a st = (st', r)"
      by (simp add: set_agent_skills_def update_skills_def)
    then show ?thesis by (rule change_agent_keeps) simp
  qed (use a in \<open>simp add: set_agent_skills_def\<close>)
next
  assume a: "set_agent_mcp_servers env ts a names st = (st', r)"
  show "current_session st' b = current_session st b \<and> os_store st' = os_store st"
  proof (cases "if names = [] then None else find (\<lambda>n. normalize_name n \<notin> set (known_servers ts)) names")
    case None
    with a have "change_agent (\<lambda>r. modify_entry (oe_now env) (on_manifest (\<lambda>m. m\<lparr>mcp_servers := names\<rparr>)) r a) a st = (st', r)"
      by (simp add: set_agent_mcp_servers_def update_mcp_servers_def)
    then show ?thesis by (rule change_agent_keeps) simp
  qed (use a in \<open>simp add: set_agent_mcp_servers_def\<close>)
qed

lemma step_owned:
  assumes "session_step p st st'" "owned st"
  shows "owned st'"
  using assms
proof (cases rule: session_step.cases)
  case (resetting env a r)
  then show ?thesis using reset_owned assms(2) by blast
next
  case (creating env a l r)
  then show ?thesis
    using owned_new [OF assms(2) creating(3)] assms(2)
    by (auto simp: create_agent_session_def create_session_with_label_def Let_def split: option.splits prod.splits)
next
  case (switching env a i r)
  show ?thesis
  proof (cases "\<exists>q. switch_to env a i st = (st', q) \<and> (\<exists>x. map_of (session_rows (os_store st)) i = Some x \<and> row_agent x = a)")
    case True
    then obtain q x where q: "switch_to env a i st = (st', q)" "map_of (session_rows (os_store st)) i = Some x" "row_agent x = a"
      by blast
    show ?thesis
      by (rule owned_switch [OF q(1) assms(2)]) (use q ownedD(1) [OF assms(2)] in auto)
  next
    case False
    then have "st' = st"
      using switching
      by (fastforce simp: switch_agent_session_def dest: loaded_row split: option.splits sum.splits if_splits)
    then show ?thesis using assms(2) by simp
  qed
next
  case (after_turn a i x t ms)
  then show ?thesis
    using assms(2) loaded_or_new [OF after_turn(3)]
      ownedD(2) [OF assms(2)] by (auto intro!: owned_save)
qed (use assms(2) settings_keep owned_kept in metis)+

lemma reachable_owned: "(session_step p)\<^sup>*\<^sup>* st st' \<Longrightarrow> owned st \<Longrightarrow> owned st'"
  by (induction rule: rtranclp_induct) (auto intro: step_owned)

text \<open>
  C27: From a state in which every agent is on a session of its own, no sequence of resets, new
  sessions, switches, changes of model, skills or servers and saved turns ever puts an agent on a
  conversation of another: the session a turn loads belongs to the agent, and no other agent is on
  it.
\<close>

theorem turn_session_owned:
  assumes "(session_step p)\<^sup>*\<^sup>* st st'" "owned st"
    and "agent_in st' a = Some e" "session_or_new p (session_id e) a (os_store st') = Ok x"
  shows "sess_agent x = a \<and> sess_id x = session_id e
    \<and> (\<forall>b. b \<noteq> a \<longrightarrow> current_session st' b \<noteq> Some (session_id e))"
proof -
  have o: "owned st'" by (rule reachable_owned [OF assms(1,2)])
  have c: "current_session st' a = Some (session_id e)" by (simp add: current_session_def assms(3))
  show ?thesis
    using loaded_or_new [OF assms(4)] ownedD [OF o c] by (auto split: option.splits)
qed

section \<open>What a reset loses\<close>

lemma numbered_fails:
  "list_ex (\<lambda>t. length t > 200 \<and> \<not> is_char_boundary t 200) ts \<longleftrightarrow> \<not> is_ok (numbered i ts)"
proof (induction ts arbitrary: i)
  case (Cons t ts)
  have "is_ok (slice_to t 200) \<longleftrightarrow> is_char_boundary t 200" if "length t > 200"
    using that by (simp add: slice_to_def is_ok_conv)
  then show ?case
    using Cons.IH [of "Suc i"]
    by (cases "numbered (Suc i) ts"; cases "slice_to t 200") (auto simp: is_ok_conv)
qed simp

text \<open>
  A question of the user that is cut inside a character at byte 200 makes the reset panic before
  anything is changed: the session cannot be reset until the question has left the last ten messages.
\<close>

theorem reset_panics:
  assumes "agent_in st a = Some e" "get_session (oe_packer env) (session_id e) (os_store st) = Ok (Some s)"
    and "length (sess_messages s) \<ge> 2"
    and "t \<in> set (take 5 (topics_of (sess_messages s)))" "length t > 200" "\<not> is_char_boundary t 200"
  shows "\<exists>p. reset_session env a st = (st, Err p)"
proof -
  let ?ts = "topics_of (sess_messages s)"
  have "list_ex (\<lambda>t. length t > 200 \<and> \<not> is_char_boundary t 200) (take 5 ?ts)"
    using assms(4-6) by (auto simp: list_ex_iff)
  then obtain p where p: "numbered 1 (take 5 ?ts) = Err p"
    unfolding numbered_fails [where i = 1] by (cases "numbered 1 (take 5 ?ts)") (auto simp: is_ok_conv)
  have "session_summary env ?ts = Err p" unfolding session_summary_def p by simp
  moreover have "?ts \<noteq> []" using assms(4) by auto
  ultimately have "save_session_summary env a e (sess_messages s) st = Err p"
    by (simp add: save_session_summary_def)
  then show ?thesis
    by (simp add: reset_session_def summary_before_reset_def assms(1-3))
qed

text \<open>
  The start of the kernel restores the stored agents in the order \<open>load_all_agents\<close> gives them
  (\<open>boot_with_config\<close>): each is granted its capabilities and its quota before its registration, whose
  failure is only logged.
\<close>

definition restore_agent :: "nat \<Rightarrow> ('x \<Rightarrow> 'x) \<Rightarrow> 'x agent_entry \<Rightarrow> 'x kernel \<Rightarrow> 'x kernel" where
  "restore_agent secs fallback e k =
     k\<lparr>caps := grant (caps k) (entry_id e) (manifest_to_capabilities (manifest e)),
       scheduler := register_quota secs (scheduler k) (entry_id e) (resources (manifest e)),
       registry := fst (register (Kernel.registry k)
         (e\<lparr>state := Running,
            manifest := (manifest e)\<lparr>manifest_rest := fallback (manifest_rest (manifest e))\<rparr>\<rparr>))\<rparr>"

definition restore_agents :: "nat \<Rightarrow> ('x \<Rightarrow> 'x) \<Rightarrow> 'x agent_entry list \<Rightarrow> 'x kernel \<Rightarrow> 'x kernel" where
  "restore_agents secs fallback es k = fold (restore_agent secs fallback) es k"

lemma restored_other:
  assumes "entry_id e \<noteq> a"
  shows "agents (Kernel.registry (restore_agent c f e k)) a = agents (Kernel.registry k) a
    \<and> list_capabilities (caps (restore_agent c f e k)) a = list_capabilities (caps k) a"
  using assms
  by (simp add: restore_agent_def register_def list_capabilities_def manager.get_put)

lemma restored_name:
  "n \<notin> dom (name_index (Kernel.registry k)) \<Longrightarrow> entry_name e \<noteq> n
     \<Longrightarrow> n \<notin> dom (name_index (Kernel.registry (restore_agent c f e k)))"
  by (auto simp: restore_agent_def register_def)

text \<open>A stored agent, its identifier and name its own, comes back running with what it may do.\<close>

lemma restore_keeps:
  assumes "\<forall>x \<in> set es. entry_id x \<noteq> a"
  shows "agents (Kernel.registry (restore_agents c f es k)) a = agents (Kernel.registry k) a
    \<and> list_capabilities (caps (restore_agents c f es k)) a = list_capabilities (caps k) a"
  using assms unfolding restore_agents_def
  by (induction es arbitrary: k) (simp_all add: restored_other)

lemma restore_fresh_name:
  "n \<notin> dom (name_index (Kernel.registry k)) \<Longrightarrow> \<forall>x \<in> set es. entry_name x \<noteq> n
     \<Longrightarrow> n \<notin> dom (name_index (Kernel.registry (restore_agents c f es k)))"
  unfolding restore_agents_def by (induction es arbitrary: k) (simp_all add: restored_name)

theorem restart_restores:
  assumes "es = es1 @ e # es2" "\<forall>x \<in> set (es1 @ es2). entry_id x \<noteq> entry_id e \<and> entry_name x \<noteq> entry_name e"
    and "entry_name e \<notin> dom (name_index (Kernel.registry k))"
  shows "\<exists>e'. get_agent (Kernel.registry (restore_agents c f es k)) (entry_id e) = Some e'
    \<and> state e' = Running \<and> session_id e' = session_id e \<and> mode e' = mode e \<and> entry_tags e' = entry_tags e
    \<and> list_capabilities (caps (restore_agents c f es k)) (entry_id e) = manifest_to_capabilities (manifest e)"
proof -
  let ?k1 = "restore_agents c f es1 k"
  let ?k2 = "restore_agent c f e ?k1"
  have split: "restore_agents c f es k = restore_agents c f es2 ?k2"
    by (simp add: restore_agents_def assms(1))
  have "entry_name e \<notin> dom (name_index (Kernel.registry ?k1))"
    using assms(2,3) by (intro restore_fresh_name) auto
  then have k2: "agents (Kernel.registry ?k2) (entry_id e) = Some (e\<lparr>state := Running,
      manifest := (manifest e)\<lparr>manifest_rest := f (manifest_rest (manifest e))\<rparr>\<rparr>)"
    "list_capabilities (caps ?k2) (entry_id e) = manifest_to_capabilities (manifest e)"
    by (simp_all add: restore_agent_def register_def list_capabilities_def manager.get_put)
  have "\<forall>x \<in> set es2. entry_id x \<noteq> entry_id e" using assms(2) by auto
  then show ?thesis
    unfolding split get_agent_def
    using restore_keeps [of es2 "entry_id e" c f ?k2] k2 by simp
qed

text \<open>
  A reset deletes the old session but does not save the agent: the entry on disk still names the
  deleted session, and a restart goes back to it, empty.
\<close>

theorem reset_not_saved:
  assumes "reset_session env a st = (st', Ok (Ok ()))" "agent_in st a = Some e"
    and "stored (os_kernel st) a = Some e" "oe_session env \<noteq> session_id e"
  shows "stored (os_kernel st') a = Some e \<and> map_of (session_rows (os_store st')) (session_id e) = None
    \<and> current_session st' a = Some (oe_session env)"
proof -
  obtain st1 where s1: "summary_before_reset env a e st = Ok st1"
    using assms(1,2) by (auto simp: reset_session_def split: sum.splits)
  note k = summary_keeps [OF s1]
  have e1: "agents (Kernel.registry (os_kernel st1)) a = Some e"
    using assms(2) k by (simp add: agent_in_def get_agent_def)
  show ?thesis
    using assms(1,3,4) k e1
    by (auto simp: reset_session_def assms(2) s1 switch_to_def update_session_id_def modify_entry_def
        create_session_def new_session_def save_session_def delete_session_def map_of_update' delete_conv' with_registry_def
        current_session_def agent_in_def get_agent_def Let_def)
qed

section \<open>Two agents\<close>

definition two_agents :: "unit ops_state" where
  "two_agents = \<lparr>os_kernel = empty_kernel\<lparr>registry := new_registry\<lparr>agents :=
       [1 \<mapsto> new_entry (sample_env 1) None (sample_manifest ''one'' no_capabilities None []),
        2 \<mapsto> new_entry (sample_env 2) None (sample_manifest ''two'' no_capabilities None [])]\<rparr>\<rparr>,
     os_store = empty_store, os_notes = (\<lambda>_. Map.empty), os_files = []\<rparr>"

definition ops_env_at :: "session_id \<Rightarrow> string ops_env" where
  "ops_env_at i = \<lparr>oe_packer = byte_packer, oe_now = 5, oe_stamp = ''t'', oe_date = ''2026-01-01'',
     oe_session = i, oe_lower = to_lowercase, oe_alnum = (\<lambda>_. True)\<rparr>"

lemma two_agents_owned: "owned two_agents"
  by (auto simp: owned_def two_agents_def empty_store_def current_session_def agent_in_def get_agent_def
      new_entry_def sample_env_def split: if_splits)

definition after_create :: "unit ops_state" where
  "after_create = fst (create_agent_session (ops_env_at 30) 1 None two_agents)"

lemma after_create_step: "session_step byte_packer two_agents after_create"
proof (rule creating [where env = "ops_env_at 30" and a = 1 and l = None])
  show "create_agent_session (ops_env_at 30) 1 None two_agents
      = (after_create, snd (create_agent_session (ops_env_at 30) 1 None two_agents))"
    by (simp add: after_create_def)
  show "unused (oe_session (ops_env_at 30)) two_agents"
    by (auto simp: unused_def two_agents_def empty_store_def current_session_def agent_in_def get_agent_def
        new_entry_def sample_env_def ops_env_at_def split: if_splits)
qed (simp add: ops_env_at_def)

lemma after_create_facts:
  "agent_in after_create 1 \<noteq> None" "current_session after_create 1 = Some 30"
  "map_of (session_rows (os_store after_create)) 30 = Some \<lparr>row_agent = 1, row_messages = to_vec_named byte_packer [],
     row_window = 0, row_label = None, row_created = ''t'', row_updated = ''t''\<rparr>"
  by (simp_all add: after_create_def create_agent_session_def two_agents_def agent_in_def get_agent_def
      switch_to_def update_session_id_def modify_entry_def with_registry_def Let_def create_session_with_label_def
      save_session_def new_session_def empty_store_def ops_env_at_def current_session_def empty_kernel_def new_registry_def)

lemma turn_session_owned_witness:
  "\<exists>e x. agent_in after_create 1 = Some e \<and> session_id e = 30
     \<and> session_or_new byte_packer 30 1 (os_store after_create) = Ok x \<and> sess_agent x = 1
     \<and> current_session after_create 2 \<noteq> Some 30
     \<and> snd (switch_agent_session (ops_env_at 40) 2 30 after_create) = Err ForeignSession"
proof -
  obtain e where e: "agent_in after_create 1 = Some e" "session_id e = 30"
    using after_create_facts(1,2) by (auto simp: current_session_def)
  have g: "get_session byte_packer 30 (os_store after_create)
      = Ok (Some \<lparr>sess_id = 30, sess_agent = 1, sess_messages = [], sess_window = 0, sess_label = None\<rparr>)"
    using byte_packer_ok
    by (simp add: get_session_def after_create_facts(3) session_of_row_def decode_def packer_ok_def)
  then obtain x where x: "session_or_new byte_packer 30 1 (os_store after_create) = Ok x"
    by (simp add: session_or_new_def)
  have t: "(session_step byte_packer)\<^sup>*\<^sup>* two_agents after_create"
    using after_create_step by blast
  have two: "agent_in after_create 2 \<noteq> None"
    by (simp add: after_create_def create_agent_session_def two_agents_def agent_in_def get_agent_def
      switch_to_def update_session_id_def modify_entry_def with_registry_def Let_def create_session_with_label_def
      ops_env_at_def empty_kernel_def new_registry_def)
  have "sess_agent x = 1" "current_session after_create 2 \<noteq> Some 30"
    using turn_session_owned [OF t two_agents_owned e(1)] x e(2) by auto
  moreover have "snd (switch_agent_session (ops_env_at 40) 2 30 after_create) = Err ForeignSession"
    using two g by (auto simp: switch_agent_session_def ops_env_at_def)
  ultimately show ?thesis using e x by blast
qed

end
