(* ===== verification/Spec2Isabelle.thy ===== *)
theory Spec2Isabelle
  imports Capability Taint Loop_Guard Session_Repair Result_Strip Tool_Policy Exec_Policy Kernel
    Agent_Loop_Facts Workspace Patch Audit_Trail Workflow_Facts
    Cron Supervision Background Auto_Reply Channel_Access Wasm_Host Api_Gate Metering Pairing Wire Turn
    Hands Session_Ops Skills
begin

text \<open>
  A verification development for ClawReform, an operating system for autonomous agents written in
  Rust (the crates under \<open>src/crates/\<close>). A kernel keeps agents, their permissions, schedules and
  budgets; a runtime drives each agent in a loop of model calls and tool calls; channels, HTTP, peers
  and guests of a sandbox bring messages and requests in from outside. The definitions are a
  translation of that code into functions, state passing and step relations; the theorems state what
  makes the parts correct and where the code falls short of what it means to do.

  \<^bold>\<open>How the parts interact.\<close> A message reaches an agent from a channel (bridge, router, user roles), an
  HTTP request (gate), a peer (wire protocol), a cron job, a trigger or a background loop. The kernel
  checks token and cost quotas, loads the session, composes the manifest the turn runs with and starts
  the agent loop. The loop repairs the history, fits it into the model's window, asks the model with
  retries and a circuit breaker, and runs the tools the answer asks for; each passes the loop guard,
  the capability list, the approval gate, the taint check, the execution policy and, for files, the
  confinement to the workspace. The session is saved, the memory of the agent and the usage ledger are
  updated, and the audit log is extended.

  \<^bold>\<open>Conventions.\<close> A Rust string is the list of its UTF-8 bytes, so a slice at an offset inside a
  character is a panic (\<open>Err SliceNotOnBoundary\<close>). A \<open>Result\<close> is a sum with \<open>Err\<close> and \<open>Ok\<close>; where
  the code can also panic, the panic is a result around it. A struct is a record and an enum a
  datatype. Integers that wrap or saturate in the code are words or have the bound written out; where
  no value in reach of the code can overflow they are natural numbers. The finite floating point
  numbers are rationals with the rounding of theory \<open>Float64\<close>. A concurrent map is a map or a list in
  the order of an iteration; operations that tasks can interleave are cut into atomic steps. Random
  identifiers, the clock, the environment and answers from outside are arguments.

  \<^bold>\<open>Theories and the code they model.\<close>
  \<^item> \<open>Prelude\<close>, \<open>Str_Utils\<close>, \<open>Float64\<close>, \<open>Net_Address\<close>: the standard library as far as it is used
    (strings, slices, case folding of ASCII, \<open>f64\<close>, IP addresses) and \<open>str_utils.rs\<close>; the locales
    \<open>keyed_store\<close> (a store of values per key) and \<open>delegation\<close> (a preorder of permissions along a
    chain), both interpreted in \<open>Capability\<close>.
  \<^item> Permissions: \<open>Capability\<close> (\<open>clawreform-types/src/capability.rs\<close>, \<open>clawreform-kernel/src/capabilities.rs\<close>),
    \<open>Taint\<close> (\<open>taint.rs\<close>), \<open>Tool_Policy\<close> (\<open>tool_policy.rs\<close>), \<open>Exec_Policy\<close> (\<open>subprocess_sandbox.rs\<close>),
    \<open>Approval\<close> (both \<open>approval.rs\<close>), \<open>Auth\<close> (\<open>auth.rs\<close>).
  \<^item> Kernel: \<open>Agent\<close> (\<open>agent.rs\<close>), \<open>Registry\<close>, \<open>Scheduler\<close>, \<open>Event\<close>, \<open>Triggers\<close>, \<open>Supervision\<close>,
    \<open>Background\<close>, \<open>Auto_Reply\<close>, \<open>Cron\<close>, \<open>Workflow\<close> with \<open>Workflow_Facts\<close>, \<open>Metering\<close>, \<open>Pairing\<close> (the
    files of these names under \<open>clawreform-kernel/src/\<close>; usage rows are \<open>clawreform-memory/src/usage.rs\<close>);
    \<open>Kernel\<close>, \<open>Turn\<close>, \<open>Session_Ops\<close> and \<open>Hands\<close> (\<open>kernel.rs\<close>: spawning and killing, the turn of an
    agent, sessions and settings between turns and the restart, and hands with
    \<open>clawreform-hands/src/\<close>).
  \<^item> Sessions: \<open>Message\<close> (\<open>message.rs\<close>), \<open>Session_Repair\<close> and \<open>Result_Strip\<close> (\<open>session_repair.rs\<close>),
    \<open>Session_Store\<close> (\<open>clawreform-memory/src/session.rs\<close>), \<open>Compactor\<close> (\<open>compactor.rs\<close>).
  \<^item> The loop (\<open>clawreform-runtime/src/\<close>): \<open>Agent_Loop\<close> and \<open>Agent_Loop_Facts\<close> (\<open>agent_loop.rs\<close>), over
    \<open>Loop_Guard\<close>, \<open>Context_Budget\<close>, \<open>Reply_Directives\<close>, \<open>Response_Sanitizer\<close>, \<open>Tool_Recovery\<close>, \<open>Hooks\<close>,
    \<open>Prompt\<close>, \<open>Mcp\<close>, \<open>Skills\<close> (\<open>clawreform-skills/src/\<close>), \<open>Tool_Gate\<close> (\<open>execute_tool\<close> of \<open>tool_runner.rs\<close>), \<open>Llm_Errors\<close>, \<open>Auth_Cooldown\<close>,
    \<open>Llm_Retry\<close>, and the choice of a model in \<open>Model_Catalog\<close> and \<open>Model_Routing\<close>.
  \<^item> Files and effects: \<open>Filesystem\<close> (paths and a POSIX tree with symbolic links, the operating system's
    part), \<open>Workspace\<close> (\<open>workspace_sandbox.rs\<close>), \<open>Patch\<close> (\<open>apply_patch.rs\<close>), \<open>Audit_Trail\<close> (\<open>audit.rs\<close>).
  \<^item> Outside: \<open>Channel_Router\<close>, \<open>Channel_Format\<close>, \<open>Channel_Bridge\<close>, \<open>Channel_Access\<close>
    (\<open>clawreform-channels/src/\<close>), \<open>Web_Content\<close> and \<open>Web_Fetch\<close>, \<open>Wasm_Host\<close> (\<open>host_functions.rs\<close>),
    \<open>Api_Gate\<close> (\<open>server.rs\<close>, \<open>middleware.rs\<close>, \<open>rate_limiter.rs\<close> of \<open>clawreform-api\<close>), \<open>Wire\<close>
    (\<open>clawreform-wire/src/\<close>).

  \<^bold>\<open>What the lemmas show.\<close> Most important first: a run of the loop ends within a bound of model
  calls and tools, its session pairs every tool use with one result, and what it sends is well formed;
  file tools, patches and guests stay inside the workspace, its symbolic links included, and no host
  call or tool runs before its gates; no chain of spawns holds more than its root; requests without
  the key reach exactly the listed handlers, and peers nothing without the handshake; an agent over its
  budget causes no call, and an answered turn is metered once; an activated hand holds what its
  definition says. Invariants (registry indexes, ownership of sessions, canonical memory, repaired and
  compacted histories) hold along all sequences of operations; optimised routines (glob matching, the
  streaming parser of directives, the command allow-list, the workflow engine) equal their plain
  specifications. Theorems named for a failure (\<open>native_spawn_escalates\<close>, \<open>failed_activation_blocks\<close>,
  \<open>canonical_memory_stuck\<close>, \<open>reset_panics\<close>, \<open>reset_not_saved\<close> and others) exhibit inputs on which the
  code does what it should not.

  \<^bold>\<open>Bounds and fuel.\<close> Recursion is structural or has a measure with these exceptions. \<open>trim_fuel\<close>,
  \<open>words_fuel\<close> and \<open>get_list\<close> are given the length of the text, and every step consumes a byte; the
  message loop of a peer is given the length of its input, and every step reads from it; resolution of
  symbolic links gives up after 40 links, as Linux does. The splitting of long messages is a
  \<open>partial_function\<close>, since its loop need not end. Retries, iterations and continuations count up to the
  limits of the code.

  \<^bold>\<open>Parameters.\<close> SHA-256 and HMAC, JSON, TOML, YAML and MessagePack, cron expressions, the rate
  limiter, name resolution, HTTP, the model drivers, the embedding, subprocesses, the WASM and Python
  runtimes, Unicode tables and the texts of identifiers and floats are arguments of the definitions.
  What a theorem needs of them is a hypothesis by name (\<open>packer_ok\<close>, for instance), with a witness in
  which a concrete function satisfies it.

  \<^bold>\<open>Not modelled.\<close> Channel adapters, model drivers, the command line, the desktop application, the
  bodies of the HTTP handlers, media, browser and search tools, the market of skills and the conversion of Node packages, extensions with
  their vault and OAuth flows, and the converter of OpenClaw files are input and output around
  libraries. The semantic, structured and knowledge memories are SQL statements. Of the system prompt
  only the memory section is modelled, of the shell tool the policy but not the signals sent to a
  process tree, of the metering not the summaries for display, of the kernel's start only the restoring
  of agents. Helpers for processes, containers and shutdown, the reload of the configuration and the
  signatures of manifests are left out. Aborting a task in the middle of a step, SQL errors on
  the open database and failing memory allocation do not occur in the model.
\<close>

end
